(* ===== verification/Py_Values.thy ===== *)
theory Py_Values
  imports Complex_Main "HOL-Library.AList" "HOL-Library.Sublist" "HOL-Library.Char_ord"
    "HOL-Library.List_Lexorder"
begin

text \<open>
  The prelude of the development: the fragment of Python that the modelled modules of
  IncidentRelay use, as executable HOL functions.

  \<^item> JSON-compatible values (\<open>py\<close>), dictionaries as association lists in insertion
    order, and the operations \<open>d.get\<close>, \<open>d[k] = v\<close>, \<open>d.pop\<close>, \<open>k in d\<close>;
  \<^item> truth values, \<open>==\<close>, \<open>str\<close>, \<open>repr\<close>, \<open>int\<close>, \<open>Decimal\<close>;
  \<^item> the string methods \<open>strip\<close>, \<open>lower\<close>, \<open>upper\<close>, \<open>split\<close>, \<open>join\<close>, \<open>replace\<close>;
  \<^item> exceptions as values: a computation that may raise returns \<open>exn + 'a\<close>.

  Strings are lists of 8-bit characters; case mapping is that of ASCII. A float is
  represented by the text of its \<open>repr\<close>, which determines a finite float and is what
  \<open>str\<close> and \<open>Decimal(str(x))\<close> see; comparisons with integers go through the
  decimal value of that text.
\<close>

named_theorems py_simps \<open>evaluation of the Python fragment\<close>

section \<open>Values\<close>

datatype py =
    PNone
  | PBool bool
  | PInt int
  | PFloat string
  | PStr string
  | PList "py list"
  | PDict "(string \<times> py) list"

type_synonym pydict = "(string \<times> py) list"

fun is_str :: "py \<Rightarrow> bool" where
  "is_str (PStr _) = True"
| "is_str _ = False"

fun is_bool :: "py \<Rightarrow> bool" where
  "is_bool (PBool _) = True"
| "is_bool _ = False"

fun is_dict :: "py \<Rightarrow> bool" where
  "is_dict (PDict _) = True"
| "is_dict _ = False"

fun is_list :: "py \<Rightarrow> bool" where
  "is_list (PList _) = True"
| "is_list _ = False"

text \<open>The items of a value known to be a mapping; \<open>{}\<close> for every other value.\<close>

fun items :: "py \<Rightarrow> pydict" where
  "items (PDict d) = d"
| "items _ = []"

lemma is_strE: "is_str v \<Longrightarrow> (\<And>s. v = PStr s \<Longrightarrow> P) \<Longrightarrow> P"
  by (cases v) auto

lemma is_dictE: "is_dict v \<Longrightarrow> (\<And>d. v = PDict d \<Longrightarrow> P) \<Longrightarrow> P"
  by (cases v) auto

section \<open>Exceptions\<close>

datatype exn_class =
    FieldResolutionError
  | ConditionValidationError
  | RegexSafetyError
  | TemplateValidationError
  | ExtractionError
  | ActionValidationError
  | ValueError
  | TypeError
  | KeyError
  | AttributeError
  | LookupError
  | PermissionError
  | OverflowError
  | InvalidOperation

datatype exn = Exn (exn_cls: exn_class) (exn_msg: string) (exn_path: "string option")

type_synonym 'a result = "exn + 'a"

definition raise :: "exn_class \<Rightarrow> string \<Rightarrow> 'a result" where
  "raise c msg = Inl (Exn c msg None)"

definition raise_at :: "exn_class \<Rightarrow> string \<Rightarrow> string \<Rightarrow> 'a result" where
  "raise_at c msg path = Inl (Exn c msg (Some path))"

fun res_bind :: "'e + 'a \<Rightarrow> ('a \<Rightarrow> 'e + 'b) \<Rightarrow> 'e + 'b" where
  "res_bind (Inl e) f = Inl e"
| "res_bind (Inr x) f = f x"

lemma res_bind_cong [fundef_cong]:
  "m = m' \<Longrightarrow> (\<And>x. m' = Inr x \<Longrightarrow> f x = g x) \<Longrightarrow> res_bind m f = res_bind m' g"
  by (cases m') auto

lemma res_bind_Inr_iff:
  "res_bind m f = Inr y \<longleftrightarrow> (\<exists>x. m = Inr x \<and> f x = Inr y)"
  by (cases m) auto

lemma res_bind_Inl_iff:
  "res_bind m f = Inl e \<longleftrightarrow> m = Inl e \<or> (\<exists>x. m = Inr x \<and> f x = Inl e)"
  by (cases m) auto

lemma raise_neq_Inr [simp]: "raise c msg \<noteq> Inr x" "Inr x \<noteq> raise c msg"
  by (simp_all add: raise_def)

lemma raise_at_neq_Inr [simp]: "raise_at c msg p \<noteq> Inr x" "Inr x \<noteq> raise_at c msg p"
  by (simp_all add: raise_at_def)

fun is_ok :: "'e + 'a \<Rightarrow> bool" where
  "is_ok (Inl _) = False"
| "is_ok (Inr _) = True"

lemma is_ok_iff: "is_ok r \<longleftrightarrow> (\<exists>x. r = Inr x)"
  by (cases r) auto

section \<open>Dictionaries\<close>

text \<open>
  \<open>d.get(k)\<close> is \<open>dget d k\<close>, \<open>d.get(k, x)\<close> is \<open>dget_default d k x\<close>, \<open>k in d\<close> is \<open>dmem d k\<close>;
  \<open>d[k] = v\<close> overwrites in place or appends (\<open>AList.update\<close>), \<open>d.pop(k, None)\<close>
  removes the key (\<open>AList.delete\<close>).
\<close>

definition dget :: "pydict \<Rightarrow> string \<Rightarrow> py" where
  "dget d k = (case map_of d k of None \<Rightarrow> PNone | Some v \<Rightarrow> v)"

definition dget_default :: "pydict \<Rightarrow> string \<Rightarrow> py \<Rightarrow> py" where
  "dget_default d k x = (case map_of d k of None \<Rightarrow> x | Some v \<Rightarrow> v)"

definition dmem :: "pydict \<Rightarrow> string \<Rightarrow> bool" where
  "dmem d k \<longleftrightarrow> map_of d k \<noteq> None"

abbreviation dset :: "pydict \<Rightarrow> string \<Rightarrow> py \<Rightarrow> pydict" where
  "dset d k v \<equiv> AList.update k v d"

abbreviation dpop :: "pydict \<Rightarrow> string \<Rightarrow> pydict" where
  "dpop d k \<equiv> AList.delete k d"

definition dsetdefault :: "pydict \<Rightarrow> string \<Rightarrow> py \<Rightarrow> pydict" where
  "dsetdefault d k v = (if dmem d k then d else dset d k v)"

definition dupdate :: "pydict \<Rightarrow> pydict \<Rightarrow> pydict" where
  "dupdate d e = fold (\<lambda>(k, v) acc. dset acc k v) e d"

definition wf_dict :: "pydict \<Rightarrow> bool" where
  "wf_dict d \<longleftrightarrow> distinct (map fst d)"

lemma dget_dset [simp]: "dget (dset d k v) k' = (if k' = k then v else dget d k')"
  by (simp add: dget_def update_conv')

lemma dget_dpop [simp]: "dget (dpop d k) k' = (if k' = k then PNone else dget d k')"
  by (simp add: dget_def delete_conv')

lemma dmem_dset [simp]: "dmem (dset d k v) k' \<longleftrightarrow> k' = k \<or> dmem d k'"
  by (simp add: dmem_def update_conv')

lemma dmem_dpop [simp]: "dmem (dpop d k) k' \<longleftrightarrow> k' \<noteq> k \<and> dmem d k'"
  by (simp add: dmem_def delete_conv')

lemma dmem_iff: "dmem d k \<longleftrightarrow> k \<in> fst ` set d"
  by (simp add: dmem_def map_of_eq_None_iff)

lemma wf_dict_dset [simp]: "wf_dict d \<Longrightarrow> wf_dict (dset d k v)"
  by (simp add: wf_dict_def distinct_update)

lemma wf_dict_dpop [simp]: "wf_dict d \<Longrightarrow> wf_dict (dpop d k)"
  by (simp add: wf_dict_def distinct_delete)

lemma update_append_absent: "k \<notin> fst ` set d \<Longrightarrow> dset d k v = d @ [(k, v)]"
  by (induction d) auto

lemma length_dset: "length (dset d k v) = (if dmem d k then length d else Suc (length d))"
  by (induction d) (auto simp: dmem_def)

lemma dget_dsetdefault [simp]:
  "dget (dsetdefault d k v) k' = (if k' = k \<and> \<not> dmem d k then v else dget d k')"
  by (simp add: dsetdefault_def)

lemma dmem_dsetdefault [simp]: "dmem (dsetdefault d k v) k' \<longleftrightarrow> k' = k \<or> dmem d k'"
  by (auto simp: dsetdefault_def)

lemma map_of_dupdate: "map_of (dupdate d e) k = (case map_of (rev e) k of None \<Rightarrow> map_of d k | Some v \<Rightarrow> Some v)"
  unfolding dupdate_def
proof (induction e arbitrary: d)
  case Nil
  then show ?case by simp
next
  case (Cons p e)
  then show ?case
    by (cases p) (simp add: update_conv' map_add_def split: option.splits)
qed

lemma map_of_dupdate_wf:
  assumes "wf_dict e"
  shows "map_of (dupdate d e) k = (case map_of e k of None \<Rightarrow> map_of d k | Some v \<Rightarrow> Some v)"
proof -
  have "map_of (rev e) = map_of e"
    using assms by (intro map_of_inject_set [THEN iffD2]) (simp_all add: wf_dict_def rev_map [symmetric])
  then show ?thesis by (simp add: map_of_dupdate)
qed

section \<open>Strings\<close>

definition code_of :: "char \<Rightarrow> nat" where
  "code_of c = of_char c"

definition is_ws :: "char \<Rightarrow> bool" where
  "is_ws c \<longleftrightarrow> (let n = code_of c in
     (9 \<le> n \<and> n \<le> 13) \<or> (28 \<le> n \<and> n \<le> 32) \<or> n = 133 \<or> n = 160)"

definition strip :: "string \<Rightarrow> string" where
  "strip s = rev (dropWhile is_ws (rev (dropWhile is_ws s)))"

definition lower_char :: "char \<Rightarrow> char" where
  "lower_char c = (let n = code_of c in if 65 \<le> n \<and> n \<le> 90 then char_of (n + 32) else c)"

definition upper_char :: "char \<Rightarrow> char" where
  "upper_char c = (let n = code_of c in if 97 \<le> n \<and> n \<le> 122 then char_of (n - 32) else c)"

definition lower :: "string \<Rightarrow> string" where
  "lower s = map lower_char s"

definition upper :: "string \<Rightarrow> string" where
  "upper s = map upper_char s"

definition is_digit :: "char \<Rightarrow> bool" where
  "is_digit c \<longleftrightarrow> 48 \<le> code_of c \<and> code_of c \<le> 57"

definition is_alpha :: "char \<Rightarrow> bool" where
  "is_alpha c \<longleftrightarrow> (let n = code_of c in (65 \<le> n \<and> n \<le> 90) \<or> (97 \<le> n \<and> n \<le> 122))"

text \<open>\<open>needle in hay\<close> on strings.\<close>

abbreviation str_in :: "string \<Rightarrow> string \<Rightarrow> bool" where
  "str_in needle hay \<equiv> sublist needle hay"

text \<open>\<open>s.split(c)\<close> for a one-character separator: never empty.\<close>

fun split_char :: "char \<Rightarrow> string \<Rightarrow> string list" where
  "split_char c [] = [[]]"
| "split_char c (x # xs) =
     (if x = c then [] # split_char c xs
      else (case split_char c xs of [] \<Rightarrow> [[x]] | w # ws \<Rightarrow> (x # w) # ws))"

fun join :: "string \<Rightarrow> string list \<Rightarrow> string" where
  "join sep [] = []"
| "join sep [w] = w"
| "join sep (w # ws) = w @ sep @ join sep ws"

lemma split_char_not_Nil [simp]: "split_char c s \<noteq> []"
  by (induction s) (auto split: list.splits)

lemma join_Cons: "ws \<noteq> [] \<Longrightarrow> join sep (w # ws) = w @ sep @ join sep ws"
  by (cases ws) auto

lemma join_split_char: "join [c] (split_char c s) = s"
proof (induction s)
  case Nil
  then show ?case by simp
next
  case (Cons x xs)
  obtain w ws where w: "split_char c xs = w # ws"
    by (cases "split_char c xs") auto
  show ?case
  proof (cases "x = c")
    case True
    with Cons w show ?thesis by (simp add: join_Cons)
  next
    case False
    with Cons w show ?thesis by (cases ws) auto
  qed
qed

lemma split_char_no_sep: "c \<notin> set s \<Longrightarrow> split_char c s = [s]"
  by (induction s) auto

lemma split_char_append: "c \<notin> set w \<Longrightarrow> split_char c (w @ c # s) = w # split_char c s"
  by (induction w) auto

lemma split_char_append_sep: "split_char c (u @ c # v) = split_char c u @ split_char c v"
  by (induction u) (auto split: list.splits)

lemma split_char_empty_part:
  assumes "prefix [c] s \<or> suffix [c] s \<or> sublist [c, c] s"
  shows "[] \<in> set (split_char c s)"
proof -
  consider v where "s = c # v" | u where "s = u @ [c]" | u v where "s = u @ c # c # v"
    using assms by (auto simp: prefix_def suffix_def sublist_def)
  then show ?thesis
    by cases (simp_all add: split_char_append_sep)
qed

lemma split_char_join:
  "ws \<noteq> [] \<Longrightarrow> \<forall>w \<in> set ws. c \<notin> set w \<Longrightarrow> split_char c (join [c] ws) = ws"
proof (induction ws)
  case Nil
  then show ?case by simp
next
  case (Cons w ws)
  then show ?case
    by (cases ws) (simp_all add: split_char_no_sep split_char_append)
qed

lemma split_char_parts: "w \<in> set (split_char c s) \<Longrightarrow> c \<notin> set w"
proof (induction s arbitrary: w)
  case Nil
  then show ?case by simp
next
  case (Cons x xs)
  then show ?case
    by (cases "split_char c xs") (auto split: if_splits)
qed

text \<open>
  \<open>s.split(sep, maxsplit)\<close> for a non-empty separator, scanning left to right;
  \<open>None\<close> for \<open>maxsplit\<close> means no bound.
\<close>

function split_str_acc :: "string \<Rightarrow> nat option \<Rightarrow> string \<Rightarrow> string \<Rightarrow> string list" where
  "split_str_acc sep n acc s =
     (case s of
        [] \<Rightarrow> [rev acc]
      | c # cs \<Rightarrow>
          if sep \<noteq> [] \<and> n \<noteq> Some 0 \<and> prefix sep s
          then rev acc # split_str_acc sep (map_option (\<lambda>k. k - 1) n) [] (drop (length sep) s)
          else split_str_acc sep n (c # acc) cs)"
  by pat_completeness auto
termination
  by (relation "measure (\<lambda>(sep, n, acc, s). length s)") auto

declare split_str_acc.simps [simp del]

definition split_str :: "string \<Rightarrow> nat option \<Rightarrow> string \<Rightarrow> string list" where
  "split_str sep n s = split_str_acc sep n [] s"

lemma length_split_str_acc: "length (split_str_acc sep (Some n) acc s) \<le> Suc n"
proof (induction sep "Some n" acc s arbitrary: n rule: split_str_acc.induct)
  case (1 sep acc s)
  show ?case
  proof (cases s)
    case Nil
    then show ?thesis by (simp add: split_str_acc.simps)
  next
    case (Cons c cs)
    show ?thesis
    proof (cases "sep \<noteq> [] \<and> n \<noteq> 0 \<and> prefix sep s")
      case True
      with Cons have "length (split_str_acc sep (Some (n - 1)) [] (drop (length sep) s)) \<le> Suc (n - 1)"
        by (intro "1.hyps"(1) [OF Cons]) auto
      with True Cons show ?thesis
        by (subst split_str_acc.simps) auto
    next
      case False
      with Cons have "length (split_str_acc sep (Some n) (c # acc) cs) \<le> Suc n"
        by (intro "1.hyps"(2) [OF Cons]) auto
      with False Cons show ?thesis
        by (subst split_str_acc.simps) auto
    qed
  qed
qed

lemma length_split_str: "length (split_str sep (Some n) s) \<le> Suc n"
  by (simp add: split_str_def length_split_str_acc)

text \<open>\<open>text.replace(old, new)\<close>; an empty \<open>old\<close> matches between all characters.\<close>

definition replace :: "string \<Rightarrow> string \<Rightarrow> string \<Rightarrow> string" where
  "replace old new s =
     (if old = [] then new @ concat (map (\<lambda>c. c # new) s)
      else join new (split_str old None s))"

subsection \<open>Numbers as text\<close>

definition digit_char :: "nat \<Rightarrow> char" where
  "digit_char n = char_of (48 + n)"

fun nat_str :: "nat \<Rightarrow> string" where
  "nat_str n = (if n < 10 then [digit_char n] else nat_str (n div 10) @ [digit_char (n mod 10)])"

declare nat_str.simps [simp del]

definition int_str :: "int \<Rightarrow> string" where
  "int_str i = (if i < 0 then CHR ''-'' # nat_str (nat (- i)) else nat_str (nat i))"

definition digit_val :: "char \<Rightarrow> nat" where
  "digit_val c = code_of c - 48"

definition digits_val :: "string \<Rightarrow> nat" where
  "digits_val s = foldl (\<lambda>acc c. 10 * acc + digit_val c) 0 s"

lemma code_of_digit_char [simp]: "n < 10 \<Longrightarrow> code_of (digit_char n) = 48 + n"
  by (simp add: code_of_def digit_char_def)

lemma is_digit_digit_char [simp]: "n < 10 \<Longrightarrow> is_digit (digit_char n)"
  by (simp add: is_digit_def)

lemma digit_val_digit_char [simp]: "n < 10 \<Longrightarrow> digit_val (digit_char n) = n"
  by (simp add: digit_val_def)

lemma nat_str_not_Nil [simp]: "nat_str n \<noteq> []"
  by (subst nat_str.simps) simp

lemma nat_str_digits: "c \<in> set (nat_str n) \<Longrightarrow> is_digit c"
proof (induction n rule: nat_str.induct)
  case (1 n)
  then show ?case
    by (auto simp: nat_str.simps [of n] split: if_splits)
qed

lemma digits_val_snoc: "digits_val (s @ [c]) = 10 * digits_val s + digit_val c"
  by (simp add: digits_val_def)

lemma digits_val_nat_str [simp]: "digits_val (nat_str n) = n"
proof (induction n rule: nat_str.induct)
  case (1 n)
  show ?case
  proof (cases "n < 10")
    case True
    then show ?thesis by (subst nat_str.simps) (simp add: digits_val_def)
  next
    case False
    then have "digits_val (nat_str n) = 10 * digits_val (nat_str (n div 10)) + n mod 10"
      by (subst nat_str.simps) (simp add: digits_val_snoc)
    with False 1 show ?thesis by simp
  qed
qed

lemma nat_str_inject [simp]: "nat_str m = nat_str n \<longleftrightarrow> m = n"
  using digits_val_nat_str by metis

text \<open>\<open>int(s)\<close>: surrounding white space, a sign, digits with single underscores between them.\<close>

fun int_digits :: "string \<Rightarrow> string option" where
  "int_digits [] = None"
| "int_digits [c] = (if is_digit c then Some [c] else None)"
| "int_digits (c # d # s) =
     (if \<not> is_digit c then None
      else if d = CHR ''_'' then map_option (Cons c) (int_digits s)
      else map_option (Cons c) (int_digits (d # s)))"

definition parse_int :: "string \<Rightarrow> int option" where
  "parse_int text =
     (case strip text of
        [] \<Rightarrow> None
      | c # s \<Rightarrow>
          if c = CHR ''-'' then map_option (\<lambda>d. - int (digits_val d)) (int_digits s)
          else if c = CHR ''+'' then map_option (\<lambda>d. int (digits_val d)) (int_digits s)
          else map_option (\<lambda>d. int (digits_val d)) (int_digits (c # s)))"

text \<open>
  \<open>Decimal(s)\<close>, restricted to finite results: optional sign, digits with an optional
  point, an optional exponent; underscores and surrounding white space are ignored. The
  special values and malformed text are \<open>None\<close>.
\<close>

definition parse_exponent :: "string \<Rightarrow> int option" where
  "parse_exponent s =
     (case s of
        [] \<Rightarrow> Some 0
      | c # e \<Rightarrow>
          if c = CHR ''e'' \<or> c = CHR ''E'' then
            (case e of
               [] \<Rightarrow> None
             | sg # ds \<Rightarrow>
                 (let (neg, digs) = (if sg = CHR ''-'' then (True, ds)
                                     else if sg = CHR ''+'' then (False, ds) else (False, e))
                  in if digs \<noteq> [] \<and> list_all is_digit digs
                     then Some (if neg then - int (digits_val digs) else int (digits_val digs))
                     else None))
          else None)"

definition pow10 :: "int \<Rightarrow> rat" where
  "pow10 e = (if e < 0 then 1 / 10 ^ nat (- e) else 10 ^ nat e)"

definition parse_unsigned_decimal :: "string \<Rightarrow> rat option" where
  "parse_unsigned_decimal s =
     (let ip = takeWhile is_digit s; r = dropWhile is_digit s;
          (fp, r') = (case r of
                        [] \<Rightarrow> ([], [])
                      | c # r1 \<Rightarrow> if c = CHR ''.''
                                  then (takeWhile is_digit r1, dropWhile is_digit r1) else ([], r))
      in if ip = [] \<and> fp = [] then None
         else map_option (\<lambda>e. of_nat (digits_val (ip @ fp)) * pow10 (e - int (length fp)))
                (parse_exponent r'))"

definition parse_decimal :: "string \<Rightarrow> rat option" where
  "parse_decimal text =
     (case filter (\<lambda>c. c \<noteq> CHR ''_'') (strip text) of
        [] \<Rightarrow> None
      | c # s \<Rightarrow>
          if c = CHR ''-'' then map_option uminus (parse_unsigned_decimal s)
          else if c = CHR ''+'' then parse_unsigned_decimal s
          else parse_unsigned_decimal (c # s))"

section \<open>Truth values, equality, text\<close>

definition float_finite :: "string \<Rightarrow> bool" where
  "float_finite t \<longleftrightarrow> parse_decimal t \<noteq> None"

fun truthy :: "py \<Rightarrow> bool" where
  "truthy PNone = False"
| "truthy (PBool b) = b"
| "truthy (PInt i) = (i \<noteq> 0)"
| "truthy (PFloat t) = (parse_decimal t \<noteq> Some 0)"
| "truthy (PStr s) = (s \<noteq> [])"
| "truthy (PList xs) = (xs \<noteq> [])"
| "truthy (PDict d) = (d \<noteq> [])"

text \<open>\<open>a or b\<close>\<close>

definition py_or :: "py \<Rightarrow> py \<Rightarrow> py" where
  "py_or a b = (if truthy a then a else b)"

fun num_val :: "py \<Rightarrow> rat option" where
  "num_val (PBool b) = Some (if b then 1 else 0)"
| "num_val (PInt i) = Some (of_int i)"
| "num_val (PFloat t) = parse_decimal t"
| "num_val _ = None"

fun is_number :: "py \<Rightarrow> bool" where
  "is_number (PBool _) = True"
| "is_number (PInt _) = True"
| "is_number (PFloat _) = True"
| "is_number _ = False"

text \<open>
  \<open>a == b\<close>: numbers (booleans included) by value, lists elementwise, dictionaries as
  maps. Non-finite floats equal themselves by their text, except \<open>nan\<close>.
\<close>

definition num_eq :: "py \<Rightarrow> py \<Rightarrow> bool" where
  "num_eq a b =
     (case (num_val a, num_val b) of
        (Some x, Some y) \<Rightarrow> x = y
      | (None, None) \<Rightarrow> a = b \<and> a \<noteq> PFloat ''nan''
      | _ \<Rightarrow> False)"

lemma size_map_of [termination_simp]:
  "map_of d k = Some v \<Longrightarrow> size v < Suc (size_list (\<lambda>x. Suc (size (snd x))) d)"
  by (induction d) (auto split: if_splits)

lemma size_map_of_prod [termination_simp]:
  "map_of d k = Some v \<Longrightarrow> size v < Suc (size_list (size_prod (\<lambda>_. 0) size) d)"
  by (induction d) (auto split: if_splits)

lemma size_zip_fst [termination_simp]:
  "(a, b) \<in> set (zip xs ys) \<Longrightarrow> size a < Suc (size_list size xs)"
  by (induction xs ys rule: list_induct2') auto

fun py_eq :: "py \<Rightarrow> py \<Rightarrow> bool" where
  "py_eq PNone b = (b = PNone)"
| "py_eq (PBool x) b = (is_number b \<and> num_eq (PBool x) b)"
| "py_eq (PInt x) b = (is_number b \<and> num_eq (PInt x) b)"
| "py_eq (PFloat x) b = (is_number b \<and> num_eq (PFloat x) b)"
| "py_eq (PStr s) b = (b = PStr s)"
| "py_eq (PList xs) b =
     (case b of PList ys \<Rightarrow> length xs = length ys \<and> list_all (\<lambda>(x, y). py_eq x y) (zip xs ys) | _ \<Rightarrow> False)"
| "py_eq (PDict d) b =
     (case b of
        PDict e \<Rightarrow> length d = length e \<and>
          list_all (\<lambda>(k, v). (case map_of e k of None \<Rightarrow> False | Some w \<Rightarrow> py_eq v w)) d
      | _ \<Rightarrow> False)"

text \<open>\<open>x in xs\<close> for a list.\<close>

definition py_in_list :: "py \<Rightarrow> py list \<Rightarrow> bool" where
  "py_in_list x xs \<longleftrightarrow> list_ex (py_eq x) xs"

subsection \<open>\<open>repr\<close> and \<open>str\<close>\<close>

definition hex_digit :: "nat \<Rightarrow> char" where
  "hex_digit n = (if n < 10 then char_of (48 + n) else char_of (87 + n))"

definition repr_char :: "char \<Rightarrow> char \<Rightarrow> string" where
  "repr_char q c =
     (let n = code_of c in
      if c = q \<or> n = 92 then [char_of (92::nat), c]
      else if n = 10 then [char_of (92::nat), CHR ''n'']
      else if n = 13 then [char_of (92::nat), CHR ''r'']
      else if n = 9 then [char_of (92::nat), CHR ''t'']
      else if n < 32 \<or> (127 \<le> n \<and> n \<le> 160) \<or> n = 173
      then [char_of (92::nat), CHR ''x'', hex_digit (n div 16), hex_digit (n mod 16)]
      else [c])"

definition repr_str :: "string \<Rightarrow> string" where
  "repr_str s =
     (let q = (if CHR 0x27 \<in> set s \<and> CHR 0x22 \<notin> set s then CHR 0x22 else CHR 0x27)
      in q # concat (map (repr_char q) s) @ [q])"

fun py_repr :: "py \<Rightarrow> string" where
  "py_repr PNone = ''None''"
| "py_repr (PBool b) = (if b then ''True'' else ''False'')"
| "py_repr (PInt i) = int_str i"
| "py_repr (PFloat t) = t"
| "py_repr (PStr s) = repr_str s"
| "py_repr (PList xs) = ''['' @ join '', '' (map py_repr xs) @ '']''"
| "py_repr (PDict d) = ''{'' @ join '', '' (map (\<lambda>(k, v). repr_str k @ '': '' @ py_repr v) d) @ ''}''"

fun py_str :: "py \<Rightarrow> string" where
  "py_str (PStr s) = s"
| "py_str v = py_repr v"

text \<open>\<open>json.dumps(v, ensure_ascii=False, separators=(",", ":"))\<close>\<close>

definition json_char :: "char \<Rightarrow> string" where
  "json_char c =
     (let n = code_of c in
      if n = 34 \<or> n = 92 then [char_of (92::nat), c]
      else if n = 10 then [char_of (92::nat), CHR ''n'']
      else if n = 13 then [char_of (92::nat), CHR ''r'']
      else if n = 9 then [char_of (92::nat), CHR ''t'']
      else if n = 12 then [char_of (92::nat), CHR ''f'']
      else if n = 8 then [char_of (92::nat), CHR ''b'']
      else if n < 32
      then char_of (92::nat) # ''u00'' @ [hex_digit (n div 16), hex_digit (n mod 16)]
      else [c])"

definition json_str :: "string \<Rightarrow> string" where
  "json_str s = CHR 0x22 # concat (map json_char s) @ [CHR 0x22]"

fun json_dumps :: "py \<Rightarrow> string" where
  "json_dumps PNone = ''null''"
| "json_dumps (PBool b) = (if b then ''true'' else ''false'')"
| "json_dumps (PInt i) = int_str i"
| "json_dumps (PFloat t) = t"
| "json_dumps (PStr s) = json_str s"
| "json_dumps (PList xs) = ''['' @ join '','' (map json_dumps xs) @ '']''"
| "json_dumps (PDict d) = ''{'' @ join '','' (map (\<lambda>(k, v). json_str k @ '':'' @ json_dumps v) d) @ ''}''"

definition utf8_length :: "string \<Rightarrow> nat" where
  "utf8_length s = sum_list (map (\<lambda>c. if code_of c < 128 then 1 else 2) s)"

lemma py_eq_refl_str [simp]: "py_eq (PStr s) (PStr t) \<longleftrightarrow> s = t"
  by auto

lemma truthy_PDict_items: "is_dict v \<Longrightarrow> truthy v \<longleftrightarrow> items v \<noteq> []"
  by (cases v) auto

subsection \<open>Stripping and lowering\<close>

lemma dropWhile_idem_hd: "dropWhile P (dropWhile P xs) = dropWhile P xs"
  by (induction xs) auto

lemma hd_dropWhile_rev:
  assumes "xs = [] \<or> \<not> P (hd xs)" and "ys = rev (dropWhile P (rev xs))"
  shows "ys = [] \<or> \<not> P (hd ys)"
proof -
  have "rev xs = takeWhile P (rev xs) @ rev ys"
    using assms(2) by simp
  then have "xs = ys @ rev (takeWhile P (rev xs))"
    by (metis rev_append rev_rev_ident)
  then have "ys = [] \<or> (xs \<noteq> [] \<and> hd ys = hd xs)"
    by (cases ys) (auto, metis list.sel(1) list.distinct(1) append_Cons)
  with assms(1) show ?thesis by auto
qed

lemma strip_strip [simp]: "strip (strip s) = strip s"
proof -
  define a where "a = dropWhile is_ws s"
  define b where "b = rev (dropWhile is_ws (rev a))"
  have a: "a = [] \<or> \<not> is_ws (hd a)"
    unfolding a_def using hd_dropWhile by blast
  then have b: "b = [] \<or> \<not> is_ws (hd b)"
    by (rule hd_dropWhile_rev) (simp add: b_def)
  then have "dropWhile is_ws b = b"
    by (cases b) auto
  moreover have "dropWhile is_ws (rev b) = rev b"
    by (simp add: b_def dropWhile_idem_hd)
  ultimately have "rev (dropWhile is_ws (rev (dropWhile is_ws b))) = b"
    by simp
  then show ?thesis by (simp add: strip_def a_def b_def)
qed

lemma code_of_lower_char:
  "code_of (lower_char c) = (if 65 \<le> code_of c \<and> code_of c \<le> 90 then code_of c + 32 else code_of c)"
  by (simp add: lower_char_def code_of_def Let_def)

lemma is_ws_lower_char [simp]: "is_ws (lower_char c) = is_ws c"
  unfolding is_ws_def Let_def code_of_lower_char by auto

lemma lower_char_lower_char [simp]: "lower_char (lower_char c) = lower_char c"
proof (cases "65 \<le> code_of c \<and> code_of c \<le> 90")
  case True
  then have "\<not> code_of (lower_char c) \<le> 90" by (simp add: code_of_lower_char)
  then show ?thesis by (simp add: lower_char_def [of "lower_char c"])
next
  case False
  then have "lower_char c = c" by (auto simp: lower_char_def Let_def)
  then show ?thesis by simp
qed

lemma lower_lower [simp]: "lower (lower s) = lower s"
  by (simp add: lower_def)

lemma strip_lower: "strip (lower s) = lower (strip s)"
proof -
  have d: "dropWhile is_ws (map lower_char xs) = map lower_char (dropWhile is_ws xs)" for xs
    by (induction xs) auto
  show ?thesis
    by (simp add: strip_def lower_def d rev_map)
qed

section \<open>Generic list lemmas\<close>

text \<open>Order-preserving removal of duplicates with an accumulator, as the loops
  \<open>if x not in result: result.append(x)\<close> do it.\<close>

fun append_new :: "'a \<Rightarrow> 'a list \<Rightarrow> 'a list" where
  "append_new x acc = (if x \<in> set acc then acc else acc @ [x])"

lemma set_append_new [simp]: "set (append_new x acc) = insert x (set acc)"
  by auto

lemma distinct_append_new [simp]: "distinct acc \<Longrightarrow> distinct (append_new x acc)"
  by simp

declare append_new.simps [simp del]

lemma set_fold_append_new: "set (fold append_new xs acc) = set acc \<union> set xs"
  by (induction xs arbitrary: acc) auto

lemma distinct_fold_append_new: "distinct acc \<Longrightarrow> distinct (fold append_new xs acc)"
  by (induction xs arbitrary: acc) auto

lemma fold_append_new_id: "distinct (acc @ xs) \<Longrightarrow> fold append_new xs acc = acc @ xs"
  by (induction xs arbitrary: acc) (auto simp: append_new.simps)

lemma find_SomeD_first:
  "find P xs = Some x \<Longrightarrow> \<exists>us vs. xs = us @ x # vs \<and> P x \<and> (\<forall>u \<in> set us. \<not> P u)"
proof (induction xs)
  case Nil
  then show ?case by simp
next
  case (Cons y ys)
  show ?case
  proof (cases "P y")
    case True
    with Cons.prems have "y # ys = [] @ x # ys \<and> P x" by simp
    then show ?thesis by (metis empty_iff empty_set)
  next
    case False
    with Cons obtain us vs where "ys = us @ x # vs" "P x" "\<forall>u \<in> set us. \<not> P u" by auto
    with False have "y # ys = (y # us) @ x # vs \<and> P x \<and> (\<forall>u \<in> set (y # us). \<not> P u)" by simp
    then show ?thesis by blast
  qed
qed

lemma find_first_append:
  "P x \<Longrightarrow> \<forall>u \<in> set us. \<not> P u \<Longrightarrow> find P (us @ x # vs) = Some x"
  by (induction us) auto

section \<open>Evaluation\<close>

text \<open>Sequencing evaluates its continuation only when the first part has succeeded.\<close>

lemma res_bind_case [code_unfold]: "res_bind r f = (case r of Inl e \<Rightarrow> Inl e | Inr x \<Rightarrow> f x)"
  by (cases r) auto

text \<open>
  Comparing a length with a large numeral walks the list instead of building the numeral
  in unary, so that definitions with limits evaluate quickly.
\<close>

fun longer_than :: "num \<Rightarrow> 'a list \<Rightarrow> bool" where
  "longer_than n [] = False"
| "longer_than n (x # xs) =
     (case n of num.One \<Rightarrow> \<not> List.null xs
      | num.Bit0 m \<Rightarrow> longer_than (Num.BitM m) xs
      | num.Bit1 m \<Rightarrow> longer_than (num.Bit0 m) xs)"

lemma numeral_less_length [code_unfold]: "numeral n < length xs \<longleftrightarrow> longer_than n xs"
proof (induction n xs rule: longer_than.induct)
  case (2 n x xs)
  show ?case
  proof (cases n)
    case One
    then show ?thesis by (cases xs) auto
  next
    case (Bit0 m)
    with 2 show ?thesis by simp
  next
    case (Bit1 m)
    with 2 show ?thesis by simp
  qed
qed simp

end
