(* ===== verification/Severity.thy ===== *)
theory Severity
  imports Py_Values
begin

text \<open>
  Severity names (\<open>src/app/services/severity.py\<close>): the alias table, normalisation of one
  value and of a configured list.
\<close>

definition SEVERITY_ALIASES :: "(string \<times> string) list" where
  "SEVERITY_ALIASES =
    [(''crit'', ''critical''), (''critical'', ''critical''), (''error'', ''critical''),
     (''fatal'', ''critical''), (''disaster'', ''critical''),
     (''high'', ''high''),
     (''avg'', ''medium''), (''average'', ''medium''), (''medium'', ''medium''),
     (''warn'', ''warning''), (''warning'', ''warning''),
     (''low'', ''low''),
     (''info'', ''info''), (''information'', ''info''), (''informational'', ''info''),
     (''not_classified'', ''info''), (''not classified'', ''info'')]"

definition normalize_severity :: "py \<Rightarrow> string" where
  "normalize_severity value =
     (let normalized = lower (strip (py_str (py_or value (PStr []))))
      in case map_of SEVERITY_ALIASES normalized of None \<Rightarrow> normalized | Some a \<Rightarrow> a)"

fun severity_loop :: "string list \<Rightarrow> py list \<Rightarrow> string list" where
  "severity_loop result [] = result"
| "severity_loop result (item # rest) =
     (let severity = normalize_severity item
      in if severity \<noteq> [] \<and> severity \<notin> set result
         then severity_loop (result @ [severity]) rest
         else severity_loop result rest)"

definition normalize_severity_list :: "py \<Rightarrow> string list result" where
  "normalize_severity_list values =
     (case values of
        PNone \<Rightarrow> Inr []
      | PStr s \<Rightarrow> Inr (severity_loop [] [PStr s])
      | PList xs \<Rightarrow> Inr (severity_loop [] xs)
      | _ \<Rightarrow> raise ValueError ''must be a list of strings'')"

lemma py_str_or_empty: "py_or (PStr s) (PStr []) = PStr s"
  by (simp add: py_or_def)

lemma alias_table:
  "list_all (\<lambda>(k, a). map_of SEVERITY_ALIASES a = Some a \<and> lower (strip a) = a) SEVERITY_ALIASES"
  by code_simp

lemma alias_closed:
  assumes "map_of SEVERITY_ALIASES n = Some a"
  shows "map_of SEVERITY_ALIASES a = Some a" and "lower (strip a) = a"
  using alias_table map_of_SomeD [OF assms] by (auto simp: list_all_iff)

text \<open>Normalising is idempotent: normalised severities are fixed points.\<close>

lemma normalize_severity_idem:
  "normalize_severity (PStr (normalize_severity v)) = normalize_severity v"
proof -
  define n where "n = lower (strip (py_str (py_or v (PStr []))))"
  have n: "lower (strip n) = n"
    by (simp add: n_def strip_lower)
  show ?thesis
  proof (cases "map_of SEVERITY_ALIASES n")
    case None
    then have "normalize_severity v = n"
      by (simp add: normalize_severity_def n_def [symmetric])
    with None n show ?thesis
      by (simp add: normalize_severity_def py_str_or_empty)
  next
    case (Some a)
    then have "normalize_severity v = a"
      by (simp add: normalize_severity_def n_def [symmetric])
    with alias_closed [OF Some] show ?thesis
      by (simp add: normalize_severity_def py_str_or_empty)
  qed
qed

lemma severity_loop_eq:
  "severity_loop acc xs =
     fold append_new (filter (\<lambda>s. s \<noteq> []) (map normalize_severity xs)) acc"
  by (induction xs arbitrary: acc) (auto simp: Let_def append_new.simps)

lemma severity_loop_set:
  "set (severity_loop [] xs) = {normalize_severity x | x. x \<in> set xs \<and> normalize_severity x \<noteq> []}"
  by (auto simp: severity_loop_eq set_fold_append_new)

lemma severity_loop_distinct: "distinct (severity_loop [] xs)"
  by (simp add: severity_loop_eq distinct_fold_append_new)

lemma severity_loop_fixpoint:
  assumes "distinct ss" and "\<forall>s \<in> set ss. s \<noteq> [] \<and> normalize_severity (PStr s) = s"
  shows "severity_loop [] (map PStr ss) = ss"
proof -
  have "map normalize_severity (map PStr ss) = ss"
    using assms(2) by (simp add: map_idI)
  moreover have "filter (\<lambda>s. s \<noteq> []) ss = ss"
    using assms(2) by simp
  ultimately have "severity_loop [] (map PStr ss) = fold append_new ss []"
    by (simp only: severity_loop_eq)
  also have "\<dots> = ss"
    using fold_append_new_id [of "[]" ss] assms(1) by simp
  finally show ?thesis .
qed

section \<open>Properties\<close>

text \<open>
  Normalising a configured severity list returns a list without duplicates whose
  members are the non-empty normalised severities of the input, and normalising the
  returned list again changes nothing.
\<close>

theorem normalize_severity_list_normal_form:
  assumes "normalize_severity_list values = Inr ss"
  shows "distinct ss \<and> [] \<notin> set ss \<and> normalize_severity_list (PList (map PStr ss)) = Inr ss"
proof -
  obtain xs where xs: "ss = severity_loop [] xs"
    using assms that [of "[]"] that
    by (cases "values") (auto simp: normalize_severity_list_def simp del: severity_loop.simps(2))
  have s: "\<forall>s \<in> set ss. s \<noteq> [] \<and> normalize_severity (PStr s) = s"
    by (auto simp: xs severity_loop_set normalize_severity_idem)
  have d: "distinct ss"
    by (simp add: xs severity_loop_distinct)
  have "normalize_severity_list (PList (map PStr ss)) = Inr ss"
    using severity_loop_fixpoint [OF d s] by (simp add: normalize_severity_list_def)
  with d s show ?thesis by auto
qed

theorem normalize_severity_list_normal_form_witness:
  "normalize_severity_list (PList [PStr '' CRIT '', PStr ''warn'', PStr ''error'', PNone])
     = Inr [''critical'', ''warning''] \<and>
   normalize_severity_list (PList [PStr ''critical'', PStr ''warning'']) = Inr [''critical'', ''warning'']"
proof -
  have h: "normalize_severity_list (PList [PStr '' CRIT '', PStr ''warn'', PStr ''error'', PNone])
     = Inr [''critical'', ''warning'']"
    by code_simp
  show ?thesis
    using h normalize_severity_list_normal_form [OF h] by simp
qed

end
