(* ===== verification/Matchers.thy ===== *)
theory Matchers
  imports Py_Values
begin

text \<open>
  Alert matchers (\<open>src/app/services/routing/matcher/matchers.py\<close>) and the context they
  are evaluated in (\<open>match_context.py\<close>).

  The third-party package \<open>regex\<close> is a parameter of the model: \<open>search\<close> is its
  \<open>regex.search\<close> with a time-out and \<open>compiles\<close> tells whether \<open>regex.compile\<close> accepts a
  pattern. Database rows and dictionaries are both read by attribute or key name, so
  both are dictionaries here.
\<close>

datatype regex_outcome = Found | NotFound | TimedOut | PatternError

type_synonym regex_search = "string \<Rightarrow> string \<Rightarrow> regex_outcome"

definition MATCHER_REGEX_MAX_PATTERN_LENGTH :: nat where
  "MATCHER_REGEX_MAX_PATTERN_LENGTH = 1024"

definition MATCHER_REGEX_MAX_INPUT_LENGTH :: nat where
  "MATCHER_REGEX_MAX_INPUT_LENGTH = 65536"

section \<open>Bounded regular expressions\<close>

definition text_or_empty :: "py \<Rightarrow> string" where
  "text_or_empty v = py_str (py_or v (PStr []))"

definition safe_regex_search :: "regex_search \<Rightarrow> py \<Rightarrow> py \<Rightarrow> bool" where
  "safe_regex_search search pattern value =
     (let p = text_or_empty pattern; text = text_or_empty value
      in if length p > MATCHER_REGEX_MAX_PATTERN_LENGTH then False
         else if length text > MATCHER_REGEX_MAX_INPUT_LENGTH then False
         else (case search p text of
                 Found \<Rightarrow> True | NotFound \<Rightarrow> False
               | TimedOut \<Rightarrow> False | PatternError \<Rightarrow> False))"

definition validate_regex_pattern_m :: "(string \<Rightarrow> bool) \<Rightarrow> py \<Rightarrow> unit result" where
  "validate_regex_pattern_m compiles pattern =
     (let p = text_or_empty pattern
      in if length p > MATCHER_REGEX_MAX_PATTERN_LENGTH then raise ValueError ''regex pattern is too long''
         else if compiles p then Inr () else raise ValueError ''invalid regex pattern'')"

definition matcher_operator :: "py \<Rightarrow> string" where
  "matcher_operator op =
     (let oper = lower (strip (py_str op))
      in if oper = ''eq'' then ''equals''
         else if oper = ''ne'' then ''not_equals''
         else if oper = ''neq'' then ''not_equals'' else oper)"

text \<open>The three checks run in order; the first exception leaves the function.\<close>

fun validate_matcher_value_regexes :: "(string \<Rightarrow> bool) \<Rightarrow> py \<Rightarrow> unit result" where
  "validate_matcher_value_regexes compiles (PDict d) =
     res_bind
       (if dget d ''op'' \<noteq> PNone \<and> matcher_operator (dget d ''op'') = ''regex''
        then validate_regex_pattern_m compiles (dget d ''value'') else Inr ())
       (\<lambda>_. res_bind
         (if dmem d ''regex'' then validate_regex_pattern_m compiles (dget d ''regex'') else Inr ())
         (\<lambda>_. case map_of d ''not'' of
                None \<Rightarrow> Inr ()
              | Some v \<Rightarrow> validate_matcher_value_regexes compiles v))"
| "validate_matcher_value_regexes compiles _ = Inr ()"

section \<open>Normalisation\<close>

fun normalize_loop :: "pydict \<Rightarrow> pydict \<Rightarrow> pydict \<Rightarrow> pydict \<times> pydict" where
  "normalize_loop normalized labels [] = (normalized, labels)"
| "normalize_loop normalized labels ((key, value) # rest) =
     (if key \<in> {''labels'', ''fields''} then normalize_loop normalized labels rest
      else if key \<in> {''source'', ''title'', ''title_regex''}
      then normalize_loop (dset normalized key value) labels rest
      else normalize_loop normalized (dset labels key value) rest)"

definition normalize_matchers :: "py \<Rightarrow> pydict" where
  "normalize_matchers matchers =
     (case matchers of
        PDict m \<Rightarrow>
          (let labels0 = (case dget m ''labels'' of PDict l \<Rightarrow> dupdate [] l | _ \<Rightarrow> []);
               normalized0 = (case dget m ''fields'' of PDict f \<Rightarrow> [(''fields'', PDict f)] | _ \<Rightarrow> []);
               (normalized, labels) = normalize_loop normalized0 labels0 m
           in if labels \<noteq> [] then dset normalized ''labels'' (PDict labels) else normalized)
      | _ \<Rightarrow> [])"

fun validate_values :: "(string \<Rightarrow> bool) \<Rightarrow> py list \<Rightarrow> unit result" where
  "validate_values compiles [] = Inr ()"
| "validate_values compiles (v # vs) =
     res_bind (validate_matcher_value_regexes compiles v) (\<lambda>_. validate_values compiles vs)"

definition validate_matcher_regexes :: "(string \<Rightarrow> bool) \<Rightarrow> py \<Rightarrow> unit result" where
  "validate_matcher_regexes compiles matchers =
     (let n = normalize_matchers matchers in
      res_bind (if dmem n ''title_regex''
                then validate_regex_pattern_m compiles (dget n ''title_regex'') else Inr ())
       (\<lambda>_. res_bind (validate_values compiles
               (map (dget n) (filter (dmem n) [''source'', ''title''])))
       (\<lambda>_. res_bind (validate_values compiles (map snd (items (py_or (dget n ''labels'') (PDict [])))))
       (\<lambda>_. validate_values compiles (map snd (items (py_or (dget n ''fields'') (PDict []))))))))"

section \<open>Matching\<close>

text \<open>The traversal of \<open>get_nested_value\<close> over the parts of a dotted key.\<close>

fun nested_get :: "py \<Rightarrow> string list \<Rightarrow> py" where
  "nested_get current [] = current"
| "nested_get current (part # parts) =
     (case current of PDict d \<Rightarrow> nested_get (dget d part) parts | _ \<Rightarrow> PNone)"

definition get_nested_value :: "py \<Rightarrow> string \<Rightarrow> py" where
  "get_nested_value payload key = nested_get payload (split_char CHR ''.'' key)"

definition match_operator :: "regex_search \<Rightarrow> string \<Rightarrow> py \<Rightarrow> py \<Rightarrow> bool" where
  "match_operator search operator operator_value actual_value =
     (if operator = ''regex'' then safe_regex_search search operator_value actual_value
      else if operator = ''equals'' then py_str actual_value = py_str operator_value
      else if operator = ''not_equals'' then py_str actual_value \<noteq> py_str operator_value
      else if operator = ''contains'' then str_in (text_or_empty operator_value) (text_or_empty actual_value)
      else if operator = ''not_contains''
      then \<not> str_in (text_or_empty operator_value) (text_or_empty actual_value)
      else False)"

fun match_value :: "regex_search \<Rightarrow> py \<Rightarrow> py \<Rightarrow> bool" where
  "match_value search actual_value (PList xs) = py_in_list actual_value xs"
| "match_value search actual_value (PDict d) =
     (if dget d ''op'' \<noteq> PNone
      then match_operator search (matcher_operator (dget d ''op'')) (dget d ''value'') actual_value
      else if dmem d ''regex'' then safe_regex_search search (dget d ''regex'') actual_value
      else case map_of d ''not'' of
        Some e \<Rightarrow> \<not> match_value search actual_value e
      | None \<Rightarrow>
          if dmem d ''contains''
          then str_in (py_str (dget d ''contains'')) (text_or_empty actual_value)
          else py_str actual_value = py_str (PDict d))"
| "match_value search actual_value expected = (py_str actual_value = py_str expected)"

text \<open>
  \<open>labels.get(label_name)\<close> on something that is not a mapping raises \<open>AttributeError\<close>,
  so the loop over the labels returns a result.
\<close>

fun match_labels :: "regex_search \<Rightarrow> pydict \<Rightarrow> py \<Rightarrow> pydict \<Rightarrow> bool result" where
  "match_labels search alert_data labels [] = Inr True"
| "match_labels search alert_data labels ((label_name, expected) # rest) =
     (case labels of
        PDict ls \<Rightarrow>
          (let actual0 = dget ls label_name;
               actual = (if actual0 = PNone \<and> label_name \<in> {''severity'', ''status''}
                         then dget alert_data label_name else actual0)
           in if match_value search actual expected
              then match_labels search alert_data labels rest else Inr False)
      | _ \<Rightarrow> raise AttributeError ''get'')"

fun match_fields :: "regex_search \<Rightarrow> pydict \<Rightarrow> pydict \<Rightarrow> bool" where
  "match_fields search alert_data [] = True"
| "match_fields search alert_data ((field_name, expected) # rest) =
     (if match_value search (get_nested_value (PDict alert_data) field_name) expected
      then match_fields search alert_data rest else False)"

definition match_alert :: "regex_search \<Rightarrow> pydict \<Rightarrow> py \<Rightarrow> bool result" where
  "match_alert search alert_data matchers =
     (let m = normalize_matchers matchers in
      if m = [] then Inr True
      else if list_ex (\<lambda>key. dmem m key \<and> \<not> match_value search (dget alert_data key) (dget m key))
                [''source'', ''title'']
      then Inr False
      else if dmem m ''title_regex'' \<and>
              \<not> safe_regex_search search (dget m ''title_regex'')
                  (py_or (dget alert_data ''title'') (PStr []))
      then Inr False
      else res_bind
        (match_labels search alert_data (py_or (dget alert_data ''labels'') (PDict []))
           (items (py_or (dget m ''labels'') (PDict []))))
        (\<lambda>ok. Inr (if ok then match_fields search alert_data (items (py_or (dget m ''fields'') (PDict [])))
                   else False)))"

section \<open>Match context\<close>

definition TEAM_FIELDS :: "string list" where
  "TEAM_FIELDS = [''id'', ''name'', ''slug'']"

definition ROUTE_FIELDS :: "string list" where
  "ROUTE_FIELDS = [''id'', ''name'', ''slug'', ''source'']"

definition SERVICE_FIELDS :: "string list" where
  "SERVICE_FIELDS = [''id'', ''name'', ''slug'', ''service_type'', ''environment'',
                     ''criticality'', ''tier'', ''status'']"

fun get_value :: "py \<Rightarrow> string list \<Rightarrow> py \<Rightarrow> py" where
  "get_value resource [] dflt = dflt"
| "get_value resource (name # names) dflt =
     (if resource = PNone then dflt
      else let value = dget (items resource) name
           in if value \<noteq> PNone then value else get_value resource names dflt)"

fun get_mapping :: "py \<Rightarrow> string list \<Rightarrow> pydict" where
  "get_mapping resource [] = []"
| "get_mapping resource (name # names) =
     (case get_value resource [name] PNone of
        PDict d \<Rightarrow> if d \<noteq> [] then d else get_mapping resource names
      | _ \<Rightarrow> get_mapping resource names)"

definition resource_data :: "py \<Rightarrow> string list \<Rightarrow> py" where
  "resource_data resource fields =
     (if \<not> truthy resource then PNone
      else PDict (map (\<lambda>f. (f, get_value resource [f] PNone)) fields))"

fun set_present :: "pydict \<Rightarrow> pydict \<Rightarrow> pydict" where
  "set_present labels [] = labels"
| "set_present labels ((key, value) # rest) =
     set_present (if value \<noteq> PNone then dset labels key value else labels) rest"

definition build_alert_match_context :: "py \<Rightarrow> py \<Rightarrow> py \<Rightarrow> py \<Rightarrow> py \<Rightarrow> pydict" where
  "build_alert_match_context alert team0 route0 service0 priority =
     (let labels = get_mapping alert [''labels'', ''common_labels''];
          payload = get_mapping alert [''payload'', ''payload_summary''];
          annotations0 = get_mapping alert [''annotations''];
          annotations = (if annotations0 \<noteq> [] then annotations0 else items (dget payload ''annotations''));
          team = py_or team0 (get_value alert [''team''] PNone);
          route = py_or route0 (get_value alert [''route''] PNone);
          service = py_or service0 (get_value alert [''service''] PNone);
          severity = get_value alert [''severity''] PNone;
          status = get_value alert [''status''] (PStr ''firing'');
          source = get_value alert [''source''] PNone;
          derived_labels =
            [(''severity'', severity), (''status'', status), (''source'', source),
             (''priority'', priority),
             (''team_id'', py_or (get_value alert [''team_id''] PNone) (get_value team [''id''] PNone)),
             (''route_id'', py_or (get_value alert [''route_id''] PNone) (get_value route [''id''] PNone)),
             (''service_id'', py_or (get_value alert [''service_id''] PNone) (get_value service [''id''] PNone))]
      in [(''id'', get_value alert [''id''] PNone),
          (''source'', source),
          (''title'', get_value alert [''title''] PNone),
          (''message'', get_value alert [''message''] PNone),
          (''severity'', severity),
          (''priority'', priority),
          (''status'', status),
          (''labels'', PDict (set_present labels derived_labels)),
          (''annotations'', PDict annotations),
          (''payload'', PDict payload),
          (''team'', resource_data team TEAM_FIELDS),
          (''route'', resource_data route ROUTE_FIELDS),
          (''service'', resource_data service SERVICE_FIELDS)])"

text \<open>A rule row: its own matchers and, when it refers to one, a matcher preset.\<close>

record matcher_preset =
  mp_deleted :: bool
  mp_enabled :: bool
  mp_matchers :: py

record match_rule =
  mr_preset_id :: "int option"
  mr_preset :: "matcher_preset option"
  mr_matchers :: py

definition alert_rule_matches ::
  "regex_search \<Rightarrow> py \<Rightarrow> match_rule \<Rightarrow> py \<Rightarrow> py \<Rightarrow> py \<Rightarrow> py \<Rightarrow> bool result" where
  "alert_rule_matches search alert rule team route service priority =
     (let context = build_alert_match_context alert team route service priority;
          rule_match = match_alert search context (py_or (mr_matchers rule) (PDict []))
      in case mr_preset_id rule of
           Some pid \<Rightarrow>
             if pid = 0 then rule_match
             else (case mr_preset rule of
                None \<Rightarrow> Inr False
              | Some preset \<Rightarrow>
                  if mp_deleted preset \<or> \<not> mp_enabled preset then Inr False
                  else res_bind (match_alert search context (py_or (mp_matchers preset) (PDict [])))
                         (\<lambda>ok. if \<not> ok then Inr False else rule_match))
         | None \<Rightarrow> rule_match)"

section \<open>Lemmas\<close>

subsection \<open>The regular-expression engine is consulted within its bounds\<close>

lemma match_value_engine_cong:
  assumes "\<And>p v. safe_regex_search e1 p v = safe_regex_search e2 p v"
  shows "match_value e1 a v = match_value e2 a v"
proof -
  have "safe_regex_search e1 = safe_regex_search e2"
    using assms by blast
  then show ?thesis
    by (induction e1 a v rule: match_value.induct)
       (auto simp: match_operator_def split: option.splits)
qed

lemma match_labels_engine_cong:
  assumes "\<And>a v. v \<in> snd ` set ms \<Longrightarrow> match_value e1 a v = match_value e2 a v"
  shows "match_labels e1 d ls ms = match_labels e2 d ls ms"
  using assms by (induction e1 d ls ms rule: match_labels.induct) (auto simp: Let_def split: py.splits)

lemma match_fields_engine_cong:
  assumes "\<And>a v. v \<in> snd ` set ms \<Longrightarrow> match_value e1 a v = match_value e2 a v"
  shows "match_fields e1 d ms = match_fields e2 d ms"
  using assms by (induction e1 d ms rule: match_fields.induct) auto

text \<open>The values of a normalised matcher that \<open>match_alert\<close> consults.\<close>

definition matcher_values :: "pydict \<Rightarrow> py set" where
  "matcher_values n =
     dget n ` {k \<in> {''source'', ''title''}. dmem n k} \<union>
     snd ` set (items (py_or (dget n ''labels'') (PDict []))) \<union>
     snd ` set (items (py_or (dget n ''fields'') (PDict [])))"

lemma match_alert_engine_cong:
  assumes v: "\<And>a v. v \<in> matcher_values (normalize_matchers m) \<Longrightarrow> match_value e1 a v = match_value e2 a v"
    and t: "\<And>a. dmem (normalize_matchers m) ''title_regex'' \<Longrightarrow>
      safe_regex_search e1 (dget (normalize_matchers m) ''title_regex'') a =
      safe_regex_search e2 (dget (normalize_matchers m) ''title_regex'') a"
  shows "match_alert e1 d m = match_alert e2 d m"
proof -
  let ?n = "normalize_matchers m"
  have 1: "list_ex (\<lambda>key. dmem ?n key \<and> \<not> match_value e1 (dget d key) (dget ?n key)) [''source'', ''title''] =
        list_ex (\<lambda>key. dmem ?n key \<and> \<not> match_value e2 (dget d key) (dget ?n key)) [''source'', ''title'']"
    using v by (auto simp: matcher_values_def)
  have 2: "match_labels e1 d ls (items (py_or (dget ?n ''labels'') (PDict []))) =
        match_labels e2 d ls (items (py_or (dget ?n ''labels'') (PDict [])))" for ls
    by (rule match_labels_engine_cong) (rule v, simp add: matcher_values_def)
  have 3: "match_fields e1 d (items (py_or (dget ?n ''fields'') (PDict []))) =
        match_fields e2 d (items (py_or (dget ?n ''fields'') (PDict [])))"
    by (rule match_fields_engine_cong) (rule v, simp add: matcher_values_def)
  have 4: "(dmem ?n ''title_regex'' \<and> \<not> safe_regex_search e1 (dget ?n ''title_regex'') v) =
        (dmem ?n ''title_regex'' \<and> \<not> safe_regex_search e2 (dget ?n ''title_regex'') v)" for v
    using t by blast
  show ?thesis
    unfolding match_alert_def Let_def 1 2 3 4 by (rule refl)
qed

lemma safe_regex_search_bounded_cong:
  assumes "\<And>p t. length p \<le> MATCHER_REGEX_MAX_PATTERN_LENGTH \<Longrightarrow>
      length t \<le> MATCHER_REGEX_MAX_INPUT_LENGTH \<Longrightarrow> e1 p t = e2 p t"
  shows "safe_regex_search e1 p v = safe_regex_search e2 p v"
  using assms by (simp add: safe_regex_search_def Let_def)

subsection \<open>Validation covers every pattern that matching consults\<close>

lemma safe_regex_search_valid_cong:
  assumes "validate_regex_pattern_m C p = Inr ()" and "\<And>p t. C p \<Longrightarrow> e1 p t = e2 p t"
  shows "safe_regex_search e1 p v = safe_regex_search e2 p v"
  using assms by (auto simp: safe_regex_search_def validate_regex_pattern_m_def Let_def split: if_splits)

lemma match_value_valid_cong:
  assumes "\<forall>p t. C p \<longrightarrow> e1 p t = e2 p t" and "validate_matcher_value_regexes C v = Inr ()"
  shows "match_value e1 a v = match_value e2 a v"
  using assms
proof (induction e1 a v rule: match_value.induct)
  case (2 e1 a d)
  have s: "validate_regex_pattern_m C p = Inr () \<Longrightarrow> safe_regex_search e1 p x = safe_regex_search e2 p x" for p x
    using "2.prems"(1) by (intro safe_regex_search_valid_cong [of C]) auto
  show ?case
  proof (cases "dget d ''op'' \<noteq> PNone")
    case True
    with "2.prems" show ?thesis
      by (auto simp: res_bind_Inr_iff match_operator_def s split: if_splits)
  next
    case False
    with "2.prems" "2.IH" show ?thesis
      by (auto simp: res_bind_Inr_iff s split: if_splits option.splits)
  qed
qed auto

lemma validate_values_all:
  "validate_values C vs = Inr () \<longleftrightarrow> (\<forall>v \<in> set vs. validate_matcher_value_regexes C v = Inr ())"
  by (induction vs) (auto simp: res_bind_Inr_iff)

lemma validate_matcher_regexes_values:
  assumes "validate_matcher_regexes C m = Inr ()" and "v \<in> matcher_values (normalize_matchers m)"
  shows "validate_matcher_value_regexes C v = Inr ()"
  using assms
  by (auto simp: validate_matcher_regexes_def Let_def res_bind_Inr_iff validate_values_all
      matcher_values_def split: if_splits)

lemma validate_matcher_regexes_title:
  assumes "validate_matcher_regexes C m = Inr ()" and "dmem (normalize_matchers m) ''title_regex''"
  shows "validate_regex_pattern_m C (dget (normalize_matchers m) ''title_regex'') = Inr ()"
  using assms by (auto simp: validate_matcher_regexes_def Let_def res_bind_Inr_iff)

subsection \<open>Normalisation\<close>

definition structured_items :: "pydict \<Rightarrow> pydict" where
  "structured_items m = filter (\<lambda>(k, _). k \<in> {''source'', ''title'', ''title_regex''}) m"

definition label_items :: "pydict \<Rightarrow> pydict" where
  "label_items m = filter (\<lambda>(k, _). k \<notin> {''labels'', ''fields'', ''source'', ''title'', ''title_regex''}) m"

lemma normalize_loop_eq:
  "normalize_loop n l m = (dupdate n (structured_items m), dupdate l (label_items m))"
  by (induction n l m rule: normalize_loop.induct)
     (auto simp: structured_items_def label_items_def dupdate_def)

lemma dupdate_append:
  "distinct (map fst (d @ e)) \<Longrightarrow> dupdate d e = d @ e"
proof (induction e arbitrary: d)
  case Nil
  then show ?case by (simp add: dupdate_def)
next
  case (Cons p e)
  obtain k v where p: "p = (k, v)" by (cases p)
  have "dset d k v = d @ [(k, v)]"
    using Cons.prems p by (induction d) auto
  with Cons.IH [of "d @ [(k, v)]"] Cons.prems p show ?case
    by (simp add: dupdate_def)
qed

lemma wf_dict_dupdate: "wf_dict d \<Longrightarrow> wf_dict (dupdate d e)"
  by (induction e arbitrary: d) (auto simp: dupdate_def)

lemma wf_dict_filter: "wf_dict d \<Longrightarrow> wf_dict (filter P d)"
  by (simp add: wf_dict_def distinct_map_filter)

text \<open>What the first pass collects: the two parts of a normalised matcher.\<close>

definition fields_part :: "pydict \<Rightarrow> pydict" where
  "fields_part m = (case dget m ''fields'' of PDict f \<Rightarrow> [(''fields'', PDict f)] | _ \<Rightarrow> [])"

definition labels_part :: "pydict \<Rightarrow> pydict" where
  "labels_part m =
     dupdate (case dget m ''labels'' of PDict l \<Rightarrow> dupdate [] l | _ \<Rightarrow> []) (label_items m)"

lemma normalize_matchers_eq:
  assumes "wf_dict m"
  shows "normalize_matchers (PDict m) =
    fields_part m @ structured_items m @
      (if labels_part m = [] then [] else [(''labels'', PDict (labels_part m))])"
proof -
  have d: "distinct (map fst (fields_part m @ structured_items m))"
    using assms wf_dict_filter [of m]
    by (auto simp: fields_part_def structured_items_def wf_dict_def split: py.splits)
  have "dset (fields_part m @ structured_items m) ''labels'' v =
        (fields_part m @ structured_items m) @ [(''labels'', v)]" for v
  proof -
    have "\<not> dmem (fields_part m @ structured_items m) ''labels''"
      by (auto simp: dmem_iff fields_part_def structured_items_def split: py.splits)
    then show ?thesis
      by (intro update_append_absent) (auto simp: dmem_iff)
  qed
  then show ?thesis
    using dupdate_append [OF d]
    by (simp add: normalize_matchers_def normalize_loop_eq fields_part_def [symmetric]
        labels_part_def Let_def)
qed

lemma wf_labels_part: "wf_dict (labels_part m)"
  unfolding labels_part_def
  by (intro wf_dict_dupdate) (auto simp: wf_dict_def [of "[]"] wf_dict_dupdate split: py.splits)

lemma dupdate_Nil_wf: "wf_dict d \<Longrightarrow> dupdate [] d = d"
  using dupdate_append [of "[]" d] by (simp add: wf_dict_def)

lemma structured_items_idem [simp]: "structured_items (structured_items m) = structured_items m"
  by (simp add: structured_items_def)

lemma normalize_matchers_idem:
  assumes "wf_dict m"
  shows "normalize_matchers (PDict (normalize_matchers (PDict m))) = normalize_matchers (PDict m)"
proof -
  define n where "n = normalize_matchers (PDict m)"
  define l where "l = (if labels_part m = [] then [] else [(''labels'', PDict (labels_part m))])"
  have n: "n = fields_part m @ structured_items m @ l"
    using normalize_matchers_eq [OF assms] by (simp add: n_def l_def)
  have sk: "k \<in> {''source'', ''title'', ''title_regex''}" if "(k, v) \<in> set (structured_items m)" for k v
    using that by (auto simp: structured_items_def)
  have nol: "map_of (structured_items m) k = None" if "k \<notin> {''source'', ''title'', ''title_regex''}" for k
    using that by (auto simp: map_of_eq_None_iff structured_items_def)
  have f: "fields_part n = fields_part m"
    using nol [of "''fields''"]
    by (auto simp: n fields_part_def l_def dget_def map_add_def split: py.splits option.splits)
  have st: "structured_items n = structured_items m"
    by (auto simp: n structured_items_def fields_part_def l_def split: py.splits)
  have li: "label_items n = []"
    using sk by (auto simp: n label_items_def fields_part_def l_def filter_empty_conv split: py.splits)
  have "dget n ''labels'' = (if labels_part m = [] then PNone else PDict (labels_part m))"
    using nol [of "''labels''"]
    by (auto simp: n fields_part_def l_def dget_def map_add_def split: py.splits option.splits)
  then have lp: "labels_part n = labels_part m"
    by (auto simp: labels_part_def [of n] li dupdate_Nil_wf wf_labels_part) (simp_all add: dupdate_def)
  have wf: "wf_dict n"
    using assms wf_dict_filter [OF assms]
    by (auto simp: wf_dict_def n fields_part_def structured_items_def l_def split: py.splits)
  have "normalize_matchers (PDict n) = n"
    unfolding normalize_matchers_eq [OF wf] f st lp by (simp add: n l_def)
  then show ?thesis by (simp add: n_def)
qed

subsection \<open>What a match means\<close>

text \<open>The actual value a label condition is tested against.\<close>

definition label_actual :: "pydict \<Rightarrow> pydict \<Rightarrow> string \<Rightarrow> py" where
  "label_actual alert_data ls name =
     (if dget ls name = PNone \<and> name \<in> {''severity'', ''status''}
      then dget alert_data name else dget ls name)"

definition match_spec :: "regex_search \<Rightarrow> pydict \<Rightarrow> pydict \<Rightarrow> bool" where
  "match_spec search alert_data n \<longleftrightarrow>
     (\<forall>key \<in> {''source'', ''title''}. dmem n key \<longrightarrow> match_value search (dget alert_data key) (dget n key)) \<and>
     (dmem n ''title_regex'' \<longrightarrow>
        safe_regex_search search (dget n ''title_regex'') (py_or (dget alert_data ''title'') (PStr []))) \<and>
     (\<forall>(name, expected) \<in> set (items (dget n ''labels'')).
        match_value search (label_actual alert_data (items (dget alert_data ''labels'')) name) expected) \<and>
     (\<forall>(name, expected) \<in> set (items (dget n ''fields'')).
        match_value search (get_nested_value (PDict alert_data) name) expected)"

lemma match_labels_all:
  "match_labels search a (PDict ls) ms =
     Inr (\<forall>(name, expected) \<in> set ms. match_value search (label_actual a ls name) expected)"
  by (induction ms) (auto simp: label_actual_def Let_def)

lemma match_fields_all:
  "match_fields search a ms \<longleftrightarrow>
     (\<forall>(name, expected) \<in> set ms. match_value search (get_nested_value (PDict a) name) expected)"
  by (induction search a ms rule: match_fields.induct) auto

lemma items_or_empty [simp]: "items (py_or v (PDict [])) = items v"
  by (cases v) (auto simp: py_or_def)

definition mapping_or_none :: "py \<Rightarrow> bool" where
  "mapping_or_none v \<longleftrightarrow> v = PNone \<or> is_dict v"

lemma or_empty_mapping: "mapping_or_none v \<Longrightarrow> py_or v (PDict []) = PDict (items v)"
  by (cases v) (auto simp: py_or_def mapping_or_none_def)

lemma match_spec_empty: "match_spec search a []"
  by (simp add: match_spec_def dmem_def dget_def)

lemma match_alert_correct:
  assumes "mapping_or_none (dget a ''labels'')"
  shows "match_alert search a m = Inr (match_spec search a (normalize_matchers m))"
  using match_spec_empty
  by (auto simp: match_alert_def Let_def or_empty_mapping [OF assms] match_labels_all match_fields_all
      match_spec_def)

subsection \<open>Rules\<close>

lemma context_labels_mapping:
  "mapping_or_none (dget (build_alert_match_context alert t r s p) ''labels'')"
  by (simp add: build_alert_match_context_def Let_def dget_def mapping_or_none_def)

definition preset_ok :: "regex_search \<Rightarrow> pydict \<Rightarrow> match_rule \<Rightarrow> bool" where
  "preset_ok search context rule \<longleftrightarrow>
     (case mr_preset_id rule of
        None \<Rightarrow> True
      | Some pid \<Rightarrow> pid = 0 \<or>
          (\<exists>p. mr_preset rule = Some p \<and> \<not> mp_deleted p \<and> mp_enabled p \<and>
             match_spec search context (normalize_matchers (py_or (mp_matchers p) (PDict [])))))"

lemma alert_rule_matches_correct:
  "alert_rule_matches search alert rule team route service priority =
     (let context = build_alert_match_context alert team route service priority
      in Inr (preset_ok search context rule \<and>
              match_spec search context (normalize_matchers (py_or (mr_matchers rule) (PDict [])))))"
  by (auto simp: alert_rule_matches_def Let_def match_alert_correct [OF context_labels_mapping]
      preset_ok_def split: option.splits)

section \<open>Properties\<close>

text \<open>
  A matcher that passed \<open>validate_matcher_regexes\<close> is evaluated by \<open>match_alert\<close>
  without ever consulting the regular-expression engine on a pattern that does not
  compile: two engines that agree on compilable patterns give the same verdict.
\<close>

theorem matcher_validation_sound:
  assumes "validate_matcher_regexes compiles m = Inr ()"
    and "\<forall>p t. compiles p \<longrightarrow> e1 p t = e2 p t"
  shows "match_alert e1 alert m = match_alert e2 alert m"
proof (rule match_alert_engine_cong)
  fix a v
  assume "v \<in> matcher_values (normalize_matchers m)"
  then show "match_value e1 a v = match_value e2 a v"
    by (rule match_value_valid_cong [OF assms(2) validate_matcher_regexes_values [OF assms(1)]])
next
  fix a
  assume "dmem (normalize_matchers m) ''title_regex''"
  from validate_matcher_regexes_title [OF assms(1) this]
  show "safe_regex_search e1 (dget (normalize_matchers m) ''title_regex'') a =
        safe_regex_search e2 (dget (normalize_matchers m) ''title_regex'') a"
    by (rule safe_regex_search_valid_cong) (simp add: assms(2))
qed

theorem matcher_validation_sound_witness:
  "match_alert (\<lambda>p t. if str_in p t then Found else NotFound) [(''title'', PStr ''disk full'')]
     (PDict [(''title'', PDict [(''regex'', PStr ''disk'')])]) =
   match_alert (\<lambda>p t. if p = ''('' then PatternError else if str_in p t then Found else NotFound)
     [(''title'', PStr ''disk full'')] (PDict [(''title'', PDict [(''regex'', PStr ''disk'')])])"
proof (rule matcher_validation_sound [where compiles = "\<lambda>p. p \<noteq> ''(''"])
  show "validate_matcher_regexes (\<lambda>p. p \<noteq> ''('') (PDict [(''title'', PDict [(''regex'', PStr ''disk'')])]) = Inr ()"
    by code_simp
qed simp

text \<open>
  The bounds on patterns and inputs hold for every call of the engine that
  \<open>match_alert\<close> makes: two engines that agree on patterns of at most 1024 and texts of
  at most 65536 characters give the same verdict on every alert and matcher.
\<close>

theorem matcher_regex_bounded:
  assumes "\<forall>p t. length p \<le> MATCHER_REGEX_MAX_PATTERN_LENGTH \<and>
                 length t \<le> MATCHER_REGEX_MAX_INPUT_LENGTH \<longrightarrow> e1 p t = e2 p t"
  shows "match_alert e1 alert m = match_alert e2 alert m"
proof -
  have s: "safe_regex_search e1 p v = safe_regex_search e2 p v" for p v
    using assms by (intro safe_regex_search_bounded_cong) auto
  show ?thesis
    by (rule match_alert_engine_cong) (rule match_value_engine_cong, rule s, rule s)
qed

theorem matcher_regex_bounded_witness:
  "match_alert (\<lambda>p t. if length p \<le> 1024 then Found else TimedOut) [(''title'', PStr ''x'')]
     (PDict [(''title_regex'', PStr ''x'')]) =
   match_alert (\<lambda>p t. Found) [(''title'', PStr ''x'')] (PDict [(''title_regex'', PStr ''x'')])"
  by (rule matcher_regex_bounded) (simp add: MATCHER_REGEX_MAX_PATTERN_LENGTH_def)

text \<open>
  Normalising a matcher is idempotent: the structured form that a flat,
  Prometheus-style matcher is turned into is a fixed point.
\<close>

theorem normalize_matchers_fixpoint:
  assumes "wf_dict m"
  shows "normalize_matchers (PDict (normalize_matchers (PDict m))) = normalize_matchers (PDict m)"
  by (rule normalize_matchers_idem [OF assms])

theorem normalize_matchers_fixpoint_witness:
  "normalize_matchers (PDict (normalize_matchers
      (PDict [(''severity'', PStr ''critical''), (''title'', PStr ''t''), (''labels'', PDict [(''a'', PInt 1)])]))) =
   normalize_matchers
      (PDict [(''severity'', PStr ''critical''), (''title'', PStr ''t''), (''labels'', PDict [(''a'', PInt 1)])])"
  by (rule normalize_matchers_fixpoint) (simp add: wf_dict_def)

text \<open>
  C40. A rule matches an alert exactly when its enabled, undeleted preset (if it refers
  to one) and its own matchers both accept the context built from the alert, where a
  normalised matcher accepts when every source, title, label and field condition holds;
  evaluating a rule never raises, because the context always carries a label mapping.
\<close>

theorem alert_rule_matches_spec:
  "alert_rule_matches search alert rule team route service priority =
     (let context = build_alert_match_context alert team route service priority
      in Inr (preset_ok search context rule \<and>
              match_spec search context (normalize_matchers (py_or (mr_matchers rule) (PDict [])))))"
  by (rule alert_rule_matches_correct)

end
