(* ===== verification/Py_Regex.thy ===== *)
theory Py_Regex
  imports Py_Values
begin

text \<open>
  A small regular-expression matcher for the fixed patterns in the sources (identifier
  syntax, the safety detectors of \<open>orchestration/regex.py\<close>): expressions over character
  classes, matched by derivatives, with the denotation as reference. Whole-string and
  substring matching are \<open>re.fullmatch\<close> and \<open>re.search\<close> read as yes/no questions, where
  greediness plays no role.
\<close>

datatype rx =
    RNone
  | REps
  | RCls "char list"
  | RNot "char list"
  | RSeq rx rx
  | RAlt rx rx
  | RStar rx

inductive_set star_lang :: "string set \<Rightarrow> string set" for A where
  star_Nil: "[] \<in> star_lang A"
| star_app: "u \<in> A \<Longrightarrow> v \<in> star_lang A \<Longrightarrow> u @ v \<in> star_lang A"

primrec rx_lang :: "rx \<Rightarrow> string set" where
  "rx_lang RNone = {}"
| "rx_lang REps = {[]}"
| "rx_lang (RCls cs) = {[c] | c. c \<in> set cs}"
| "rx_lang (RNot cs) = {[c] | c. c \<notin> set cs}"
| "rx_lang (RSeq r s) = {u @ v | u v. u \<in> rx_lang r \<and> v \<in> rx_lang s}"
| "rx_lang (RAlt r s) = rx_lang r \<union> rx_lang s"
| "rx_lang (RStar r) = star_lang (rx_lang r)"

primrec nullable :: "rx \<Rightarrow> bool" where
  "nullable RNone = False"
| "nullable REps = True"
| "nullable (RCls cs) = False"
| "nullable (RNot cs) = False"
| "nullable (RSeq r s) = (nullable r \<and> nullable s)"
| "nullable (RAlt r s) = (nullable r \<or> nullable s)"
| "nullable (RStar r) = True"

definition mk_seq :: "rx \<Rightarrow> rx \<Rightarrow> rx" where
  "mk_seq r s = (if r = RNone \<or> s = RNone then RNone else if r = REps then s else RSeq r s)"

fun in_alts :: "rx \<Rightarrow> rx \<Rightarrow> bool" where
  "in_alts t (RAlt r s) = (t = RAlt r s \<or> in_alts t r \<or> in_alts t s)"
| "in_alts t r = (t = r)"

definition mk_alt :: "rx \<Rightarrow> rx \<Rightarrow> rx" where
  "mk_alt r s = (if r = RNone then s else if s = RNone then r else if in_alts s r then r else RAlt r s)"

primrec deriv :: "char \<Rightarrow> rx \<Rightarrow> rx" where
  "deriv c RNone = RNone"
| "deriv c REps = RNone"
| "deriv c (RCls cs) = (if c \<in> set cs then REps else RNone)"
| "deriv c (RNot cs) = (if c \<in> set cs then RNone else REps)"
| "deriv c (RSeq r s) =
     (if nullable r then mk_alt (mk_seq (deriv c r) s) (deriv c s) else mk_seq (deriv c r) s)"
| "deriv c (RAlt r s) = mk_alt (deriv c r) (deriv c s)"
| "deriv c (RStar r) = mk_seq (deriv c r) (RStar r)"

fun rx_fullmatch :: "rx \<Rightarrow> string \<Rightarrow> bool" where
  "rx_fullmatch r [] = nullable r"
| "rx_fullmatch r (c # s) = rx_fullmatch (deriv c r) s"

definition RAny :: rx where
  "RAny = RNot []"

definition rx_search :: "rx \<Rightarrow> string \<Rightarrow> bool" where
  "rx_search r s = rx_fullmatch (RSeq (RStar RAny) (RSeq r (RStar RAny))) s"

fun RLit :: "string \<Rightarrow> rx" where
  "RLit [] = REps"
| "RLit (c # s) = RSeq (RCls [c]) (RLit s)"

fun RAlts :: "rx list \<Rightarrow> rx" where
  "RAlts [] = RNone"
| "RAlts [r] = r"
| "RAlts (r # rs) = RAlt r (RAlts rs)"

fun RSeqs :: "rx list \<Rightarrow> rx" where
  "RSeqs [] = REps"
| "RSeqs [r] = r"
| "RSeqs (r # rs) = RSeq r (RSeqs rs)"

definition ROpt :: "rx \<Rightarrow> rx" where
  "ROpt r = RAlt REps r"

definition RPlus :: "rx \<Rightarrow> rx" where
  "RPlus r = RSeq r (RStar r)"

section \<open>Correctness of the matcher\<close>

lemma nullable_lang: "nullable r \<longleftrightarrow> [] \<in> rx_lang r"
  by (induction r) (auto intro: star_lang.intros)

lemma mk_seq_lang [simp]: "rx_lang (mk_seq r s) = rx_lang (RSeq r s)"
  by (auto simp: mk_seq_def)

lemma in_alts_lang: "in_alts t r \<Longrightarrow> rx_lang t \<subseteq> rx_lang r"
  by (induction t r rule: in_alts.induct) auto

lemma mk_alt_lang [simp]: "rx_lang (mk_alt r s) = rx_lang (RAlt r s)"
  using in_alts_lang by (auto simp: mk_alt_def)

lemma star_lang_Cons:
  "c # w \<in> star_lang A \<Longrightarrow> \<exists>u v. w = u @ v \<and> c # u \<in> A \<and> v \<in> star_lang A"
proof (induction "c # w" rule: star_lang.induct)
  case (star_app u v)
  then show ?case
    by (cases u) (auto intro: exI)
qed

lemma deriv_lang: "w \<in> rx_lang (deriv c r) \<longleftrightarrow> c # w \<in> rx_lang r"
proof (induction r arbitrary: w)
  case (RSeq r s)
  show ?case
    by (auto simp: RSeq nullable_lang Cons_eq_append_conv)
next
  case (RStar r)
  show ?case
  proof
    assume "w \<in> rx_lang (deriv c (RStar r))"
    then obtain u v where "w = u @ v" "c # u \<in> rx_lang r" "v \<in> star_lang (rx_lang r)"
      by (auto simp: RStar)
    then show "c # w \<in> rx_lang (RStar r)"
      using star_app [of "c # u" "rx_lang r" v] by simp
  next
    assume "c # w \<in> rx_lang (RStar r)"
    then show "w \<in> rx_lang (deriv c (RStar r))"
      by (auto simp: RStar dest: star_lang_Cons)
  qed
qed auto

theorem rx_fullmatch_lang: "rx_fullmatch r s \<longleftrightarrow> s \<in> rx_lang r"
  by (induction s arbitrary: r) (auto simp: nullable_lang deriv_lang)

lemma star_any: "s \<in> star_lang (rx_lang RAny)"
proof (induction s)
  case (Cons c s)
  then show ?case
    using star_app [of "[c]" "rx_lang RAny" s] by (auto simp: RAny_def)
qed (rule star_Nil)

theorem rx_search_lang: "rx_search r s \<longleftrightarrow> (\<exists>u v w. s = u @ v @ w \<and> v \<in> rx_lang r)"
  by (auto simp: rx_search_def rx_fullmatch_lang star_any)

lemma RLit_lang [simp]: "rx_lang (RLit s) = {s}"
  by (induction s) auto

lemma RSeq_I: "u \<in> rx_lang r \<Longrightarrow> v \<in> rx_lang s \<Longrightarrow> u @ v \<in> rx_lang (RSeq r s)"
  by auto

lemma RLit_I: "s \<in> rx_lang (RLit s)"
  by simp

lemma rx_search_lit: "rx_search (RLit p) s \<longleftrightarrow> str_in p s"
  by (auto simp: rx_search_lang sublist_def)

lemma star_lang_set: "set s \<subseteq> set cs \<Longrightarrow> s \<in> star_lang (rx_lang (RCls cs))"
proof (induction s)
  case (Cons c s)
  then show ?case
    using star_app [of "[c]" "rx_lang (RCls cs)" s] by auto
qed (rule star_Nil)

lemma star_lang_append: "u \<in> star_lang A \<Longrightarrow> v \<in> star_lang A \<Longrightarrow> u @ v \<in> star_lang A"
  by (induction rule: star_lang.induct) (auto intro: star_app)

end
