(* ===== verification/Orch_Fields.thy ===== *)
theory Orch_Fields
  imports Py_Regex
begin

text \<open>
  Event Orchestration, the base layer: error codes and validation issues
  (\<open>orchestration/errors.py\<close>), the evaluation limits (\<open>limits.py\<close>) and the resolution of
  dotted field references against an evaluation context (\<open>fields.py\<close>).
\<close>

section \<open>Errors and limits\<close>

record validation_issue =
  vi_path :: string
  vi_code :: string
  vi_message :: string
  vi_severity :: string

definition ValidationIssue :: "string \<Rightarrow> string \<Rightarrow> string \<Rightarrow> validation_issue" where
  "ValidationIssue path code message =
     \<lparr>vi_path = path, vi_code = code, vi_message = message, vi_severity = ''error''\<rparr>"

lemma ValidationIssue_sel [simp]:
  "vi_path (ValidationIssue p c m) = p" "vi_code (ValidationIssue p c m) = c"
  "vi_message (ValidationIssue p c m) = m" "vi_severity (ValidationIssue p c m) = ''error''"
  by (simp_all add: ValidationIssue_def)

text \<open>The class attribute \<open>code\<close>; \<open>dflt\<close> is the \<open>getattr\<close> default for other exceptions.\<close>

fun error_code :: "string \<Rightarrow> exn_class \<Rightarrow> string" where
  "error_code dflt FieldResolutionError = ''invalid_field_reference''"
| "error_code dflt ConditionValidationError = ''invalid_condition''"
| "error_code dflt RegexSafetyError = ''unsafe_regex''"
| "error_code dflt TemplateValidationError = ''invalid_template''"
| "error_code dflt ExtractionError = ''variable_extraction_failed''"
| "error_code dflt ActionValidationError = ''invalid_action''"
| "error_code dflt _ = dflt"

text \<open>\<open>except ValueError\<close>: every evaluator error is a subclass of \<open>ValueError\<close>.\<close>

fun is_value_error :: "exn_class \<Rightarrow> bool" where
  "is_value_error FieldResolutionError = True"
| "is_value_error ConditionValidationError = True"
| "is_value_error RegexSafetyError = True"
| "is_value_error TemplateValidationError = True"
| "is_value_error ExtractionError = True"
| "is_value_error ActionValidationError = True"
| "is_value_error ValueError = True"
| "is_value_error _ = False"

definition MAX_CONDITION_DEPTH :: nat where "MAX_CONDITION_DEPTH = 20"
definition MAX_CONDITION_NODES :: nat where "MAX_CONDITION_NODES = 256"
definition MAX_FIELD_REFERENCE_LENGTH :: nat where "MAX_FIELD_REFERENCE_LENGTH = 256"
definition MAX_REGEX_PATTERN_LENGTH :: nat where "MAX_REGEX_PATTERN_LENGTH = 512"
definition MAX_REGEX_INPUT_LENGTH :: nat where "MAX_REGEX_INPUT_LENGTH = 16384"
definition MAX_TEMPLATE_LENGTH :: nat where "MAX_TEMPLATE_LENGTH = 8192"
definition MAX_TEMPLATE_EXPRESSIONS :: nat where "MAX_TEMPLATE_EXPRESSIONS = 64"
definition MAX_TEMPLATE_EXPRESSION_LENGTH :: nat where "MAX_TEMPLATE_EXPRESSION_LENGTH = 512"
definition MAX_TEMPLATE_OUTPUT_LENGTH :: nat where "MAX_TEMPLATE_OUTPUT_LENGTH = 16384"
definition MAX_TEMPLATE_FILTERS :: nat where "MAX_TEMPLATE_FILTERS = 8"
definition MAX_VARIABLES :: nat where "MAX_VARIABLES = 128"
definition MAX_VARIABLE_NAME_LENGTH :: nat where "MAX_VARIABLE_NAME_LENGTH = 64"
definition MAX_VARIABLE_VALUE_LENGTH :: nat where "MAX_VARIABLE_VALUE_LENGTH = 16384"
definition MAX_JSON_PATH_LENGTH :: nat where "MAX_JSON_PATH_LENGTH = 512"
definition MAX_SPLIT_PARTS :: nat where "MAX_SPLIT_PARTS = 256"
definition MAX_TRACE_VALUE_LENGTH :: nat where "MAX_TRACE_VALUE_LENGTH = 512"

lemmas limit_defs [code_unfold] =
  MAX_CONDITION_NODES_def MAX_FIELD_REFERENCE_LENGTH_def MAX_REGEX_PATTERN_LENGTH_def
  MAX_REGEX_INPUT_LENGTH_def MAX_TEMPLATE_LENGTH_def MAX_TEMPLATE_EXPRESSIONS_def
  MAX_TEMPLATE_EXPRESSION_LENGTH_def MAX_VARIABLES_def MAX_VARIABLE_NAME_LENGTH_def
  MAX_VARIABLE_VALUE_LENGTH_def MAX_JSON_PATH_LENGTH_def MAX_SPLIT_PARTS_def
  MAX_TRACE_VALUE_LENGTH_def

section \<open>Field references\<close>

definition ALLOWED_ROOTS :: "string list" where
  "ALLOWED_ROOTS = [''event'', ''integration'', ''labels'', ''raw'', ''result'', ''route'',
                    ''service'', ''team'', ''time'', ''variables'']"

definition name_start :: "char \<Rightarrow> bool" where
  "name_start c \<longleftrightarrow> is_alpha c \<or> c = CHR ''_''"

definition segment_char :: "char \<Rightarrow> bool" where
  "segment_char c \<longleftrightarrow> is_alpha c \<or> is_digit c \<or> c = CHR ''_'' \<or> c = CHR ''-''"

text \<open>\<open>_SEGMENT\<close> and \<open>_BARE_EVENT_FIELD\<close>: \<open>[A-Za-z_][A-Za-z0-9_-]*\<close>; \<open>_INDEX\<close>: \<open>0|[1-9][0-9]*\<close>.\<close>

definition is_segment :: "string \<Rightarrow> bool" where
  "is_segment s \<longleftrightarrow> (case s of [] \<Rightarrow> False | c # cs \<Rightarrow> name_start c \<and> list_all segment_char cs)"

definition is_index :: "string \<Rightarrow> bool" where
  "is_index s \<longleftrightarrow> (case s of [] \<Rightarrow> False
     | c # cs \<Rightarrow> (c = CHR ''0'' \<and> cs = []) \<or> (is_digit c \<and> c \<noteq> CHR ''0'' \<and> list_all is_digit cs))"

definition is_dunder :: "string \<Rightarrow> bool" where
  "is_dunder s \<longleftrightarrow> prefix ''__'' s \<and> suffix ''__'' s"

fun check_parts :: "string list \<Rightarrow> unit result" where
  "check_parts [] = Inr ()"
| "check_parts (part # parts) =
     (if part = [] then raise FieldResolutionError ''field reference contains an empty segment''
      else if is_dunder part
      then raise FieldResolutionError ''dunder field path segments are not allowed''
      else if \<not> (is_segment part \<or> is_index part)
      then raise FieldResolutionError (''invalid field path segment '' @ repr_str part @
             ''; only names and list indexes are allowed'')
      else check_parts parts)"

definition normalize_field_reference :: "py \<Rightarrow> string result" where
  "normalize_field_reference reference =
     (case reference of
        PStr r0 \<Rightarrow>
          (let r = strip r0 in
           if r = [] then raise FieldResolutionError ''field reference cannot be empty''
           else if length r > MAX_FIELD_REFERENCE_LENGTH
           then raise FieldResolutionError ''field reference exceeds the size limit''
           else if prefix ''.'' r \<or> suffix ''.'' r \<or> str_in ''..'' r
           then raise FieldResolutionError ''field reference contains an empty segment''
           else let parts0 = split_char CHR ''.'' r in
             res_bind
               (if hd parts0 \<notin> set ALLOWED_ROOTS
                then (if length parts0 = 1 \<and> is_segment (hd parts0) then Inr (''event'' # parts0)
                      else raise FieldResolutionError
                             (''field reference must start with one of: '' @ join '', '' ALLOWED_ROOTS))
                else Inr parts0)
               (\<lambda>parts. res_bind (check_parts (tl parts)) (\<lambda>_. Inr (join ''.'' parts))))
      | _ \<Rightarrow> raise FieldResolutionError ''field reference must be a string'')"

definition validate_field_reference :: "py \<Rightarrow> string \<Rightarrow> validation_issue list" where
  "validate_field_reference reference path =
     (case normalize_field_reference reference of
        Inl e \<Rightarrow> [ValidationIssue path (error_code '''' (exn_cls e)) (exn_msg e)]
      | Inr _ \<Rightarrow> [])"

section \<open>Resolution\<close>

text \<open>\<open>MISSING\<close> is \<open>None\<close>.\<close>

record field_resolution =
  fr_reference :: py
  fr_found :: bool
  fr_value :: "py option"
  fr_normalized :: string

definition mapping_get :: "pydict \<Rightarrow> string \<Rightarrow> py option" where
  "mapping_get value segment = (if dmem value segment then map_of value segment else None)"

definition sequence_get :: "py list \<Rightarrow> string \<Rightarrow> py option" where
  "sequence_get value segment =
     (if \<not> is_index segment then None
      else let index = digits_val segment
           in if index \<ge> length value then None else Some (value ! index))"

fun resolve_parts :: "py \<Rightarrow> string list \<Rightarrow> py option" where
  "resolve_parts current [] = Some current"
| "resolve_parts current (segment # parts) =
     (case (case current of
              PDict d \<Rightarrow> mapping_get d segment
            | PList xs \<Rightarrow> sequence_get xs segment
            | _ \<Rightarrow> None) of
        None \<Rightarrow> None
      | Some v \<Rightarrow> resolve_parts v parts)"

definition resolve_field :: "pydict \<Rightarrow> py \<Rightarrow> field_resolution result" where
  "resolve_field context reference =
     res_bind (normalize_field_reference reference)
       (\<lambda>normalized.
          let r = resolve_parts (PDict context) (split_char CHR ''.'' normalized)
          in Inr \<lparr>fr_reference = reference, fr_found = (r \<noteq> None), fr_value = r,
                  fr_normalized = normalized\<rparr>)"

definition build_context ::
  "py \<Rightarrow> py \<Rightarrow> py \<Rightarrow> py \<Rightarrow> py \<Rightarrow> py \<Rightarrow> py \<Rightarrow> py \<Rightarrow> py \<Rightarrow> py \<Rightarrow> pydict" where
  "build_context event labels raw variables route service team integration time result =
     (let event_copy = items event;
          label_source = (if labels \<noteq> PNone then labels else dget event_copy ''labels'');
          labels_copy = PDict (items label_source);
          event_copy2 = dset event_copy ''labels'' labels_copy
      in [(''event'', PDict event_copy2), (''labels'', labels_copy),
          (''raw'', PDict (items raw)), (''variables'', PDict (items variables)),
          (''route'', PDict (items route)), (''service'', PDict (items service)),
          (''team'', PDict (items team)), (''integration'', PDict (items integration)),
          (''time'', PDict (items time)), (''result'', PDict (items result))])"

section \<open>Lemmas\<close>

text \<open>A part that the resolver may follow: a name or a list index, and no dunder name.\<close>

definition safe_part :: "string \<Rightarrow> bool" where
  "safe_part p \<longleftrightarrow> p \<noteq> [] \<and> \<not> is_dunder p \<and> (is_segment p \<or> is_index p)"

lemma check_parts_ok: "check_parts ps = Inr () \<longleftrightarrow> list_all safe_part ps"
  by (induction ps) (auto simp: safe_part_def)

lemma check_parts_is_ok: "check_parts ps = Inr u \<longleftrightarrow> list_all safe_part ps"
  using check_parts_ok by simp

text \<open>The shape of a normalised reference.\<close>

definition wf_reference :: "string list \<Rightarrow> bool" where
  "wf_reference parts \<longleftrightarrow>
     (case parts of [] \<Rightarrow> False | rt # ps \<Rightarrow> rt \<in> set ALLOWED_ROOTS \<and> list_all safe_part ps)"

lemma dot_not_name: "\<not> is_digit CHR ''.''" "\<not> segment_char CHR ''.''" "\<not> name_start CHR ''.''"
  by code_simp+

lemma name_char_not_ws: "segment_char c \<Longrightarrow> \<not> is_ws c" "name_start c \<Longrightarrow> \<not> is_ws c"
  "is_digit c \<Longrightarrow> \<not> is_ws c"
  by (auto simp: segment_char_def name_start_def is_alpha_def is_digit_def is_ws_def code_of_def Let_def)

lemma is_segment_chars:
  assumes "is_segment p"
  shows "p \<noteq> []" and "CHR ''.'' \<notin> set p" and "\<forall>c \<in> set p. \<not> is_ws c"
  using assms dot_not_name name_char_not_ws
  by (auto simp: is_segment_def list_all_iff split: list.splits)

lemma is_index_chars:
  assumes "is_index p"
  shows "p \<noteq> []" and "CHR ''.'' \<notin> set p" and "\<forall>c \<in> set p. \<not> is_ws c"
proof -
  have "\<forall>c \<in> set p. is_digit c" and "p \<noteq> []"
    using assms by (auto simp: is_index_def list_all_iff is_digit_def code_of_def split: list.splits)
  then show "p \<noteq> []" and "CHR ''.'' \<notin> set p" and "\<forall>c \<in> set p. \<not> is_ws c"
    using dot_not_name(1) name_char_not_ws(3) by auto
qed

lemma safe_part_chars:
  assumes "safe_part p"
  shows "p \<noteq> []" and "CHR ''.'' \<notin> set p" and "\<forall>c \<in> set p. \<not> is_ws c"
  using assms is_segment_chars is_index_chars by (auto simp: safe_part_def)

lemma roots_segments: "list_all (\<lambda>r. is_segment r \<and> \<not> is_dunder r) ALLOWED_ROOTS"
  by code_simp

lemma root_safe: "r \<in> set ALLOWED_ROOTS \<Longrightarrow> safe_part r"
  using roots_segments is_segment_chars(1) by (auto simp: list_all_iff safe_part_def)

lemma wf_reference_all_safe: "wf_reference ps \<Longrightarrow> list_all safe_part ps \<and> ps \<noteq> []"
  using root_safe by (auto simp: wf_reference_def split: list.splits)

lemma normalize_field_reference_wf:
  assumes "normalize_field_reference r = Inr n"
  obtains parts where "wf_reference parts" and "n = join ''.'' parts"
proof -
  obtain r0 where r0: "r = PStr r0"
    using assms by (cases r) (auto simp: normalize_field_reference_def)
  define ps where "ps = split_char CHR ''.'' (strip r0)"
  obtain p0 pt where p: "ps = p0 # pt"
    using split_char_not_Nil by (metis list.exhaust ps_def)
  have "\<exists>parts. wf_reference parts \<and> n = join ''.'' parts"
  proof (cases "p0 \<in> set ALLOWED_ROOTS")
    case True
    then have "list_all safe_part pt \<and> n = join ''.'' ps"
      using assms p
      by (auto simp: normalize_field_reference_def r0 Let_def ps_def [symmetric] res_bind_Inr_iff
          check_parts_is_ok split: if_splits)
    with True p have "wf_reference ps \<and> n = join ''.'' ps"
      by (simp add: wf_reference_def)
    then show ?thesis by blast
  next
    case False
    then have "list_all safe_part ps \<and> n = join ''.'' (''event'' # ps)"
      using assms p
      by (auto simp: normalize_field_reference_def r0 Let_def ps_def [symmetric] res_bind_Inr_iff
          check_parts_is_ok simp del: join.simps split: if_splits)
    then have "wf_reference (''event'' # ps) \<and> n = join ''.'' (''event'' # ps)"
      by (simp add: wf_reference_def ALLOWED_ROOTS_def)
    then show ?thesis by blast
  qed
  then show ?thesis using that by blast
qed

lemma strip_no_ws: "\<forall>c \<in> set s. \<not> is_ws c \<Longrightarrow> strip s = s"
proof -
  assume h: "\<forall>c \<in> set s. \<not> is_ws c"
  then have "dropWhile is_ws s = s" by (cases s) auto
  moreover have "dropWhile is_ws (rev s) = rev s"
    using h by (cases "s = []") (simp_all add: dropWhile_eq_self_iff hd_rev)
  ultimately show ?thesis by (simp add: strip_def)
qed

lemma join_chars: "c \<in> set (join sep ws) \<Longrightarrow> c \<in> set sep \<or> (\<exists>w \<in> set ws. c \<in> set w)"
  by (induction sep ws rule: join.induct) auto

lemma join_dots:
  assumes "list_all safe_part ws" and "ws \<noteq> []"
  shows "split_char CHR ''.'' (join ''.'' ws) = ws" and "strip (join ''.'' ws) = join ''.'' ws"
    and "join ''.'' ws \<noteq> []"
    and "\<not> (prefix ''.'' (join ''.'' ws) \<or> suffix ''.'' (join ''.'' ws) \<or> str_in ''..'' (join ''.'' ws))"
proof -
  show sp: "split_char CHR ''.'' (join ''.'' ws) = ws"
    using assms safe_part_chars(2) by (intro split_char_join) (auto simp: list_all_iff)
  have "\<forall>c \<in> set (join ''.'' ws). \<not> is_ws c"
    using assms(1) safe_part_chars(3) join_chars
    by (fastforce simp: list_all_iff is_ws_def code_of_def)
  then show "strip (join ''.'' ws) = join ''.'' ws"
    by (rule strip_no_ws)
  have "[] \<notin> set ws"
    using assms(1) safe_part_chars(1) by (auto simp: list_all_iff)
  then show "join ''.'' ws \<noteq> []"
    and "\<not> (prefix ''.'' (join ''.'' ws) \<or> suffix ''.'' (join ''.'' ws) \<or> str_in ''..'' (join ''.'' ws))"
    using sp split_char_empty_part [of "CHR ''.''" "join ''.'' ws"] assms(2) by (cases ws; auto)+
qed

text \<open>A well-formed reference within the size limit normalises to itself.\<close>

lemma normalize_wf_reference:
  assumes "wf_reference ps" and "length (join ''.'' ps) \<le> MAX_FIELD_REFERENCE_LENGTH"
  shows "normalize_field_reference (PStr (join ''.'' ps)) = Inr (join ''.'' ps)"
proof -
  have s: "list_all safe_part ps" "ps \<noteq> []"
    using wf_reference_all_safe [OF assms(1)] by auto
  have h: "hd ps \<in> set ALLOWED_ROOTS" "list_all safe_part (tl ps)"
    using assms(1) by (auto simp: wf_reference_def split: list.splits)
  then have c: "check_parts (tl ps) = Inr ()"
    by (simp add: check_parts_ok)
  show ?thesis
    using join_dots [OF s] assms(2) h
    by (simp add: normalize_field_reference_def Let_def c)
qed

lemma resolve_field_normalized:
  assumes "resolve_field context reference = Inr r"
  shows "normalize_field_reference reference = Inr (fr_normalized r)"
    and "fr_value r = resolve_parts (PDict context) (split_char CHR ''.'' (fr_normalized r))"
    and "fr_found r \<longleftrightarrow> fr_value r \<noteq> None"
  using assms by (auto simp: resolve_field_def Let_def res_bind_Inr_iff)

section \<open>Properties\<close>

text \<open>
  Field references are confined: a reference that normalises successfully starts
  with one of the allowed roots, and every further segment is a plain name or a list
  index that is not a dunder name; so resolution never follows anything else.
\<close>

theorem field_reference_confined:
  assumes "normalize_field_reference reference = Inr n"
  shows "\<exists>rt ps. split_char CHR ''.'' n = rt # ps \<and> rt \<in> set ALLOWED_ROOTS \<and>
           (\<forall>p \<in> set ps. (is_segment p \<or> is_index p) \<and> \<not> is_dunder p)"
proof -
  obtain parts where p: "wf_reference parts" and n: "n = join ''.'' parts"
    using normalize_field_reference_wf [OF assms] .
  have "split_char CHR ''.'' n = parts"
    using join_dots(1) wf_reference_all_safe [OF p] n by blast
  with p show ?thesis
    by (auto simp: wf_reference_def list_all_iff safe_part_def split: list.splits)
qed

theorem field_reference_confined_witness:
  "\<exists>rt ps. split_char CHR ''.'' ''event.severity'' = rt # ps \<and> rt \<in> set ALLOWED_ROOTS \<and>
           (\<forall>p \<in> set ps. (is_segment p \<or> is_index p) \<and> \<not> is_dunder p)"
proof -
  have h: "normalize_field_reference (PStr '' severity '') = Inr ''event.severity''"
    by code_simp
  show ?thesis by (rule field_reference_confined [OF h])
qed

text \<open>
  A normalised reference is a fixed point of normalisation as long as it respects
  the size limit itself, so resolving a normalised reference again reads the same value.
\<close>

theorem field_reference_idempotent:
  assumes "normalize_field_reference reference = Inr n"
    and "length n \<le> MAX_FIELD_REFERENCE_LENGTH"
  shows "normalize_field_reference (PStr n) = Inr n \<and>
         map_sum id fr_value (resolve_field context (PStr n)) =
         map_sum id fr_value (resolve_field context reference)"
proof -
  obtain parts where p: "wf_reference parts" and n: "n = join ''.'' parts"
    using normalize_field_reference_wf [OF assms(1)] .
  have "normalize_field_reference (PStr n) = Inr n"
    using normalize_wf_reference [OF p] assms(2) n by simp
  with assms(1) show ?thesis
    by (simp add: resolve_field_def Let_def)
qed

theorem field_reference_idempotent_witness:
  "normalize_field_reference (PStr ''event.labels.0'') = Inr ''event.labels.0'' \<and>
   map_sum id fr_value (resolve_field [] (PStr ''event.labels.0'')) =
   map_sum id fr_value (resolve_field [] (PStr '' event.labels.0''))"
proof (rule field_reference_idempotent)
  show "normalize_field_reference (PStr '' event.labels.0'') = Inr ''event.labels.0''"
    by code_simp
  show "length ''event.labels.0'' \<le> MAX_FIELD_REFERENCE_LENGTH"
    by code_simp
qed

text \<open>
  The limit is checked before the root is added: a bare name of 251 to 256
  characters is accepted and normalises to a reference that normalisation itself
  rejects.
\<close>

theorem field_reference_root_overflow:
  "\<exists>name n. normalize_field_reference (PStr name) = Inr n \<and>
     normalize_field_reference (PStr n) =
       raise FieldResolutionError ''field reference exceeds the size limit''"
proof -
  let ?name = "replicate 256 CHR ''a''"
  have "normalize_field_reference (PStr ?name) = Inr (''event.'' @ ?name) \<and>
     normalize_field_reference (PStr (''event.'' @ ?name)) =
       raise FieldResolutionError ''field reference exceeds the size limit''"
    by code_simp
  then show ?thesis by blast
qed

end
