(* ===== verification/Orch_Regex.thy ===== *)
theory Orch_Regex
  imports Orch_Fields
begin

text \<open>
  Bounded regular expressions of Event Orchestration (\<open>orchestration/regex.py\<close>): the
  safety checks that run before a user-supplied pattern is compiled, and the bound on the
  text it is searched in.

  The interpreter's own engines are a parameter \<open>py_lib\<close> of the model: \<open>re.compile\<close> and
  matching of patterns written by users, \<open>ast.literal_eval\<close> on filter arguments and the
  \<open>unicode_escape\<close> codec. The fixed detector patterns of the module are modelled. Of the exceptions
  of \<open>re.compile\<close> the parameter has \<open>re.error\<close>, the one the code handles; the \<open>OverflowError\<close> of a
  repetition count beyond the engine's range, which the code lets through, is outside the model.
\<close>

record re_match =
  rm_group :: "py \<Rightarrow> py option"  \<comment> \<open>\<open>match.group(g)\<close>; \<open>None\<close> for an unknown group\<close>
  rm_lastindex :: bool           \<comment> \<open>whether \<open>match.lastindex\<close> is truthy\<close>
  rm_groupdict :: pydict

record py_lib =
  re_error :: "string \<Rightarrow> string option"  \<comment> \<open>the message of \<open>re.error\<close>, \<open>None\<close> when the pattern compiles\<close>
  re_search :: "string \<Rightarrow> string \<Rightarrow> re_match option"
  re_groups :: "string \<Rightarrow> nat"
  re_groupindex :: "string \<Rightarrow> string list"
  literal_args :: "string \<Rightarrow> py list option"
  unicode_escape :: "string \<Rightarrow> string option"

section \<open>Detectors\<close>

definition cls_digit :: "char list" where
  "cls_digit = ''0123456789''"

definition cls_space :: "char list" where
  "cls_space = map char_of [9, 10, 11, 12, 13, 28, 29, 30, 31, 32, 133, 160 :: nat]"

definition backslash :: char where
  "backslash = char_of (92::nat)"

definition FORBIDDEN_PATTERNS :: "(rx \<times> string) list" where
  "FORBIDDEN_PATTERNS =
     [(RSeq (RCls [backslash]) (RCls ''123456789''), ''numeric backreferences are not allowed''),
      (RLit ''(?P='', ''named backreferences are not allowed''),
      (RSeq (RLit ''(?<'') (RCls ''=!''), ''lookbehind is not allowed''),
      (RLit ''(?('', ''conditional groups are not allowed''),
      (RLit ''(?>'', ''atomic groups are not supported'')]"

text \<open>\<open>(?:[^()\\]|\\.)*\<close>: text without parentheses, in which a backslash escapes a character.\<close>

definition rx_body :: rx where
  "rx_body = RStar (RAlt (RNot [CHR ''('', CHR '')'', backslash])
                         (RSeq (RCls [backslash]) (RNot [char_of (10::nat)])))"

definition rx_counted :: rx where
  "rx_counted = RSeqs [RLit ''{'', RPlus (RCls cls_digit),
                       ROpt (RSeq (RLit '','') (RStar (RCls cls_digit))), RLit ''}'']"

definition rx_outer_quantifier :: rx where
  "rx_outer_quantifier = RSeq (RStar (RCls cls_space)) (RAlts [RLit ''*'', RLit ''+'', rx_counted])"

definition NESTED_QUANTIFIER :: rx where
  "NESTED_QUANTIFIER =
     RSeqs [RLit ''('', rx_body, RAlts [RLit ''*'', RLit ''+'', RLit ''?'', rx_counted], rx_body,
            RLit '')'', rx_outer_quantifier]"

definition QUANTIFIED_ALTERNATION :: rx where
  "QUANTIFIED_ALTERNATION =
     RSeqs [RLit ''('', rx_body, RLit ''|'', rx_body, RLit '')'', rx_outer_quantifier]"

definition AMBIGUOUS_DOT_REPEAT :: rx where
  "AMBIGUOUS_DOT_REPEAT =
     RSeqs [RAlt (RLit ''.*'') (RLit ''.+''), RStar (RCls cls_space), RAlt (RLit ''.*'') (RLit ''.+'')]"

section \<open>Operations\<close>

definition word_char :: "char \<Rightarrow> bool" where
  "word_char c \<longleftrightarrow> is_alpha c \<or> is_digit c \<or> c = CHR ''_''"

text \<open>The group name at the head of the text, when it is closed by \<open>>\<close>.\<close>

definition named_group :: "string \<Rightarrow> (string \<times> string) option" where
  "named_group s =
     (if \<not> prefix ''(?<'' s then None
      else let rest = drop 3 s; name = takeWhile word_char rest
           in if name = [] \<or> \<not> name_start (hd name) then None
              else case dropWhile word_char rest of
                     [] \<Rightarrow> None
                   | c # t \<Rightarrow> if c = CHR ''>'' then Some (name, t) else None)"

lemma named_group_shorter: "named_group s = Some (n, t) \<Longrightarrow> length t < length s"
proof -
  assume h: "named_group s = Some (n, t)"
  have "length (dropWhile word_char (drop 3 s)) \<le> length (drop 3 s)"
    by (rule length_dropWhile_le)
  with h show ?thesis
    by (auto simp: named_group_def Let_def split: if_splits list.splits)
qed

function normalize_named_groups :: "string \<Rightarrow> string" where
  "normalize_named_groups s =
     (case s of
        [] \<Rightarrow> []
      | c # cs \<Rightarrow>
          (case named_group s of
             Some (name, t) \<Rightarrow> ''(?P<'' @ name @ ''>'' @ normalize_named_groups t
           | None \<Rightarrow> c # normalize_named_groups cs))"
  by pat_completeness auto
termination
  by (relation "measure length") (auto dest: named_group_shorter)

declare normalize_named_groups.simps [simp del]

definition count_quantifiers :: "string \<Rightarrow> nat" where
  "count_quantifiers s = length (filter (\<lambda>c. c \<in> set ''*+?{'') s)"

definition count_alternatives :: "string \<Rightarrow> nat" where
  "count_alternatives s = length (filter (\<lambda>c. c = CHR ''|'') s)"

definition validate_regex_pattern :: "py_lib \<Rightarrow> py \<Rightarrow> string result" where
  "validate_regex_pattern lib pattern =
     (case pattern of
        PStr p \<Rightarrow>
          if length p > MAX_REGEX_PATTERN_LENGTH
          then raise RegexSafetyError ''regex pattern exceeds the size limit''
          else if char_of (0::nat) \<in> set p
          then raise RegexSafetyError ''regex pattern cannot contain NUL bytes''
          else let normalized = normalize_named_groups p in
            (case find (\<lambda>(detector, _). rx_search detector normalized) FORBIDDEN_PATTERNS of
               Some (_, message) \<Rightarrow> raise RegexSafetyError message
             | None \<Rightarrow>
                 if rx_search NESTED_QUANTIFIER normalized
                 then raise RegexSafetyError ''nested quantified groups are not allowed''
                 else if rx_search QUANTIFIED_ALTERNATION normalized
                 then raise RegexSafetyError ''quantified alternation groups are not allowed''
                 else if rx_search AMBIGUOUS_DOT_REPEAT normalized
                 then raise RegexSafetyError ''ambiguous repeated wildcard expressions are not allowed''
                 else if count_quantifiers normalized > 64
                 then raise RegexSafetyError ''regex pattern has too many quantifiers''
                 else if count_alternatives normalized > 32
                 then raise RegexSafetyError ''regex pattern has too many alternatives''
                 else (case re_error lib normalized of
                         Some msg \<Rightarrow> raise RegexSafetyError (''invalid regex pattern: '' @ msg)
                       | None \<Rightarrow> Inr normalized))
      | _ \<Rightarrow> raise RegexSafetyError ''regex pattern must be a string'')"

text \<open>A compiled pattern is represented by its validated source.\<close>

definition compile_safe_regex :: "py_lib \<Rightarrow> py \<Rightarrow> string result" where
  "compile_safe_regex lib pattern = validate_regex_pattern lib pattern"

definition bounded_regex_input :: "py \<Rightarrow> string result" where
  "bounded_regex_input value =
     res_bind
       (case value of
          PNone \<Rightarrow> Inr []
        | PBool b \<Rightarrow> Inr (if b then ''true'' else ''false'')
        | PStr s \<Rightarrow> Inr s
        | PInt i \<Rightarrow> Inr (int_str i)
        | PFloat t \<Rightarrow> Inr t
        | _ \<Rightarrow> raise RegexSafetyError ''regex input must be a scalar value'')
       (\<lambda>text. if length text > MAX_REGEX_INPUT_LENGTH
               then raise RegexSafetyError ''regex input exceeds the size limit'' else Inr text)"

section \<open>Lemmas\<close>

lemma bounded_regex_input_length:
  "bounded_regex_input v = Inr t \<Longrightarrow> length t \<le> MAX_REGEX_INPUT_LENGTH"
  by (auto simp: bounded_regex_input_def res_bind_Inr_iff split: if_splits)

lemma validate_regex_pattern_ok:
  assumes "validate_regex_pattern lib pattern = Inr n"
  obtains p where "pattern = PStr p" and "length p \<le> MAX_REGEX_PATTERN_LENGTH"
    and "n = normalize_named_groups p"
    and "\<forall>(d, m) \<in> set FORBIDDEN_PATTERNS. \<not> rx_search d n"
    and "\<not> rx_search NESTED_QUANTIFIER n" and "\<not> rx_search QUANTIFIED_ALTERNATION n"
    and "\<not> rx_search AMBIGUOUS_DOT_REPEAT n"
    and "count_quantifiers n \<le> 64" and "count_alternatives n \<le> 32" and "re_error lib n = None"
proof -
  obtain p where p: "pattern = PStr p"
    using assms by (cases pattern) (auto simp: validate_regex_pattern_def)
  have f: "find (\<lambda>(detector, _). rx_search detector (normalize_named_groups p)) FORBIDDEN_PATTERNS = None"
    using assms by (auto simp: validate_regex_pattern_def p Let_def split: option.splits if_splits)
  then have "\<forall>(d, m) \<in> set FORBIDDEN_PATTERNS. \<not> rx_search d (normalize_named_groups p)"
    by (auto simp: find_None_iff)
  with assms f p that show ?thesis
    by (auto simp: validate_regex_pattern_def Let_def split: option.splits if_splits)
qed

lemma plain_body: "list_all (\<lambda>c. c \<noteq> CHR ''('' \<and> c \<noteq> CHR '')'' \<and> c \<noteq> backslash) s \<Longrightarrow> s \<in> rx_lang rx_body"
proof (induction s)
  case Nil
  then show ?case by (simp add: rx_body_def star_Nil)
next
  case (Cons c s)
  then have "[c] \<in> rx_lang (RAlt (RNot [CHR ''('', CHR '')'', backslash])
                         (RSeq (RCls [backslash]) (RNot [char_of (10::nat)])))"
    by auto
  with Cons show ?case
    using star_app [of "[c]" _ s] by (simp add: rx_body_def)
qed

lemma nested_quantifier_detected:
  assumes "list_all (\<lambda>c. c \<noteq> CHR ''('' \<and> c \<noteq> CHR '')'' \<and> c \<noteq> backslash) (u @ v)"
    and "q \<in> {''*'', ''+'', ''?''}" and "r \<in> {''*'', ''+''}"
  shows "rx_search NESTED_QUANTIFIER (a @ ''('' @ u @ q @ v @ '')'' @ r @ b)"
proof -
  have u: "u \<in> rx_lang rx_body" and v: "v \<in> rx_lang rx_body"
    using assms(1) by (simp_all add: plain_body)
  have o: "r \<in> rx_lang rx_outer_quantifier"
    using assms(3) star_Nil by (fastforce simp: rx_outer_quantifier_def)
  have q: "q \<in> rx_lang (RAlts [RLit ''*'', RLit ''+'', RLit ''?'', rx_counted])"
    using assms(2) by auto
  have "''('' @ u @ q @ v @ '')'' @ r \<in> rx_lang NESTED_QUANTIFIER"
    unfolding NESTED_QUANTIFIER_def RSeqs.simps by (intro RSeq_I RLit_I u v o q)
  then show ?thesis
    unfolding rx_search_lang by (metis append.assoc)
qed

section \<open>Properties\<close>

text \<open>
  Catastrophic-backtracking shapes are refused: a pattern in which a group containing
  a quantifier (and no inner parentheses or escapes) is itself repeated by \<open>*\<close> or \<open>+\<close> never
  passes validation, whatever surrounds it and whatever the engine accepts; the premise
  says that the pattern has no architecture-style named group to rewrite.
\<close>

theorem nested_quantifiers_rejected:
  assumes "normalize_named_groups p = p"
    and "p = a @ ''('' @ u @ q @ v @ '')'' @ r @ b"
    and "q \<in> {''*'', ''+'', ''?''}" and "r \<in> {''*'', ''+''}"
    and "list_all (\<lambda>c. c \<noteq> CHR ''('' \<and> c \<noteq> CHR '')'' \<and> c \<noteq> backslash) (u @ v)"
  shows "\<exists>e. validate_regex_pattern lib (PStr p) = Inl e \<and> exn_cls e = RegexSafetyError"
proof -
  have "\<not> is_ok (validate_regex_pattern lib (PStr p))"
  proof
    assume "is_ok (validate_regex_pattern lib (PStr p))"
    then obtain n where "validate_regex_pattern lib (PStr p) = Inr n"
      by (auto simp: is_ok_iff)
    from validate_regex_pattern_ok [OF this] assms(1)
    have "\<not> rx_search NESTED_QUANTIFIER p" by auto
    with nested_quantifier_detected [OF assms(5,3,4)] assms(2) show False by blast
  qed
  moreover have "exn_cls e = RegexSafetyError" if "validate_regex_pattern lib (PStr p) = Inl e" for e
    using that by (auto simp: validate_regex_pattern_def raise_def Let_def split: if_splits option.splits)
  ultimately show ?thesis
    by (cases "validate_regex_pattern lib (PStr p)") auto
qed

definition no_lib :: py_lib where
  "no_lib = \<lparr>re_error = \<lambda>_. None, re_search = \<lambda>_ _. None, re_groups = \<lambda>_. 0, re_groupindex = \<lambda>_. [],
             literal_args = \<lambda>_. None, unicode_escape = \<lambda>_. None\<rparr>"

theorem nested_quantifiers_rejected_witness:
  "\<exists>e. validate_regex_pattern no_lib (PStr ''x(ab+c)*'') = Inl e \<and> exn_cls e = RegexSafetyError"
proof (rule nested_quantifiers_rejected)
  show "normalize_named_groups ''x(ab+c)*'' = ''x(ab+c)*''"
    by code_simp
  show "''x(ab+c)*'' = ''x'' @ ''('' @ ''ab'' @ ''+'' @ ''c'' @ '')'' @ ''*'' @ ''''"
    by simp
  show "''+'' \<in> {''*'', ''+'', ''?''}" and "''*'' \<in> {''*'', ''+''}"
    by simp_all
  show "list_all (\<lambda>c. c \<noteq> CHR ''('' \<and> c \<noteq> CHR '')'' \<and> c \<noteq> backslash) (''ab'' @ ''c'')"
    by code_simp
qed

end
