(* ===== verification/Orch_Conditions.thy ===== *)
theory Orch_Conditions
  imports Orch_Regex
begin

text \<open>
  Condition trees of Event Orchestration (\<open>orchestration/conditions.py\<close>): the comparison
  operators on JSON values, the validation of a tree (structure, size, operators, operand
  types) and its evaluation into an explain trace.
\<close>

section \<open>Operators\<close>

definition OPERATOR_ALIASES :: "(string \<times> string) list" where
  "OPERATOR_ALIASES =
     [(''eq'', ''equals''), (''ne'', ''not_equals''), (''gt'', ''greater_than''),
      (''lt'', ''less_than''), (''gte'', ''greater_or_equal''), (''lte'', ''less_or_equal'')]"

definition SUPPORTED_OPERATORS :: "string list" where
  "SUPPORTED_OPERATORS =
     [''equals'', ''not_equals'', ''contains'', ''not_contains'', ''starts_with'', ''ends_with'',
      ''regex'', ''not_regex'', ''in'', ''not_in'', ''exists'', ''not_exists'',
      ''greater_than'', ''less_than'', ''greater_or_equal'', ''less_or_equal'',
      ''is_true'', ''is_false'']"

definition normalize_operator :: "py \<Rightarrow> string result" where
  "normalize_operator operator =
     (case operator of
        PStr op \<Rightarrow>
          (let normalized = (case map_of OPERATOR_ALIASES (strip op) of None \<Rightarrow> strip op | Some n \<Rightarrow> n)
           in if normalized \<notin> set SUPPORTED_OPERATORS
              then raise ConditionValidationError (''unsupported condition operator '' @ repr_str op)
              else Inr normalized)
      | _ \<Rightarrow> raise ConditionValidationError ''condition operator must be a string'')"

text \<open>\<open>_decimal\<close>: \<open>None\<close> stands for \<open>InvalidOperation\<close>.\<close>

fun decimal_of :: "py \<Rightarrow> rat option" where
  "decimal_of (PInt i) = Some (of_int i)"
| "decimal_of (PFloat t) = parse_decimal t"
| "decimal_of (PStr s) = (if strip s = [] then None else parse_decimal (strip s))"
| "decimal_of _ = None"

text \<open>\<open>_coerce_boolean\<close>: \<open>None\<close> stands for \<open>ValueError\<close>.\<close>

fun coerce_boolean :: "py \<Rightarrow> bool option" where
  "coerce_boolean (PBool b) = Some b"
| "coerce_boolean (PInt i) = (if i = 0 then Some False else if i = 1 then Some True else None)"
| "coerce_boolean (PStr s) =
     (let normalized = lower (strip s)
      in if normalized \<in> {''true'', ''1'', ''yes'', ''on''} then Some True
         else if normalized \<in> {''false'', ''0'', ''no'', ''off''} then Some False else None)"
| "coerce_boolean _ = None"

fun is_int_or_float :: "py \<Rightarrow> bool" where
  "is_int_or_float (PInt _) = True"
| "is_int_or_float (PFloat _) = True"
| "is_int_or_float _ = False"

fun same_type :: "py \<Rightarrow> py \<Rightarrow> bool" where
  "same_type (PStr _) (PStr _) = True"
| "same_type (PList _) (PList _) = True"
| "same_type (PDict _) (PDict _) = True"
| "same_type _ _ = False"

definition json_equal :: "py \<Rightarrow> py \<Rightarrow> bool" where
  "json_equal left right =
     (if is_bool left \<or> is_bool right then left = right
      else if is_int_or_float left \<or> is_int_or_float right
      then (case (decimal_of left, decimal_of right) of (Some l, Some r) \<Rightarrow> l = r | _ \<Rightarrow> False)
      else if left = PNone \<or> right = PNone then left = right
      else same_type left right \<and> py_eq left right)"

text \<open>\<open>_equal\<close> with \<open>MISSING\<close> as \<open>None\<close>.\<close>

definition equal_values :: "py option \<Rightarrow> py option \<Rightarrow> bool" where
  "equal_values left right =
     (case (left, right) of (Some l, Some r) \<Rightarrow> json_equal l r | _ \<Rightarrow> False)"

text \<open>
  \<open>x in d\<close> for a dictionary: unhashable values raise \<open>TypeError\<close>, and only strings
  can be keys.
\<close>

fun in_mapping :: "py option \<Rightarrow> pydict \<Rightarrow> bool result" where
  "in_mapping (Some (PStr s)) d = Inr (dmem d s)"
| "in_mapping (Some (PList _)) d = raise TypeError (''unhashable type: '' @ repr_str ''list'')"
| "in_mapping (Some (PDict _)) d = raise TypeError (''unhashable type: '' @ repr_str ''dict'')"
| "in_mapping _ d = Inr False"

definition contains_value :: "py option \<Rightarrow> py option \<Rightarrow> bool result" where
  "contains_value container expected =
     (case container of
        Some (PStr c) \<Rightarrow> Inr (case expected of Some (PStr e) \<Rightarrow> str_in e c | _ \<Rightarrow> False)
      | Some (PDict d) \<Rightarrow> in_mapping expected d
      | Some (PList xs) \<Rightarrow> Inr (list_ex (\<lambda>item. equal_values (Some item) expected) xs)
      | _ \<Rightarrow> Inr False)"

definition in_value :: "py option \<Rightarrow> py option \<Rightarrow> bool result" where
  "in_value actual expected =
     (case expected of
        Some (PDict d) \<Rightarrow> in_mapping actual d
      | Some (PList xs) \<Rightarrow> Inr (list_ex (\<lambda>item. equal_values actual (Some item)) xs)
      | _ \<Rightarrow> Inr False)"

definition opt_decimal :: "py option \<Rightarrow> rat option" where
  "opt_decimal v = (case v of None \<Rightarrow> None | Some x \<Rightarrow> decimal_of x)"

definition both_str :: "(string \<Rightarrow> string \<Rightarrow> bool) \<Rightarrow> py option \<Rightarrow> py option \<Rightarrow> bool" where
  "both_str f actual expected =
     (case (actual, expected) of (Some (PStr a), Some (PStr e)) \<Rightarrow> f a e | _ \<Rightarrow> False)"

definition verdict :: "bool \<Rightarrow> bool \<times> string" where
  "verdict matched = (matched, if matched then ''condition_matched'' else ''condition_mismatched'')"

text \<open>\<open>compile_safe_regex(None)\<close> and \<open>bounded_regex_input(MISSING)\<close> are refused as non-strings.\<close>

definition regex_matches :: "py_lib \<Rightarrow> py option \<Rightarrow> py option \<Rightarrow> bool result" where
  "regex_matches lib actual expected =
     res_bind (case expected of None \<Rightarrow> raise RegexSafetyError ''regex pattern must be a string''
                              | Some p \<Rightarrow> compile_safe_regex lib p)
       (\<lambda>regex. res_bind (case actual of None \<Rightarrow> raise RegexSafetyError ''regex input must be a scalar value''
                                       | Some a \<Rightarrow> bounded_regex_input a)
         (\<lambda>text. Inr (re_search lib regex text \<noteq> None)))"

definition evaluate_operator ::
  "py_lib \<Rightarrow> string \<Rightarrow> py option \<Rightarrow> py option \<Rightarrow> bool \<Rightarrow> (bool \<times> string) result" where
  "evaluate_operator lib operator actual expected found =
     (if operator = ''exists'' then Inr (found, if found then ''field_exists'' else ''field_missing'')
      else if operator = ''not_exists''
      then Inr (\<not> found, if \<not> found then ''field_missing'' else ''field_exists'')
      else if \<not> found then Inr (False, ''field_missing'')
      else if operator = ''equals'' then Inr (verdict (equal_values actual expected))
      else if operator = ''not_equals'' then Inr (verdict (\<not> equal_values actual expected))
      else if operator = ''contains'' then res_bind (contains_value actual expected) (\<lambda>m. Inr (verdict m))
      else if operator = ''not_contains''
      then res_bind (contains_value actual expected) (\<lambda>m. Inr (verdict (\<not> m)))
      else if operator = ''starts_with'' then Inr (verdict (both_str (\<lambda>a e. prefix e a) actual expected))
      else if operator = ''ends_with'' then Inr (verdict (both_str (\<lambda>a e. suffix e a) actual expected))
      else if operator \<in> {''regex'', ''not_regex''}
      then res_bind (regex_matches lib actual expected)
             (\<lambda>m. Inr (verdict (if operator = ''not_regex'' then \<not> m else m)))
      else if operator = ''in'' then res_bind (in_value actual expected) (\<lambda>m. Inr (verdict m))
      else if operator = ''not_in'' then res_bind (in_value actual expected) (\<lambda>m. Inr (verdict (\<not> m)))
      else if operator \<in> {''greater_than'', ''less_than'', ''greater_or_equal'', ''less_or_equal''}
      then (case (opt_decimal actual, opt_decimal expected) of
              (Some left, Some right) \<Rightarrow>
                Inr (verdict (if operator = ''greater_than'' then left > right
                              else if operator = ''less_than'' then left < right
                              else if operator = ''greater_or_equal'' then left \<ge> right
                              else left \<le> right))
            | _ \<Rightarrow> Inr (False, ''numeric_coercion_failed''))
      else if operator \<in> {''is_true'', ''is_false''}
      then (case Option.bind actual coerce_boolean of
              None \<Rightarrow> Inr (False, ''boolean_coercion_failed'')
            | Some b \<Rightarrow> Inr (verdict (if operator = ''is_true'' then b else \<not> b)))
      else raise ConditionValidationError (''unsupported operator '' @ operator))"

section \<open>Validation\<close>

text \<open>
  The nested function \<open>visit\<close> threads the node counter and the issue list.
\<close>

type_synonym visit_state = "nat \<times> validation_issue list"

definition add_issue :: "validation_issue \<Rightarrow> visit_state \<Rightarrow> visit_state" where
  "add_issue i st = (fst st, snd st @ [i])"

definition logical_keys :: "pydict \<Rightarrow> string list" where
  "logical_keys node = filter (dmem node) [''all'', ''any'', ''none'']"

definition index_path :: "string \<Rightarrow> nat \<Rightarrow> string" where
  "index_path p i = p @ ''['' @ nat_str i @ '']''"

definition no_value_operators :: "string list" where
  "no_value_operators = [''exists'', ''not_exists'', ''is_true'', ''is_false'']"

definition numeric_operators :: "string list" where
  "numeric_operators = [''greater_than'', ''less_than'', ''greater_or_equal'', ''less_or_equal'']"

text \<open>The issues of a leaf \<open>{field, operator, value}\<close>, in the order the code reports them.\<close>

definition operand_issues :: "py_lib \<Rightarrow> pydict \<Rightarrow> string \<Rightarrow> string \<Rightarrow> validation_issue list" where
  "operand_issues lib node node_path operator =
     (if operator \<notin> set no_value_operators \<and> \<not> dmem node ''value''
      then [ValidationIssue node_path ''missing_condition_value'' (''operator '' @ operator @ '' requires value'')]
      else []) @
     (if operator \<in> {''regex'', ''not_regex''} \<and> dmem node ''value''
      then (case validate_regex_pattern lib (dget node ''value'') of
              Inl e \<Rightarrow> [ValidationIssue (node_path @ ''.value'') (error_code '''' (exn_cls e)) (exn_msg e)]
            | Inr _ \<Rightarrow> [])
      else []) @
     (if operator \<in> {''in'', ''not_in''} \<and> dmem node ''value'' \<and>
         \<not> (is_list (dget node ''value'') \<or> is_dict (dget node ''value''))
      then [ValidationIssue (node_path @ ''.value'') ''invalid_collection''
              (''operator '' @ operator @ '' requires a list or object value'')]
      else []) @
     (if operator \<in> set numeric_operators \<and> dmem node ''value'' \<and> decimal_of (dget node ''value'') = None
      then [ValidationIssue (node_path @ ''.value'') ''invalid_numeric_value''
              (''operator '' @ operator @ '' requires a finite numeric value'')]
      else [])"

definition leaf_issues :: "py_lib \<Rightarrow> pydict \<Rightarrow> string \<Rightarrow> validation_issue list" where
  "leaf_issues lib node node_path =
     (let unknown = sort (remdups (filter (\<lambda>k. k \<notin> {''field'', ''operator'', ''value''}) (map fst node)))
      in (if unknown \<noteq> []
          then [ValidationIssue node_path ''unknown_condition_keys''
                  (''unknown condition keys: '' @ join '', '' unknown)] else []) @
         (if \<not> dmem node ''field''
          then [ValidationIssue node_path ''missing_field'' ''condition field is required'']
          else validate_field_reference (dget node ''field'') (node_path @ ''.field'')) @
         (if \<not> dmem node ''operator''
          then [ValidationIssue node_path ''missing_operator'' ''condition operator is required'']
          else (case normalize_operator (dget node ''operator'') of
                  Inl e \<Rightarrow> [ValidationIssue (node_path @ ''.operator'') (error_code '''' (exn_cls e)) (exn_msg e)]
                | Inr operator \<Rightarrow> operand_issues lib node node_path operator)))"

function visit_cond :: "py_lib \<Rightarrow> py \<Rightarrow> string \<Rightarrow> nat \<Rightarrow> visit_state \<Rightarrow> visit_state"
  and visit_children :: "py_lib \<Rightarrow> py list \<Rightarrow> string \<Rightarrow> nat \<Rightarrow> nat \<Rightarrow> visit_state \<Rightarrow> visit_state" where
  "visit_cond lib node node_path depth st =
     (let n = Suc (fst st); st1 = (n, snd st) in
      if n > MAX_CONDITION_NODES
      then add_issue (ValidationIssue node_path ''condition_node_limit'' ''condition tree has too many nodes'') st1
      else if depth > MAX_CONDITION_DEPTH
      then add_issue (ValidationIssue node_path ''condition_depth_limit'' ''condition tree is nested too deeply'') st1
      else case node of
        PDict d \<Rightarrow>
          (if d = [] then st1
           else case logical_keys d of
             [] \<Rightarrow> (fst st1, snd st1 @ leaf_issues lib d node_path)
           | key # keys \<Rightarrow>
               (if keys \<noteq> [] \<or> length d \<noteq> 1
                then add_issue (ValidationIssue node_path ''ambiguous_condition_node''
                       ''logical condition nodes must contain exactly one of all, any or none'') st1
                else case map_of d key of
                  Some (PList children) \<Rightarrow>
                    visit_children lib children (node_path @ ''.'' @ key) 0 (Suc depth) st1
                | _ \<Rightarrow> add_issue (ValidationIssue (node_path @ ''.'' @ key) ''invalid_condition_children''
                           (key @ '' must contain a list'')) st1))
      | _ \<Rightarrow> add_issue (ValidationIssue node_path ''invalid_condition_node'' ''condition node must be an object'') st1)"
| "visit_children lib [] p i depth st = st"
| "visit_children lib (child # children) p i depth st =
     visit_children lib children p (Suc i) depth (visit_cond lib child (index_path p i) depth st)"
  by pat_completeness auto

termination
  by (relation "measure (\<lambda>x. case x of Inl (lib, node, p, k, st) \<Rightarrow> size node
                                     | Inr (lib, cs, p, i, k, st) \<Rightarrow> size_list size cs)")
     (auto dest: size_map_of_prod)

declare visit_cond.simps [simp del]

text \<open>The final pass drops repeated issues, keeping the first occurrence.\<close>

definition validate_condition_tree :: "py_lib \<Rightarrow> py \<Rightarrow> string \<Rightarrow> validation_issue list" where
  "validate_condition_tree lib tree path =
     fold append_new (snd (visit_cond lib tree path 0 (0, []))) []"

section \<open>Evaluation\<close>

datatype condition_result =
  ConditionResult
    (cr_matched: bool) (cr_code: string) (cr_reason: string) (cr_path: string)
    (cr_node_type: string) (cr_field: "string option") (cr_operator: "string option")
    (cr_expected: "py option") (cr_actual: py) (cr_found: "bool option")
    (cr_children: "condition_result list")

definition group_result :: "string \<Rightarrow> string \<Rightarrow> condition_result list \<Rightarrow> condition_result" where
  "group_result logical node_path children =
     (let child_matches = map cr_matched children;
          matched = (if logical = ''all'' then list_all id child_matches
                     else if logical = ''any'' then list_ex id child_matches
                     else \<not> list_ex id child_matches)
      in ConditionResult matched
           (logical @ (if matched then ''_matched'' else ''_mismatched''))
           (logical @ '' group '' @ (if matched then ''matched'' else ''did not match''))
           node_path logical None None None PNone None children)"

definition underscores_to_spaces :: "string \<Rightarrow> string" where
  "underscores_to_spaces s = map (\<lambda>c. if c = CHR ''_'' then CHR '' '' else c) s"

definition eval_leaf :: "py_lib \<Rightarrow> pydict \<Rightarrow> pydict \<Rightarrow> string \<Rightarrow> condition_result result" where
  "eval_leaf lib context node node_path =
     (case (map_of node ''field'', map_of node ''operator'') of
        (None, _) \<Rightarrow> raise KeyError ''field''
      | (_, None) \<Rightarrow> raise KeyError ''operator''
      | (Some field_reference, Some raw_operator) \<Rightarrow>
          res_bind (normalize_operator raw_operator)
            (\<lambda>operator. let expected = map_of node ''value'' in
               res_bind (resolve_field context field_reference)
                 (\<lambda>resolution.
                    let mk = (\<lambda>matched code reason.
                          ConditionResult matched code reason node_path ''condition''
                            (Some (fr_normalized resolution)) (Some operator) expected
                            (case fr_value resolution of None \<Rightarrow> PNone | Some v \<Rightarrow> v)
                            (Some (fr_found resolution)) [])
                    in case evaluate_operator lib operator (fr_value resolution) expected (fr_found resolution) of
                         Inr (matched, code) \<Rightarrow> Inr (mk matched code (underscores_to_spaces code))
                       | Inl e \<Rightarrow> if exn_cls e = RegexSafetyError
                                  then Inr (mk False (error_code '''' (exn_cls e)) (exn_msg e)) else Inl e)))"

text \<open>
  \<open>visit\<close> of \<open>evaluate_condition_tree\<close>; it runs on validated trees only, where every node is
  a mapping and every group a list.
\<close>

function eval_cond :: "py_lib \<Rightarrow> pydict \<Rightarrow> py \<Rightarrow> string \<Rightarrow> condition_result result"
  and eval_children :: "py_lib \<Rightarrow> pydict \<Rightarrow> py list \<Rightarrow> string \<Rightarrow> nat \<Rightarrow> condition_result list result" where
  "eval_cond lib context node node_path =
     (if \<not> truthy node
      then Inr (ConditionResult True ''catch_all'' ''empty condition matches all events'' node_path
                  ''all'' None None None PNone None [])
      else case node of
        PDict d \<Rightarrow>
          (case logical_keys d of
             logical # _ \<Rightarrow>
               (case map_of d logical of
                  Some (PList children) \<Rightarrow>
                    res_bind (eval_children lib context children (node_path @ ''.'' @ logical) 0)
                      (\<lambda>results. Inr (group_result logical node_path results))
                | _ \<Rightarrow> raise TypeError ''not a list'')
           | [] \<Rightarrow> eval_leaf lib context d node_path)
      | _ \<Rightarrow> raise TypeError ''not a mapping'')"
| "eval_children lib context [] p i = Inr []"
| "eval_children lib context (child # children) p i =
     res_bind (eval_cond lib context child (index_path p i))
       (\<lambda>r. res_bind (eval_children lib context children p (Suc i)) (\<lambda>rs. Inr (r # rs)))"
  by pat_completeness auto
termination
  by (relation "measure (\<lambda>x. case x of Inl (lib, c, node, p) \<Rightarrow> size node
                                     | Inr (lib, c, cs, p, i) \<Rightarrow> size_list size cs)")
     (auto dest: size_map_of_prod)

declare eval_cond.simps [simp del]

definition evaluate_condition_tree :: "py_lib \<Rightarrow> py \<Rightarrow> pydict \<Rightarrow> condition_result result" where
  "evaluate_condition_tree lib tree context =
     (case validate_condition_tree lib tree ''condition_tree'' of
        first # _ \<Rightarrow> raise_at ConditionValidationError (vi_message first) (vi_path first)
      | [] \<Rightarrow> eval_cond lib context tree ''$'')"

section \<open>Lemmas\<close>

subsection \<open>The shape of a tree\<close>

definition cond_children :: "py \<Rightarrow> py list" where
  "cond_children node =
     (case node of
        PDict d \<Rightarrow> (case logical_keys d of
                      key # _ \<Rightarrow> (case map_of d key of Some (PList cs) \<Rightarrow> cs | _ \<Rightarrow> [])
                    | [] \<Rightarrow> [])
      | _ \<Rightarrow> [])"

lemma cond_children_size [termination_simp]: "c \<in> set (cond_children node) \<Longrightarrow> size c < size node"
proof -
  assume h: "c \<in> set (cond_children node)"
  then obtain d key cs where d: "node = PDict d" and m: "map_of d key = Some (PList cs)" and c: "c \<in> set cs"
    by (auto simp: cond_children_def split: py.splits list.splits option.splits) metis
  have "size c < Suc (size_list size cs)"
    using c by (induction cs) auto
  then show ?thesis
    using size_map_of_prod [OF m] d by simp
qed

fun tree_nodes :: "py \<Rightarrow> nat" where
  "tree_nodes node = Suc (sum_list (map tree_nodes (cond_children node)))"

fun tree_depth :: "py \<Rightarrow> nat" where
  "tree_depth node = foldr max (map (\<lambda>c. Suc (tree_depth c)) (cond_children node)) 0"

declare tree_nodes.simps [simp del] tree_depth.simps [simp del]

definition leaf_ok :: "py_lib \<Rightarrow> pydict \<Rightarrow> bool" where
  "leaf_ok lib d \<longleftrightarrow> leaf_issues lib d [] = []"

inductive valid_cond :: "py_lib \<Rightarrow> py \<Rightarrow> bool" for lib where
  valid_any: "valid_cond lib (PDict [])"
| valid_leaf: "logical_keys d = [] \<Longrightarrow> leaf_ok lib d \<Longrightarrow> d \<noteq> [] \<Longrightarrow> valid_cond lib (PDict d)"
| valid_group: "logical_keys d = [key] \<Longrightarrow> length d = 1 \<Longrightarrow> map_of d key = Some (PList cs) \<Longrightarrow>
    (\<forall>c \<in> set cs. valid_cond lib c) \<Longrightarrow> valid_cond lib (PDict d)"

lemma if_Nil_iff: "(if b then xs else []) = [] \<longleftrightarrow> (b \<longrightarrow> xs = [])"
  by simp

lemma operand_issues_Nil:
  "operand_issues lib d p oper = [] \<longleftrightarrow>
     \<not> (oper \<notin> set no_value_operators \<and> \<not> dmem d ''value'') \<and>
     (oper \<in> {''regex'', ''not_regex''} \<and> dmem d ''value'' \<longrightarrow> is_ok (validate_regex_pattern lib (dget d ''value''))) \<and>
     \<not> (oper \<in> {''in'', ''not_in''} \<and> dmem d ''value'' \<and>
        \<not> (is_list (dget d ''value'') \<or> is_dict (dget d ''value''))) \<and>
     \<not> (oper \<in> set numeric_operators \<and> dmem d ''value'' \<and> decimal_of (dget d ''value'') = None)"
proof -
  have "((case validate_regex_pattern lib (dget d ''value'') of
           Inl e \<Rightarrow> [ValidationIssue (p @ ''.value'') (error_code '''' (exn_cls e)) (exn_msg e)]
         | Inr _ \<Rightarrow> []) = []) = is_ok (validate_regex_pattern lib (dget d ''value''))"
    by (cases "validate_regex_pattern lib (dget d ''value'')") simp_all
  then show ?thesis
    unfolding operand_issues_def append_is_Nil_conv if_Nil_iff by blast
qed

definition unknown_keys :: "pydict \<Rightarrow> string list" where
  "unknown_keys d = sort (remdups (filter (\<lambda>k. k \<notin> {''field'', ''operator'', ''value''}) (map fst d)))"

lemma leaf_issues_Nil:
  "leaf_issues lib d p = [] \<longleftrightarrow>
     unknown_keys d = [] \<and>
     dmem d ''field'' \<and> is_ok (normalize_field_reference (dget d ''field'')) \<and>
     dmem d ''operator'' \<and>
     (\<exists>oper. normalize_operator (dget d ''operator'') = Inr oper \<and> operand_issues lib d p oper = [])"
  unfolding leaf_issues_def Let_def append_is_Nil_conv if_Nil_iff unknown_keys_def [symmetric]
    validate_field_reference_def
  by (auto simp: is_ok_iff split: sum.splits if_splits)

lemma leaf_issues_path: "leaf_issues lib d p = [] \<Longrightarrow> leaf_issues lib d q = []"
  unfolding leaf_issues_Nil operand_issues_Nil by blast

subsection \<open>Validation\<close>

lemma visit_prefix:
  "\<exists>zs. snd (visit_cond lib node p depth st) = snd st @ zs"
  "\<exists>zs. snd (visit_children lib cs p i depth st) = snd st @ zs"
proof (induction lib node p depth st and lib cs p i depth st rule: visit_cond_visit_children.induct)
  case (1 lib node p depth st)
  show ?case
    using 1 by (subst visit_cond.simps)
      (auto simp: Let_def add_issue_def split: py.splits list.splits option.splits)
next
  case (3 lib c cs p i depth st)
  then show ?case by (metis append.assoc visit_children.simps(2))
qed auto

lemma foldr_max_le: "foldr max xs (0::nat) \<le> k \<longleftrightarrow> (\<forall>x \<in> set xs. x \<le> k)"
  by (induction xs) auto

lemma visit_children_Cons_unchanged:
  assumes "snd (visit_children lib (c # cs) p i depth st) = snd st"
  shows "snd (visit_cond lib c (index_path p i) depth st) = snd st"
    and "snd (visit_children lib cs p (Suc i) depth (visit_cond lib c (index_path p i) depth st)) =
         snd (visit_cond lib c (index_path p i) depth st)"
proof -
  let ?st = "visit_cond lib c (index_path p i) depth st"
  obtain zs where z: "snd ?st = snd st @ zs"
    using visit_prefix(1) by blast
  obtain ys where y: "snd (visit_children lib cs p (Suc i) depth ?st) = snd ?st @ ys"
    using visit_prefix(2) by blast
  have "snd (visit_children lib cs p (Suc i) depth ?st) = snd st"
    using assms by simp
  with y z have "zs = []" "ys = []" by auto
  then show "snd ?st = snd st"
    and "snd (visit_children lib cs p (Suc i) depth ?st) = snd ?st"
    using y z by auto
qed

lemma cond_children_leaf: "logical_keys d = [] \<Longrightarrow> cond_children (PDict d) = []"
  by (simp add: cond_children_def)

lemma cond_children_group:
  "logical_keys d = key # ks \<Longrightarrow> map_of d key = Some (PList cs) \<Longrightarrow> cond_children (PDict d) = cs"
  by (simp add: cond_children_def)

lemma visit_cond_unchanged:
  assumes "snd (visit_cond lib node p depth st) = snd st"
  shows "Suc (fst st) \<le> MAX_CONDITION_NODES \<and> depth \<le> MAX_CONDITION_DEPTH \<and>
    (\<exists>d. node = PDict d \<and>
       (d = [] \<and> fst (visit_cond lib node p depth st) = Suc (fst st) \<or>
        d \<noteq> [] \<and> logical_keys d = [] \<and> leaf_ok lib d \<and> fst (visit_cond lib node p depth st) = Suc (fst st) \<or>
        (\<exists>key cs. logical_keys d = [key] \<and> length d = 1 \<and> map_of d key = Some (PList cs) \<and>
           visit_cond lib node p depth st = visit_children lib cs (p @ ''.'' @ key) 0 (Suc depth) (Suc (fst st), snd st))))"
  using assms unfolding visit_cond.simps [of lib node p depth st]
  by (auto simp: Let_def add_issue_def leaf_ok_def intro: leaf_issues_path
      split: if_splits py.splits list.splits option.splits)

lemma visit_valid:
  "snd (visit_cond lib node p depth st) = snd st \<Longrightarrow>
     valid_cond lib node \<and> fst (visit_cond lib node p depth st) = fst st + tree_nodes node \<and>
     fst st + tree_nodes node \<le> MAX_CONDITION_NODES \<and> depth + tree_depth node \<le> MAX_CONDITION_DEPTH"
  "snd (visit_children lib cs p i depth st) = snd st \<Longrightarrow> fst st \<le> MAX_CONDITION_NODES \<Longrightarrow>
     (\<forall>c \<in> set cs. valid_cond lib c \<and> depth + tree_depth c \<le> MAX_CONDITION_DEPTH) \<and>
     fst (visit_children lib cs p i depth st) = fst st + sum_list (map tree_nodes cs) \<and>
     fst st + sum_list (map tree_nodes cs) \<le> MAX_CONDITION_NODES"
proof (induction lib node p depth st and lib cs p i depth st rule: visit_cond_visit_children.induct)
  case (1 lib node p depth st)
  note u = visit_cond_unchanged [OF "1.prems"]
  then obtain d where d: "node = PDict d" and n: "Suc (fst st) \<le> MAX_CONDITION_NODES"
    and k: "depth \<le> MAX_CONDITION_DEPTH" by blast
  consider "d = []" "fst (visit_cond lib node p depth st) = Suc (fst st)"
    | "d \<noteq> []" "logical_keys d = []" "leaf_ok lib d" "fst (visit_cond lib node p depth st) = Suc (fst st)"
    | key cs where "logical_keys d = [key]" "length d = 1" "map_of d key = Some (PList cs)"
        "visit_cond lib node p depth st = visit_children lib cs (p @ ''.'' @ key) 0 (Suc depth) (Suc (fst st), snd st)"
    using u d by auto
  then show ?case
  proof cases
    case 1
    then have "cond_children node = []"
      by (simp add: d cond_children_def logical_keys_def dmem_def)
    with 1 n k show ?thesis
      by (simp add: d valid_any tree_nodes.simps [of "PDict []"] tree_depth.simps [of "PDict []"])
  next
    case 2
    then have "cond_children node = []"
      by (simp add: d cond_children_leaf)
    with 2 n k show ?thesis
      by (simp add: d valid_leaf tree_nodes.simps [of "PDict d"] tree_depth.simps [of "PDict d"])
  next
    case (3 key cs)
    have cc: "cond_children node = cs"
      using 3 d by (simp add: cond_children_group)
    have "snd (visit_children lib cs (p @ ''.'' @ key) 0 (Suc depth) (Suc (fst st), snd st)) = snd (Suc (fst st), snd st)"
      using "1.prems" 3(4) by simp
    moreover have "d \<noteq> []" using 3(2) by auto
    ultimately have IH: "(\<forall>c \<in> set cs. valid_cond lib c \<and> Suc depth + tree_depth c \<le> MAX_CONDITION_DEPTH) \<and>
       fst (visit_cond lib node p depth st) = Suc (fst st) + sum_list (map tree_nodes cs) \<and>
       Suc (fst st) + sum_list (map tree_nodes cs) \<le> MAX_CONDITION_NODES"
      using "1.IH" [of "Suc (fst st)" "(Suc (fst st), snd st)" d key "[]" "PList cs" cs] 3 d n k by simp
    then have "valid_cond lib node"
      using 3 d valid_group by blast
    moreover have "depth + tree_depth node \<le> MAX_CONDITION_DEPTH"
    proof -
      have "tree_depth node \<le> MAX_CONDITION_DEPTH - depth"
        using IH unfolding tree_depth.simps [of node] cc by (auto simp: foldr_max_le)
      with k show ?thesis by simp
    qed
    ultimately show ?thesis
      using IH by (simp add: tree_nodes.simps [of node] cc)
  qed
next
  case (3 lib c cs p i depth st)
  note u = visit_children_Cons_unchanged [OF "3.prems"(1)]
  show ?case
    using "3.IH"(1) [OF u(1)] "3.IH"(2) [OF u(2)] by auto
qed auto

lemma fold_append_new_Nil: "fold append_new xs [] = [] \<longleftrightarrow> xs = []"
  using set_fold_append_new [of xs "[]"] by (metis empty_set set_empty sup_bot_left)

lemma validate_condition_tree_valid:
  assumes "validate_condition_tree lib tree path = []"
  shows "valid_cond lib tree" and "tree_nodes tree \<le> MAX_CONDITION_NODES"
    and "tree_depth tree \<le> MAX_CONDITION_DEPTH"
  using visit_valid(1) [of lib tree path 0 "(0, [])"] assms
  by (simp_all add: validate_condition_tree_def fold_append_new_Nil)

subsection \<open>Evaluation\<close>

lemma normalize_operator_supported: "normalize_operator v = Inr oper \<Longrightarrow> oper \<in> set SUPPORTED_OPERATORS"
  by (auto simp: normalize_operator_def Let_def split: py.splits if_splits)

lemma in_mapping_error: "in_mapping v d = Inl e \<Longrightarrow> exn_cls e = TypeError"
  by (induction v d rule: in_mapping.induct) (auto simp: raise_def)

lemma contains_value_error: "contains_value a e = Inl x \<Longrightarrow> exn_cls x = TypeError"
  by (auto simp: contains_value_def in_mapping_error split: option.splits py.splits)

lemma in_value_error: "in_value a e = Inl x \<Longrightarrow> exn_cls x = TypeError"
  by (auto simp: in_value_def in_mapping_error split: option.splits py.splits)

lemma validate_regex_pattern_error:
  "validate_regex_pattern lib p = Inl x \<Longrightarrow> exn_cls x = RegexSafetyError"
  by (auto simp: validate_regex_pattern_def raise_def Let_def split: py.splits if_splits option.splits)

lemma bounded_regex_input_error: "bounded_regex_input v = Inl x \<Longrightarrow> exn_cls x = RegexSafetyError"
  by (auto simp: bounded_regex_input_def raise_def res_bind_Inl_iff split: py.splits if_splits)

lemma regex_matches_error: "regex_matches lib a e = Inl x \<Longrightarrow> exn_cls x = RegexSafetyError"
  by (auto simp: regex_matches_def res_bind_Inl_iff compile_safe_regex_def raise_def
      dest: validate_regex_pattern_error bounded_regex_input_error split: option.splits)

lemma evaluate_operator_error:
  assumes "oper \<in> set SUPPORTED_OPERATORS" and "evaluate_operator lib oper a e found = Inl x"
  shows "exn_cls x \<in> {TypeError, RegexSafetyError}"
proof -
  have k: "\<not> (oper \<notin> {''exists'', ''not_exists'', ''equals'', ''not_equals'', ''contains'', ''not_contains'',
      ''starts_with'', ''ends_with'', ''regex'', ''not_regex'', ''in'', ''not_in'', ''greater_than'',
      ''less_than'', ''greater_or_equal'', ''less_or_equal'', ''is_true'', ''is_false''})"
    using assms(1) unfolding SUPPORTED_OPERATORS_def by auto
  show ?thesis
    using assms(2) k contains_value_error [of a e x] in_value_error [of a e x] regex_matches_error [of lib a e x]
    unfolding evaluate_operator_def
    by (simp only: split: if_split_asm option.split_asm prod.split_asm) (auto simp: res_bind_Inl_iff)
qed

subsection \<open>The meaning of a condition\<close>

text \<open>
  The reference semantics, stated without the operators of the code: what an operator, under its name
  or its alias, means on the value found (\<open>None\<close> when the field is missing) and the operand of the leaf
  (\<open>None\<close> when there is none), and a tree as a formula over its leaves, without paths and
  traces. Numbers are exact decimals, read from integers, floats and numeric texts.
\<close>

inductive denotes_number :: "py \<Rightarrow> rat \<Rightarrow> bool" where
  "denotes_number (PInt i) (of_int i)"
| "parse_decimal t = Some x \<Longrightarrow> denotes_number (PFloat t) x"
| "parse_decimal (strip s) = Some x \<Longrightarrow> denotes_number (PStr s) x"

text \<open>Equal JSON values are of the same kind, except that a number may be compared with its text.\<close>

inductive same_value :: "py \<Rightarrow> py \<Rightarrow> bool" where
  same_none: "same_value PNone PNone"
| same_bool: "same_value (PBool b) (PBool b)"
| same_text: "same_value (PStr s) (PStr s)"
| same_list: "py_eq (PList xs) (PList ys) \<Longrightarrow> same_value (PList xs) (PList ys)"
| same_dict: "py_eq (PDict d) (PDict d') \<Longrightarrow> same_value (PDict d) (PDict d')"
| same_number: "denotes_number v x \<Longrightarrow> denotes_number w x \<Longrightarrow> \<not> (is_str v \<and> is_str w) \<Longrightarrow> same_value v w"

inductive contained_in :: "py \<Rightarrow> py \<Rightarrow> bool" where
  "s = before @ t @ after \<Longrightarrow> contained_in (PStr t) (PStr s)"
| "(k, v) \<in> set d \<Longrightarrow> contained_in (PStr k) (PDict d)"
| "x \<in> set xs \<Longrightarrow> same_value x w \<Longrightarrow> contained_in w (PList xs)"

inductive member_of :: "py \<Rightarrow> py \<Rightarrow> bool" where
  "(k, v) \<in> set d \<Longrightarrow> member_of (PStr k) (PDict d)"
| "x \<in> set xs \<Longrightarrow> same_value w x \<Longrightarrow> member_of w (PList xs)"

definition YES :: "string set" where
  "YES = {''true'', ''1'', ''yes'', ''on''}"

definition NO :: "string set" where
  "NO = {''false'', ''0'', ''no'', ''off''}"

inductive reads_as :: "py \<Rightarrow> bool \<Rightarrow> bool" where
  "reads_as (PBool b) b"
| "reads_as (PInt 1) True"
| "reads_as (PInt 0) False"
| "lower (strip s) \<in> YES \<Longrightarrow> reads_as (PStr s) True"
| "lower (strip s) \<in> NO \<Longrightarrow> reads_as (PStr s) False"

text \<open>Whether a safe pattern finds a match in a value that can be searched.\<close>

inductive pattern_finds :: "py_lib \<Rightarrow> py \<Rightarrow> py \<Rightarrow> bool \<Rightarrow> bool" for lib where
  "compile_safe_regex lib p = Inr rx \<Longrightarrow> bounded_regex_input v = Inr s
     \<Longrightarrow> pattern_finds lib v p (re_search lib rx s \<noteq> None)"

inductive operator_holds :: "py_lib \<Rightarrow> string \<Rightarrow> py option \<Rightarrow> py option \<Rightarrow> bool" for lib where
  "operator_holds lib ''exists'' (Some v) e"
| "operator_holds lib ''not_exists'' None e"
| "oper \<in> {''equals'', ''eq''} \<Longrightarrow> same_value v w \<Longrightarrow> operator_holds lib oper (Some v) (Some w)"
| "oper \<in> {''not_equals'', ''ne''} \<Longrightarrow> \<not> (\<exists>w. e = Some w \<and> same_value v w) \<Longrightarrow> operator_holds lib oper (Some v) e"
| "contained_in w v \<Longrightarrow> operator_holds lib ''contains'' (Some v) (Some w)"
| "\<not> (\<exists>w. e = Some w \<and> contained_in w v) \<Longrightarrow> operator_holds lib ''not_contains'' (Some v) e"
| "operator_holds lib ''starts_with'' (Some (PStr (s @ rest))) (Some (PStr s))"
| "operator_holds lib ''ends_with'' (Some (PStr (rest @ s))) (Some (PStr s))"
| "pattern_finds lib v p True \<Longrightarrow> operator_holds lib ''regex'' (Some v) (Some p)"
| "pattern_finds lib v p False \<Longrightarrow> operator_holds lib ''not_regex'' (Some v) (Some p)"
| "member_of v w \<Longrightarrow> operator_holds lib ''in'' (Some v) (Some w)"
| "\<not> (\<exists>w. e = Some w \<and> member_of v w) \<Longrightarrow> operator_holds lib ''not_in'' (Some v) e"
| "oper \<in> {''greater_than'', ''gt''} \<Longrightarrow> denotes_number v x \<Longrightarrow> denotes_number w y \<Longrightarrow> y < x
     \<Longrightarrow> operator_holds lib oper (Some v) (Some w)"
| "oper \<in> {''less_than'', ''lt''} \<Longrightarrow> denotes_number v x \<Longrightarrow> denotes_number w y \<Longrightarrow> x < y
     \<Longrightarrow> operator_holds lib oper (Some v) (Some w)"
| "oper \<in> {''greater_or_equal'', ''gte''} \<Longrightarrow> denotes_number v x \<Longrightarrow> denotes_number w y \<Longrightarrow> y \<le> x
     \<Longrightarrow> operator_holds lib oper (Some v) (Some w)"
| "oper \<in> {''less_or_equal'', ''lte''} \<Longrightarrow> denotes_number v x \<Longrightarrow> denotes_number w y \<Longrightarrow> x \<le> y
     \<Longrightarrow> operator_holds lib oper (Some v) (Some w)"
| "reads_as v True \<Longrightarrow> operator_holds lib ''is_true'' (Some v) e"
| "reads_as v False \<Longrightarrow> operator_holds lib ''is_false'' (Some v) e"

inductive_simps operator_holds_simps:
  "operator_holds lib ''exists'' v e" "operator_holds lib ''not_exists'' v e"
  "operator_holds lib ''equals'' v e" "operator_holds lib ''eq'' v e"
  "operator_holds lib ''not_equals'' v e" "operator_holds lib ''ne'' v e"
  "operator_holds lib ''contains'' v e" "operator_holds lib ''not_contains'' v e"
  "operator_holds lib ''starts_with'' v e" "operator_holds lib ''ends_with'' v e"
  "operator_holds lib ''regex'' v e" "operator_holds lib ''not_regex'' v e"
  "operator_holds lib ''in'' v e" "operator_holds lib ''not_in'' v e"
  "operator_holds lib ''greater_than'' v e" "operator_holds lib ''gt'' v e"
  "operator_holds lib ''less_than'' v e" "operator_holds lib ''lt'' v e"
  "operator_holds lib ''greater_or_equal'' v e" "operator_holds lib ''gte'' v e"
  "operator_holds lib ''less_or_equal'' v e" "operator_holds lib ''lte'' v e"
  "operator_holds lib ''is_true'' v e" "operator_holds lib ''is_false'' v e"

inductive_simps denotes_number_simps:
  "denotes_number PNone x" "denotes_number (PBool b) x" "denotes_number (PInt i) x" "denotes_number (PFloat t) x"
  "denotes_number (PStr s) x" "denotes_number (PList xs) x" "denotes_number (PDict d) x"

inductive_simps contained_in_simps:
  "contained_in w PNone" "contained_in w (PBool b)" "contained_in w (PInt i)" "contained_in w (PFloat t)"
  "contained_in w (PStr s)" "contained_in w (PList xs)" "contained_in w (PDict d)"

inductive_simps member_of_simps:
  "member_of w PNone" "member_of w (PBool b)" "member_of w (PInt i)" "member_of w (PFloat t)"
  "member_of w (PStr s)" "member_of w (PList xs)" "member_of w (PDict d)"

inductive_simps reads_as_simps:
  "reads_as PNone b" "reads_as (PBool c) b" "reads_as (PInt i) b" "reads_as (PFloat t) b"
  "reads_as (PStr s) b" "reads_as (PList xs) b" "reads_as (PDict d) b"

text \<open>The functions of the code decide these relations.\<close>

lemma parse_decimal_Nil [simp]: "parse_decimal [] = None"
  by (simp add: parse_decimal_def strip_def)

lemma decimal_of_iff: "decimal_of v = Some x \<longleftrightarrow> denotes_number v x"
  by (cases v) (auto simp: denotes_number_simps)

lemma json_equal_iff: "json_equal v w \<longleftrightarrow> same_value v w"
proof
  assume h: "json_equal v w"
  show "same_value v w"
  proof (cases "is_int_or_float v \<or> is_int_or_float w")
    case True
    with h obtain x where "denotes_number v x" "denotes_number w x"
      by (cases v; cases w) (auto simp: json_equal_def decimal_of_iff [symmetric] split: option.splits)
    then show ?thesis
      by (rule same_number) (use True in \<open>cases v; cases w; simp\<close>)
  next
    case False
    with h show ?thesis
      by (cases v; cases w) (auto simp: json_equal_def intro: same_value.intros)
  qed
next
  assume "same_value v w"
  then show "json_equal v w"
  proof cases
    case (same_number x)
    then show ?thesis
      by (cases v; cases w) (auto simp: json_equal_def decimal_of_iff [symmetric] split: option.splits)
  qed (simp_all add: json_equal_def)
qed

lemma equal_values_iff: "equal_values (Some v) e \<longleftrightarrow> (\<exists>w. e = Some w \<and> same_value v w)"
  by (auto simp: equal_values_def json_equal_iff split: option.splits)

lemma dmem_entry: "dmem d k \<longleftrightarrow> (\<exists>v. (k, v) \<in> set d)"
  by (force simp: dmem_def map_of_eq_None_iff)

lemma contains_value_iff:
  "contains_value (Some v) e = Inr m \<Longrightarrow> m \<longleftrightarrow> (\<exists>w. e = Some w \<and> contained_in w v)"
  by (cases v; cases e)
    (auto simp: contains_value_def contained_in_simps sublist_def dmem_entry equal_values_def json_equal_iff list_ex_iff
      raise_def elim!: in_mapping.elims split: py.splits)

lemma in_value_iff: "in_value (Some v) e = Inr m \<Longrightarrow> m \<longleftrightarrow> (\<exists>w. e = Some w \<and> member_of v w)"
  by (cases e)
    (auto simp: in_value_def member_of_simps dmem_entry equal_values_def json_equal_iff list_ex_iff raise_def
      elim!: in_mapping.elims split: py.splits)

lemma coerce_boolean_iff: "coerce_boolean v = Some b \<longleftrightarrow> reads_as v b"
  by (cases v) (auto simp: reads_as_simps YES_def NO_def Let_def)

lemma regex_matches_iff:
  "regex_matches lib (Some v) e = Inr m \<longleftrightarrow> (\<exists>p. e = Some p \<and> pattern_finds lib v p m)"
  by (cases e) (auto simp: regex_matches_def pattern_finds.simps res_bind_Inr_iff)

lemma pattern_verdict: "pattern_finds lib v p m \<Longrightarrow> pattern_finds lib v p m' \<Longrightarrow> m = m'"
  by (auto simp: pattern_finds.simps)

lemma both_str_iff:
  "both_str (\<lambda>a e. prefix e a) v e \<longleftrightarrow> (\<exists>s rest. v = Some (PStr (s @ rest)) \<and> e = Some (PStr s))"
  "both_str (\<lambda>a e. suffix e a) v e \<longleftrightarrow> (\<exists>s rest. v = Some (PStr (rest @ s)) \<and> e = Some (PStr s))"
  by (cases v; cases e; cases "the v"; cases "the e"; auto simp: both_str_def prefix_def suffix_def)+

lemma operator_cases:
  assumes "oper \<in> set SUPPORTED_OPERATORS"
  obtains "oper = ''equals''" | "oper = ''not_equals''" | "oper = ''contains''" | "oper = ''not_contains''"
    | "oper = ''starts_with''" | "oper = ''ends_with''" | "oper = ''regex''" | "oper = ''not_regex''"
    | "oper = ''in''" | "oper = ''not_in''" | "oper = ''exists''" | "oper = ''not_exists''"
    | "oper = ''greater_than''" | "oper = ''less_than''" | "oper = ''greater_or_equal''" | "oper = ''less_or_equal''"
    | "oper = ''is_true''" | "oper = ''is_false''"
  using assms unfolding SUPPORTED_OPERATORS_def list.set insert_iff empty_iff simp_thms
  by (elim disjE) simp_all

lemma evaluate_operator_holds:
  assumes "oper \<in> set SUPPORTED_OPERATORS" "evaluate_operator lib oper v e (v \<noteq> None) = Inr (m, c)"
  shows "m \<longleftrightarrow> operator_holds lib oper v e"
proof (cases v)
  case None
  show ?thesis
    using assms(2) by (cases rule: operator_cases [OF assms(1)]) (auto simp: None evaluate_operator_def operator_holds_simps)
next
  case (Some a)
  show ?thesis
    using assms(2) unfolding Some
    by (cases rule: operator_cases [OF assms(1)];
        auto simp: evaluate_operator_def operator_holds_simps both_str_iff verdict_def res_bind_Inr_iff equal_values_iff
          regex_matches_iff coerce_boolean_iff [symmetric] decimal_of_iff [symmetric] opt_decimal_def
          dest!: contains_value_iff in_value_iff dest: pattern_verdict split: option.splits)
qed

lemma evaluate_operator_refused:
  assumes "oper \<in> set SUPPORTED_OPERATORS" "evaluate_operator lib oper v e found = Inl x" "exn_cls x = RegexSafetyError"
  shows "\<not> operator_holds lib oper v e"
proof -
  have "oper = ''regex'' \<or> oper = ''not_regex''"
    using assms(2,3) contains_value_error [of v e x] in_value_error [of v e x]
    by (cases rule: operator_cases [OF assms(1)])
      (simp_all add: evaluate_operator_def res_bind_Inl_iff split: if_split_asm option.split_asm)
  then have "regex_matches lib v e = Inl x"
    using assms(2) by (auto simp: evaluate_operator_def res_bind_Inl_iff split: if_splits)
  moreover have "regex_matches lib v e = Inr m" if "v = Some a" "e = Some p" "pattern_finds lib a p m" for a p m
    using that regex_matches_iff [of lib a e m] by blast
  ultimately have no: "\<not> (v = Some a \<and> e = Some p \<and> pattern_finds lib a p m)" for a p m
    by (metis Inl_Inr_False)
  with \<open>oper = ''regex'' \<or> oper = ''not_regex''\<close> show ?thesis
    by (auto simp: operator_holds_simps)
qed

text \<open>An alias means the same as its operator.\<close>

lemma operator_alias:
  assumes "normalize_operator (PStr s) = Inr oper"
  shows "operator_holds lib (strip s) v e \<longleftrightarrow> operator_holds lib oper v e"
proof (cases "map_of OPERATOR_ALIASES (strip s)")
  case None
  with assms show ?thesis
    by (auto simp: normalize_operator_def Let_def split: if_splits)
next
  case (Some n)
  then have "oper = n"
    using assms by (auto simp: normalize_operator_def Let_def split: if_splits)
  have "(strip s, n) \<in> set OPERATOR_ALIASES"
    using Some by (rule map_of_SomeD)
  then show ?thesis
    unfolding \<open>oper = n\<close> OPERATOR_ALIASES_def list.set insert_iff empty_iff simp_thms prod.inject
    by (elim disjE conjE) (simp_all add: operator_holds_simps)
qed

text \<open>A leaf tests the value that its field reference reads.\<close>

definition leaf_holds :: "py_lib \<Rightarrow> pydict \<Rightarrow> pydict \<Rightarrow> bool" where
  "leaf_holds lib context d \<longleftrightarrow>
     (\<exists>s r. map_of d ''operator'' = Some (PStr s) \<and> resolve_field context (dget d ''field'') = Inr r
        \<and> operator_holds lib (strip s) (fr_value r) (map_of d ''value''))"

fun cond_holds :: "py_lib \<Rightarrow> pydict \<Rightarrow> py \<Rightarrow> bool" where
  "cond_holds lib context node =
     (case logical_keys (items node) of
        key # _ \<Rightarrow>
          (if key = ''all'' then list_all (cond_holds lib context) (cond_children node)
           else if key = ''any'' then list_ex (cond_holds lib context) (cond_children node)
           else \<not> list_ex (cond_holds lib context) (cond_children node))
      | [] \<Rightarrow> items node = [] \<or> leaf_holds lib context (items node))"

declare cond_holds.simps [simp del]

lemma cr_children_size [termination_simp]: "x \<in> set (cr_children r) \<Longrightarrow> size x < size r"
proof (cases r)
  case (ConditionResult a b c d e f g h i j cs)
  assume "x \<in> set (cr_children r)"
  then have "x \<in> set cs" using ConditionResult by simp
  then have "size x < Suc (size_list size cs)"
    by (induction cs) auto
  with ConditionResult show ?thesis by simp
qed

fun trace_nodes :: "condition_result \<Rightarrow> nat" where
  "trace_nodes r = Suc (sum_list (map trace_nodes (cr_children r)))"

declare trace_nodes.simps [simp del]

lemma eval_leaf_cases:
  assumes "leaf_ok lib d"
  shows "(\<exists>r. eval_leaf lib context d p = Inr r \<and> cr_matched r = leaf_holds lib context d \<and> cr_children r = []) \<or>
         (\<exists>e. eval_leaf lib context d p = Inl e \<and> exn_cls e = TypeError)"
proof -
  obtain f oper n where f: "map_of d ''field'' = Some f" and n: "normalize_field_reference f = Inr n"
    and o: "map_of d ''operator'' = Some oper"
    using assms by (auto simp: leaf_ok_def leaf_issues_Nil dmem_def dget_def is_ok_iff split: option.splits)
  obtain op where op: "normalize_operator oper = Inr op"
    using assms o by (auto simp: leaf_ok_def leaf_issues_Nil dget_def)
  then obtain s where oper: "oper = PStr s"
    by (auto simp: normalize_operator_def split: py.splits)
  obtain r where r: "resolve_field context f = Inr r"
    using n by (simp add: resolve_field_def Let_def)
  have found: "fr_found r \<longleftrightarrow> fr_value r \<noteq> None"
    by (rule resolve_field_normalized(3) [OF r])
  have sup: "op \<in> set SUPPORTED_OPERATORS"
    using op by (rule normalize_operator_supported)
  have holds: "leaf_holds lib context d \<longleftrightarrow> operator_holds lib op (fr_value r) (map_of d ''value'')"
    using operator_alias [OF op [unfolded oper], of lib] by (simp add: leaf_holds_def o oper dget_def f r)
  show ?thesis
  proof (cases "evaluate_operator lib op (fr_value r) (map_of d ''value'') (fr_found r)")
    case (Inl e)
    then have "exn_cls e \<in> {TypeError, RegexSafetyError}"
      by (rule evaluate_operator_error [OF sup])
    with Inl evaluate_operator_refused [OF sup Inl] show ?thesis
      unfolding holds by (auto simp: eval_leaf_def f o op r Let_def dget_def)
  next
    case (Inr b)
    then show ?thesis
      using evaluate_operator_holds [OF sup, of lib "fr_value r" "map_of d ''value''"]
      by (cases b) (simp add: holds eval_leaf_def f o op r Let_def dget_def found)
  qed
qed

lemma group_result_matched:
  "cr_matched (group_result k p rs) =
     (if k = ''all'' then list_all cr_matched rs
      else if k = ''any'' then list_ex cr_matched rs else \<not> list_ex cr_matched rs)"
  "cr_children (group_result k p rs) = rs"
  by (simp_all add: group_result_def Let_def list_all_iff list_ex_iff)

lemma eval_children_cases:
  assumes "\<forall>c \<in> set cs. \<forall>p.
     (\<exists>r. eval_cond lib context c p = Inr r \<and> cr_matched r = cond_holds lib context c \<and> trace_nodes r = tree_nodes c) \<or>
     (\<exists>e. eval_cond lib context c p = Inl e \<and> exn_cls e = TypeError)"
  shows "(\<exists>rs. eval_children lib context cs p i = Inr rs \<and>
            map cr_matched rs = map (cond_holds lib context) cs \<and> map trace_nodes rs = map tree_nodes cs) \<or>
         (\<exists>e. eval_children lib context cs p i = Inl e \<and> exn_cls e = TypeError)"
  using assms
proof (induction cs arbitrary: i)
  case (Cons c cs)
  from Cons.prems have c: "(\<exists>r. eval_cond lib context c (index_path p i) = Inr r \<and>
      cr_matched r = cond_holds lib context c \<and> trace_nodes r = tree_nodes c) \<or>
      (\<exists>e. eval_cond lib context c (index_path p i) = Inl e \<and> exn_cls e = TypeError)" by simp
  from Cons have cs: "(\<exists>rs. eval_children lib context cs p (Suc i) = Inr rs \<and>
            map cr_matched rs = map (cond_holds lib context) cs \<and> map trace_nodes rs = map tree_nodes cs) \<or>
         (\<exists>e. eval_children lib context cs p (Suc i) = Inl e \<and> exn_cls e = TypeError)" by simp
  from c cs show ?case by (auto simp: res_bind_Inl_iff)
qed simp

lemma list_all_map_id:
  "list_all f xs = list_all id (map f xs)" "list_ex f xs = list_ex id (map f xs)"
  by (induction xs) auto

lemma eval_cond_valid:
  assumes "valid_cond lib node"
  shows "\<forall>p. (\<exists>r. eval_cond lib context node p = Inr r \<and>
            cr_matched r = cond_holds lib context node \<and> trace_nodes r = tree_nodes node) \<or>
         (\<exists>e. eval_cond lib context node p = Inl e \<and> exn_cls e = TypeError)"
  using assms
proof (induction rule: valid_cond.induct)
  case valid_any
  show ?case
    by (simp add: eval_cond.simps cond_holds.simps trace_nodes.simps tree_nodes.simps [of "PDict []"]
        cond_children_def logical_keys_def dmem_def)
next
  case (valid_leaf d)
  then have "cond_children (PDict d) = []"
    by (simp add: cond_children_leaf)
  with valid_leaf eval_leaf_cases [OF valid_leaf(2), of "context"] show ?case
    by (fastforce simp: eval_cond.simps [of lib "context" "PDict d"] cond_holds.simps [of lib "context" "PDict d"]
        trace_nodes.simps tree_nodes.simps [of "PDict d"])
next
  case (valid_group d key cs)
  have cc: "cond_children (PDict d) = cs"
    using valid_group by (simp add: cond_children_group)
  have d: "d \<noteq> []" using valid_group by auto
  have ch: "cond_holds lib context (PDict d) =
      (if key = ''all'' then list_all (cond_holds lib context) cs
       else if key = ''any'' then list_ex (cond_holds lib context) cs
       else \<not> list_ex (cond_holds lib context) cs)"
    by (simp add: cond_holds.simps [of lib "context" "PDict d"] valid_group(1) cc)
  show ?case
  proof
    fix p
    have "(\<exists>rs. eval_children lib context cs (p @ ''.'' @ key) 0 = Inr rs \<and>
            map cr_matched rs = map (cond_holds lib context) cs \<and> map trace_nodes rs = map tree_nodes cs) \<or>
         (\<exists>e. eval_children lib context cs (p @ ''.'' @ key) 0 = Inl e \<and> exn_cls e = TypeError)"
      using valid_group(4) by (intro eval_children_cases) blast
    then show "(\<exists>r. eval_cond lib context (PDict d) p = Inr r \<and>
            cr_matched r = cond_holds lib context (PDict d) \<and> trace_nodes r = tree_nodes (PDict d)) \<or>
         (\<exists>e. eval_cond lib context (PDict d) p = Inl e \<and> exn_cls e = TypeError)"
    proof (elim disjE exE conjE)
      fix rs
      assume rs: "eval_children lib context cs (p @ ''.'' @ key) 0 = Inr rs"
        and m: "map cr_matched rs = map (cond_holds lib context) cs"
        and t: "map trace_nodes rs = map tree_nodes cs"
      have "list_all cr_matched rs = list_all (cond_holds lib context) cs"
        and "list_ex cr_matched rs = list_ex (cond_holds lib context) cs"
        using list_all_map_id [of cr_matched rs] list_all_map_id [of "cond_holds lib context" cs] m
        by simp_all
      moreover have "trace_nodes (group_result key p rs) = tree_nodes (PDict d)"
        using t unfolding trace_nodes.simps [of "group_result key p rs"] tree_nodes.simps [of "PDict d"] cc
        by (simp add: group_result_matched)
      ultimately show ?thesis
        using rs valid_group(1,3) d
        by (simp add: eval_cond.simps [of lib "context" "PDict d" p] ch group_result_matched)
    next
      fix e
      assume "eval_children lib context cs (p @ ''.'' @ key) 0 = Inl e" "exn_cls e = TypeError"
      then show ?thesis
        using valid_group(1,3) d by (simp add: eval_cond.simps [of lib "context" "PDict d"])
    qed
  qed
qed

section \<open>Properties\<close>

text \<open>
  C20. A condition tree that evaluates was validated, and its verdict is that of the
  formula it denotes: groups are conjunction, disjunction and negated disjunction of their
  children, and the empty condition matches everything. A leaf holds when its operator does of
  the value its field refers to and its operand: equality and order of numbers, containment,
  membership, prefixes, patterns and truth values are stated on the values, aliases of an operator
  mean the same, and an unsafe pattern matches nothing. The explain trace has exactly one
  entry for every node of the tree, so mismatching branches are traced too.
\<close>

theorem evaluate_condition_tree_sound:
  assumes "evaluate_condition_tree lib tree ctx = Inr r"
  shows "cr_matched r = cond_holds lib ctx tree \<and> trace_nodes r = tree_nodes tree"
proof -
  have v: "validate_condition_tree lib tree ''condition_tree'' = []"
    and e: "eval_cond lib ctx tree ''$'' = Inr r"
    using assms by (auto simp: evaluate_condition_tree_def split: list.splits)
  show ?thesis
    using eval_cond_valid [OF validate_condition_tree_valid(1) [OF v], of ctx, rule_format, of "''$''"] e
    by simp
qed

definition demo_context :: pydict where
  "demo_context = [(''event'', PDict [(''severity'', PStr ''critical''), (''count'', PInt 7)]),
                   (''labels'', PDict [(''env'', PStr ''prod'')])]"

definition demo_tree :: py where
  "demo_tree = PDict [(''all'', PList
     [PDict [(''field'', PStr ''severity''), (''operator'', PStr ''eq''), (''value'', PStr ''critical'')],
      PDict [(''none'', PList [PDict [(''field'', PStr ''event.count''), (''operator'', PStr ''lt''), (''value'', PInt 5)]])],
      PDict [(''field'', PStr ''labels.env''), (''operator'', PStr ''in''), (''value'', PList [PStr ''prod''])]])]"

theorem evaluate_condition_tree_sound_witness:
  "\<exists>r. evaluate_condition_tree no_lib demo_tree demo_context = Inr r \<and>
       cr_matched r \<and> cond_holds no_lib demo_context demo_tree \<and> trace_nodes r = 5"
proof -
  have ok: "case evaluate_condition_tree no_lib demo_tree demo_context of Inl _ \<Rightarrow> False | Inr r \<Rightarrow> cr_matched r"
    by code_simp
  then obtain r where r: "evaluate_condition_tree no_lib demo_tree demo_context = Inr r" and "cr_matched r"
    by (auto split: sum.splits)
  moreover have "tree_nodes demo_tree = 5"
    by code_simp
  ultimately show ?thesis
    using evaluate_condition_tree_sound [OF r] by auto
qed

text \<open>
  Evaluation is bounded: a tree without validation issues has at most 256 nodes and
  is nested at most 20 levels deep.
\<close>

theorem condition_tree_bounded:
  assumes "validate_condition_tree lib tree path = []"
  shows "tree_nodes tree \<le> MAX_CONDITION_NODES \<and> tree_depth tree \<le> MAX_CONDITION_DEPTH"
  using validate_condition_tree_valid(2,3) [OF assms] by simp

theorem condition_tree_bounded_witness:
  "tree_nodes demo_tree \<le> MAX_CONDITION_NODES \<and> tree_depth demo_tree \<le> MAX_CONDITION_DEPTH"
proof (rule condition_tree_bounded)
  show "validate_condition_tree no_lib demo_tree ''t'' = []"
    by code_simp
qed

text \<open>
  C21. On a validated tree the only exception that can escape evaluation is the
  \<open>TypeError\<close> of a membership test with an unhashable operand; malformed references,
  operators and unsafe patterns cannot occur or are turned into a mismatch.
\<close>

theorem validated_condition_tree_errors:
  assumes "validate_condition_tree lib tree ''condition_tree'' = []"
    and "evaluate_condition_tree lib tree ctx = Inl e"
  shows "exn_cls e = TypeError"
proof -
  have "eval_cond lib ctx tree ''$'' = Inl e"
    using assms by (simp add: evaluate_condition_tree_def)
  then show ?thesis
    using eval_cond_valid [OF validate_condition_tree_valid(1) [OF assms(1)], of ctx, rule_format, of "''$''"]
    by simp
qed

definition unhashable_tree :: py where
  "unhashable_tree =
     PDict [(''field'', PStr ''labels''), (''operator'', PStr ''contains''), (''value'', PList [PStr ''env''])]"

theorem validated_condition_tree_errors_witness:
  "\<exists>e. validate_condition_tree no_lib unhashable_tree ''condition_tree'' = [] \<and>
       evaluate_condition_tree no_lib unhashable_tree demo_context = Inl e \<and> exn_cls e = TypeError"
proof -
  have v: "validate_condition_tree no_lib unhashable_tree ''condition_tree'' = []"
    by code_simp
  have "\<not> is_ok (evaluate_condition_tree no_lib unhashable_tree demo_context)"
    by code_simp
  then obtain e where e: "evaluate_condition_tree no_lib unhashable_tree demo_context = Inl e"
    by (cases "evaluate_condition_tree no_lib unhashable_tree demo_context") auto
  with v validated_condition_tree_errors [OF v e] show ?thesis by blast
qed

end
