(* ===== verification/Interfaces.thy ===== *)
theory Interfaces
  imports Orch_Fields
begin

text \<open>
  Interfaces that several components of the event pipeline share, each interpreted by the
  components that provide it.
\<close>

section \<open>Errors that \<open>except ValueError\<close> catches\<close>

definition value_errors :: "'a result \<Rightarrow> bool" where
  "value_errors r \<longleftrightarrow> (\<forall>e. r = Inl e \<longrightarrow> is_value_error (exn_cls e))"

named_theorems value_errors

lemma value_errors_Inr [simp, value_errors]: "value_errors (Inr x)"
  by (simp add: value_errors_def)

lemma value_errors_raise [value_errors]: "is_value_error c \<Longrightarrow> value_errors (raise c m)"
  by (simp add: value_errors_def raise_def)

lemma value_errors_raise_at [value_errors]: "is_value_error c \<Longrightarrow> value_errors (raise_at c m p)"
  by (simp add: value_errors_def raise_at_def)

lemma value_errors_bind [value_errors]:
  "value_errors r \<Longrightarrow> (\<And>x. r = Inr x \<Longrightarrow> value_errors (f x)) \<Longrightarrow> value_errors (res_bind r f)"
  by (auto simp: value_errors_def res_bind_Inl_iff)

lemma value_errors_if [value_errors]:
  "(b \<Longrightarrow> value_errors r) \<Longrightarrow> (\<not> b \<Longrightarrow> value_errors s) \<Longrightarrow> value_errors (if b then r else s)"
  by simp

section \<open>Entry points guarded by a validator\<close>

text \<open>
  \<open>issues = validate(x); if issues: raise Error(first.message, path=first.path)\<close>: the
  contract of \<open>render_template\<close>, \<open>evaluate_condition_tree\<close>, \<open>extract_variables\<close>,
  \<open>execute_actions\<close> and \<open>execute_rule_tree\<close>.
\<close>

locale validated_entry =
  fixes validate :: "'x \<Rightarrow> validation_issue list result"
    and run :: "'x \<Rightarrow> 'y result"
    and cls :: exn_class
  assumes refused: "validate x = Inr (i # is) \<Longrightarrow> run x = raise_at cls (vi_message i) (vi_path i)"
    and crashed: "validate x = Inl e \<Longrightarrow> run x = Inl e"
begin

lemma run_ok_validated: "run x = Inr y \<Longrightarrow> validate x = Inr []"
proof (cases "validate x")
  case (Inr iss)
  moreover assume "run x = Inr y"
  ultimately show ?thesis
    using refused [of x] by (cases iss) auto
qed (simp add: crashed)

lemma run_refused_iff:
  assumes "validate x = Inr is" and "is \<noteq> []"
  shows "\<exists>e. run x = Inl e \<and> exn_cls e = cls \<and> exn_msg e = vi_message (hd is)"
  using assms refused [of x] by (cases "is") (auto simp: raise_at_def)

end

section \<open>Stores with a checked assignment\<close>

text \<open>
  A store whose assignment may refuse a binding, and the loop that assigns several
  bindings and stops at the first refusal with the earlier ones in place.
\<close>

locale checked_store =
  fixes put :: "'s \<Rightarrow> 'k \<Rightarrow> 'v \<Rightarrow> exn + 's"
    and look :: "'s \<Rightarrow> 'k \<Rightarrow> 'v option"
    and ok :: "'s \<Rightarrow> bool"
    and put_all :: "'s \<Rightarrow> ('k \<times> 'v) list \<Rightarrow> 's \<times> exn option"
  assumes look_put: "put s k v = Inr s' \<Longrightarrow> look s' k' = (if k' = k then Some v else look s k')"
    and put_ok: "ok s \<Longrightarrow> put s k v = Inr s' \<Longrightarrow> ok s'"
    and put_all_Nil: "put_all s [] = (s, None)"
    and put_all_Cons: "put_all s ((k, v) # r) =
          (case put s k v of Inl e \<Rightarrow> (s, Some e) | Inr s' \<Rightarrow> put_all s' r)"
begin

lemma put_all_ok: "ok s \<Longrightarrow> ok (fst (put_all s kvs))"
  by (induction kvs arbitrary: s) (auto simp: put_all_Nil put_all_Cons put_ok split: sum.splits)

lemma look_put_all:
  "put_all s kvs = (s', None) \<Longrightarrow> look s' k = (case map_of (rev kvs) k of Some v \<Rightarrow> Some v | None \<Rightarrow> look s k)"
  by (induction kvs arbitrary: s)
    (auto simp: put_all_Nil put_all_Cons look_put map_add_def split: sum.splits option.splits if_splits)

lemma put_all_refused:
  "put_all s kvs = (s', Some e) \<Longrightarrow>
     \<exists>pre k v post. kvs = pre @ (k, v) # post \<and> put_all s pre = (s', None) \<and> put s' k v = Inl e"
proof (induction kvs arbitrary: s)
  case (Cons kv kvs)
  obtain k v where kv: "kv = (k, v)" by (cases kv)
  show ?case
  proof (cases "put s k v")
    case (Inl x)
    with Cons.prems kv show ?thesis
      by (intro exI [of _ "[]"]) (auto simp: put_all_Nil put_all_Cons)
  next
    case (Inr t)
    then have "put_all t kvs = (s', Some e)"
      using Cons.prems kv by (simp add: put_all_Cons)
    from Cons.IH [OF this] obtain pre k' v' post where "kvs = pre @ (k', v') # post"
      "put_all t pre = (s', None)" "put s' k' v' = Inl e"
      by blast
    with Inr kv show ?thesis
      by (intro exI [of _ "(k, v) # pre"]) (auto simp: put_all_Cons)
  qed
qed (simp add: put_all_Nil)

end

section \<open>Loops that stop at a step\<close>

text \<open>
  A loop over items that threads a state, collects one trace entry per item and ends early
  when an entry asks for it: the loops of \<open>extract_variables\<close>, \<open>execute_actions\<close> and
  \<open>_execute_level\<close>.
\<close>

locale stopping_loop =
  fixes iter :: "nat \<Rightarrow> 'x \<Rightarrow> 's \<Rightarrow> exn + 't \<times> 's"
    and halts :: "'t \<Rightarrow> bool"
    and loop :: "nat \<Rightarrow> 'x list \<Rightarrow> 's \<Rightarrow> 't list \<Rightarrow> exn + 's \<times> 't list"
  assumes loop_Nil: "loop i [] s ts = Inr (s, ts)"
    and loop_Cons: "loop i (x # xs) s ts =
      res_bind (iter i x s) (\<lambda>(t, s'). if halts t then Inr (s', ts @ [t]) else loop (Suc i) xs s' (ts @ [t]))"
begin

lemma loop_trace:
  "loop i xs s ts = Inr (s', ts') \<Longrightarrow>
     \<exists>more. ts' = ts @ more \<and> length more \<le> length xs \<and> list_all (\<lambda>t. \<not> halts t) (butlast more) \<and>
       (length more < length xs \<longrightarrow> more \<noteq> [] \<and> halts (last more))"
proof (induction xs arbitrary: i s ts)
  case Nil
  then show ?case by (simp add: loop_Nil)
next
  case (Cons x xs)
  obtain t s1 where it: "iter i x s = Inr (t, s1)"
    using Cons.prems by (cases "iter i x s") (auto simp: loop_Cons)
  show ?case
  proof (cases "halts t")
    case True
    then show ?thesis
      using Cons.prems it by (intro exI [of _ "[t]"]) (auto simp: loop_Cons)
  next
    case False
    then have "loop (Suc i) xs s1 (ts @ [t]) = Inr (s', ts')"
      using Cons.prems it by (simp add: loop_Cons)
    from Cons.IH [OF this] obtain more where "ts' = (ts @ [t]) @ more" "length more \<le> length xs"
      "list_all (\<lambda>t. \<not> halts t) (butlast more)"
      "length more < length xs \<longrightarrow> more \<noteq> [] \<and> halts (last more)"
      by blast
    with False show ?thesis
      by (intro exI [of _ "t # more"]) auto
  qed
qed

lemma loop_inv:
  assumes "\<And>i x s t s'. x \<in> set xs \<Longrightarrow> I s \<Longrightarrow> iter i x s = Inr (t, s') \<Longrightarrow> I s' \<and> \<not> halts t \<or> J t s' \<and> halts t"
    and "I s" and "loop i xs s ts = Inr (s', ts')"
  shows "I s' \<or> J (last ts') s' \<and> ts' \<noteq> [] \<and> halts (last ts')"
  using assms
proof (induction xs arbitrary: i s ts)
  case Nil
  then show ?case by (simp add: loop_Nil)
next
  case (Cons x xs)
  obtain t s1 where it: "iter i x s = Inr (t, s1)"
    using Cons.prems(3) by (cases "iter i x s") (auto simp: loop_Cons)
  then have c: "I s1 \<and> \<not> halts t \<or> J t s1 \<and> halts t"
    using Cons.prems(1) [of x s i t s1] Cons.prems(2) by simp
  show ?case
  proof (cases "halts t")
    case True
    with c Cons.prems(3) it show ?thesis by (auto simp: loop_Cons)
  next
    case False
    with c Cons.prems(3) it have "I s1" and "loop (Suc i) xs s1 (ts @ [t]) = Inr (s', ts')"
      by (simp_all add: loop_Cons)
    from this show ?thesis
      by (rule Cons.IH [rotated]) (rule Cons.prems(1), simp_all)
  qed
qed

lemma loop_total:
  assumes "\<And>i x s. x \<in> set xs \<Longrightarrow> I s \<Longrightarrow> \<exists>t s'. iter i x s = Inr (t, s') \<and> (halts t \<or> I s')" and "I s"
  shows "\<exists>s' ts'. loop i xs s ts = Inr (s', ts')"
  using assms
proof (induction xs arbitrary: i s ts)
  case Nil
  then show ?case by (simp add: loop_Nil)
next
  case (Cons x xs)
  obtain t s1 where it: "iter i x s = Inr (t, s1)" "halts t \<or> I s1"
    using Cons.prems(1) [of x s i] Cons.prems(2) by auto
  show ?case
  proof (cases "halts t")
    case True
    with it show ?thesis by (simp add: loop_Cons)
  next
    case False
    with it have "I s1" by simp
    then have "\<exists>s' ts'. loop (Suc i) xs s1 (ts @ [t]) = Inr (s', ts')"
      by (rule Cons.IH [rotated]) (use Cons.prems(1) in simp)
    with it False show ?thesis by (simp add: loop_Cons)
  qed
qed

end

end
