(* ===== verification/Orch_Templates.thy ===== *)
theory Orch_Templates
  imports Orch_Regex Interfaces
begin

text \<open>
  The restricted template language of Event Orchestration (\<open>orchestration/templates.py\<close>):
  parsing of \<open>{{ field | filter(args) }}\<close> expressions, static validation and rendering. The parameter
  \<open>literal_args\<close> yields nothing where \<open>ast.literal_eval\<close> raises \<open>SyntaxError\<close> or \<open>ValueError\<close>, the errors
  the code handles; its \<open>TypeError\<close> on an unhashable element of a set or dictionary is outside the model.
\<close>

section \<open>Expressions in a template\<close>

text \<open>
  The text before the first \<open>}}\<close> and the text after it, as the lazy group of
  \<open>_EXPRESSION = {{(.*?)}}\<close> finds them.
\<close>

fun close_expr :: "string \<Rightarrow> (string \<times> string) option" where
  "close_expr [] = None"
| "close_expr (c # s) =
     (if prefix ''}}'' (c # s) then Some ([], drop 2 (c # s))
      else map_option (\<lambda>(e, r). (c # e, r)) (close_expr s))"

lemma close_expr_length: "close_expr s = Some (e, r) \<Longrightarrow> length r < length s"
  by (induction s arbitrary: e) (auto split: if_splits simp: prefix_Cons)

text \<open>
  \<open>_EXPRESSION.finditer\<close>: the literal text before each expression with the expression,
  and the literal text after the last one.
\<close>

function segments_acc :: "string \<Rightarrow> string \<Rightarrow> (string \<times> string) list \<times> string" where
  "segments_acc acc s =
     (case s of
        [] \<Rightarrow> ([], rev acc)
      | c # cs \<Rightarrow>
          (case (if prefix ''{{'' s then close_expr (drop 2 s) else None) of
             Some (e, r) \<Rightarrow> (let (segs, tail) = segments_acc [] r in ((rev acc, e) # segs, tail))
           | None \<Rightarrow> segments_acc (c # acc) cs))"
  by pat_completeness auto
termination
  by (relation "measure (\<lambda>(acc, s). length s)") (auto dest!: close_expr_length split: if_splits)

declare segments_acc.simps [simp del]

definition segments :: "string \<Rightarrow> (string \<times> string) list \<times> string" where
  "segments template = segments_acc [] template"

text \<open>\<open>_EXPRESSION.sub("", template)\<close>\<close>

definition strip_expressions :: "string \<Rightarrow> string" where
  "strip_expressions template = (let (segs, tail) = segments template in concat (map fst segs) @ tail)"

definition has_delimiter :: "string \<Rightarrow> bool" where
  "has_delimiter s \<longleftrightarrow> str_in ''{{'' s \<or> str_in ''}}'' s"

section \<open>Parsing\<close>

text \<open>
  The loop of \<open>_split_pipeline\<close>: \<open>cur\<close> is the current part reversed, \<open>quote\<close> the open
  quote, \<open>depth\<close> the nesting of parentheses.
\<close>

fun pipeline_loop ::
  "string list \<Rightarrow> string \<Rightarrow> char option \<Rightarrow> bool \<Rightarrow> nat \<Rightarrow> string \<Rightarrow> string list result" where
  "pipeline_loop parts cur quote escaped depth [] =
     (if quote \<noteq> None \<or> depth \<noteq> 0 then raise TemplateValidationError ''unbalanced template expression''
      else Inr (parts @ [strip (rev cur)]))"
| "pipeline_loop parts cur quote escaped depth (c # s) =
     (if escaped then pipeline_loop parts (c # cur) quote False depth s
      else if c = backslash \<and> quote \<noteq> None then pipeline_loop parts (c # cur) quote True depth s
      else if quote \<noteq> None
      then pipeline_loop parts (c # cur) (if quote = Some c then None else quote) False depth s
      else if c = CHR 0x27 \<or> c = CHR 0x22 then pipeline_loop parts (c # cur) (Some c) False depth s
      else if c = CHR ''('' then pipeline_loop parts (c # cur) None False (Suc depth) s
      else if c = CHR '')''
      then (if depth = 0 then raise TemplateValidationError ''unbalanced filter parentheses''
            else pipeline_loop parts (c # cur) None False (depth - 1) s)
      else if c = CHR ''|'' \<and> depth = 0 then pipeline_loop (parts @ [strip (rev cur)]) [] None False depth s
      else pipeline_loop parts (c # cur) None False depth s)"

definition split_pipeline :: "string \<Rightarrow> string list result" where
  "split_pipeline expression = pipeline_loop [] [] None False 0 expression"

fun is_scalar :: "py \<Rightarrow> bool" where
  "is_scalar (PList _) = False"
| "is_scalar (PDict _) = False"
| "is_scalar _ = True"

definition literal_arguments :: "py_lib \<Rightarrow> string option \<Rightarrow> py list result" where
  "literal_arguments lib raw =
     (case raw of
        None \<Rightarrow> Inr []
      | Some r \<Rightarrow>
          if strip r = [] then Inr []
          else (case literal_args lib r of
                  None \<Rightarrow> raise TemplateValidationError
                            ''filter arguments must be string, number, boolean or null literals''
                | Some args \<Rightarrow>
                    if list_all is_scalar args then Inr args
                    else raise TemplateValidationError
                           ''filter arguments cannot contain collections or objects''))"

definition filter_arity :: "(string \<times> nat) list" where
  "filter_arity = [(''lower'', 0), (''upper'', 0), (''trim'', 0), (''default'', 1), (''replace'', 2), (''truncate'', 1)]"

definition validate_filter :: "string \<Rightarrow> py list \<Rightarrow> unit result" where
  "validate_filter name args =
     (case map_of filter_arity name of
        None \<Rightarrow> raise TemplateValidationError (''unsupported template filter '' @ repr_str name)
      | Some required \<Rightarrow>
          if length args \<noteq> required
          then raise TemplateValidationError (''filter '' @ name @ '' expects '' @ nat_str required @ '' argument(s)'')
          else if name = ''replace'' \<and> \<not> list_all is_str args
          then raise TemplateValidationError ''replace arguments must be strings''
          else if name = ''truncate''
          then (case args of
                  [PInt n] \<Rightarrow>
                    if n < 0 then raise TemplateValidationError ''truncate length must be a non-negative integer''
                    else if n > int MAX_TEMPLATE_OUTPUT_LENGTH
                    then raise TemplateValidationError ''truncate length exceeds the output limit''
                    else Inr ()
                | _ \<Rightarrow> raise TemplateValidationError ''truncate length must be a non-negative integer'')
          else Inr ())"

text \<open>\<open>_FILTER\<close>: a name, optionally followed by a parenthesised argument text.\<close>

definition filter_syntax :: "string \<Rightarrow> (string \<times> string option) option" where
  "filter_syntax raw =
     (let name = takeWhile word_char raw; rest = dropWhile word_char raw
      in if name = [] \<or> \<not> name_start (hd name) then None
         else if rest = [] then Some (name, None)
         else if hd rest = CHR ''('' \<and> length rest \<ge> 2 \<and> last rest = CHR '')''
         then Some (name, Some (butlast (tl rest))) else None)"

fun parse_filters :: "py_lib \<Rightarrow> string list \<Rightarrow> (string \<times> py list) list result" where
  "parse_filters lib [] = Inr []"
| "parse_filters lib (raw # rest) =
     (case filter_syntax raw of
        None \<Rightarrow> raise TemplateValidationError (''invalid template filter syntax '' @ repr_str raw)
      | Some (name, raw_args) \<Rightarrow>
          res_bind (literal_arguments lib raw_args)
            (\<lambda>args. res_bind (validate_filter name args)
              (\<lambda>_. res_bind (parse_filters lib rest) (\<lambda>fs. Inr ((name, args) # fs)))))"

record parsed_expression =
  pe_field :: string
  pe_filters :: "(string \<times> py list) list"

definition parse_expression :: "py_lib \<Rightarrow> string \<Rightarrow> parsed_expression result" where
  "parse_expression lib expression0 =
     (let expression = strip expression0 in
      if expression = [] then raise TemplateValidationError ''template expression cannot be empty''
      else if length expression > MAX_TEMPLATE_EXPRESSION_LENGTH
      then raise TemplateValidationError ''template expression exceeds the size limit''
      else res_bind (split_pipeline expression)
        (\<lambda>parts. res_bind (normalize_field_reference (PStr (hd parts)))
          (\<lambda>fld. if length parts - 1 > MAX_TEMPLATE_FILTERS
                 then raise TemplateValidationError ''template expression has too many filters''
                 else res_bind (parse_filters lib (tl parts))
                        (\<lambda>filters. Inr \<lparr>pe_field = fld, pe_filters = filters\<rparr>))))"

section \<open>Validation\<close>

fun expression_issues :: "py_lib \<Rightarrow> string \<Rightarrow> nat \<Rightarrow> string list \<Rightarrow> validation_issue list" where
  "expression_issues lib path i [] = []"
| "expression_issues lib path i (e # es) =
     (case parse_expression lib e of
        Inl x \<Rightarrow> [ValidationIssue (path @ ''.expression['' @ nat_str i @ '']'')
                    (error_code ''invalid_template'' (exn_cls x)) (exn_msg x)]
      | Inr _ \<Rightarrow> []) @ expression_issues lib path (Suc i) es"

definition validate_template :: "py_lib \<Rightarrow> py \<Rightarrow> string \<Rightarrow> validation_issue list" where
  "validate_template lib template path =
     (case template of
        PStr t \<Rightarrow>
          if length t > MAX_TEMPLATE_LENGTH
          then [ValidationIssue path ''template_size_limit'' ''template exceeds the size limit'']
          else let exprs = map snd (fst (segments t)) in
            (if length exprs > MAX_TEMPLATE_EXPRESSIONS
             then [ValidationIssue path ''template_expression_limit'' ''template has too many expressions'']
             else []) @
            (if has_delimiter (strip_expressions t)
             then [ValidationIssue path ''unbalanced_template_delimiter'' ''template contains unbalanced delimiters'']
             else []) @
            expression_issues lib path 0 exprs
      | _ \<Rightarrow> [ValidationIssue path ''invalid_template_type'' ''template must be a string''])"

section \<open>Rendering\<close>

definition stringify :: "py \<Rightarrow> string result" where
  "stringify value =
     (case value of
        PNone \<Rightarrow> Inr []
      | PBool b \<Rightarrow> Inr (if b then ''true'' else ''false'')
      | PStr s \<Rightarrow> Inr s
      | PInt i \<Rightarrow> Inr (int_str i)
      | PFloat t \<Rightarrow> Inr t
      | _ \<Rightarrow> raise TemplateValidationError ''templates can only render scalar values'')"

text \<open>\<open>MISSING\<close> is \<open>None\<close>; the filter arguments have passed \<open>validate_filter\<close>.\<close>

definition text_filter :: "string \<Rightarrow> py list \<Rightarrow> string \<Rightarrow> string result" where
  "text_filter name args text =
     (if name = ''lower'' then Inr (lower text)
      else if name = ''upper'' then Inr (upper text)
      else if name = ''trim'' then Inr (strip text)
      else case (name = ''replace'', name = ''truncate'', args) of
          (True, _, [PStr old, PStr new]) \<Rightarrow> Inr (replace old new text)
        | (_, True, [PInt n]) \<Rightarrow> Inr (take (nat n) text)
        | _ \<Rightarrow> raise TemplateValidationError (''unsupported template filter '' @ repr_str name))"

definition apply_filter ::
  "py option \<Rightarrow> string \<Rightarrow> py list \<Rightarrow> bool \<Rightarrow> (py option \<times> bool) result" where
  "apply_filter value name args missing =
     (if name = ''default''
      then (if missing \<or> value = Some PNone \<or> value = Some (PStr [])
            then Inr (Some (hd args), False) else Inr (value, missing))
      else if missing then Inr (value, missing)
      else case value of
        None \<Rightarrow> raise TemplateValidationError ''templates can only render scalar values''
      | Some v \<Rightarrow> res_bind (stringify v)
                    (\<lambda>text. res_bind (text_filter name args text) (\<lambda>t. Inr (Some (PStr t), False))))"

fun apply_filters :: "py option \<Rightarrow> bool \<Rightarrow> (string \<times> py list) list \<Rightarrow> (py option \<times> bool) result" where
  "apply_filters value missing [] = Inr (value, missing)"
| "apply_filters value missing ((name, args) # fs) =
     res_bind (apply_filter value name args missing) (\<lambda>(v, m). apply_filters v m fs)"

definition render_expression :: "py_lib \<Rightarrow> pydict \<Rightarrow> string \<Rightarrow> (string \<times> string) result" where
  "render_expression lib context expr =
     res_bind (parse_expression lib expr)
       (\<lambda>parsed. res_bind (resolve_field context (PStr (pe_field parsed)))
         (\<lambda>resolution. res_bind (apply_filters (fr_value resolution) (\<not> fr_found resolution) (pe_filters parsed))
           (\<lambda>(value, missing).
              case (missing, value) of
                (False, Some v) \<Rightarrow> res_bind (stringify v) (\<lambda>text. Inr (text, pe_field parsed))
              | _ \<Rightarrow> raise_at TemplateValidationError
                       (''template field '' @ repr_str (pe_field parsed) @ '' does not exist'') (pe_field parsed))))"

text \<open>\<open>append\<close>: the output so far with the limit on its length.\<close>

definition append_output :: "nat \<Rightarrow> string \<Rightarrow> string \<Rightarrow> string result" where
  "append_output limit output value =
     (if length output + length value > limit
      then raise TemplateValidationError ''rendered template exceeds the output limit''
      else Inr (output @ value))"

fun render_segments ::
  "py_lib \<Rightarrow> pydict \<Rightarrow> nat \<Rightarrow> string \<Rightarrow> string list \<Rightarrow> (string \<times> string) list \<Rightarrow> (string \<times> string list) result" where
  "render_segments lib context limit output references [] = Inr (output, references)"
| "render_segments lib context limit output references ((lit, expr) # rest) =
     res_bind (append_output limit output lit)
       (\<lambda>out1. res_bind (render_expression lib context expr)
         (\<lambda>(text, ref). res_bind (append_output limit out1 text)
           (\<lambda>out2. render_segments lib context limit out2 (references @ [ref]) rest)))"

definition render_template_limit ::
  "py_lib \<Rightarrow> py \<Rightarrow> pydict \<Rightarrow> int \<Rightarrow> (string \<times> string list) result" where
  "render_template_limit lib template context max_output_length =
     (case validate_template lib template ''template'' of
        first # _ \<Rightarrow> raise_at TemplateValidationError (vi_message first) (vi_path first)
      | [] \<Rightarrow>
          if max_output_length < 0 \<or> max_output_length > int MAX_TEMPLATE_OUTPUT_LENGTH
          then raise TemplateValidationError ''invalid template output limit''
          else let (segs, tail) = segments (py_str template); limit = nat max_output_length in
            res_bind (render_segments lib context limit [] [] segs)
              (\<lambda>(output, references). res_bind (append_output limit output tail)
                (\<lambda>out. Inr (out, references))))"

definition render_template :: "py_lib \<Rightarrow> py \<Rightarrow> pydict \<Rightarrow> (string \<times> string list) result" where
  "render_template lib template context =
     render_template_limit lib template context (int MAX_TEMPLATE_OUTPUT_LENGTH)"

text \<open>\<open>find_templates\<close>: the strings with template syntax inside a JSON value, with their paths.\<close>

function find_templates :: "py \<Rightarrow> string \<Rightarrow> (string \<times> string) list"
  and find_templates_dict :: "pydict \<Rightarrow> string \<Rightarrow> (string \<times> string) list"
  and find_templates_list :: "py list \<Rightarrow> string \<Rightarrow> nat \<Rightarrow> (string \<times> string) list" where
  "find_templates value path =
     (case value of
        PStr s \<Rightarrow> if has_delimiter s then [(path, s)] else []
      | PDict d \<Rightarrow> find_templates_dict d path
      | PList xs \<Rightarrow> find_templates_list xs path 0
      | _ \<Rightarrow> [])"
| "find_templates_dict [] path = []"
| "find_templates_dict ((key, child) # rest) path =
     find_templates child (path @ ''.'' @ key) @ find_templates_dict rest path"
| "find_templates_list [] path i = []"
| "find_templates_list (child # rest) path i =
     find_templates child (path @ ''['' @ nat_str i @ '']'') @ find_templates_list rest path (Suc i)"
  by pat_completeness auto
termination
  by (relation "measure (\<lambda>x. case x of Inl (v, p) \<Rightarrow> size v
        | Inr (Inl (d, p)) \<Rightarrow> size_list (size_prod (\<lambda>_. 0) size) d
        | Inr (Inr (xs, p, i)) \<Rightarrow> size_list size xs)") auto

declare find_templates.simps [simp del]

section \<open>Lemmas\<close>

lemma append_output_ok:
  "append_output limit out v = Inr r \<Longrightarrow> r = out @ v \<and> length r \<le> limit"
  by (auto simp: append_output_def split: if_splits)

lemma render_expression_reference:
  assumes "render_expression lib context expr = Inr (text, ref)"
  shows "\<exists>raw. normalize_field_reference raw = Inr ref"
  using assms
  by (auto simp: render_expression_def parse_expression_def res_bind_Inr_iff Let_def
      split: if_splits prod.splits bool.splits option.splits)

lemma render_segments_references:
  assumes "render_segments lib context limit out refs segs = Inr (out', refs')"
    and "\<forall>r \<in> set refs. \<exists>raw. normalize_field_reference raw = Inr r"
  shows "\<forall>r \<in> set refs'. \<exists>raw. normalize_field_reference raw = Inr r"
  using assms
proof (induction lib "context" limit out refs segs rule: render_segments.induct)
  case (2 lib ctx limit out refs lit expr rest)
  from "2.prems"(1) obtain out1 tx ref out2 where e: "append_output limit out lit = Inr out1"
    "render_expression lib ctx expr = Inr (tx, ref)" "append_output limit out1 tx = Inr out2"
    and r: "render_segments lib ctx limit out2 (refs @ [ref]) rest = Inr (out', refs')"
    by (auto simp: res_bind_Inr_iff)
  have "\<forall>r \<in> set (refs @ [ref]). \<exists>raw. normalize_field_reference raw = Inr r"
    using "2.prems"(2) render_expression_reference [OF e(2)] by auto
  then show ?case
    by (rule "2.IH" [OF e(1) e(2) refl e(3) r])
qed simp

lemma no_delimiter_segments:
  assumes "\<not> str_in ''{{'' s"
  shows "segments_acc acc s = ([], rev acc @ s)"
  using assms
proof (induction acc s rule: segments_acc.induct)
  case (1 acc s)
  show ?case
  proof (cases s)
    case (Cons c cs)
    have p: "(if prefix ''{{'' s then close_expr (drop 2 s) else None) = None" and n: "\<not> str_in ''{{'' cs"
      using 1(3) Cons by (auto simp: sublist_Cons_right)
    have "segments_acc acc s = segments_acc (c # acc) cs"
      using p Cons by (subst segments_acc.simps) simp
    then show ?thesis
      using "1.IH"(1) [OF Cons p n] Cons by simp
  qed (subst segments_acc.simps, simp)
qed

lemma plain_template_valid:
  assumes "\<not> has_delimiter s" and "length s \<le> MAX_TEMPLATE_LENGTH"
  shows "validate_template lib (PStr s) path = []"
proof -
  have "segments s = ([], s)"
    using assms(1) no_delimiter_segments [of s "[]"] by (simp add: segments_def has_delimiter_def)
  then show ?thesis
    using assms by (simp add: validate_template_def strip_expressions_def)
qed

text \<open>Rendering splits a template into its segments without losing text.\<close>

lemma close_expr_split: "close_expr s = Some (e, r) \<Longrightarrow> s = e @ ''}}'' @ r"
  by (induction s arbitrary: e) (auto split: if_splits simp: prefix_def)

fun unsegment :: "(string \<times> string) list \<Rightarrow> string \<Rightarrow> string" where
  "unsegment [] tail = tail"
| "unsegment ((lit, e) # rest) tail = lit @ ''{{'' @ e @ ''}}'' @ unsegment rest tail"

lemma segments_acc_roundtrip:
  "(case segments_acc acc s of (segs, tail) \<Rightarrow> unsegment segs tail) = rev acc @ s"
proof (induction acc s rule: segments_acc.induct)
  case (1 acc s)
  show ?case
  proof (cases s)
    case Nil
    then show ?thesis by (simp add: segments_acc.simps)
  next
    case (Cons c cs)
    show ?thesis
    proof (cases "if prefix ''{{'' s then close_expr (drop 2 s) else None")
      case None
      with 1 Cons show ?thesis
        by (subst segments_acc.simps) simp
    next
      case (Some er)
      obtain e r where er: "er = (e, r)" by (cases er)
      have er2: "(e, r) = er" using er by simp
      have p: "prefix ''{{'' s" and "close_expr (drop 2 s) = Some (e, r)"
        using Some er by (auto split: if_splits)
      then have s: "s = ''{{'' @ e @ ''}}'' @ r"
        using close_expr_split [of "drop 2 s" e r] by (auto simp: prefix_def)
      obtain segs tail where g: "segments_acc [] r = (segs, tail)"
        by (cases "segments_acc [] r")
      have "unsegment segs tail = r"
        using "1.IH"(2) [OF Cons Some er2] g by simp
      moreover have "segments_acc acc s = ((rev acc, e) # segs, tail)"
        by (subst segments_acc.simps, simp only: Some) (simp add: Cons er g)
      ultimately show ?thesis
        using s by simp
    qed
  qed
qed

lemma segments_roundtrip: "segments s = (segs, tail) \<Longrightarrow> unsegment segs tail = s"
  using segments_acc_roundtrip [of "[]" s] by (simp add: segments_def)

text \<open>The text of rendered segments.\<close>

fun merge_segments :: "(string \<times> string) list \<Rightarrow> string list \<Rightarrow> string \<Rightarrow> string" where
  "merge_segments ((lit, _) # segs) (t # ts) tail = lit @ t @ merge_segments segs ts tail"
| "merge_segments _ _ tail = tail"

lemma length_merge_prefix: "length tail \<le> length (merge_segments segs ts tail)"
  by (induction segs ts tail rule: merge_segments.induct) auto

lemma render_segments_iff:
  "res_bind (render_segments lib context limit out refs segs)
     (\<lambda>(output, references). res_bind (append_output limit output tail) (\<lambda>x. Inr (x, references))) =
     Inr (out', refs') \<longleftrightarrow>
   (\<exists>parts. map (render_expression lib context \<circ> snd) segs = map Inr parts
      \<and> refs' = refs @ map snd parts
      \<and> out' = out @ merge_segments segs (map fst parts) tail
      \<and> length out' \<le> limit)"
proof (induction segs arbitrary: out refs)
  case Nil
  show ?case by (auto simp: append_output_def raise_def)
next
  case (Cons seg segs)
  obtain lit expr where seg: "seg = (lit, expr)" by (cases seg)
  show ?case
  proof (cases "render_expression lib context expr")
    case (Inl e)
    then show ?thesis by (auto simp: seg append_output_def res_bind_Inr_iff raise_def)
  next
    case (Inr p)
    obtain tx ref where p: "p = (tx, ref)" by (cases p)
    have ex: "(\<exists>parts. map (render_expression lib context \<circ> snd) (seg # segs) = map Inr parts \<and> P parts) \<longleftrightarrow>
      (\<exists>zs. map (render_expression lib context \<circ> snd) segs = map Inr zs \<and> P ((tx, ref) # zs))" for P
      by (auto simp: seg Inr p Cons_eq_map_conv)
    show ?thesis
    proof (cases "length out + length lit + length tx \<le> limit")
      case True
      then have "append_output limit out lit = Inr (out @ lit)"
        and "append_output limit (out @ lit) tx = Inr (out @ lit @ tx)"
        by (simp_all add: append_output_def)
      then show ?thesis
        unfolding ex by (simp add: seg Inr p Cons.IH comp_def)
    next
      case False
      then show ?thesis
        unfolding ex using False by (auto simp: seg Inr p append_output_def raise_def)
    qed
  qed
qed

subsection \<open>Errors\<close>

lemma check_parts_value_errors [value_errors]: "value_errors (check_parts ps)"
  by (induction ps rule: check_parts.induct) (auto intro!: value_errors)

lemma normalize_field_reference_value_errors [value_errors]: "value_errors (normalize_field_reference v)"
  by (auto simp: normalize_field_reference_def Let_def intro!: value_errors split: py.splits list.splits)

lemma resolve_field_value_errors [value_errors]: "value_errors (resolve_field ctx v)"
  by (auto simp: resolve_field_def Let_def intro!: value_errors)

lemma pipeline_loop_value_errors [value_errors]: "value_errors (pipeline_loop parts cur q e d s)"
proof (induction s arbitrary: parts cur q e d)
  case (Cons c s)
  show ?case
    by (simp only: pipeline_loop.simps) (intro value_errors Cons.IH; simp)
qed (simp add: value_errors)

lemma literal_arguments_value_errors [value_errors]: "value_errors (literal_arguments lib raw)"
  by (auto simp: literal_arguments_def intro!: value_errors split: option.splits)

lemma validate_filter_value_errors [value_errors]: "value_errors (validate_filter name args)"
  unfolding validate_filter_def
  by (simp only: split: option.split list.split py.split) (intro conjI allI impI value_errors; simp)

lemma parse_filters_value_errors [value_errors]: "value_errors (parse_filters lib raws)"
  by (induction raws) (auto intro!: value_errors split: option.splits)

lemma parse_expression_value_errors [value_errors]: "value_errors (parse_expression lib e)"
  by (auto simp: parse_expression_def Let_def split_pipeline_def intro!: value_errors)

lemma stringify_value_errors [value_errors]: "value_errors (stringify v)"
  by (auto simp: stringify_def intro!: value_errors split: py.splits)

lemma text_filter_value_errors [value_errors]: "value_errors (text_filter name args t)"
proof -
  have "value_errors (case (a, b, args) of
      (True, _, [PStr old, PStr new]) \<Rightarrow> Inr (replace old new t)
    | (_, True, [PInt n]) \<Rightarrow> Inr (take (nat n) t)
    | _ \<Rightarrow> raise TemplateValidationError m)" for a b m
    by (cases a; cases b) (auto intro!: value_errors split: list.split py.split)
  then show ?thesis
    unfolding text_filter_def by (intro value_errors)
qed

lemma apply_filter_value_errors [value_errors]: "value_errors (apply_filter v name args missing)"
  by (auto simp: apply_filter_def intro!: value_errors split: option.splits)

lemma apply_filters_value_errors [value_errors]: "value_errors (apply_filters v missing fs)"
  by (induction v missing fs rule: apply_filters.induct) (auto intro!: value_errors)

lemma render_expression_value_errors [value_errors]: "value_errors (render_expression lib ctx e)"
  by (auto simp: render_expression_def intro!: value_errors split: bool.splits option.splits)

lemma append_output_value_errors [value_errors]: "value_errors (append_output limit out v)"
  by (auto simp: append_output_def intro!: value_errors)

lemma render_segments_value_errors [value_errors]:
  "value_errors (render_segments lib ctx limit out refs segs)"
  by (induction segs arbitrary: out refs) (auto intro!: value_errors)

lemma render_template_value_errors [value_errors]: "value_errors (render_template lib t ctx)"
  by (auto simp: render_template_def render_template_limit_def Let_def intro!: value_errors
      split: list.splits prod.splits)

interpretation template_entry: validated_entry
  "\<lambda>(t, ctx). Inr (validate_template lib t ''template'')"
  "\<lambda>(t, ctx). render_template lib t ctx" TemplateValidationError
  for lib
  by unfold_locales (auto simp: render_template_def render_template_limit_def)

section \<open>Properties\<close>

text \<open>
  C34. Specification of rendering. \<open>render_template\<close> succeeds exactly when the template
  validates, every expression renders, and the result fits the output limit; the output is
  the template with each expression replaced by its text, and the recorded references are
  those of the expressions in order.
\<close>

theorem render_template_spec:
  "render_template lib template context = Inr (out, refs) \<longleftrightarrow>
   validate_template lib template ''template'' = [] \<and>
   (\<exists>segs tail parts. segments (py_str template) = (segs, tail)
      \<and> map (render_expression lib context \<circ> snd) segs = map Inr parts
      \<and> refs = map snd parts
      \<and> out = merge_segments segs (map fst parts) tail
      \<and> length out \<le> MAX_TEMPLATE_OUTPUT_LENGTH)"
proof (cases "validate_template lib template ''template''")
  case Nil
  obtain segs tail where g: "segments (py_str template) = (segs, tail)"
    by (cases "segments (py_str template)")
  show ?thesis
    using render_segments_iff [of lib "context" MAX_TEMPLATE_OUTPUT_LENGTH "[]" "[]" segs tail out refs]
    by (simp add: render_template_def render_template_limit_def Nil g)
qed (simp add: render_template_def render_template_limit_def)

text \<open>A text without template delimiters renders to itself and reads no field.\<close>

theorem render_plain_text:
  assumes "\<not> has_delimiter s" and "length s \<le> MAX_TEMPLATE_LENGTH"
  shows "render_template lib (PStr s) context = Inr (s, [])"
proof -
  have "segments s = ([], s)"
    using assms(1) no_delimiter_segments [of s "[]"] by (simp add: segments_def has_delimiter_def)
  then show ?thesis
    using assms plain_template_valid [OF assms]
    by (simp add: render_template_def render_template_limit_def append_output_def
        MAX_TEMPLATE_LENGTH_def MAX_TEMPLATE_OUTPUT_LENGTH_def)
qed

theorem render_plain_text_witness:
  "render_template no_lib (PStr ''disk full'') [(''event'', PNone)] = Inr (''disk full'', [])"
  by (rule render_plain_text) code_simp+

end
