(* ===== verification/Orch_Variables.thy ===== *)
theory Orch_Variables
  imports Orch_Templates Interfaces
begin

text \<open>
  Variable extraction of Event Orchestration (\<open>orchestration/variables.py\<close>): the
  non-executable JSONPath subset, validation of extractors and the extraction loop with
  its failure modes.
\<close>

section \<open>Names and sets of names\<close>

text \<open>\<open>x in frozenset({...})\<close> for a set of strings: an unhashable value raises \<open>TypeError\<close>.\<close>

fun in_frozenset :: "py \<Rightarrow> string list \<Rightarrow> bool result" where
  "in_frozenset (PStr s) names = Inr (s \<in> set names)"
| "in_frozenset (PList _) names = raise TypeError (''unhashable type: '' @ repr_str ''list'')"
| "in_frozenset (PDict _) names = raise TypeError (''unhashable type: '' @ repr_str ''dict'')"
| "in_frozenset _ names = Inr False"

definition EXTRACTION_TYPES :: "string list" where
  "EXTRACTION_TYPES =
     [''extract_regex'', ''copy_field'', ''copy_to_variable'', ''json_path'', ''split'',
      ''set_variable'', ''static'', ''lowercase'', ''uppercase'', ''trim'']"

definition FAILURE_MODES :: "string list" where
  "FAILURE_MODES = [''continue'', ''stop_rule'', ''stop_orchestration'']"

definition validate_variable_name :: "py \<Rightarrow> string option" where
  "validate_variable_name name =
     (case name of
        PStr s \<Rightarrow>
          if s = [] then Some ''variable name is required''
          else if length s > MAX_VARIABLE_NAME_LENGTH then Some ''variable name exceeds the size limit''
          else if name_start (hd s) \<and> list_all word_char s then None
          else Some ''variable name must start with a letter or underscore and contain only letters, numbers and underscores''
      | _ \<Rightarrow> Some ''variable name is required'')"

definition extractor_target :: "pydict \<Rightarrow> py" where
  "extractor_target extractor = dget_default extractor ''name'' (dget extractor ''target'')"

section \<open>JSON paths\<close>

datatype json_token = JIndex nat | JKey string

definition json_key_char :: "char \<Rightarrow> bool" where
  "json_key_char c \<longleftrightarrow> word_char c \<or> c = CHR ''-''"

text \<open>The token between brackets, stripped.\<close>

definition bracket_token :: "py_lib \<Rightarrow> string \<Rightarrow> json_token result" where
  "bracket_token lib raw =
     (if raw = ''0'' \<or> (raw \<noteq> [] \<and> hd raw \<noteq> CHR ''0'' \<and> list_all is_digit raw)
      then Inr (JIndex (digits_val raw))
      else if length raw \<ge> 2 \<and> hd raw = last raw \<and> (hd raw = CHR 0x27 \<or> hd raw = CHR 0x22)
      then (case unicode_escape lib (butlast (tl raw)) of
              None \<Rightarrow> raise ExtractionError ''invalid escaped JSON path key''
            | Some v \<Rightarrow> if v = [] then raise ExtractionError ''JSON path key cannot be empty''
                        else Inr (JKey v))
      else raise ExtractionError ''JSON path brackets only support integer indexes or quoted keys'')"

function json_tokens :: "py_lib \<Rightarrow> string \<Rightarrow> json_token list result" where
  "json_tokens lib [] = Inr []"
| "json_tokens lib (c # rest) =
     (if c = CHR ''.''
      then (if rest = [] \<or> \<not> name_start (hd rest)
            then raise ExtractionError ''invalid dotted JSON path segment''
            else res_bind (json_tokens lib (dropWhile json_key_char rest))
                   (\<lambda>ts. Inr (JKey (takeWhile json_key_char rest) # ts)))
      else if c = CHR ''[''
      then (if CHR '']'' \<notin> set rest then raise ExtractionError ''unclosed JSON path bracket''
            else res_bind (bracket_token lib (strip (takeWhile (\<lambda>x. x \<noteq> CHR '']'') rest)))
                   (\<lambda>t. res_bind (json_tokens lib (tl (dropWhile (\<lambda>x. x \<noteq> CHR '']'') rest)))
                          (\<lambda>ts. Inr (t # ts))))
      else raise ExtractionError ''invalid JSON path syntax'')"
  by pat_completeness auto
termination
  by (relation "measure (\<lambda>(lib, s). length s)")
     (auto simp: le_imp_less_Suc length_dropWhile_le intro: le_less_trans [OF diff_le_self])

declare json_tokens.simps(2) [simp del]

definition parse_json_path :: "py_lib \<Rightarrow> string \<Rightarrow> json_token list result" where
  "parse_json_path lib path =
     (case path of
        c # rest \<Rightarrow> if c = CHR ''$'' then json_tokens lib rest
                    else raise ExtractionError ''JSON path must start with $''
      | [] \<Rightarrow> raise ExtractionError ''JSON path must start with $'')"

definition validate_json_path :: "py_lib \<Rightarrow> py \<Rightarrow> string option" where
  "validate_json_path lib path =
     (case path of
        PStr p \<Rightarrow>
          if p = [] then Some ''JSON path is required''
          else if length p > MAX_JSON_PATH_LENGTH then Some ''JSON path exceeds the size limit''
          else (case parse_json_path lib p of Inl e \<Rightarrow> Some (exn_msg e) | Inr _ \<Rightarrow> None)
      | _ \<Rightarrow> Some ''JSON path is required'')"

fun json_walk :: "py \<Rightarrow> json_token list \<Rightarrow> py result" where
  "json_walk current [] = Inr current"
| "json_walk current (JIndex i # ts) =
     (case current of
        PList xs \<Rightarrow> if i \<ge> length xs then raise ExtractionError ''JSON path index does not exist''
                    else json_walk (xs ! i) ts
      | _ \<Rightarrow> raise ExtractionError ''JSON path expected a list'')"
| "json_walk current (JKey k # ts) =
     (case current of
        PDict d \<Rightarrow> (case map_of d k of
                      None \<Rightarrow> raise ExtractionError ''JSON path key does not exist''
                    | Some v \<Rightarrow> json_walk v ts)
      | _ \<Rightarrow> raise ExtractionError ''JSON path key does not exist'')"

definition json_path_get :: "py_lib \<Rightarrow> py \<Rightarrow> string \<Rightarrow> py result" where
  "json_path_get lib value path = res_bind (parse_json_path lib path) (json_walk value)"

section \<open>Validation\<close>

definition reference_issue :: "py \<Rightarrow> string \<Rightarrow> validation_issue list" where
  "reference_issue source path =
     (case normalize_field_reference source of
        Inl e \<Rightarrow> [ValidationIssue (path @ ''.source'') ''invalid_field_reference'' (exn_msg e)]
      | Inr _ \<Rightarrow> [])"

definition name_issue :: "py \<Rightarrow> string \<Rightarrow> validation_issue list" where
  "name_issue name path =
     (case validate_variable_name name of
        Some message \<Rightarrow> [ValidationIssue (path @ ''.name'') ''invalid_variable_name'' message]
      | None \<Rightarrow> [])"

definition group_issue :: "py_lib \<Rightarrow> string \<Rightarrow> py \<Rightarrow> string \<Rightarrow> validation_issue list" where
  "group_issue lib pattern grp path =
     (let issue = (\<lambda>m. [ValidationIssue (path @ ''.group'') ''invalid_regex_group'' m]) in
      case grp of
        PNone \<Rightarrow> []
      | PInt g \<Rightarrow> if g < 0 \<or> g > int (re_groups lib pattern) then issue ''regex group index does not exist'' else []
      | PStr g \<Rightarrow> if g \<notin> set (re_groupindex lib pattern) then issue ''named regex group does not exist'' else []
      | _ \<Rightarrow> issue ''regex group must be an integer index or named group'')"

definition regex_extractor_issues :: "py_lib \<Rightarrow> pydict \<Rightarrow> string \<Rightarrow> validation_issue list" where
  "regex_extractor_issues lib extractor path =
     (let compiled = validate_regex_pattern lib (dget extractor ''pattern'');
          target = extractor_target extractor in
      reference_issue (dget extractor ''source'') path @
      (case compiled of
         Inl e \<Rightarrow> [ValidationIssue (path @ ''.pattern'') (error_code [] (exn_cls e)) (exn_msg e)]
       | Inr _ \<Rightarrow> []) @
      (if target \<noteq> PNone
       then name_issue target path @
            (case compiled of Inr p \<Rightarrow> group_issue lib p (dget extractor ''group'') path | Inl _ \<Rightarrow> [])
       else (case compiled of
               Inr p \<Rightarrow> if re_groupindex lib p = []
                        then [ValidationIssue path ''missing_regex_targets''
                                ''regex extraction without a target requires named groups'']
                        else []
             | Inl _ \<Rightarrow> [])))"

fun split_target_issues :: "string \<Rightarrow> nat \<Rightarrow> py list \<Rightarrow> py list \<Rightarrow> validation_issue list" where
  "split_target_issues path i seen [] = []"
| "split_target_issues path i seen (name # names) =
     (let here = path @ ''.targets['' @ nat_str i @ '']'' in
      case validate_variable_name name of
        Some message \<Rightarrow> ValidationIssue here ''invalid_variable_name'' message
                         # split_target_issues path (Suc i) seen names
      | None \<Rightarrow>
          if name \<in> set seen
          then ValidationIssue here ''duplicate_variable_name'' ''split targets must be unique''
               # split_target_issues path (Suc i) seen names
          else split_target_issues path (Suc i) (name # seen) names)"

definition split_extractor_issues :: "pydict \<Rightarrow> string \<Rightarrow> validation_issue list" where
  "split_extractor_issues extractor path =
     (let targets = dget extractor ''targets''; target = extractor_target extractor in
      reference_issue (dget extractor ''source'') path @
      (case dget extractor ''delimiter'' of
         PStr (_ # _) \<Rightarrow> []
       | _ \<Rightarrow> [ValidationIssue (path @ ''.delimiter'') ''invalid_delimiter'' ''split delimiter must be a non-empty string'']) @
      (if targets \<noteq> PNone
       then (case targets of
               PList (t # ts) \<Rightarrow>
                 (if length (t # ts) > MAX_VARIABLES
                  then [ValidationIssue (path @ ''.targets'') ''variable_limit'' ''split has too many targets'']
                  else []) @ split_target_issues path 0 [] (t # ts)
             | _ \<Rightarrow> [ValidationIssue (path @ ''.targets'') ''invalid_targets'' ''split targets must be a non-empty list''])
       else if target \<noteq> PNone
       then name_issue target path @
            (case dget extractor ''index'' of
               PInt i \<Rightarrow> if i < 0
                         then [ValidationIssue (path @ ''.index'') ''invalid_split_index'' ''split index must be a non-negative integer'']
                         else []
             | _ \<Rightarrow> [ValidationIssue (path @ ''.index'') ''invalid_split_index'' ''split index must be a non-negative integer''])
       else [ValidationIssue path ''missing_split_target'' ''split requires name and index, or targets'']))"

definition has_template :: "py \<Rightarrow> bool" where
  "has_template value = (case value of PStr s \<Rightarrow> has_delimiter s | _ \<Rightarrow> False)"

text \<open>The issues of an extractor of a supported type.\<close>

definition typed_extractor_issues :: "py_lib \<Rightarrow> string \<Rightarrow> pydict \<Rightarrow> string \<Rightarrow> validation_issue list" where
  "typed_extractor_issues lib ty extractor path =
     (if ty = ''extract_regex'' then regex_extractor_issues lib extractor path
      else if ty = ''json_path''
      then reference_issue (dget_default extractor ''source'' (PStr ''raw'')) path @
           (case validate_json_path lib (dget extractor ''path'') of
              Some message \<Rightarrow> [ValidationIssue (path @ ''.path'') ''invalid_json_path'' message]
            | None \<Rightarrow> []) @
           name_issue (extractor_target extractor) path
      else if ty = ''split'' then split_extractor_issues extractor path
      else if ty = ''set_variable'' \<or> ty = ''static''
      then name_issue (extractor_target extractor) path @
           (if has_template (dget extractor ''value'')
            then validate_template lib (dget extractor ''value'') (path @ ''.value'') else [])
      else reference_issue (dget extractor ''source'') path @ name_issue (extractor_target extractor) path)"

definition validate_extractor :: "py_lib \<Rightarrow> py \<Rightarrow> string \<Rightarrow> validation_issue list result" where
  "validate_extractor lib extractor path =
     (case extractor of
        PDict d \<Rightarrow>
          res_bind (in_frozenset (dget d ''type'') EXTRACTION_TYPES)
            (\<lambda>known. if \<not> known
               then Inr [ValidationIssue (path @ ''.type'') ''unsupported_extractor''
                           (''unsupported variable extractor '' @ py_repr (dget d ''type''))]
               else res_bind (in_frozenset (dget_default d ''on_failure'' (PStr ''continue'')) FAILURE_MODES)
                 (\<lambda>mode. Inr ((if mode then []
                               else [ValidationIssue (path @ ''.on_failure'') ''invalid_failure_mode''
                                       ''on_failure must be continue, stop_rule or stop_orchestration'']) @
                              typed_extractor_issues lib (py_str (dget d ''type'')) d path)))
      | _ \<Rightarrow> Inr [ValidationIssue path ''invalid_extractor'' ''extractor must be an object''])"

fun extractor_list_issues :: "py_lib \<Rightarrow> string \<Rightarrow> nat \<Rightarrow> py list \<Rightarrow> validation_issue list result" where
  "extractor_list_issues lib path i [] = Inr []"
| "extractor_list_issues lib path i (x # xs) =
     res_bind (validate_extractor lib x (path @ ''['' @ nat_str i @ '']''))
       (\<lambda>here. res_bind (extractor_list_issues lib path (Suc i) xs) (\<lambda>more. Inr (here @ more)))"

definition validate_extractors :: "py_lib \<Rightarrow> py \<Rightarrow> string \<Rightarrow> validation_issue list result" where
  "validate_extractors lib extractors path =
     (case extractors of
        PList xs \<Rightarrow>
          if length xs > MAX_VARIABLES
          then Inr [ValidationIssue path ''extractor_limit'' ''too many variable extractors'']
          else extractor_list_issues lib path 0 xs
      | _ \<Rightarrow> Inr [ValidationIssue path ''invalid_extractors'' ''extractors must be a list''])"

section \<open>Variables\<close>

text \<open>\<open>json.dumps(..., allow_nan=False)\<close> rejects non-finite floats.\<close>

fun json_ok :: "py \<Rightarrow> bool" where
  "json_ok (PFloat t) = float_finite t"
| "json_ok (PList xs) = list_all json_ok xs"
| "json_ok (PDict d) = list_all (\<lambda>(k, v). json_ok v) d"
| "json_ok _ = True"

definition bounded_value :: "py \<Rightarrow> py result" where
  "bounded_value value =
     (if \<not> json_ok value then raise ExtractionError ''extracted variable must be JSON-compatible''
      else if length (json_dumps value) > MAX_VARIABLE_VALUE_LENGTH
      then raise ExtractionError ''extracted variable exceeds the value size limit''
      else Inr value)"

definition set_variable :: "pydict \<Rightarrow> string \<Rightarrow> py \<Rightarrow> pydict result" where
  "set_variable variables name value =
     (if \<not> dmem variables name \<and> length variables \<ge> MAX_VARIABLES
      then raise ExtractionError ''variable count exceeds the limit''
      else res_bind (bounded_value value) (\<lambda>v. Inr (dset variables name v)))"

text \<open>
  The loop over \<open>produced.items()\<close>: the assignments made before an error remain.
\<close>

fun set_variables :: "pydict \<Rightarrow> pydict \<Rightarrow> pydict \<times> exn option" where
  "set_variables variables [] = (variables, None)"
| "set_variables variables ((name, value) # rest) =
     (case set_variable variables name value of
        Inl e \<Rightarrow> (variables, Some e)
      | Inr vs \<Rightarrow> set_variables vs rest)"

definition context_with_variables :: "pydict \<Rightarrow> pydict \<Rightarrow> pydict" where
  "context_with_variables context variables = dset context ''variables'' (PDict variables)"

text \<open>The initial variables, each checked and copied.\<close>

fun load_initial :: "pydict \<Rightarrow> pydict \<Rightarrow> pydict result" where
  "load_initial variables [] = Inr variables"
| "load_initial variables ((name, value) # rest) =
     (case validate_variable_name (PStr name) of
        Some message \<Rightarrow> raise_at ExtractionError message (''variables.'' @ name)
      | None \<Rightarrow> res_bind (set_variable variables name value) (\<lambda>vs. load_initial vs rest))"

section \<open>Extraction\<close>

text \<open>The value of a source field, or the given error.\<close>

definition source_value :: "pydict \<Rightarrow> py \<Rightarrow> string \<Rightarrow> py result" where
  "source_value context source message =
     res_bind (resolve_field context source)
       (\<lambda>resolution. case fr_value resolution of
                       Some v \<Rightarrow> Inr v
                     | None \<Rightarrow> raise ExtractionError message)"

definition string_source :: "pydict \<Rightarrow> py \<Rightarrow> string \<Rightarrow> string result" where
  "string_source context source kind =
     res_bind (source_value context source (kind @ '' source field does not exist''))
       (\<lambda>v. case v of PStr s \<Rightarrow> Inr s | _ \<Rightarrow> raise ExtractionError (kind @ '' source must be a string''))"

text \<open>
  \<open>{target: value}\<close>; a validated extractor has a string target.
\<close>

definition target_value :: "pydict \<Rightarrow> py \<Rightarrow> pydict" where
  "target_value extractor value = [(py_str (extractor_target extractor), value)]"

definition produce_regex :: "py_lib \<Rightarrow> pydict \<Rightarrow> pydict \<Rightarrow> pydict result" where
  "produce_regex lib extractor context =
     res_bind (source_value context (dget extractor ''source'') ''regex source field does not exist'')
       (\<lambda>v. res_bind (compile_safe_regex lib (dget extractor ''pattern''))
         (\<lambda>p. res_bind (bounded_regex_input v)
           (\<lambda>input. case re_search lib p input of
              None \<Rightarrow> raise ExtractionError ''regex did not match''
            | Some m \<Rightarrow>
                if extractor_target extractor \<noteq> PNone
                then (case rm_group m (dget_default extractor ''group'' (PInt (if rm_lastindex m then 1 else 0))) of
                        None \<Rightarrow> raise ExtractionError ''requested regex group does not exist''
                      | Some g \<Rightarrow> Inr (target_value extractor g))
                else if rm_groupdict m = []
                then raise ExtractionError ''regex extraction requires a target or named groups''
                else Inr (rm_groupdict m))))"

definition produce_split :: "pydict \<Rightarrow> pydict \<Rightarrow> pydict result" where
  "produce_split extractor context =
     res_bind (string_source context (dget extractor ''source'') ''split'')
       (\<lambda>s. let parts = split_str (py_str (dget extractor ''delimiter'')) (Some MAX_SPLIT_PARTS) s in
          if length parts > MAX_SPLIT_PARTS then raise ExtractionError ''split produced too many parts''
          else case dget extractor ''targets'' of
            PList targets \<Rightarrow>
              if length parts < length targets
              then raise ExtractionError ''split produced fewer parts than targets''
              else Inr (dupdate [] (zip (map py_str targets) (map PStr parts)))
          | _ \<Rightarrow>
              (case dget extractor ''index'' of
                 PInt i \<Rightarrow> if i \<ge> int (length parts) then raise ExtractionError ''split index does not exist''
                           else Inr (target_value extractor (PStr (parts ! nat i)))
               | _ \<Rightarrow> raise KeyError (repr_str ''index'')))"

definition transform :: "string \<Rightarrow> string \<Rightarrow> string" where
  "transform ty s = (if ty = ''lowercase'' then lower s else if ty = ''uppercase'' then upper s else strip s)"

definition produce :: "py_lib \<Rightarrow> string \<Rightarrow> pydict \<Rightarrow> pydict \<Rightarrow> pydict result" where
  "produce lib ty extractor context =
     (if ty = ''extract_regex'' then produce_regex lib extractor context
      else if ty = ''copy_field'' \<or> ty = ''copy_to_variable''
      then res_bind (source_value context (dget extractor ''source'') ''copy source field does not exist'')
             (\<lambda>v. Inr (target_value extractor v))
      else if ty = ''json_path''
      then res_bind (source_value context (dget_default extractor ''source'' (PStr ''raw''))
                       ''JSON path source field does not exist'')
             (\<lambda>v. res_bind (json_path_get lib v (py_str (dget extractor ''path'')))
                    (\<lambda>r. Inr (target_value extractor r)))
      else if ty = ''split'' then produce_split extractor context
      else if ty = ''set_variable'' \<or> ty = ''static''
      then (let value = dget extractor ''value'' in
            if has_template value
            then res_bind (render_template lib value context)
                   (\<lambda>(text, _). Inr (target_value extractor (PStr text)))
            else Inr (target_value extractor value))
      else res_bind (string_source context (dget extractor ''source'') ''transform'')
             (\<lambda>s. Inr (target_value extractor (PStr (transform ty s)))))"

record extraction_step =
  es_index :: nat
  es_type :: string
  es_success :: bool
  es_code :: string
  es_reason :: string
  es_variables :: pydict
  es_failure_mode :: string

record extraction_result =
  er_variables :: pydict
  er_steps :: "extraction_step list"
  er_outcome :: string

text \<open>
  One extractor: the variables afterwards and the error that ended the \<open>try\<close> block.
\<close>

definition run_extractor :: "py_lib \<Rightarrow> pydict \<Rightarrow> pydict \<Rightarrow> string \<Rightarrow> pydict \<Rightarrow> pydict \<times> pydict \<times> exn option" where
  "run_extractor lib context extractor ty variables =
     (case produce lib ty extractor (context_with_variables context variables) of
        Inl e \<Rightarrow> (variables, [], Some e)
      | Inr produced \<Rightarrow> (case set_variables variables produced of (vs, e) \<Rightarrow> (vs, produced, e)))"

fun extraction_loop ::
  "py_lib \<Rightarrow> pydict \<Rightarrow> nat \<Rightarrow> pydict list \<Rightarrow> pydict \<Rightarrow> extraction_step list \<Rightarrow> extraction_result result" where
  "extraction_loop lib context i [] variables steps =
     Inr \<lparr>er_variables = variables, er_steps = steps, er_outcome = ''continue''\<rparr>"
| "extraction_loop lib context i (extractor # rest) variables steps =
     (let ty = py_str (dget extractor ''type'');
          mode = py_str (dget_default extractor ''on_failure'' (PStr ''continue''))
      in case run_extractor lib context extractor ty variables of
           (vs, produced, None) \<Rightarrow>
             extraction_loop lib context (Suc i) rest vs
               (steps @ [\<lparr>es_index = i, es_type = ty, es_success = True, es_code = ''extraction_succeeded'',
                          es_reason = ''variables extracted'', es_variables = produced, es_failure_mode = mode\<rparr>])
         | (vs, produced, Some e) \<Rightarrow>
             if is_value_error (exn_cls e)
             then let steps' = steps @ [\<lparr>es_index = i, es_type = ty, es_success = False,
                          es_code = error_code ''variable_extraction_failed'' (exn_cls e),
                          es_reason = exn_msg e, es_variables = [], es_failure_mode = mode\<rparr>]
                  in if mode = ''stop_rule'' \<or> mode = ''stop_orchestration''
                     then Inr \<lparr>er_variables = vs, er_steps = steps', er_outcome = mode\<rparr>
                     else extraction_loop lib context (Suc i) rest vs steps'
             else Inl e)"

definition extract_variables ::
  "py_lib \<Rightarrow> py list \<Rightarrow> pydict \<Rightarrow> py \<Rightarrow> extraction_result result" where
  "extract_variables lib extractors context initial_variables =
     res_bind (validate_extractors lib (PList extractors) ''extractors'')
       (\<lambda>issues. case issues of
          first # _ \<Rightarrow> raise_at ExtractionError (vi_message first) (vi_path first)
        | [] \<Rightarrow>
            let initial = items (py_or initial_variables (py_or (dget context ''variables'') (PDict []))) in
            if length initial > MAX_VARIABLES
            then raise ExtractionError ''initial variable count exceeds the limit''
            else res_bind (load_initial [] initial)
                   (\<lambda>variables. extraction_loop lib context 0 (map items extractors) variables []))"

section \<open>Invariant of the variable store\<close>

definition vars_ok :: "pydict \<Rightarrow> bool" where
  "vars_ok vs \<longleftrightarrow> wf_dict vs \<and> length vs \<le> MAX_VARIABLES \<and>
     list_all (\<lambda>(k, v). json_ok v \<and> length (json_dumps v) \<le> MAX_VARIABLE_VALUE_LENGTH) vs"

lemma bounded_value_ok:
  "bounded_value v = Inr w \<longleftrightarrow> w = v \<and> json_ok v \<and> length (json_dumps v) \<le> MAX_VARIABLE_VALUE_LENGTH"
  by (auto simp: bounded_value_def)

lemma list_all_dset:
  "list_all P d \<Longrightarrow> P (k, v) \<Longrightarrow> list_all P (dset d k v)"
  by (induction d) auto

lemma set_variable_eq:
  "set_variable vs k v = Inr vs' \<longleftrightarrow>
     (dmem vs k \<or> length vs < MAX_VARIABLES) \<and> json_ok v \<and>
     length (json_dumps v) \<le> MAX_VARIABLE_VALUE_LENGTH \<and> vs' = dset vs k v"
  by (auto simp: set_variable_def res_bind_Inr_iff bounded_value_ok)

lemma set_variable_vars_ok: "vars_ok vs \<Longrightarrow> set_variable vs k v = Inr vs' \<Longrightarrow> vars_ok vs'"
  by (auto simp: set_variable_eq vars_ok_def length_dset intro: list_all_dset)

interpretation variable_store: checked_store set_variable "\<lambda>vs k. map_of vs k" vars_ok set_variables
proof unfold_locales
  fix s s' :: pydict and k k' :: string and v :: py and r :: pydict
  show "map_of s' k' = (if k' = k then Some v else map_of s k')" if "set_variable s k v = Inr s'"
    using that by (auto simp: set_variable_eq update_conv')
  show "vars_ok s'" if "vars_ok s" "set_variable s k v = Inr s'"
    using that by (rule set_variable_vars_ok)
  show "set_variables s [] = (s, None)"
    by simp
  show "set_variables s ((k, v) # r) =
      (case set_variable s k v of Inl e \<Rightarrow> (s, Some e) | Inr s' \<Rightarrow> set_variables s' r)"
    by simp
qed

lemma vars_ok_Nil [simp]: "vars_ok []"
  by (simp add: vars_ok_def wf_dict_def)

lemma load_initial_ok: "vars_ok vs \<Longrightarrow> load_initial vs kvs = Inr vs' \<Longrightarrow> vars_ok vs'"
  by (induction vs kvs rule: load_initial.induct)
    (auto simp: res_bind_Inr_iff dest: set_variable_vars_ok split: option.splits)

lemma run_extractor_ok: "vars_ok vs \<Longrightarrow> vars_ok (fst (run_extractor lib ctx x ty vs))"
  using variable_store.put_all_ok
  by (auto simp: run_extractor_def split: sum.splits prod.splits) (metis fst_conv)

lemma extraction_loop_ok:
  "vars_ok vs \<Longrightarrow> extraction_loop lib ctx i xs vs steps = Inr r \<Longrightarrow> vars_ok (er_variables r)"
proof (induction xs arbitrary: i vs steps)
  case (Cons x xs)
  obtain vs' p e where run: "run_extractor lib ctx x (py_str (dget x ''type'')) vs = (vs', p, e)"
    by (cases "run_extractor lib ctx x (py_str (dget x ''type'')) vs")
  have ok: "vars_ok vs'"
    using run_extractor_ok [OF Cons.prems(1), of lib ctx x "py_str (dget x ''type'')"] run by simp
  show ?case
  proof (cases e)
    case None
    then show ?thesis
      using Cons.prems(2) run by (auto simp: Let_def intro: Cons.IH [OF ok])
  next
    case (Some err)
    then show ?thesis
      using Cons.prems(2) run ok by (auto simp: Let_def split: if_splits intro: Cons.IH [OF ok])
  qed
qed auto

interpretation extract_entry: validated_entry
  "\<lambda>(xs, ctx, init). validate_extractors lib (PList xs) ''extractors''"
  "\<lambda>(xs, ctx, init). extract_variables lib xs ctx init" ExtractionError
  for lib
  by unfold_locales (auto simp: extract_variables_def)

lemma extract_variables_loop:
  assumes "extract_variables lib xs ctx init = Inr r"
  obtains vs where "vars_ok vs" and "extraction_loop lib ctx 0 (map items xs) vs [] = Inr r"
proof -
  have "validate_extractors lib (PList xs) ''extractors'' = Inr []"
    using extract_entry.run_ok_validated [of lib "(xs, ctx, init)" r] assms by simp
  then show thesis
    using assms that
    by (auto simp: extract_variables_def res_bind_Inr_iff Let_def split: if_splits
        dest: load_initial_ok [OF vars_ok_Nil])
qed

section \<open>Outcomes\<close>

definition stop_modes :: "string list" where
  "stop_modes = [''stop_rule'', ''stop_orchestration'']"

definition stops :: "extraction_step \<Rightarrow> bool" where
  "stops s \<longleftrightarrow> \<not> es_success s \<and> es_failure_mode s \<in> set stop_modes"

lemma extraction_loop_outcome:
  "extraction_loop lib ctx i xs vs steps = Inr r \<Longrightarrow>
     \<exists>more. er_steps r = steps @ more \<and> map es_index more = [i..<i + length more] \<and>
       length more \<le> length xs \<and>
       (if er_outcome r = ''continue'' then length more = length xs \<and> list_all (\<lambda>s. \<not> stops s) more
        else more \<noteq> [] \<and> stops (last more) \<and> er_outcome r = es_failure_mode (last more)
             \<and> list_all (\<lambda>s. \<not> stops s) (butlast more))"
proof (induction xs arbitrary: i vs steps)
  case (Cons x xs)
  obtain vs' p e where run: "run_extractor lib ctx x (py_str (dget x ''type'')) vs = (vs', p, e)"
    by (cases "run_extractor lib ctx x (py_str (dget x ''type'')) vs")
  define s where "s = (case e of
      None \<Rightarrow> \<lparr>es_index = i, es_type = py_str (dget x ''type''), es_success = True,
        es_code = ''extraction_succeeded'', es_reason = ''variables extracted'', es_variables = p,
        es_failure_mode = py_str (dget_default x ''on_failure'' (PStr ''continue''))\<rparr>
    | Some err \<Rightarrow> \<lparr>es_index = i, es_type = py_str (dget x ''type''), es_success = False,
        es_code = error_code ''variable_extraction_failed'' (exn_cls err), es_reason = exn_msg err,
        es_variables = [],
        es_failure_mode = py_str (dget_default x ''on_failure'' (PStr ''continue''))\<rparr>)"
  have idx: "es_index s = i" by (simp add: s_def split: option.splits)
  show ?case
  proof (cases "stops s")
    case True
    then obtain err where e: "e = Some err"
      by (auto simp: s_def stops_def split: option.splits)
    have "er_steps r = steps @ [s]" and "er_outcome r = es_failure_mode s"
      and "er_outcome r \<noteq> ''continue''"
      using Cons.prems run True e
      by (auto simp: s_def stops_def stop_modes_def Let_def split: if_splits)
    then show ?thesis
      using True idx by (intro exI [of _ "[s]"]) simp
  next
    case False
    then have "extraction_loop lib ctx (Suc i) xs vs' (steps @ [s]) = Inr r"
      using Cons.prems run
      by (auto simp: s_def stops_def stop_modes_def Let_def split: option.splits if_splits)
    from Cons.IH [OF this] obtain more where m: "er_steps r = (steps @ [s]) @ more"
      "map es_index more = [Suc i..<Suc i + length more]" "length more \<le> length xs"
      "if er_outcome r = ''continue'' then length more = length xs \<and> list_all (\<lambda>s. \<not> stops s) more
        else more \<noteq> [] \<and> stops (last more) \<and> er_outcome r = es_failure_mode (last more)
             \<and> list_all (\<lambda>s. \<not> stops s) (butlast more)"
      by blast
    have "map es_index (s # more) = [i..<i + length (s # more)]"
      using m(2) idx by (simp add: upt_conv_Cons del: upt_Suc)
    then show ?thesis
      using m False by (intro exI [of _ "s # more"]) (auto split: if_splits)
  qed
qed auto

section \<open>Errors\<close>

lemma source_value_value_errors [value_errors]: "value_errors (source_value ctx v m)"
  by (auto simp: source_value_def intro!: value_errors split: option.splits)

lemma string_source_value_errors [value_errors]: "value_errors (string_source ctx v m)"
  by (auto simp: string_source_def intro!: value_errors split: py.splits)

lemma regex_value_errors [value_errors]:
  "value_errors (compile_safe_regex lib v)" "value_errors (bounded_regex_input v)"
proof -
  show "value_errors (compile_safe_regex lib v)"
    unfolding compile_safe_regex_def validate_regex_pattern_def Let_def
    by (simp only: split: option.split py.split prod.split)
       (intro conjI allI impI value_errors is_value_error.simps TrueI; simp)
  show "value_errors (bounded_regex_input v)"
    by (auto simp: bounded_regex_input_def intro!: value_errors split: py.splits)
qed

lemma produce_regex_value_errors [value_errors]: "value_errors (produce_regex lib x ctx)"
  unfolding produce_regex_def
  by (intro value_errors) (auto intro!: value_errors split: option.split)

lemma bracket_token_value_errors [value_errors]: "value_errors (bracket_token lib raw)"
  unfolding bracket_token_def
  by (auto intro!: value_errors split: option.split)

lemma json_tokens_value_errors [value_errors]: "value_errors (json_tokens lib s)"
proof (induction lib s rule: json_tokens.induct)
  case (2 lib c rest)
  show ?case
    unfolding json_tokens.simps(2) [of lib c rest]
    by (intro value_errors 2; simp)
qed (simp add: value_errors)

lemma json_walk_value_errors [value_errors]: "value_errors (json_walk v ts)"
  by (induction v ts rule: json_walk.induct) (auto intro!: value_errors split: py.split option.split)

lemma json_path_get_value_errors [value_errors]: "value_errors (json_path_get lib v p)"
  by (auto simp: json_path_get_def parse_json_path_def intro!: value_errors split: list.split)

lemma produce_split_value_errors:
  assumes "split_extractor_issues x path = []"
  shows "value_errors (produce_split x ctx)"
proof -
  have "\<exists>i. dget x ''index'' = PInt i" if "\<And>ts. dget x ''targets'' \<noteq> PList ts"
  proof (cases "dget x ''targets'' = PNone")
    case True
    with assms have "(case dget x ''index'' of PInt i \<Rightarrow> True | _ \<Rightarrow> False)"
      by (simp only: split_extractor_issues_def Let_def append_is_Nil_conv split: if_split_asm;
          cases "dget x ''index''"; simp)
    then show ?thesis by (cases "dget x ''index''") simp_all
  next
    case False
    with assms that show ?thesis
      by (simp only: split_extractor_issues_def Let_def append_is_Nil_conv if_True not_False_eq_True)
         (cases "dget x ''targets''"; simp; blast)
  qed
  then show ?thesis
    unfolding produce_split_def Let_def
    by (intro value_errors) (auto intro!: value_errors split: py.split)
qed

lemma produce_value_errors:
  assumes "typed_extractor_issues lib ty x path = []"
  shows "value_errors (produce lib ty x ctx)"
proof (cases "ty = ''split''")
  case True
  then show ?thesis
    using assms produce_split_value_errors [of x path ctx] by (simp add: typed_extractor_issues_def produce_def)
next
  case False
  then show ?thesis
    unfolding produce_def Let_def
    by (simp only: if_False) (intro value_errors; (simp add: case_prod_unfold value_errors)?)
qed

lemma set_variables_value_errors: "set_variables vs kvs = (vs', Some e) \<Longrightarrow> is_value_error (exn_cls e)"
  by (induction vs kvs rule: set_variables.induct)
    (auto simp: set_variable_def bounded_value_def res_bind_Inl_iff raise_def split: sum.splits if_splits)

lemma run_extractor_value_errors:
  assumes "typed_extractor_issues lib ty x path = []" and "run_extractor lib ctx x ty vs = (vs', p, Some e)"
  shows "is_value_error (exn_cls e)"
  using assms(2) produce_value_errors [OF assms(1), of "context_with_variables ctx vs"]
  by (auto simp: run_extractor_def value_errors_def dest: set_variables_value_errors split: sum.splits prod.splits)

definition extractor_ok :: "py_lib \<Rightarrow> pydict \<Rightarrow> bool" where
  "extractor_ok lib x \<longleftrightarrow> (\<exists>path. typed_extractor_issues lib (py_str (dget x ''type'')) x path = [])"

lemma extraction_loop_total:
  "list_all (extractor_ok lib) xs \<Longrightarrow> \<exists>r. extraction_loop lib ctx i xs vs steps = Inr r"
proof (induction xs arbitrary: i vs steps)
  case (Cons x xs)
  obtain vs' p e where run: "run_extractor lib ctx x (py_str (dget x ''type'')) vs = (vs', p, e)"
    by (cases "run_extractor lib ctx x (py_str (dget x ''type'')) vs")
  have "is_value_error (exn_cls err)" if "e = Some err" for err
    using Cons.prems run that run_extractor_value_errors by (fastforce simp: extractor_ok_def)
  then show ?case
    using Cons run by (cases e) (auto simp: Let_def)
qed simp

lemma extractor_list_issues_ok:
  "extractor_list_issues lib path i xs = Inr [] \<Longrightarrow> list_all (extractor_ok lib) (map items xs)"
proof (induction xs arbitrary: i)
  case (Cons x xs)
  then have "validate_extractor lib x (path @ ''['' @ nat_str i @ '']'') = Inr []"
    and "extractor_list_issues lib path (Suc i) xs = Inr []"
    by (auto simp: res_bind_Inr_iff)
  then show ?case
    using Cons.IH
    by (cases x) (auto simp: validate_extractor_def res_bind_Inr_iff extractor_ok_def split: if_splits)
qed simp

section \<open>JSON paths as text\<close>

text \<open>The canonical text of a path made of indexes and plain keys.\<close>

fun token_text :: "json_token \<Rightarrow> string" where
  "token_text (JIndex i) = ''['' @ nat_str i @ '']''"
| "token_text (JKey k) = ''.'' @ k"

definition plain_token :: "json_token \<Rightarrow> bool" where
  "plain_token t = (case t of JIndex _ \<Rightarrow> True
                    | JKey k \<Rightarrow> k \<noteq> [] \<and> name_start (hd k) \<and> list_all json_key_char k)"

definition path_text :: "json_token list \<Rightarrow> string" where
  "path_text ts = ''$'' @ concat (map token_text ts)"

lemma token_text_boundary:
  "concat (map token_text ts) = [] \<or> \<not> json_key_char (hd (concat (map token_text ts)))"
proof (cases ts)
  case (Cons t ts')
  then show ?thesis
    by (cases t) (simp_all add: json_key_char_def word_char_def is_alpha_def is_digit_def code_of_def)
qed simp

lemma nat_str_leading: "n > 0 \<Longrightarrow> digit_val (hd (nat_str n)) \<noteq> 0"
proof (induction n rule: nat_str.induct)
  case (1 n)
  show ?case
  proof (cases "n < 10")
    case True
    then show ?thesis using 1(2) by (simp add: nat_str.simps [of n])
  next
    case False
    then show ?thesis using 1(1) by (simp add: nat_str.simps [of n] hd_append)
  qed
qed

lemma bracket_token_nat_str: "bracket_token lib (strip (nat_str n)) = Inr (JIndex n)"
proof -
  have dig: "list_all is_digit (nat_str n)"
    by (auto simp: list_all_iff dest: nat_str_digits)
  then have "strip (nat_str n) = nat_str n"
    by (intro strip_no_ws) (auto simp: list_all_iff is_digit_def is_ws_def)
  moreover have "nat_str n = ''0'' \<or> hd (nat_str n) \<noteq> CHR ''0''"
  proof (cases "n = 0")
    case True
    then show ?thesis by (simp add: nat_str.simps [of 0] digit_char_def)
  next
    case False
    then show ?thesis
      using nat_str_leading [of n] by (auto simp: digit_val_def code_of_def)
  qed
  ultimately show ?thesis
    using dig by (auto simp: bracket_token_def)
qed

lemma takeWhile_boundary:
  "list_all P k \<Longrightarrow> s = [] \<or> \<not> P (hd s) \<Longrightarrow> takeWhile P (k @ s) = k \<and> dropWhile P (k @ s) = s"
  by (induction k) (cases s; auto)+

lemma json_tokens_text:
  "list_all plain_token ts \<Longrightarrow> json_tokens lib (concat (map token_text ts)) = Inr ts"
proof (induction ts)
  case (Cons t ts)
  let ?s = "concat (map token_text ts)"
  show ?case
  proof (cases t)
    case (JIndex i)
    have nb: "CHR '']'' \<notin> set (nat_str i)"
      using nat_str_digits by (fastforce simp: is_digit_def code_of_def)
    then have la: "list_all (\<lambda>x. x \<noteq> CHR '']'') (nat_str i)"
      unfolding list_all_iff by blast
    have "takeWhile (\<lambda>x. x \<noteq> CHR '']'') (nat_str i @ '']'' @ ?s) = nat_str i"
      "dropWhile (\<lambda>x. x \<noteq> CHR '']'') (nat_str i @ '']'' @ ?s) = '']'' @ ?s"
      using takeWhile_boundary [OF la, of "'']'' @ ?s"] by simp_all
    then show ?thesis
      using JIndex Cons by (simp add: json_tokens.simps(2) bracket_token_nat_str)
  next
    case (JKey k)
    then have "list_all json_key_char k" "k \<noteq> []" "name_start (hd k)"
      using Cons.prems by (auto simp: plain_token_def)
    with takeWhile_boundary [OF this(1) token_text_boundary [of ts]] JKey Cons show ?thesis
      by (simp add: json_tokens.simps(2))
  qed
qed simp

section \<open>Properties\<close>

text \<open>
  Whatever a list of extractors does, the variables it leaves respect the store's
  bounds: at most 128 distinct names, each value JSON-encodable in at most 16384
  characters.
\<close>

theorem extracted_variables_bounded:
  assumes "extract_variables lib extractors context initial = Inr r"
  shows "vars_ok (er_variables r)"
  using assms by (rule extract_variables_loop) (rule extraction_loop_ok)

definition demo_extractors :: "py list" where
  "demo_extractors =
     [PDict [(''type'', PStr ''json_path''), (''source'', PStr ''raw''), (''path'', PStr ''$.host[0]''), (''name'', PStr ''host'')],
      PDict [(''type'', PStr ''copy_field''), (''source'', PStr ''event.missing''), (''name'', PStr ''x''),
             (''on_failure'', PStr ''stop_rule'')],
      PDict [(''type'', PStr ''static''), (''name'', PStr ''late''), (''value'', PInt 1)]]"

definition demo_event :: pydict where
  "demo_event = [(''event'', PDict []), (''raw'', PDict [(''host'', PList [PStr ''db1''])])]"

definition demo_extraction :: extraction_result where
  "demo_extraction =
     \<lparr>er_variables = [(''host'', PStr ''db1'')],
      er_steps =
        [\<lparr>es_index = 0, es_type = ''json_path'', es_success = True, es_code = ''extraction_succeeded'',
          es_reason = ''variables extracted'', es_variables = [(''host'', PStr ''db1'')],
          es_failure_mode = ''continue''\<rparr>,
         \<lparr>es_index = 1, es_type = ''copy_field'', es_success = False, es_code = ''variable_extraction_failed'',
          es_reason = ''copy source field does not exist'', es_variables = [],
          es_failure_mode = ''stop_rule''\<rparr>],
      er_outcome = ''stop_rule''\<rparr>"

lemma demo_extraction_run: "extract_variables no_lib demo_extractors demo_event PNone = Inr demo_extraction"
  by code_simp

theorem extracted_variables_bounded_witness:
  "er_variables demo_extraction = [(''host'', PStr ''db1'')] \<and> vars_ok (er_variables demo_extraction)"
proof
  show "er_variables demo_extraction = [(''host'', PStr ''db1'')]"
    by (simp add: demo_extraction_def)
qed (rule extracted_variables_bounded [OF demo_extraction_run])

text \<open>
  Failure modes. The steps are numbered consecutively; with outcome \<open>continue\<close> every
  extractor ran and none failed with a stopping mode; with another outcome the last step is
  the first one that failed with a stopping mode, the outcome is that mode, and no later
  extractor ran.
\<close>

theorem extraction_stops_at_first_failure:
  assumes "extract_variables lib extractors context initial = Inr r"
  shows "map es_index (er_steps r) = [0..<length (er_steps r)] \<and>
    (if er_outcome r = ''continue''
     then length (er_steps r) = length extractors \<and> list_all (\<lambda>s. \<not> stops s) (er_steps r)
     else er_steps r \<noteq> [] \<and> stops (last (er_steps r)) \<and> list_all (\<lambda>s. \<not> stops s) (butlast (er_steps r))
          \<and> er_outcome r = es_failure_mode (last (er_steps r)))"
proof -
  obtain vs where "extraction_loop lib context 0 (map items extractors) vs [] = Inr r"
    using assms by (rule extract_variables_loop)
  from extraction_loop_outcome [OF this] show ?thesis
    by (auto split: if_splits)
qed

theorem extraction_stops_at_first_failure_witness:
  "er_outcome demo_extraction = ''stop_rule'' \<and> length (er_steps demo_extraction) = 2 \<and>
   er_outcome demo_extraction = es_failure_mode (last (er_steps demo_extraction))"
proof -
  have "er_outcome demo_extraction = ''stop_rule''" "length (er_steps demo_extraction) = 2"
    by (simp_all add: demo_extraction_def)
  then show ?thesis
    using extraction_stops_at_first_failure [OF demo_extraction_run] by simp
qed

text \<open>
  Extraction is total on validated input: when the extractors validate and the initial
  variables are loaded, no exception escapes, every failure is recorded as a step.
\<close>

theorem validated_extraction_total:
  assumes "validate_extractors lib (PList extractors) ''extractors'' = Inr []"
    and "length initial \<le> MAX_VARIABLES" and "load_initial [] initial = Inr variables"
    and "initial \<noteq> []"
  shows "\<exists>r. extract_variables lib extractors context (PDict initial) = Inr r"
proof -
  have "list_all (extractor_ok lib) (map items extractors)"
    using assms(1) by (auto simp: validate_extractors_def dest: extractor_list_issues_ok split: if_splits)
  from extraction_loop_total [OF this] show ?thesis
    using assms by (simp add: extract_variables_def py_or_def)
qed

theorem validated_extraction_total_witness:
  "\<exists>r. extract_variables no_lib demo_extractors [] (PDict [(''a'', PInt 1)]) = Inr r"
  by (rule validated_extraction_total [where variables = "[(''a'', PInt 1)]"]) code_simp+

text \<open>
  C39. Round trip of JSON paths: the text of a path of indexes and plain keys parses to the
  same tokens.
\<close>

theorem json_path_roundtrip:
  assumes "list_all plain_token ts"
  shows "parse_json_path lib (path_text ts) = Inr ts"
  using json_tokens_text [OF assms] by (simp add: parse_json_path_def path_text_def)

theorem json_path_roundtrip_witness:
  "path_text [JKey ''alerts'', JIndex 10, JKey ''x-y''] = ''$.alerts[10].x-y'' \<and>
   parse_json_path no_lib ''$.alerts[10].x-y'' = Inr [JKey ''alerts'', JIndex 10, JKey ''x-y'']"
proof -
  have t: "path_text [JKey ''alerts'', JIndex 10, JKey ''x-y''] = ''$.alerts[10].x-y''"
    by code_simp
  moreover have "list_all plain_token [JKey ''alerts'', JIndex 10, JKey ''x-y'']"
    by code_simp
  ultimately show ?thesis
    using json_path_roundtrip [of "[JKey ''alerts'', JIndex 10, JKey ''x-y'']" no_lib] by simp
qed

text \<open>
  A validated extractor can create a variable that a later extraction refuses: the names
  of the groups of a pattern are never checked as variable names, so a group named with a
  letter outside ASCII (which \<open>re\<close> accepts) is stored, and the next extraction that starts
  from these variables raises.
\<close>

definition accent_name :: string where
  "accent_name = [CHR 0xE9]"

definition group_lib :: py_lib where
  "group_lib = no_lib\<lparr>re_error := (\<lambda>_. None), re_groupindex := (\<lambda>_. [accent_name]),
     re_search := (\<lambda>_ s. Some \<lparr>rm_group = (\<lambda>_. None), rm_lastindex = True, rm_groupdict = [(accent_name, PStr s)]\<rparr>)\<rparr>"

definition group_extractor :: py where
  "group_extractor = PDict [(''type'', PStr ''extract_regex''), (''source'', PStr ''event.title''),
     (''pattern'', PStr (''(?P<'' @ accent_name @ ''>a)''))]"

theorem group_name_not_validated:
  "validate_extractors group_lib (PList [group_extractor]) ''extractors'' = Inr [] \<and>
   (case extract_variables group_lib [group_extractor] [(''event'', PDict [(''title'', PStr ''a'')])] PNone of
      Inr r \<Rightarrow> er_variables r = [(accent_name, PStr ''a'')] \<and>
        extract_variables group_lib [] [] (PDict (er_variables r)) =
          raise_at ExtractionError 
            ''variable name must start with a letter or underscore and contain only letters, numbers and underscores''
            (''variables.'' @ accent_name)
    | Inl _ \<Rightarrow> False)"
  by code_simp

end
