(* ===== verification/Orch_Actions.thy ===== *)
theory Orch_Actions
  imports Orch_Variables
begin

text \<open>
  Actions of Event Orchestration (\<open>orchestration/actions.py\<close>, with the history levels of
  \<open>alerts/event_history.py\<close>): the mutable event state, static validation of actions, and
  their execution with failure modes. An action may raise after it has changed the state,
  so an operation returns its result or error together with the state it leaves.
\<close>

section \<open>Alert event history levels\<close>

definition ALERT_EVENT_HISTORY_LEVELS :: "string list" where
  "ALERT_EVENT_HISTORY_LEVELS = [''full'', ''initial'', ''disabled'']"

definition INCOMING_ALERT_EVENT_TYPES :: "string list" where
  "INCOMING_ALERT_EVENT_TYPES = [''created'', ''updated'', ''resolved'']"

text \<open>\<open>str(value or "").strip().lower()\<close>\<close>

definition norm_text :: "py \<Rightarrow> string" where
  "norm_text v = lower (strip (py_str (py_or v (PStr []))))"

definition normalize_alert_event_history_level :: "py \<Rightarrow> py \<Rightarrow> string" where
  "normalize_alert_event_history_level value dflt =
     (if norm_text value \<in> set ALERT_EVENT_HISTORY_LEVELS then norm_text value
      else if norm_text dflt \<in> set ALERT_EVENT_HISTORY_LEVELS then norm_text dflt
      else ''full'')"

text \<open>\<open>override\<close> is \<open>runtime.alert_event_history\<close>, \<open>config\<close> the global setting.\<close>

definition resolve_alert_event_history_level :: "py \<Rightarrow> py \<Rightarrow> string" where
  "resolve_alert_event_history_level config override =
     (if override \<noteq> PNone \<and> override \<noteq> PStr [] then normalize_alert_event_history_level override (PStr ''full'')
      else normalize_alert_event_history_level config (PStr ''full''))"

definition should_record_incoming_alert_event :: "py \<Rightarrow> py \<Rightarrow> py \<Rightarrow> bool" where
  "should_record_incoming_alert_event config event_type override =
     (let normalized_type = norm_text event_type;
          level = resolve_alert_event_history_level config override
      in if normalized_type \<notin> set INCOMING_ALERT_EVENT_TYPES then True
         else if level = ''disabled'' then False
         else if level = ''initial'' then normalized_type = ''created''
         else True)"

section \<open>Constants\<close>

definition MAX_ACTIONS_PER_RULE :: nat where "MAX_ACTIONS_PER_RULE = 128"
definition MAX_ACTION_VALUE_DEPTH :: nat where "MAX_ACTION_VALUE_DEPTH = 16"
definition MAX_ACTION_COLLECTION_ITEMS :: nat where "MAX_ACTION_COLLECTION_ITEMS = 512"
definition MAX_ACTION_VALUE_BYTES :: nat where "MAX_ACTION_VALUE_BYTES = 65536"
definition MAX_LABELS :: nat where "MAX_LABELS = 256"
definition MAX_LABEL_NAME_LENGTH :: nat where "MAX_LABEL_NAME_LENGTH = 128"
definition MAX_CUSTOM_FIELD_NAME_LENGTH :: nat where "MAX_CUSTOM_FIELD_NAME_LENGTH = 128"
definition MAX_NOTE_LENGTH :: nat where "MAX_NOTE_LENGTH = 8192"
definition MAX_PAUSE_SECONDS :: int where "MAX_PAUSE_SECONDS = 604800"
definition MAX_GROUP_WINDOW_SECONDS :: int where "MAX_GROUP_WINDOW_SECONDS = 86400"
definition MAX_REOPEN_WINDOW_SECONDS :: int where "MAX_REOPEN_WINDOW_SECONDS = 86400"

lemmas action_limit_defs [code_unfold] =
  MAX_ACTIONS_PER_RULE_def MAX_ACTION_COLLECTION_ITEMS_def MAX_NOTE_LENGTH_def

definition PROCESS_DISPOSITIONS :: "string list" where
  "PROCESS_DISPOSITIONS = [''process'', ''suppress'', ''pause'', ''drop'']"

definition EVENT_ACTIONS :: "string list" where
  "EVENT_ACTIONS = [''trigger'', ''resolve'']"

definition TRACE_LEVELS :: "string list" where
  "TRACE_LEVELS = [''full'', ''compact'', ''disabled'']"

definition TEXT_FIELD_ACTIONS :: "(string \<times> string) list" where
  "TEXT_FIELD_ACTIONS =
     [(''set_title'', ''title''), (''set_message'', ''message''), (''set_description'', ''description''),
      (''set_severity'', ''severity''), (''set_priority'', ''priority''),
      (''set_dedup_key'', ''dedup_key''), (''set_group_key'', ''group_key'')]"

datatype entity_root = RouteRoot | TeamRoot | ServiceRoot

definition ROUTING_ACTIONS :: "(string \<times> entity_root \<times> string) list" where
  "ROUTING_ACTIONS =
     [(''set_route'', RouteRoot, ''route_id''), (''set_team'', TeamRoot, ''team_id''),
      (''set_service'', ServiceRoot, ''service_id'')]"

definition POLICY_ACTIONS :: "(string \<times> string) list" where
  "POLICY_ACTIONS =
     [(''set_escalation_policy'', ''escalation_policy_id''),
      (''set_notification_policy'', ''notification_policy_id''),
      (''set_priority_policy'', ''priority_policy_id'')]"

definition SUPPORTED_ACTION_TYPES :: "string list" where
  "SUPPORTED_ACTION_TYPES =
     EXTRACTION_TYPES @ map fst TEXT_FIELD_ACTIONS @ map fst ROUTING_ACTIONS @ map fst POLICY_ACTIONS @
     [''set_event_action'', ''set_trace_level'', ''set_alert_event_history'', ''set_label'',
      ''remove_label'', ''set_custom_field'', ''remove_custom_field'', ''set_grouping'',
      ''add_note'', ''suppress'', ''drop'', ''pause'', ''enqueue_webhook'']"

section \<open>JSON values\<close>

fun validate_json_value :: "py \<Rightarrow> string \<Rightarrow> nat \<Rightarrow> unit result"
  and validate_json_list :: "py list \<Rightarrow> string \<Rightarrow> nat \<Rightarrow> nat \<Rightarrow> unit result"
  and validate_json_dict :: "pydict \<Rightarrow> string \<Rightarrow> nat \<Rightarrow> unit result" where
  "validate_json_value value path depth =
     (if depth > MAX_ACTION_VALUE_DEPTH
      then raise_at ActionValidationError ''action value exceeds the nesting limit'' path
      else case value of
        PFloat t \<Rightarrow>
          if \<not> float_finite t
          then raise_at ActionValidationError ''action value cannot contain non-finite numbers'' path
          else Inr ()
      | PList xs \<Rightarrow>
          if length xs > MAX_ACTION_COLLECTION_ITEMS
          then raise_at ActionValidationError ''action value list exceeds the item limit'' path
          else validate_json_list xs path 0 (Suc depth)
      | PDict d \<Rightarrow>
          if length d > MAX_ACTION_COLLECTION_ITEMS
          then raise_at ActionValidationError ''action value object exceeds the item limit'' path
          else validate_json_dict d path (Suc depth)
      | _ \<Rightarrow> Inr ())"
| "validate_json_list [] path i depth = Inr ()"
| "validate_json_list (x # xs) path i depth =
     res_bind (validate_json_value x (path @ ''['' @ nat_str i @ '']'') depth)
       (\<lambda>_. validate_json_list xs path (Suc i) depth)"
| "validate_json_dict [] path depth = Inr ()"
| "validate_json_dict ((k, v) # d) path depth =
     res_bind (validate_json_value v (path @ ''.'' @ k) depth) (\<lambda>_. validate_json_dict d path depth)"

declare validate_json_value.simps [simp del]

definition json_copy :: "py \<Rightarrow> string \<Rightarrow> py result" where
  "json_copy value path =
     res_bind (validate_json_value value path 0)
       (\<lambda>_. if \<not> json_ok value
            then raise_at ActionValidationError ''action value must be JSON-compatible'' path
            else if utf8_length (json_dumps value) > MAX_ACTION_VALUE_BYTES
            then raise_at ActionValidationError ''action value exceeds the size limit'' path
            else Inr value)"

lemma utf8_length_le: "utf8_length s \<le> 2 * length s"
  by (induction s) (auto simp: utf8_length_def)

text \<open>For evaluation: short values need no comparison with the limit.\<close>

lemma json_copy_code [code]:
  "json_copy value path =
     res_bind (validate_json_value value path 0)
       (\<lambda>_. if \<not> json_ok value
            then raise_at ActionValidationError ''action value must be JSON-compatible'' path
            else if \<not> longer_than (num.Bit0 (num.Bit0 (num.Bit0 (num.Bit0 (num.Bit0 (num.Bit0 (num.Bit0 (num.Bit0 num.One)))))))) (json_dumps value)
            then Inr value
            else if utf8_length (json_dumps value) > MAX_ACTION_VALUE_BYTES
            then raise_at ActionValidationError ''action value exceeds the size limit'' path
            else Inr value)"
proof -
  have "\<not> MAX_ACTION_VALUE_BYTES < utf8_length s" if "\<not> 256 < length s" for s
    using utf8_length_le [of s] that by (simp add: MAX_ACTION_VALUE_BYTES_def)
  then show ?thesis
    unfolding json_copy_def numeral_less_length [symmetric] by (intro arg_cong [where f = "res_bind _"] ext) simp
qed

section \<open>The event state\<close>

record event_action_state =
  ea_event :: pydict
  ea_raw :: pydict
  ea_variables :: pydict
  ea_route :: pydict
  ea_service :: pydict
  ea_team :: pydict
  ea_integration :: pydict
  ea_time :: pydict
  ea_result :: pydict

text \<open>
  The defaults that \<open>from_context\<close> gives to \<open>result\<close>, in order; \<open>config\<close> is the global
  history setting.
\<close>

definition result_defaults :: "py \<Rightarrow> pydict" where
  "result_defaults config =
     [(''disposition'', PStr ''process''), (''suppress_notifications'', PBool False),
      (''trace_level'', PNone),
      (''alert_event_history'', PStr (resolve_alert_event_history_level config PNone)),
      (''dropped'', PBool False), (''pause_seconds'', PNone), (''pause_retrigger'', PStr ''preserve''),
      (''suppress_reason'', PNone), (''pause_reason'', PNone), (''drop_reason'', PNone),
      (''routing'', PDict []), (''policies'', PDict []), (''grouping'', PDict []),
      (''notes'', PList []), (''webhooks'', PList [])]"

definition with_defaults :: "pydict \<Rightarrow> pydict \<Rightarrow> pydict" where
  "with_defaults defaults d = fold (\<lambda>(k, v) acc. dsetdefault acc k v) defaults d"

definition check_result :: "pydict \<Rightarrow> unit result" where
  "check_result result =
     res_bind (in_frozenset (dget result ''disposition'') PROCESS_DISPOSITIONS)
       (\<lambda>known.
          if \<not> known then raise_at ActionValidationError ''result.disposition is invalid'' ''result.disposition''
          else if \<not> is_dict (dget result ''routing'')
          then raise_at ActionValidationError ''result.routing must be an object'' ''result.routing''
          else if \<not> is_dict (dget result ''policies'')
          then raise_at ActionValidationError ''result.policies must be an object'' ''result.policies''
          else if \<not> is_dict (dget result ''grouping'')
          then raise_at ActionValidationError ''result.grouping must be an object'' ''result.grouping''
          else if \<not> is_list (dget result ''notes'')
          then raise_at ActionValidationError ''result.notes must be a list'' ''result.notes''
          else if \<not> is_list (dget result ''webhooks'')
          then raise_at ActionValidationError ''result.webhooks must be a list'' ''result.webhooks''
          else Inr ())"

text \<open>
  \<open>_json_copy(context.get(key) or {}, path=key)\<close>. The code goes on to call methods of a mapping
  on \<open>event\<close> and \<open>result\<close>, which anything else has not; the other roots it stores as they are.
  They are mappings in every context that the callers build, and the model stores their items.
\<close>

definition copy_root :: "pydict \<Rightarrow> string \<Rightarrow> py result" where
  "copy_root context key = json_copy (py_or (dget context key) (PDict [])) key"

definition as_mapping :: "exn_class \<Rightarrow> py \<Rightarrow> pydict result" where
  "as_mapping e v = (case v of PDict d \<Rightarrow> Inr d | _ \<Rightarrow> raise e ''not a mapping'')"

definition from_context :: "py \<Rightarrow> pydict \<Rightarrow> event_action_state result" where
  "from_context config context =
     res_bind (copy_root context ''event'') (\<lambda>event0.
     res_bind (if dget context ''labels'' = PNone
               then res_bind (as_mapping AttributeError event0) (\<lambda>d. Inr (py_or (dget d ''labels'') (PDict [])))
               else Inr (dget context ''labels'')) (\<lambda>labels0.
     res_bind (json_copy labels0 ''labels'') (\<lambda>labels.
     res_bind (as_mapping TypeError event0) (\<lambda>event.
     res_bind (res_bind (copy_root context ''result'') (as_mapping AttributeError)) (\<lambda>result0.
     let result = with_defaults (result_defaults config) result0 in
     res_bind (check_result result) (\<lambda>_.
     res_bind (copy_root context ''raw'') (\<lambda>raw.
     res_bind (copy_root context ''variables'') (\<lambda>variables.
     res_bind (copy_root context ''route'') (\<lambda>route.
     res_bind (copy_root context ''service'') (\<lambda>service.
     res_bind (copy_root context ''team'') (\<lambda>team.
     res_bind (copy_root context ''integration'') (\<lambda>integration.
     res_bind (copy_root context ''time'') (\<lambda>time.
       Inr \<lparr>ea_event = dset event ''labels'' labels, ea_raw = items raw, ea_variables = items variables,
            ea_route = items route, ea_service = items service, ea_team = items team,
            ea_integration = items integration, ea_time = items time, ea_result = result\<rparr>)))))))))))))"

text \<open>An operation on the state: its result or the exception, and the state it leaves.\<close>

type_synonym 'a step = "event_action_state \<Rightarrow> 'a result \<times> event_action_state"

definition st_bind :: "'a step \<Rightarrow> ('a \<Rightarrow> 'b step) \<Rightarrow> 'b step" where
  "st_bind m f s = (case m s of (Inl e, s') \<Rightarrow> (Inl e, s') | (Inr x, s') \<Rightarrow> f x s')"

definition st_lift :: "'a result \<Rightarrow> 'a step" where
  "st_lift r s = (r, s)"

definition st_gets :: "(event_action_state \<Rightarrow> 'a) \<Rightarrow> 'a step" where
  "st_gets f s = (Inr (f s), s)"

definition st_modify :: "(event_action_state \<Rightarrow> event_action_state) \<Rightarrow> unit step" where
  "st_modify f s = (Inr (), f s)"

definition set_event :: "string \<Rightarrow> py \<Rightarrow> unit step" where
  "set_event key value = st_modify (\<lambda>s. s\<lparr>ea_event := dset (ea_event s) key value\<rparr>)"

definition set_result :: "string \<Rightarrow> py \<Rightarrow> unit step" where
  "set_result key value = st_modify (\<lambda>s. s\<lparr>ea_result := dset (ea_result s) key value\<rparr>)"

text \<open>The property \<open>labels\<close>: created when absent, refused when it is no object.\<close>

definition state_labels :: "pydict step" where
  "state_labels =
     st_bind (st_modify (\<lambda>s. s\<lparr>ea_event := dsetdefault (ea_event s) ''labels'' (PDict [])\<rparr>))
       (\<lambda>_. st_bind (st_gets (\<lambda>s. dget (ea_event s) ''labels''))
         (\<lambda>labels. case labels of
            PDict l \<Rightarrow> st_lift (Inr l)
          | _ \<Rightarrow> st_lift (raise_at ActionValidationError ''event.labels must be an object'' ''event.labels'')))"

definition context_dict :: "pydict \<Rightarrow> event_action_state \<Rightarrow> pydict" where
  "context_dict labels s =
     [(''event'', PDict (ea_event s)), (''labels'', PDict labels), (''raw'', PDict (ea_raw s)),
      (''variables'', PDict (ea_variables s)), (''route'', PDict (ea_route s)),
      (''service'', PDict (ea_service s)), (''team'', PDict (ea_team s)),
      (''integration'', PDict (ea_integration s)), (''time'', PDict (ea_time s)),
      (''result'', PDict (ea_result s))]"

definition state_context :: "pydict step" where
  "state_context = st_bind state_labels (\<lambda>labels. st_gets (context_dict labels))"

section \<open>Values of an action\<close>

definition action_value_sources :: "pydict \<Rightarrow> string list" where
  "action_value_sources action = filter (dmem action) [''value'', ''value_from'', ''template'']"

definition resolve_value :: "py_lib \<Rightarrow> pydict \<Rightarrow> string \<Rightarrow> (py \<times> string list) step" where
  "resolve_value lib action path =
     (case action_value_sources action of
        [] \<Rightarrow> st_lift (raise_at ActionValidationError ''action requires value, value_from or template'' path)
      | [source] \<Rightarrow>
          let value = dget action source in
          if source = ''value_from''
          then st_bind state_context (\<lambda>ctx. st_lift (
                 res_bind (resolve_field ctx value) (\<lambda>resolution.
                   case fr_value resolution of
                     None \<Rightarrow> raise_at ActionValidationError
                               (''source field '' @ repr_str (fr_normalized resolution) @ '' does not exist'')
                               (path @ ''.value_from'')
                   | Some v \<Rightarrow> res_bind (json_copy v (path @ ''.value_from''))
                                 (\<lambda>c. Inr (c, [fr_normalized resolution])))))
          else if source = ''template'' \<or> has_template value
          then (if \<not> is_str value
                then st_lift (raise_at ActionValidationError ''template must be a string'' (path @ ''.'' @ source))
                else st_bind state_context (\<lambda>ctx. st_lift (
                       res_bind (render_template lib value ctx) (\<lambda>(text, refs). Inr (PStr text, refs)))))
          else st_lift (res_bind (json_copy value (path @ ''.'' @ source)) (\<lambda>c. Inr (c, [])))
      | _ \<Rightarrow> st_lift (raise_at ActionValidationError ''action value sources are mutually exclusive'' path))"

definition scalar_text :: "py \<Rightarrow> string \<Rightarrow> bool \<Rightarrow> string result" where
  "scalar_text value path allow_empty =
     res_bind
       (case value of
          PBool b \<Rightarrow> Inr (if b then ''true'' else ''false'')
        | PNone \<Rightarrow> Inr []
        | PStr s \<Rightarrow> Inr s
        | PInt i \<Rightarrow> Inr (int_str i)
        | PFloat t \<Rightarrow> Inr t
        | _ \<Rightarrow> raise_at ActionValidationError ''action value must be scalar'' path)
       (\<lambda>text. if \<not> allow_empty \<and> strip text = []
               then raise_at ActionValidationError ''action value cannot be empty'' path
               else Inr text)"

definition label_char :: "char \<Rightarrow> bool" where
  "label_char c \<longleftrightarrow> is_alpha c \<or> is_digit c \<or> c \<in> set ''_.:-''"

text \<open>The checked name.\<close>

definition validate_name :: "py \<Rightarrow> string \<Rightarrow> nat \<Rightarrow> string result" where
  "validate_name value path max_length =
     (case value of
        PStr s \<Rightarrow>
          if s = [] then raise_at ActionValidationError ''name is required'' path
          else if length s > max_length then raise_at ActionValidationError ''name exceeds the size limit'' path
          else if name_start (hd s) \<and> list_all label_char s then Inr s
          else raise_at ActionValidationError
                 ''name must start with a letter or underscore and contain only letters, numbers, dot, colon, dash or underscore'' path
      | _ \<Rightarrow> raise_at ActionValidationError ''name is required'' path)"

text \<open>
  \<open>int(value)\<close>: numbers are truncated; \<open>nan\<close> raises \<open>ValueError\<close>, an infinity
  \<open>OverflowError\<close>, a collection \<open>TypeError\<close>.
\<close>

fun py_int :: "py \<Rightarrow> int result" where
  "py_int (PInt i) = Inr i"
| "py_int (PBool b) = Inr (if b then 1 else 0)"
| "py_int (PStr s) = (case parse_int s of Some i \<Rightarrow> Inr i | None \<Rightarrow> raise ValueError ''invalid literal for int()'')"
| "py_int (PFloat t) =
     (case parse_decimal t of
        Some q \<Rightarrow> Inr (if q < 0 then - \<lfloor>- q\<rfloor> else \<lfloor>q\<rfloor>)
      | None \<Rightarrow> if t = ''nan'' then raise ValueError ''cannot convert float NaN to integer''
                else raise OverflowError ''cannot convert float infinity to integer'')"
| "py_int _ = raise TypeError ''int() argument must be a string, a bytes-like object or a real number''"

definition positive_id :: "py \<Rightarrow> string \<Rightarrow> int result" where
  "positive_id value path =
     (let bad = raise_at ActionValidationError ''reference id must be a positive integer'' path in
      if is_bool value then bad
      else case py_int value of
        Inl e \<Rightarrow> if exn_cls e = TypeError \<or> exn_cls e = ValueError then bad else Inl e
      | Inr i \<Rightarrow> if i \<le> 0 then bad else Inr i)"

definition present_value :: "pydict \<Rightarrow> string \<Rightarrow> bool" where
  "present_value d key \<longleftrightarrow> dmem d key \<and> dget d key \<noteq> PNone \<and> dget d key \<noteq> PStr []"

definition static_reference :: "pydict \<Rightarrow> string list \<Rightarrow> string \<Rightarrow> int result" where
  "static_reference action keys path =
     (let params = dget action ''params'';
          direct = map (\<lambda>k. (k, dget action k)) (filter (present_value action) keys);
          nested = map (\<lambda>k. (''params.'' @ k, dget (items params) k)) (filter (present_value (items params)) keys)
      in case direct @ nested of
           [(source, value)] \<Rightarrow> positive_id value (path @ ''.'' @ source)
         | _ \<Rightarrow> raise_at ActionValidationError ''action requires exactly one static reference id'' path)"

section \<open>Validation\<close>

definition value_source_issues :: "py_lib \<Rightarrow> pydict \<Rightarrow> string \<Rightarrow> validation_issue list" where
  "value_source_issues lib action path =
     (let sources = action_value_sources action in
      (if sources = []
       then [ValidationIssue path ''missing_action_value'' ''action requires value, value_from or template''] else []) @
      (if length sources > 1
       then [ValidationIssue path ''conflicting_action_value'' ''action value sources are mutually exclusive''] else []) @
      (if dmem action ''value_from''
       then (case normalize_field_reference (dget action ''value_from'') of
               Inl e \<Rightarrow> [ValidationIssue (path @ ''.value_from'') ''invalid_field_reference'' (exn_msg e)]
             | Inr _ \<Rightarrow> [])
       else []) @
      (if has_template (dget action ''value'')
       then validate_template lib (dget action ''value'') (path @ ''.value'') else []) @
      (if is_str (dget action ''template'')
       then validate_template lib (dget action ''template'') (path @ ''.template'') else []))"

definition member_issue :: "py \<Rightarrow> string list \<Rightarrow> validation_issue \<Rightarrow> validation_issue list result" where
  "member_issue value names issue = res_bind (in_frozenset value names) (\<lambda>known. Inr (if known then [] else [issue]))"

text \<open>\<open>except ActionValidationError as exc\<close>: the issue of a failed check.\<close>

definition check_issue :: "string \<Rightarrow> 'a result \<Rightarrow> validation_issue list result" where
  "check_issue dflt r =
     (case r of
        Inr _ \<Rightarrow> Inr []
      | Inl e \<Rightarrow> if exn_cls e = ActionValidationError
                 then Inr [ValidationIssue (case exn_path e of Some p \<Rightarrow> p | None \<Rightarrow> dflt) ''invalid_action'' (exn_msg e)]
                 else Inl e)"

definition int_between :: "int \<Rightarrow> int \<Rightarrow> py \<Rightarrow> bool" where
  "int_between lo hi v = (case v of PInt n \<Rightarrow> lo \<le> n \<and> n \<le> hi | _ \<Rightarrow> False)"

definition positive_int :: "py \<Rightarrow> bool" where
  "positive_int v = (case v of PInt n \<Rightarrow> n > 0 | _ \<Rightarrow> False)"

definition label_name :: "pydict \<Rightarrow> py" where
  "label_name action = dget_default action ''name'' (dget action ''label'')"

definition custom_field_name :: "pydict \<Rightarrow> py" where
  "custom_field_name action = dget_default action ''name'' (dget action ''field'')"

definition webhook_action_id :: "pydict \<Rightarrow> py" where
  "webhook_action_id action = dget_default action ''action_id'' (dget action ''webhook_action_id'')"

definition GROUPING_KEYS :: "string list" where
  "GROUPING_KEYS = [''dedup_key'', ''group_key'', ''strategy'']"

definition grouping_issues :: "py_lib \<Rightarrow> pydict \<Rightarrow> string \<Rightarrow> validation_issue list" where
  "grouping_issues lib action path =
     (if \<not> list_ex (dmem action) (GROUPING_KEYS @ [''window_seconds'', ''reopen_window_seconds''])
      then [ValidationIssue path ''empty_grouping_action'' ''set_grouping requires at least one grouping field''] else []) @
     (if dmem action ''window_seconds'' \<and> \<not> int_between 0 MAX_GROUP_WINDOW_SECONDS (dget action ''window_seconds'')
      then [ValidationIssue (path @ ''.window_seconds'') ''invalid_group_window'' ''grouping window must be between 0 and 86400 seconds'']
      else []) @
     (if dmem action ''reopen_window_seconds''
         \<and> \<not> int_between 0 MAX_REOPEN_WINDOW_SECONDS (dget action ''reopen_window_seconds'')
      then [ValidationIssue (path @ ''.reopen_window_seconds'') ''invalid_reopen_window'' ''reopen window must be between 0 and 86400 seconds'']
      else []) @
     concat (map (\<lambda>key. if has_template (dget action key)
                          then validate_template lib (dget action key) (path @ ''.'' @ key) else []) GROUPING_KEYS)"

definition pause_issues :: "pydict \<Rightarrow> string \<Rightarrow> validation_issue list result" where
  "pause_issues action path =
     res_bind (member_issue (dget_default action ''retrigger'' (PStr ''preserve'')) [''preserve'', ''reset'']
                 (ValidationIssue (path @ ''.retrigger'') ''invalid_pause_retrigger'' ''pause retrigger must be preserve or reset''))
       (\<lambda>retrigger. Inr ((if \<not> int_between 1 MAX_PAUSE_SECONDS (dget action ''seconds'')
                          then [ValidationIssue (path @ ''.seconds'') ''invalid_pause_duration''
                                  ''pause duration must be between 1 and 604800 seconds'']
                          else []) @ retrigger))"

text \<open>The branch of \<open>validate_action\<close> for the type, after the value source.\<close>

definition typed_action_issues :: "py_lib \<Rightarrow> string \<Rightarrow> pydict \<Rightarrow> string \<Rightarrow> validation_issue list result" where
  "typed_action_issues lib ty action path =
     (if ty = ''set_event_action'' \<and> dmem action ''value''
      then member_issue (dget action ''value'') EVENT_ACTIONS
             (ValidationIssue (path @ ''.value'') ''invalid_event_action'' ''event action must be trigger or resolve'')
      else if ty = ''set_trace_level''
      then member_issue (dget action ''level'') TRACE_LEVELS
             (ValidationIssue (path @ ''.level'') ''invalid_trace_level'' ''trace level must be full, compact or disabled'')
      else if ty = ''set_alert_event_history''
      then member_issue (dget action ''level'') ALERT_EVENT_HISTORY_LEVELS
             (ValidationIssue (path @ ''.level'') ''invalid_alert_event_history'' ''alert event history must be full, initial or disabled'')
      else if ty \<in> {''set_label'', ''remove_label''}
      then check_issue (path @ ''.name'') (validate_name (label_name action) (path @ ''.name'') MAX_LABEL_NAME_LENGTH)
      else if ty \<in> {''set_custom_field'', ''remove_custom_field''}
      then check_issue (path @ ''.name'')
             (validate_name (custom_field_name action) (path @ ''.name'') MAX_CUSTOM_FIELD_NAME_LENGTH)
      else case map_of ROUTING_ACTIONS ty of
        Some (_, id_key) \<Rightarrow> check_issue path (static_reference action [id_key, ''value''] path)
      | None \<Rightarrow> (case map_of POLICY_ACTIONS ty of
          Some id_key \<Rightarrow> check_issue path (static_reference action [id_key, ''policy_id'', ''value''] path)
        | None \<Rightarrow>
            if ty = ''set_grouping'' then Inr (grouping_issues lib action path)
            else if ty = ''pause'' then pause_issues action path
            else if ty = ''enqueue_webhook'' \<and> \<not> positive_int (webhook_action_id action)
            then Inr [ValidationIssue (path @ ''.action_id'') ''invalid_webhook_action''
                        ''enqueue_webhook requires a positive integer action_id'']
            else Inr []))"

definition reason_issues :: "py_lib \<Rightarrow> string \<Rightarrow> pydict \<Rightarrow> string \<Rightarrow> validation_issue list" where
  "reason_issues lib ty action path =
     (let reason = dget action ''reason'' in
      if ty \<notin> {''suppress'', ''pause'', ''drop''} then []
      else if reason \<noteq> PNone \<and> \<not> is_str reason
      then [ValidationIssue (path @ ''.reason'') ''invalid_disposition_reason'' ''disposition reason must be a string'']
      else if has_template reason then validate_template lib reason (path @ ''.reason'')
      else [])"

definition value_action :: "string \<Rightarrow> bool" where
  "value_action ty \<longleftrightarrow> ty \<in> set (map fst TEXT_FIELD_ACTIONS) \<or>
     ty \<in> {''set_event_action'', ''set_label'', ''set_custom_field'', ''add_note''}"

definition validate_action :: "py_lib \<Rightarrow> py \<Rightarrow> string \<Rightarrow> validation_issue list result" where
  "validate_action lib action0 path =
     (case action0 of
        PDict action \<Rightarrow>
          res_bind (in_frozenset (dget action ''type'') SUPPORTED_ACTION_TYPES) (\<lambda>known.
            if \<not> known
            then Inr [ValidationIssue (path @ ''.type'') ''unsupported_action''
                        (''unsupported orchestration action '' @ py_repr (dget action ''type''))]
            else let ty = py_str (dget action ''type'') in
              if ty \<in> set EXTRACTION_TYPES then validate_extractor lib action0 path
              else res_bind (member_issue (dget_default action ''on_failure'' (PStr ''continue'')) FAILURE_MODES
                       (ValidationIssue (path @ ''.on_failure'') ''invalid_failure_mode''
                          ''on_failure must be continue, stop_rule or stop_orchestration'')) (\<lambda>mode.
                   res_bind (typed_action_issues lib ty action path) (\<lambda>typed.
                     Inr (mode @ (if value_action ty then value_source_issues lib action path else []) @
                          typed @ reason_issues lib ty action path))))
      | _ \<Rightarrow> Inr [ValidationIssue path ''invalid_action'' ''action must be an object''])"

fun action_list_issues :: "py_lib \<Rightarrow> string \<Rightarrow> nat \<Rightarrow> py list \<Rightarrow> validation_issue list result" where
  "action_list_issues lib path i [] = Inr []"
| "action_list_issues lib path i (x # xs) =
     res_bind (validate_action lib x (path @ ''['' @ nat_str i @ '']''))
       (\<lambda>here. res_bind (action_list_issues lib path (Suc i) xs) (\<lambda>more. Inr (here @ more)))"

definition validate_action_list :: "py_lib \<Rightarrow> py \<Rightarrow> string \<Rightarrow> validation_issue list result" where
  "validate_action_list lib actions path =
     (case actions of
        PList xs \<Rightarrow>
          if length xs > MAX_ACTIONS_PER_RULE
          then Inr [ValidationIssue path ''action_limit'' ''rule has too many actions'']
          else action_list_issues lib path 0 xs
      | _ \<Rightarrow> Inr [ValidationIssue path ''invalid_actions'' ''actions must be a list''])"

section \<open>Execution\<close>

text \<open>A text that is rendered when it contains a template, with the references it used.\<close>

definition render_if_template :: "py_lib \<Rightarrow> py \<Rightarrow> (py \<times> string list) step" where
  "render_if_template lib value =
     (if has_template value
      then st_bind state_context (\<lambda>ctx. st_lift (
             res_bind (render_template lib value ctx) (\<lambda>(text, refs). Inr (PStr text, refs))))
      else st_lift (Inr (value, [])))"

text \<open>The mapping that a key of \<open>result\<close> holds, created when absent.\<close>

definition result_section :: "string \<Rightarrow> pydict step" where
  "result_section key =
     st_bind (st_modify (\<lambda>s. s\<lparr>ea_result := dsetdefault (ea_result s) key (PDict [])\<rparr>))
       (\<lambda>_. st_gets (\<lambda>s. items (dget (ea_result s) key)))"

definition set_section :: "string \<Rightarrow> string \<Rightarrow> py \<Rightarrow> unit step" where
  "set_section sec key value =
     st_bind (result_section sec) (\<lambda>d. set_result sec (PDict (dset d key value)))"

fun grouping_texts :: "py_lib \<Rightarrow> pydict \<Rightarrow> string \<Rightarrow> string list \<Rightarrow> string list \<Rightarrow> (string list) step" where
  "grouping_texts lib action path refs [] = st_lift (Inr refs)"
| "grouping_texts lib action path refs (key # keys) =
     (if \<not> dmem action key then grouping_texts lib action path refs keys
      else st_bind (render_if_template lib (dget action key)) (\<lambda>(value, more).
           st_bind (st_lift (scalar_text value (path @ ''.'' @ key) False)) (\<lambda>text.
           st_bind (set_section ''grouping'' key (PStr text)) (\<lambda>_.
           st_bind (if key \<in> {''dedup_key'', ''group_key''} then set_event key (PStr text) else st_lift (Inr ()))
             (\<lambda>_. grouping_texts lib action path (refs @ more) keys)))))"

definition grouping_window :: "pydict \<Rightarrow> string \<Rightarrow> int \<Rightarrow> string \<Rightarrow> string \<Rightarrow> unit step" where
  "grouping_window action key limit message path =
     (if \<not> dmem action key then st_lift (Inr ())
      else if \<not> int_between 0 limit (dget action key)
      then st_lift (raise_at ActionValidationError message (path @ ''.'' @ key))
      else set_section ''grouping'' key (dget action key))"

type_synonym action_output = "py option \<times> py option \<times> string list \<times> string"

definition execute_grouping :: "py_lib \<Rightarrow> pydict \<Rightarrow> string \<Rightarrow> action_output step" where
  "execute_grouping lib action path =
     st_bind (st_gets (\<lambda>s. py_or (dget (ea_result s) ''grouping'') (PDict []))) (\<lambda>before.
     st_bind (result_section ''grouping'') (\<lambda>_.
     st_bind (grouping_texts lib action path [] GROUPING_KEYS) (\<lambda>refs.
     st_bind (grouping_window action ''window_seconds'' MAX_GROUP_WINDOW_SECONDS
                ''grouping window must be between 0 and 86400 seconds'' path) (\<lambda>_.
     st_bind (grouping_window action ''reopen_window_seconds'' MAX_REOPEN_WINDOW_SECONDS
                ''reopen window must be between 0 and 86400 seconds'' path) (\<lambda>_.
     st_bind (result_section ''grouping'') (\<lambda>after.
       st_lift (Inr (Some before, Some (PDict after), refs, ''continue''))))))))"

text \<open>\<open>"{{" in reason or "}}" in reason\<close> for a list or an object: among its elements or keys.\<close>

definition has_braces :: "py \<Rightarrow> bool" where
  "has_braces v = (case v of
      PList xs \<Rightarrow> PStr ''{{'' \<in> set xs \<or> PStr ''}}'' \<in> set xs
    | PDict d \<Rightarrow> dmem d ''{{'' \<or> dmem d ''}}''
    | _ \<Rightarrow> False)"

definition disposition_reason :: "py_lib \<Rightarrow> pydict \<Rightarrow> string \<Rightarrow> (py \<times> string list) step" where
  "disposition_reason lib action path =
     (let reason = dget action ''reason'' in
      if reason = PNone \<or> reason = PStr [] then st_lift (Inr (PNone, []))
      else if \<not> (is_str reason \<or> is_list reason \<or> is_dict reason)
      then st_lift (raise TypeError ''argument is not iterable'')
      else st_bind
             (if is_str reason then render_if_template lib reason
              else if has_braces reason
              then st_bind state_context
                     (\<lambda>_. st_lift (raise_at TemplateValidationError ''template must be a string'' ''template''))
              else st_lift (Inr (reason, []))) (\<lambda>(value, refs).
           st_bind (st_lift (scalar_text value (path @ ''.reason'') True)) (\<lambda>text.
             if length text > MAX_NOTE_LENGTH
             then st_lift (raise_at ActionValidationError ''disposition reason exceeds the size limit'' (path @ ''.reason''))
             else st_lift (Inr (if text = [] then PNone else PStr text, refs)))))"

definition get_root :: "entity_root \<Rightarrow> event_action_state \<Rightarrow> pydict" where
  "get_root rt s = (case rt of RouteRoot \<Rightarrow> ea_route s | TeamRoot \<Rightarrow> ea_team s | ServiceRoot \<Rightarrow> ea_service s)"

definition put_root :: "entity_root \<Rightarrow> pydict \<Rightarrow> event_action_state \<Rightarrow> event_action_state" where
  "put_root rt d s =
     (case rt of RouteRoot \<Rightarrow> s\<lparr>ea_route := d\<rparr> | TeamRoot \<Rightarrow> s\<lparr>ea_team := d\<rparr> | ServiceRoot \<Rightarrow> s\<lparr>ea_service := d\<rparr>)"

text \<open>\<open>event.custom_details\<close>, created when absent.\<close>

definition custom_details :: "pydict step" where
  "custom_details =
     st_bind (st_modify (\<lambda>s. s\<lparr>ea_event := dsetdefault (ea_event s) ''custom_details'' (PDict [])\<rparr>))
       (\<lambda>_. st_bind (st_gets (\<lambda>s. dget (ea_event s) ''custom_details''))
         (\<lambda>details. case details of
            PDict d \<Rightarrow> st_lift (Inr d)
          | _ \<Rightarrow> st_lift (raise_at ActionValidationError ''event.custom_details must be an object'' ''event.custom_details'')))"

definition exec_text_field :: "py_lib \<Rightarrow> string \<Rightarrow> pydict \<Rightarrow> string \<Rightarrow> action_output step" where
  "exec_text_field lib target action path =
     st_bind (st_gets (\<lambda>s. dget (ea_event s) target)) (\<lambda>before.
     st_bind (resolve_value lib action path) (\<lambda>(value, refs).
     st_bind (st_lift (scalar_text value (path @ ''.value'') True)) (\<lambda>text.
     st_bind (set_event target (PStr text)) (\<lambda>_.
       st_lift (Inr (Some before, Some (PStr text), refs, ''continue''))))))"

definition exec_event_action :: "py_lib \<Rightarrow> pydict \<Rightarrow> string \<Rightarrow> action_output step" where
  "exec_event_action lib action path =
     st_bind (st_gets (\<lambda>s. dget (ea_event s) ''event_action'')) (\<lambda>before.
     st_bind (resolve_value lib action path) (\<lambda>(value, refs).
     st_bind (st_lift (scalar_text value (path @ ''.value'') False)) (\<lambda>text.
     let normalized = lower text in
     if normalized \<notin> set EVENT_ACTIONS
     then st_lift (raise_at ActionValidationError ''event action must be trigger or resolve'' (path @ ''.value''))
     else st_bind (set_event ''event_action'' (PStr normalized)) (\<lambda>_.
       st_lift (Inr (Some before, Some (PStr normalized), refs, ''continue''))))))"

definition exec_level :: "string \<Rightarrow> string list \<Rightarrow> string \<Rightarrow> pydict \<Rightarrow> string \<Rightarrow> action_output step" where
  "exec_level key levels message action path =
     st_bind (st_gets (\<lambda>s. dget (ea_result s) key)) (\<lambda>before.
     let level = norm_text (dget action ''level'') in
     if level \<notin> set levels then st_lift (raise_at ActionValidationError message (path @ ''.level''))
     else st_bind (set_result key (PStr level)) (\<lambda>_.
       st_lift (Inr (Some before, Some (PStr level), [], ''continue''))))"

definition exec_set_label :: "py_lib \<Rightarrow> pydict \<Rightarrow> string \<Rightarrow> action_output step" where
  "exec_set_label lib action path =
     st_bind (st_lift (validate_name (label_name action) (path @ ''.name'') MAX_LABEL_NAME_LENGTH)) (\<lambda>name.
     st_bind state_labels (\<lambda>labels.
     if \<not> dmem labels name \<and> length labels \<ge> MAX_LABELS
     then st_lift (raise_at ActionValidationError ''event label count exceeds the limit'' (path @ ''.name''))
     else
     st_bind (resolve_value lib action path) (\<lambda>(value, refs).
     st_bind (st_lift (scalar_text value (path @ ''.value'') True)) (\<lambda>text.
     st_bind (set_event ''labels'' (PDict (dset labels name (PStr text)))) (\<lambda>_.
       st_lift (Inr (map_of labels name, Some (PStr text), refs, ''continue'')))))))"

definition exec_remove_label :: "pydict \<Rightarrow> string \<Rightarrow> action_output step" where
  "exec_remove_label action path =
     st_bind (st_lift (validate_name (label_name action) (path @ ''.name'') MAX_LABEL_NAME_LENGTH)) (\<lambda>name.
     st_bind state_labels (\<lambda>labels.
     st_bind (set_event ''labels'' (PDict (dpop labels name))) (\<lambda>_.
       st_lift (Inr (map_of labels name, None, [], ''continue'')))))"

definition exec_set_custom_field :: "py_lib \<Rightarrow> pydict \<Rightarrow> string \<Rightarrow> action_output step" where
  "exec_set_custom_field lib action path =
     st_bind (st_lift (validate_name (custom_field_name action) (path @ ''.name'') MAX_CUSTOM_FIELD_NAME_LENGTH)) (\<lambda>name.
     st_bind custom_details (\<lambda>details.
     st_bind (resolve_value lib action path) (\<lambda>(value, refs).
     st_bind (st_lift (json_copy value (path @ ''.value''))) (\<lambda>copied.
     st_bind (set_event ''custom_details'' (PDict (dset details name copied))) (\<lambda>_.
       st_lift (Inr (map_of details name, Some copied, refs, ''continue'')))))))"

definition exec_remove_custom_field :: "pydict \<Rightarrow> string \<Rightarrow> action_output step" where
  "exec_remove_custom_field action path =
     st_bind (st_lift (validate_name (custom_field_name action) (path @ ''.name'') MAX_CUSTOM_FIELD_NAME_LENGTH)) (\<lambda>name.
     st_bind custom_details (\<lambda>details.
     st_bind (set_event ''custom_details'' (PDict (dpop details name))) (\<lambda>_.
       st_lift (Inr (map_of details name, None, [], ''continue'')))))"

definition exec_routing :: "entity_root \<Rightarrow> string \<Rightarrow> pydict \<Rightarrow> string \<Rightarrow> action_output step" where
  "exec_routing rt id_key action path =
     st_bind (st_lift (static_reference action [id_key, ''value''] path)) (\<lambda>identifier.
     st_bind (st_gets (get_root rt)) (\<lambda>before.
     st_bind (st_modify (put_root rt [(''id'', PInt identifier)])) (\<lambda>_.
     st_bind (set_section ''routing'' id_key (PInt identifier)) (\<lambda>_.
       st_lift (Inr (Some (PDict before), Some (PDict [(''id'', PInt identifier)]), [], ''continue''))))))"

definition exec_policy :: "string \<Rightarrow> pydict \<Rightarrow> string \<Rightarrow> action_output step" where
  "exec_policy id_key action path =
     st_bind (st_lift (static_reference action [id_key, ''policy_id'', ''value''] path)) (\<lambda>identifier.
     st_bind (result_section ''policies'') (\<lambda>policies.
     st_bind (set_section ''policies'' id_key (PInt identifier)) (\<lambda>_.
       st_lift (Inr (map_of policies id_key, Some (PInt identifier), [], ''continue'')))))"

text \<open>The list that a key of \<open>result\<close> holds, created when absent.\<close>

definition list_items :: "py \<Rightarrow> py list" where
  "list_items v = (case v of PList xs \<Rightarrow> xs | _ \<Rightarrow> [])"

definition result_list :: "string \<Rightarrow> (py list) step" where
  "result_list key =
     st_bind (st_modify (\<lambda>s. s\<lparr>ea_result := dsetdefault (ea_result s) key (PList [])\<rparr>))
       (\<lambda>_. st_gets (\<lambda>s. list_items (dget (ea_result s) key)))"

definition exec_add_note :: "py_lib \<Rightarrow> pydict \<Rightarrow> string \<Rightarrow> action_output step" where
  "exec_add_note lib action path =
     st_bind (result_list ''notes'') (\<lambda>before.
     st_bind (resolve_value lib action path) (\<lambda>(value, refs).
     st_bind (st_lift (scalar_text value (path @ ''.value'') False)) (\<lambda>note.
     if length note > MAX_NOTE_LENGTH
     then st_lift (raise_at ActionValidationError ''note exceeds the size limit'' (path @ ''.value''))
     else st_bind (set_result ''notes'' (PList (before @ [PStr note]))) (\<lambda>_.
       st_lift (Inr (Some (PList before), Some (PList (before @ [PStr note])), refs, ''continue''))))))"

definition exec_webhook :: "pydict \<Rightarrow> string \<Rightarrow> action_output step" where
  "exec_webhook action path =
     (let action_id = webhook_action_id action; request = PDict [(''action_id'', action_id)] in
      if \<not> positive_int action_id
      then st_lift (raise_at ActionValidationError ''enqueue_webhook requires a positive integer action_id'' (path @ ''.action_id''))
      else st_bind (result_list ''webhooks'') (\<lambda>before.
           st_bind (set_result ''webhooks'' (PList (before @ [request]))) (\<lambda>_.
             st_lift (Inr (Some (PList before), Some request, [], ''continue'')))))"

definition result_snapshot :: "string list \<Rightarrow> event_action_state \<Rightarrow> py" where
  "result_snapshot keys s = PDict (map (\<lambda>k. (k, dget (ea_result s) k)) keys)"

definition exec_suppress :: "py_lib \<Rightarrow> pydict \<Rightarrow> string \<Rightarrow> action_output step" where
  "exec_suppress lib action path =
     st_bind (disposition_reason lib action path) (\<lambda>(reason, refs).
     st_bind (st_gets (result_snapshot [''disposition'', ''suppress_notifications'', ''suppress_reason''])) (\<lambda>before.
     st_bind (set_result ''disposition'' (PStr ''suppress'')) (\<lambda>_.
     st_bind (set_result ''suppress_notifications'' (PBool True)) (\<lambda>_.
     st_bind (set_result ''suppress_reason'' reason) (\<lambda>_.
       st_lift (Inr (Some before, Some (PDict [(''disposition'', PStr ''suppress''),
          (''suppress_notifications'', PBool True), (''reason'', reason)]), refs, ''continue'')))))))"

definition exec_pause :: "py_lib \<Rightarrow> pydict \<Rightarrow> string \<Rightarrow> action_output step" where
  "exec_pause lib action path =
     (let seconds = dget action ''seconds''; retrigger = dget_default action ''retrigger'' (PStr ''preserve'') in
      if \<not> int_between 1 MAX_PAUSE_SECONDS seconds
      then st_lift (raise_at ActionValidationError ''pause duration must be between 1 and 604800 seconds'' (path @ ''.seconds''))
      else
      st_bind (st_lift (in_frozenset retrigger [''preserve'', ''reset''])) (\<lambda>known.
      if \<not> known
      then st_lift (raise_at ActionValidationError ''pause retrigger must be preserve or reset'' (path @ ''.retrigger''))
      else
      st_bind (disposition_reason lib action path) (\<lambda>(reason, refs).
      st_bind (st_gets (result_snapshot [''disposition'', ''pause_seconds'', ''pause_retrigger'', ''pause_reason''])) (\<lambda>before.
      st_bind (set_result ''disposition'' (PStr ''pause'')) (\<lambda>_.
      st_bind (set_result ''pause_seconds'' seconds) (\<lambda>_.
      st_bind (set_result ''pause_retrigger'' retrigger) (\<lambda>_.
      st_bind (set_result ''pause_reason'' reason) (\<lambda>_.
        st_lift (Inr (Some before, Some (PDict [(''disposition'', PStr ''pause''), (''pause_seconds'', seconds),
           (''retrigger'', retrigger), (''reason'', reason)]), refs, ''continue''))))))))))"

definition exec_drop :: "py_lib \<Rightarrow> pydict \<Rightarrow> string \<Rightarrow> action_output step" where
  "exec_drop lib action path =
     st_bind (disposition_reason lib action path) (\<lambda>(reason, refs).
     st_bind (st_gets (result_snapshot [''disposition'', ''dropped'', ''drop_reason''])) (\<lambda>before.
     st_bind (set_result ''disposition'' (PStr ''drop'')) (\<lambda>_.
     st_bind (set_result ''dropped'' (PBool True)) (\<lambda>_.
     st_bind (set_result ''suppress_notifications'' (PBool True)) (\<lambda>_.
     st_bind (set_result ''drop_reason'' reason) (\<lambda>_.
       st_lift (Inr (Some before, Some (PDict [(''disposition'', PStr ''drop''), (''dropped'', PBool True),
          (''reason'', reason)]), refs, ''stop_orchestration''))))))))"

definition execute_action :: "py_lib \<Rightarrow> pydict \<Rightarrow> string \<Rightarrow> action_output step" where
  "execute_action lib action path =
     (let ty = py_str (dget action ''type'') in
      case map_of TEXT_FIELD_ACTIONS ty of
        Some target \<Rightarrow> exec_text_field lib target action path
      | None \<Rightarrow>
      if ty = ''set_event_action'' then exec_event_action lib action path
      else if ty = ''set_trace_level''
      then exec_level ''trace_level'' TRACE_LEVELS ''trace level must be full, compact or disabled'' action path
      else if ty = ''set_alert_event_history''
      then exec_level ''alert_event_history'' ALERT_EVENT_HISTORY_LEVELS
             ''alert event history must be full, initial or disabled'' action path
      else if ty = ''set_label'' then exec_set_label lib action path
      else if ty = ''remove_label'' then exec_remove_label action path
      else if ty = ''set_custom_field'' then exec_set_custom_field lib action path
      else if ty = ''remove_custom_field'' then exec_remove_custom_field action path
      else (case map_of ROUTING_ACTIONS ty of
        Some (rt, id_key) \<Rightarrow> exec_routing rt id_key action path
      | None \<Rightarrow>
      (case map_of POLICY_ACTIONS ty of
        Some id_key \<Rightarrow> exec_policy id_key action path
      | None \<Rightarrow>
      if ty = ''set_grouping'' then execute_grouping lib action path
      else if ty = ''add_note'' then exec_add_note lib action path
      else if ty = ''enqueue_webhook'' then exec_webhook action path
      else if ty = ''suppress'' then exec_suppress lib action path
      else if ty = ''pause'' then exec_pause lib action path
      else if ty = ''drop'' then exec_drop lib action path
      else st_lift (raise_at ActionValidationError (''unsupported action '' @ repr_str ty) (path @ ''.type'')))))"

record action_step =
  as_index :: nat
  as_type :: string
  as_success :: bool
  as_code :: string
  as_reason :: string
  as_before :: "py option"
  as_after :: "py option"
  as_references :: "string list"
  as_failure_mode :: string
  as_outcome :: string

definition failure_mode_of :: "pydict \<Rightarrow> string" where
  "failure_mode_of action = py_str (dget_default action ''on_failure'' (PStr ''continue''))"

text \<open>
  One iteration of the loop of \<open>execute_actions\<close>: the step of the trace, whose outcome
  says how to go on, and the state afterwards; or the exception that escapes.
\<close>

definition extraction_action :: "py_lib \<Rightarrow> pydict \<Rightarrow> nat \<Rightarrow> event_action_state \<Rightarrow> (action_step \<times> event_action_state) result" where
  "extraction_action lib action i s =
     (case state_context s of
        (Inl e, s1) \<Rightarrow> Inl e
      | (Inr ctx, s1) \<Rightarrow>
          res_bind (extract_variables lib [PDict action] ctx (PDict (ea_variables s1))) (\<lambda>extraction.
            let est = hd (er_steps extraction) in
            Inr (\<lparr>as_index = i, as_type = py_str (dget action ''type''), as_success = es_success est,
                  as_code = es_code est, as_reason = es_reason est, as_before = Some PNone,
                  as_after = Some (PDict (es_variables est)), as_references = [],
                  as_failure_mode = es_failure_mode est, as_outcome = er_outcome extraction\<rparr>,
                 s1\<lparr>ea_variables := er_variables extraction\<rparr>)))"

definition plain_action :: "py_lib \<Rightarrow> pydict \<Rightarrow> nat \<Rightarrow> event_action_state \<Rightarrow> (action_step \<times> event_action_state) result" where
  "plain_action lib action i s =
     (let ty = py_str (dget action ''type''); mode = failure_mode_of action in
      case execute_action lib action (''actions['' @ nat_str i @ '']'') s of
        (Inr (before, after, refs, outcome), s') \<Rightarrow>
          Inr (\<lparr>as_index = i, as_type = ty, as_success = True, as_code = ''action_applied'',
                as_reason = ''action applied'', as_before = before, as_after = after,
                as_references = refs, as_failure_mode = mode, as_outcome = outcome\<rparr>, s')
      | (Inl e, s') \<Rightarrow>
          if is_value_error (exn_cls e)
          then Inr (\<lparr>as_index = i, as_type = ty, as_success = False,
                     as_code = error_code ''action_failed'' (exn_cls e), as_reason = exn_msg e,
                     as_before = Some PNone, as_after = Some PNone, as_references = [],
                     as_failure_mode = mode, as_outcome = mode\<rparr>, s')
          else Inl e)"

definition action_iteration :: "py_lib \<Rightarrow> pydict \<Rightarrow> nat \<Rightarrow> event_action_state \<Rightarrow> (action_step \<times> event_action_state) result" where
  "action_iteration lib action i s =
     (if py_str (dget action ''type'') \<in> set EXTRACTION_TYPES then extraction_action lib action i s
      else plain_action lib action i s)"

fun action_loop :: "py_lib \<Rightarrow> nat \<Rightarrow> pydict list \<Rightarrow> event_action_state \<Rightarrow> action_step list
    \<Rightarrow> (event_action_state \<times> action_step list \<times> string) result" where
  "action_loop lib i [] s steps = Inr (s, steps, ''continue'')"
| "action_loop lib i (action # rest) s steps =
     res_bind (action_iteration lib action i s) (\<lambda>(astep, s').
       if as_outcome astep \<in> {''stop_rule'', ''stop_orchestration''}
       then Inr (s', steps @ [astep], as_outcome astep)
       else action_loop lib (Suc i) rest s' (steps @ [astep]))"

definition execute_actions :: "py_lib \<Rightarrow> py list \<Rightarrow> event_action_state
    \<Rightarrow> (event_action_state \<times> action_step list \<times> string) result" where
  "execute_actions lib actions s =
     res_bind (validate_action_list lib (PList actions) ''actions'') (\<lambda>issues.
       case issues of
         first # _ \<Rightarrow> raise_at ActionValidationError (vi_message first) (vi_path first)
       | [] \<Rightarrow> action_loop lib 0 (map items actions) s [])"

end
