(* ===== verification/Orch_Actions_Correct.thy ===== *)
theory Orch_Actions_Correct
  imports Orch_Actions
begin

text \<open>
  Correctness of the actions of Event Orchestration: what each operation keeps of the
  state, consistency of the disposition, atomicity of failed actions, bounds on labels and
  totality of validated action lists.
\<close>

section \<open>Reasoning about operations on the state\<close>

text \<open>An observation of the state that an operation does not change, whatever its result.\<close>

definition keeps :: "(event_action_state \<Rightarrow> 'b) \<Rightarrow> 'a step \<Rightarrow> bool" where
  "keeps f m \<longleftrightarrow> (\<forall>s. f (snd (m s)) = f s)"

named_theorems keeps

lemma keeps_bind [keeps]: "keeps f m \<Longrightarrow> (\<And>x. keeps f (g x)) \<Longrightarrow> keeps f (st_bind m g)"
  by (auto simp: keeps_def st_bind_def split: prod.splits sum.splits) (metis snd_conv)+

lemma keeps_lift [keeps, simp]: "keeps f (st_lift r)"
  by (simp add: keeps_def st_lift_def)

lemma keeps_gets [keeps, simp]: "keeps f (st_gets g)"
  by (simp add: keeps_def st_gets_def)

lemma keeps_if [keeps]: "(b \<Longrightarrow> keeps f m) \<Longrightarrow> (\<not> b \<Longrightarrow> keeps f n) \<Longrightarrow> keeps f (if b then m else n)"
  by simp

lemma keeps_prod [keeps]: "(\<And>x y. p = (x, y) \<Longrightarrow> keeps f (m x y)) \<Longrightarrow> keeps f (case p of (x, y) \<Rightarrow> m x y)"
  by (cases p) simp

lemma keeps_Let [keeps]: "keeps f (m v) \<Longrightarrow> keeps f (let x = v in m x)"
  by simp

text \<open>Reading the context of the state may create its labels and changes nothing else.\<close>

lemma keeps_state_context [keeps]: "keeps f state_labels \<Longrightarrow> keeps f state_context"
  unfolding state_context_def by (intro keeps)

lemma keeps_resolve_value [keeps]: "keeps f state_labels \<Longrightarrow> keeps f (resolve_value lib action path)"
  unfolding resolve_value_def Let_def
  by (simp only: split: list.split) (intro conjI allI impI keeps)

lemma keeps_render_if_template [keeps]: "keeps f state_labels \<Longrightarrow> keeps f (render_if_template lib v)"
  unfolding render_if_template_def by (intro keeps)

lemma keeps_disposition_reason [keeps]: "keeps f state_labels \<Longrightarrow> keeps f (disposition_reason lib action path)"
  unfolding disposition_reason_def Let_def by (intro keeps)

subsection \<open>The disposition\<close>

definition core_keys :: "string list" where
  "core_keys = [''disposition'', ''dropped'', ''suppress_notifications'', ''pause_seconds'']"

definition core :: "event_action_state \<Rightarrow> py list" where
  "core s = map (dget (ea_result s)) core_keys"

lemma core_event [keeps]: "keeps core (set_event k v)"
  by (simp add: keeps_def set_event_def st_modify_def core_def)

lemma core_set_result: "k \<notin> set core_keys \<Longrightarrow> keeps core (set_result k v)"
  by (auto simp: keeps_def set_result_def st_modify_def core_def)

lemma core_default_result:
  "k \<notin> set core_keys \<Longrightarrow> keeps core (st_modify (\<lambda>s. s\<lparr>ea_result := dsetdefault (ea_result s) k v\<rparr>))"
  by (auto simp: keeps_def st_modify_def core_def)

lemma core_default_event [keeps]: "keeps core (st_modify (\<lambda>s. s\<lparr>ea_event := dsetdefault (ea_event s) k v\<rparr>))"
  by (auto simp: keeps_def st_modify_def core_def)

lemma core_put_root [keeps]: "keeps core (st_modify (put_root rt d))"
  by (auto simp: keeps_def st_modify_def core_def put_root_def split: entity_root.split)

lemma core_result_section: "k \<notin> set core_keys \<Longrightarrow> keeps core (result_section k)"
  unfolding result_section_def by (intro keeps core_default_result)

lemma core_result_list: "k \<notin> set core_keys \<Longrightarrow> keeps core (result_list k)"
  unfolding result_list_def by (intro keeps core_default_result)

lemma core_set_section: "k \<notin> set core_keys \<Longrightarrow> keeps core (set_section k k' v)"
  unfolding set_section_def by (intro keeps core_result_section core_set_result)

lemmas core_keeps = core_set_result core_default_result core_result_section core_result_list core_set_section

lemma core_state_labels [keeps]: "keeps core state_labels"
  unfolding state_labels_def by (intro keeps) (simp split: py.split)

lemma core_custom_details [keeps]: "keeps core custom_details"
  unfolding custom_details_def by (intro keeps) (simp split: py.split)

lemma core_grouping_texts [keeps]: "keeps core (grouping_texts lib action path refs keys)"
proof (induction keys arbitrary: refs)
  case (Cons key keys)
  have "''grouping'' \<notin> set core_keys" by code_simp
  then show ?case
    by (simp only: grouping_texts.simps) (intro keeps core_keeps Cons.IH)
qed simp

lemma core_grouping_window [keeps]: "keeps core (grouping_window action key limit message path)"
proof -
  have "''grouping'' \<notin> set core_keys" by code_simp
  then show ?thesis
    unfolding grouping_window_def by (intro keeps core_keeps)
qed

lemma not_core:
  "''grouping'' \<notin> set core_keys" "''routing'' \<notin> set core_keys" "''policies'' \<notin> set core_keys"
  "''notes'' \<notin> set core_keys" "''webhooks'' \<notin> set core_keys" "''trace_level'' \<notin> set core_keys"
  "''alert_event_history'' \<notin> set core_keys" "''suppress_reason'' \<notin> set core_keys"
  "''pause_reason'' \<notin> set core_keys" "''drop_reason'' \<notin> set core_keys" "''pause_retrigger'' \<notin> set core_keys"
  by code_simp+

lemma core_exec:
  "keeps core (exec_text_field lib target action path)"
  "keeps core (exec_event_action lib action path)"
  "keeps core (exec_level ''trace_level'' levels msg action path)"
  "keeps core (exec_level ''alert_event_history'' levels msg action path)"
  "keeps core (exec_set_label lib action path)"
  "keeps core (exec_remove_label action path)"
  "keeps core (exec_set_custom_field lib action path)"
  "keeps core (exec_remove_custom_field action path)"
  "keeps core (exec_routing rt id_key action path)"
  "keeps core (exec_policy id_key action path)"
  "keeps core (execute_grouping lib action path)"
  "keeps core (exec_add_note lib action path)"
  "keeps core (exec_webhook action path)"
  unfolding exec_text_field_def exec_event_action_def exec_level_def exec_set_label_def exec_remove_label_def
    exec_set_custom_field_def exec_remove_custom_field_def exec_routing_def exec_policy_def
    execute_grouping_def exec_add_note_def exec_webhook_def
  by (intro keeps core_keeps not_core)+

text \<open>What the disposition and the fields next to it must say of each other.\<close>

definition disposition_ok :: "event_action_state \<Rightarrow> bool" where
  "disposition_ok s \<longleftrightarrow>
     (let r = ea_result s; d = dget r ''disposition'' in
      d \<in> PStr ` set PROCESS_DISPOSITIONS \<and>
      (d = PStr ''suppress'' \<longrightarrow> dget r ''suppress_notifications'' = PBool True) \<and>
      (d = PStr ''pause'' \<longrightarrow> int_between 1 MAX_PAUSE_SECONDS (dget r ''pause_seconds'')) \<and>
      (d = PStr ''drop'' \<longrightarrow> dget r ''suppress_notifications'' = PBool True) \<and>
      (d = PStr ''drop'' \<longleftrightarrow> truthy (dget r ''dropped'')))"

definition event_dropped :: "event_action_state \<Rightarrow> bool" where
  "event_dropped s \<longleftrightarrow> dget (ea_result s) ''disposition'' = PStr ''drop''"

definition running :: "event_action_state \<Rightarrow> bool" where
  "running s \<longleftrightarrow> disposition_ok s \<and> \<not> event_dropped s"

lemma running_core: "core s = core s' \<Longrightarrow> running s \<Longrightarrow> running s'"
  by (simp add: core_def core_keys_def running_def disposition_ok_def event_dropped_def)

lemma keeps_running: "keeps core m \<Longrightarrow> running s \<Longrightarrow> running (snd (m s))"
  using running_core by (metis keeps_def)

subsection \<open>Actions and the disposition\<close>

lemma st_bind_Inr:
  "st_bind m f s = (Inr y, s'') \<longleftrightarrow> (\<exists>x s'. m s = (Inr x, s') \<and> f x s' = (Inr y, s''))"
  by (auto simp: st_bind_def split: prod.splits sum.splits)

lemma st_bind_Inl:
  "st_bind m f s = (Inl e, s'') \<longleftrightarrow>
     m s = (Inl e, s'') \<or> (\<exists>x s'. m s = (Inr x, s') \<and> f x s' = (Inl e, s''))"
  by (auto simp: st_bind_def split: prod.splits sum.splits)

lemma st_lift_eq [simp]: "st_lift r s = (r', s') \<longleftrightarrow> r' = r \<and> s' = s"
  by (auto simp: st_lift_def)

lemma st_gets_eq [simp]: "st_gets f s = (r, s') \<longleftrightarrow> r = Inr (f s) \<and> s' = s"
  by (auto simp: st_gets_def)

lemma set_result_eq [simp]:
  "set_result k v s = (r, s') \<longleftrightarrow> r = Inr () \<and> s' = s\<lparr>ea_result := dset (ea_result s) k v\<rparr>"
  by (auto simp: set_result_def st_modify_def)

lemma keeps_core_run: "keeps core m \<Longrightarrow> m s = (r, s') \<Longrightarrow> core s' = core s"
  by (metis keeps_def snd_conv)

text \<open>\<open>suppress\<close>, \<open>pause\<close> and \<open>drop\<close>: on success only the fields of the disposition differ.\<close>

lemma core_eq:
  "core s = core s' \<longleftrightarrow>
     dget (ea_result s) ''disposition'' = dget (ea_result s') ''disposition'' \<and>
     dget (ea_result s) ''dropped'' = dget (ea_result s') ''dropped'' \<and>
     dget (ea_result s) ''suppress_notifications'' = dget (ea_result s') ''suppress_notifications'' \<and>
     dget (ea_result s) ''pause_seconds'' = dget (ea_result s') ''pause_seconds''"
  by (simp add: core_def core_keys_def)

lemma exec_suppress_cases:
  assumes "exec_suppress lib action path s = (r, s')"
  shows "(\<exists>e. r = Inl e \<and> core s' = core s) \<or>
     (\<exists>b a refs. r = Inr (b, a, refs, ''continue'') \<and>
        core s' = [PStr ''suppress'', dget (ea_result s) ''dropped'', PBool True, dget (ea_result s) ''pause_seconds''])"
proof (cases "disposition_reason lib action path s")
  case (Pair r1 s1)
  then have "core s1 = core s"
    by (rule keeps_core_run [OF keeps_disposition_reason [OF core_state_labels]])
  with Pair assms show ?thesis
    by (cases r1) (auto simp: exec_suppress_def st_bind_def st_gets_def st_lift_def set_result_def st_modify_def
        core_def core_keys_def)
qed

lemma exec_drop_cases:
  assumes "exec_drop lib action path s = (r, s')"
  shows "(\<exists>e. r = Inl e \<and> core s' = core s) \<or>
     (\<exists>b a refs. r = Inr (b, a, refs, ''stop_orchestration'') \<and>
        core s' = [PStr ''drop'', PBool True, PBool True, dget (ea_result s) ''pause_seconds''])"
proof (cases "disposition_reason lib action path s")
  case (Pair r1 s1)
  then have "core s1 = core s"
    by (rule keeps_core_run [OF keeps_disposition_reason [OF core_state_labels]])
  with Pair assms show ?thesis
    by (cases r1) (auto simp: exec_drop_def st_bind_def st_gets_def st_lift_def set_result_def st_modify_def
        core_def core_keys_def)
qed

lemma exec_pause_cases:
  assumes "exec_pause lib action path s = (r, s')"
  shows "(\<exists>e. r = Inl e \<and> core s' = core s) \<or>
     (\<exists>b a refs n. r = Inr (b, a, refs, ''continue'') \<and> int_between 1 MAX_PAUSE_SECONDS n \<and>
        core s' = [PStr ''pause'', dget (ea_result s) ''dropped'', dget (ea_result s) ''suppress_notifications'', n])"
proof (cases "disposition_reason lib action path s")
  case (Pair r1 s1)
  then have "core s1 = core s"
    by (rule keeps_core_run [OF keeps_disposition_reason [OF core_state_labels]])
  with Pair assms show ?thesis
    by (cases r1; cases "in_frozenset (dget_default action ''retrigger'' (PStr ''preserve'')) [''preserve'', ''reset'']")
       (auto simp: exec_pause_def Let_def st_bind_def st_gets_def st_lift_def set_result_def st_modify_def
        core_def core_keys_def raise_at_def split: if_splits)
qed

lemma running_core_values:
  assumes "running s" and "core s' = [d, dget (ea_result s) ''dropped'', n, p]"
    and "d = PStr ''suppress'' \<and> n = PBool True \<or> d = PStr ''pause'' \<and> int_between 1 MAX_PAUSE_SECONDS p"
  shows "running s'"
  using assms
  by (auto simp: running_def disposition_ok_def event_dropped_def core_def core_keys_def PROCESS_DISPOSITIONS_def Let_def)

text \<open>Operations whose success lets the orchestration continue.\<close>

definition continues :: "action_output step \<Rightarrow> bool" where
  "continues m \<longleftrightarrow> (\<forall>s s' b a refs out. m s = (Inr (b, a, refs, out), s') \<longrightarrow> out = ''continue'')"

named_theorems continues

lemma continues_bind [continues]: "(\<And>x. continues (g x)) \<Longrightarrow> continues (st_bind m g)"
  by (fastforce simp: continues_def st_bind_Inr)

lemma continues_lift [continues]:
  "continues (st_lift (Inr (b, a, refs, ''continue'')))" "continues (st_lift (raise_at c msg p))"
  by (auto simp: continues_def raise_at_def)

lemma continues_if [continues]: "(b \<Longrightarrow> continues m) \<Longrightarrow> (\<not> b \<Longrightarrow> continues n) \<Longrightarrow> continues (if b then m else n)"
  by simp

lemma continues_prod [continues]: "(\<And>x y. p = (x, y) \<Longrightarrow> continues (m x y)) \<Longrightarrow> continues (case p of (x, y) \<Rightarrow> m x y)"
  by (cases p) simp

lemma continues_Let [continues]: "continues (m v) \<Longrightarrow> continues (let x = v in m x)"
  by simp

lemma continues_exec:
  "continues (exec_text_field lib target action path)"
  "continues (exec_event_action lib action path)"
  "continues (exec_level key levels msg action path)"
  "continues (exec_set_label lib action path)"
  "continues (exec_remove_label action path)"
  "continues (exec_set_custom_field lib action path)"
  "continues (exec_remove_custom_field action path)"
  "continues (exec_routing rt id_key action path)"
  "continues (exec_policy id_key action path)"
  "continues (execute_grouping lib action path)"
  "continues (exec_add_note lib action path)"
  "continues (exec_webhook action path)"
  unfolding exec_text_field_def exec_event_action_def exec_level_def exec_set_label_def exec_remove_label_def
    exec_set_custom_field_def exec_remove_custom_field_def exec_routing_def exec_policy_def
    execute_grouping_def exec_add_note_def exec_webhook_def
  by (intro continues)+

text \<open>
  An action keeps the disposition consistent; it marks the event as dropped only with the
  outcome that stops the orchestration.
\<close>

definition consistent :: "action_output step \<Rightarrow> bool" where
  "consistent m \<longleftrightarrow> (\<forall>s r s'. running s \<longrightarrow> m s = (r, s') \<longrightarrow>
     running s' \<and> (\<forall>b a refs out. r = Inr (b, a, refs, out) \<longrightarrow> out = ''continue'') \<or>
     disposition_ok s' \<and> event_dropped s' \<and> (\<exists>b a refs. r = Inr (b, a, refs, ''stop_orchestration'')))"

named_theorems consistent

lemma consistent_plain: "keeps core m \<Longrightarrow> continues m \<Longrightarrow> consistent m"
  unfolding consistent_def continues_def by (metis keeps_running snd_conv)

lemma consistent_if [consistent]: "(b \<Longrightarrow> consistent m) \<Longrightarrow> (\<not> b \<Longrightarrow> consistent n) \<Longrightarrow> consistent (if b then m else n)"
  by simp

lemma consistent_option [consistent]:
  "(x = None \<Longrightarrow> consistent m) \<Longrightarrow> (\<And>y. x = Some y \<Longrightarrow> consistent (f y)) \<Longrightarrow>
     consistent (case x of None \<Rightarrow> m | Some y \<Rightarrow> f y)"
  by (cases x) auto

lemma consistent_prod [consistent]: "(\<And>x y. p = (x, y) \<Longrightarrow> consistent (m x y)) \<Longrightarrow> consistent (case p of (x, y) \<Rightarrow> m x y)"
  by (cases p) simp

lemmas consistent_exec [consistent] =
  consistent_plain [OF core_exec(1) continues_exec(1)] consistent_plain [OF core_exec(2) continues_exec(2)]
  consistent_plain [OF core_exec(3) continues_exec(3)] consistent_plain [OF core_exec(4) continues_exec(3)]
  consistent_plain [OF core_exec(5) continues_exec(4)] consistent_plain [OF core_exec(6) continues_exec(5)]
  consistent_plain [OF core_exec(7) continues_exec(6)] consistent_plain [OF core_exec(8) continues_exec(7)]
  consistent_plain [OF core_exec(9) continues_exec(8)] consistent_plain [OF core_exec(10) continues_exec(9)]
  consistent_plain [OF core_exec(11) continues_exec(10)] consistent_plain [OF core_exec(12) continues_exec(11)]
  consistent_plain [OF core_exec(13) continues_exec(12)]
  consistent_plain [OF keeps_lift continues_lift(2)]

lemma consistent_suppress [consistent]: "consistent (exec_suppress lib action path)"
  unfolding consistent_def
proof (intro allI impI)
  fix s r s' assume "running s" and "exec_suppress lib action path s = (r, s')"
  with exec_suppress_cases [OF this(2)] show "running s' \<and> (\<forall>b a refs out. r = Inr (b, a, refs, out) \<longrightarrow> out = ''continue'') \<or>
     disposition_ok s' \<and> event_dropped s' \<and> (\<exists>b a refs. r = Inr (b, a, refs, ''stop_orchestration''))"
    using running_core [of s s'] running_core_values [of s s'] by auto
qed

lemma consistent_pause [consistent]: "consistent (exec_pause lib action path)"
  unfolding consistent_def
proof (intro allI impI)
  fix s r s' assume "running s" and "exec_pause lib action path s = (r, s')"
  with exec_pause_cases [OF this(2)] show "running s' \<and> (\<forall>b a refs out. r = Inr (b, a, refs, out) \<longrightarrow> out = ''continue'') \<or>
     disposition_ok s' \<and> event_dropped s' \<and> (\<exists>b a refs. r = Inr (b, a, refs, ''stop_orchestration''))"
    using running_core [of s s'] running_core_values [of s s'] by auto
qed

lemma consistent_drop [consistent]: "consistent (exec_drop lib action path)"
  unfolding consistent_def
proof (intro allI impI)
  fix s r s' assume "running s" and "exec_drop lib action path s = (r, s')"
  with exec_drop_cases [OF this(2)] show "running s' \<and> (\<forall>b a refs out. r = Inr (b, a, refs, out) \<longrightarrow> out = ''continue'') \<or>
     disposition_ok s' \<and> event_dropped s' \<and> (\<exists>b a refs. r = Inr (b, a, refs, ''stop_orchestration''))"
    using running_core [of s s']
    by (auto simp: disposition_ok_def event_dropped_def core_def core_keys_def PROCESS_DISPOSITIONS_def)
qed

lemma execute_action_consistent: "consistent (execute_action lib action path)"
  unfolding execute_action_def Let_def by (intro consistent)

subsection \<open>The loop\<close>

definition action_halts :: "action_step \<Rightarrow> bool" where
  "action_halts t \<longleftrightarrow> as_outcome t \<in> {''stop_rule'', ''stop_orchestration''}"

interpretation action_steps: stopping_loop
  "\<lambda>i action s. action_iteration lib action i s" action_halts
  "\<lambda>i actions s steps. res_bind (action_loop lib i actions s steps) (\<lambda>(s', steps', out). Inr (s', steps'))"
  for lib
proof unfold_locales
  fix i x xs s ts
  show "res_bind (action_loop lib i (x # xs) s ts) (\<lambda>(s', steps', out). Inr (s', steps')) =
     res_bind (action_iteration lib x i s)
       (\<lambda>(t, s'). if action_halts t then Inr (s', ts @ [t])
          else res_bind (action_loop lib (Suc i) xs s' (ts @ [t])) (\<lambda>(s', steps', out). Inr (s', steps')))"
    by (cases "action_iteration lib x i s") (auto simp: action_halts_def)
qed simp

lemma action_loop_outcome:
  "action_loop lib i xs s steps = Inr (s', steps', out) \<Longrightarrow>
     \<exists>more. steps' = steps @ more \<and> list_all (\<lambda>t. \<not> action_halts t) (butlast more) \<and>
      (out = ''continue'' \<and> length more = length xs \<and> list_all (\<lambda>t. \<not> action_halts t) more \<or>
       more \<noteq> [] \<and> action_halts (last more) \<and> out = as_outcome (last more))"
proof (induction xs arbitrary: i s steps)
  case (Cons x xs)
  from Cons.prems obtain t s1 where it: "action_iteration lib x i s = Inr (t, s1)"
    by (auto simp: res_bind_Inr_iff split: prod.splits)
  show ?case
  proof (cases "action_halts t")
    case True
    with Cons.prems it show ?thesis
      by (intro exI [of _ "[t]"]) (auto simp: action_halts_def)
  next
    case False
    with Cons.prems it have "action_loop lib (Suc i) xs s1 (steps @ [t]) = Inr (s', steps', out)"
      by (auto simp: action_halts_def)
    from Cons.IH [OF this] obtain more where "steps' = (steps @ [t]) @ more"
      "list_all (\<lambda>t. \<not> action_halts t) (butlast more)"
      "out = ''continue'' \<and> length more = length xs \<and> list_all (\<lambda>t. \<not> action_halts t) more \<or>
       more \<noteq> [] \<and> action_halts (last more) \<and> out = as_outcome (last more)"
      by blast
    with False show ?thesis
      by (intro exI [of _ "t # more"]) auto
  qed
qed auto

interpretation actions_entry: validated_entry
  "\<lambda>(actions, s). validate_action_list lib (PList actions) ''actions''"
  "\<lambda>(actions, s). execute_actions lib actions s" ActionValidationError
  for lib
  by unfold_locales (auto simp: execute_actions_def)

lemma execute_actions_loop:
  assumes "execute_actions lib actions s = Inr (s', steps, out)"
  shows "action_loop lib 0 (map items actions) s [] = Inr (s', steps, out)"
    and "validate_action_list lib (PList actions) ''actions'' = Inr []"
proof -
  show v: "validate_action_list lib (PList actions) ''actions'' = Inr []"
    using actions_entry.run_ok_validated [of lib "(actions, s)"] assms by simp
  show "action_loop lib 0 (map items actions) s [] = Inr (s', steps, out)"
    using assms v by (simp add: execute_actions_def)
qed

lemma extraction_action_core: "extraction_action lib action i s = Inr (t, s') \<Longrightarrow> core s' = core s"
  using keeps_core_run [OF keeps_state_context [OF core_state_labels], of s]
  by (auto simp: extraction_action_def res_bind_Inr_iff Let_def core_def split: prod.splits sum.splits)

lemma action_iteration_running:
  assumes "running s" and "action_iteration lib action i s = Inr (t, s')"
  shows "running s' \<or> disposition_ok s' \<and> event_dropped s' \<and> as_outcome t = ''stop_orchestration''"
proof (cases "py_str (dget action ''type'') \<in> set EXTRACTION_TYPES")
  case True
  then show ?thesis
    using assms extraction_action_core [of lib action i s t s'] running_core [of s s']
    by (simp add: action_iteration_def)
next
  case False
  obtain r s1 where ex: "execute_action lib action (''actions['' @ nat_str i @ '']'') s = (r, s1)"
    by (cases "execute_action lib action (''actions['' @ nat_str i @ '']'') s")
  then have c: "running s1 \<and> (\<forall>b a refs out. r = Inr (b, a, refs, out) \<longrightarrow> out = ''continue'') \<or>
     disposition_ok s1 \<and> event_dropped s1 \<and> (\<exists>b a refs. r = Inr (b, a, refs, ''stop_orchestration''))"
    using execute_action_consistent assms(1) by (auto simp: consistent_def)
  have "s' = s1" and "\<And>b a refs out. r = Inr (b, a, refs, out) \<Longrightarrow> as_outcome t = out"
    using False assms(2) ex
    by (auto simp: action_iteration_def plain_action_def Let_def split: sum.splits if_splits)
  with c show ?thesis by blast
qed

lemma action_loop_running:
  assumes "running s" and "action_loop lib i xs s steps = Inr (s', steps', out)"
  shows "running s' \<or> disposition_ok s' \<and> event_dropped s' \<and> steps' \<noteq> [] \<and> as_outcome (last steps') = ''stop_orchestration''"
proof -
  have "running s' \<or> (running s' \<or> disposition_ok s' \<and> event_dropped s' \<and> as_outcome (last steps') = ''stop_orchestration'')
      \<and> steps' \<noteq> [] \<and> action_halts (last steps')"
  proof (rule action_steps.loop_inv [where I = running and s = s and i = i and xs = xs and ts = steps and lib = lib
        and J = "\<lambda>t s. running s \<or> disposition_ok s \<and> event_dropped s \<and> as_outcome t = ''stop_orchestration''"])
    fix j x u t u'
    assume "running u" and it: "action_iteration lib x j u = Inr (t, u')"
    from action_iteration_running [OF this]
    show "running u' \<and> \<not> action_halts t \<or>
        (running u' \<or> disposition_ok u' \<and> event_dropped u' \<and> as_outcome t = ''stop_orchestration'') \<and> action_halts t"
      by (auto simp: action_halts_def)
  qed (use assms in simp_all)
  then show ?thesis by auto
qed

section \<open>Failed actions\<close>

text \<open>
  A state that \<open>from_context\<close> has built: the labels and the sections of the result exist,
  so reading them creates nothing.
\<close>

definition settled :: "event_action_state \<Rightarrow> bool" where
  "settled s \<longleftrightarrow> dmem (ea_event s) ''labels'' \<and>
     list_all (dmem (ea_result s)) [''routing'', ''policies'', ''grouping'', ''notes'', ''webhooks'']"

definition silent :: "'a step \<Rightarrow> bool" where
  "silent m \<longleftrightarrow> (\<forall>s. settled s \<longrightarrow> snd (m s) = s)"

definition infallible :: "'a step \<Rightarrow> bool" where
  "infallible m \<longleftrightarrow> (\<forall>s. is_ok (fst (m s)))"

text \<open>An operation that raises only in the state it started from.\<close>

definition atomic :: "'a step \<Rightarrow> bool" where
  "atomic m \<longleftrightarrow> (\<forall>s e s'. settled s \<longrightarrow> m s = (Inl e, s') \<longrightarrow> s' = s)"

named_theorems silent
named_theorems infallible
named_theorems atomic

lemma silent_bind [silent]: "silent m \<Longrightarrow> (\<And>x. silent (g x)) \<Longrightarrow> silent (st_bind m g)"
  by (auto simp: silent_def st_bind_def split: prod.splits sum.splits)

lemma silent_base [silent]: "silent (st_lift r)" "silent (st_gets g)"
  by (simp_all add: silent_def st_lift_def st_gets_def)

lemma silent_if [silent]: "(b \<Longrightarrow> silent m) \<Longrightarrow> (\<not> b \<Longrightarrow> silent n) \<Longrightarrow> silent (if b then m else n)"
  by simp

lemma silent_prod [silent]: "(\<And>x y. p = (x, y) \<Longrightarrow> silent (m x y)) \<Longrightarrow> silent (case p of (x, y) \<Rightarrow> m x y)"
  by (cases p) simp

lemma dsetdefault_present: "dmem d k \<Longrightarrow> dsetdefault d k v = d"
  by (auto simp: dsetdefault_def dmem_def split: option.splits)

lemma silent_state_labels [silent]: "silent state_labels"
proof -
  have "snd (st_modify (\<lambda>s. s\<lparr>ea_event := dsetdefault (ea_event s) ''labels'' (PDict [])\<rparr>) s) = s" if "settled s" for s
    using that by (simp add: st_modify_def settled_def dsetdefault_present)
  then have "silent (st_modify (\<lambda>s. s\<lparr>ea_event := dsetdefault (ea_event s) ''labels'' (PDict [])\<rparr>))"
    by (simp add: silent_def)
  then show ?thesis
    unfolding state_labels_def by (intro silent) (simp_all add: silent split: py.split)
qed

lemma silent_state_context [silent]: "silent state_context"
  unfolding state_context_def by (intro silent)

lemma silent_resolve_value [silent]: "silent (resolve_value lib action path)"
  unfolding resolve_value_def Let_def
  by (simp only: split: list.split) (intro conjI allI impI silent)

lemma silent_render_if_template [silent]: "silent (render_if_template lib v)"
  unfolding render_if_template_def by (intro silent)

lemma silent_disposition_reason [silent]: "silent (disposition_reason lib action path)"
  unfolding disposition_reason_def Let_def by (intro silent)

lemma silent_result_default:
  "k \<in> {''routing'', ''policies'', ''grouping'', ''notes'', ''webhooks''} \<Longrightarrow>
     silent (st_modify (\<lambda>s. s\<lparr>ea_result := dsetdefault (ea_result s) k v\<rparr>))"
  by (auto simp: silent_def st_modify_def settled_def dsetdefault_present)

lemma silent_sections [silent]:
  "silent (result_section ''policies'')" "silent (result_list ''notes'')" "silent (result_list ''webhooks'')"
  unfolding result_section_def result_list_def
  by (rule silent_bind, rule silent_result_default, simp, rule silent_base(2))+

lemma infallible_bind [infallible]:
  "infallible m \<Longrightarrow> (\<And>x. infallible (g x)) \<Longrightarrow> infallible (st_bind m g)"
  by (auto simp: infallible_def st_bind_def split: prod.splits sum.splits) (metis fst_conv is_ok.simps(1))

lemma infallible_base [infallible]:
  "infallible (st_lift (Inr x))" "infallible (st_gets g)" "infallible (st_modify h)"
  "infallible (set_event k v)" "infallible (set_result k v)"
  by (simp_all add: infallible_def st_lift_def st_gets_def st_modify_def set_event_def set_result_def)

lemma infallible_set_section [infallible]: "infallible (set_section sec k v)"
  unfolding set_section_def result_section_def by (intro infallible)

lemma infallible_atomic: "infallible m \<Longrightarrow> atomic m"
  by (auto simp: infallible_def atomic_def) (metis fst_conv is_ok.simps(1))

lemma atomic_bind: "silent m \<Longrightarrow> (\<And>x. atomic (f x)) \<Longrightarrow> atomic (st_bind m f)"
  by (auto simp: silent_def atomic_def st_bind_Inl)

lemma atomic_lift [atomic]: "atomic (st_lift r)"
  by (simp add: atomic_def)

lemma atomic_if [atomic]: "(b \<Longrightarrow> atomic m) \<Longrightarrow> (\<not> b \<Longrightarrow> atomic n) \<Longrightarrow> atomic (if b then m else n)"
  by simp

lemma atomic_prod [atomic]: "(\<And>x y. p = (x, y) \<Longrightarrow> atomic (m x y)) \<Longrightarrow> atomic (case p of (x, y) \<Rightarrow> m x y)"
  by (cases p) simp

lemma atomic_Let [atomic]: "atomic (m v) \<Longrightarrow> atomic (let x = v in m x)"
  by simp

lemma atomic_option [atomic]:
  "(x = None \<Longrightarrow> atomic m) \<Longrightarrow> (\<And>y. x = Some y \<Longrightarrow> atomic (f y)) \<Longrightarrow> atomic (case x of None \<Rightarrow> m | Some y \<Rightarrow> f y)"
  by (cases x) auto

lemmas atomic_binds [atomic] =
  atomic_bind [OF silent_base(1)] atomic_bind [OF silent_base(2)] atomic_bind [OF silent_state_labels]
  atomic_bind [OF silent_resolve_value] atomic_bind [OF silent_disposition_reason]
  atomic_bind [OF silent_sections(1)] atomic_bind [OF silent_sections(2)] atomic_bind [OF silent_sections(3)]

lemma atomic_write [atomic]:
  "(\<And>x. infallible (f x)) \<Longrightarrow> atomic (st_bind (set_event k v) f)"
  "(\<And>x. infallible (f x)) \<Longrightarrow> atomic (st_bind (set_result k v) f)"
  "(\<And>x. infallible (f x)) \<Longrightarrow> atomic (st_bind (set_section k k' v) f)"
  "(\<And>x. infallible (f x)) \<Longrightarrow> atomic (st_bind (st_modify h) f)"
  by (intro infallible_atomic infallible; assumption)+

lemma atomic_exec:
  "atomic (exec_text_field lib target action path)"
  "atomic (exec_event_action lib action path)"
  "atomic (exec_level key levels msg action path)"
  "atomic (exec_set_label lib action path)"
  "atomic (exec_remove_label action path)"
  "atomic (exec_routing rt id_key action path)"
  "atomic (exec_policy id_key action path)"
  "atomic (exec_add_note lib action path)"
  "atomic (exec_webhook action path)"
  "atomic (exec_suppress lib action path)"
  "atomic (exec_pause lib action path)"
  "atomic (exec_drop lib action path)"
  unfolding exec_text_field_def exec_event_action_def exec_level_def exec_set_label_def exec_remove_label_def
    exec_routing_def exec_policy_def exec_add_note_def exec_webhook_def exec_suppress_def exec_pause_def
    exec_drop_def
  by (intro atomic infallible)+

definition with_details :: "event_action_state \<Rightarrow> event_action_state" where
  "with_details s = s\<lparr>ea_event := dsetdefault (ea_event s) ''custom_details'' (PDict [])\<rparr>"

lemma custom_details_state: "custom_details s = (r, s') \<Longrightarrow> s' = with_details s"
  by (auto simp: custom_details_def with_details_def st_bind_def st_modify_def st_gets_def st_lift_def split: py.splits)

lemma settled_with_details: "settled s \<Longrightarrow> settled (with_details s)"
  by (simp add: settled_def with_details_def)

lemma custom_field_failed:
  assumes "settled s" and "\<And>name d. atomic (g name d)"
    and "st_bind (st_lift v) (\<lambda>name. st_bind custom_details (g name)) s = (Inl e, s')"
  shows "s' = s \<or> s' = with_details s"
proof -
  consider "s' = s" | "custom_details s = (Inl e, s')"
    | name d s1 where "custom_details s = (Inr d, s1)" "g name d s1 = (Inl e, s')"
    using assms(3) by (auto simp: st_bind_Inl)
  then show ?thesis
  proof cases
    case 3
    then show ?thesis
      using assms(2) [of name d] settled_with_details [OF assms(1)] custom_details_state [OF 3(1)]
      by (auto simp: atomic_def)
  qed (auto dest: custom_details_state)
qed

text \<open>Types other than the two that write before they can fail.\<close>

lemma execute_action_atomic:
  assumes "py_str (dget action ''type'') \<notin> {''set_grouping'', ''set_custom_field'', ''remove_custom_field''}"
  shows "atomic (execute_action lib action path)"
proof -
  let ?ty = "py_str (dget action ''type'')"
  have n: "?ty \<noteq> ''set_grouping''" "?ty \<noteq> ''set_custom_field''" "?ty \<noteq> ''remove_custom_field''"
    using assms by auto
  show ?thesis
    unfolding execute_action_def Let_def by (intro atomic atomic_exec; erule notE [OF n(1)] notE [OF n(2)] notE [OF n(3)])
qed

lemma execute_action_custom:
  assumes "py_str (dget action ''type'') \<in> {''set_custom_field'', ''remove_custom_field''}" and "settled s"
    and "execute_action lib action path s = (Inl e, s')"
  shows "s' = s \<or> s' = with_details s"
proof -
  consider "exec_set_custom_field lib action path s = (Inl e, s')"
    | "exec_remove_custom_field action path s = (Inl e, s')"
    using assms(1,3) by (auto simp: execute_action_def TEXT_FIELD_ACTIONS_def)
  then show ?thesis
  proof cases
    case 1
    then show ?thesis
      unfolding exec_set_custom_field_def
      by (rule custom_field_failed [OF assms(2), rotated]) (intro atomic infallible)
  next
    case 2
    then show ?thesis
      unfolding exec_remove_custom_field_def
      by (rule custom_field_failed [OF assms(2), rotated]) (intro atomic infallible)
  qed
qed

section \<open>Labels\<close>

definition lab :: "event_action_state \<Rightarrow> py" where
  "lab s = dget_default (ea_event s) ''labels'' (PDict [])"

lemma dget_default_dset [simp]: "dget_default (dset d k v) k' w = (if k' = k then v else dget_default d k' w)"
  by (simp add: dget_default_def update_conv')

lemma dget_default_dsetdefault:
  "dget_default (dsetdefault d k v) k' w = (if k' = k \<and> \<not> dmem d k then v else dget_default d k' w)"
  by (auto simp: dget_default_def dsetdefault_def dmem_def update_conv' split: option.splits)

lemma dget_default_present: "dmem d k \<Longrightarrow> dget d k = dget_default d k w"
  by (auto simp: dget_def dget_default_def dmem_def split: option.splits)

lemma dget_default_absent: "\<not> dmem d k \<Longrightarrow> dget_default d k w = w"
  by (auto simp: dget_default_def dmem_def split: option.splits)

lemma lab_base [keeps]:
  "keeps lab (set_result k v)" "keeps lab (st_modify (put_root rt d))"
  "keeps lab (st_modify (\<lambda>s. s\<lparr>ea_result := dsetdefault (ea_result s) k v\<rparr>))"
  "keeps lab (st_modify (\<lambda>s. s\<lparr>ea_event := dsetdefault (ea_event s) ''labels'' (PDict [])\<rparr>))"
  "keeps lab (st_modify (\<lambda>s. s\<lparr>ea_event := dsetdefault (ea_event s) ''custom_details'' (PDict [])\<rparr>))"
  by (auto simp: keeps_def set_result_def st_modify_def lab_def put_root_def dget_default_dsetdefault
      dget_default_absent split: entity_root.split)

lemma lab_set_event: "k \<noteq> ''labels'' \<Longrightarrow> keeps lab (set_event k v)"
  by (simp add: keeps_def set_event_def st_modify_def lab_def)

lemma lab_state_labels [keeps]: "keeps lab state_labels"
  unfolding state_labels_def by (intro keeps) (simp split: py.split)

lemma lab_custom_details [keeps]: "keeps lab custom_details"
  unfolding custom_details_def by (intro keeps) (simp split: py.split)

lemma lab_sections [keeps]:
  "keeps lab (result_section k)" "keeps lab (result_list k)" "keeps lab (set_section k k' v)"
  unfolding set_section_def result_section_def result_list_def by (intro keeps)+

lemma lab_grouping_texts [keeps]: "keeps lab (grouping_texts lib action path refs keys)"
proof (induction keys arbitrary: refs)
  case (Cons key keys)
  show ?case
    by (simp only: grouping_texts.simps) (intro keeps Cons.IH lab_set_event; auto)
qed simp

lemma text_field_target: "map_of TEXT_FIELD_ACTIONS ty = Some target \<Longrightarrow> target \<noteq> ''labels''"
  by (drule map_of_SomeD) (auto simp: TEXT_FIELD_ACTIONS_def)

lemma lab_exec:
  "target \<noteq> ''labels'' \<Longrightarrow> keeps lab (exec_text_field lib target action path)"
  "keeps lab (exec_event_action lib action path)"
  "keeps lab (exec_level key levels msg action path)"
  "keeps lab (exec_set_custom_field lib action path)"
  "keeps lab (exec_remove_custom_field action path)"
  "keeps lab (exec_routing rt id_key action path)"
  "keeps lab (exec_policy id_key action path)"
  "keeps lab (execute_grouping lib action path)"
  "keeps lab (exec_add_note lib action path)"
  "keeps lab (exec_webhook action path)"
  "keeps lab (exec_suppress lib action path)"
  "keeps lab (exec_pause lib action path)"
  "keeps lab (exec_drop lib action path)"
  unfolding exec_text_field_def exec_event_action_def exec_level_def
    exec_set_custom_field_def exec_remove_custom_field_def exec_routing_def exec_policy_def
    execute_grouping_def grouping_window_def exec_add_note_def exec_webhook_def exec_suppress_def exec_pause_def exec_drop_def
  by (intro keeps lab_set_event; simp)+

text \<open>The number of labels stays within the limit of the code.\<close>

definition labels_ok :: "event_action_state \<Rightarrow> bool" where
  "labels_ok s = (case lab s of PDict l \<Rightarrow> length l \<le> MAX_LABELS | _ \<Rightarrow> True)"

definition keeps_labels_ok :: "'a step \<Rightarrow> bool" where
  "keeps_labels_ok m \<longleftrightarrow> (\<forall>s. labels_ok s \<longrightarrow> labels_ok (snd (m s)))"

named_theorems labels_ok

lemma keeps_lab [labels_ok]: "keeps lab m \<Longrightarrow> keeps_labels_ok m"
  by (simp add: keeps_labels_ok_def labels_ok_def keeps_def)

lemma state_labels_value: "state_labels s = (Inr l, s') \<Longrightarrow> lab s = PDict l"
  by (auto simp: state_labels_def lab_def st_bind_def st_modify_def st_gets_def st_lift_def dget_def
      dget_default_def dsetdefault_def dmem_def raise_at_def update_conv' split: py.splits option.splits if_splits)

lemma set_labels_ok: "length l \<le> MAX_LABELS \<Longrightarrow> labels_ok (snd (set_event ''labels'' (PDict l) s))"
  by (simp add: labels_ok_def set_event_def st_modify_def lab_def)

lemma exec_set_label_ok [labels_ok]: "keeps_labels_ok (exec_set_label lib action path)"
  unfolding keeps_labels_ok_def
proof (intro allI impI)
  fix s assume ok: "labels_ok s"
  obtain r s' where ex: "exec_set_label lib action path s = (r, s')"
    by (cases "exec_set_label lib action path s")
  show "labels_ok (snd (exec_set_label lib action path s))"
  proof (cases r)
    case (Inl e)
    have "lab s' = lab s"
    proof -
      consider "s' = s" | r1 where "state_labels s = (r1, s')"
        | r1 r2 s1 where "state_labels s = (r1, s1)" "resolve_value lib action path s1 = (r2, s')"
        using ex Inl
        by (auto simp: exec_set_label_def st_bind_Inl set_event_def st_modify_def split: if_splits prod.splits)
      then show ?thesis
        using lab_state_labels keeps_resolve_value [OF lab_state_labels, of lib action path]
        by cases (simp, (metis keeps_def snd_conv)+)
    qed
    with ok ex show ?thesis by (simp add: labels_ok_def)
  next
    case (Inr out)
    then obtain name labels s1 v refs s2 tx where "state_labels s = (Inr labels, s1)"
      and b: "dmem labels name \<or> length labels < MAX_LABELS"
      and "set_event ''labels'' (PDict (dset labels name (PStr tx))) s2 = (Inr (), s')"
      using ex by (auto simp: exec_set_label_def st_bind_Inr not_le split: if_splits prod.splits) blast+
    moreover from this(1) ok have "length labels \<le> MAX_LABELS"
      using state_labels_value by (auto simp: labels_ok_def)
    ultimately show ?thesis
      using ex set_labels_ok [of "dset labels name (PStr tx)" s2] by (auto simp: length_dset)
  qed
qed

lemma exec_remove_label_ok [labels_ok]: "keeps_labels_ok (exec_remove_label action path)"
  unfolding keeps_labels_ok_def
proof (intro allI impI)
  fix s assume ok: "labels_ok s"
  obtain r s' where ex: "exec_remove_label action path s = (r, s')"
    by (cases "exec_remove_label action path s")
  show "labels_ok (snd (exec_remove_label action path s))"
  proof (cases r)
    case (Inl e)
    then have "s' = s \<or> (\<exists>r1. state_labels s = (r1, s'))"
      using ex by (auto simp: exec_remove_label_def st_bind_Inl set_event_def st_modify_def)
    then have "lab s' = lab s"
      using lab_state_labels by (auto simp: keeps_def dest: arg_cong [where f = "\<lambda>p. lab (snd p)"])
    with ok ex show ?thesis by (simp add: labels_ok_def)
  next
    case (Inr out)
    then obtain name labels s1 where "state_labels s = (Inr labels, s1)"
      and "set_event ''labels'' (PDict (dpop labels name)) s1 = (Inr (), s')"
      using ex by (auto simp: exec_remove_label_def st_bind_Inr)
    moreover from this(1) ok have "length labels \<le> MAX_LABELS"
      using state_labels_value by (auto simp: labels_ok_def)
    moreover have "length (dpop labels name) \<le> length labels"
      by (simp add: length_delete_le)
    ultimately show ?thesis
      using ex set_labels_ok [of "dpop labels name" s1] by auto
  qed
qed

lemma labels_ok_if [labels_ok]:
  "(b \<Longrightarrow> keeps_labels_ok m) \<Longrightarrow> (\<not> b \<Longrightarrow> keeps_labels_ok n) \<Longrightarrow> keeps_labels_ok (if b then m else n)"
  by simp

lemma labels_ok_option [labels_ok]:
  "(x = None \<Longrightarrow> keeps_labels_ok m) \<Longrightarrow> (\<And>y. x = Some y \<Longrightarrow> keeps_labels_ok (f y)) \<Longrightarrow>
     keeps_labels_ok (case x of None \<Rightarrow> m | Some y \<Rightarrow> f y)"
  by (cases x) auto

lemma labels_ok_prod [labels_ok]:
  "(\<And>x y. p = (x, y) \<Longrightarrow> keeps_labels_ok (m x y)) \<Longrightarrow> keeps_labels_ok (case p of (x, y) \<Rightarrow> m x y)"
  by (cases p) simp

lemma execute_action_labels_ok: "keeps_labels_ok (execute_action lib action path)"
  unfolding execute_action_def Let_def
  by (intro labels_ok_if labels_ok_option labels_ok_prod exec_set_label_ok exec_remove_label_ok;
      intro keeps_lab lab_exec keeps; erule text_field_target)

lemma action_iteration_labels_ok:
  assumes "labels_ok s" and "action_iteration lib action i s = Inr (t, s')"
  shows "labels_ok s'"
proof (cases "py_str (dget action ''type'') \<in> set EXTRACTION_TYPES")
  case True
  have "lab (snd (state_context s)) = lab s"
    using keeps_state_context [OF lab_state_labels] by (simp add: keeps_def)
  with True assms show ?thesis
    by (auto simp: action_iteration_def extraction_action_def res_bind_Inr_iff Let_def labels_ok_def lab_def
        split: prod.splits sum.splits)
next
  case False
  have "labels_ok (snd (execute_action lib action (''actions['' @ nat_str i @ '']'') s))"
    using execute_action_labels_ok assms(1) by (simp add: keeps_labels_ok_def)
  with False assms(2) show ?thesis
    by (auto simp: action_iteration_def plain_action_def Let_def split: prod.splits sum.splits if_splits)
qed

section \<open>Errors of validated actions\<close>

definition safe :: "'a step \<Rightarrow> bool" where
  "safe m \<longleftrightarrow> (\<forall>s. value_errors (fst (m s)))"

named_theorems safe

lemma safe_bind [safe]: "safe m \<Longrightarrow> (\<And>x. safe (g x)) \<Longrightarrow> safe (st_bind m g)"
  by (auto simp: safe_def st_bind_def value_errors_def split: prod.splits sum.splits) (metis fst_conv)+

lemma safe_lift [safe]: "value_errors r \<Longrightarrow> safe (st_lift r)"
  by (simp add: safe_def st_lift_def)

lemma safe_base [safe]: "safe (st_gets g)" "safe (st_modify h)" "safe (set_event k v)" "safe (set_result k v)"
  by (simp_all add: safe_def st_gets_def st_modify_def set_event_def set_result_def)

lemma safe_if [safe]: "(b \<Longrightarrow> safe m) \<Longrightarrow> (\<not> b \<Longrightarrow> safe n) \<Longrightarrow> safe (if b then m else n)"
  by simp

lemma safe_prod [safe]: "(\<And>x y. p = (x, y) \<Longrightarrow> safe (m x y)) \<Longrightarrow> safe (case p of (x, y) \<Rightarrow> m x y)"
  by (cases p) simp

lemma safe_Let [safe]: "safe (m v) \<Longrightarrow> safe (let x = v in m x)"
  by simp

lemma safe_option [safe]:
  "(x = None \<Longrightarrow> safe m) \<Longrightarrow> (\<And>y. x = Some y \<Longrightarrow> safe (f y)) \<Longrightarrow> safe (case x of None \<Rightarrow> m | Some y \<Rightarrow> f y)"
  by (cases x) auto

lemma json_value_errors [value_errors]:
  "value_errors (validate_json_value v p d)"
  "value_errors (validate_json_list xs p i d)"
  "value_errors (validate_json_dict dd p d)"
proof (induction v p d and xs p i d and dd p d rule: validate_json_value_validate_json_list_validate_json_dict.induct)
  case (1 v p d)
  then show ?case
    by (cases v) (auto simp: validate_json_value.simps intro!: value_errors)
qed (auto intro!: value_errors)

lemma json_copy_value_errors [value_errors]: "value_errors (json_copy v p)"
  unfolding json_copy_def by (intro value_errors is_value_error.simps TrueI; simp)

lemma scalar_text_value_errors [value_errors]: "value_errors (scalar_text v p b)"
  by (auto simp: scalar_text_def intro!: value_errors split: py.splits)

lemma validate_name_value_errors [value_errors]: "value_errors (validate_name v p n)"
  by (auto simp: validate_name_def intro!: value_errors split: py.splits)

lemma raise_at_action_value_errors [value_errors, simp]: "value_errors (raise_at ActionValidationError m p)"
  by (intro value_errors) simp

lemma safe_state_labels [safe]: "safe state_labels"
  unfolding state_labels_def by (intro safe) (auto intro!: safe value_errors split: py.split)

lemma safe_custom_details [safe]: "safe custom_details"
  unfolding custom_details_def by (intro safe) (auto intro!: safe value_errors split: py.split)

lemma safe_state_context [safe]: "safe state_context"
  unfolding state_context_def by (intro safe)

lemma safe_render [safe]:
  "safe (st_bind state_context (\<lambda>ctx. st_lift (res_bind (render_template lib v ctx) (\<lambda>(tx, refs). Inr (PStr tx, refs)))))"
  by (intro safe) (auto intro!: value_errors)

lemma safe_resolve_value [safe]: "safe (resolve_value lib action path)"
proof -
  have "safe (st_bind state_context (\<lambda>ctx. st_lift (
      res_bind (resolve_field ctx v) (\<lambda>resolution.
        case fr_value resolution of
          None \<Rightarrow> raise_at ActionValidationError (m resolution) q
        | Some v \<Rightarrow> res_bind (json_copy v q) (\<lambda>c. Inr (c, [fr_normalized resolution]))))))" for v m q
    by (intro safe value_errors) (auto intro!: value_errors split: option.split)
  then show ?thesis
    unfolding resolve_value_def Let_def
    by (simp only: split: list.split) (intro conjI allI impI safe_if safe_render safe_lift value_errors; simp)
qed

lemma safe_render_if_template [safe]: "safe (render_if_template lib v)"
  unfolding render_if_template_def by (intro safe_if safe_render safe_lift value_errors)

lemma safe_sections [safe]:
  "safe (result_section k)" "safe (result_list k)" "safe (set_section k k' v)"
  unfolding set_section_def result_section_def result_list_def by (intro safe)+

lemma safe_grouping_texts [safe]: "safe (grouping_texts lib action path refs keys)"
  by (induction keys arbitrary: refs) (auto intro!: safe value_errors)

lemma safe_grouping_window [safe]: "safe (grouping_window action key limit message path)"
  unfolding grouping_window_def by (intro safe value_errors; simp)

lemma safe_disposition_reason:
  "dget action ''reason'' = PNone \<or> is_str (dget action ''reason'') \<Longrightarrow> safe (disposition_reason lib action path)"
  unfolding disposition_reason_def Let_def by (intro safe value_errors) auto

lemma safe_exec [safe]:
  "safe (exec_text_field lib target action path)"
  "safe (exec_event_action lib action path)"
  "safe (exec_level key levels msg action path)"
  "safe (exec_set_label lib action path)"
  "safe (exec_remove_label action path)"
  "safe (exec_set_custom_field lib action path)"
  "safe (exec_remove_custom_field action path)"
  "safe (execute_grouping lib action path)"
  "safe (exec_add_note lib action path)"
  "safe (exec_webhook action path)"
  unfolding exec_text_field_def exec_event_action_def exec_level_def exec_set_label_def exec_remove_label_def
    exec_set_custom_field_def exec_remove_custom_field_def execute_grouping_def exec_add_note_def exec_webhook_def
  by (intro safe value_errors; simp)+

lemma safe_reference_exec:
  "value_errors (static_reference action [id_key, ''value''] path) \<Longrightarrow> safe (exec_routing rt id_key action path)"
  "value_errors (static_reference action [id_key, ''policy_id'', ''value''] path) \<Longrightarrow> safe (exec_policy id_key action path)"
  unfolding exec_routing_def exec_policy_def by (intro safe value_errors; assumption)+

lemma safe_disposition_exec:
  assumes "dget action ''reason'' = PNone \<or> is_str (dget action ''reason'')"
  shows "safe (exec_suppress lib action path)" "safe (exec_drop lib action path)"
    "value_errors (in_frozenset (dget_default action ''retrigger'' (PStr ''preserve'')) [''preserve'', ''reset'']) \<Longrightarrow>
       safe (exec_pause lib action path)"
  unfolding exec_suppress_def exec_drop_def exec_pause_def
  by (intro safe safe_disposition_reason [OF assms] value_errors; simp)+

lemma validate_action_parts:
  assumes "validate_action lib (PDict action) path = Inr []"
    and "py_str (dget action ''type'') \<notin> set EXTRACTION_TYPES"
  shows "typed_action_issues lib (py_str (dget action ''type'')) action path = Inr []"
    and "reason_issues lib (py_str (dget action ''type'')) action path = []"
  using assms by (auto simp: validate_action_def Let_def res_bind_Inr_iff split: if_splits)

lemma check_issue_ok: "check_issue dflt r = Inr [] \<Longrightarrow> value_errors r"
  by (auto simp: check_issue_def split: sum.splits if_splits)

lemma typed_reference_ok:
  assumes "typed_action_issues lib ty action path = Inr []"
  shows "map_of ROUTING_ACTIONS ty = Some (rt, id_key) \<Longrightarrow> value_errors (static_reference action [id_key, ''value''] path)"
    and "map_of ROUTING_ACTIONS ty = None \<Longrightarrow> map_of POLICY_ACTIONS ty = Some id_key \<Longrightarrow>
           value_errors (static_reference action [id_key, ''policy_id'', ''value''] path)"
proof -
  show "value_errors (static_reference action [id_key, ''value''] path)"
    if "map_of ROUTING_ACTIONS ty = Some (rt, id_key)"
  proof -
    have "ty \<in> {''set_route'', ''set_team'', ''set_service''}"
      using that by (auto simp: ROUTING_ACTIONS_def split: if_splits)
    then show ?thesis
      using assms that by (intro check_issue_ok [of path]) (auto simp: typed_action_issues_def)
  qed
  show "value_errors (static_reference action [id_key, ''policy_id'', ''value''] path)"
    if "map_of ROUTING_ACTIONS ty = None" "map_of POLICY_ACTIONS ty = Some id_key"
  proof -
    have "ty \<in> {''set_escalation_policy'', ''set_notification_policy'', ''set_priority_policy''}"
      using that(2) by (auto simp: POLICY_ACTIONS_def split: if_splits)
    then show ?thesis
      using assms that by (intro check_issue_ok [of path]) (auto simp: typed_action_issues_def)
  qed
qed

lemma pause_retrigger_ok:
  assumes "typed_action_issues lib ''pause'' action path = Inr []"
  shows "value_errors (in_frozenset (dget_default action ''retrigger'' (PStr ''preserve'')) [''preserve'', ''reset''])"
  using assms
  by (auto simp: typed_action_issues_def ROUTING_ACTIONS_def POLICY_ACTIONS_def pause_issues_def member_issue_def
      res_bind_Inr_iff)

lemma reason_ok:
  "reason_issues lib ty action path = [] \<Longrightarrow> ty \<in> {''suppress'', ''pause'', ''drop''} \<Longrightarrow>
     dget action ''reason'' = PNone \<or> is_str (dget action ''reason'')"
  by (auto simp: reason_issues_def Let_def split: if_splits)

lemma execute_action_safe:
  assumes "validate_action lib (PDict action) path = Inr []"
    and "py_str (dget action ''type'') \<notin> set EXTRACTION_TYPES"
  shows "safe (execute_action lib action path)"
proof -
  note parts = validate_action_parts [OF assms]
  have pause: "safe (exec_pause lib action path)" if "py_str (dget action ''type'') = ''pause''"
    using parts that by (intro safe_disposition_exec(3)) (auto dest: reason_ok pause_retrigger_ok)
  have others: "safe (exec_suppress lib action path)" "safe (exec_drop lib action path)"
    if "py_str (dget action ''type'') \<in> {''suppress'', ''drop''}"
    using parts that by (auto intro!: safe_disposition_exec(1,2) dest: reason_ok)
  show ?thesis
    unfolding execute_action_def Let_def
    by (intro safe_if safe_option safe_prod safe_exec safe_reference_exec pause others safe_lift value_errors;
        (erule (1) typed_reference_ok [OF parts(1)] | simp add: typed_reference_ok(1) [OF parts(1)])?)
qed

lemma action_iteration_total:
  assumes "validate_action lib (PDict action) (''actions['' @ nat_str i @ '']'') = Inr []"
    and "py_str (dget action ''type'') \<notin> set EXTRACTION_TYPES"
  shows "\<exists>t s'. action_iteration lib action i s = Inr (t, s')"
proof -
  obtain r s' where ex: "execute_action lib action (''actions['' @ nat_str i @ '']'') s = (r, s')"
    by (cases "execute_action lib action (''actions['' @ nat_str i @ '']'') s")
  have "value_errors r"
    using execute_action_safe [OF assms] ex by (auto simp: safe_def) (metis fst_conv)
  then show ?thesis
    using assms(2) ex by (cases r) (auto simp: action_iteration_def plain_action_def Let_def value_errors_def)
qed

lemma action_list_issues_ok:
  "action_list_issues lib path i xs = Inr [] \<Longrightarrow>
     \<forall>j < length xs. is_dict (xs ! j) \<and> validate_action lib (xs ! j) (path @ ''['' @ nat_str (i + j) @ '']'') = Inr []"
proof (induction xs arbitrary: i)
  case (Cons x xs)
  then have x: "validate_action lib x (path @ ''['' @ nat_str i @ '']'') = Inr []"
    and "action_list_issues lib path (Suc i) xs = Inr []"
    by (auto simp: res_bind_Inr_iff)
  note IH = Cons.IH [OF this(2)]
  have "is_dict x"
    using x by (cases x) (auto simp: validate_action_def)
  with x IH show ?case
    by (auto simp: nth_Cons split: nat.split)
qed simp

lemma action_loop_total:
  "\<forall>j < length xs. validate_action lib (PDict (xs ! j)) (''actions['' @ nat_str (i + j) @ '']'') = Inr [] \<and>
      py_str (dget (xs ! j) ''type'') \<notin> set EXTRACTION_TYPES \<Longrightarrow>
   \<exists>r. action_loop lib i xs s steps = Inr r"
proof (induction xs arbitrary: i s steps)
  case (Cons x xs)
  have "\<exists>t s'. action_iteration lib x i s = Inr (t, s')"
    using Cons.prems [rule_format, of 0] by (intro action_iteration_total) auto
  then obtain t s' where it: "action_iteration lib x i s = Inr (t, s')" by blast
  have "\<forall>j < length xs. validate_action lib (PDict (xs ! j)) (''actions['' @ nat_str (Suc i + j) @ '']'') = Inr [] \<and>
      py_str (dget (xs ! j) ''type'') \<notin> set EXTRACTION_TYPES"
    using Cons.prems by fastforce
  from Cons.IH [OF this] it show ?case by auto
qed simp

section \<open>The initial state\<close>

lemma dmem_with_defaults: "dmem (with_defaults ds d) k \<longleftrightarrow> k \<in> fst ` set ds \<or> dmem d k"
proof -
  have "dmem (fold (\<lambda>(k, v) acc. dsetdefault acc k v) ds d) k \<longleftrightarrow> k \<in> fst ` set ds \<or> dmem d k"
    by (induction ds arbitrary: d) auto
  then show ?thesis by (simp add: with_defaults_def)
qed

lemma from_context_ok:
  assumes "from_context cfg ctx = Inr s"
  shows "settled s" and "check_result (ea_result s) = Inr ()"
  using assms
  by (auto simp: from_context_def res_bind_Inr_iff Let_def settled_def dmem_with_defaults result_defaults_def)

lemma with_defaults_fresh:
  "distinct (map fst (acc @ ds)) \<Longrightarrow> with_defaults ds acc = acc @ ds"
proof -
  have "fold (\<lambda>(k, v) a. dsetdefault a k v) ds acc = acc @ ds" if "distinct (map fst (acc @ ds))"
    using that
  proof (induction ds arbitrary: acc)
    case (Cons kv ds)
    obtain k v where kv: "kv = (k, v)" by (cases kv)
    with Cons.prems have "k \<notin> fst ` set acc" by auto
    then have "dsetdefault acc k v = acc @ [(k, v)]"
      by (auto simp: dsetdefault_def dmem_iff update_append_absent)
    with Cons kv show ?case by simp
  qed simp
  then show "distinct (map fst (acc @ ds)) \<Longrightarrow> with_defaults ds acc = acc @ ds"
    by (simp add: with_defaults_def)
qed

lemma from_context_fresh:
  assumes "from_context cfg ctx = Inr s" and "\<not> truthy (dget ctx ''result'')"
  shows "ea_result s = result_defaults cfg" and "running s"
proof -
  have root: "copy_root ctx ''result'' = Inr v \<Longrightarrow> v = PDict []" for v
    using assms(2) by (auto simp: copy_root_def py_or_def json_copy_def res_bind_Inr_iff split: if_splits)
  have "ea_result s = with_defaults (result_defaults cfg) []"
    using assms(1) by (auto simp: from_context_def as_mapping_def res_bind_Inr_iff Let_def dest!: root)
  moreover have "with_defaults (result_defaults cfg) [] = result_defaults cfg"
    using with_defaults_fresh [of "[]" "result_defaults cfg"] by (simp add: result_defaults_def)
  ultimately show e: "ea_result s = result_defaults cfg" by simp
  show "running s"
    by (simp add: running_def disposition_ok_def event_dropped_def e result_defaults_def dget_def
        PROCESS_DISPOSITIONS_def)
qed

lemma execute_actions_running:
  assumes "running s" and "execute_actions lib actions s = Inr (s', steps, out)"
  shows "running s' \<or> disposition_ok s' \<and> event_dropped s' \<and> out = ''stop_orchestration''"
proof -
  note loop = execute_actions_loop(1) [OF assms(2)]
  have "out = as_outcome (last steps)" if "as_outcome (last steps) = ''stop_orchestration''" "steps \<noteq> []"
    using action_loop_outcome [OF loop] that by (auto simp: action_halts_def list_all_iff)
  then show ?thesis
    using action_loop_running [OF assms(1) loop] by auto
qed

lemma execute_actions_labels_ok:
  assumes "labels_ok s" and "execute_actions lib actions s = Inr (s', steps, out)"
  shows "labels_ok s'"
proof -
  have "labels_ok s' \<or> labels_ok s' \<and> steps \<noteq> [] \<and> action_halts (last steps)"
  proof (rule action_steps.loop_inv [where I = labels_ok and s = s and i = 0 and xs = "map items actions"
        and ts = "[]" and lib = lib and J = "\<lambda>t s. labels_ok s"])
    fix j x u t u'
    assume "labels_ok u" and "action_iteration lib x j u = Inr (t, u')"
    from action_iteration_labels_ok [OF this]
    show "labels_ok u' \<and> \<not> action_halts t \<or> labels_ok u' \<and> action_halts t" by blast
  qed (use assms execute_actions_loop(1) [OF assms(2)] in simp_all)
  then show ?thesis by blast
qed

section \<open>Properties\<close>

definition demo_state :: event_action_state where
  "demo_state =
     \<lparr>ea_event = [(''title'', PStr ''disk''), (''labels'', PDict [(''env'', PStr ''prod'')])],
      ea_raw = [], ea_variables = [], ea_route = [], ea_service = [], ea_team = [], ea_integration = [],
      ea_time = [], ea_result = result_defaults (PStr ''full'')\<rparr>"

definition demo_actions :: "py list" where
  "demo_actions =
     [PDict [(''type'', PStr ''set_label''), (''name'', PStr ''team''), (''value'', PStr ''db'')],
      PDict [(''type'', PStr ''drop'')],
      PDict [(''type'', PStr ''set_title''), (''value'', PStr ''late'')]]"

lemma demo_run:
  obtains s' steps where
    "execute_actions no_lib demo_actions demo_state = Inr (s', steps, ''stop_orchestration'')"
    "event_dropped s'" "length steps = 2"
    "dget (ea_event s') ''title'' = PStr ''disk''"
proof -
  have "case execute_actions no_lib demo_actions demo_state of
      Inr (s', steps, out) \<Rightarrow> out = ''stop_orchestration'' \<and> event_dropped s' \<and> length steps = 2
        \<and> dget (ea_event s') ''title'' = PStr ''disk''
    | Inl _ \<Rightarrow> False"
    by code_simp
  then show thesis
    using that by (auto split: sum.splits)
qed

lemma demo_state_ok: "running demo_state" "settled demo_state" "labels_ok demo_state"
  by (simp_all add: running_def disposition_ok_def event_dropped_def settled_def labels_ok_def lab_def demo_state_def
      result_defaults_def dget_def dget_default_def dmem_def PROCESS_DISPOSITIONS_def MAX_LABELS_def)



text \<open>
  Actions run in order up to the first one whose outcome stops: with the outcome
  \<open>continue\<close> every action has its step and none stops; otherwise the last step is the only
  stopping one and gives the outcome.
\<close>

theorem execute_actions_stop_first:
  assumes "execute_actions lib actions s = Inr (s', steps, out)"
  shows "list_all (\<lambda>t. \<not> action_halts t) (butlast steps) \<and>
    (out = ''continue'' \<and> length steps = length actions \<and> list_all (\<lambda>t. \<not> action_halts t) steps \<or>
     steps \<noteq> [] \<and> action_halts (last steps) \<and> out = as_outcome (last steps))"
  using action_loop_outcome [OF execute_actions_loop(1) [OF assms]] by auto

theorem execute_actions_stop_first_witness:
  "\<exists>s' steps. execute_actions no_lib demo_actions demo_state = Inr (s', steps, ''stop_orchestration'')
     \<and> length steps = 2 \<and> length demo_actions = 3 \<and> action_halts (last steps)"
proof (rule demo_run)
  fix s' steps
  assume "execute_actions no_lib demo_actions demo_state = Inr (s', steps, ''stop_orchestration'')" "length steps = 2"
  then show ?thesis
    using execute_actions_stop_first [of no_lib demo_actions demo_state] by (auto simp: demo_actions_def)
qed

text \<open>
  C16. A failed action leaves the state as it was, except that a custom-field action may
  have created the empty \<open>custom_details\<close>; \<open>set_grouping\<close> is the only type not covered.
\<close>

theorem failed_action_atomic:
  assumes "settled s" and "py_str (dget action ''type'') \<noteq> ''set_grouping''"
    and "execute_action lib action path s = (Inl e, s')"
  shows "s' = s \<or> py_str (dget action ''type'') \<in> {''set_custom_field'', ''remove_custom_field''} \<and> s' = with_details s"
proof (cases "py_str (dget action ''type'') \<in> {''set_custom_field'', ''remove_custom_field''}")
  case True
  then show ?thesis using execute_action_custom [OF True assms(1,3)] by blast
next
  case False
  then show ?thesis
    using execute_action_atomic [of action lib path] assms by (auto simp: atomic_def)
qed

theorem failed_action_atomic_witness:
  "\<exists>e. execute_action no_lib [(''type'', PStr ''set_title''), (''value_from'', PStr ''raw.x'')] ''a'' demo_state
     = (Inl e, demo_state)"
proof -
  let ?a = "[(''type'', PStr ''set_title''), (''value_from'', PStr ''raw.x'')]"
  have "\<not> is_ok (fst (execute_action no_lib ?a ''a'' demo_state))"
    by code_simp
  then obtain e s' where "execute_action no_lib ?a ''a'' demo_state = (Inl e, s')"
    by (cases "execute_action no_lib ?a ''a'' demo_state") (auto elim!: is_ok.elims)
  moreover from failed_action_atomic [OF demo_state_ok(2) _ this] have "s' = demo_state"
    by (simp add: dget_def)
  ultimately show ?thesis by blast
qed

text \<open>
  \<open>set_grouping\<close> is not atomic: when its group key is refused, the deduplication key it
  wrote first stays in the event, although the step is recorded as failed.
\<close>

theorem failed_grouping_partial:
  "case execute_action no_lib [(''type'', PStr ''set_grouping''), (''dedup_key'', PStr ''k''), (''group_key'', PStr '' '')]
      ''actions[0]'' demo_state of
     (r, s') \<Rightarrow> r = raise_at ActionValidationError ''action value cannot be empty'' ''actions[0].group_key''
       \<and> dget (ea_event s') ''dedup_key'' = PStr ''k'' \<and> dget (ea_event demo_state) ''dedup_key'' = PNone"
  by code_simp

text \<open>Actions never take the event above 256 labels.\<close>

theorem action_labels_bounded:
  assumes "labels_ok s" and "execute_actions lib actions s = Inr (s', steps, out)"
  shows "labels_ok s'"
  using assms by (rule execute_actions_labels_ok)

theorem action_labels_bounded_witness:
  "\<exists>s' steps out. execute_actions no_lib demo_actions demo_state = Inr (s', steps, out) \<and> labels_ok s'"
  using demo_run action_labels_bounded [OF demo_state_ok(3)] by metis

text \<open>
  A validated list without extractors executes without an exception: every runtime
  failure becomes a failed step.
\<close>

theorem validated_actions_total:
  assumes "validate_action_list lib (PList actions) ''actions'' = Inr []"
    and "\<forall>a \<in> set actions. py_str (dget (items a) ''type'') \<notin> set EXTRACTION_TYPES"
  shows "\<exists>r. execute_actions lib actions s = Inr r"
proof -
  have "action_list_issues lib ''actions'' 0 actions = Inr []"
    using assms(1) by (auto simp: validate_action_list_def split: if_splits)
  note ok = action_list_issues_ok [OF this]
  have "\<exists>r. action_loop lib 0 (map items actions) s [] = Inr r"
  proof (rule action_loop_total, intro allI impI)
    fix j assume j: "j < length (map items actions)"
    then have "PDict (items (actions ! j)) = actions ! j"
      using ok by (cases "actions ! j") auto
    then show "validate_action lib (PDict (map items actions ! j)) (''actions['' @ nat_str (0 + j) @ '']'') = Inr [] \<and>
        py_str (dget (map items actions ! j) ''type'') \<notin> set EXTRACTION_TYPES"
      using ok j assms(2) by auto
  qed
  then show ?thesis
    using assms(1) by (simp add: execute_actions_def)
qed

theorem validated_actions_total_witness:
  "\<exists>r. execute_actions no_lib demo_actions demo_state = Inr r"
proof (rule validated_actions_total)
  show "validate_action_list no_lib (PList demo_actions) ''actions'' = Inr []"
    by code_simp
  show "\<forall>a \<in> set demo_actions. py_str (dget (items a) ''type'') \<notin> set EXTRACTION_TYPES"
    by code_simp
qed

end
