(* ===== verification/Orch_Engine.thy ===== *)
theory Orch_Engine
  imports Orch_Conditions Orch_Actions_Correct
begin

text \<open>
  The rule engine of Event Orchestration (\<open>orchestration/engine.py\<close>): validation of a rule
  tree, ordered execution of its rules on the event state, and the outcome of an event;
  with the facade \<open>evaluate_rule\<close> of \<open>orchestration/evaluator.py\<close>.
\<close>

section \<open>Validation of rule trees\<close>

definition MAX_RULE_DEPTH :: nat where "MAX_RULE_DEPTH = 20"
definition MAX_RULE_NODES :: nat where "MAX_RULE_NODES = 512"

definition VALID_PROCESSING_MODES :: "string list" where
  "VALID_PROCESSING_MODES = [''continue'', ''stop'', ''evaluate_children'', ''children_then_continue'']"

definition rule_mode :: "pydict \<Rightarrow> py" where
  "rule_mode rule = dget_default rule ''processing_mode'' (PStr ''continue'')"

definition rule_condition :: "pydict \<Rightarrow> py" where
  "rule_condition rule = py_or (dget rule ''condition_tree'') (PDict [])"

text \<open>The child rules of a rule: \<open>rule.get("children") or []\<close> when it is a list.\<close>

definition rule_children :: "py \<Rightarrow> py list" where
  "rule_children rule = list_items (dget (items rule) ''children'')"

lemma rule_children_size:
  "size_list size (rule_children rule) \<le> size rule"
proof (cases rule)
  case (PDict d)
  show ?thesis
  proof (cases "map_of d ''children''")
    case (Some v)
    then show ?thesis
      using PDict size_map_of_prod [OF Some] by (cases v) (auto simp: rule_children_def list_items_def dget_def)
  qed (simp add: PDict rule_children_def list_items_def dget_def)
qed (simp_all add: rule_children_def list_items_def dget_def)

text \<open>The checks of one rule before its children; \<open>nodes\<close> counts the rules seen.\<close>

definition check_rule :: "py_lib \<Rightarrow> py \<Rightarrow> string \<Rightarrow> nat \<Rightarrow> unit result" where
  "check_rule lib rule rule_path nodes =
     (if nodes > MAX_RULE_NODES
      then raise_at ConditionValidationError ''rule tree exceeds the node limit'' rule_path
      else if \<not> is_dict rule then raise_at ConditionValidationError ''rule must be an object'' rule_path
      else let d = items rule; actions = dget_default d ''actions'' (PList []) in
        res_bind (in_frozenset (rule_mode d) VALID_PROCESSING_MODES) (\<lambda>known.
          if \<not> known
          then raise_at ConditionValidationError ''invalid rule processing_mode'' (rule_path @ ''.processing_mode'')
          else case validate_condition_tree lib (rule_condition d) (rule_path @ ''.condition_tree'') of
            first # _ \<Rightarrow> raise_at ConditionValidationError (vi_message first) (vi_path first)
          | [] \<Rightarrow>
              if \<not> is_list actions
              then raise_at ConditionValidationError ''rule actions must be a list'' (rule_path @ ''.actions'')
              else res_bind (validate_action_list lib actions (rule_path @ ''.actions'')) (\<lambda>issues.
                case issues of
                  first # _ \<Rightarrow> raise_at ConditionValidationError (vi_message first) (vi_path first)
                | [] \<Rightarrow>
                    if \<not> is_list (dget_default d ''children'' (PList []))
                    then raise_at ConditionValidationError ''rule children must be a list'' (rule_path @ ''.children'')
                    else Inr ())))"

text \<open>
  \<open>_validate_rules\<close> on a list of rules; the result is the number of rules seen so far.
\<close>

function validate_rules :: "py_lib \<Rightarrow> py list \<Rightarrow> string \<Rightarrow> nat \<Rightarrow> nat \<Rightarrow> nat result"
  and validate_rule_list :: "py_lib \<Rightarrow> py list \<Rightarrow> string \<Rightarrow> nat \<Rightarrow> nat \<Rightarrow> nat \<Rightarrow> nat result" where
  "validate_rules lib rules path depth nodes =
     (if depth > MAX_RULE_DEPTH
      then raise_at ConditionValidationError ''rule tree exceeds the depth limit'' path
      else validate_rule_list lib rules path depth 0 nodes)"
| "validate_rule_list lib [] path depth i nodes = Inr nodes"
| "validate_rule_list lib (rule # rules) path depth i nodes =
     (let rule_path = path @ ''['' @ nat_str i @ '']'' in
      res_bind (check_rule lib rule rule_path (Suc nodes)) (\<lambda>_.
      res_bind (validate_rules lib (rule_children rule) (rule_path @ ''.children'') (Suc depth) (Suc nodes)) (\<lambda>n.
        validate_rule_list lib rules path depth (Suc i) n)))"
  by pat_completeness auto
termination
  by (relation "measure (\<lambda>x. case x of Inl (lib, rs, p, d, n) \<Rightarrow> 2 * size_list size rs + 1
                                     | Inr (lib, rs, p, d, i, n) \<Rightarrow> 2 * size_list size rs)")
     (auto simp: rule_children_size less_Suc_eq_le intro!: trans_le_add1)

declare validate_rules.simps [simp del]

section \<open>Execution\<close>

datatype rule_execution =
  RuleExecution
    (re_path: string) (re_name: string) (re_enabled: bool) (re_matched: bool) (re_mode: py)
    (re_condition: "condition_result option") (re_actions: "action_step list")
    (re_children: "rule_execution list") (re_outcome: string) (re_code: string) (re_reason: string)

record engine_counters =
  ec_matched :: nat
  ec_stopped_at :: "string option"

type_synonym engine_state = "event_action_state \<times> engine_counters"

definition rule_name :: "pydict \<Rightarrow> nat \<Rightarrow> string" where
  "rule_name rule i = py_str (py_or (dget rule ''name'') (PStr (''Rule '' @ nat_str (i + 1))))"

text \<open>The rule matches, or the trace of a rule that is disabled or does not match.\<close>

definition rule_condition_step ::
  "py_lib \<Rightarrow> pydict \<Rightarrow> string \<Rightarrow> nat \<Rightarrow> event_action_state
     \<Rightarrow> (exn + (rule_execution + condition_result)) \<times> event_action_state" where
  "rule_condition_step lib rule rule_path i s =
     (let name = rule_name rule i; mode = rule_mode rule in
      if \<not> truthy (dget_default rule ''enabled'' (PBool True))
      then (Inr (Inl (RuleExecution rule_path name False False mode None [] [] ''continue''
                        ''rule_disabled'' ''rule is disabled'')), s)
      else case state_context s of
        (Inl e, s1) \<Rightarrow> (Inl e, s1)
      | (Inr ctx, s1) \<Rightarrow>
          (case evaluate_condition_tree lib (rule_condition rule) ctx of
             Inl e \<Rightarrow> (Inl e, s1)
           | Inr condition \<Rightarrow>
               if \<not> cr_matched condition
               then (Inr (Inl (RuleExecution rule_path name True False mode (Some condition) [] []
                                 ''continue'' ''rule_not_matched'' ''rule condition did not match'')), s1)
               else (Inr (Inr condition), s1)))"

text \<open>How a matched rule ends, from its mode and the outcome of its actions.\<close>

definition rule_ending :: "py \<Rightarrow> string \<Rightarrow> string \<Rightarrow> engine_counters \<Rightarrow> string \<times> string \<times> string \<times> engine_counters" where
  "rule_ending mode local_outcome rule_path c =
     (if mode = PStr ''stop''
      then (''stop_orchestration'', ''processing_mode_stop'',
            ''rule processing_mode stopped orchestration processing'', c\<lparr>ec_stopped_at := Some rule_path\<rparr>)
      else if mode = PStr ''evaluate_children''
      then (''stop_orchestration'', ''children_evaluated_then_stop'',
            ''child rules were evaluated and sibling processing stopped'', c\<lparr>ec_stopped_at := Some rule_path\<rparr>)
      else (local_outcome, ''rule_matched'', ''rule matched and actions were evaluated'', c))"

text \<open>
  \<open>_execute_level\<close>: one rule with its children, and the loop over the rules of a level,
  which ends at the first rule with the outcome \<open>stop_orchestration\<close>.
\<close>

function execute_rule :: "py_lib \<Rightarrow> string \<Rightarrow> nat \<Rightarrow> py \<Rightarrow> engine_state \<Rightarrow> (rule_execution \<times> engine_state) result"
  and execute_level :: "py_lib \<Rightarrow> string \<Rightarrow> nat \<Rightarrow> py list \<Rightarrow> engine_state \<Rightarrow> rule_execution list
        \<Rightarrow> (engine_state \<times> rule_execution list \<times> string) result" where
  "execute_rule lib path i rule0 sc =
     (let rule = items rule0; rule_path = path @ ''['' @ nat_str i @ '']'';
          name = rule_name rule i; mode = rule_mode rule
      in case rule_condition_step lib rule rule_path i (fst sc) of
           (Inl e, s1) \<Rightarrow> Inl e
         | (Inr (Inl trace), s1) \<Rightarrow> Inr (trace, (s1, snd sc))
         | (Inr (Inr condition), s1) \<Rightarrow>
             let c1 = (snd sc)\<lparr>ec_matched := Suc (ec_matched (snd sc))\<rparr> in
             res_bind (execute_actions lib (list_items (dget rule ''actions'')) s1) (\<lambda>(s2, steps, local_outcome).
               let mk = (\<lambda>children. RuleExecution rule_path name True True mode (Some condition) steps children) in
               if local_outcome = ''stop_orchestration''
               then Inr (mk [] ''stop_orchestration'' ''rule_stopped_orchestration''
                           ''an action stopped orchestration processing'',
                         (s2, c1\<lparr>ec_stopped_at := Some rule_path\<rparr>))
               else
                 res_bind (if mode \<in> {PStr ''evaluate_children'', PStr ''children_then_continue''}
                              \<and> rule_children rule0 \<noteq> []
                           then execute_level lib (rule_path @ ''.children'') 0 (rule_children rule0) (s2, c1) []
                           else Inr ((s2, c1), [], ''continue''))
                   (\<lambda>((s3, c3), child_traces, child_outcome).
                      if child_outcome = ''stop_orchestration''
                      then Inr (mk child_traces ''stop_orchestration'' ''child_stopped_orchestration''
                                  ''a child rule stopped orchestration processing'',
                                (s3, c3\<lparr>ec_stopped_at := (case ec_stopped_at c3 of
                                          Some p \<Rightarrow> Some p | None \<Rightarrow> Some rule_path)\<rparr>))
                      else let (rule_outcome, code, reason, c4) = rule_ending mode local_outcome rule_path c3
                           in Inr (mk child_traces rule_outcome code reason, (s3, c4)))))"
| "execute_level lib path i [] sc traces = Inr (sc, traces, ''continue'')"
| "execute_level lib path i (rule # rules) sc traces =
     res_bind (execute_rule lib path i rule sc) (\<lambda>(trace, sc').
       if re_outcome trace = ''stop_orchestration''
       then Inr (sc', traces @ [trace], ''stop_orchestration'')
       else execute_level lib path (Suc i) rules sc' (traces @ [trace]))"
  by pat_completeness auto
termination
  by (relation "measure (\<lambda>x. case x of Inl (lib, p, i, r, sc) \<Rightarrow> 2 * size r + 1
                                     | Inr (lib, p, i, rs, sc, ts) \<Rightarrow> 2 * size_list size rs)")
     (auto simp: rule_children_size less_Suc_eq_le split: if_splits)

declare execute_rule.simps [simp del]

record orchestration_result =
  or_state :: event_action_state
  or_rules :: "rule_execution list"
  or_outcome :: string
  or_matched_rule_count :: nat
  or_stopped_at :: "string option"

definition execute_rule_tree :: "py_lib \<Rightarrow> py \<Rightarrow> py list \<Rightarrow> pydict \<Rightarrow> orchestration_result result" where
  "execute_rule_tree lib config rules context =
     res_bind (validate_rules lib rules ''rules'' 0 0) (\<lambda>_.
     res_bind (from_context config context) (\<lambda>state.
     res_bind (execute_level lib ''rules'' 0 rules (state, \<lparr>ec_matched = 0, ec_stopped_at = None\<rparr>) [])
       (\<lambda>((s, c), traces, outcome).
          Inr \<lparr>or_state = s, or_rules = traces,
               or_outcome = (if truthy (dget (ea_result s) ''dropped'') then ''drop''
                             else if outcome = ''stop_orchestration'' then ''stop'' else ''continue''),
               or_matched_rule_count = ec_matched c, or_stopped_at = ec_stopped_at c\<rparr>)))"

section \<open>The evaluator facade\<close>

record rule_evaluation =
  rv_matched :: bool
  rv_condition :: condition_result
  rv_variables :: pydict
  rv_steps :: "extraction_step list"
  rv_outcome :: string

definition evaluate_rule :: "py_lib \<Rightarrow> py \<Rightarrow> pydict \<Rightarrow> py list \<Rightarrow> rule_evaluation result" where
  "evaluate_rule lib condition_tree context extractors =
     res_bind (evaluate_condition_tree lib condition_tree context) (\<lambda>condition.
       if \<not> cr_matched condition \<or> extractors = []
       then Inr \<lparr>rv_matched = cr_matched condition, rv_condition = condition,
                 rv_variables = items (py_or (dget context ''variables'') (PDict [])),
                 rv_steps = [], rv_outcome = ''continue''\<rparr>
       else res_bind (extract_variables lib extractors context PNone) (\<lambda>extraction.
              Inr \<lparr>rv_matched = cr_matched condition, rv_condition = condition,
                   rv_variables = er_variables extraction, rv_steps = er_steps extraction,
                   rv_outcome = er_outcome extraction\<rparr>))"

section \<open>Levels as loops\<close>

definition rule_halts :: "rule_execution \<Rightarrow> bool" where
  "rule_halts t \<longleftrightarrow> re_outcome t = ''stop_orchestration''"

interpretation level: stopping_loop
  "execute_rule lib path" rule_halts
  "\<lambda>i rules sc traces. res_bind (execute_level lib path i rules sc traces) (\<lambda>(sc', traces', out). Inr (sc', traces'))"
  for lib path
proof unfold_locales
  fix i x xs s ts
  show "res_bind (execute_level lib path i (x # xs) s ts) (\<lambda>(sc', traces', out). Inr (sc', traces')) =
     res_bind (execute_rule lib path i x s)
       (\<lambda>(t, s'). if rule_halts t then Inr (s', ts @ [t])
          else res_bind (execute_level lib path (Suc i) xs s' (ts @ [t])) (\<lambda>(sc', traces', out). Inr (sc', traces')))"
    by (cases "execute_rule lib path i x s") (auto simp: rule_halts_def)
qed simp

lemma execute_level_outcome:
  "execute_level lib path i rules sc traces = Inr (sc', traces', out) \<Longrightarrow>
     \<exists>more. traces' = traces @ more \<and> length more \<le> length rules \<and> list_all (\<lambda>t. \<not> rule_halts t) (butlast more) \<and>
      (out = ''continue'' \<and> length more = length rules \<and> list_all (\<lambda>t. \<not> rule_halts t) more \<or>
       out = ''stop_orchestration'' \<and> more \<noteq> [] \<and> rule_halts (last more))"
proof (induction rules arbitrary: i sc traces)
  case (Cons r rules)
  from Cons.prems obtain t sc1 where it: "execute_rule lib path i r sc = Inr (t, sc1)"
    by (auto simp: res_bind_Inr_iff split: prod.splits)
  show ?case
  proof (cases "rule_halts t")
    case True
    with Cons.prems it show ?thesis
      by (intro exI [of _ "[t]"]) (auto simp: rule_halts_def)
  next
    case False
    with Cons.prems it have "execute_level lib path (Suc i) rules sc1 (traces @ [t]) = Inr (sc', traces', out)"
      by (auto simp: rule_halts_def)
    from Cons.IH [OF this] obtain more where "traces' = (traces @ [t]) @ more" "length more \<le> length rules"
      "list_all (\<lambda>t. \<not> rule_halts t) (butlast more)"
      "out = ''continue'' \<and> length more = length rules \<and> list_all (\<lambda>t. \<not> rule_halts t) more \<or>
       out = ''stop_orchestration'' \<and> more \<noteq> [] \<and> rule_halts (last more)"
      by blast
    with False show ?thesis
      by (intro exI [of _ "t # more"]) auto
  qed
qed auto

section \<open>One rule\<close>

text \<open>The level of the children of a matched rule.\<close>

definition child_level ::
  "py_lib \<Rightarrow> string \<Rightarrow> py \<Rightarrow> engine_state \<Rightarrow> (engine_state \<times> rule_execution list \<times> string) result" where
  "child_level lib rule_path rule sc =
     (if rule_mode (items rule) \<in> {PStr ''evaluate_children'', PStr ''children_then_continue''}
         \<and> rule_children rule \<noteq> []
      then execute_level lib (rule_path @ ''.children'') 0 (rule_children rule) sc []
      else Inr (sc, [], ''continue''))"

lemma execute_rule_cases [consumes 1, case_names idle stopped child_stop ended]:
  assumes "execute_rule lib path i rule sc = Inr (t, sc')"
  obtains
    s1 where "rule_condition_step lib (items rule) (path @ ''['' @ nat_str i @ '']'') i (fst sc) = (Inr (Inl t), s1)"
      "sc' = (s1, snd sc)"
  | cond s1 s2 steps where
      "rule_condition_step lib (items rule) (path @ ''['' @ nat_str i @ '']'') i (fst sc) = (Inr (Inr cond), s1)"
      "execute_actions lib (list_items (dget (items rule) ''actions'')) s1 = Inr (s2, steps, ''stop_orchestration'')"
      "re_matched t" "re_children t = []" "re_outcome t = ''stop_orchestration''"
      "sc' = (s2, \<lparr>ec_matched = Suc (ec_matched (snd sc)), ec_stopped_at = Some (path @ ''['' @ nat_str i @ '']'')\<rparr>)"
      "re_path t = path @ ''['' @ nat_str i @ '']'' \<and> re_name t = rule_name (items rule) i"
  | cond s1 s2 steps out s3 c3 kids where
      "rule_condition_step lib (items rule) (path @ ''['' @ nat_str i @ '']'') i (fst sc) = (Inr (Inr cond), s1)"
      "execute_actions lib (list_items (dget (items rule) ''actions'')) s1 = Inr (s2, steps, out)"
      "out \<noteq> ''stop_orchestration''"
      "child_level lib (path @ ''['' @ nat_str i @ '']'') rule (s2, (snd sc)\<lparr>ec_matched := Suc (ec_matched (snd sc))\<rparr>)
         = Inr ((s3, c3), kids, ''stop_orchestration'')"
      "re_matched t" "re_children t = kids" "re_outcome t = ''stop_orchestration''"
      "\<exists>p. sc' = (s3, c3\<lparr>ec_stopped_at := Some p\<rparr>)"
      "re_path t = path @ ''['' @ nat_str i @ '']'' \<and> re_name t = rule_name (items rule) i"
  | cond s1 s2 steps out s3 c3 kids kout where
      "rule_condition_step lib (items rule) (path @ ''['' @ nat_str i @ '']'') i (fst sc) = (Inr (Inr cond), s1)"
      "execute_actions lib (list_items (dget (items rule) ''actions'')) s1 = Inr (s2, steps, out)"
      "out \<noteq> ''stop_orchestration''"
      "child_level lib (path @ ''['' @ nat_str i @ '']'') rule (s2, (snd sc)\<lparr>ec_matched := Suc (ec_matched (snd sc))\<rparr>)
         = Inr ((s3, c3), kids, kout)"
      "kout \<noteq> ''stop_orchestration''"
      "re_matched t" "re_children t = kids"
      "\<exists>code reason c4. rule_ending (rule_mode (items rule)) out (path @ ''['' @ nat_str i @ '']'') c3
         = (re_outcome t, code, reason, c4) \<and> sc' = (s3, c4)"
      "re_path t = path @ ''['' @ nat_str i @ '']'' \<and> re_name t = rule_name (items rule) i"
proof -
  let ?p = "path @ ''['' @ nat_str i @ '']''"
  let ?c1 = "(snd sc)\<lparr>ec_matched := Suc (ec_matched (snd sc))\<rparr>"
  obtain r s1 where step: "rule_condition_step lib (items rule) ?p i (fst sc) = (r, s1)"
    by (cases "rule_condition_step lib (items rule) ?p i (fst sc)")
  consider tr where "r = Inr (Inl tr)" | cond where "r = Inr (Inr cond)"
    using assms step by (cases r) (auto simp: execute_rule.simps Let_def split: sum.splits)
  then show thesis
  proof cases
    case 1
    then show thesis
      using assms step that(1) by (simp add: execute_rule.simps Let_def)
  next
    case 2
    obtain s2 steps out where acts: "execute_actions lib (list_items (dget (items rule) ''actions'')) s1 = Inr (s2, steps, out)"
      using assms step 2
      by (cases "execute_actions lib (list_items (dget (items rule) ''actions'')) s1") (auto simp: execute_rule.simps Let_def)
    show thesis
    proof (cases "out = ''stop_orchestration''")
      case True
      then show thesis
        using assms step 2 acts by (intro that(2) [of cond s1 s2 steps]) (auto simp: execute_rule.simps Let_def)
    next
      case False
      obtain s3 c3 kids kout where ch: "child_level lib ?p rule (s2, ?c1) = Inr ((s3, c3), kids, kout)"
        using assms step 2 acts False
        by (cases "child_level lib ?p rule (s2, ?c1)") (auto simp: execute_rule.simps child_level_def Let_def)
      obtain o4 code reason c4 where e: "rule_ending (rule_mode (items rule)) out ?p c3 = (o4, code, reason, c4)"
        by (cases "rule_ending (rule_mode (items rule)) out ?p c3")
      have whole: "execute_rule lib path i rule sc =
        (let mk = (\<lambda>children. RuleExecution ?p (rule_name (items rule) i) True True (rule_mode (items rule)) (Some cond) steps children)
         in if kout = ''stop_orchestration''
            then Inr (mk kids ''stop_orchestration'' ''child_stopped_orchestration''
                        ''a child rule stopped orchestration processing'',
                      (s3, c3\<lparr>ec_stopped_at := (case ec_stopped_at c3 of Some p \<Rightarrow> Some p | None \<Rightarrow> Some ?p)\<rparr>))
            else Inr (mk kids o4 code reason, (s3, c4)))"
        unfolding execute_rule.simps [of lib path i rule sc] Let_def step 2 prod.case sum.case
          child_level_def [symmetric] acts
        using False ch e by simp
      show thesis
      proof (cases "kout = ''stop_orchestration''")
        case True
        then show thesis
          using assms whole step 2 acts False ch
          by (intro that(3) [of cond s1 s2 steps out s3 c3 kids]) (auto simp: Let_def split: option.splits)
      next
        case f: False
        then show thesis
          using assms whole step 2 acts False ch e
          by (intro that(4) [of cond s1 s2 steps out s3 c3 kids kout]) (auto simp: Let_def)
      qed
    qed
  qed
qed

section \<open>Induction over a run\<close>

text \<open>
  A relation on runs of a level follows from one on runs of a rule, given what the level of
  the rule's children does.
\<close>

lemma execute_level_rel:
  assumes rule: "\<And>path i rule sc t sc'. execute_rule lib path i rule sc = Inr (t, sc') \<Longrightarrow>
      (\<And>p sc1 sc2 kids out. execute_level lib p 0 (rule_children rule) sc1 [] = Inr (sc2, kids, out) \<Longrightarrow> L sc1 kids sc2 out) \<Longrightarrow>
      R sc t sc'"
    and nil: "\<And>sc. L sc [] sc ''continue''"
    and halt: "\<And>sc t sc'. R sc t sc' \<Longrightarrow> rule_halts t \<Longrightarrow> L sc [t] sc' ''stop_orchestration''"
    and step: "\<And>sc t sc1 ts sc' out. R sc t sc1 \<Longrightarrow> \<not> rule_halts t \<Longrightarrow> L sc1 ts sc' out \<Longrightarrow> L sc (t # ts) sc' out"
    and run: "execute_level lib path i rules sc traces = Inr (sc', traces', out)"
  shows "\<exists>more. traces' = traces @ more \<and> L sc more sc' out"
  using run
proof (induction "size_list size rules" arbitrary: path i rules sc traces sc' traces' out rule: less_induct)
  case less
  show ?case
  proof (cases rules)
    case Nil
    with less.prems nil show ?thesis by auto
  next
    case (Cons r rs)
    from less.prems Cons obtain t sc1 where it: "execute_rule lib path i r sc = Inr (t, sc1)"
      by (auto simp: res_bind_Inr_iff split: prod.splits)
    have small: "size_list size (rule_children r) < size_list size rules" "size_list size rs < size_list size rules"
      using Cons rule_children_size [of r] by auto
    have "L sc2 kids sc3 o2" if "execute_level lib p 0 (rule_children r) sc2 [] = Inr (sc3, kids, o2)" for p sc2 kids sc3 o2
      using less.hyps [OF small(1) that] by simp
    with rule [OF it] have R: "R sc t sc1" by blast
    show ?thesis
    proof (cases "rule_halts t")
      case True
      with less.prems Cons it halt [OF R] show ?thesis
        by (auto simp: rule_halts_def)
    next
      case False
      with less.prems Cons it have "execute_level lib path (Suc i) rs sc1 (traces @ [t]) = Inr (sc', traces', out)"
        by (auto simp: rule_halts_def)
      from less.hyps [OF small(2) this] obtain more where "traces' = (traces @ [t]) @ more" "L sc1 more sc' out"
        by blast
      with step [OF R False] show ?thesis
        by (intro exI [of _ "t # more"]) simp
    qed
  qed
qed

lemma child_level_rel:
  assumes "child_level lib p rule sc = Inr (sc', kids, out)"
    and "\<And>p sc1 sc2 kids out. execute_level lib p 0 (rule_children rule) sc1 [] = Inr (sc2, kids, out) \<Longrightarrow> L sc1 kids sc2 out"
    and "L sc [] sc ''continue''"
  shows "L sc kids sc' out"
  using assms by (auto simp: child_level_def split: if_splits)

subsection \<open>Counting matches\<close>

fun trace_matched :: "rule_execution \<Rightarrow> nat" where
  "trace_matched (RuleExecution p n e m md c a kids out code reason) =
     (if m then 1 else 0) + sum_list (map trace_matched kids)"

lemma trace_matched_eq: "trace_matched t = (if re_matched t then 1 else 0) + sum_list (map trace_matched (re_children t))"
  by (cases t) simp

lemma idle_trace:
  "rule_condition_step lib rule p i s = (Inr (Inl t), s1) \<Longrightarrow>
     \<not> re_matched t \<and> re_children t = [] \<and> re_actions t = [] \<and> re_outcome t = ''continue''"
  by (auto simp: rule_condition_step_def Let_def split: if_splits prod.splits sum.splits)

lemma rule_ending_counters:
  "rule_ending mode lo p c = (out, code, reason, c') \<Longrightarrow> ec_matched c' = ec_matched c"
  by (auto simp: rule_ending_def split: if_splits)

lemma execute_rule_matched:
  assumes "execute_rule lib path i rule sc = Inr (t, sc')"
    and "\<And>p sc1 sc2 kids out. execute_level lib p 0 (rule_children rule) sc1 [] = Inr (sc2, kids, out) \<Longrightarrow>
      ec_matched (snd sc2) = ec_matched (snd sc1) + sum_list (map trace_matched kids)"
  shows "ec_matched (snd sc') = ec_matched (snd sc) + trace_matched t"
  using assms(1)
proof (cases rule: execute_rule_cases)
  case (idle s1)
  then show ?thesis using idle_trace [OF idle(1)] by (simp add: trace_matched_eq)
next
  case (stopped cond s1 s2 steps)
  then show ?thesis by (simp add: trace_matched_eq [of t])
next
  case (child_stop cond s1 s2 steps out s3 c3 kids)
  have "ec_matched (snd (s3, c3)) = Suc (ec_matched (snd sc)) + sum_list (map trace_matched kids)"
    using child_level_rel [OF child_stop(4), where L = "\<lambda>sc1 kids sc2 out.
      ec_matched (snd sc2) = ec_matched (snd sc1) + sum_list (map trace_matched kids)"] assms(2) by simp
  with child_stop(5-8) show ?thesis by (auto simp: trace_matched_eq [of t])
next
  case (ended cond s1 s2 steps out s3 c3 kids kout)
  have "ec_matched (snd (s3, c3)) = Suc (ec_matched (snd sc)) + sum_list (map trace_matched kids)"
    using child_level_rel [OF ended(4), where L = "\<lambda>sc1 kids sc2 out.
      ec_matched (snd sc2) = ec_matched (snd sc1) + sum_list (map trace_matched kids)"] assms(2) by simp
  with ended(6-8) show ?thesis by (auto simp: trace_matched_eq [of t] dest: rule_ending_counters)
qed

lemma execute_level_matched:
  assumes "execute_level lib path i rules sc traces = Inr (sc', traces', out)"
  shows "\<exists>more. traces' = traces @ more \<and> ec_matched (snd sc') = ec_matched (snd sc) + sum_list (map trace_matched more)"
  using execute_level_rel [where R = "\<lambda>sc t sc'. ec_matched (snd sc') = ec_matched (snd sc) + trace_matched t"
      and L = "\<lambda>sc ts sc' out. ec_matched (snd sc') = ec_matched (snd sc) + sum_list (map trace_matched ts)", OF _ _ _ _ assms]
    execute_rule_matched by fastforce

subsection \<open>Where the run stopped\<close>

lemma execute_rule_stopped:
  assumes "execute_rule lib path i rule sc = Inr (t, sc')"
    and "\<And>p sc1 sc2 kids out. execute_level lib p 0 (rule_children rule) sc1 [] = Inr (sc2, kids, out) \<Longrightarrow>
      ec_stopped_at (snd sc1) = None \<longrightarrow> (ec_stopped_at (snd sc2) \<noteq> None \<longleftrightarrow> out = ''stop_orchestration'')"
    and "ec_stopped_at (snd sc) = None"
  shows "ec_stopped_at (snd sc') \<noteq> None \<longleftrightarrow> rule_halts t"
  using assms(1)
proof (cases rule: execute_rule_cases)
  case (idle s1)
  then show ?thesis using idle_trace [OF idle(1)] assms(3) by (simp add: rule_halts_def)
next
  case (stopped cond s1 s2 steps)
  then show ?thesis by (simp add: rule_halts_def)
next
  case (child_stop cond s1 s2 steps out s3 c3 kids)
  then show ?thesis by (auto simp: rule_halts_def)
next
  case (ended cond s1 s2 steps out s3 c3 kids kout)
  have "ec_stopped_at c3 = None"
    using child_level_rel [OF ended(4), where L = "\<lambda>sc1 kids sc2 out.
      ec_stopped_at (snd sc1) = None \<longrightarrow> (ec_stopped_at (snd sc2) \<noteq> None \<longleftrightarrow> out = ''stop_orchestration'')"]
      assms(2,3) ended(5) by simp
  with ended(3,8) show ?thesis
    by (auto simp: rule_halts_def rule_ending_def split: if_splits)
qed

lemma execute_level_stopped:
  assumes "execute_level lib path i rules sc traces = Inr (sc', traces', out)" and "ec_stopped_at (snd sc) = None"
  shows "ec_stopped_at (snd sc') \<noteq> None \<longleftrightarrow> out = ''stop_orchestration''"
proof -
  have "\<exists>more. traces' = traces @ more \<and> (ec_stopped_at (snd sc) = None \<longrightarrow>
      (ec_stopped_at (snd sc') \<noteq> None \<longleftrightarrow> out = ''stop_orchestration''))"
    by (rule execute_level_rel [where R = "\<lambda>sc t sc'. ec_stopped_at (snd sc) = None \<longrightarrow>
          (ec_stopped_at (snd sc') \<noteq> None \<longleftrightarrow> rule_halts t)"
        and L = "\<lambda>sc ts sc' out. ec_stopped_at (snd sc) = None \<longrightarrow>
          (ec_stopped_at (snd sc') \<noteq> None \<longleftrightarrow> out = ''stop_orchestration'')", OF _ _ _ _ assms(1)])
       (use execute_rule_stopped in blast, auto)
  with assms(2) show ?thesis by simp
qed

subsection \<open>The disposition\<close>

lemma rule_condition_step_core: "rule_condition_step lib rule p i s = (r, s1) \<Longrightarrow> core s1 = core s"
  using keeps_core_run [OF keeps_state_context [OF core_state_labels], of s]
  by (auto simp: rule_condition_step_def Let_def split: if_splits prod.splits sum.splits)

lemma rule_condition_step_settled: "settled s \<Longrightarrow> rule_condition_step lib rule p i s = (r, s1) \<Longrightarrow> s1 = s"
  using silent_state_context
  by (auto simp: rule_condition_step_def silent_def Let_def split: if_splits prod.splits sum.splits)

definition run_consistent :: "engine_state \<Rightarrow> engine_state \<Rightarrow> bool \<Rightarrow> bool" where
  "run_consistent sc sc' halted \<longleftrightarrow> (running (fst sc) \<longrightarrow>
     running (fst sc') \<or> disposition_ok (fst sc') \<and> event_dropped (fst sc') \<and> halted)"

lemma execute_rule_consistent:
  assumes "execute_rule lib path i rule sc = Inr (t, sc')"
    and "\<And>p sc1 sc2 kids out. execute_level lib p 0 (rule_children rule) sc1 [] = Inr (sc2, kids, out) \<Longrightarrow>
      run_consistent sc1 sc2 (out = ''stop_orchestration'')"
  shows "run_consistent sc sc' (rule_halts t)"
  unfolding run_consistent_def
proof
  assume run: "running (fst sc)"
  have acts: "running s2 \<or> disposition_ok s2 \<and> event_dropped s2 \<and> out = ''stop_orchestration''"
    if "rule_condition_step lib (items rule) p i (fst sc) = (r, s1)"
      and "execute_actions lib as s1 = Inr (s2, steps, out)" for p r s1 s2 steps out as
    using running_core [OF rule_condition_step_core [OF that(1), symmetric] run] that(2)
    by (rule execute_actions_running)
  have kids: "running (fst sc2) \<or> disposition_ok (fst sc2) \<and> event_dropped (fst sc2) \<and> out = ''stop_orchestration''"
    if "child_level lib p rule sc1 = Inr (sc2, ks, out)" and "running (fst sc1)" for p sc1 sc2 ks out
    using child_level_rel [OF that(1), where L = "\<lambda>sc1 ks sc2 out. run_consistent sc1 sc2 (out = ''stop_orchestration'')"]
      assms(2) that(2) by (simp add: run_consistent_def)
  from assms(1) show "running (fst sc') \<or> disposition_ok (fst sc') \<and> event_dropped (fst sc') \<and> rule_halts t"
  proof (cases rule: execute_rule_cases)
    case (idle s1)
    then show ?thesis
      using running_core [OF rule_condition_step_core [OF idle(1), symmetric] run] by simp
  next
    case (stopped cond s1 s2 steps)
    then show ?thesis using acts [OF stopped(1,2)] by (auto simp: rule_halts_def)
  next
    case (child_stop cond s1 s2 steps out s3 c3 ks)
    then have "running s2" using acts [OF child_stop(1,2)] by simp
    then show ?thesis using kids [OF child_stop(4)] child_stop(7,8) by (auto simp: rule_halts_def)
  next
    case (ended cond s1 s2 steps out s3 c3 ks kout)
    then have "running s2" using acts [OF ended(1,2)] by simp
    then show ?thesis using kids [OF ended(4)] ended(5,8) by auto
  qed
qed

lemma execute_level_consistent:
  assumes "execute_level lib path i rules sc traces = Inr (sc', traces', out)"
  shows "run_consistent sc sc' (out = ''stop_orchestration'')"
proof -
  have "\<exists>more. traces' = traces @ more \<and> run_consistent sc sc' (out = ''stop_orchestration'')"
    by (rule execute_level_rel [where R = "\<lambda>sc t sc'. run_consistent sc sc' (rule_halts t)"
        and L = "\<lambda>sc ts sc' out. run_consistent sc sc' (out = ''stop_orchestration'')", OF _ _ _ _ assms])
       (use execute_rule_consistent in blast, auto simp: run_consistent_def)
  then show ?thesis by simp
qed

subsection \<open>Rules and their traces\<close>

text \<open>
  The traces of a level, one by one: each is what executing the rule at its position gives in the
  state the rule before it left, and the level ends with its rules or with the first trace that
  halts. A trace carries the path and the name of its rule, its children are the traces of the rule's
  children in the same sense, and a child that halts halts it too.
\<close>

inductive ran_in_order ::
  "py_lib \<Rightarrow> string \<Rightarrow> nat \<Rightarrow> py list \<Rightarrow> engine_state \<Rightarrow> rule_execution list \<Rightarrow> engine_state \<Rightarrow> bool"
  and traces_rule :: "py_lib \<Rightarrow> string \<Rightarrow> nat \<Rightarrow> py \<Rightarrow> rule_execution \<Rightarrow> bool" for lib where
  ran_all: "ran_in_order lib path i [] sc [] sc"
| ran_halt: "execute_rule lib path i rule sc = Inr (t, sc') \<Longrightarrow> traces_rule lib path i rule t \<Longrightarrow> rule_halts t
    \<Longrightarrow> ran_in_order lib path i (rule # rules) sc [t] sc'"
| ran_next: "execute_rule lib path i rule sc = Inr (t, sc1) \<Longrightarrow> traces_rule lib path i rule t \<Longrightarrow> \<not> rule_halts t
    \<Longrightarrow> ran_in_order lib path (Suc i) rules sc1 ts sc' \<Longrightarrow> ran_in_order lib path i (rule # rules) sc (t # ts) sc'"
| traces_rule: "re_path t = path @ ''['' @ nat_str i @ '']'' \<Longrightarrow> re_name t = rule_name (items rule) i
    \<Longrightarrow> re_children t = [] \<or> (\<exists>sc sc'. ran_in_order lib (re_path t @ ''.children'') 0 (rule_children rule) sc (re_children t) sc')
    \<Longrightarrow> list_ex rule_halts (re_children t) \<longrightarrow> rule_halts t \<Longrightarrow> traces_rule lib path i rule t"

lemma execute_rule_place:
  assumes "execute_rule lib path i rule sc = Inr (t, sc')"
  shows "re_path t = path @ ''['' @ nat_str i @ '']'' \<and> re_name t = rule_name (items rule) i"
  using assms
proof (cases rule: execute_rule_cases)
  case (idle s1)
  then show ?thesis
    by (auto simp: rule_condition_step_def Let_def split: if_splits prod.splits sum.splits)
qed

lemma execute_rule_traced:
  assumes run: "execute_rule lib path i rule sc = Inr (t, sc')"
    and kids: "\<And>p sc1 sc2 kids out. execute_level lib p 0 (rule_children rule) sc1 [] = Inr (sc2, kids, out) \<Longrightarrow>
      ran_in_order lib p 0 (rule_children rule) sc1 kids sc2"
  shows "traces_rule lib path i rule t"
proof -
  note place = execute_rule_place [OF run]
  have level: "re_children t = [] \<or> (\<exists>sc sc'. ran_in_order lib (re_path t @ ''.children'') 0 (rule_children rule) sc (re_children t) sc')"
    "out \<noteq> ''stop_orchestration'' \<longrightarrow> \<not> list_ex rule_halts (re_children t)"
    if "child_level lib (path @ ''['' @ nat_str i @ '']'') rule sc1 = Inr (sc2, ks, out)" "re_children t = ks" for sc1 sc2 ks out
  proof -
    from that have "re_children t = [] \<or> execute_level lib (re_path t @ ''.children'') 0 (rule_children rule) sc1 [] = Inr (sc2, re_children t, out)"
      using place by (auto simp: child_level_def split: if_splits)
    then show "re_children t = [] \<or> (\<exists>sc sc'. ran_in_order lib (re_path t @ ''.children'') 0 (rule_children rule) sc (re_children t) sc')"
      "out \<noteq> ''stop_orchestration'' \<longrightarrow> \<not> list_ex rule_halts (re_children t)"
      using kids execute_level_outcome [of lib "re_path t @ ''.children''" 0 "rule_children rule" sc1 "[]" sc2 "re_children t" out]
      by (blast, fastforce simp: list_all_iff list_ex_iff)
  qed
  from run show ?thesis
  proof (cases rule: execute_rule_cases)
    case (idle s1)
    then show ?thesis
      using idle_trace [OF idle(1)] place by (intro traces_rule) simp_all
  next
    case (stopped cond s1 s2 steps)
    then show ?thesis
      using place by (intro traces_rule) simp_all
  next
    case (child_stop cond s1 s2 steps out s3 c3 ks)
    then show ?thesis
      using place level(1) [OF child_stop(4,6)] by (intro traces_rule) (simp_all add: rule_halts_def)
  next
    case (ended cond s1 s2 steps out s3 c3 ks kout)
    then show ?thesis
      using place level [OF ended(4,7)] by (intro traces_rule) simp_all
  qed
qed

lemma execute_level_ordered:
  "execute_level lib path i rules sc traces = Inr (sc', traces', out) \<Longrightarrow>
     \<exists>more. traces' = traces @ more \<and> ran_in_order lib path i rules sc more sc'"
proof (induction "size_list size rules" arbitrary: path i rules sc traces sc' traces' out rule: less_induct)
  case less
  show ?case
  proof (cases rules)
    case Nil
    with less.prems show ?thesis by (auto intro: ran_all)
  next
    case (Cons r rs)
    from less.prems Cons obtain t sc1 where it: "execute_rule lib path i r sc = Inr (t, sc1)"
      by (auto simp: res_bind_Inr_iff split: prod.splits)
    have small: "size_list size (rule_children r) < size_list size rules" "size_list size rs < size_list size rules"
      using Cons rule_children_size [of r] by auto
    have tr: "traces_rule lib path i r t"
      by (rule execute_rule_traced [OF it]) (use less.hyps [OF small(1)] in fastforce)
    show ?thesis
    proof (cases "rule_halts t")
      case True
      with less.prems Cons it ran_halt [OF it tr] show ?thesis
        by (auto simp: rule_halts_def)
    next
      case False
      with less.prems Cons it have "execute_level lib path (Suc i) rs sc1 (traces @ [t]) = Inr (sc', traces', out)"
        by (auto simp: rule_halts_def)
      from less.hyps [OF small(2) this] obtain more where "traces' = (traces @ [t]) @ more" "ran_in_order lib path (Suc i) rs sc1 more sc'"
        by blast
      with ran_next [OF it tr False] Cons show ?thesis
        by (intro exI [of _ "t # more"]) simp
    qed
  qed
qed

section \<open>Size of a rule tree\<close>

function rule_count :: "py list \<Rightarrow> nat" where
  "rule_count [] = 0"
| "rule_count (r # rs) = Suc (rule_count (rule_children r)) + rule_count rs"
  by pat_completeness auto
termination
  by (relation "measure (size_list size)") (auto simp: less_Suc_eq_le rule_children_size intro!: trans_le_add1)

function rule_depth :: "py list \<Rightarrow> nat" where
  "rule_depth [] = 0"
| "rule_depth (r # rs) = max (Suc (rule_depth (rule_children r))) (rule_depth rs)"
  by pat_completeness auto
termination
  by (relation "measure (size_list size)") (auto simp: less_Suc_eq_le rule_children_size intro!: trans_le_add1)

lemma check_rule_nodes: "check_rule lib rule p n = Inr u \<Longrightarrow> n \<le> MAX_RULE_NODES"
  by (auto simp: check_rule_def split: if_splits)

lemma validate_rules_size:
  "validate_rules lib rules path depth nodes = Inr n \<Longrightarrow> nodes \<le> MAX_RULE_NODES \<Longrightarrow>
     n = nodes + rule_count rules \<and> n \<le> MAX_RULE_NODES \<and> depth + rule_depth rules \<le> MAX_RULE_DEPTH"
  "validate_rule_list lib rules path depth i nodes = Inr n \<Longrightarrow> nodes \<le> MAX_RULE_NODES \<Longrightarrow> depth \<le> MAX_RULE_DEPTH \<Longrightarrow>
     n = nodes + rule_count rules \<and> n \<le> MAX_RULE_NODES \<and> depth + rule_depth rules \<le> MAX_RULE_DEPTH"
proof (induction lib rules path depth nodes and lib rules path depth i nodes arbitrary: n and n
    rule: validate_rules_validate_rule_list.induct)
  case (1 lib rules path depth nodes)
  then show ?case
    by (auto simp: validate_rules.simps [of lib rules] split: if_splits)
next
  case (2 lib path depth i nodes)
  then show ?case by simp
next
  case (3 lib rule rules path depth i nodes)
  let ?p = "path @ ''['' @ nat_str i @ '']''"
  from "3.prems"(1) obtain m where c: "check_rule lib rule ?p (Suc nodes) = Inr ()"
    and k: "validate_rules lib (rule_children rule) (?p @ ''.children'') (Suc depth) (Suc nodes) = Inr m"
    and r: "validate_rule_list lib rules path depth (Suc i) m = Inr n"
    by (auto simp: res_bind_Inr_iff Let_def)
  note kids = "3.IH"(1) [OF refl c k check_rule_nodes [OF c]]
  from "3.IH"(2) [OF refl c k r _ "3.prems"(3)] kids show ?case
    by (auto simp: max_def)
qed

section \<open>Properties\<close>

lemma execute_rule_tree_run:
  assumes "execute_rule_tree lib config rules context = Inr r"
  obtains n s0 s c out where "validate_rules lib rules ''rules'' 0 0 = Inr n" "from_context config context = Inr s0"
    "execute_level lib ''rules'' 0 rules (s0, \<lparr>ec_matched = 0, ec_stopped_at = None\<rparr>) [] = Inr ((s, c), or_rules r, out)"
    "or_state r = s" "or_matched_rule_count r = ec_matched c" "or_stopped_at r = ec_stopped_at c"
    "or_outcome r = (if truthy (dget (ea_result s) ''dropped'') then ''drop''
                     else if out = ''stop_orchestration'' then ''stop'' else ''continue'')"
  using assms by (auto simp: execute_rule_tree_def res_bind_Inr_iff)

definition demo_rules :: "py list" where
  "demo_rules =
     [PDict [(''name'', PStr ''off''), (''enabled'', PBool False)],
      PDict [(''name'', PStr ''parent''), (''processing_mode'', PStr ''children_then_continue''),
             (''children'', PList
               [PDict [(''condition_tree'', PDict [(''field'', PStr ''labels.env''), (''operator'', PStr ''equals''), (''value'', PStr ''dev'')]),
                       (''actions'', PList [PDict [(''type'', PStr ''drop'')]])],
                PDict [(''actions'', PList [PDict [(''type'', PStr ''suppress'')]])]])],
      PDict [(''processing_mode'', PStr ''stop'')],
      PDict [(''actions'', PList [PDict [(''type'', PStr ''drop'')]])]]"

definition demo_orch_context :: pydict where
  "demo_orch_context = [(''event'', PDict [(''title'', PStr ''disk'')]), (''labels'', PDict [(''env'', PStr ''prod'')])]"

lemma demo_tree_run:
  obtains r where "execute_rule_tree no_lib (PStr ''full'') demo_rules demo_orch_context = Inr r"
    "or_outcome r = ''stop''" "or_matched_rule_count r = 3" "or_stopped_at r = Some ''rules[2]''" "length (or_rules r) = 3"
    "dget (ea_result (or_state r)) ''disposition'' = PStr ''suppress''"
proof -
  have "case execute_rule_tree no_lib (PStr ''full'') demo_rules demo_orch_context of
      Inr r \<Rightarrow> or_outcome r = ''stop'' \<and> or_matched_rule_count r = 3 \<and> or_stopped_at r = Some ''rules[2]''
        \<and> length (or_rules r) = 3 \<and> dget (ea_result (or_state r)) ''disposition'' = PStr ''suppress''
    | Inl _ \<Rightarrow> False"
    by code_simp
  then show thesis using that by (auto split: sum.splits)
qed

text \<open>
  C1. The outcome of an event agrees with the state it leaves: started without an earlier
  result, the disposition is consistent, the outcome is \<open>drop\<close> exactly when the event is
  dropped, and the engine reports where it stopped exactly when the outcome is not
  \<open>continue\<close>.
\<close>

theorem orchestration_outcome:
  assumes "execute_rule_tree lib config rules context = Inr r" and "\<not> truthy (dget context ''result'')"
  shows "disposition_ok (or_state r) \<and> (or_outcome r = ''drop'' \<longleftrightarrow> event_dropped (or_state r)) \<and>
         (or_stopped_at r \<noteq> None \<longleftrightarrow> or_outcome r \<noteq> ''continue'')"
  using assms(1)
proof (rule execute_rule_tree_run)
  fix n s0 s c out
  assume run: "from_context config context = Inr s0"
    "execute_level lib ''rules'' 0 rules (s0, \<lparr>ec_matched = 0, ec_stopped_at = None\<rparr>) [] = Inr ((s, c), or_rules r, out)"
    and r: "or_state r = s" "or_stopped_at r = ec_stopped_at c"
    "or_outcome r = (if truthy (dget (ea_result s) ''dropped'') then ''drop''
                     else if out = ''stop_orchestration'' then ''stop'' else ''continue'')"
  have "running s \<or> disposition_ok s \<and> event_dropped s \<and> out = ''stop_orchestration''"
    using execute_level_consistent [OF run(2)] from_context_fresh(2) [OF run(1) assms(2)]
    by (simp add: run_consistent_def)
  moreover have "ec_stopped_at c \<noteq> None \<longleftrightarrow> out = ''stop_orchestration''"
    using execute_level_stopped [OF run(2)] by simp
  ultimately show ?thesis
    using r by (auto simp: running_def disposition_ok_def event_dropped_def Let_def)
qed

theorem orchestration_outcome_witness:
  "\<exists>r. execute_rule_tree no_lib (PStr ''full'') demo_rules demo_orch_context = Inr r \<and>
     or_outcome r = ''stop'' \<and> disposition_ok (or_state r) \<and> \<not> event_dropped (or_state r)"
proof (rule demo_tree_run)
  fix r
  assume run: "execute_rule_tree no_lib (PStr ''full'') demo_rules demo_orch_context = Inr r" and "or_outcome r = ''stop''"
  moreover have "\<not> truthy (dget demo_orch_context ''result'')"
    by (simp add: demo_orch_context_def dget_def)
  ultimately show ?thesis
    using orchestration_outcome [OF run] by auto
qed

text \<open>
  C14. Rules are evaluated in order and nothing runs after a stop. From the state the context
  gives, the traces of the top level are one by one what executing the rule at the same position
  yields in the state left by the rule before it, with that rule's path and name, and the children
  of a trace are the traces of that rule's children in the same way, at every level; the last of these
  states is the reported one. A level ends with its rules or at its first halting trace, so the top
  level covers a prefix of the rules, only its last trace halts, and the engine reports a stop
  exactly when that one does.
\<close>

theorem rules_stop_in_order:
  assumes "execute_rule_tree lib config rules context = Inr r"
  shows "(\<exists>s0 c. from_context config context = Inr s0
      \<and> ran_in_order lib ''rules'' 0 rules (s0, \<lparr>ec_matched = 0, ec_stopped_at = None\<rparr>) (or_rules r) (or_state r, c)
      \<and> or_matched_rule_count r = ec_matched c \<and> or_stopped_at r = ec_stopped_at c)
    \<and> length (or_rules r) \<le> length rules \<and> list_all (\<lambda>t. \<not> rule_halts t) (butlast (or_rules r)) \<and>
    (if or_stopped_at r = None then length (or_rules r) = length rules \<and> list_all (\<lambda>t. \<not> rule_halts t) (or_rules r)
     else or_rules r \<noteq> [] \<and> rule_halts (last (or_rules r)))"
  using assms
proof (rule execute_rule_tree_run)
  fix n s0 s c out
  assume start: "from_context config context = Inr s0"
    and run: "execute_level lib ''rules'' 0 rules (s0, \<lparr>ec_matched = 0, ec_stopped_at = None\<rparr>) [] = Inr ((s, c), or_rules r, out)"
    and c: "or_state r = s" "or_matched_rule_count r = ec_matched c" "or_stopped_at r = ec_stopped_at c"
  have "ran_in_order lib ''rules'' 0 rules (s0, \<lparr>ec_matched = 0, ec_stopped_at = None\<rparr>) (or_rules r) (or_state r, c)"
    using execute_level_ordered [OF run] c(1) by simp
  with start c have "\<exists>s0 c. from_context config context = Inr s0
      \<and> ran_in_order lib ''rules'' 0 rules (s0, \<lparr>ec_matched = 0, ec_stopped_at = None\<rparr>) (or_rules r) (or_state r, c)
      \<and> or_matched_rule_count r = ec_matched c \<and> or_stopped_at r = ec_stopped_at c"
    by blast
  then show ?thesis
    using execute_level_outcome [OF run] execute_level_stopped [OF run] c(3) by auto
qed

theorem rules_stop_in_order_witness:
  "\<exists>r. execute_rule_tree no_lib (PStr ''full'') demo_rules demo_orch_context = Inr r \<and>
     length (or_rules r) = 3 \<and> length demo_rules = 4 \<and> rule_halts (last (or_rules r))"
proof (rule demo_tree_run)
  fix r
  assume run: "execute_rule_tree no_lib (PStr ''full'') demo_rules demo_orch_context = Inr r"
    and "or_stopped_at r = Some ''rules[2]''" "length (or_rules r) = 3"
  then show ?thesis
    using rules_stop_in_order [OF run] by (auto simp: demo_rules_def)
qed

text \<open>The reported number of matched rules is the number of matched rules in the trace, children included.\<close>

theorem matched_rule_count_exact:
  assumes "execute_rule_tree lib config rules context = Inr r"
  shows "or_matched_rule_count r = sum_list (map trace_matched (or_rules r))"
  using assms
proof (rule execute_rule_tree_run)
  fix n s0 s c out
  assume "execute_level lib ''rules'' 0 rules (s0, \<lparr>ec_matched = 0, ec_stopped_at = None\<rparr>) [] = Inr ((s, c), or_rules r, out)"
    and "or_matched_rule_count r = ec_matched c"
  then show ?thesis
    using execute_level_matched by fastforce
qed

theorem matched_rule_count_exact_witness:
  "\<exists>r. execute_rule_tree no_lib (PStr ''full'') demo_rules demo_orch_context = Inr r \<and>
     sum_list (map trace_matched (or_rules r)) = 3"
  using demo_tree_run matched_rule_count_exact by metis

text \<open>A tree that executes has at most 512 rules and at most 20 levels.\<close>

theorem rule_tree_bounded:
  assumes "execute_rule_tree lib config rules context = Inr r"
  shows "rule_count rules \<le> 512 \<and> rule_depth rules \<le> 20"
  using assms
proof (rule execute_rule_tree_run)
  fix n
  assume "validate_rules lib rules ''rules'' 0 0 = Inr n"
  then show ?thesis
    using validate_rules_size(1) [of lib rules "''rules''" 0 0 n] by (simp add: MAX_RULE_NODES_def MAX_RULE_DEPTH_def)
qed

theorem rule_tree_bounded_witness:
  "(\<exists>r. execute_rule_tree no_lib (PStr ''full'') demo_rules demo_orch_context = Inr r) \<and>
   rule_count demo_rules \<le> 512 \<and> rule_depth demo_rules \<le> 20"
  using demo_tree_run rule_tree_bounded by metis

text \<open>
  A rule that is disabled or does not match has no effect: it runs no action and leaves
  the event state and the counters unchanged.
\<close>

theorem unmatched_rule_no_effect:
  assumes "execute_rule lib path i rule sc = Inr (t, sc')" and "\<not> re_matched t" and "settled (fst sc)"
  shows "sc' = sc \<and> re_actions t = [] \<and> re_children t = [] \<and> re_outcome t = ''continue''"
  using assms(1)
proof (cases rule: execute_rule_cases)
  case (idle s1)
  then show ?thesis
    using idle_trace [OF idle(1)] rule_condition_step_settled [OF assms(3) idle(1)] by simp
qed (use assms(2) in simp_all)

theorem unmatched_rule_no_effect_witness:
  "\<exists>t. execute_rule no_lib ''rules'' 0 (demo_rules ! 0) (demo_state, \<lparr>ec_matched = 0, ec_stopped_at = None\<rparr>)
     = Inr (t, (demo_state, \<lparr>ec_matched = 0, ec_stopped_at = None\<rparr>))"
proof -
  let ?run = "execute_rule no_lib ''rules'' 0 (demo_rules ! 0) (demo_state, \<lparr>ec_matched = 0, ec_stopped_at = None\<rparr>)"
  have "case ?run of Inr (t, sc) \<Rightarrow> \<not> re_matched t | Inl _ \<Rightarrow> False"
    by code_simp
  then obtain t sc' where "?run = Inr (t, sc')" "\<not> re_matched t"
    by (auto split: sum.splits)
  then show ?thesis
    using unmatched_rule_no_effect [of no_lib "''rules''" 0] demo_state_ok(2) by fastforce
qed

end
