(* ===== verification/Token_Scopes.thy ===== *)
theory Token_Scopes
  imports Py_Values
begin

text \<open>
  API-token scopes (\<open>services/api_token_scopes.py\<close>): the map from requests to required
  scopes, expansion of legacy aggregate scopes, and delegation of scopes from one token to
  another. Python sets of scopes are lists read as sets.
\<close>

lemma conj_lazy [code_unfold]: "p \<and> q \<longleftrightarrow> (if p then q else False)"
  by simp

lemma disj_lazy [code_unfold]: "p \<or> q \<longleftrightarrow> (if p then True else q)"
  by simp

section \<open>Scope tables\<close>

definition READ_METHODS :: "string list" where "READ_METHODS = [''GET'', ''HEAD'']"
definition WRITE_METHODS :: "string list" where "WRITE_METHODS = [''POST'', ''PUT'', ''PATCH'', ''DELETE'']"

definition PUBLIC_API_PATHS :: "string list" where
  "PUBLIC_API_PATHS = [''/api/auth/login'', ''/api/auth/logout'', ''/api/push/actions'']"

definition PUBLIC_API_PREFIXES :: "string list" where
  "PUBLIC_API_PREFIXES = [''/api/auth/sso'', ''/api/integrations'', ''/api/heartbeats/ping'', ''/api/version'']"

definition READ_WRITE_SCOPE_DOMAINS :: "string list" where
  "READ_WRITE_SCOPE_DOMAINS =
     [''alerts'', ''incidents'', ''services'', ''teams'', ''groups'', ''users'', ''rotations'', ''calendar'',
      ''routes'', ''channels'', ''maintenance'', ''heartbeats'', ''policies'', ''orchestrations'', ''sso'', ''profile'']"

definition READ_ONLY_SCOPE_DOMAINS :: "string list" where "READ_ONLY_SCOPE_DOMAINS = [''audit'']"

definition GRANULAR_READ_SCOPES :: "string list" where
  "GRANULAR_READ_SCOPES = map (\<lambda>domain. domain @ '':read'') (READ_WRITE_SCOPE_DOMAINS @ READ_ONLY_SCOPE_DOMAINS)"

definition GRANULAR_WRITE_SCOPES :: "string list" where
  "GRANULAR_WRITE_SCOPES = map (\<lambda>domain. domain @ '':write'') READ_WRITE_SCOPE_DOMAINS"

definition LEGACY_AGGREGATE_SCOPES :: "string list" where
  "LEGACY_AGGREGATE_SCOPES = [''resources:read'', ''resources:write'']"

definition PROFILE_TOKEN_SCOPE_OPTIONS :: "string list" where
  "PROFILE_TOKEN_SCOPE_OPTIONS = GRANULAR_READ_SCOPES @ GRANULAR_WRITE_SCOPES @ LEGACY_AGGREGATE_SCOPES @ [''*'']"

definition LEGACY_RESOURCE_DOMAINS :: "string list" where
  "LEGACY_RESOURCE_DOMAINS =
     [''incidents'', ''services'', ''teams'', ''groups'', ''users'', ''rotations'', ''calendar'', ''routes'',
      ''channels'', ''maintenance'', ''heartbeats'', ''policies'', ''orchestrations'', ''audit'', ''sso'']"

definition API_SCOPE_RULES :: "(string \<times> string) list" where
  "API_SCOPE_RULES =
     [(''/api/openapi.json'', ''profile''),
      (''/api/admin/audit-logs'', ''audit''),
      (''/api/admin/sso'', ''sso''),
      (''/api/admin/users'', ''users''),
      (''/api/orchestration-webhook-actions'', ''orchestrations''),
      (''/api/event-orchestrations'', ''orchestrations''),
      (''/api/notification-policies'', ''policies''),
      (''/api/priority-policies'', ''policies''),
      (''/api/escalation-policies'', ''policies''),
      (''/api/matcher-presets'', ''policies''),
      (''/api/matchers'', ''policies''),
      (''/api/maintenance-windows'', ''maintenance''),
      (''/api/business-services'', ''services''),
      (''/api/notification-center'', ''profile''),
      (''/api/oncall-health'', ''rotations''),
      (''/api/heartbeats'', ''heartbeats''),
      (''/api/incidents'', ''incidents''),
      (''/api/services'', ''services''),
      (''/api/silences'', ''maintenance''),
      (''/api/rotations'', ''rotations''),
      (''/api/calendar'', ''calendar''),
      (''/api/channels'', ''channels''),
      (''/api/routes'', ''routes''),
      (''/api/teams'', ''teams''),
      (''/api/groups'', ''groups''),
      (''/api/users'', ''users''),
      (''/api/alert-groups'', ''alerts''),
      (''/api/profile'', ''profile''),
      (''/api/auth'', ''profile'')]"

section \<open>Requests\<close>

definition path_matches_prefix :: "string \<Rightarrow> string \<Rightarrow> bool" where
  "path_matches_prefix path pre \<longleftrightarrow> path = pre \<or> prefix (pre @ ''/'') path"

text \<open>\<open>str(method or "").upper()\<close>\<close>

definition norm_method :: "py \<Rightarrow> string" where
  "norm_method m = upper (py_str (py_or m (PStr [])))"

definition is_public_calendar_feed_path :: "string \<Rightarrow> py \<Rightarrow> bool" where
  "is_public_calendar_feed_path path m =
     (let pre = ''/api/calendar/feeds/''; rest = drop (length pre) path in
      if norm_method m \<notin> set READ_METHODS then False
      else if \<not> prefix pre path then False
      else rest \<noteq> [] \<and> suffix ''.ics'' rest \<and> CHR ''/'' \<notin> set rest)"

definition is_public_api_request :: "string \<Rightarrow> py \<Rightarrow> bool" where
  "is_public_api_request path m =
     (if path \<in> set PUBLIC_API_PATHS then True
      else if is_public_calendar_feed_path path m then True
      else list_ex (path_matches_prefix path) PUBLIC_API_PREFIXES)"

definition request_action :: "py \<Rightarrow> string option" where
  "request_action m =
     (if norm_method m \<in> set READ_METHODS then Some ''read''
      else if norm_method m \<in> set WRITE_METHODS then Some ''write'' else None)"

fun scope_for_rules :: "(string \<times> string) list \<Rightarrow> string \<Rightarrow> string \<Rightarrow> string list option" where
  "scope_for_rules [] path action = None"
| "scope_for_rules ((pre, domain) # rules) path action =
     (if \<not> path_matches_prefix path pre then scope_for_rules rules path action
      else let scope = domain @ '':'' @ action in
           if scope \<notin> set PROFILE_TOKEN_SCOPE_OPTIONS then None else Some [scope])"

definition required_scopes_for_path :: "string \<Rightarrow> py \<Rightarrow> string list option" where
  "required_scopes_for_path path m =
     (case request_action m of
        None \<Rightarrow> None
      | Some action \<Rightarrow> scope_for_rules API_SCOPE_RULES path action)"

section \<open>Tokens\<close>

text \<open>The granular scopes that an aggregate stands for.\<close>

definition legacy_scopes :: "string \<Rightarrow> string list" where
  "legacy_scopes action =
     filter (\<lambda>s. s \<in> set PROFILE_TOKEN_SCOPE_OPTIONS) (map (\<lambda>d. d @ '':'' @ action) LEGACY_RESOURCE_DOMAINS)"

definition expand_token_scopes :: "string list \<Rightarrow> string list" where
  "expand_token_scopes scopes =
     (if ''*'' \<in> set scopes then scopes @ PROFILE_TOKEN_SCOPE_OPTIONS
      else scopes @ (if ''resources:read'' \<in> set scopes then legacy_scopes ''read'' else [])
                  @ (if ''resources:write'' \<in> set scopes then legacy_scopes ''write'' else []))"

definition token_has_scopes :: "string list \<Rightarrow> string list \<Rightarrow> bool" where
  "token_has_scopes token_scopes required =
     (if required = [] then True
      else if ''*'' \<in> set token_scopes then True
      else list_all (\<lambda>s. s \<in> set (expand_token_scopes token_scopes)) required)"

fun grant_loop :: "string list \<Rightarrow> string list \<Rightarrow> bool" where
  "grant_loop current [] = True"
| "grant_loop current (scope # requested) =
     (if scope = ''*'' then False
      else if scope \<in> set LEGACY_AGGREGATE_SCOPES
      then (if scope \<notin> set current then False else grant_loop current requested)
      else if \<not> token_has_scopes current [scope] then False
      else grant_loop current requested)"

definition token_can_grant_scopes :: "string list \<Rightarrow> string list \<Rightarrow> bool" where
  "token_can_grant_scopes current requested =
     (if ''*'' \<in> set current then True else grant_loop current requested)"

section \<open>Lemmas\<close>

lemma grant_loop_iff:
  "grant_loop current requested \<longleftrightarrow>
     (\<forall>s \<in> set requested. s \<noteq> ''*'' \<and>
        (if s \<in> set LEGACY_AGGREGATE_SCOPES then s \<in> set current else token_has_scopes current [s]))"
  by (induction requested) auto

lemma token_has_scopes_single:
  "''*'' \<notin> set current \<Longrightarrow> token_has_scopes current [s] \<longleftrightarrow> s \<in> set (expand_token_scopes current)"
  by (simp add: token_has_scopes_def)

lemma set_expand_superset: "s \<in> set current \<Longrightarrow> s \<in> set (expand_token_scopes current)"
  by (simp add: expand_token_scopes_def)

lemma expand_mono:
  assumes "set requested \<subseteq> set (expand_token_scopes current)" and "''*'' \<notin> set requested" and "''*'' \<notin> set current"
    and "set requested \<inter> set LEGACY_AGGREGATE_SCOPES \<subseteq> set current"
  shows "set (expand_token_scopes requested) \<subseteq> set (expand_token_scopes current)"
  using assms by (auto simp: expand_token_scopes_def LEGACY_AGGREGATE_SCOPES_def)

text \<open>The prefixes of the table are pairwise incomparable, so at most one rule applies to a path.\<close>

definition overlapping :: "string \<Rightarrow> string \<Rightarrow> bool" where
  "overlapping p q \<longleftrightarrow> prefix (p @ ''/'') (q @ ''/'') \<or> prefix (q @ ''/'') (p @ ''/'')"

lemma path_matches_prefix_slash: "path_matches_prefix path p \<longleftrightarrow> prefix (p @ ''/'') (path @ ''/'')"
  unfolding path_matches_prefix_def by (auto simp only: prefix_snoc append_same_eq)

lemma both_match_overlap:
  "path_matches_prefix path p \<Longrightarrow> path_matches_prefix path q \<Longrightarrow> overlapping p q"
  unfolding overlapping_def path_matches_prefix_slash by (rule prefix_same_cases)

fun disjoint_rules :: "(string \<times> string) list \<Rightarrow> bool" where
  "disjoint_rules [] = True"
| "disjoint_rules ((p, d) # rules) = (list_all (\<lambda>(q, e). \<not> overlapping p q) rules \<and> disjoint_rules rules)"

lemma api_scope_rules_disjoint: "disjoint_rules API_SCOPE_RULES"
  by code_simp

lemma scope_for_rules_iff:
  assumes "disjoint_rules rules"
  shows "scope_for_rules rules path action = Some ss \<longleftrightarrow>
     (\<exists>pre domain. (pre, domain) \<in> set rules \<and> path_matches_prefix path pre \<and>
        domain @ '':'' @ action \<in> set PROFILE_TOKEN_SCOPE_OPTIONS \<and> ss = [domain @ '':'' @ action])"
  using assms
proof (induction rules)
  case (Cons r rules)
  obtain p d where r: "r = (p, d)" by (cases r)
  show ?case
  proof (cases "path_matches_prefix path p")
    case True
    have "\<not> path_matches_prefix path q" if "(q, e) \<in> set rules" for q e
      using Cons.prems both_match_overlap [OF True] that r by (fastforce simp: list_all_iff)
    with True r show ?thesis by (auto simp: Let_def)
  next
    case False
    with Cons r show ?thesis by auto
  qed
qed simp

section \<open>Properties\<close>

text \<open>
  C22. Delegation never escalates: a token minted with scopes that another token may grant
  passes no scope check that the granting token would not pass itself.
\<close>

theorem delegation_no_escalation:
  assumes "token_can_grant_scopes current requested" and "token_has_scopes requested required"
  shows "token_has_scopes current required"
proof (cases "''*'' \<in> set current \<or> required = []")
  case False
  then have g: "grant_loop current requested"
    using assms(1) by (auto simp: token_can_grant_scopes_def)
  then have star: "''*'' \<notin> set requested"
    by (auto simp: grant_loop_iff)
  have "set requested \<subseteq> set (expand_token_scopes current)"
  proof
    fix s assume s: "s \<in> set requested"
    have "if s \<in> set LEGACY_AGGREGATE_SCOPES then s \<in> set current else token_has_scopes current [s]"
      using g [unfolded grant_loop_iff] s by blast
    then show "s \<in> set (expand_token_scopes current)"
      using False token_has_scopes_single set_expand_superset by (metis (full_types))
  qed
  moreover have "set requested \<inter> set LEGACY_AGGREGATE_SCOPES \<subseteq> set current"
    using g [unfolded grant_loop_iff] by (metis (full_types) Int_iff subsetI)
  ultimately have "set (expand_token_scopes requested) \<subseteq> set (expand_token_scopes current)"
    using expand_mono star False by blast
  with assms(2) False star show ?thesis
    by (auto simp: token_has_scopes_def list_all_iff)
qed (auto simp: token_has_scopes_def)

theorem delegation_no_escalation_witness:
  "token_can_grant_scopes [''resources:read''] [''teams:read''] \<and> token_has_scopes [''teams:read''] [''teams:read''] \<and>
   token_has_scopes [''resources:read''] [''teams:read'']"
proof -
  have "token_can_grant_scopes [''resources:read''] [''teams:read'']" "token_has_scopes [''teams:read''] [''teams:read'']"
    by code_simp+
  with delegation_no_escalation [OF this] show ?thesis by blast
qed

text \<open>
  The required scope of a request does not depend on the order of the table: it is
  \<open>domain:read\<close> or \<open>domain:write\<close> by the method, for the one rule whose prefix covers the
  path, and only when that scope exists; every other request is denied to tokens.
\<close>

theorem required_scope_spec:
  "required_scopes_for_path path m = Some ss \<longleftrightarrow>
     (\<exists>action pre domain. request_action m = Some action \<and> (pre, domain) \<in> set API_SCOPE_RULES \<and>
        path_matches_prefix path pre \<and> domain @ '':'' @ action \<in> set PROFILE_TOKEN_SCOPE_OPTIONS \<and>
        ss = [domain @ '':'' @ action])"
  using scope_for_rules_iff [OF api_scope_rules_disjoint]
  by (cases "request_action m") (auto simp: required_scopes_for_path_def)

end
