(* ===== verification/Auth_Throttle.thy ===== *)
theory Auth_Throttle
  imports Py_Values
begin

text \<open>
  Rate limiting of password logins (\<open>services/auth_throttle.py\<close>) and the login endpoint
  that consults it (\<open>views/auth_view.py\<close>). The table \<open>login_throttle\<close> is a map from the hash
  of a bucket key to its row; instants are integers in microseconds. The SHA-256 digest and
  the verification of credentials are parameters.
\<close>

section \<open>The table and its policy\<close>

record throttle_row =
  tr_scope :: string
  failure_count :: int
  window_started_at :: int
  blocked_until :: "int option"
  updated_at :: int

type_synonym throttle_table = "string \<rightharpoonup> throttle_row"

record auth_config =
  LOGIN_IP_MAX_FAILURES :: int
  LOGIN_IP_WINDOW_SECONDS :: int
  LOGIN_IP_BLOCK_SECONDS :: int
  LOGIN_ACCOUNT_MAX_FAILURES :: int
  LOGIN_ACCOUNT_WINDOW_SECONDS :: int
  LOGIN_ACCOUNT_BLOCK_SECONDS :: int

definition seconds :: "int \<Rightarrow> int" where
  "seconds n = n * 1000000"

definition SCOPE_IP :: string where "SCOPE_IP = ''ip''"
definition SCOPE_ACCOUNT :: string where "SCOPE_ACCOUNT = ''account''"

definition normalize :: "string \<Rightarrow> py \<Rightarrow> string" where
  "normalize scope v =
     (let tx = lower (strip (py_str (py_or v (PStr '''')))) in if tx = '''' then ''unknown'' else tx)"

definition key_hash :: "(string \<Rightarrow> string) \<Rightarrow> string \<Rightarrow> py \<Rightarrow> string" where
  "key_hash sha256 scope v = sha256 (scope @ '':'' @ normalize scope v)"

definition policy :: "auth_config \<Rightarrow> string \<Rightarrow> int \<times> int \<times> int" where
  "policy cfg scope =
     (if scope = SCOPE_IP
      then (LOGIN_IP_MAX_FAILURES cfg, LOGIN_IP_WINDOW_SECONDS cfg, LOGIN_IP_BLOCK_SECONDS cfg)
      else (LOGIN_ACCOUNT_MAX_FAILURES cfg, LOGIN_ACCOUNT_WINDOW_SECONDS cfg, LOGIN_ACCOUNT_BLOCK_SECONDS cfg))"

definition keys :: "py \<Rightarrow> py \<Rightarrow> (string \<times> py) list" where
  "keys username remote_addr = [(SCOPE_IP, remote_addr), (SCOPE_ACCOUNT, username)]"

section \<open>Operations\<close>

text \<open>One round of the loop of \<open>login_retry_after\<close>.\<close>

definition retry_round :: "throttle_row option \<Rightarrow> int \<Rightarrow> int \<Rightarrow> int" where
  "retry_round row now retry_after =
     (case row of
        None \<Rightarrow> retry_after
      | Some r \<Rightarrow>
          (case blocked_until r of
             None \<Rightarrow> retry_after
           | Some b \<Rightarrow> if b \<le> now then retry_after else max retry_after ((b - now) div 1000000 + 1)))"

definition login_retry_after :: "(string \<Rightarrow> string) \<Rightarrow> throttle_table \<Rightarrow> py \<Rightarrow> py \<Rightarrow> int \<Rightarrow> int" where
  "login_retry_after sha256 tbl username remote_addr now =
     max (fold (\<lambda>(scope, v). retry_round (tbl (key_hash sha256 scope v)) now) (keys username remote_addr) 0) 0"

definition block_end :: "int \<Rightarrow> int \<Rightarrow> int" where
  "block_end block_seconds now = now + seconds (max block_seconds 1)"

definition new_row :: "string \<Rightarrow> int \<times> int \<times> int \<Rightarrow> int \<Rightarrow> throttle_row" where
  "new_row scope pol now =
     (case pol of (max_failures, window_seconds, block_seconds) \<Rightarrow>
       \<lparr>tr_scope = scope, failure_count = 1, window_started_at = now,
        blocked_until = (if max_failures \<le> 1 then Some (block_end block_seconds now) else None),
        updated_at = now\<rparr>)"

definition bump_row :: "int \<times> int \<times> int \<Rightarrow> int \<Rightarrow> throttle_row \<Rightarrow> throttle_row" where
  "bump_row pol now row =
     (case pol of (max_failures, window_seconds, block_seconds) \<Rightarrow>
        let row = (if window_started_at row \<le> now - seconds window_seconds
                   then row\<lparr>failure_count := 1, window_started_at := now, blocked_until := None\<rparr>
                   else row\<lparr>failure_count := failure_count row + 1\<rparr>);
            row = (if failure_count row \<ge> max_failures
                   then row\<lparr>blocked_until := Some (block_end block_seconds now)\<rparr> else row)
        in row\<lparr>updated_at := now\<rparr>)"

definition record_failure ::
  "(string \<Rightarrow> string) \<Rightarrow> auth_config \<Rightarrow> int \<Rightarrow> string \<times> py \<Rightarrow> throttle_table \<Rightarrow> throttle_table" where
  "record_failure sha256 cfg now sv tbl =
     (let pol = policy cfg (fst sv); k = key_hash sha256 (fst sv) (snd sv) in
      if fst pol \<le> 0 then tbl
      else case tbl k of
             None \<Rightarrow> tbl(k \<mapsto> new_row (fst sv) pol now)
           | Some row \<Rightarrow> tbl(k \<mapsto> bump_row pol now row))"

definition purge :: "int \<Rightarrow> throttle_table \<Rightarrow> throttle_table" where
  "purge now tbl = (\<lambda>k. case tbl k of
      None \<Rightarrow> None
    | Some r \<Rightarrow> if updated_at r < now - seconds (7 * 86400) then None else Some r)"

definition record_login_failure ::
  "(string \<Rightarrow> string) \<Rightarrow> auth_config \<Rightarrow> throttle_table \<Rightarrow> py \<Rightarrow> py \<Rightarrow> int \<Rightarrow> throttle_table" where
  "record_login_failure sha256 cfg tbl username remote_addr now =
     purge now (fold (record_failure sha256 cfg now) (keys username remote_addr) tbl)"

definition clear_login_account_failures :: "(string \<Rightarrow> string) \<Rightarrow> throttle_table \<Rightarrow> py \<Rightarrow> throttle_table" where
  "clear_login_account_failures sha256 tbl username = tbl(key_hash sha256 SCOPE_ACCOUNT username := None)"

section \<open>The login endpoint\<close>

text \<open>
  A request carries its credentials and the instants at which the endpoint reads the clock:
  before the check, when a failure is recorded, and for the answer to a failure.
\<close>

record login_request =
  lr_username :: string
  lr_password :: string
  lr_addr :: py
  lr_t1 :: int
  lr_t2 :: int
  lr_t3 :: int

datatype login_response = RateLimited int | InvalidCredentials | LoggedIn

definition login ::
  "(string \<Rightarrow> string) \<Rightarrow> auth_config \<Rightarrow> (string \<Rightarrow> string \<Rightarrow> bool) \<Rightarrow> throttle_table \<Rightarrow> login_request \<Rightarrow>
   login_response \<times> throttle_table" where
  "login sha256 cfg credentials_ok tbl req =
     (let username = PStr (lr_username req); remote_addr = py_or (lr_addr req) (PStr ''unknown'');
          retry_after = login_retry_after sha256 tbl username remote_addr (lr_t1 req) in
      if retry_after \<noteq> 0 then (RateLimited retry_after, tbl)
      else if \<not> credentials_ok (lr_username req) (lr_password req)
      then (let tbl = record_login_failure sha256 cfg tbl username remote_addr (lr_t2 req);
                retry_after = login_retry_after sha256 tbl username remote_addr (lr_t3 req) in
            (if retry_after \<noteq> 0 then RateLimited retry_after else InvalidCredentials, tbl))
      else (LoggedIn, clear_login_account_failures sha256 tbl username))"

text \<open>Whether a request gets as far as the check of its password.\<close>

definition password_checked :: "(string \<Rightarrow> string) \<Rightarrow> throttle_table \<Rightarrow> login_request \<Rightarrow> bool" where
  "password_checked sha256 tbl req \<longleftrightarrow>
     login_retry_after sha256 tbl (PStr (lr_username req)) (py_or (lr_addr req) (PStr ''unknown'')) (lr_t1 req) = 0"

text \<open>The password checks that a sequence of requests obtains for one (normalised) account.\<close>

fun checks_for ::
  "(string \<Rightarrow> string) \<Rightarrow> auth_config \<Rightarrow> (string \<Rightarrow> string \<Rightarrow> bool) \<Rightarrow> string \<Rightarrow> throttle_table \<Rightarrow> login_request list \<Rightarrow> nat" where
  "checks_for sha256 cfg credentials_ok account tbl [] = 0"
| "checks_for sha256 cfg credentials_ok account tbl (req # reqs) =
     (if normalize SCOPE_ACCOUNT (PStr (lr_username req)) = account \<and> password_checked sha256 tbl req then 1 else 0) +
     checks_for sha256 cfg credentials_ok account (snd (login sha256 cfg credentials_ok tbl req)) reqs"

section \<open>Rows\<close>

text \<open>
  A row is consistent with its policy when the block is exactly that of the last recorded
  failure, if that failure reached the limit.
\<close>

definition row_ok :: "int \<times> int \<times> int \<Rightarrow> throttle_row \<Rightarrow> bool" where
  "row_ok pol r \<longleftrightarrow> failure_count r \<ge> 1 \<and> window_started_at r \<le> updated_at r \<and>
     blocked_until r = (if failure_count r \<ge> fst pol then Some (block_end (snd (snd pol)) (updated_at r)) else None)"

lemmas row_defs = new_row_def bump_row_def row_ok_def

lemma new_row_ok: "row_ok pol (new_row scope pol now)"
  by (cases pol) (auto simp: row_defs)

lemma bump_row_ok: "row_ok pol r \<Longrightarrow> updated_at r \<le> now \<Longrightarrow> row_ok pol (bump_row pol now r)"
  by (cases pol) (auto simp: row_defs Let_def)

lemma tr_scope_rows [simp]:
  "tr_scope (new_row scope pol now) = scope" "tr_scope (bump_row pol now r) = tr_scope r"
  "updated_at (new_row scope pol now) = now" "updated_at (bump_row pol now r) = now"
  by (cases pol; simp add: row_defs Let_def)+

text \<open>What a row contributes to \<open>retry_after\<close>.\<close>

definition row_wait :: "throttle_row option \<Rightarrow> int \<Rightarrow> int" where
  "row_wait row now = retry_round row now 0"

lemma retry_round_wait: "0 \<le> n \<Longrightarrow> retry_round row now n = max n (row_wait row now)"
  by (auto simp: retry_round_def row_wait_def split: option.splits)

lemma row_wait_nonneg: "0 \<le> row_wait row now"
  by (auto simp: retry_round_def row_wait_def pos_imp_zdiv_nonneg_iff split: option.splits)

lemma row_wait_zero_iff:
  "row_wait row now = 0 \<longleftrightarrow> (\<forall>r b. row = Some r \<longrightarrow> blocked_until r = Some b \<longrightarrow> b \<le> now)"
proof -
  have "0 < max 0 ((b - now) div 1000000 + 1)" if "\<not> b \<le> now" for b
    using that pos_imp_zdiv_nonneg_iff [of 1000000 "b - now"] by simp
  then show ?thesis
    by (force simp: retry_round_def row_wait_def split: option.splits)
qed

lemma login_retry_after_max:
  "login_retry_after sha256 tbl u a now =
     max (row_wait (tbl (key_hash sha256 SCOPE_IP a)) now) (row_wait (tbl (key_hash sha256 SCOPE_ACCOUNT u)) now)"
  using row_wait_nonneg [of "tbl (key_hash sha256 SCOPE_IP a)" now]
    row_wait_nonneg [of "tbl (key_hash sha256 SCOPE_ACCOUNT u)" now]
  by (simp add: login_retry_after_def keys_def retry_round_wait)

section \<open>The table under the operations\<close>

definition bucket :: "string \<Rightarrow> string \<Rightarrow> string" where
  "bucket scope normalized = scope @ '':'' @ normalized"

lemma key_hash_bucket: "key_hash sha256 scope v = sha256 (bucket scope (normalize scope v))"
  by (simp add: key_hash_def bucket_def)

lemma bucket_eq_iff [simp]:
  "bucket SCOPE_ACCOUNT x = bucket SCOPE_ACCOUNT y \<longleftrightarrow> x = y" "bucket SCOPE_IP x = bucket SCOPE_IP y \<longleftrightarrow> x = y"
  "bucket SCOPE_ACCOUNT x \<noteq> bucket SCOPE_IP y" "bucket SCOPE_IP y \<noteq> bucket SCOPE_ACCOUNT x"
  by (simp_all add: bucket_def SCOPE_ACCOUNT_def SCOPE_IP_def)

lemma scopes_distinct [simp]: "SCOPE_ACCOUNT \<noteq> SCOPE_IP" "SCOPE_IP \<noteq> SCOPE_ACCOUNT"
  by (simp_all add: SCOPE_ACCOUNT_def SCOPE_IP_def)

lemma policy_simps [simp]:
  "policy cfg SCOPE_IP = (LOGIN_IP_MAX_FAILURES cfg, LOGIN_IP_WINDOW_SECONDS cfg, LOGIN_IP_BLOCK_SECONDS cfg)"
  "policy cfg SCOPE_ACCOUNT =
     (LOGIN_ACCOUNT_MAX_FAILURES cfg, LOGIN_ACCOUNT_WINDOW_SECONDS cfg, LOGIN_ACCOUNT_BLOCK_SECONDS cfg)"
  by (simp_all add: policy_def)

lemma record_failure_other: "k \<noteq> key_hash sha256 scope v \<Longrightarrow> record_failure sha256 cfg now (scope, v) tbl k = tbl k"
  by (auto simp: record_failure_def Let_def split: option.splits)

lemma record_failure_same:
  "0 < fst (policy cfg scope) \<Longrightarrow> record_failure sha256 cfg now (scope, v) tbl (key_hash sha256 scope v) =
     Some (case tbl (key_hash sha256 scope v) of
             None \<Rightarrow> new_row scope (policy cfg scope) now
           | Some row \<Rightarrow> bump_row (policy cfg scope) now row)"
  by (auto simp: record_failure_def Let_def split: option.splits)

lemma purge_cong: "tbl k = tbl' k \<Longrightarrow> purge now tbl k = purge now tbl' k"
  by (simp add: purge_def)

lemma purge_keeps: "tbl k = Some r \<Longrightarrow> now - seconds (7 * 86400) \<le> updated_at r \<Longrightarrow> purge now tbl k = Some r"
  by (simp add: purge_def)

lemma purge_SomeD: "purge now tbl k = Some r \<Longrightarrow> tbl k = Some r"
  by (auto simp: purge_def split: option.splits if_splits)

lemma record_login_failure_other:
  assumes "k \<noteq> key_hash sha256 SCOPE_IP a" and "k \<noteq> key_hash sha256 SCOPE_ACCOUNT u"
  shows "record_login_failure sha256 cfg tbl u a now k = purge now tbl k"
  unfolding record_login_failure_def keys_def
  by (rule purge_cong) (use assms in \<open>simp add: record_failure_other\<close>)

lemma record_login_failure_account:
  assumes "key_hash sha256 SCOPE_ACCOUNT u \<noteq> key_hash sha256 SCOPE_IP a" and "0 < LOGIN_ACCOUNT_MAX_FAILURES cfg"
  shows "record_login_failure sha256 cfg tbl u a now (key_hash sha256 SCOPE_ACCOUNT u) =
     Some (case tbl (key_hash sha256 SCOPE_ACCOUNT u) of
             None \<Rightarrow> new_row SCOPE_ACCOUNT (policy cfg SCOPE_ACCOUNT) now
           | Some row \<Rightarrow> bump_row (policy cfg SCOPE_ACCOUNT) now row)"
  using assms unfolding record_login_failure_def keys_def
  by (auto intro!: purge_keeps simp: record_failure_same record_failure_other seconds_def split: option.splits)

section \<open>Reachable tables\<close>

text \<open>
  The tables that a service can reach whose failures fall into the buckets \<open>names\<close>: failures
  recorded and accounts cleared in any order, while the clock advances.
\<close>

inductive throttle_reach ::
  "(string \<Rightarrow> string) \<Rightarrow> auth_config \<Rightarrow> string set \<Rightarrow> throttle_table \<Rightarrow> int \<Rightarrow> bool"
  for sha256 :: "string \<Rightarrow> string" and cfg :: auth_config and names :: "string set" where
  start: "throttle_reach sha256 cfg names Map.empty t"
| tick: "throttle_reach sha256 cfg names tbl t \<Longrightarrow> t \<le> t' \<Longrightarrow> throttle_reach sha256 cfg names tbl t'"
| failure: "throttle_reach sha256 cfg names tbl t \<Longrightarrow>
     bucket SCOPE_IP (normalize SCOPE_IP a) \<in> names \<Longrightarrow> bucket SCOPE_ACCOUNT (normalize SCOPE_ACCOUNT u) \<in> names \<Longrightarrow>
     throttle_reach sha256 cfg names (record_login_failure sha256 cfg tbl u a t) t"
| success: "throttle_reach sha256 cfg names tbl t \<Longrightarrow>
     throttle_reach sha256 cfg names (clear_login_account_failures sha256 tbl u) t"

definition table_ok :: "(string \<Rightarrow> string) \<Rightarrow> auth_config \<Rightarrow> string set \<Rightarrow> throttle_table \<Rightarrow> int \<Rightarrow> bool" where
  "table_ok sha256 cfg names tbl t \<longleftrightarrow>
     (\<forall>k r. tbl k = Some r \<longrightarrow> row_ok (policy cfg (tr_scope r)) r \<and> updated_at r \<le> t \<and>
        tr_scope r \<in> {SCOPE_IP, SCOPE_ACCOUNT} \<and>
        (\<exists>x. k = sha256 (bucket (tr_scope r) x) \<and> bucket (tr_scope r) x \<in> names))"

lemma table_okD:
  assumes "table_ok sha256 cfg names tbl t" and "tbl k = Some r"
  shows "row_ok (policy cfg (tr_scope r)) r" "updated_at r \<le> t" "tr_scope r \<in> {SCOPE_IP, SCOPE_ACCOUNT}"
    "\<exists>x. k = sha256 (bucket (tr_scope r) x) \<and> bucket (tr_scope r) x \<in> names"
  using assms unfolding table_ok_def by blast+

lemma table_ok_scope:
  assumes "table_ok sha256 cfg names tbl t" and "inj_on sha256 names"
    and "scope \<in> {SCOPE_IP, SCOPE_ACCOUNT}" and "bucket scope x \<in> names" and "tbl (sha256 (bucket scope x)) = Some r"
  shows "tr_scope r = scope"
proof -
  obtain y where "sha256 (bucket scope x) = sha256 (bucket (tr_scope r) y)" "bucket (tr_scope r) y \<in> names"
    using table_okD(4) [OF assms(1,5)] by blast
  then have "bucket scope x = bucket (tr_scope r) y"
    using assms(2,4) by (meson inj_onD)
  with table_okD(3) [OF assms(1,5)] assms(3) show ?thesis
    by fastforce
qed

lemma table_ok_record_failure:
  assumes "table_ok sha256 cfg names tbl t" and "inj_on sha256 names"
    and "scope \<in> {SCOPE_IP, SCOPE_ACCOUNT}" and "bucket scope (normalize scope v) \<in> names"
  shows "table_ok sha256 cfg names (record_failure sha256 cfg t (scope, v) tbl) t"
proof (cases "fst (policy cfg scope) \<le> 0")
  case False
  let ?k = "key_hash sha256 scope v"
  show ?thesis
    unfolding table_ok_def
  proof (intro allI impI)
    fix k r assume r: "record_failure sha256 cfg t (scope, v) tbl k = Some r"
    show "row_ok (policy cfg (tr_scope r)) r \<and> updated_at r \<le> t \<and> tr_scope r \<in> {SCOPE_IP, SCOPE_ACCOUNT} \<and>
        (\<exists>x. k = sha256 (bucket (tr_scope r) x) \<and> bucket (tr_scope r) x \<in> names)"
    proof (cases "k = ?k")
      case True
      have "tr_scope r0 = scope \<and> row_ok (policy cfg scope) r0 \<and> updated_at r0 \<le> t" if "tbl ?k = Some r0" for r0
        using table_ok_scope [OF assms, of r0] table_okD [OF assms(1) that] that by (simp add: key_hash_bucket)
      with r False have "row_ok (policy cfg scope) r \<and> tr_scope r = scope \<and> updated_at r \<le> t"
        unfolding True by (auto simp: record_failure_same new_row_ok bump_row_ok split: option.splits)
      with True assms(3,4) key_hash_bucket show ?thesis by metis
    next
      case False
      with r have "tbl k = Some r" by (simp add: record_failure_other)
      from table_okD [OF assms(1) this] show ?thesis by blast
    qed
  qed
qed (use assms in \<open>simp add: record_failure_def Let_def\<close>)

lemma table_ok_subset:
  "table_ok sha256 cfg names tbl t \<Longrightarrow> (\<And>k r. tbl' k = Some r \<Longrightarrow> tbl k = Some r) \<Longrightarrow> table_ok sha256 cfg names tbl' t"
  unfolding table_ok_def by blast

lemma reachable_table_ok:
  assumes "throttle_reach sha256 cfg names tbl t" and "inj_on sha256 names"
  shows "table_ok sha256 cfg names tbl t"
  using assms(1)
proof induction
  case (start t)
  show ?case by (simp add: table_ok_def)
next
  case (tick tbl t t')
  then show ?case unfolding table_ok_def by (meson order_trans)
next
  case (failure tbl t a u)
  have "table_ok sha256 cfg names (record_failure sha256 cfg t (SCOPE_ACCOUNT, u) (record_failure sha256 cfg t (SCOPE_IP, a) tbl)) t"
    using failure by (intro table_ok_record_failure assms(2)) simp_all
  then show ?case
    by (rule table_ok_subset) (auto simp: record_login_failure_def keys_def dest: purge_SomeD)
next
  case (success tbl t u)
  from success.IH show ?case
    by (rule table_ok_subset) (simp add: clear_login_account_failures_def split: if_splits)
qed

lemma row_wait_bound:
  assumes "row_ok pol r" and "updated_at r \<le> t" and "snd (snd pol) \<le> m" and "1 \<le> m"
  shows "row_wait (Some r) now \<le> (if t + seconds m \<le> now then 0 else (t + seconds m - now) div 1000000 + 1)"
proof (cases "row_wait (Some r) now = 0")
  case True
  then show ?thesis by (simp add: pos_imp_zdiv_nonneg_iff)
next
  case False
  then obtain b where b: "blocked_until r = Some b" "now < b"
    by (auto simp: row_wait_zero_iff)
  then have "b = block_end (snd (snd pol)) (updated_at r)"
    using assms(1) by (auto simp: row_ok_def split: if_splits)
  then have "b \<le> t + seconds m"
    using assms by (simp add: block_end_def seconds_def)
  with b show ?thesis
    by (simp add: row_wait_def retry_round_def zdiv_mono1)
qed

lemma table_wait_bound:
  assumes "table_ok sha256 cfg names tbl t" and "inj_on sha256 names"
    and "scope \<in> {SCOPE_IP, SCOPE_ACCOUNT}" and "bucket scope (normalize scope v) \<in> names"
    and "snd (snd (policy cfg scope)) \<le> m" and "1 \<le> m"
  shows "row_wait (tbl (key_hash sha256 scope v)) now \<le>
     (if t + seconds m \<le> now then 0 else (t + seconds m - now) div 1000000 + 1)"
proof (cases "tbl (key_hash sha256 scope v)")
  case None
  then show ?thesis by (simp add: row_wait_def retry_round_def pos_imp_zdiv_nonneg_iff)
next
  case (Some r)
  then have "tr_scope r = scope"
    using table_ok_scope [OF assms(1-4)] by (simp add: key_hash_bucket)
  with table_okD [OF assms(1) Some] assms(5,6) Some show ?thesis
    using row_wait_bound [of "policy cfg scope" r t m now] by simp
qed

section \<open>Guessing one account\<close>

text \<open>
  The row of an account after \<open>n\<close> recorded failures in a window that opened at or after
  \<open>t0\<close>: the counter is exact and, once the limit is reached, the block outlasts the window.
\<close>

definition guessed :: "auth_config \<Rightarrow> int \<Rightarrow> nat \<Rightarrow> throttle_row option \<Rightarrow> bool" where
  "guessed cfg t0 n row \<longleftrightarrow>
     (case row of
        None \<Rightarrow> n = 0
      | Some r \<Rightarrow> failure_count r = int n \<and> int n \<le> LOGIN_ACCOUNT_MAX_FAILURES cfg \<and>
          t0 \<le> window_started_at r \<and> t0 \<le> updated_at r \<and> row_ok (policy cfg SCOPE_ACCOUNT) r)"

lemma guessed_failure:
  assumes "guessed cfg t0 n row" and "int n < LOGIN_ACCOUNT_MAX_FAILURES cfg" and "t0 \<le> now"
    and "now < t0 + seconds (LOGIN_ACCOUNT_WINDOW_SECONDS cfg)"
    and "\<And>r. row = Some r \<Longrightarrow> updated_at r \<le> now"
  shows "guessed cfg t0 (Suc n) (Some (case row of
             None \<Rightarrow> new_row SCOPE_ACCOUNT (policy cfg SCOPE_ACCOUNT) now
           | Some row \<Rightarrow> bump_row (policy cfg SCOPE_ACCOUNT) now row))"
proof (cases row)
  case None
  with assms(1-3) new_row_ok [of "policy cfg SCOPE_ACCOUNT" SCOPE_ACCOUNT now] show ?thesis
    by (simp add: guessed_def) (simp add: new_row_def)
next
  case (Some r)
  with assms bump_row_ok [of "policy cfg SCOPE_ACCOUNT" r now] show ?thesis
    by (simp add: guessed_def) (simp add: bump_row_def Let_def)
qed

lemma guessed_unblocked:
  assumes "guessed cfg t0 n row" and "row_wait row now = 0" and "0 < LOGIN_ACCOUNT_MAX_FAILURES cfg"
    and "now < t0 + seconds (LOGIN_ACCOUNT_WINDOW_SECONDS cfg)"
    and "LOGIN_ACCOUNT_WINDOW_SECONDS cfg \<le> LOGIN_ACCOUNT_BLOCK_SECONDS cfg"
  shows "int n < LOGIN_ACCOUNT_MAX_FAILURES cfg"
proof (rule ccontr)
  assume n: "\<not> int n < LOGIN_ACCOUNT_MAX_FAILURES cfg"
  with assms(1,3) obtain r where "row = Some r" "t0 \<le> updated_at r"
    "blocked_until r = Some (block_end (LOGIN_ACCOUNT_BLOCK_SECONDS cfg) (updated_at r))"
    by (cases row) (auto simp: guessed_def row_ok_def)
  with assms(2,4,5) show False
    by (auto simp: row_wait_zero_iff block_end_def seconds_def)
qed

definition req_addr :: "login_request \<Rightarrow> py" where
  "req_addr req = py_or (lr_addr req) (PStr ''unknown'')"

definition req_account :: "login_request \<Rightarrow> string" where
  "req_account req = normalize SCOPE_ACCOUNT (PStr (lr_username req))"

definition clock_readings :: "login_request \<Rightarrow> int list" where
  "clock_readings req = [lr_t1 req, lr_t2 req, lr_t3 req]"

definition req_buckets :: "login_request \<Rightarrow> string list" where
  "req_buckets req = [bucket SCOPE_IP (normalize SCOPE_IP (req_addr req)), bucket SCOPE_ACCOUNT (req_account req)]"

lemmas req_defs = req_addr_def [symmetric] req_account_def [symmetric]

lemma login_row_blocked: "\<not> password_checked sha256 tbl req \<Longrightarrow> snd (login sha256 cfg ok tbl req) = tbl"
  by (simp add: password_checked_def login_def)

lemma login_row_other:
  assumes "inj_on sha256 (insert (bucket SCOPE_ACCOUNT account) (set (req_buckets req)))"
    and "req_account req \<noteq> account"
  shows "snd (login sha256 cfg ok tbl req) (sha256 (bucket SCOPE_ACCOUNT account)) =
     (if password_checked sha256 tbl req \<and> \<not> ok (lr_username req) (lr_password req)
      then purge (lr_t2 req) tbl (sha256 (bucket SCOPE_ACCOUNT account)) else tbl (sha256 (bucket SCOPE_ACCOUNT account)))"
proof -
  have ne: "sha256 (bucket SCOPE_ACCOUNT account) \<noteq> key_hash sha256 SCOPE_IP (req_addr req)"
    "sha256 (bucket SCOPE_ACCOUNT account) \<noteq> key_hash sha256 SCOPE_ACCOUNT (PStr (lr_username req))"
    using assms by (auto simp: key_hash_bucket req_buckets_def req_account_def [symmetric] dest!: inj_onD)
  show ?thesis
    using ne by (auto simp: password_checked_def login_def req_defs Let_def record_login_failure_other
        clear_login_account_failures_def)
qed

lemma login_row_same:
  assumes "inj_on sha256 (insert (bucket SCOPE_ACCOUNT (req_account req)) (set (req_buckets req)))"
    and "0 < LOGIN_ACCOUNT_MAX_FAILURES cfg" and "password_checked sha256 tbl req"
    and "\<not> ok (lr_username req) (lr_password req)"
  shows "snd (login sha256 cfg ok tbl req) (sha256 (bucket SCOPE_ACCOUNT (req_account req))) =
     Some (case tbl (sha256 (bucket SCOPE_ACCOUNT (req_account req))) of
             None \<Rightarrow> new_row SCOPE_ACCOUNT (policy cfg SCOPE_ACCOUNT) (lr_t2 req)
           | Some row \<Rightarrow> bump_row (policy cfg SCOPE_ACCOUNT) (lr_t2 req) row)"
proof -
  have k: "key_hash sha256 SCOPE_ACCOUNT (PStr (lr_username req)) = sha256 (bucket SCOPE_ACCOUNT (req_account req))"
    by (simp add: key_hash_bucket req_account_def)
  then have ne: "key_hash sha256 SCOPE_ACCOUNT (PStr (lr_username req)) \<noteq> key_hash sha256 SCOPE_IP (req_addr req)"
    using assms(1) by (auto simp: key_hash_bucket req_buckets_def dest!: inj_onD)
  have "snd (login sha256 cfg ok tbl req) =
      record_login_failure sha256 cfg tbl (PStr (lr_username req)) (req_addr req) (lr_t2 req)"
    using assms(3,4) by (simp add: password_checked_def login_def Let_def req_addr_def)
  with record_login_failure_account [OF ne assms(2)] k show ?thesis by simp
qed

definition checks_now :: "(string \<Rightarrow> string) \<Rightarrow> string \<Rightarrow> throttle_table \<Rightarrow> login_request \<Rightarrow> nat" where
  "checks_now sha256 account tbl req = (if req_account req = account \<and> password_checked sha256 tbl req then 1 else 0)"

text \<open>The state of an account between two requests: \<open>n\<close> guesses so far, the last one by \<open>t\<close>.\<close>

definition account_at ::
  "(string \<Rightarrow> string) \<Rightarrow> auth_config \<Rightarrow> string \<Rightarrow> int \<Rightarrow> int \<Rightarrow> nat \<Rightarrow> throttle_table \<Rightarrow> bool" where
  "account_at sha256 cfg account t0 t n tbl \<longleftrightarrow>
     guessed cfg t0 n (tbl (sha256 (bucket SCOPE_ACCOUNT account))) \<and> int n \<le> LOGIN_ACCOUNT_MAX_FAILURES cfg \<and>
     (\<forall>r. tbl (sha256 (bucket SCOPE_ACCOUNT account)) = Some r \<longrightarrow> updated_at r \<le> t)"

text \<open>Policies under which a block outlasts the window and a window the retention of rows.\<close>

definition blocking_policy :: "auth_config \<Rightarrow> bool" where
  "blocking_policy cfg \<longleftrightarrow> 0 < LOGIN_ACCOUNT_MAX_FAILURES cfg \<and>
     LOGIN_ACCOUNT_WINDOW_SECONDS cfg \<le> LOGIN_ACCOUNT_BLOCK_SECONDS cfg \<and> LOGIN_ACCOUNT_WINDOW_SECONDS cfg \<le> 7 * 86400"

lemma login_checked_account:
  assumes "inj_on sha256 (insert (bucket SCOPE_ACCOUNT account) (set (req_buckets req)))" and "blocking_policy cfg"
    and "t0 \<le> t" "t \<le> lr_t1 req" "lr_t1 req \<le> lr_t2 req" "lr_t2 req < t0 + seconds (LOGIN_ACCOUNT_WINDOW_SECONDS cfg)"
    and "req_account req = account" and "password_checked sha256 tbl req" and "\<not> ok (lr_username req) (lr_password req)"
    and "account_at sha256 cfg account t0 t n tbl"
  shows "account_at sha256 cfg account t0 (lr_t2 req) (Suc n) (snd (login sha256 cfg ok tbl req))"
proof -
  let ?k = "sha256 (bucket SCOPE_ACCOUNT account)"
  have "row_wait (tbl ?k) (lr_t1 req) = 0"
    using row_wait_nonneg [of "tbl ?k" "lr_t1 req"] assms(7,8)
    by (simp add: password_checked_def login_retry_after_max key_hash_bucket req_account_def [symmetric])
  then have lt: "int n < LOGIN_ACCOUNT_MAX_FAILURES cfg"
    using guessed_unblocked [of cfg t0 n "tbl ?k" "lr_t1 req"] assms by (simp add: account_at_def blocking_policy_def)
  have row: "snd (login sha256 cfg ok tbl req) ?k = Some (case tbl ?k of
           None \<Rightarrow> new_row SCOPE_ACCOUNT (policy cfg SCOPE_ACCOUNT) (lr_t2 req)
         | Some row \<Rightarrow> bump_row (policy cfg SCOPE_ACCOUNT) (lr_t2 req) row)"
    using login_row_same [of sha256 req cfg tbl ok] assms by (simp add: blocking_policy_def)
  have "guessed cfg t0 (Suc n) (snd (login sha256 cfg ok tbl req) ?k)"
    unfolding row by (rule guessed_failure) (use assms lt in \<open>auto simp: account_at_def\<close>)
  with row lt show ?thesis
    by (auto simp: account_at_def split: option.splits)
qed

lemma login_unchecked_account:
  assumes "inj_on sha256 (insert (bucket SCOPE_ACCOUNT account) (set (req_buckets req)))" and "blocking_policy cfg"
    and "t \<le> lr_t2 req" "lr_t2 req < t0 + seconds (LOGIN_ACCOUNT_WINDOW_SECONDS cfg)"
    and "\<not> (req_account req = account \<and> password_checked sha256 tbl req)"
    and "account_at sha256 cfg account t0 t n tbl"
  shows "account_at sha256 cfg account t0 (lr_t2 req) n (snd (login sha256 cfg ok tbl req))"
proof -
  let ?k = "sha256 (bucket SCOPE_ACCOUNT account)"
  have "purge (lr_t2 req) tbl ?k = tbl ?k"
  proof (cases "tbl ?k")
    case (Some r)
    then have "t0 \<le> updated_at r" using assms(6) by (simp add: account_at_def guessed_def)
    then show ?thesis
      using Some purge_keeps [of tbl ?k r] assms(2,4) by (simp add: seconds_def blocking_policy_def)
  qed (simp add: purge_def)
  then have "snd (login sha256 cfg ok tbl req) ?k = tbl ?k"
    using login_row_other [OF assms(1)] login_row_blocked [of sha256 tbl req] assms(5) by (cases "req_account req = account") auto
  then show ?thesis
    using assms(3,6) by (fastforce simp: account_at_def)
qed

lemma guesses_bounded:
  assumes "inj_on sha256 (insert (bucket SCOPE_ACCOUNT account) (set (concat (map req_buckets reqs))))"
    and "blocking_policy cfg"
    and "sorted (t # concat (map clock_readings reqs))" and "t0 \<le> t"
    and "\<forall>t' \<in> set (concat (map clock_readings reqs)). t' < t0 + seconds (LOGIN_ACCOUNT_WINDOW_SECONDS cfg)"
    and "\<forall>req \<in> set reqs. req_account req = account \<longrightarrow> \<not> ok (lr_username req) (lr_password req)"
    and "account_at sha256 cfg account t0 t n tbl"
  shows "int (n + checks_for sha256 cfg ok account tbl reqs) \<le> LOGIN_ACCOUNT_MAX_FAILURES cfg"
  using assms
proof (induction reqs arbitrary: tbl t n)
  case Nil
  then show ?case by (simp add: account_at_def)
next
  case (Cons req reqs)
  have r: "clock_readings req = [lr_t1 req, lr_t2 req, lr_t3 req]" by (simp add: clock_readings_def)
  have inj: "inj_on sha256 (insert (bucket SCOPE_ACCOUNT account) (set (req_buckets req)))"
    "inj_on sha256 (insert (bucket SCOPE_ACCOUNT account) (set (concat (map req_buckets reqs))))"
    using Cons.prems(1) by (auto elim!: inj_on_subset)
  have clock: "t \<le> lr_t1 req" "lr_t1 req \<le> lr_t2 req" "sorted (lr_t2 req # concat (map clock_readings reqs))"
    "lr_t2 req < t0 + seconds (LOGIN_ACCOUNT_WINDOW_SECONDS cfg)"
    using Cons.prems(3,5) by (auto simp: r)
  have "account_at sha256 cfg account t0 (lr_t2 req) (checks_now sha256 account tbl req + n) (snd (login sha256 cfg ok tbl req))"
  proof (cases "req_account req = account \<and> password_checked sha256 tbl req")
    case True
    with login_checked_account [OF inj(1) Cons.prems(2,4) clock(1,2,4) _ _ _ Cons.prems(7)] Cons.prems(6) show ?thesis
      by (simp add: checks_now_def)
  next
    case False
    with login_unchecked_account [OF inj(1) Cons.prems(2) _ clock(4) False Cons.prems(7)] clock(1,2) show ?thesis
      by (auto simp: checks_now_def)
  qed
  from Cons.IH [OF inj(2) Cons.prems(2) clock(3) _ _ _ this] show ?case
    using Cons.prems(4-6) clock(1,2) by (simp add: checks_now_def req_account_def)
qed

section \<open>Properties\<close>

text \<open>
  C3. No password spraying: starting from an account without recorded failures, the
  requests that arrive within one window obtain at most \<open>LOGIN_ACCOUNT_MAX_FAILURES\<close>
  checks of a wrong password for that account, whatever their number, their addresses and
  the requests for other accounts between them (if a block lasts at least a window, a
  window at most the retention of rows, and no two buckets in use collide under SHA-256).
\<close>

theorem account_guesses_limited:
  assumes "inj_on sha256 (insert (bucket SCOPE_ACCOUNT account) (set (concat (map req_buckets reqs))))"
    and "blocking_policy cfg"
    and "tbl (sha256 (bucket SCOPE_ACCOUNT account)) = None"
    and "sorted (t0 # concat (map clock_readings reqs))"
    and "\<forall>t \<in> set (concat (map clock_readings reqs)). t < t0 + seconds (LOGIN_ACCOUNT_WINDOW_SECONDS cfg)"
    and "\<forall>req \<in> set reqs. req_account req = account \<longrightarrow> \<not> credentials_ok (lr_username req) (lr_password req)"
  shows "int (checks_for sha256 cfg credentials_ok account tbl reqs) \<le> LOGIN_ACCOUNT_MAX_FAILURES cfg"
  using guesses_bounded [OF assms(1,2,4) _ assms(5,6), where n = 0 and tbl = tbl] assms(2,3)
  by (simp add: account_at_def guessed_def blocking_policy_def)

definition demo_config :: auth_config where
  "demo_config = \<lparr>LOGIN_IP_MAX_FAILURES = 60, LOGIN_IP_WINDOW_SECONDS = 60, LOGIN_IP_BLOCK_SECONDS = 60,
     LOGIN_ACCOUNT_MAX_FAILURES = 2, LOGIN_ACCOUNT_WINDOW_SECONDS = 300, LOGIN_ACCOUNT_BLOCK_SECONDS = 300\<rparr>"

definition demo_request :: "string \<Rightarrow> int \<Rightarrow> login_request" where
  "demo_request addr t = \<lparr>lr_username = '' Bob'', lr_password = ''x'', lr_addr = PStr addr, lr_t1 = t, lr_t2 = t, lr_t3 = t\<rparr>"

lemmas throttle_eval = demo_config_def demo_request_def req_buckets_def req_addr_def req_account_def
  clock_readings_def blocking_policy_def normalize_def bucket_def SCOPE_IP_def SCOPE_ACCOUNT_def seconds_def

theorem account_guesses_limited_witness:
  "int (checks_for id demo_config (\<lambda>_ _. False) ''bob'' Map.empty
     [demo_request ''10.0.0.1'' 1, demo_request ''10.0.0.2'' 2, demo_request ''10.0.0.3'' 3]) \<le> 2 \<and>
   checks_for id demo_config (\<lambda>_ _. False) ''bob'' Map.empty
     [demo_request ''10.0.0.1'' 1, demo_request ''10.0.0.2'' 2, demo_request ''10.0.0.3'' 3] = 2"
proof
  show "checks_for id demo_config (\<lambda>_ _. False) ''bob'' Map.empty
     [demo_request ''10.0.0.1'' 1, demo_request ''10.0.0.2'' 2, demo_request ''10.0.0.3'' 3] = 2"
    by code_simp
  show "int (checks_for id demo_config (\<lambda>_ _. False) ''bob'' Map.empty
     [demo_request ''10.0.0.1'' 1, demo_request ''10.0.0.2'' 2, demo_request ''10.0.0.3'' 3]) \<le> 2"
    using account_guesses_limited [of id "''bob''"
        "[demo_request ''10.0.0.1'' 1, demo_request ''10.0.0.2'' 2, demo_request ''10.0.0.3'' 3]" demo_config Map.empty 1
        "\<lambda>_ _. False"]
    by (simp add: throttle_eval)
qed

text \<open>
  C30. Blocks always lift: in every reachable table, with the last failure no later than
  \<open>t\<close>, nobody is asked to wait past \<open>t\<close> plus the longest configured block (at least one
  second), and the wait is the remaining time rounded up to whole seconds.
\<close>

theorem login_block_lifts:
  assumes "throttle_reach sha256 cfg names tbl t" and "inj_on sha256 names"
    and "bucket SCOPE_IP (normalize SCOPE_IP a) \<in> names" and "bucket SCOPE_ACCOUNT (normalize SCOPE_ACCOUNT u) \<in> names"
    and "t_end = t + seconds (max 1 (max (LOGIN_IP_BLOCK_SECONDS cfg) (LOGIN_ACCOUNT_BLOCK_SECONDS cfg)))"
  shows "login_retry_after sha256 tbl u a now \<le> (if t_end \<le> now then 0 else (t_end - now) div 1000000 + 1)"
  using table_wait_bound [OF reachable_table_ok [OF assms(1,2)] assms(2) _ assms(3)]
    table_wait_bound [OF reachable_table_ok [OF assms(1,2)] assms(2) _ assms(4)]
  unfolding login_retry_after_max assms(5) by simp

lemma demo_names:
  "normalize SCOPE_IP (PStr ''10.0.0.1'') = ''10.0.0.1''" "normalize SCOPE_ACCOUNT (PStr ''Bob'') = ''bob''"
  "bucket SCOPE_IP ''10.0.0.1'' = ''ip:10.0.0.1''" "bucket SCOPE_ACCOUNT ''bob'' = ''account:bob''"
  by code_simp+

theorem login_block_lifts_witness:
  "login_retry_after id (record_login_failure id demo_config Map.empty (PStr ''Bob'') (PStr ''10.0.0.1'') 0)
     (PStr ''Bob'') (PStr ''10.0.0.1'') (300 * 1000000) \<le> 0"
  using login_block_lifts [of id demo_config "{''ip:10.0.0.1'', ''account:bob''}"
      "record_login_failure id demo_config Map.empty (PStr ''Bob'') (PStr ''10.0.0.1'') 0" 0
      "PStr ''10.0.0.1''" "PStr ''Bob''" "300 * 1000000" "300 * 1000000"]
  by (simp add: demo_names throttle_reach.start throttle_reach.failure) (simp add: demo_config_def seconds_def)

end
