(* ===== verification/Rotation_Schedule.thy ===== *)
theory Rotation_Schedule
  imports Py_Values
begin

text \<open>
  The slots of an on-call rotation layer (\<open>services/rotation_schedule.py\<close>, with the date
  helpers of \<open>modules/common.py\<close>). Instants are integers in microseconds since the epoch,
  either absolute (UTC) or a wall clock. The IANA time-zone database is a parameter: a partial
  function from zone names to the offsets of a zone at absolute and at wall-clock times.
\<close>

section \<open>Dates and zones\<close>

abbreviation second :: int where "second \<equiv> 1000000"

datatype datetime = Naive int | Aware int

text \<open>
  A zone gives its UTC offset at an absolute instant, and the one that \<open>astimezone\<close> uses for
  a wall-clock time (the first reading of a repeated hour).
\<close>

record zone =
  utc_offset :: "int \<Rightarrow> int"
  wall_offset :: "int \<Rightarrow> int"

type_synonym tzdb = "string \<Rightarrow> zone option"

definition utc_zone :: zone where
  "utc_zone = \<lparr>utc_offset = (\<lambda>_. 0), wall_offset = (\<lambda>_. 0)\<rparr>"

definition timezone_or_utc :: "tzdb \<Rightarrow> string \<Rightarrow> zone" where
  "timezone_or_utc db name =
     (case db (if name = '''' then ''UTC'' else name) of None \<Rightarrow> utc_zone | Some z \<Rightarrow> z)"

definition to_wall :: "zone \<Rightarrow> int \<Rightarrow> int" where
  "to_wall z t = t + utc_offset z t"

definition from_wall :: "zone \<Rightarrow> int \<Rightarrow> int" where
  "from_wall z l = l - wall_offset z l"

fun as_utc_naive :: "datetime \<Rightarrow> int" where
  "as_utc_naive (Naive t) = t"
| "as_utc_naive (Aware t) = t"

fun local_datetime_to_utc_naive :: "tzdb \<Rightarrow> datetime \<Rightarrow> string \<Rightarrow> int" where
  "local_datetime_to_utc_naive db (Aware t) name = t"
| "local_datetime_to_utc_naive db (Naive l) name = from_wall (timezone_or_utc db name) l"

text \<open>\<open>int(delta.total_seconds())\<close>: rounding towards zero.\<close>

definition int_seconds :: "int \<Rightarrow> int" where
  "int_seconds us = (if 0 \<le> us then us div second else - (- us div second))"

section \<open>Layers\<close>

text \<open>The schedule columns that a layer may leave to its rotation.\<close>

record schedule =
  start_at :: "datetime option"
  duration_seconds :: "int option"
  rotation_type :: "string option"
  interval_value :: "int option"
  interval_unit :: "string option"
  timezone :: "string option"

record rotation = schedule +
  rotation_id :: int
  rotation_enabled :: bool
  rotation_deleted :: bool

record layer = schedule +
  layer_id :: int
  layer_rotation :: rotation
  priority :: int
  layer_enabled :: bool
  layer_deleted :: bool

text \<open>
  \<open>effective_layer_value(layer, field, default)\<close> on the two column values; \<open>blank\<close> tells
  the empty string from other values.
\<close>

definition effective_layer_value :: "('a \<Rightarrow> bool) \<Rightarrow> 'a option \<Rightarrow> 'a option \<Rightarrow> 'a option \<Rightarrow> 'a option" where
  "effective_layer_value blank layer_value rotation_value dflt =
     (case layer_value of
        Some v \<Rightarrow> if \<not> blank v then Some v else
          (case rotation_value of Some w \<Rightarrow> if \<not> blank w then Some w else dflt | None \<Rightarrow> dflt)
      | None \<Rightarrow>
          (case rotation_value of Some w \<Rightarrow> if \<not> blank w then Some w else dflt | None \<Rightarrow> dflt))"

abbreviation no_blank :: "'a \<Rightarrow> bool" where "no_blank v \<equiv> False"
abbreviation empty_str :: "string \<Rightarrow> bool" where "empty_str s \<equiv> s = ''''"

definition layer_timezone_name :: "layer \<Rightarrow> string" where
  "layer_timezone_name l =
     (case effective_layer_value empty_str (timezone l) (timezone (layer_rotation l)) (Some ''UTC'') of
        None \<Rightarrow> ''UTC'' | Some s \<Rightarrow> if s = '''' then ''UTC'' else s)"

definition layer_timezone :: "tzdb \<Rightarrow> layer \<Rightarrow> zone" where
  "layer_timezone db l = timezone_or_utc db (layer_timezone_name l)"

definition layer_start :: "layer \<Rightarrow> datetime option" where
  "layer_start l = effective_layer_value no_blank (start_at l) (start_at (layer_rotation l)) None"

definition layer_start_local_naive :: "tzdb \<Rightarrow> layer \<Rightarrow> int option" where
  "layer_start_local_naive db l =
     (case layer_start l of
        None \<Rightarrow> None
      | Some (Naive w) \<Rightarrow> Some w
      | Some (Aware t) \<Rightarrow> Some (to_wall (layer_timezone db l) t))"

definition layer_start_utc_naive :: "tzdb \<Rightarrow> layer \<Rightarrow> int option" where
  "layer_start_utc_naive db l =
     (case layer_start l of
        None \<Rightarrow> None
      | Some v \<Rightarrow> Some (local_datetime_to_utc_naive db v (layer_timezone_name l)))"

definition layer_duration_seconds :: "layer \<Rightarrow> int" where
  "layer_duration_seconds l =
     (case effective_layer_value no_blank (duration_seconds l) (duration_seconds (layer_rotation l)) (Some 86400) of
        None \<Rightarrow> 86400
      | Some v \<Rightarrow> if v > 0 then v else 86400)"

definition str_or :: "string option \<Rightarrow> string \<Rightarrow> string" where
  "str_or v d = (case v of None \<Rightarrow> d | Some s \<Rightarrow> if s = '''' then d else s)"

text \<open>\<open>max(1, int(interval_value or 1))\<close>, then the interval in seconds, or none.\<close>

definition calendar_interval :: "layer \<Rightarrow> int option" where
  "calendar_interval l =
     (let rot = layer_rotation l;
          rtype = str_or (effective_layer_value empty_str (rotation_type l) (rotation_type rot) (Some ''daily'')) ''daily'' in
      if rtype = ''daily'' then (if layer_duration_seconds l = 86400 then Some 86400 else None)
      else if rtype = ''weekly'' then (if layer_duration_seconds l = 604800 then Some 604800 else None)
      else if rtype \<noteq> ''custom'' then None
      else
        let unit = str_or (effective_layer_value empty_str (interval_unit l) (interval_unit rot) (Some ''days'')) ''days'';
            v = (case effective_layer_value no_blank (interval_value l) (interval_value rot) (Some 1) of
                   None \<Rightarrow> 1 | Some n \<Rightarrow> max 1 (if n = 0 then 1 else n)) in
        if unit = ''days'' then Some (v * 86400)
        else if unit = ''weeks'' then Some (v * 604800)
        else None)"

section \<open>Slots and boundaries\<close>

definition layer_slot_index :: "tzdb \<Rightarrow> layer \<Rightarrow> int \<Rightarrow> int option" where
  "layer_slot_index db l t =
     (case layer_start_utc_naive db l of
        None \<Rightarrow> Some 0
      | Some start_utc \<Rightarrow>
          if t < start_utc then None
          else case calendar_interval l of
            Some ci \<Rightarrow>
              let now_local = to_wall (layer_timezone db l) t;
                  elapsed = now_local - the (layer_start_local_naive db l)
              in Some (int_seconds elapsed div ci)
          | None \<Rightarrow> Some (int_seconds (t - start_utc) div layer_duration_seconds l))"

definition next_layer_boundary_utc :: "tzdb \<Rightarrow> layer \<Rightarrow> int \<Rightarrow> int option" where
  "next_layer_boundary_utc db l t =
     (case layer_start_utc_naive db l of
        None \<Rightarrow> None
      | Some start_utc \<Rightarrow>
          if t < start_utc then Some start_utc
          else let slot = the (layer_slot_index db l t) in
            case calendar_interval l of
              Some ci \<Rightarrow>
                Some (local_datetime_to_utc_naive db
                  (Naive (the (layer_start_local_naive db l) + ci * second * (slot + 1))) (layer_timezone_name l))
            | None \<Rightarrow> Some (start_utc + layer_duration_seconds l * (slot + 1) * second))"

section \<open>Lemmas\<close>

lemma layer_duration_pos [simp]: "0 < layer_duration_seconds l"
  by (auto simp: layer_duration_seconds_def split: option.splits)

lemma calendar_interval_pos: "calendar_interval l = Some ci \<Longrightarrow> 0 < ci"
  by (auto simp: calendar_interval_def Let_def split: if_splits option.splits)

lemma start_local_defined: "layer_start_utc_naive db l = Some s \<Longrightarrow> \<exists>w. layer_start_local_naive db l = Some w"
  by (auto simp: layer_start_utc_naive_def layer_start_local_naive_def split: option.splits datetime.splits)

lemma int_seconds_div: "0 \<le> us \<Longrightarrow> int_seconds us div d = us div (second * d)" if "0 \<le> d" for d
  using that by (simp add: int_seconds_def zdiv_zmult2_eq)

text \<open>
  The length of a slot in microseconds, and the time that the slots are counted in: wall-clock
  time for calendar intervals, elapsed UTC time otherwise.
\<close>

definition slot_length :: "layer \<Rightarrow> int" where
  "slot_length l = second * (case calendar_interval l of Some ci \<Rightarrow> ci | None \<Rightarrow> layer_duration_seconds l)"

definition slot_clock :: "tzdb \<Rightarrow> layer \<Rightarrow> int \<Rightarrow> int" where
  "slot_clock db l t =
     (case calendar_interval l of
        Some ci \<Rightarrow> to_wall (layer_timezone db l) t - the (layer_start_local_naive db l)
      | None \<Rightarrow> t - the (layer_start_utc_naive db l))"

text \<open>No change of offset between two instants, in either reading of the clock.\<close>

definition steady :: "zone \<Rightarrow> int \<Rightarrow> int \<Rightarrow> bool" where
  "steady z lo hi \<longleftrightarrow>
     (\<exists>c. (\<forall>t. lo \<le> t \<and> t \<le> hi \<longrightarrow> utc_offset z t = c) \<and> (\<forall>w. lo + c \<le> w \<and> w \<le> hi + c \<longrightarrow> wall_offset z w = c))"

lemma slot_length_pos [simp]: "0 < slot_length l"
  using calendar_interval_pos by (auto simp: slot_length_def split: option.splits)

lemma layer_slot_index_clock:
  assumes "layer_start_utc_naive db l = Some s" and "s \<le> t" and "0 \<le> slot_clock db l t"
  shows "layer_slot_index db l t = Some (slot_clock db l t div slot_length l)"
  using assms calendar_interval_pos [of l]
  by (auto simp: layer_slot_index_def slot_clock_def slot_length_def int_seconds_div less_imp_le split: option.splits)

lemma div_slot_bounds:
  assumes "(0::int) < d"
  shows "d * (x div d) \<le> x" "x < d * (x div d + 1)" "d * (x div d + 1) \<le> x + d"
proof -
  have e: "d * (x div d) + x mod d = x" by (rule mult_div_mod_eq)
  have m: "0 \<le> x mod d" "x mod d < d" using assms by simp_all
  have "d * (x div d + 1) = d * (x div d) + d" by (simp add: distrib_left)
  then show "d * (x div d) \<le> x" "x < d * (x div d + 1)" "d * (x div d + 1) \<le> x + d"
    using e m by linarith+
qed

lemma div_slot_eqI: "(0::int) < d \<Longrightarrow> d * k \<le> x \<Longrightarrow> x < d * (k + 1) \<Longrightarrow> x div d = k"
  using int_div_pos_eq [of x d k "x - d * k"] by (simp add: distrib_left)

text \<open>
  The boundary in the time of the slots: on a stretch without a change of offset, the slot
  clock runs with the instants, and the next boundary is its next multiple of the length.
\<close>

definition regular_ahead :: "tzdb \<Rightarrow> layer \<Rightarrow> int \<Rightarrow> bool" where
  "regular_ahead db l t \<longleftrightarrow> 0 \<le> slot_clock db l t \<and>
     (calendar_interval l \<noteq> None \<longrightarrow> steady (layer_timezone db l) t (t + slot_length l))"

lemma slot_clock_regular:
  assumes "regular_ahead db l t" and "t \<le> u" and "u \<le> t + slot_length l"
  shows "slot_clock db l u = slot_clock db l t + (u - t)"
proof (cases "calendar_interval l")
  case (Some ci)
  then obtain c where "\<And>v. t \<le> v \<Longrightarrow> v \<le> t + slot_length l \<Longrightarrow> utc_offset (layer_timezone db l) v = c"
    using assms(1) unfolding regular_ahead_def steady_def by auto
  from this [of t] this [of u] assms Some show ?thesis
    using slot_length_pos [of l] by (simp add: slot_clock_def to_wall_def)
qed (simp add: slot_clock_def)

lemma next_boundary_regular:
  assumes "layer_start_utc_naive db l = Some s" and "s \<le> t" and "regular_ahead db l t"
  shows "next_layer_boundary_utc db l t =
     Some (t + (slot_length l * (slot_clock db l t div slot_length l + 1) - slot_clock db l t))"
proof -
  let ?x = "slot_clock db l t" and ?d = "slot_length l"
  have slot: "layer_slot_index db l t = Some (?x div ?d)"
    using layer_slot_index_clock [OF assms(1,2)] assms(3) by (simp add: regular_ahead_def)
  show ?thesis
  proof (cases "calendar_interval l")
    case None
    then have "?x = t - s" "?d = second * layer_duration_seconds l"
      using assms(1) by (simp_all add: slot_clock_def slot_length_def)
    with None assms(1,2) slot show ?thesis
      by (simp add: next_layer_boundary_utc_def mult_ac)
  next
    case (Some ci)
    let ?z = "layer_timezone db l"
    obtain w where w: "layer_start_local_naive db l = Some w"
      using start_local_defined [OF assms(1)] by blast
    obtain c where c: "utc_offset ?z t = c" "\<And>v. t + c \<le> v \<Longrightarrow> v \<le> t + ?d + c \<Longrightarrow> wall_offset ?z v = c"
      using assms(3) Some slot_length_pos [of l] unfolding regular_ahead_def steady_def by fastforce
    have x: "?x = t + c - w"
      using Some w c(1) by (simp add: slot_clock_def to_wall_def)
    have "wall_offset ?z (w + ?d * (?x div ?d + 1)) = c"
      using div_slot_bounds [of ?d ?x] slot_length_pos [of l] x by (intro c(2)) linarith+
    then show ?thesis
      using Some assms(1,2) slot w x
      by (simp add: next_layer_boundary_utc_def from_wall_def layer_timezone_def slot_length_def mult_ac)
  qed
qed

lemma next_boundary_handoff:
  assumes "layer_start_utc_naive db l = Some s" and "s \<le> t" and "regular_ahead db l t"
  shows "\<exists>b k. next_layer_boundary_utc db l t = Some b \<and> t < b \<and> b \<le> t + slot_length l \<and>
     (\<forall>u. t \<le> u \<and> u < b \<longrightarrow> layer_slot_index db l u = Some k) \<and> layer_slot_index db l b = Some (k + 1)"
proof -
  let ?x = "slot_clock db l t" and ?d = "slot_length l"
  define b where "b = t + (?d * (?x div ?d + 1) - ?x)"
  have "0 \<le> ?x" using assms(3) by (simp add: regular_ahead_def)
  have b: "t < b" "b \<le> t + ?d"
    using div_slot_bounds [of ?d ?x] slot_length_pos [of l] by (simp_all add: b_def)
  have slot: "layer_slot_index db l u = Some ((?x + (u - t)) div ?d)" if "t \<le> u" "u \<le> b" for u
    using layer_slot_index_clock [OF assms(1), of u] slot_clock_regular [OF assms(3), of u] that b assms(2) \<open>0 \<le> ?x\<close>
    by simp
  have "(?x + (u - t)) div ?d = ?x div ?d" if "t \<le> u" "u < b" for u
    using that div_slot_bounds(1) [of ?d ?x] slot_length_pos [of l] by (intro div_slot_eqI) (simp_all add: b_def)
  moreover have "(?x + (b - t)) div ?d = ?x div ?d + 1"
    using slot_length_pos [of l] by (simp add: b_def less_imp_neq [THEN not_sym])
  ultimately show ?thesis
    using next_boundary_regular [OF assms] b slot by (intro exI [of _ b] exI [of _ "?x div ?d"]) (auto simp: b_def)
qed

section \<open>Schedules of slots, as their clients see them\<close>

text \<open>
  On-call resolution and the calendar need no more of a schedule than this: while it is
  running, the slot is constant up to the next boundary, which lies ahead, and one higher there.
\<close>

locale slot_schedule =
  fixes running :: "'s \<Rightarrow> int \<Rightarrow> bool"
    and slot :: "'s \<Rightarrow> int \<Rightarrow> int option"
    and boundary :: "'s \<Rightarrow> int \<Rightarrow> int option"
  assumes handoff: "running sch t \<Longrightarrow> \<exists>b k. boundary sch t = Some b \<and> t < b \<and>
     (\<forall>u. t \<le> u \<and> u < b \<longrightarrow> slot sch u = Some k) \<and> slot sch b = Some (k + 1)"
begin

lemma boundary_ahead: "running sch t \<Longrightarrow> boundary sch t = Some b \<Longrightarrow> t < b"
  using handoff by fastforce

lemma constant_slot: "running sch t \<Longrightarrow> boundary sch t = Some b \<Longrightarrow> t \<le> u \<Longrightarrow> u < b \<Longrightarrow> slot sch u = slot sch t"
  using handoff [of sch t] by auto

lemma slot_defined: "running sch t \<Longrightarrow> \<exists>k. slot sch t = Some k"
  using handoff [of sch t] by auto

lemma slot_at_boundary: "running sch t \<Longrightarrow> boundary sch t = Some b \<Longrightarrow> slot sch t = Some k \<Longrightarrow> slot sch b = Some (k + 1)"
  using handoff [of sch t] by fastforce

lemma round_robin:
  assumes "running sch t" and "boundary sch t = Some b" and "slot sch t = Some k" and "0 < n"
  shows "\<exists>k'. slot sch b = Some k' \<and> nat (k' mod int n) = Suc (nat (k mod int n)) mod n"
proof -
  have "int (Suc (nat (k mod int n)) mod n) = (k + 1) mod int n"
    using assms(4) by (simp add: zmod_int mod_add_right_eq add.commute)
  then have "nat ((k + 1) mod int n) = Suc (nat (k mod int n)) mod n" by linarith
  with slot_at_boundary [OF assms(1-3)] show ?thesis by blast
qed

end

definition layer_running :: "tzdb \<times> layer \<Rightarrow> int \<Rightarrow> bool" where
  "layer_running sch t \<longleftrightarrow>
     (\<exists>s. layer_start_utc_naive (fst sch) (snd sch) = Some s \<and> s \<le> t) \<and> regular_ahead (fst sch) (snd sch) t"

interpretation layer_slots: slot_schedule layer_running
  "\<lambda>sch. layer_slot_index (fst sch) (snd sch)" "\<lambda>sch. next_layer_boundary_utc (fst sch) (snd sch)"
proof
  fix sch t assume "layer_running sch t"
  then show "\<exists>b k. next_layer_boundary_utc (fst sch) (snd sch) t = Some b \<and> t < b \<and>
      (\<forall>u. t \<le> u \<and> u < b \<longrightarrow> layer_slot_index (fst sch) (snd sch) u = Some k) \<and>
      layer_slot_index (fst sch) (snd sch) b = Some (k + 1)"
    using next_boundary_handoff unfolding layer_running_def by blast
qed

section \<open>Properties\<close>

text \<open>
  C28. Handoffs: from any instant after the start of a layer, the next boundary is in the
  future and at most one slot away, the slot index is constant until it and one higher at it,
  for fixed intervals unconditionally and for day and week intervals while the zone keeps
  its offset for the length of a slot.
\<close>

theorem next_boundary_is_handoff:
  assumes "layer_start_utc_naive db l = Some s" and "s \<le> t" and "regular_ahead db l t"
  shows "\<exists>b k. next_layer_boundary_utc db l t = Some b \<and> t < b \<and> b \<le> t + slot_length l \<and>
     (\<forall>u. t \<le> u \<and> u < b \<longrightarrow> layer_slot_index db l u = Some k) \<and> layer_slot_index db l b = Some (k + 1)"
  using next_boundary_handoff [OF assms] .

definition demo_rotation :: rotation where
  "demo_rotation = \<lparr>start_at = Some (Naive 0), duration_seconds = Some 86400, rotation_type = Some ''daily'',
     interval_value = Some 1, interval_unit = Some ''days'', timezone = Some ''Europe/Paris'',
     rotation_id = 1, rotation_enabled = True, rotation_deleted = False\<rparr>"

definition demo_layer :: layer where
  "demo_layer = \<lparr>start_at = Some (Naive (9900 * second)), duration_seconds = None, rotation_type = None, interval_value = None,
     interval_unit = None, timezone = None, layer_id = 1, layer_rotation = demo_rotation, priority = 0,
     layer_enabled = True, layer_deleted = False\<rparr>"

text \<open>A zone that goes from two hours to one hour ahead of UTC at a given instant.\<close>

definition fall_back :: "int \<Rightarrow> zone" where
  "fall_back u = \<lparr>utc_offset = (\<lambda>t. (if t < u then 7200 else 3600) * second),
     wall_offset = (\<lambda>w. (if w < u + 7200 * second then 7200 else 3600) * second)\<rparr>"

lemma demo_layer_eval:
  "layer_start_utc_naive (\<lambda>_. Some (fall_back u)) demo_layer =
     Some (9900 * second - (if 9900 * second < u + 7200 * second then 7200 else 3600) * second)"
  "layer_start_local_naive db demo_layer = Some (9900 * second)"
  "calendar_interval demo_layer = Some 86400" "slot_length demo_layer = 86400 * second"
  "layer_timezone (\<lambda>_. Some (fall_back u)) demo_layer = fall_back u"
  by (auto simp: layer_start_utc_naive_def layer_start_local_naive_def layer_start_def demo_layer_def demo_rotation_def
      effective_layer_value_def timezone_or_utc_def from_wall_def fall_back_def calendar_interval_def
      layer_duration_seconds_def str_or_def slot_length_def layer_timezone_def)

lemma demo_regular:
  assumes "6300 * second \<le> t"
  shows "regular_ahead (\<lambda>_. Some (fall_back 0)) demo_layer t"
proof -
  have "steady (fall_back 0) t (t + 86400 * second)"
    using assms by (auto simp: steady_def fall_back_def intro!: exI [of _ "3600 * second"])
  with assms show ?thesis
    by (simp add: regular_ahead_def demo_layer_eval slot_clock_def to_wall_def) (simp add: fall_back_def)
qed

theorem next_boundary_is_handoff_witness:
  "\<exists>b k. next_layer_boundary_utc (\<lambda>_. Some (fall_back 0)) demo_layer (50000 * second) = Some b \<and> 50000 * second < b \<and>
     b \<le> 50000 * second + slot_length demo_layer \<and>
     (\<forall>u. 50000 * second \<le> u \<and> u < b \<longrightarrow> layer_slot_index (\<lambda>_. Some (fall_back 0)) demo_layer u = Some k) \<and>
     layer_slot_index (\<lambda>_. Some (fall_back 0)) demo_layer b = Some (k + 1)"
proof (rule next_boundary_is_handoff)
  show "layer_start_utc_naive (\<lambda>_. Some (fall_back 0)) demo_layer = Some (6300 * second)"
    by (simp add: demo_layer_eval)
  show "regular_ahead (\<lambda>_. Some (fall_back 0)) demo_layer (50000 * second)"
    by (rule demo_regular) simp
qed simp

text \<open>
  In the hour that a zone repeats when its clocks go back, a daily handoff inside that
  hour is looked up in its first reading only: at 02:30 of the second reading the next
  boundary, 02:45, is reported an hour too early, in the past.
\<close>

theorem boundary_in_repeated_hour:
  "next_layer_boundary_utc (\<lambda>_. Some (fall_back (867600 * second))) demo_layer ((867600 + 1800) * second) =
     Some ((867600 - 900) * second)"
  by (simp add: next_layer_boundary_utc_def layer_slot_index_def demo_layer_eval int_seconds_def to_wall_def from_wall_def
      timezone_or_utc_def layer_timezone_def) (simp add: fall_back_def)

end
