(* ===== verification/On_Call.thy ===== *)
theory On_Call
  imports Rotation_Schedule "HOL-Library.Product_Lexorder"
begin

text \<open>
  Who is on call (\<open>services/oncall.py\<close>) and the queries of \<open>modules/db/rotations_repo.py\<close>
  behind it. The database is a record of tables; a query is a filter and a sort on its table.
\<close>

section \<open>Tables and queries\<close>

record user =
  user_id :: int
  username :: string
  user_active :: bool
  user_deleted :: bool

record layer_member =
  member_id :: int
  member_layer :: int
  member_user :: user
  position :: int
  member_active :: bool
  starts_at :: "int option"
  ends_at :: "int option"

record layer_restriction =
  restriction_id :: int
  restriction_layer :: int
  weekday :: "int option"
  start_time :: string
  end_time :: string

record rotation_override =
  override_id :: int
  override_rotation :: int
  override_user :: user
  override_starts_at :: int
  override_ends_at :: int

record oncall_db =
  layers :: "layer list"
  members :: "layer_member list"
  restrictions :: "layer_restriction list"
  overrides :: "rotation_override list"

definition list_rotation_layers :: "oncall_db \<Rightarrow> int \<Rightarrow> bool \<Rightarrow> bool \<Rightarrow> layer list" where
  "list_rotation_layers odb rid enabled_only include_deleted =
     sort_key (\<lambda>l. (- priority l, - layer_id l))
       (filter (\<lambda>l. rotation_id (layer_rotation l) = rid \<and> (include_deleted \<or> \<not> layer_deleted l) \<and>
                    (enabled_only \<longrightarrow> layer_enabled l)) (layers odb))"

definition rotation_layer_member_effective_at :: "layer_member \<Rightarrow> int \<Rightarrow> bool" where
  "rotation_layer_member_effective_at m t \<longleftrightarrow>
     (case starts_at m of None \<Rightarrow> True | Some s \<Rightarrow> s \<le> t) \<and> (case ends_at m of None \<Rightarrow> True | Some e \<Rightarrow> e > t)"

definition list_rotation_layer_members ::
  "oncall_db \<Rightarrow> int \<Rightarrow> bool \<Rightarrow> int option \<Rightarrow> bool \<Rightarrow> layer_member list" where
  "list_rotation_layer_members odb lid active_only t include_inactive_users =
     sort_key (\<lambda>m. (position m, member_id m))
       (filter (\<lambda>m. member_layer m = lid \<and>
          (case t of None \<Rightarrow> True | Some u \<Rightarrow> rotation_layer_member_effective_at m u) \<and>
          (active_only \<longrightarrow> member_active m \<and> (t = None \<longrightarrow> ends_at m = None)) \<and>
          (\<not> include_inactive_users \<longrightarrow> user_active (member_user m) \<and> \<not> user_deleted (member_user m))) (members odb))"

text \<open>The order of restrictions: by weekday with null first, start time, id.\<close>

definition list_rotation_layer_restrictions :: "oncall_db \<Rightarrow> int \<Rightarrow> layer_restriction list" where
  "list_rotation_layer_restrictions odb lid =
     sort_key (\<lambda>r. (case weekday r of None \<Rightarrow> (0::int, 0) | Some d \<Rightarrow> (1, d), start_time r, restriction_id r))
       (filter (\<lambda>r. restriction_layer r = lid) (restrictions odb))"

definition get_active_override :: "oncall_db \<Rightarrow> int \<Rightarrow> int \<Rightarrow> rotation_override option" where
  "get_active_override odb rid now =
     (case sort_key (\<lambda>o'. - override_id o')
         (filter (\<lambda>o'. override_rotation o' = rid \<and> override_starts_at o' \<le> now \<and> override_ends_at o' > now) (overrides odb))
      of [] \<Rightarrow> None | o' # _ \<Rightarrow> Some o')"

section \<open>Restrictions of a layer to hours of the week\<close>

definition int_of_str :: "string \<Rightarrow> int result" where
  "int_of_str s =
     (case parse_int s of
        None \<Rightarrow> raise ValueError (''invalid literal for int() with base 10: '' @ repr_str s)
      | Some n \<Rightarrow> Inr n)"

definition parse_hhmm :: "string \<Rightarrow> (int \<times> int) result" where
  "parse_hhmm v =
     (case split_str '':'' (Some 1) v of
        [hour_raw, minute_raw] \<Rightarrow>
          res_bind (int_of_str hour_raw) (\<lambda>h. res_bind (int_of_str minute_raw) (\<lambda>m. Inr (h, m)))
      | _ \<Rightarrow> raise ValueError ''not enough values to unpack (expected 2, got 1)'')"

definition minutes :: "string \<Rightarrow> int result" where
  "minutes v = res_bind (parse_hhmm v) (\<lambda>(hour, minute). Inr (hour * 60 + minute))"

text \<open>Weekday (0 is Monday; the epoch was a Thursday) and minute of the day of a wall-clock time.\<close>

definition wall_weekday :: "int \<Rightarrow> int" where
  "wall_weekday w = (w div (86400 * second) + 3) mod 7"

definition wall_minute :: "int \<Rightarrow> int" where
  "wall_minute w = w div (60 * second) mod 1440"

definition restriction_matches :: "layer_restriction \<Rightarrow> int \<Rightarrow> bool result" where
  "restriction_matches r w =
     res_bind (minutes (start_time r)) (\<lambda>start.
     res_bind (minutes (end_time r)) (\<lambda>stop.
       let current = wall_minute w; wd = wall_weekday w in
       if start = stop then (case weekday r of None \<Rightarrow> Inr True | Some d \<Rightarrow> Inr (wd = d))
       else if start < stop
       then (if (case weekday r of None \<Rightarrow> False | Some d \<Rightarrow> wd \<noteq> d) then Inr False
             else Inr (start \<le> current \<and> current < stop))
       else (case weekday r of
               None \<Rightarrow> Inr (current \<ge> start \<or> current < stop)
             | Some d \<Rightarrow> Inr (wd = d \<and> current \<ge> start \<or> wd = (d + 1) mod 7 \<and> current < stop))))"

fun any_restriction_matches :: "layer_restriction list \<Rightarrow> int \<Rightarrow> bool result" where
  "any_restriction_matches [] w = Inr False"
| "any_restriction_matches (r # rs) w =
     res_bind (restriction_matches r w) (\<lambda>b. if b then Inr True else any_restriction_matches rs w)"

definition is_layer_active_now :: "tzdb \<Rightarrow> oncall_db \<Rightarrow> layer \<Rightarrow> int \<Rightarrow> bool result" where
  "is_layer_active_now db odb l now =
     (if \<not> layer_enabled l \<or> layer_deleted l then Inr False
      else let rs = list_rotation_layer_restrictions odb (layer_id l) in
           if rs = [] then Inr True
           else any_restriction_matches rs (to_wall (layer_timezone db l) now))"

section \<open>The user on call\<close>

definition effective_members :: "oncall_db \<Rightarrow> layer \<Rightarrow> int \<Rightarrow> layer_member list" where
  "effective_members odb l now = list_rotation_layer_members odb (layer_id l) True (Some now) False"

definition get_scheduled_oncall_user_for_layer :: "tzdb \<Rightarrow> oncall_db \<Rightarrow> layer \<Rightarrow> int \<Rightarrow> user option" where
  "get_scheduled_oncall_user_for_layer db odb l now =
     (let ms = effective_members odb l now in
      if ms = [] then None
      else case layer_slot_index db l now of
             None \<Rightarrow> None
           | Some slot \<Rightarrow> Some (member_user (ms ! nat (slot mod int (length ms)))))"

fun first_active_layer :: "tzdb \<Rightarrow> oncall_db \<Rightarrow> int \<Rightarrow> layer list \<Rightarrow> layer option result" where
  "first_active_layer db odb now [] = Inr None"
| "first_active_layer db odb now (l # ls) =
     res_bind (is_layer_active_now db odb l now) (\<lambda>active.
       if \<not> active then first_active_layer db odb now ls
       else if get_scheduled_oncall_user_for_layer db odb l now \<noteq> None then Inr (Some l)
       else first_active_layer db odb now ls)"

definition usable :: "rotation option \<Rightarrow> bool" where
  "usable rot = (case rot of None \<Rightarrow> False | Some r \<Rightarrow> rotation_enabled r \<and> \<not> rotation_deleted r)"

definition get_active_rotation_layer :: "tzdb \<Rightarrow> oncall_db \<Rightarrow> rotation option \<Rightarrow> int \<Rightarrow> layer option result" where
  "get_active_rotation_layer db odb rot now =
     (if \<not> usable rot then Inr None
      else first_active_layer db odb now (list_rotation_layers odb (rotation_id (the rot)) True False))"

definition get_scheduled_oncall_user :: "tzdb \<Rightarrow> oncall_db \<Rightarrow> rotation option \<Rightarrow> int \<Rightarrow> user option result" where
  "get_scheduled_oncall_user db odb rot now =
     (if \<not> usable rot then Inr None
      else res_bind (get_active_rotation_layer db odb rot now) (\<lambda>l.
        case l of None \<Rightarrow> Inr None | Some l \<Rightarrow> Inr (get_scheduled_oncall_user_for_layer db odb l now)))"

definition get_current_oncall_user :: "tzdb \<Rightarrow> oncall_db \<Rightarrow> rotation option \<Rightarrow> int \<Rightarrow> user option result" where
  "get_current_oncall_user db odb rot now =
     (if \<not> usable rot then Inr None
      else case get_active_override odb (rotation_id (the rot)) now of
             Some ov \<Rightarrow> Inr (Some (override_user ov))
           | None \<Rightarrow> get_scheduled_oncall_user db odb rot now)"

fun user_index :: "int \<Rightarrow> nat \<Rightarrow> layer_member list \<Rightarrow> nat option" where
  "user_index uid i [] = None"
| "user_index uid i (m # ms) = (if user_id (member_user m) = uid then Some i else user_index uid (Suc i) ms)"

definition get_next_rotation_user :: "tzdb \<Rightarrow> oncall_db \<Rightarrow> rotation option \<Rightarrow> user option \<Rightarrow> int \<Rightarrow> user option result" where
  "get_next_rotation_user db odb rot current_user now =
     (if \<not> usable rot then Inr None
      else res_bind (get_active_rotation_layer db odb rot now) (\<lambda>l.
        case l of
          None \<Rightarrow> Inr None
        | Some l \<Rightarrow>
            let ms = effective_members odb l now in
            if ms = [] then Inr None
            else case current_user of
                   None \<Rightarrow> Inr (Some (member_user (ms ! 0)))
                 | Some u \<Rightarrow>
                     (case user_index (user_id u) 0 ms of
                        Some i \<Rightarrow> Inr (Some (member_user (ms ! (Suc i mod length ms))))
                      | None \<Rightarrow> Inr (Some (member_user (ms ! 0))))))"

section \<open>Restrictions as windows of the week\<close>

text \<open>
  Minutes of the week modulo a week: the window of weekday \<open>d\<close> starts at \<open>s\<close> (at midnight when
  both times are equal) and lasts to the next \<open>e\<close> (a whole day when they are equal).
\<close>

definition in_week_window :: "int \<Rightarrow> int \<Rightarrow> int \<Rightarrow> int \<Rightarrow> bool" where
  "in_week_window d s e w \<longleftrightarrow>
     (wall_weekday w * 1440 + wall_minute w - (d * 1440 + (if s = e then 0 else s))) mod 10080
       < (if s = e then 1440 else (e - s) mod 1440)"

lemma mod_near: "- m \<le> x \<Longrightarrow> x < m \<Longrightarrow> x mod m = (if x < 0 then x + m else x)" for x m :: int
  using mod_pos_pos_trivial [of "x + m" m] by auto

lemma week_arith:
  fixes k c s e :: int
  assumes "0 \<le> c" "c < 1440" "0 \<le> s" "s < 1440" "0 \<le> e" "e < 1440" "-6 \<le> k" "k \<le> 6" "s \<noteq> e"
  shows "(k * 1440 + (c - s)) mod 10080 < (e - s) mod 1440 \<longleftrightarrow>
     (if s < e then k = 0 \<and> s \<le> c \<and> c < e else k = 0 \<and> s \<le> c \<or> (k = 1 \<or> k = -6) \<and> c < e)"
proof -
  have "(k * 1440 + (c - s)) mod 10080 = (if k * 1440 + (c - s) < 0 then k * 1440 + (c - s) + 10080 else k * 1440 + (c - s))"
    using assms by (intro mod_near) linarith+
  moreover have "(e - s) mod 1440 = (if e - s < 0 then e - s + 1440 else e - s)"
    using assms by (intro mod_near) linarith+
  moreover have "k = -6 \<or> k = -5 \<or> k = -4 \<or> k = -3 \<or> k = -2 \<or> k = -1 \<or> k = 0 \<or> k = 1 \<or> k = 2 \<or> k = 3 \<or> k = 4 \<or> k = 5 \<or> k = 6"
    using assms(7,8) by presburger
  ultimately show ?thesis
    using assms by (elim disjE) (simp_all; linarith)+
qed

lemma full_day_arith:
  fixes k c :: int
  assumes "0 \<le> c" "c < 1440" "-6 \<le> k" "k \<le> 6"
  shows "(k * 1440 + c) mod 10080 < 1440 \<longleftrightarrow> k = 0"
proof -
  have "(k * 1440 + c) mod 10080 = (if k * 1440 + c < 0 then k * 1440 + c + 10080 else k * 1440 + c)"
    using assms by (intro mod_near) linarith+
  with assms show ?thesis by auto
qed

lemma wall_ranges [simp]:
  "0 \<le> wall_minute w" "wall_minute w < 1440" "0 \<le> wall_weekday w" "wall_weekday w < 7"
  by (simp_all add: wall_minute_def wall_weekday_def)

lemma in_week_window_iff:
  assumes "0 \<le> s" "s < 1440" "0 \<le> e" "e < 1440" "0 \<le> d" "d < 7"
  shows "in_week_window d s e w \<longleftrightarrow>
     (if s = e then wall_weekday w = d
      else if s < e then wall_weekday w = d \<and> s \<le> wall_minute w \<and> wall_minute w < e
      else wall_weekday w = d \<and> s \<le> wall_minute w \<or> wall_weekday w = (d + 1) mod 7 \<and> wall_minute w < e)"
proof -
  have r: "wall_weekday w * 1440 + wall_minute w - (d * 1440 + x) = (wall_weekday w - d) * 1440 + (wall_minute w - x)" for x
    by (simp add: algebra_simps)
  have m: "wall_weekday w = (d + 1) mod 7 \<longleftrightarrow> wall_weekday w - d = 1 \<or> wall_weekday w - d = -6"
  proof (cases "d = 6")
    case True
    then show ?thesis using wall_ranges(4) [of w] by (simp add: less_imp_neq)
  next
    case False
    then have "(d + 1) mod 7 = d + 1" using assms by simp
    with False assms wall_ranges [of w] show ?thesis by linarith
  qed
  have k: "-6 \<le> wall_weekday w - d" "wall_weekday w - d \<le> 6"
    using assms wall_ranges(3,4) [of w] by linarith+
  show ?thesis
    using week_arith [OF wall_ranges(1,2) [of w] assms(1-4) k] full_day_arith [OF wall_ranges(1,2) [of w] k]
    unfolding in_week_window_def r m by simp
qed

section \<open>Layers in order\<close>

lemma first_active_layer_Some:
  "first_active_layer db odb now ls = Inr (Some l) \<Longrightarrow>
     \<exists>pre post. ls = pre @ l # post \<and> is_layer_active_now db odb l now = Inr True \<and>
       get_scheduled_oncall_user_for_layer db odb l now \<noteq> None \<and>
       (\<forall>l' \<in> set pre. is_layer_active_now db odb l' now = Inr True \<longrightarrow>
          get_scheduled_oncall_user_for_layer db odb l' now = None)"
proof (induction ls)
  case (Cons x ls)
  show ?case
  proof (cases "is_layer_active_now db odb x now = Inr True \<and> get_scheduled_oncall_user_for_layer db odb x now \<noteq> None")
    case True
    with Cons.prems show ?thesis by (intro exI [of _ "[]"] exI [of _ ls]) auto
  next
    case False
    with Cons.prems have "first_active_layer db odb now ls = Inr (Some l)"
      by (auto simp: res_bind_Inr_iff split: if_splits)
    from Cons.IH [OF this] obtain pre post where "ls = pre @ l # post" "is_layer_active_now db odb l now = Inr True"
      "get_scheduled_oncall_user_for_layer db odb l now \<noteq> None"
      "\<forall>l' \<in> set pre. is_layer_active_now db odb l' now = Inr True \<longrightarrow> get_scheduled_oncall_user_for_layer db odb l' now = None"
      by blast
    with False show ?thesis by (intro exI [of _ "x # pre"] exI [of _ post]) auto
  qed
qed simp

text \<open>An element of a sorted list with a smaller key stands before the split.\<close>

lemma sort_key_before:
  assumes "sort_key f xs = pre @ y # post" and "x \<in> set xs" and "f x < f y"
  shows "x \<in> set pre"
proof -
  have "sorted (map f (pre @ y # post))"
    using sorted_sort_key [of f xs] assms(1) by simp
  then have "f y \<le> f z" if "z \<in> set (y # post)" for z
    using that by (auto simp: sorted_append)
  moreover have "x \<in> set (pre @ y # post)"
    using assms(1,2) by (metis set_sort)
  ultimately show ?thesis
    using assms(3) by (auto dest: leD)
qed

definition eligible_layers :: "oncall_db \<Rightarrow> rotation \<Rightarrow> layer set" where
  "eligible_layers odb rot =
     {l \<in> set (layers odb). rotation_id (layer_rotation l) = rotation_id rot \<and> layer_enabled l \<and> \<not> layer_deleted l}"

definition active_overrides :: "oncall_db \<Rightarrow> rotation \<Rightarrow> int \<Rightarrow> rotation_override set" where
  "active_overrides odb rot now =
     {ov \<in> set (overrides odb). override_rotation ov = rotation_id rot \<and> override_starts_at ov \<le> now \<and> now < override_ends_at ov}"

lemma get_active_layer_Some:
  assumes "get_active_rotation_layer db odb (Some rot) now = Inr (Some l)"
  shows "l \<in> eligible_layers odb rot \<and> is_layer_active_now db odb l now = Inr True \<and>
     (\<forall>l' \<in> eligible_layers odb rot. (priority l, layer_id l) < (priority l', layer_id l') \<longrightarrow>
        is_layer_active_now db odb l' now = Inr True \<longrightarrow> get_scheduled_oncall_user_for_layer db odb l' now = None)"
proof -
  let ?f = "\<lambda>l. (- priority l, - layer_id l)" and ?ls = "list_rotation_layers odb (rotation_id rot) True False"
  have "first_active_layer db odb now ?ls = Inr (Some l)"
    using assms by (auto simp: get_active_rotation_layer_def split: if_splits)
  from first_active_layer_Some [OF this] obtain pre post where p: "?ls = pre @ l # post"
    "is_layer_active_now db odb l now = Inr True"
    "\<forall>l' \<in> set pre. is_layer_active_now db odb l' now = Inr True \<longrightarrow> get_scheduled_oncall_user_for_layer db odb l' now = None"
    by blast
  have el: "set ?ls = eligible_layers odb rot"
    by (auto simp: list_rotation_layers_def eligible_layers_def)
  have "l' \<in> set pre" if "l' \<in> eligible_layers odb rot" "(priority l, layer_id l) < (priority l', layer_id l')" for l'
  proof (rule sort_key_before [where f = ?f and y = l])
    show "?f l' < ?f l" using that(2) by (auto simp: less_prod_def)
  qed (use that p(1) in \<open>auto simp: list_rotation_layers_def eligible_layers_def\<close>)
  with p el show ?thesis by (metis in_set_conv_decomp)
qed

lemma get_active_override_spec:
  "case get_active_override odb (rotation_id rot) now of
     None \<Rightarrow> active_overrides odb rot now = {}
   | Some ov \<Rightarrow> ov \<in> active_overrides odb rot now \<and> (\<forall>ov' \<in> active_overrides odb rot now. override_id ov' \<le> override_id ov)"
proof -
  let ?l = "filter (\<lambda>o'. override_rotation o' = rotation_id rot \<and> override_starts_at o' \<le> now \<and> override_ends_at o' > now) (overrides odb)"
  let ?s = "sort_key (\<lambda>o'. - override_id o') ?l"
  have s: "set ?s = active_overrides odb rot now"
    by (auto simp: active_overrides_def)
  show ?thesis
  proof (cases ?s)
    case Nil
    with s show ?thesis by (simp add: get_active_override_def)
  next
    case (Cons ov rest)
    have "sorted (map (\<lambda>o'. - override_id o') ?s)" by simp
    with Cons s show ?thesis by (auto simp: get_active_override_def)
  qed
qed

section \<open>Round robin\<close>

lemma user_index_shift: "user_index uid (i + j) ms = map_option (\<lambda>k. i + k) (user_index uid j ms)"
  by (induction ms arbitrary: j) (auto simp flip: add_Suc_right)

lemmas user_index_offset = user_index_shift [of _ _ 0, simplified]

lemma user_index_nth:
  assumes "distinct (map (user_id \<circ> member_user) ms)" and "i < length ms"
  shows "user_index (user_id (member_user (ms ! i))) 0 ms = Some i"
  using assms
proof (induction ms arbitrary: i)
  case (Cons m ms)
  show ?case
  proof (cases i)
    case (Suc j)
    then have "user_id (member_user m) \<noteq> user_id (member_user (ms ! j))"
      using Cons.prems by (metis (no_types, lifting) comp_apply distinct.simps(2) image_eqI length_Cons list.set_map
          list.simps(9) not_less_eq nth_mem)
    with Suc Cons show ?thesis
      by (simp add: user_index_offset [of _ "Suc 0"])
  qed simp
qed simp

section \<open>Properties\<close>

text \<open>
  C27. The user on call: an override in force wins, the newest one if there are several;
  otherwise the user is the scheduled one of an enabled layer whose restrictions admit the
  instant, and no layer of higher priority (or as high and newer) that is active then has
  anyone scheduled.
\<close>

theorem current_oncall_user_spec:
  assumes "get_current_oncall_user db odb (Some rot) now = Inr (Some u)"
  shows "(\<exists>ov \<in> active_overrides odb rot now. u = override_user ov \<and>
            (\<forall>ov' \<in> active_overrides odb rot now. override_id ov' \<le> override_id ov)) \<or>
     active_overrides odb rot now = {} \<and>
       (\<exists>l \<in> eligible_layers odb rot. is_layer_active_now db odb l now = Inr True \<and>
          get_scheduled_oncall_user_for_layer db odb l now = Some u \<and>
          (\<forall>l' \<in> eligible_layers odb rot. (priority l, layer_id l) < (priority l', layer_id l') \<longrightarrow>
             is_layer_active_now db odb l' now = Inr True \<longrightarrow> get_scheduled_oncall_user_for_layer db odb l' now = None))"
proof (cases "get_active_override odb (rotation_id rot) now")
  case (Some ov)
  with assms get_active_override_spec [of odb rot now] show ?thesis
    by (auto simp: get_current_oncall_user_def split: if_splits)
next
  case None
  with assms have "get_scheduled_oncall_user db odb (Some rot) now = Inr (Some u)"
    by (simp add: get_current_oncall_user_def split: if_splits)
  then obtain l where l: "get_active_rotation_layer db odb (Some rot) now = Inr (Some l)"
    "get_scheduled_oncall_user_for_layer db odb l now = Some u"
    by (auto simp: get_scheduled_oncall_user_def res_bind_Inr_iff split: if_splits option.splits)
  from get_active_layer_Some [OF l(1)] l(2) None get_active_override_spec [of odb rot now] show ?thesis
    by auto
qed

definition demo_user :: "int \<Rightarrow> user" where
  "demo_user n = \<lparr>user_id = n, username = ''u'', user_active = True, user_deleted = False\<rparr>"

definition demo_member :: "int \<Rightarrow> layer_member" where
  "demo_member n = \<lparr>member_id = n, member_layer = 1, member_user = demo_user n, position = n, member_active = True,
     starts_at = None, ends_at = None\<rparr>"

definition demo_db :: oncall_db where
  "demo_db = \<lparr>layers = [demo_layer], members = [demo_member 8, demo_member 7], restrictions = [], overrides = []\<rparr>"

abbreviation paris :: tzdb where "paris \<equiv> (\<lambda>_. Some (fall_back 0))"

lemma demo_members: "effective_members demo_db demo_layer t = [demo_member 7, demo_member 8]"
  by (simp add: effective_members_def list_rotation_layer_members_def demo_db_def demo_layer_def demo_member_def demo_user_def
      rotation_layer_member_effective_at_def)

lemma demo_slot: "layer_slot_index paris demo_layer 50000000000 = Some 0"
  by (simp add: layer_slot_index_def demo_layer_eval int_seconds_def to_wall_def) (simp add: fall_back_def)

lemma demo_scheduled: "get_scheduled_oncall_user_for_layer paris demo_db demo_layer 50000000000 = Some (demo_user 7)"
  by (simp add: get_scheduled_oncall_user_for_layer_def demo_members demo_slot Let_def) (simp add: demo_member_def)

lemma demo_active:
  "get_active_rotation_layer paris demo_db (Some demo_rotation) 50000000000 = Inr (Some demo_layer)"
proof -
  have "is_layer_active_now paris demo_db demo_layer 50000000000 = Inr True"
    by (simp add: is_layer_active_now_def list_rotation_layer_restrictions_def demo_db_def demo_layer_def)
  moreover have "list_rotation_layers demo_db (rotation_id demo_rotation) True False = [demo_layer]"
    by (simp add: list_rotation_layers_def demo_db_def demo_layer_def)
  ultimately show ?thesis
    by (simp add: get_active_rotation_layer_def demo_scheduled) (simp add: usable_def demo_rotation_def)
qed

theorem current_oncall_user_spec_witness:
  "get_current_oncall_user paris demo_db (Some demo_rotation) 50000000000 = Inr (Some (demo_user 7)) \<and>
   (\<exists>l \<in> eligible_layers demo_db demo_rotation.
      get_scheduled_oncall_user_for_layer paris demo_db l 50000000000 = Some (demo_user 7))"
proof -
  have g: "get_current_oncall_user paris demo_db (Some demo_rotation) 50000000000 = Inr (Some (demo_user 7))"
    by (simp add: get_current_oncall_user_def get_active_override_def get_scheduled_oncall_user_def demo_active demo_scheduled
        demo_db_def [THEN arg_cong [of _ _ overrides]])
      (simp add: usable_def demo_rotation_def)
  have "active_overrides demo_db demo_rotation 50000000000 = {}"
    by (simp add: active_overrides_def demo_db_def)
  with current_oncall_user_spec [OF g] g show ?thesis by blast
qed

text \<open>
  Reassigning an alert to the next user of a rotation anticipates the schedule: when
  the assignee is the user on duty in the active layer, the next user is the one on duty from
  the next handoff on, as long as the membership does not change in between.
\<close>

theorem next_user_is_next_on_duty:
  assumes "get_active_rotation_layer db odb (Some rot) t = Inr (Some l)"
    and "layer_start_utc_naive db l = Some s" and "s \<le> t" and "regular_ahead db l t"
    and "get_scheduled_oncall_user_for_layer db odb l t = Some u"
    and "distinct (map (user_id \<circ> member_user) (effective_members odb l t))"
    and "next_layer_boundary_utc db l t = Some b" and "effective_members odb l b = effective_members odb l t"
  shows "get_next_rotation_user db odb (Some rot) (Some u) t = Inr (get_scheduled_oncall_user_for_layer db odb l b)"
proof -
  let ?ms = "effective_members odb l t"
  have run: "layer_running (db, l) t" using assms(2-4) by (simp add: layer_running_def)
  obtain k where k: "layer_slot_index db l t = Some k"
    using layer_slots.slot_defined [OF run] by auto
  have ms: "?ms \<noteq> []" and u: "u = member_user (?ms ! nat (k mod int (length ?ms)))"
    using assms(5) k by (auto simp: get_scheduled_oncall_user_for_layer_def Let_def split: if_splits)
  have "nat (k mod int (length ?ms)) < length ?ms"
    using ms by (simp add: nat_less_iff)
  from user_index_nth [OF assms(6) this] u
  have "user_index (user_id u) 0 ?ms = Some (nat (k mod int (length ?ms)))" by simp
  moreover have "usable (Some rot)"
    using assms(1) by (auto simp: get_active_rotation_layer_def split: if_splits)
  moreover obtain k' where "layer_slot_index db l b = Some k'" "nat (k' mod int (length ?ms)) = Suc (nat (k mod int (length ?ms))) mod length ?ms"
    using layer_slots.round_robin [OF run, of b k "length ?ms"] assms(7) k ms by auto
  ultimately show ?thesis
    using ms assms(1,8)
    by (simp add: get_next_rotation_user_def get_scheduled_oncall_user_for_layer_def Let_def)
qed

theorem next_user_is_next_on_duty_witness:
  "\<exists>b. next_layer_boundary_utc paris demo_layer 50000000000 = Some b \<and>
     get_next_rotation_user paris demo_db (Some demo_rotation) (Some (demo_user 7)) 50000000000 =
       Inr (get_scheduled_oncall_user_for_layer paris demo_db demo_layer b)"
proof -
  have s: "layer_start_utc_naive paris demo_layer = Some (6300 * second)"
    by (simp add: demo_layer_eval)
  have r: "regular_ahead paris demo_layer 50000000000"
    by (rule demo_regular) simp
  obtain b where b: "next_layer_boundary_utc paris demo_layer 50000000000 = Some b"
    using next_boundary_regular [OF s _ r] by auto
  have "distinct (map (user_id \<circ> member_user) (effective_members demo_db demo_layer 50000000000))"
    by (simp add: demo_members) (simp add: demo_member_def demo_user_def)
  from next_user_is_next_on_duty [OF demo_active s _ r demo_scheduled this b] b show ?thesis
    by (auto simp: demo_members)
qed

text \<open>
  A restriction of a layer is the window of the week it denotes: with times of day and
  weekdays in range, it matches a wall-clock time exactly when the minute of the week lies in
  one of its windows, taken modulo a week, so that an overnight window extends into the
  following day, Sunday night included.
\<close>

theorem restriction_matches_window:
  assumes "minutes (start_time r) = Inr s" and "minutes (end_time r) = Inr e"
    and "0 \<le> s" "s < 1440" "0 \<le> e" "e < 1440" and "\<forall>d \<in> set_option (weekday r). 0 \<le> d \<and> d < 7"
  shows "restriction_matches r w =
     Inr (\<exists>d \<in> (case weekday r of None \<Rightarrow> {0..6} | Some d \<Rightarrow> {d}). in_week_window d s e w)"
proof (cases "weekday r")
  case (Some d)
  with assms in_week_window_iff [OF assms(3-6), of d w] show ?thesis
    by (auto simp: restriction_matches_def Let_def)
next
  case None
  have "(\<exists>d \<in> {0..6}. in_week_window d s e w) \<longleftrightarrow>
      (if s = e then True else if s < e then s \<le> wall_minute w \<and> wall_minute w < e
       else s \<le> wall_minute w \<or> wall_minute w < e)" (is "?l \<longleftrightarrow> ?r")
  proof
    assume ?l
    then show ?r using in_week_window_iff [OF assms(3-6)] by (fastforce split: if_splits)
  next
    assume r: ?r
    let ?d = "wall_weekday w" and ?d' = "(wall_weekday w + 6) mod 7"
    have "(?d' + 1) mod 7 = ?d" using wall_ranges(3,4) [of w] by (simp add: mod_simps)
    with r in_week_window_iff [OF assms(3-6), of ?d w] in_week_window_iff [OF assms(3-6), of ?d' w]
    have "in_week_window ?d s e w \<or> in_week_window ?d' s e w" by (auto split: if_splits)
    moreover have "?d \<in> {0..6}" "?d' \<in> {0..6}"
      using wall_ranges(4) [of w] pos_mod_bound [of 7 "wall_weekday w + 6"] by (auto simp del: pos_mod_bound wall_ranges(4))
    ultimately show ?l by blast
  qed
  with None assms(1,2) show ?thesis by (auto simp: restriction_matches_def Let_def)
qed

definition demo_restriction :: layer_restriction where
  "demo_restriction = \<lparr>restriction_id = 1, restriction_layer = 1, weekday = Some 6, start_time = ''18:00'', end_time = ''09:00''\<rparr>"

theorem restriction_matches_window_witness:
  "restriction_matches demo_restriction ((4 * 1440 + 480) * 60 * second) = Inr True \<and>
   in_week_window 6 1080 540 ((4 * 1440 + 480) * 60 * second)"
proof -
  have m: "minutes (start_time demo_restriction) = Inr 1080" "minutes (end_time demo_restriction) = Inr 540"
    by code_simp+
  have w: "in_week_window 6 1080 540 ((4 * 1440 + 480) * 60 * second)"
    by (simp add: in_week_window_def wall_weekday_def wall_minute_def)
  with restriction_matches_window [OF m, of "(4 * 1440 + 480) * 60 * second"] show ?thesis
    by (simp add: demo_restriction_def)
qed

end
