(* ===== verification/Calendar.thy ===== *)
theory Calendar
  imports On_Call
begin

text \<open>
  The on-call calendar (\<open>services/calendar_service.py\<close>): candidate events of the layers and
  the overrides of a rotation, and their collapse into one schedule. The descriptive columns
  of an event (names of the rotation, team and layer, the reason of an override) are left
  out; its boundaries are instants instead of their ISO texts.
\<close>

section \<open>Events\<close>

record event_data =
  ev_type :: string
  ev_rotation_id :: int
  ev_layer_id :: "int option"
  ev_override_id :: "int option"
  ev_timezone :: string
  ev_user :: user

record calendar_event =
  ev_data :: event_data
  ev_start :: int
  ev_end :: int

record candidate =
  c_start :: int
  c_end :: int
  c_priority :: int
  c_order :: int
  c_event :: event_data

definition OVERRIDE_PRIORITY :: int where "OVERRIDE_PRIORITY = 1000000"

section \<open>Queries\<close>

definition list_rotation_layer_member_periods :: "oncall_db \<Rightarrow> int \<Rightarrow> int option \<Rightarrow> int option \<Rightarrow> bool \<Rightarrow> layer_member list" where
  "list_rotation_layer_member_periods odb lid start stop include_inactive_users =
     sort_key (\<lambda>m. (position m, member_id m))
       (filter (\<lambda>m. member_layer m = lid \<and>
          (case start of None \<Rightarrow> True | Some s \<Rightarrow> (case ends_at m of None \<Rightarrow> True | Some e \<Rightarrow> e > s)) \<and>
          (case stop of None \<Rightarrow> True | Some u \<Rightarrow> (case starts_at m of None \<Rightarrow> True | Some s \<Rightarrow> s < u)) \<and>
          (\<not> include_inactive_users \<longrightarrow> user_active (member_user m) \<and> \<not> user_deleted (member_user m))) (members odb))"

text \<open>The query with both bounds, as the calendar calls it.\<close>

definition list_rotation_overrides :: "oncall_db \<Rightarrow> int \<Rightarrow> int \<Rightarrow> int \<Rightarrow> rotation_override list" where
  "list_rotation_overrides odb rid start stop =
     sort_key (\<lambda>ov. (override_starts_at ov, override_id ov))
       (filter (\<lambda>ov. override_rotation ov = rid \<and> override_starts_at ov < stop \<and> override_ends_at ov > start) (overrides odb))"

section \<open>Members of a layer\<close>

definition is_layer_member_effective_at :: "layer_member \<Rightarrow> int \<Rightarrow> bool" where
  "is_layer_member_effective_at m t =
     (if (case starts_at m of None \<Rightarrow> False | Some s \<Rightarrow> s > t) then False
      else if (case ends_at m of None \<Rightarrow> False | Some e \<Rightarrow> e \<le> t) then False
      else True)"

definition get_effective_layer_members_at :: "layer_member list \<Rightarrow> int \<Rightarrow> layer_member list" where
  "get_effective_layer_members_at ms t = filter (\<lambda>m. is_layer_member_effective_at m t) ms"

definition earlier_boundary :: "int \<Rightarrow> int option \<Rightarrow> int \<Rightarrow> int" where
  "earlier_boundary t v boundary =
     (case v of None \<Rightarrow> boundary | Some x \<Rightarrow> if t < x \<and> x < boundary then x else boundary)"

definition get_next_layer_member_boundary :: "layer_member list \<Rightarrow> int \<Rightarrow> int \<Rightarrow> int" where
  "get_next_layer_member_boundary ms t fallback =
     fold (\<lambda>m b. earlier_boundary t (ends_at m) (earlier_boundary t (starts_at m) b)) ms fallback"

definition get_layer_user_at :: "tzdb \<Rightarrow> layer \<Rightarrow> layer_member list \<Rightarrow> int \<Rightarrow> user option" where
  "get_layer_user_at db l ms t =
     (let eff = get_effective_layer_members_at ms t in
      if eff = [] then None
      else case layer_slot_index db l t of
             None \<Rightarrow> None
           | Some slot \<Rightarrow> Some (member_user (eff ! nat (slot mod int (length eff)))))"

section \<open>Active windows of a layer\<close>

definition minutes_from_hhmm :: "string \<Rightarrow> int result" where
  "minutes_from_hhmm v = res_bind (parse_hhmm v) (\<lambda>(hour, minute). Inr (hour * 60 + minute))"

text \<open>\<open>time(minutes // 60, minutes % 60)\<close>, as microseconds of the day.\<close>

definition time_of_minutes :: "int \<Rightarrow> int result" where
  "time_of_minutes n =
     (if 0 \<le> n div 60 \<and> n div 60 < 24 then Inr (n * 60 * second) else raise ValueError ''hour must be in 0..23'')"

abbreviation day :: int where "day \<equiv> 86400 * second"

definition restriction_window_for_day :: "layer_restriction \<Rightarrow> int \<Rightarrow> zone \<Rightarrow> int \<Rightarrow> int \<Rightarrow> (int \<times> int) option result" where
  "restriction_window_for_day r local_day z range_start range_end =
     (if (case weekday r of None \<Rightarrow> False | Some d \<Rightarrow> (local_day + 3) mod 7 \<noteq> d) then Inr None
      else
        res_bind (minutes_from_hhmm (start_time r)) (\<lambda>start_minutes.
        res_bind (minutes_from_hhmm (end_time r)) (\<lambda>end_minutes.
        res_bind
          (if start_minutes = end_minutes then Inr (local_day * day, local_day * day + day)
           else
             res_bind (time_of_minutes start_minutes) (\<lambda>start_time.
               let local_end_day = (if start_minutes < end_minutes then local_day else local_day + 1) in
               res_bind (time_of_minutes end_minutes) (\<lambda>end_time.
                 Inr (local_day * day + start_time, local_end_day * day + end_time))))
          (\<lambda>(local_start, local_end).
             let window_start = max (from_wall z local_start) range_start;
                 window_end = min (from_wall z local_end) range_end
             in if window_end \<le> window_start then Inr None else Inr (Some (window_start, window_end))))))"

definition iter_local_days :: "int \<Rightarrow> int \<Rightarrow> zone \<Rightarrow> int list" where
  "iter_local_days start stop z = [to_wall z start div day - 1 .. to_wall z stop div day + 1]"

fun merge_sorted :: "(int \<times> int) list \<Rightarrow> int \<times> int \<Rightarrow> (int \<times> int) list" where
  "merge_sorted [] prev = [prev]"
| "merge_sorted ((s, e) # ws) prev =
     (if s \<le> snd prev then merge_sorted ws (fst prev, max (snd prev) e) else prev # merge_sorted ws (s, e))"

definition merge_windows :: "(int \<times> int) list \<Rightarrow> (int \<times> int) list" where
  "merge_windows ws = (case sort_key fst ws of [] \<Rightarrow> [] | w # rest \<Rightarrow> merge_sorted rest w)"

text \<open>The windows of all days and restrictions, day by day, until an error.\<close>

fun day_windows :: "layer_restriction list \<Rightarrow> int \<Rightarrow> zone \<Rightarrow> int \<Rightarrow> int \<Rightarrow> (int \<times> int) list result" where
  "day_windows [] d z rs re = Inr []"
| "day_windows (r # restr) d z rs re =
     res_bind (restriction_window_for_day r d z rs re) (\<lambda>w.
     res_bind (day_windows restr d z rs re) (\<lambda>ws. Inr (case w of None \<Rightarrow> ws | Some w \<Rightarrow> w # ws)))"

fun all_windows :: "layer_restriction list \<Rightarrow> int list \<Rightarrow> zone \<Rightarrow> int \<Rightarrow> int \<Rightarrow> (int \<times> int) list result" where
  "all_windows restr [] z rs re = Inr []"
| "all_windows restr (d # ds) z rs re =
     res_bind (day_windows restr d z rs re) (\<lambda>ws. res_bind (all_windows restr ds z rs re) (\<lambda>vs. Inr (ws @ vs)))"

definition window_timezone_name :: "layer \<Rightarrow> string" where
  "window_timezone_name l =
     str_or (effective_layer_value empty_str (timezone l) (timezone (layer_rotation l)) (timezone (layer_rotation l))) ''UTC''"

definition get_layer_active_windows :: "tzdb \<Rightarrow> oncall_db \<Rightarrow> layer \<Rightarrow> int \<Rightarrow> int \<Rightarrow> (int \<times> int) list result" where
  "get_layer_active_windows db odb l start stop =
     (let restr = list_rotation_layer_restrictions odb (layer_id l) in
      if restr = [] then Inr [(start, stop)]
      else let z = (case db (window_timezone_name l) of None \<Rightarrow> utc_zone | Some z \<Rightarrow> z) in
           res_bind (all_windows restr (iter_local_days start stop z) z start stop) (\<lambda>ws. Inr (merge_windows ws)))"

section \<open>Candidates\<close>

definition candidate_duration :: "rotation \<Rightarrow> layer \<Rightarrow> int" where
  "candidate_duration rot l =
     (case effective_layer_value no_blank (duration_seconds l) (duration_seconds (layer_rotation l)) (duration_seconds rot) of
        None \<Rightarrow> 86400
      | Some v \<Rightarrow> if v \<le> 0 then 86400 else v)"

definition layer_candidate :: "rotation \<Rightarrow> layer \<Rightarrow> user \<Rightarrow> int \<Rightarrow> int \<Rightarrow> candidate" where
  "layer_candidate rot l u s e =
     \<lparr>c_start = s, c_end = e, c_priority = priority l, c_order = layer_id l,
      c_event = \<lparr>ev_type = ''layer'', ev_rotation_id = rotation_id rot, ev_layer_id = Some (layer_id l), ev_override_id = None,
        ev_timezone = str_or (effective_layer_value empty_str (timezone l) (timezone (layer_rotation l)) (timezone rot)) ''UTC'',
        ev_user = u\<rparr>\<rparr>"

definition segment_end_at :: "rotation \<Rightarrow> layer \<Rightarrow> layer_member list \<Rightarrow> int \<Rightarrow> int \<Rightarrow> int \<Rightarrow> int" where
  "segment_end_at rot l ms window_end next_boundary cursor =
     (let segment_end = min next_boundary (min (get_next_layer_member_boundary ms cursor window_end) window_end) in
      if segment_end \<le> cursor then min (cursor + candidate_duration rot l * second) window_end else segment_end)"

lemma candidate_duration_pos: "0 < candidate_duration rot l"
  by (auto simp: candidate_duration_def split: option.splits)

lemma segment_end_after: "cursor < window_end \<Longrightarrow> cursor < segment_end_at rot l ms window_end nb cursor"
  using candidate_duration_pos [of rot l] by (auto simp: segment_end_at_def Let_def min_le_iff_disj)

function window_candidates ::
  "tzdb \<Rightarrow> rotation \<Rightarrow> layer \<Rightarrow> layer_member list \<Rightarrow> int \<Rightarrow> int \<Rightarrow> candidate list result" where
  "window_candidates db rot l ms window_end cursor =
     (if cursor < window_end then
        (case next_layer_boundary_utc db l cursor of
           None \<Rightarrow> raise TypeError ''not supported between instances of datetime and NoneType''
         | Some nb \<Rightarrow>
             let segment_end = segment_end_at rot l ms window_end nb cursor in
             res_bind (window_candidates db rot l ms window_end segment_end) (\<lambda>rest.
               Inr (case get_layer_user_at db l ms cursor of
                      None \<Rightarrow> rest
                    | Some u \<Rightarrow> if segment_end > cursor then layer_candidate rot l u cursor segment_end # rest else rest)))
      else Inr [])"
  by pat_completeness auto
termination
  by (relation "measure (\<lambda>(db, rot, l, ms, window_end, cursor). nat (window_end - cursor))")
    (use segment_end_after in auto)

declare window_candidates.simps [simp del]

fun windows_candidates ::
  "tzdb \<Rightarrow> rotation \<Rightarrow> layer \<Rightarrow> layer_member list \<Rightarrow> int option \<Rightarrow> int \<Rightarrow> int \<Rightarrow> (int \<times> int) list \<Rightarrow> candidate list result" where
  "windows_candidates db rot l ms anchor start stop [] = Inr []"
| "windows_candidates db rot l ms anchor start stop ((window_start, window_end) # ws) =
     (case anchor of
        None \<Rightarrow> raise TypeError ''not supported between instances of NoneType and datetime''
      | Some s \<Rightarrow>
          res_bind (window_candidates db rot l ms (min window_end stop) (max window_start (max s start))) (\<lambda>cs.
          res_bind (windows_candidates db rot l ms anchor start stop ws) (\<lambda>cs'. Inr (cs @ cs'))))"

definition build_layer_candidate_events ::
  "tzdb \<Rightarrow> oncall_db \<Rightarrow> rotation \<Rightarrow> layer \<Rightarrow> int \<Rightarrow> int \<Rightarrow> candidate list result" where
  "build_layer_candidate_events db odb rot l start stop =
     (if \<not> layer_enabled l \<or> layer_deleted l then Inr []
      else let ms = list_rotation_layer_member_periods odb (layer_id l) (Some start) (Some stop) True in
           if ms = [] then Inr []
           else res_bind (get_layer_active_windows db odb l start stop)
                  (windows_candidates db rot l ms (layer_start_utc_naive db l) start stop))"

definition override_candidate :: "rotation \<Rightarrow> int \<Rightarrow> int \<Rightarrow> rotation_override \<Rightarrow> candidate list" where
  "override_candidate rot start stop ov =
     (let event_start = max (override_starts_at ov) start; event_end = min (override_ends_at ov) stop in
      if event_end \<le> event_start then []
      else [\<lparr>c_start = event_start, c_end = event_end, c_priority = OVERRIDE_PRIORITY, c_order = override_id ov,
             c_event = \<lparr>ev_type = ''override'', ev_rotation_id = rotation_id rot, ev_layer_id = None,
               ev_override_id = Some (override_id ov), ev_timezone = str_or (timezone rot) ''UTC'',
               ev_user = override_user ov\<rparr>\<rparr>])"

definition build_override_candidate_events :: "oncall_db \<Rightarrow> rotation \<Rightarrow> int \<Rightarrow> int \<Rightarrow> candidate list" where
  "build_override_candidate_events odb rot start stop =
     concat (map (override_candidate rot start stop) (list_rotation_overrides odb (rotation_id rot) start stop))"

section \<open>Collapsing the candidates\<close>

definition calendar_event_identity :: "event_data \<Rightarrow> string \<times> int \<times> int option \<times> int option \<times> int" where
  "calendar_event_identity d = (ev_type d, ev_rotation_id d, ev_layer_id d, ev_override_id d, user_id (ev_user d))"

definition append_or_merge_calendar_event :: "calendar_event list \<Rightarrow> calendar_event \<Rightarrow> calendar_event list" where
  "append_or_merge_calendar_event events event =
     (if events = [] then [event]
      else let previous = last events in
           if ev_end previous = ev_start event \<and>
              calendar_event_identity (ev_data previous) = calendar_event_identity (ev_data event)
           then butlast events @ [previous\<lparr>ev_end := ev_end event\<rparr>]
           else events @ [event])"

definition normalize_candidate :: "int \<Rightarrow> int \<Rightarrow> candidate \<Rightarrow> candidate list" where
  "normalize_candidate start stop c =
     (let item_start = max (c_start c) start; item_end = min (c_end c) stop in
      if item_end \<le> item_start then [] else [c\<lparr>c_start := item_start, c_end := item_end\<rparr>])"

text \<open>\<open>max(candidates, key=...)\<close>: the first element whose key no later one exceeds.\<close>

fun max_candidate :: "candidate \<Rightarrow> candidate list \<Rightarrow> candidate" where
  "max_candidate best [] = best"
| "max_candidate best (c # cs) =
     max_candidate (if (c_priority best, c_order best) < (c_priority c, c_order c) then c else best) cs"

fun winner :: "candidate list \<Rightarrow> candidate option" where
  "winner [] = None"
| "winner (c # cs) = Some (max_candidate c cs)"

fun collapse_segments :: "candidate list \<Rightarrow> int list \<Rightarrow> calendar_event list \<Rightarrow> calendar_event list" where
  "collapse_segments normalized (segment_start # segment_end # points) result =
     (if segment_end \<le> segment_start then collapse_segments normalized (segment_end # points) result
      else case winner (filter (\<lambda>c. c_start c \<le> segment_start \<and> c_end c \<ge> segment_end) normalized) of
             None \<Rightarrow> collapse_segments normalized (segment_end # points) result
           | Some w \<Rightarrow> collapse_segments normalized (segment_end # points)
               (append_or_merge_calendar_event result \<lparr>ev_data = c_event w, ev_start = segment_start, ev_end = segment_end\<rparr>))"
| "collapse_segments normalized _ result = result"

definition calendar_points :: "candidate list \<Rightarrow> int \<Rightarrow> int \<Rightarrow> int list" where
  "calendar_points normalized start stop =
     sort (remdups (start # stop # concat (map (\<lambda>c. [c_start c, c_end c]) normalized)))"

definition collapse_calendar_candidates :: "candidate list \<Rightarrow> int \<Rightarrow> int \<Rightarrow> calendar_event list" where
  "collapse_calendar_candidates candidates start stop =
     (let normalized = concat (map (normalize_candidate start stop) candidates) in
      collapse_segments normalized (calendar_points normalized start stop) [])"

fun layers_candidates ::
  "tzdb \<Rightarrow> oncall_db \<Rightarrow> rotation \<Rightarrow> int \<Rightarrow> int \<Rightarrow> layer list \<Rightarrow> candidate list result" where
  "layers_candidates db odb rot start stop [] = Inr []"
| "layers_candidates db odb rot start stop (l # ls) =
     res_bind (build_layer_candidate_events db odb rot l start stop) (\<lambda>cs.
     res_bind (layers_candidates db odb rot start stop ls) (\<lambda>cs'. Inr (cs @ cs')))"

definition build_rotation_calendar :: "tzdb \<Rightarrow> oncall_db \<Rightarrow> rotation \<Rightarrow> int \<Rightarrow> int \<Rightarrow> calendar_event list result" where
  "build_rotation_calendar db odb rot start stop =
     res_bind (layers_candidates db odb rot start stop (list_rotation_layers odb (rotation_id rot) True False)) (\<lambda>cs.
       Inr (collapse_calendar_candidates (cs @ build_override_candidate_events odb rot start stop) start stop))"

fun rotations_events :: "tzdb \<Rightarrow> oncall_db \<Rightarrow> int \<Rightarrow> int \<Rightarrow> rotation list \<Rightarrow> calendar_event list result" where
  "rotations_events db odb start stop [] = Inr []"
| "rotations_events db odb start stop (rot # rots) =
     res_bind (build_rotation_calendar db odb rot start stop) (\<lambda>es.
     res_bind (rotations_events db odb start stop rots) (\<lambda>es'. Inr (es @ es')))"

text \<open>The enabled rotations of the team are an argument.\<close>

definition build_team_calendar :: "tzdb \<Rightarrow> oncall_db \<Rightarrow> rotation list \<Rightarrow> int \<Rightarrow> int \<Rightarrow> calendar_event list result" where
  "build_team_calendar db odb rotations start stop =
     res_bind (rotations_events db odb start stop rotations) (\<lambda>es. Inr (sort_key ev_start es))"

section \<open>Merged windows\<close>

definition covered :: "(int \<times> int) list \<Rightarrow> int set" where
  "covered ws = (\<Union>(s, e) \<in> set ws. {s..<e})"

fun separated :: "(int \<times> int) list \<Rightarrow> bool" where
  "separated ((s, e) # (s', e') # ws) = (s < e \<and> e < s' \<and> separated ((s', e') # ws))"
| "separated [(s, e)] = (s < e)"
| "separated [] = True"

lemma merge_sorted_covered:
  assumes "fst prev < snd prev" and "\<forall>w \<in> set ws. fst w < snd w" and "sorted (map fst (prev # ws))"
  shows "covered (merge_sorted ws prev) = covered (prev # ws) \<and> separated (merge_sorted ws prev) \<and>
     fst (hd (merge_sorted ws prev)) = fst prev \<and> merge_sorted ws prev \<noteq> []"
  using assms
proof (induction ws prev rule: merge_sorted.induct)
  case (1 prev)
  then show ?case by (cases prev) simp
next
  case (2 s e ws prev)
  obtain p q where prev: "prev = (p, q)" by (cases prev)
  show ?case
  proof (cases "s \<le> q")
    case True
    have "covered (merge_sorted ws (p, max q e)) = covered ((p, max q e) # ws) \<and> separated (merge_sorted ws (p, max q e)) \<and>
        fst (hd (merge_sorted ws (p, max q e))) = p \<and> merge_sorted ws (p, max q e) \<noteq> []"
      using "2.IH"(1) "2.prems" True prev by auto
    moreover have "covered ((p, max q e) # ws) = covered ((p, q) # (s, e) # ws)"
      using True "2.prems" prev by (auto simp: covered_def)
    ultimately show ?thesis using True prev by simp
  next
    case False
    have IH: "covered (merge_sorted ws (s, e)) = covered ((s, e) # ws) \<and> separated (merge_sorted ws (s, e)) \<and>
        fst (hd (merge_sorted ws (s, e))) = s \<and> merge_sorted ws (s, e) \<noteq> []"
      using "2.IH"(2) "2.prems" False prev by auto
    then have "separated ((p, q) # merge_sorted ws (s, e))"
      using False "2.prems" prev by (cases "merge_sorted ws (s, e)") auto
    with IH False prev show ?thesis by (auto simp: covered_def)
  qed
qed

lemma merge_windows_spec:
  assumes "\<forall>w \<in> set ws. fst w < snd w"
  shows "covered (merge_windows ws) = covered ws \<and> separated (merge_windows ws)"
proof (cases "sort_key fst ws")
  case Nil
  then have "ws = []" using set_sort [of fst ws] by simp
  then show ?thesis by (simp add: merge_windows_def)
next
  case (Cons w rest)
  have set: "set (w # rest) = set ws" using Cons set_sort [of fst ws] by simp
  then have "covered (w # rest) = covered ws" unfolding covered_def by simp
  moreover have "sorted (map fst (w # rest))" using Cons sorted_sort_key [of fst ws] by simp
  ultimately show ?thesis
    using merge_sorted_covered [of w rest] assms set Cons by (auto simp: merge_windows_def)
qed

section \<open>The collapsed schedule\<close>

text \<open>Events in order, without overlaps, that end by \<open>p\<close>; and the identity of the event at an instant.\<close>

fun timeline :: "int \<Rightarrow> calendar_event list \<Rightarrow> bool" where
  "timeline p [] = True"
| "timeline p [e] = (ev_start e < ev_end e \<and> ev_end e \<le> p)"
| "timeline p (e # e' # es) = (ev_start e < ev_end e \<and> ev_end e \<le> ev_start e' \<and> timeline p (e' # es))"

definition event_at :: "calendar_event list \<Rightarrow> int \<Rightarrow> calendar_event option" where
  "event_at es t = find (\<lambda>e. ev_start e \<le> t \<and> t < ev_end e) es"

abbreviation event_identity :: "calendar_event \<Rightarrow> string \<times> int \<times> int option \<times> int option \<times> int" where
  "event_identity e \<equiv> calendar_event_identity (ev_data e)"

definition owner_at :: "calendar_event list \<Rightarrow> int \<Rightarrow> (string \<times> int \<times> int option \<times> int option \<times> int) option" where
  "owner_at es t = map_option event_identity (event_at es t)"

lemma timeline_snoc:
  "timeline p (es @ [e]) \<longleftrightarrow> timeline (ev_start e) es \<and> ev_start e < ev_end e \<and> ev_end e \<le> p"
proof (induction es)
  case (Cons x es)
  then show ?case by (cases es) auto
qed simp

lemma timeline_mono: "timeline p es \<Longrightarrow> p \<le> q \<Longrightarrow> timeline q es"
  by (induction p es rule: timeline.induct) auto

lemma timeline_ends: "timeline p es \<Longrightarrow> e \<in> set es \<Longrightarrow> ev_end e \<le> p"
proof (induction es rule: rev_induct)
  case (snoc x es)
  then show ?case using timeline_mono [of "ev_start x" es p] by (auto simp: timeline_snoc)
qed simp

lemma find_append_option: "find P (xs @ ys) = (case find P xs of None \<Rightarrow> find P ys | Some x \<Rightarrow> Some x)"
  by (induction xs) auto

lemma event_at_past: "timeline p es \<Longrightarrow> p \<le> t \<Longrightarrow> event_at es t = None"
  using timeline_ends by (fastforce simp: event_at_def find_None_iff)

lemma owner_at_snoc:
  "timeline (ev_start e) es \<Longrightarrow> owner_at (es @ [e]) t =
     (if ev_start e \<le> t \<and> t < ev_end e then Some (event_identity e) else owner_at es t)"
  using event_at_past [of "ev_start e" es t]
  by (auto simp: owner_at_def event_at_def find_append_option split: option.splits)

lemma append_or_merge_owner:
  assumes "timeline (ev_start e) es" and "ev_start e < ev_end e"
  shows "timeline (ev_end e) (append_or_merge_calendar_event es e) \<and>
     owner_at (append_or_merge_calendar_event es e) t =
       (if ev_start e \<le> t \<and> t < ev_end e then Some (event_identity e) else owner_at es t)"
proof (cases "es \<noteq> [] \<and> ev_end (last es) = ev_start e \<and> event_identity (last es) = event_identity e")
  case True
  define prev where "prev = last es"
  obtain pre where es: "es = pre @ [prev]"
    using True prev_def by (metis append_butlast_last_id)
  have tl: "timeline (ev_start prev) pre" "ev_start prev < ev_end prev"
    using assms(1) es by (auto simp: timeline_snoc)
  have m: "append_or_merge_calendar_event es e = pre @ [prev\<lparr>ev_end := ev_end e\<rparr>]"
    using True es by (simp add: append_or_merge_calendar_event_def Let_def)
  have "owner_at es t = (if ev_start prev \<le> t \<and> t < ev_end prev then Some (event_identity prev) else owner_at pre t)"
    using tl es by (simp add: owner_at_snoc)
  with True tl assms(2) prev_def show ?thesis
    unfolding m by (auto simp: timeline_snoc owner_at_snoc)
next
  case False
  then have "append_or_merge_calendar_event es e = es @ [e]"
    by (auto simp: append_or_merge_calendar_event_def Let_def)
  with assms show ?thesis by (simp add: timeline_snoc owner_at_snoc)
qed

definition covers :: "int \<Rightarrow> candidate \<Rightarrow> bool" where
  "covers t c \<longleftrightarrow> c_start c \<le> t \<and> t < c_end c"

abbreviation candidate_identity :: "candidate \<Rightarrow> string \<times> int \<times> int option \<times> int option \<times> int" where
  "candidate_identity c \<equiv> calendar_event_identity (c_event c)"

lemma collapse_segments_owner:
  assumes "sorted_wrt (<) (p # ps)" and "timeline p res"
    and "\<forall>c \<in> set cs. \<forall>x \<in> {c_start c, c_end c}. x \<le> p \<or> x \<in> set ps"
  shows "timeline (last (p # ps)) (collapse_segments cs (p # ps) res) \<and>
     owner_at (collapse_segments cs (p # ps) res) t =
       (if p \<le> t \<and> t < last (p # ps) then map_option candidate_identity (winner (filter (covers t) cs)) else owner_at res t)"
  using assms
proof (induction ps arbitrary: p res)
  case (Cons q ps)
  define act where "act = filter (\<lambda>c. c_start c \<le> p \<and> c_end c \<ge> q) cs"
  define res' where "res' = (case winner act of None \<Rightarrow> res
     | Some w \<Rightarrow> append_or_merge_calendar_event res \<lparr>ev_data = c_event w, ev_start = p, ev_end = q\<rparr>)"
  have pq: "p < q" "sorted_wrt (<) (q # ps)" using Cons.prems(1) by auto
  then have ends: "\<forall>c \<in> set cs. \<forall>x \<in> {c_start c, c_end c}. x \<le> p \<or> q \<le> x"
    using Cons.prems(3) by fastforce
  then have act: "act = filter (covers t) cs" if "p \<le> t" "t < q" for t
    unfolding act_def using that by (intro filter_cong) (auto simp: covers_def)
  have step: "collapse_segments cs (p # q # ps) res = collapse_segments cs (q # ps) res'"
    using pq by (simp add: act_def res'_def split: option.split)
  have res': "timeline q res' \<and> owner_at res' t =
      (if p \<le> t \<and> t < q then map_option candidate_identity (winner act) else owner_at res t)" for t
  proof (cases "winner act")
    case None
    with Cons.prems(2) pq event_at_past [OF Cons.prems(2), of t] show ?thesis
      by (auto simp: res'_def timeline_mono owner_at_def)
  next
    case (Some w)
    with append_or_merge_owner [of "\<lparr>ev_data = c_event w, ev_start = p, ev_end = q\<rparr>" res t] Cons.prems(2) pq show ?thesis
      by (simp add: res'_def)
  qed
  have "\<forall>c \<in> set cs. \<forall>x \<in> {c_start c, c_end c}. x \<le> q \<or> x \<in> set ps"
    using Cons.prems(3) pq by fastforce
  note IH = Cons.IH [OF pq(2) conjunct1 [OF res'] this]
  have "q \<le> last (q # ps)" using pq(2) by (cases ps rule: rev_cases) auto
  with IH step res' [of t] act [of t] pq(1) show ?case by auto
qed auto

lemma strict_points: "sorted_wrt (<) (calendar_points cs start stop)"
  by (simp add: calendar_points_def strict_sorted_iff)

lemma set_points: "set (calendar_points cs start stop) = {start, stop} \<union> (\<Union>c \<in> set cs. {c_start c, c_end c})"
  by (auto simp: calendar_points_def)

lemma strict_sorted_hd_last:
  assumes "sorted_wrt (<) xs" and "lo \<in> set xs" and "hi \<in> set xs" and "\<forall>x \<in> set xs. lo \<le> x \<and> x \<le> hi"
  shows "\<exists>ys. xs = lo # ys \<and> last xs = (hi :: int)"
proof -
  obtain z zs where xs: "xs = z # zs" using assms(2) by (cases xs) auto
  then have "z = lo" using assms by fastforce
  moreover have "last xs = hi"
  proof (rule antisym)
    show "last xs \<le> hi" using assms(4) xs last_in_set [of xs] by blast
    obtain ys y where "xs = ys @ [y]" using xs by (metis list.distinct(1) rev_exhaust)
    with assms(1,3) show "hi \<le> last xs" by (auto simp: sorted_wrt_append)
  qed
  ultimately show ?thesis using xs by blast
qed

definition clip :: "int \<Rightarrow> int \<Rightarrow> candidate \<Rightarrow> candidate" where
  "clip start stop c = c\<lparr>c_start := max (c_start c) start, c_end := min (c_end c) stop\<rparr>"

lemma clip_simps [simp]:
  "c_priority (clip a b c) = c_priority c" "c_order (clip a b c) = c_order c" "c_event (clip a b c) = c_event c"
  by (simp_all add: clip_def)

lemma filter_covers_normalized:
  assumes "start \<le> t" and "t < stop"
  shows "filter (covers t) (concat (map (normalize_candidate start stop) cs)) = map (clip start stop) (filter (covers t) cs)"
  using assms by (induction cs) (auto simp: normalize_candidate_def covers_def clip_def Let_def)

lemma max_candidate_clip: "max_candidate (clip a b c) (map (clip a b) cs) = clip a b (max_candidate c cs)"
  by (induction cs arbitrary: c) (simp_all split: if_splits)

lemma winner_clip: "winner (map (clip a b) cs) = map_option (clip a b) (winner cs)"
  by (cases cs) (simp_all add: max_candidate_clip)

lemma normalized_range:
  assumes "c \<in> set (concat (map (normalize_candidate start stop) cs))"
  shows "start \<le> c_start c \<and> c_start c < c_end c \<and> c_end c \<le> stop"
  using assms by (auto simp: normalize_candidate_def Let_def split: if_splits)

lemma collapse_owner:
  assumes "start < stop"
  shows "timeline stop (collapse_calendar_candidates cs start stop) \<and>
     owner_at (collapse_calendar_candidates cs start stop) t =
       (if start \<le> t \<and> t < stop then map_option candidate_identity (winner (filter (covers t) cs)) else None)"
proof -
  define norm where "norm = concat (map (normalize_candidate start stop) cs)"
  have range: "start \<le> c_start c \<and> c_start c < c_end c \<and> c_end c \<le> stop" if "c \<in> set norm" for c
    using that normalized_range unfolding norm_def by blast
  have "\<exists>ys. calendar_points norm start stop = start # ys \<and> last (calendar_points norm start stop) = stop"
    using assms range by (intro strict_sorted_hd_last strict_points) (auto simp: set_points intro: less_imp_le order_trans)
  then obtain ys where pts: "calendar_points norm start stop = start # ys" "last (start # ys) = stop"
    by auto
  have "\<forall>c \<in> set norm. \<forall>x \<in> {c_start c, c_end c}. x \<le> start \<or> x \<in> set ys"
    using set_points [of norm start stop] unfolding pts(1) by auto
  from collapse_segments_owner [of start ys "[]" norm t, OF _ _ this] strict_points [of norm start stop] pts
  have "timeline stop (collapse_calendar_candidates cs start stop) \<and>
     owner_at (collapse_calendar_candidates cs start stop) t =
       (if start \<le> t \<and> t < stop then map_option candidate_identity (winner (filter (covers t) norm)) else None)"
    by (simp add: collapse_calendar_candidates_def norm_def [symmetric] owner_at_def event_at_def)
  then show ?thesis
    by (auto simp: norm_def filter_covers_normalized winner_clip option.map_comp comp_def)
qed

section \<open>Properties\<close>

text \<open>The rank of a candidate: its priority and, among equal priorities, its order.\<close>

definition outranks :: "candidate \<Rightarrow> candidate \<Rightarrow> bool" where
  "outranks c d \<longleftrightarrow> c_priority d < c_priority c \<or> c_priority d = c_priority c \<and> c_order d < c_order c"

definition first_ranked :: "(candidate \<Rightarrow> bool) \<Rightarrow> candidate list \<Rightarrow> candidate \<Rightarrow> bool" where
  "first_ranked P cs c \<longleftrightarrow> (\<exists>pre post. cs = pre @ c # post \<and> P c
     \<and> (\<forall>d\<in>set pre. P d \<longrightarrow> outranks c d) \<and> (\<forall>d\<in>set post. P d \<longrightarrow> \<not> outranks d c))"

lemma first_rankedI:
  "cs = pre @ c # post \<Longrightarrow> P c \<Longrightarrow> \<forall>d\<in>set pre. P d \<longrightarrow> outranks c d \<Longrightarrow> \<forall>d\<in>set post. P d \<longrightarrow> \<not> outranks d c
    \<Longrightarrow> first_ranked P cs c"
  unfolding first_ranked_def by blast

lemma max_candidate_first: "first_ranked (\<lambda>_. True) (best # cs) (max_candidate best cs)"
proof (induction cs arbitrary: best)
  case Nil
  show ?case
    by (simp add: first_ranked_def) (metis append_Nil list.set(1) empty_iff)
next
  case (Cons c cs)
  show ?case
  proof (cases "outranks c best")
    case True
    then have m: "max_candidate best (c # cs) = max_candidate c cs"
      by (auto simp: outranks_def)
    obtain pre post where p: "c # cs = pre @ max_candidate c cs # post"
      "\<forall>d\<in>set pre. outranks (max_candidate c cs) d" "\<forall>d\<in>set post. \<not> outranks d (max_candidate c cs)"
      using Cons.IH [of c] by (auto simp: first_ranked_def)
    have "outranks (max_candidate c cs) best"
      using True p(1,2) by (cases pre) (auto simp: outranks_def)
    with p show ?thesis
      unfolding m by (intro first_rankedI [where pre = "best # pre" and post = post]) simp_all
  next
    case False
    then have m: "max_candidate best (c # cs) = max_candidate best cs"
      by (auto simp: outranks_def)
    obtain pre post where p: "best # cs = pre @ max_candidate best cs # post"
      "\<forall>d\<in>set pre. outranks (max_candidate best cs) d" "\<forall>d\<in>set post. \<not> outranks d (max_candidate best cs)"
      using Cons.IH [of best] by (auto simp: first_ranked_def)
    show ?thesis
    proof (cases pre)
      case Nil
      then have "max_candidate best cs = best" and "cs = post"
        using p(1) by (metis append_Nil list.inject)+
      with p(3) False show ?thesis
        unfolding m by (intro first_rankedI [where pre = "[]" and post = "c # post"]) simp_all
    next
      case (Cons b pre')
      then have "outranks (max_candidate best cs) c"
        using p(1,2) False by (auto simp: outranks_def)
      moreover have "best # c # cs = (best # c # pre') @ max_candidate best cs # post"
        using p(1) Cons by (metis append_Cons list.inject)
      ultimately show ?thesis
        unfolding m using p(1-3) Cons by (intro first_rankedI [where pre = "best # c # pre'" and post = post]) (assumption, auto)
    qed
  qed
qed

lemma first_ranked_filter: "first_ranked (\<lambda>_. True) (filter P cs) c \<Longrightarrow> first_ranked P cs c"
proof (induction cs)
  case (Cons x cs)
  have later: "first_ranked P (x # cs) c" if "first_ranked P cs c" "P x \<longrightarrow> outranks c x"
  proof -
    obtain pre post where "cs = pre @ c # post" "P c" "\<forall>d\<in>set pre. P d \<longrightarrow> outranks c d" "\<forall>d\<in>set post. P d \<longrightarrow> \<not> outranks d c"
      using \<open>first_ranked P cs c\<close> by (auto simp: first_ranked_def)
    with that(2) show ?thesis
      by (intro first_rankedI [where pre = "x # pre" and post = post]) simp_all
  qed
  show ?case
  proof (cases "P x")
    case True
    with Cons.prems obtain pre post where f: "x # filter P cs = pre @ c # post"
      "\<forall>d\<in>set pre. outranks c d" "\<forall>d\<in>set post. \<not> outranks d c"
      by (auto simp: first_ranked_def)
    show ?thesis
    proof (cases pre)
      case Nil
      with f True show ?thesis
        by (intro first_rankedI [where pre = "[]" and post = cs]) auto
    next
      case (Cons y pre')
      then have "first_ranked (\<lambda>_. True) (filter P cs) c"
        unfolding first_ranked_def using f by (intro exI [of _ pre'] exI [of _ post]) simp
      then show ?thesis
        using Cons f(1,2) by (intro later Cons.IH) auto
    qed
  next
    case False
    with Cons show ?thesis
      by (intro later) simp_all
  qed
qed (simp add: first_ranked_def)

lemma winner_first_ranked:
  "case winner (filter P cs) of None \<Rightarrow> \<forall>c\<in>set cs. \<not> P c | Some c \<Rightarrow> first_ranked P cs c"
proof (cases "filter P cs")
  case Nil
  then show ?thesis
    by (simp add: filter_empty_conv)
next
  case (Cons c cs')
  then show ?thesis
    using max_candidate_first [of c cs'] first_ranked_filter [of P cs] by simp
qed

text \<open>
  C23. The calendar of a rotation shows, at every instant of the requested range, the event of
  a candidate that covers the instant and is outranked by no other that does: the one of highest
  priority, among equals of the highest order, and among those the first in the list. An instant
  that no candidate covers, or outside the range, shows none. Its events are in order and do
  not overlap. So clipping, the sweep over the boundary points and the merging of neighbours lose
  and invent nothing.
\<close>

theorem calendar_shows_winner:
  assumes "start < stop"
  shows "timeline stop (collapse_calendar_candidates cs start stop) \<and>
     (\<forall>t. case owner_at (collapse_calendar_candidates cs start stop) t of
        None \<Rightarrow> \<not> (start \<le> t \<and> t < stop \<and> list_ex (covers t) cs)
      | Some shown \<Rightarrow> start \<le> t \<and> t < stop \<and> (\<exists>c. first_ranked (covers t) cs c \<and> shown = candidate_identity c))"
proof -
  have "case owner_at (collapse_calendar_candidates cs start stop) t of
        None \<Rightarrow> \<not> (start \<le> t \<and> t < stop \<and> list_ex (covers t) cs)
      | Some shown \<Rightarrow> start \<le> t \<and> t < stop \<and> (\<exists>c. first_ranked (covers t) cs c \<and> shown = candidate_identity c)" for t
    using collapse_owner [OF assms, where cs = cs and t = t] winner_first_ranked [where P = "covers t" and cs = cs]
    by (cases "winner (filter (covers t) cs)") (auto simp: list_ex_iff)
  then show ?thesis
    using collapse_owner [OF assms] by blast
qed

definition demo_candidate :: "int \<Rightarrow> int \<Rightarrow> int \<Rightarrow> candidate" where
  "demo_candidate p s e = \<lparr>c_start = s, c_end = e, c_priority = p, c_order = p,
     c_event = \<lparr>ev_type = ''layer'', ev_rotation_id = 1, ev_layer_id = Some p, ev_override_id = None, ev_timezone = ''UTC'',
       ev_user = demo_user p\<rparr>\<rparr>"

theorem calendar_shows_winner_witness:
  "owner_at (collapse_calendar_candidates [demo_candidate 1 0 30, demo_candidate 2 10 20] 5 25) 12 =
     Some (''layer'', 1, Some 2, None, 2)"
proof -
  let ?cs = "[demo_candidate 1 0 30, demo_candidate 2 10 20]"
  have one: "c = demo_candidate 2 10 20" if "first_ranked (covers 12) ?cs c" for c
    using that by (auto simp: first_ranked_def outranks_def covers_def demo_candidate_def Cons_eq_append_conv)
  have "list_ex (covers 12) ?cs"
    by (simp add: covers_def demo_candidate_def)
  then obtain shown where "owner_at (collapse_calendar_candidates ?cs 5 25) 12 = Some shown" "shown = candidate_identity (demo_candidate 2 10 20)"
    using calendar_shows_winner [of 5 25 ?cs, THEN conjunct2, THEN spec, of 12]
    by (cases "owner_at (collapse_calendar_candidates ?cs 5 25) 12") (auto dest!: one)
  then show ?thesis
    by (simp add: demo_candidate_def demo_user_def calendar_event_identity_def)
qed

text \<open>
  Merging active windows keeps exactly the instants they cover and leaves windows in
  order with a gap between any two.
\<close>

theorem merged_windows_normal_form:
  assumes "\<forall>w \<in> set ws. fst w < snd w"
  shows "covered (merge_windows ws) = covered ws \<and> separated (merge_windows ws)"
  using merge_windows_spec [OF assms] .

theorem merged_windows_normal_form_witness:
  "covered (merge_windows [(5, 9), (1, 4), (4, 6)]) = covered [(5, 9), (1, 4), (4, 6)] \<and> merge_windows [(5, 9), (1, 4), (4, 6)] = [(1, 9)]"
  using merged_windows_normal_form [of "[(5, 9), (1, 4), (4, 6)]"] by (simp add: merge_windows_def)

end
