(* ===== verification/Calendar_Agreement.thy ===== *)
theory Calendar_Agreement
  imports Calendar
begin

text \<open>
  The calendar and the paging logic agree: at every instant of the range, the event of a
  rotation's calendar names the user that \<open>get_current_oncall_user\<close> returns.
\<close>

section \<open>The segments of one layer\<close>

lemma earlier_boundary_cases:
  "t < b \<Longrightarrow> t < earlier_boundary t v b \<and> earlier_boundary t v b \<le> b \<and> (\<forall>x. v = Some x \<longrightarrow> x \<le> t \<or> earlier_boundary t v b \<le> x)"
  by (auto simp: earlier_boundary_def split: option.splits)

lemma next_member_boundary:
  assumes "t < fallback"
  shows "t < get_next_layer_member_boundary ms t fallback \<and> get_next_layer_member_boundary ms t fallback \<le> fallback \<and>
     (\<forall>m \<in> set ms. \<forall>x. starts_at m = Some x \<or> ends_at m = Some x \<longrightarrow>
        x \<le> t \<or> get_next_layer_member_boundary ms t fallback \<le> x)"
  using assms
proof (induction ms arbitrary: fallback)
  case (Cons m ms)
  let ?b = "earlier_boundary t (ends_at m) (earlier_boundary t (starts_at m) fallback)"
  have b: "t < ?b" "?b \<le> fallback" "\<And>x. starts_at m = Some x \<or> ends_at m = Some x \<Longrightarrow> x \<le> t \<or> ?b \<le> x"
    using earlier_boundary_cases [OF Cons.prems, of "starts_at m"]
      earlier_boundary_cases [of t "earlier_boundary t (starts_at m) fallback" "ends_at m"]
    by (auto intro: order_trans)
  have r: "get_next_layer_member_boundary (m # ms) t fallback = get_next_layer_member_boundary ms t ?b"
    by (simp add: get_next_layer_member_boundary_def)
  show ?case
  proof (intro conjI ballI allI impI)
    fix m' x assume "m' \<in> set (m # ms)" and x: "starts_at m' = Some x \<or> ends_at m' = Some x"
    then consider "m' = m" | "m' \<in> set ms" by auto
    then show "x \<le> t \<or> get_next_layer_member_boundary (m # ms) t fallback \<le> x"
    proof cases
      case 1
      with b(3) [of x] x Cons.IH [OF b(1)] r show ?thesis by auto
    next
      case 2
      with Cons.IH [OF b(1)] x r show ?thesis by auto
    qed
  qed (use Cons.IH [OF b(1)] b(2) r in auto)
qed (simp add: get_next_layer_member_boundary_def)

lemma same_members_within:
  assumes "t < fallback" and "t \<le> u" and "u < get_next_layer_member_boundary ms t fallback"
  shows "get_effective_layer_members_at ms u = get_effective_layer_members_at ms t"
  unfolding get_effective_layer_members_at_def
proof (rule filter_cong [OF refl])
  fix m assume "m \<in> set ms"
  then have b: "x \<le> t \<or> u < x" if "starts_at m = Some x \<or> ends_at m = Some x" for x
    using next_member_boundary [OF assms(1), of ms] assms(3) that by fastforce
  have "(\<forall>x. starts_at m = Some x \<longrightarrow> x \<le> t \<or> u < x) \<and> (\<forall>x. ends_at m = Some x \<longrightarrow> x \<le> t \<or> u < x)"
    using b by blast
  with assms(2) show "is_layer_member_effective_at m u = is_layer_member_effective_at m t"
    by (cases "starts_at m"; cases "ends_at m") (auto simp: is_layer_member_effective_at_def)
qed

lemma segment_constant:
  assumes "layer_start_utc_naive db l = Some s" and "s \<le> c" and "regular_ahead db l c"
    and "next_layer_boundary_utc db l c = Some nb" and "c < we"
  shows "c < segment_end_at rot l ms we nb c \<and> segment_end_at rot l ms we nb c \<le> we \<and>
     (\<forall>u. c \<le> u \<and> u < segment_end_at rot l ms we nb c \<longrightarrow> get_layer_user_at db l ms u = get_layer_user_at db l ms c)"
proof -
  have run: "layer_running (db, l) c" using assms(1-3) by (simp add: layer_running_def)
  have k: "c < nb" using layer_slots.boundary_ahead [OF run] assms(4) by simp
  have slot: "layer_slot_index db l u = layer_slot_index db l c" if "c \<le> u" "u < nb" for u
    using layer_slots.constant_slot [OF run, of nb u] assms(4) that by simp
  let ?mb = "get_next_layer_member_boundary ms c we"
  have mb: "c < ?mb" "?mb \<le> we" using next_member_boundary [OF assms(5), of ms] by auto
  then have se: "segment_end_at rot l ms we nb c = min nb ?mb"
    using k by (auto simp: segment_end_at_def Let_def min_le_iff_disj)
  have eq: "get_layer_user_at db l ms u = get_layer_user_at db l ms c" if "c \<le> u" "u < min nb ?mb" for u
    using that slot [of u] same_members_within [OF assms(5), of u ms] by (simp add: get_layer_user_at_def Let_def)
  have "c < min nb ?mb" "min nb ?mb \<le> we" using mb k by auto
  with eq show ?thesis unfolding se by blast
qed

text \<open>What the collapse sees of a candidate.\<close>

definition claim :: "candidate \<Rightarrow> int \<times> int \<times> event_data" where
  "claim c = (c_priority c, c_order c, c_event c)"

definition layer_claim :: "tzdb \<Rightarrow> rotation \<Rightarrow> layer \<Rightarrow> user option \<Rightarrow> (int \<times> int \<times> event_data) list" where
  "layer_claim db rot l u = (case u of None \<Rightarrow> [] | Some u \<Rightarrow> [claim (layer_candidate rot l u 0 0)])"

lemma claim_layer_candidate: "claim (layer_candidate rot l u s e) = claim (layer_candidate rot l u s' e')"
  by (simp add: claim_def layer_candidate_def)

lemma covers_layer_candidate: "covers t (layer_candidate rot l u s e) \<longleftrightarrow> s \<le> t \<and> t < e"
  by (simp add: covers_def layer_candidate_def)

lemma window_candidates_claims:
  assumes "window_candidates db rot l ms we c = Inr cs" and "layer_start_utc_naive db l = Some s" and "s \<le> c"
    and "\<And>u. c \<le> u \<Longrightarrow> u < we \<Longrightarrow> regular_ahead db l u"
  shows "map claim (filter (covers t) cs) = (if c \<le> t \<and> t < we then layer_claim db rot l (get_layer_user_at db l ms t) else [])"
  using assms
proof (induction db rot l ms we c arbitrary: cs rule: window_candidates.induct)
  case (1 db rot l ms we c)
  show ?case
  proof (cases "c < we")
    case False
    with "1.prems"(1) have "cs = []" by (simp add: window_candidates.simps)
    with False show ?thesis by auto
  next
    case True
    note unfolded = "1.prems"(1) [unfolded window_candidates.simps [of db rot l ms we c] if_P [OF True]]
    then obtain nb where nb: "next_layer_boundary_utc db l c = Some nb"
      by (cases "next_layer_boundary_utc db l c") simp_all
    define se where "se = segment_end_at rot l ms we nb c"
    have se: "c < se" "se \<le> we" "\<And>u. c \<le> u \<Longrightarrow> u < se \<Longrightarrow> get_layer_user_at db l ms u = get_layer_user_at db l ms c"
      using segment_constant [OF "1.prems"(2,3) "1.prems"(4) [of c] nb True, of rot ms] True unfolding se_def by blast+
    obtain rest where rest: "window_candidates db rot l ms we se = Inr rest"
      and cs: "cs = (case get_layer_user_at db l ms c of None \<Rightarrow> rest | Some u \<Rightarrow> layer_candidate rot l u c se # rest)"
      using unfolded [unfolded nb option.case Let_def se_def [symmetric] res_bind_Inr_iff] se(1)
      by (auto simp del: window_candidates.simps split: option.splits)
    have IH: "map claim (filter (covers t) rest) =
        (if se \<le> t \<and> t < we then layer_claim db rot l (get_layer_user_at db l ms t) else [])"
      by (rule "1.IH" [OF True nb se_def rest "1.prems"(2)]) (use "1.prems"(3,4) se(1) in auto)
    show ?thesis
    proof (cases "c \<le> t \<and> t < se")
      case True
      with IH cs se(1,2) se(3) [of t] show ?thesis
        by (auto simp: covers_layer_candidate layer_claim_def claim_layer_candidate [of rot l _ c se 0 0] split: option.splits)
    next
      case False
      with IH cs se(1,2) show ?thesis
        by (auto simp: covers_layer_candidate split: option.splits)
    qed
  qed
qed

section \<open>All candidates of a rotation\<close>

text \<open>
  Where both views are comparable: keys are unique, layers have no restrictions and stay below
  the priority of overrides, zones keep their offset over each slot, and no membership is
  inactive (the calendar shows inactive members, paging skips them).
\<close>

definition plain_schedule :: "tzdb \<Rightarrow> oncall_db \<Rightarrow> rotation \<Rightarrow> int \<Rightarrow> int \<Rightarrow> bool" where
  "plain_schedule db odb rot start stop \<longleftrightarrow>
     distinct (map layer_id (layers odb)) \<and> distinct (map override_id (overrides odb)) \<and>
     (\<forall>m \<in> set (members odb). member_active m \<and> user_active (member_user m) \<and> \<not> user_deleted (member_user m)) \<and>
     (\<forall>l \<in> eligible_layers odb rot. list_rotation_layer_restrictions odb (layer_id l) = [] \<and> priority l < OVERRIDE_PRIORITY \<and>
        (\<forall>c s. layer_start_utc_naive db l = Some s \<longrightarrow> s \<le> c \<longrightarrow> start \<le> c \<longrightarrow> c < stop \<longrightarrow> regular_ahead db l c))"

lemma periods_effective:
  assumes "start \<le> t" and "t < stop"
    and "\<forall>m \<in> set (members odb). member_active m \<and> user_active (member_user m) \<and> \<not> user_deleted (member_user m)"
  shows "get_effective_layer_members_at (list_rotation_layer_member_periods odb (layer_id l) (Some start) (Some stop) True) t =
     effective_members odb l t"
  unfolding get_effective_layer_members_at_def list_rotation_layer_member_periods_def effective_members_def
    list_rotation_layer_members_def filter_sort filter_filter
  by (rule arg_cong [where f = "sort_key _"], rule filter_cong)
    (use assms in \<open>auto simp: is_layer_member_effective_at_def rotation_layer_member_effective_at_def split: option.splits\<close>)

lemma layer_user_is_scheduled:
  assumes "start \<le> t" and "t < stop"
    and "\<forall>m \<in> set (members odb). member_active m \<and> user_active (member_user m) \<and> \<not> user_deleted (member_user m)"
  shows "get_layer_user_at db l (list_rotation_layer_member_periods odb (layer_id l) (Some start) (Some stop) True) t =
     get_scheduled_oncall_user_for_layer db odb l t"
  by (simp add: get_layer_user_at_def get_scheduled_oncall_user_for_layer_def periods_effective [OF assms])

lemma layer_claims:
  assumes "plain_schedule db odb rot start stop" and "l \<in> eligible_layers odb rot" and "start \<le> t" and "t < stop"
    and "build_layer_candidate_events db odb rot l start stop = Inr cs"
  shows "map claim (filter (covers t) cs) = layer_claim db rot l (get_scheduled_oncall_user_for_layer db odb l t)"
proof -
  let ?ms = "list_rotation_layer_member_periods odb (layer_id l) (Some start) (Some stop) True"
  have act: "\<forall>m \<in> set (members odb). member_active m \<and> user_active (member_user m) \<and> \<not> user_deleted (member_user m)"
    and en: "layer_enabled l" "\<not> layer_deleted l" and nr: "list_rotation_layer_restrictions odb (layer_id l) = []"
    using assms(1,2) by (auto simp: plain_schedule_def eligible_layers_def)
  show ?thesis
  proof (cases "?ms = []")
    case True
    then have "effective_members odb l t = []"
      using periods_effective [OF assms(3,4) act, of l] by (simp add: get_effective_layer_members_at_def)
    with True en assms(5) show ?thesis
      by (simp add: build_layer_candidate_events_def get_scheduled_oncall_user_for_layer_def layer_claim_def)
  next
    case False
    then have w: "windows_candidates db rot l ?ms (layer_start_utc_naive db l) start stop [(start, stop)] = Inr cs"
      using assms(5) en nr by (simp add: build_layer_candidate_events_def get_layer_active_windows_def Let_def)
    then obtain s where s: "layer_start_utc_naive db l = Some s"
      by (cases "layer_start_utc_naive db l") auto
    with w have c: "window_candidates db rot l ?ms stop (max s start) = Inr cs"
      by (auto simp: res_bind_Inr_iff max.commute)
    have "map claim (filter (covers t) cs) =
        (if max s start \<le> t \<and> t < stop then layer_claim db rot l (get_layer_user_at db l ?ms t) else [])"
      by (rule window_candidates_claims [OF c s]) (use assms(1,2) s in \<open>auto simp: plain_schedule_def\<close>)
    moreover have "get_scheduled_oncall_user_for_layer db odb l t = None" if "t < s"
      using that s by (simp add: get_scheduled_oncall_user_for_layer_def layer_slot_index_def Let_def)
    ultimately show ?thesis
      using assms(3,4) layer_user_is_scheduled [OF assms(3,4) act] by (auto simp: layer_claim_def)
  qed
qed

lemma layers_claims:
  assumes "plain_schedule db odb rot start stop" and "set ls \<subseteq> eligible_layers odb rot" and "start \<le> t" and "t < stop"
    and "layers_candidates db odb rot start stop ls = Inr cs"
  shows "map claim (filter (covers t) cs) =
     concat (map (\<lambda>l. layer_claim db rot l (get_scheduled_oncall_user_for_layer db odb l t)) ls)"
  using assms(2,5)
proof (induction ls arbitrary: cs)
  case (Cons l ls)
  then obtain c1 c2 where "build_layer_candidate_events db odb rot l start stop = Inr c1"
    "layers_candidates db odb rot start stop ls = Inr c2" "cs = c1 @ c2"
    by (auto simp: res_bind_Inr_iff)
  with Cons layer_claims [OF assms(1) _ assms(3,4)] show ?case by auto
qed simp

definition override_claim :: "rotation \<Rightarrow> rotation_override \<Rightarrow> int \<times> int \<times> event_data" where
  "override_claim rot ov = (OVERRIDE_PRIORITY, override_id ov,
     \<lparr>ev_type = ''override'', ev_rotation_id = rotation_id rot, ev_layer_id = None, ev_override_id = Some (override_id ov),
      ev_timezone = str_or (timezone rot) ''UTC'', ev_user = override_user ov\<rparr>)"

lemma override_claims:
  assumes "start \<le> t" and "t < stop"
  shows "set (map claim (filter (covers t) (build_override_candidate_events odb rot start stop))) =
     override_claim rot ` active_overrides odb rot t"
proof -
  have one: "map claim (filter (covers t) (override_candidate rot start stop ov)) =
      (if override_starts_at ov \<le> t \<and> t < override_ends_at ov then [override_claim rot ov] else [])" for ov
    using assms by (auto simp: override_candidate_def Let_def covers_def claim_def override_claim_def)
  have "map claim (filter (covers t) (concat (map (override_candidate rot start stop) ovs))) =
      concat (map (\<lambda>ov. if override_starts_at ov \<le> t \<and> t < override_ends_at ov then [override_claim rot ov] else []) ovs)" for ovs
    by (induction ovs) (simp_all add: one)
  then show ?thesis
    using assms unfolding build_override_candidate_events_def by (auto simp: list_rotation_overrides_def active_overrides_def)
qed

section \<open>The winner is the user on call\<close>

definition key :: "candidate \<Rightarrow> int \<times> int" where
  "key c = (c_priority c, c_order c)"

lemma max_candidate_Cons: "max_candidate best (c # cs) = max_candidate (if key best < key c then c else best) cs"
  by (simp add: key_def)

lemma max_candidate_spec:
  "max_candidate best cs \<in> set (best # cs) \<and> (\<forall>c \<in> set (best # cs). key c \<le> key (max_candidate best cs))"
proof (induction cs arbitrary: best)
  case (Cons c cs)
  define b where "b = (if key best < key c then c else best)"
  have b: "key best \<le> key b" "key c \<le> key b" "b = best \<or> b = c"
    by (auto simp: b_def not_less less_imp_le)
  have m: "max_candidate best (c # cs) = max_candidate b cs"
    by (simp only: max_candidate_Cons b_def)
  have IH: "max_candidate b cs \<in> set (b # cs)" "key b \<le> key (max_candidate b cs)"
    "\<And>x. x \<in> set cs \<Longrightarrow> key x \<le> key (max_candidate b cs)"
    using Cons.IH [of b] by simp_all
  have "key best \<le> key (max_candidate b cs)" "key c \<le> key (max_candidate b cs)"
    using b(1,2) IH(2) by (blast intro: order_trans)+
  with IH(1,3) b(3) show ?case
    unfolding m by auto
qed simp

definition claim_key :: "int \<times> int \<times> event_data \<Rightarrow> int \<times> int" where
  "claim_key x = (fst x, fst (snd x))"

lemma claim_key_claim: "claim_key (claim c) = key c"
  by (simp add: claim_key_def claim_def key_def)

text \<open>The winner by its claim: some claim of greatest key.\<close>

lemma winner_claim:
  "case winner cs of None \<Rightarrow> map claim cs = []
   | Some w \<Rightarrow> claim w \<in> set (map claim cs) \<and> (\<forall>x \<in> set (map claim cs). claim_key x \<le> claim_key (claim w))"
proof (cases cs)
  case (Cons c cs')
  with max_candidate_spec [of c cs'] show ?thesis
    by (auto simp: claim_key_claim)
qed simp

lemma first_active_plain:
  assumes "\<forall>l \<in> set ls. is_layer_active_now db odb l now = Inr True"
  shows "first_active_layer db odb now ls = Inr (find (\<lambda>l. get_scheduled_oncall_user_for_layer db odb l now \<noteq> None) ls)"
  using assms by (induction ls) auto

lemma set_list_rotation_layers: "set (list_rotation_layers odb (rotation_id rot) True False) = eligible_layers odb rot"
  by (auto simp: list_rotation_layers_def eligible_layers_def)

text \<open>Without overrides: the layer of greatest key that has a user is the first in query order.\<close>

lemma scheduled_is_greatest:
  assumes "plain_schedule db odb rot start stop" and "usable (Some rot)"
    and "l \<in> eligible_layers odb rot" and "get_scheduled_oncall_user_for_layer db odb l t = Some u"
    and "\<And>l'. l' \<in> eligible_layers odb rot \<Longrightarrow> get_scheduled_oncall_user_for_layer db odb l' t \<noteq> None \<Longrightarrow>
      (priority l', layer_id l') \<le> (priority l, layer_id l)"
  shows "get_scheduled_oncall_user db odb (Some rot) t = Inr (Some u)"
proof -
  let ?ls = "list_rotation_layers odb (rotation_id rot) True False"
  have active: "\<forall>l \<in> eligible_layers odb rot. is_layer_active_now db odb l t = Inr True"
    using assms(1) by (auto simp: plain_schedule_def is_layer_active_now_def eligible_layers_def)
  obtain l0 where l0: "find (\<lambda>l. get_scheduled_oncall_user_for_layer db odb l t \<noteq> None) ?ls = Some l0"
    using assms(3,4) set_list_rotation_layers [of odb rot]
    by (cases "find (\<lambda>l. get_scheduled_oncall_user_for_layer db odb l t \<noteq> None) ?ls") (auto simp: find_None_iff)
  then have g: "get_active_rotation_layer db odb (Some rot) t = Inr (Some l0)"
    using assms(2) active first_active_plain [of ?ls db odb t] set_list_rotation_layers [of odb rot]
    by (simp add: get_active_rotation_layer_def)
  have "l0 \<in> eligible_layers odb rot" "get_scheduled_oncall_user_for_layer db odb l0 t \<noteq> None"
    using get_active_layer_Some [OF g] l0 by (auto simp: find_Some_iff)
  moreover from this have "\<not> (priority l0, layer_id l0) < (priority l, layer_id l)"
    using get_active_layer_Some [OF g] assms(3,4) active by fastforce
  ultimately have "layer_id l0 = layer_id l"
    using assms(5) [of l0] by auto
  then have "l0 = l"
    using assms(1,3) \<open>l0 \<in> eligible_layers odb rot\<close> by (auto simp: plain_schedule_def eligible_layers_def distinct_map dest: inj_onD)
  with g assms(2,4) show ?thesis
    by (simp add: get_scheduled_oncall_user_def)
qed

lemma nobody_scheduled:
  assumes "plain_schedule db odb rot start stop" and "usable (Some rot)"
    and "\<And>l. l \<in> eligible_layers odb rot \<Longrightarrow> get_scheduled_oncall_user_for_layer db odb l t = None"
  shows "get_scheduled_oncall_user db odb (Some rot) t = Inr None"
proof -
  let ?ls = "list_rotation_layers odb (rotation_id rot) True False"
  have "\<forall>l \<in> set ?ls. is_layer_active_now db odb l t = Inr True"
    using assms(1) set_list_rotation_layers [of odb rot]
    by (auto simp: plain_schedule_def is_layer_active_now_def eligible_layers_def)
  moreover have "find (\<lambda>l. get_scheduled_oncall_user_for_layer db odb l t \<noteq> None) ?ls = None"
    using assms(3) set_list_rotation_layers [of odb rot] by (simp add: find_None_iff)
  ultimately show ?thesis
    using assms(2) first_active_plain [of ?ls db odb t]
    by (simp add: get_scheduled_oncall_user_def get_active_rotation_layer_def)
qed

definition claims_at :: "tzdb \<Rightarrow> oncall_db \<Rightarrow> rotation \<Rightarrow> int \<Rightarrow> (int \<times> int \<times> event_data) set" where
  "claims_at db odb rot t =
     (\<Union>l \<in> eligible_layers odb rot. set (layer_claim db rot l (get_scheduled_oncall_user_for_layer db odb l t))) \<union>
     override_claim rot ` active_overrides odb rot t"

lemma mem_layer_claim:
  "x \<in> set (layer_claim db rot l v) \<longleftrightarrow> (\<exists>u. v = Some u \<and> x = claim (layer_candidate rot l u 0 0))"
  by (cases v) (auto simp: layer_claim_def)

lemma scheduled_claim:
  "l \<in> eligible_layers odb rot \<Longrightarrow> get_scheduled_oncall_user_for_layer db odb l t = Some u \<Longrightarrow>
     claim (layer_candidate rot l u 0 0) \<in> claims_at db odb rot t"
  by (force simp: claims_at_def mem_layer_claim)

lemma layer_claim_low:
  "plain_schedule db odb rot start stop \<Longrightarrow> l \<in> eligible_layers odb rot \<Longrightarrow> x \<in> set (layer_claim db rot l v) \<Longrightarrow>
     fst x < OVERRIDE_PRIORITY"
  by (auto simp: layer_claim_def claim_def layer_candidate_def plain_schedule_def split: option.splits)

lemma override_wins:
  assumes "plain_schedule db odb rot start stop" and "ov \<in> active_overrides odb rot t"
    and "\<And>ov'. ov' \<in> active_overrides odb rot t \<Longrightarrow> override_id ov' \<le> override_id ov"
    and "x \<in> claims_at db odb rot t" and "\<And>y. y \<in> claims_at db odb rot t \<Longrightarrow> claim_key y \<le> claim_key x"
  shows "x = override_claim rot ov"
proof -
  have k: "claim_key (override_claim rot ov) \<le> claim_key x"
    using assms(2,5) by (simp add: claims_at_def)
  then have "OVERRIDE_PRIORITY \<le> fst x"
    by (auto simp: claim_key_def override_claim_def less_eq_prod_def)
  then obtain ov' where ov': "ov' \<in> active_overrides odb rot t" "x = override_claim rot ov'"
    using assms(4) layer_claim_low [OF assms(1)] unfolding claims_at_def by fastforce
  then have "override_id ov' = override_id ov"
    using k assms(3) [of ov'] by (auto simp: claim_key_def override_claim_def)
  then have "ov' = ov"
    using assms(1,2) ov'(1) by (auto simp: plain_schedule_def active_overrides_def distinct_map dest: inj_onD)
  with ov' show ?thesis by simp
qed

lemma layer_wins:
  assumes "plain_schedule db odb rot start stop" and "usable (Some rot)" and "active_overrides odb rot t = {}"
    and "x \<in> claims_at db odb rot t" and "\<And>y. y \<in> claims_at db odb rot t \<Longrightarrow> claim_key y \<le> claim_key x"
  shows "get_scheduled_oncall_user db odb (Some rot) t = Inr (Some (ev_user (snd (snd x))))"
proof -
  let ?sched = "\<lambda>l. get_scheduled_oncall_user_for_layer db odb l t"
  obtain l u where l: "l \<in> eligible_layers odb rot" "?sched l = Some u" "x = claim (layer_candidate rot l u 0 0)"
    using assms(3,4) unfolding claims_at_def by (auto simp: mem_layer_claim)
  have "(priority l', layer_id l') \<le> (priority l, layer_id l)" if el: "l' \<in> eligible_layers odb rot" and ne: "?sched l' \<noteq> None" for l'
  proof -
    obtain u' where "?sched l' = Some u'" using ne by blast
    note scheduled_claim [OF el this]
    from assms(5) [OF this] show ?thesis by (simp add: l(3) claim_key_def claim_def layer_candidate_def)
  qed
  from scheduled_is_greatest [OF assms(1,2) l(1,2) this] l(3) show ?thesis
    by (simp add: claim_def layer_candidate_def)
qed

lemma winner_is_oncall:
  assumes "plain_schedule db odb rot start stop" and "usable (Some rot)" and "set (map claim F) = claims_at db odb rot t"
  shows "get_current_oncall_user db odb (Some rot) t = Inr (map_option (\<lambda>w. ev_user (snd (snd (claim w)))) (winner F))"
proof (cases "get_active_override odb (rotation_id rot) t")
  case (Some ov)
  then have ov: "ov \<in> active_overrides odb rot t" "\<And>ov'. ov' \<in> active_overrides odb rot t \<Longrightarrow> override_id ov' \<le> override_id ov"
    using get_active_override_spec [of odb rot t] by auto
  then have "F \<noteq> []" using assms(3) by (auto simp: claims_at_def)
  then obtain w where w: "winner F = Some w" "claim w \<in> claims_at db odb rot t"
    "\<And>y. y \<in> claims_at db odb rot t \<Longrightarrow> claim_key y \<le> claim_key (claim w)"
    using winner_claim [of F] unfolding assms(3) by (cases "winner F") auto
  from override_wins [OF assms(1) ov w(2,3)] w(1) Some assms(2) show ?thesis
    by (simp add: get_current_oncall_user_def override_claim_def)
next
  case None
  then have no: "active_overrides odb rot t = {}"
    using get_active_override_spec [of odb rot t] by simp
  have cur: "get_current_oncall_user db odb (Some rot) t = get_scheduled_oncall_user db odb (Some rot) t"
    using None assms(2) by (simp add: get_current_oncall_user_def)
  show ?thesis
  proof (cases "winner F")
    case nW: None
    then have "claims_at db odb rot t = {}" using winner_claim [of F] assms(3) by simp
    then have "get_scheduled_oncall_user_for_layer db odb l t = None" if "l \<in> eligible_layers odb rot" for l
      using scheduled_claim [OF that] by (metis empty_iff not_None_eq)
    with nobody_scheduled [OF assms(1,2)] nW cur show ?thesis by simp
  next
    case (Some w)
    with winner_claim [of F] have "claim w \<in> claims_at db odb rot t"
      "\<And>y. y \<in> claims_at db odb rot t \<Longrightarrow> claim_key y \<le> claim_key (claim w)"
      unfolding assms(3) by auto
    from layer_wins [OF assms(1,2) no this] Some cur show ?thesis by simp
  qed
qed

lemma calendar_claims:
  assumes "plain_schedule db odb rot start stop" and "start \<le> t" and "t < stop"
    and "layers_candidates db odb rot start stop (list_rotation_layers odb (rotation_id rot) True False) = Inr cs"
  shows "set (map claim (filter (covers t) (cs @ build_override_candidate_events odb rot start stop))) = claims_at db odb rot t"
proof -
  have "set (map claim (filter (covers t) cs)) =
      (\<Union>l \<in> eligible_layers odb rot. set (layer_claim db rot l (get_scheduled_oncall_user_for_layer db odb l t)))"
    using layers_claims [OF assms(1) _ assms(2-4)] by (simp add: set_list_rotation_layers)
  then show ?thesis
    unfolding filter_append map_append set_append override_claims [OF assms(2,3)] claims_at_def by (rule arg_cong)
qed

section \<open>Properties\<close>

text \<open>
  C2. The calendar agrees with paging: whenever the calendar of a usable rotation is built
  for a range, the event that it shows at any instant of the range is for the user that
  \<open>get_current_oncall_user\<close> returns at that instant, and it shows none when nobody is on
  call (under the conditions of \<open>plain_schedule\<close>).
\<close>

theorem calendar_agrees_with_oncall:
  assumes "plain_schedule db odb rot start stop" and "usable (Some rot)"
    and "build_rotation_calendar db odb rot start stop = Inr events" and "start \<le> t" and "t < stop"
  shows "\<exists>u. get_current_oncall_user db odb (Some rot) t = Inr u \<and>
     map_option user_id u = map_option (\<lambda>e. user_id (ev_user (ev_data e))) (event_at events t)"
proof -
  obtain cs where cs: "layers_candidates db odb rot start stop (list_rotation_layers odb (rotation_id rot) True False) = Inr cs"
    and ev: "events = collapse_calendar_candidates (cs @ build_override_candidate_events odb rot start stop) start stop"
    using assms(3) by (auto simp: build_rotation_calendar_def res_bind_Inr_iff)
  let ?W = "winner (filter (covers t) (cs @ build_override_candidate_events odb rot start stop))"
  let ?uid = "\<lambda>(a :: string, b :: int, c :: int option, d :: int option, u :: int). u"
  have "map_option ?uid (owner_at events t) = map_option ?uid (map_option candidate_identity ?W)"
    using collapse_owner [of start stop] assms(4,5) by (simp add: ev del: filter_append)
  then have "map_option (\<lambda>e. user_id (ev_user (ev_data e))) (event_at events t) =
      map_option user_id (map_option (\<lambda>w. ev_user (snd (snd (claim w)))) ?W)"
    by (simp add: owner_at_def option.map_comp comp_def calendar_event_identity_def claim_def)
  with winner_is_oncall [OF assms(1,2) calendar_claims [OF assms(1,4,5) cs]] show ?thesis by auto
qed

definition demo_calendar_event :: calendar_event where
  "demo_calendar_event = \<lparr>ev_data = \<lparr>ev_type = ''layer'', ev_rotation_id = 1, ev_layer_id = Some 1, ev_override_id = None,
     ev_timezone = ''Europe/Paris'', ev_user = demo_user 7\<rparr>, ev_start = 50000000000, ev_end = 50000000100\<rparr>"

lemma demo_calendar: "build_rotation_calendar paris demo_db demo_rotation 50000000000 50000000100 = Inr [demo_calendar_event]"
  by code_simp

lemma demo_plain: "plain_schedule paris demo_db demo_rotation 50000000000 50000000100"
proof -
  have "list_rotation_layer_restrictions demo_db lid = []" for lid
    by (simp add: list_rotation_layer_restrictions_def demo_db_def)
  moreover have "eligible_layers demo_db demo_rotation = {demo_layer}"
    by (auto simp: eligible_layers_def demo_db_def demo_layer_def)
  moreover have "priority demo_layer < OVERRIDE_PRIORITY"
    by (simp add: demo_layer_def OVERRIDE_PRIORITY_def)
  ultimately show ?thesis
    by (auto simp: plain_schedule_def demo_regular) (auto simp: demo_db_def demo_member_def demo_user_def)
qed

theorem calendar_agrees_with_oncall_witness:
  "\<exists>u. get_current_oncall_user paris demo_db (Some demo_rotation) 50000000042 = Inr (Some u) \<and> user_id u = 7"
proof -
  have "usable (Some demo_rotation)" by (simp add: usable_def demo_rotation_def)
  from calendar_agrees_with_oncall [OF demo_plain this demo_calendar, of 50000000042] show ?thesis
    by (auto simp: event_at_def demo_calendar_event_def demo_user_def)
qed

end
