(* ===== verification/Maintenance_Windows.thy ===== *)
theory Maintenance_Windows
  imports Rotation_Schedule
begin

text \<open>
  When a maintenance window is in force (\<open>modules/db/maintenance_repo.py\<close>). The start and the
  end of a window are wall-clock times of its zone. Recurrence rules are those of the
  \<open>dateutil\<close> package, a parameter: \<open>rrulestr\<close> parses a rule text for a start and gives the last
  occurrence up to, and the first one after, a wall-clock time.
\<close>

record rrule =
  rr_before :: "int \<Rightarrow> int option"
  rr_after :: "int \<Rightarrow> int option"

type_synonym rrulestr = "string \<Rightarrow> int \<Rightarrow> rrule option"

record mwindow =
  mw_id :: int
  mw_name :: string
  mw_starts_at :: int
  mw_ends_at :: int
  mw_timezone :: string
  mw_rrule :: "string option"
  mw_behavior :: string
  mw_status :: string
  mw_enabled :: bool
  mw_deleted :: bool
  mw_apply_to_existing :: bool
  mw_reactivate_on_end :: bool

section \<open>Status of a window\<close>

definition get_zoneinfo :: "tzdb \<Rightarrow> string \<Rightarrow> zone" where
  "get_zoneinfo db name = (case db (if name = '''' then ''UTC'' else name) of Some z \<Rightarrow> z | None \<Rightarrow> utc_zone)"

definition window_local_now :: "tzdb \<Rightarrow> mwindow \<Rightarrow> int \<Rightarrow> int" where
  "window_local_now db w now = to_wall (get_zoneinfo db (mw_timezone w)) now"

text \<open>\<open>str(value or "").strip()\<close>, with the prefix \<open>RRULE:\<close> removed.\<close>

definition normalize_rrule_text :: "string option \<Rightarrow> string option" where
  "normalize_rrule_text v =
     (let tx = strip (case v of None \<Rightarrow> '''' | Some s \<Rightarrow> s) in
      if tx = '''' then None
      else let tx = (if prefix ''RRULE:'' (upper tx) then strip (tl (dropWhile (\<lambda>c. c \<noteq> CHR '':'') tx)) else tx) in
           if tx = '''' then None else Some tx)"

definition build_window_rrule :: "rrulestr \<Rightarrow> mwindow \<Rightarrow> rrule option" where
  "build_window_rrule rrulestr w =
     (case normalize_rrule_text (mw_rrule w) of None \<Rightarrow> None | Some tx \<Rightarrow> rrulestr tx (mw_starts_at w))"

definition get_window_duration :: "mwindow \<Rightarrow> int option" where
  "get_window_duration w =
     (let duration = mw_ends_at w - mw_starts_at w in if duration \<le> 0 then None else Some duration)"

text \<open>The occurrence in force at a wall-clock time, if any.\<close>

definition current_start :: "rrule \<Rightarrow> int \<Rightarrow> int \<Rightarrow> int option" where
  "current_start rule duration local_now =
     (case rr_before rule local_now of
        None \<Rightarrow> None
      | Some p \<Rightarrow> if p \<le> local_now \<and> local_now \<le> p + duration then Some p else None)"

definition get_recurring_window_status :: "rrulestr \<Rightarrow> tzdb \<Rightarrow> mwindow \<Rightarrow> int \<Rightarrow> string option" where
  "get_recurring_window_status rrulestr db w now =
     (case (build_window_rrule rrulestr w, get_window_duration w) of
        (Some rule, Some duration) \<Rightarrow>
          let local_now = window_local_now db w now in
          if current_start rule duration local_now \<noteq> None then Some ''active''
          else if rr_after rule local_now \<noteq> None then Some ''scheduled''
          else Some ''finished''
      | _ \<Rightarrow> None)"

definition has_rrule :: "mwindow \<Rightarrow> bool" where
  "has_rrule w \<longleftrightarrow> (case mw_rrule w of None \<Rightarrow> False | Some s \<Rightarrow> s \<noteq> '''')"

definition plain_window_status :: "tzdb \<Rightarrow> mwindow \<Rightarrow> int \<Rightarrow> string" where
  "plain_window_status db w now =
     (let local_now = window_local_now db w now in
      if local_now < mw_starts_at w then ''scheduled''
      else if local_now > mw_ends_at w then ''finished''
      else ''active'')"

definition get_effective_window_status :: "rrulestr \<Rightarrow> tzdb \<Rightarrow> mwindow \<Rightarrow> int \<Rightarrow> string" where
  "get_effective_window_status rrulestr db w now =
     (let status = (if mw_status w = '''' then ''scheduled'' else mw_status w) in
      if status = ''cancelled'' then ''cancelled''
      else if status \<notin> {''scheduled'', ''active''} then status
      else case (if has_rrule w then get_recurring_window_status rrulestr db w now else None) of
             Some s \<Rightarrow> s
           | None \<Rightarrow> plain_window_status db w now)"

definition is_window_active_now :: "rrulestr \<Rightarrow> tzdb \<Rightarrow> mwindow option \<Rightarrow> int \<Rightarrow> bool" where
  "is_window_active_now rrulestr db w now =
     (case w of
        None \<Rightarrow> False
      | Some w \<Rightarrow>
          if mw_deleted w then False
          else if \<not> mw_enabled w then False
          else get_effective_window_status rrulestr db w now = ''active'')"

section \<open>The occurrence of a window\<close>

record occurrence =
  oc_status :: string
  oc_starts_at :: int
  oc_ends_at :: int
  oc_recurring :: bool

definition get_effective_window_occurrence :: "rrulestr \<Rightarrow> tzdb \<Rightarrow> mwindow \<Rightarrow> int \<Rightarrow> occurrence option" where
  "get_effective_window_occurrence rrulestr db w now =
     (let status = get_effective_window_status rrulestr db w now;
          single = \<lparr>oc_status = status, oc_starts_at = mw_starts_at w, oc_ends_at = mw_ends_at w, oc_recurring = False\<rparr> in
      if status = ''cancelled'' then None
      else if \<not> has_rrule w then Some single
      else case (build_window_rrule rrulestr w, get_window_duration w) of
        (Some rule, Some duration) \<Rightarrow>
          let local_now = window_local_now db w now in
          (case current_start rule duration local_now of
             Some p \<Rightarrow> Some \<lparr>oc_status = ''active'', oc_starts_at = p, oc_ends_at = p + duration, oc_recurring = True\<rparr>
           | None \<Rightarrow>
               (case rr_after rule local_now of
                  Some n \<Rightarrow> Some \<lparr>oc_status = ''scheduled'', oc_starts_at = n, oc_ends_at = n + duration, oc_recurring = True\<rparr>
                | None \<Rightarrow>
                    (case rr_before rule local_now of
                       Some p \<Rightarrow> Some \<lparr>oc_status = ''finished'', oc_starts_at = p, oc_ends_at = p + duration, oc_recurring = True\<rparr>
                     | None \<Rightarrow> Some (single\<lparr>oc_recurring := True\<rparr>))))
      | _ \<Rightarrow> Some single)"

definition occurrence_start_utc :: "rrulestr \<Rightarrow> tzdb \<Rightarrow> mwindow \<Rightarrow> int \<Rightarrow> int option" where
  "occurrence_start_utc rrulestr db w now =
     (case get_effective_window_occurrence rrulestr db w now of
        None \<Rightarrow> None
      | Some oc \<Rightarrow> Some (from_wall (get_zoneinfo db (mw_timezone w)) (oc_starts_at oc)))"

section \<open>Lemmas\<close>

text \<open>What \<open>dateutil\<close> documents of a rule with occurrences \<open>S\<close>.\<close>

definition rule_of :: "rrule \<Rightarrow> int set \<Rightarrow> bool" where
  "rule_of rule S \<longleftrightarrow>
     (\<forall>t. case rr_before rule t of
            None \<Rightarrow> \<forall>x \<in> S. t < x
          | Some p \<Rightarrow> p \<in> S \<and> p \<le> t \<and> (\<forall>x \<in> S. x \<le> t \<longrightarrow> x \<le> p)) \<and>
     (\<forall>t. case rr_after rule t of
            None \<Rightarrow> \<forall>x \<in> S. x \<le> t
          | Some n \<Rightarrow> n \<in> S \<and> t < n \<and> (\<forall>x \<in> S. t < x \<longrightarrow> n \<le> x))"

lemma current_start_iff:
  assumes "rule_of rule S"
  shows "current_start rule d t \<noteq> None \<longleftrightarrow> (\<exists>s \<in> S. s \<le> t \<and> t \<le> s + d)"
proof (cases "rr_before rule t")
  case None
  then have "\<forall>x \<in> S. t < x" using assms by (auto simp: rule_of_def split: option.splits dest: spec [of _ t])
  with None show ?thesis by (auto simp: current_start_def)
next
  case (Some p)
  then have p: "p \<in> S" "p \<le> t" "\<And>x. x \<in> S \<Longrightarrow> x \<le> t \<Longrightarrow> x \<le> p"
    using assms by (auto simp: rule_of_def split: option.splits dest: spec [of _ t])
  have "(\<exists>s \<in> S. s \<le> t \<and> t \<le> s + d) \<longleftrightarrow> t \<le> p + d"
  proof
    assume "\<exists>s \<in> S. s \<le> t \<and> t \<le> s + d"
    then obtain s where "s \<in> S" "s \<le> t" "t \<le> s + d" by blast
    with p(3) [of s] show "t \<le> p + d" by linarith
  qed (use p in blast)
  with Some p(2) show ?thesis by (simp add: current_start_def)
qed

section \<open>Properties\<close>

text \<open>
  C31. A recurring maintenance window is in force exactly when it is enabled, neither
  deleted nor cancelled nor finished, and some occurrence of its rule, prolonged by the length
  of the window, contains the present wall-clock time, also when occurrences overlap.
\<close>

theorem recurring_window_in_force:
  assumes "build_window_rrule rrulestr w = Some rule" and "rule_of rule S" and "has_rrule w" and "mw_starts_at w < mw_ends_at w"
  shows "is_window_active_now rrulestr db (Some w) now \<longleftrightarrow>
     mw_enabled w \<and> \<not> mw_deleted w \<and> mw_status w \<in> {'''', ''scheduled'', ''active''} \<and>
     (\<exists>s \<in> S. s \<le> window_local_now db w now \<and> window_local_now db w now \<le> s + (mw_ends_at w - mw_starts_at w))"
proof -
  let ?t = "window_local_now db w now" and ?d = "mw_ends_at w - mw_starts_at w"
  have d: "get_window_duration w = Some ?d" using assms(4) by (simp add: get_window_duration_def)
  have "get_recurring_window_status rrulestr db w now =
      Some (if current_start rule ?d ?t \<noteq> None then ''active'' else if rr_after rule ?t \<noteq> None then ''scheduled'' else ''finished'')"
    using assms(1) d by (simp add: get_recurring_window_status_def Let_def)
  then show ?thesis
    using current_start_iff [OF assms(2), of ?d ?t] assms(3)
    by (auto simp: is_window_active_now_def get_effective_window_status_def Let_def split: if_splits)
qed

definition demo_window :: mwindow where
  "demo_window = \<lparr>mw_id = 1, mw_name = ''w'', mw_starts_at = 0, mw_ends_at = 3600, mw_timezone = ''UTC'',
     mw_rrule = Some ''RRULE:FREQ=DAILY'', mw_behavior = ''suppress_notifications'', mw_status = ''scheduled'', mw_enabled = True,
     mw_deleted = False, mw_apply_to_existing = False, mw_reactivate_on_end = True\<rparr>"

text \<open>A rule with period \<open>p\<close> from \<open>s\<close> on.\<close>

definition every :: "int \<Rightarrow> int \<Rightarrow> rrule" where
  "every p s = \<lparr>rr_before = (\<lambda>t. if t < s then None else Some (s + p * ((t - s) div p))),
     rr_after = (\<lambda>t. if t < s then Some s else Some (s + p * ((t - s) div p + 1)))\<rparr>"

lemma every_rule: "0 < p \<Longrightarrow> rule_of (every p s) {s + p * k | k. 0 \<le> k}"
proof -
  assume p: "0 < p"
  have b: "s + p * ((t - s) div p) \<le> t" "t < s + p * ((t - s) div p + 1)" for t
    using div_slot_bounds [OF p, of "t - s"] by simp_all
  have n: "t < s + p * k" if "t < s" "0 \<le> k" for t k
    using mult_nonneg_nonneg [of p k] p that by linarith
  have "k \<le> (t - s) div p" if "s + p * k \<le> t" for k t
    using p that by (simp add: zdiv_mono1 [of "p * k" "t - s" p, simplified] algebra_simps)
  moreover have "(t - s) div p + 1 \<le> k" if "t < s + p * k" for k t
  proof (rule ccontr)
    assume "\<not> (t - s) div p + 1 \<le> k"
    then have "p * k \<le> p * ((t - s) div p)" using p by simp
    with b(1) [of t] that show False by linarith
  qed
  ultimately show ?thesis
    using p b n by (auto simp: rule_of_def every_def pos_imp_zdiv_nonneg_iff intro!: mult_left_mono)
qed

theorem recurring_window_in_force_witness:
  "is_window_active_now (\<lambda>tx s. Some (every 86400 s)) (\<lambda>_. None) (Some demo_window) (3 * 86400 + 60)"
proof -
  have "normalize_rrule_text (mw_rrule demo_window) = Some ''FREQ=DAILY''"
    by code_simp
  then have b: "build_window_rrule (\<lambda>tx s. Some (every 86400 s)) demo_window = Some (every 86400 0)"
    by (simp add: build_window_rrule_def) (simp add: demo_window_def)
  have l: "window_local_now (\<lambda>_. None) demo_window t = t" for t
    by (simp add: window_local_now_def get_zoneinfo_def to_wall_def utc_zone_def)
  have "\<exists>s \<in> {0 + 86400 * k | k. 0 \<le> k}. s \<le> (3 * 86400 + 60 :: int) \<and> 3 * 86400 + 60 \<le> s + 3600"
    by (rule bexI [of _ "86400 * 3"]) (simp, intro CollectI exI [of _ 3], simp)
  then show ?thesis
    using recurring_window_in_force [OF b every_rule, of "\<lambda>_. None" "3 * 86400 + 60"]
    by (simp add: l) (simp add: has_rrule_def demo_window_def)
qed

end
