(* ===== verification/Escalation.thy ===== *)
theory Escalation
  imports On_Call Maintenance_Windows
begin

text \<open>
  Escalation of alert groups: policies (\<open>services/escalation_policies.py\<close>), the scheduler's
  step (\<open>services/alerts/escalation.py\<close>) and the part of \<open>services/alerts/maintenance_state.py\<close>
  that pauses and resumes it. A call runs at one instant \<open>now\<close>; the object and its row are one
  record. Notification delivery is a parameter; what it does to the world is not observed.
\<close>

section \<open>Rows\<close>

record esc_policy =
  policy_id :: int
  policy_enabled :: bool
  repeat_count :: int

record esc_rule =
  rule_id :: int
  rule_policy :: int
  rule_position :: int
  delay_seconds :: int
  target_type :: string
  target_rotation :: "rotation option"
  target_user :: "user option"
  rule_enabled :: bool

record team =
  escalation_enabled :: bool
  escalation_after_reminders :: int

record application =
  app_window :: "mwindow option"
  app_behavior :: string
  app_active :: bool
  app_retained_at :: "int option"

record alert_group =
  g_status :: string
  g_team :: "team option"
  g_rotation :: "rotation option"
  g_assignee :: "user option"
  g_policy :: "esc_policy option"
  g_rule :: "esc_rule option"
  g_level :: int
  g_repeat :: int
  g_reminder_count :: int
  g_last_escalated_at :: "int option"
  g_next_escalation_at :: "int option"
  g_updated_at :: int
  g_maintenance_suppressed :: bool
  g_maintenance_window :: "mwindow option"
  g_maintenance_behavior :: string
  g_notification_pending :: bool
  g_notification_due_at :: "int option"
  g_notification_reason :: "string option"

text \<open>What a call reads besides the group, and the two delivery operations.\<close>

record world =
  w_tz :: tzdb
  w_oncall :: oncall_db
  w_rrule :: rrulestr
  w_rules :: "esc_rule list"
  w_applications :: "application list"
  w_has_channel :: "alert_group \<Rightarrow> bool result"
  w_notify :: "alert_group \<Rightarrow> int result"

type_synonym alert_event = "string \<times> string"
type_synonym gstate = "alert_group \<times> alert_event list"

definition create_alert_event :: "string \<Rightarrow> string \<Rightarrow> gstate \<Rightarrow> gstate" where
  "create_alert_event event_type message s = (fst s, snd s @ [(event_type, message)])"

section \<open>Policies\<close>

definition list_enabled_rules :: "world \<Rightarrow> esc_policy option \<Rightarrow> esc_rule list" where
  "list_enabled_rules w pol =
     (case pol of
        None \<Rightarrow> []
      | Some p \<Rightarrow> sort_key (\<lambda>r. (rule_position r, rule_id r)) (filter (\<lambda>r. rule_policy r = policy_id p \<and> rule_enabled r) (w_rules w)))"

definition get_first_rule :: "world \<Rightarrow> int \<Rightarrow> esc_rule option" where
  "get_first_rule w pid =
     (case sort_key (\<lambda>r. (rule_position r, rule_id r)) (filter (\<lambda>r. rule_policy r = pid \<and> rule_enabled r) (w_rules w)) of
        [] \<Rightarrow> None | r # _ \<Rightarrow> Some r)"

definition get_first_enabled_rule :: "world \<Rightarrow> esc_policy option \<Rightarrow> esc_rule option" where
  "get_first_enabled_rule w pol =
     (case pol of None \<Rightarrow> None | Some p \<Rightarrow> if \<not> policy_enabled p then None else get_first_rule w (policy_id p))"

definition get_rule_delay_seconds :: "esc_rule option \<Rightarrow> int" where
  "get_rule_delay_seconds r = (case r of None \<Rightarrow> 0 | Some r \<Rightarrow> max (delay_seconds r) 0)"

definition get_next_escalation_at :: "esc_rule option \<Rightarrow> int \<Rightarrow> int option" where
  "get_next_escalation_at r now =
     (case r of None \<Rightarrow> None | Some _ \<Rightarrow> Some (now + get_rule_delay_seconds r * second))"

definition resolve_rule_user :: "world \<Rightarrow> int \<Rightarrow> esc_rule option \<Rightarrow> user option result" where
  "resolve_rule_user w now r =
     (case r of
        None \<Rightarrow> Inr None
      | Some r \<Rightarrow>
          if \<not> rule_enabled r then Inr None
          else if target_type r = ''user''
          then Inr (case target_user r of None \<Rightarrow> None | Some u \<Rightarrow> if user_active u then Some u else None)
          else if target_type r = ''rotation''
          then (case target_rotation r of
                  None \<Rightarrow> Inr None
                | Some rot \<Rightarrow> get_current_oncall_user (w_tz w) (w_oncall w) (Some rot) now)
          else Inr None)"

fun next_after :: "int \<Rightarrow> esc_rule list \<Rightarrow> esc_rule list option" where
  "next_after rid [] = None"
| "next_after rid (r # rs) = (if rule_id r \<noteq> rid then next_after rid rs else Some rs)"

definition get_next_rule_for_alert :: "world \<Rightarrow> alert_group \<Rightarrow> esc_rule option \<times> int" where
  "get_next_rule_for_alert w g =
     (if (case g_policy g of None \<Rightarrow> True | Some p \<Rightarrow> \<not> policy_enabled p) then (None, g_repeat g)
      else let rules = list_enabled_rules w (g_policy g) in
        if rules = [] then (None, g_repeat g)
        else case g_rule g of
               None \<Rightarrow> (Some (hd rules), g_repeat g)
             | Some cur \<Rightarrow>
                 (case next_after (rule_id cur) rules of
                    None \<Rightarrow> (Some (hd rules), g_repeat g)
                  | Some (r # _) \<Rightarrow> (Some r, g_repeat g)
                  | Some [] \<Rightarrow>
                      if g_repeat g < repeat_count (the (g_policy g)) then (Some (hd rules), g_repeat g + 1)
                      else (None, g_repeat g)))"

definition get_policy_reminder_interval :: "world \<Rightarrow> alert_group \<Rightarrow> int" where
  "get_policy_reminder_interval w g =
     (if g_policy g = None then 0
      else case g_rule g of
             Some r \<Rightarrow> max (get_rule_delay_seconds (Some r)) 60
           | None \<Rightarrow>
               (case get_first_enabled_rule w (g_policy g) of
                  None \<Rightarrow> 0
                | Some r \<Rightarrow> max (get_rule_delay_seconds (Some r)) 60))"

definition apply_initial_escalation_policy_assignment ::
  "world \<Rightarrow> int \<Rightarrow> esc_policy option \<Rightarrow> rotation option \<Rightarrow>
   (esc_rule option \<times> rotation option \<times> user option \<times> int option) result" where
  "apply_initial_escalation_policy_assignment w now pol fallback_rotation =
     res_bind (case fallback_rotation of
                 None \<Rightarrow> Inr None
               | Some rot \<Rightarrow> get_current_oncall_user (w_tz w) (w_oncall w) (Some rot) now) (\<lambda>assignee.
       if pol = None then Inr (None, fallback_rotation, assignee, None)
       else case get_first_enabled_rule w pol of
              None \<Rightarrow> Inr (None, fallback_rotation, assignee, None)
            | Some r \<Rightarrow>
                res_bind (resolve_rule_user w now (Some r)) (\<lambda>u.
                  Inr (Some r,
                       if target_type r = ''rotation'' then target_rotation r else None,
                       u, get_next_escalation_at (Some r) now)))"

section \<open>Maintenance\<close>

definition application_effect_is_active :: "world \<Rightarrow> int \<Rightarrow> application \<Rightarrow> bool" where
  "application_effect_is_active w now a =
     (if \<not> app_active a then False
      else case app_window a of
             None \<Rightarrow> False
           | Some mw \<Rightarrow>
               if mw_deleted mw then False
               else if app_retained_at a \<noteq> None then True
               else if is_window_active_now (w_rrule w) (w_tz w) (Some mw) now then True
               else \<not> mw_reactivate_on_end mw)"

definition effective_group_applications :: "world \<Rightarrow> int \<Rightarrow> application list" where
  "effective_group_applications w now = filter (application_effect_is_active w now) (filter app_active (w_applications w))"

definition is_notification_lifecycle_suppressed :: "world \<Rightarrow> int \<Rightarrow> alert_group \<Rightarrow> bool" where
  "is_notification_lifecycle_suppressed w now g =
     (if list_ex (\<lambda>a. app_behavior a = ''suppress_notifications'') (effective_group_applications w now) then True
      else let behavior = (case g_maintenance_window g of
                             None \<Rightarrow> g_maintenance_behavior g
                           | Some mw \<Rightarrow> if mw_behavior mw = '''' then g_maintenance_behavior g else mw_behavior mw) in
           behavior = ''suppress_notifications'' \<and>
           is_window_active_now (w_rrule w) (w_tz w) (g_maintenance_window g) now)"

definition paused_behaviors :: "string list" where
  "paused_behaviors = [''suppress_notifications'', ''pause_escalation_only'', ''create_maintenance_incident'']"

definition is_escalation_lifecycle_paused :: "world \<Rightarrow> int \<Rightarrow> alert_group \<Rightarrow> bool" where
  "is_escalation_lifecycle_paused w now g =
     (if list_ex (\<lambda>a. app_behavior a \<in> set paused_behaviors) (effective_group_applications w now) then True
      else g_maintenance_behavior g \<in> set paused_behaviors \<and>
           is_window_active_now (w_rrule w) (w_tz w) (g_maintenance_window g) now)"

definition pause_notification_lifecycle :: "int \<Rightarrow> gstate \<Rightarrow> gstate \<times> bool" where
  "pause_notification_lifecycle now s =
     (let g = fst s;
          newly_suppressed = (\<not> g_maintenance_suppressed g);
          clears = (g_notification_pending g \<or> g_notification_due_at g \<noteq> None \<or>
                    (case g_notification_reason g of None \<Rightarrow> False | Some r \<Rightarrow> r \<noteq> ''''));
          changed = (newly_suppressed \<or> clears \<or> g_next_escalation_at g \<noteq> None);
          g1 = (if newly_suppressed then g\<lparr>g_maintenance_suppressed := True\<rparr> else g);
          g2 = (if clears then g1\<lparr>g_notification_pending := False, g_notification_due_at := None, g_notification_reason := None\<rparr> else g1);
          g3 = g2\<lparr>g_next_escalation_at := None\<rparr>;
          g4 = (if changed then g3\<lparr>g_updated_at := now\<rparr> else g3)
      in (if newly_suppressed
          then create_alert_event ''maintenance_notifications_paused''
                 ''Notification, reminder, and escalation processing paused by maintenance'' (g4, snd s)
          else (g4, snd s), changed))"

definition resume_notification_lifecycle :: "world \<Rightarrow> int \<Rightarrow> gstate \<Rightarrow> gstate \<times> bool" where
  "resume_notification_lifecycle w now s =
     (let g = fst s in
      if \<not> g_maintenance_suppressed g then (s, False)
      else if is_notification_lifecycle_suppressed w now g then (s, False)
      else
        let next_at = (if g_status g = ''firing'' \<and> g_policy g \<noteq> None \<and> g_rule g \<noteq> None \<and> \<not> is_escalation_lifecycle_paused w now g
                       then get_next_escalation_at (g_rule g) now else None);
            g' = g\<lparr>g_maintenance_suppressed := False, g_reminder_count := 0, g_next_escalation_at := next_at, g_updated_at := now\<rparr>
        in (create_alert_event ''maintenance_notifications_resumed''
              ''Maintenance ended; notification and escalation processing resumed'' (g', snd s), True))"

section \<open>The escalation step\<close>

definition deliver_escalation_notification :: "world \<Rightarrow> gstate \<Rightarrow> gstate" where
  "deliver_escalation_notification w s =
     (let has_target = (case w_has_channel w (fst s) of Inl _ \<Rightarrow> False | Inr b \<Rightarrow> b);
          sent_count = (case w_notify w (fst s) of Inl _ \<Rightarrow> 0 | Inr n \<Rightarrow> n);
          resolution_error = (\<not> is_ok (w_has_channel w (fst s)) \<or> \<not> is_ok (w_notify w (fst s))) in
      if sent_count \<noteq> 0 then s
      else if has_target \<or> resolution_error
      then create_alert_event ''escalation_notification_failed''
             ''Escalation completed, but notification delivery did not succeed.'' s
      else create_alert_event ''escalation_notification_skipped''
             ''Escalation completed, but no matching notification target was found.'' s)"

text \<open>The guards that both entry points share: an answer, or the state to go on from.\<close>

definition lifecycle_guards :: "world \<Rightarrow> int \<Rightarrow> gstate \<Rightarrow> gstate option \<times> gstate" where
  "lifecycle_guards w now s =
     (if is_notification_lifecycle_suppressed w now (fst s) then (Some (fst (pause_notification_lifecycle now s)), s)
      else if is_escalation_lifecycle_paused w now (fst s) then (Some ((fst s)\<lparr>g_next_escalation_at := None\<rparr>, snd s), s)
      else case resume_notification_lifecycle w now s of
             (s', True) \<Rightarrow> (Some s', s')
           | (s', False) \<Rightarrow> (None, s'))"

definition escalate_to :: "world \<Rightarrow> int \<Rightarrow> esc_rule \<Rightarrow> int \<Rightarrow> user option \<Rightarrow> gstate \<Rightarrow> gstate" where
  "escalate_to w now r repeats u s =
     (let g = (fst s)
            \<lparr>g_rotation := (if target_type r = ''rotation'' then target_rotation r else None),
             g_assignee := u, g_rule := Some r, g_level := g_level (fst s) + 1, g_repeat := repeats,
             g_reminder_count := 0, g_last_escalated_at := Some now,
             g_next_escalation_at := get_next_escalation_at (Some r) now, g_updated_at := now\<rparr>;
          target = (case u of None \<Rightarrow> ''no assignee'' | Some u \<Rightarrow> username u)
      in deliver_escalation_notification w
           (create_alert_event ''escalated''
              (''Escalated by policy rule #'' @ int_str (rule_position r) @ '' to '' @ target) (g, snd s)))"

definition maybe_escalate_alert_by_policy :: "world \<Rightarrow> int \<Rightarrow> gstate \<Rightarrow> (gstate \<times> bool) result" where
  "maybe_escalate_alert_by_policy w now s0 =
     (case lifecycle_guards w now s0 of
        (Some s', _) \<Rightarrow> Inr (s', False)
      | (None, s) \<Rightarrow>
          let g = fst s in
          if g_policy g = None then Inr (s, False)
          else case g_next_escalation_at g of
            None \<Rightarrow> Inr (s, False)
          | Some due \<Rightarrow>
              if due > now then Inr (s, False)
              else case get_next_rule_for_alert w g of
                (None, _) \<Rightarrow>
                  Inr (create_alert_event ''escalation_stopped'' ''Escalation policy has no next rule''
                         (g\<lparr>g_next_escalation_at := None, g_updated_at := now\<rparr>, snd s), False)
              | (Some r, repeats) \<Rightarrow>
                  res_bind (resolve_rule_user w now (Some r)) (\<lambda>u. Inr (escalate_to w now r repeats u s, True)))"

definition maybe_escalate_alert :: "world \<Rightarrow> int \<Rightarrow> gstate \<Rightarrow> (gstate \<times> bool) result" where
  "maybe_escalate_alert w now s0 =
     (case lifecycle_guards w now s0 of
        (Some s', _) \<Rightarrow> Inr (s', False)
      | (None, s) \<Rightarrow>
          let g = fst s in
          if g_policy g \<noteq> None then maybe_escalate_alert_by_policy w now s
          else case g_team g of
            None \<Rightarrow> Inr (s, False)
          | Some t \<Rightarrow>
              if \<not> escalation_enabled t then Inr (s, False)
              else if g_reminder_count g < escalation_after_reminders t then Inr (s, False)
              else res_bind (get_next_rotation_user (w_tz w) (w_oncall w) (g_rotation g) (g_assignee g) now) (\<lambda>u.
                case u of
                  None \<Rightarrow> Inr (s, False)
                | Some u \<Rightarrow>
                    if (case g_assignee g of None \<Rightarrow> False | Some a \<Rightarrow> user_id u = user_id a) then Inr (s, False)
                    else
                      let g' = g\<lparr>g_assignee := Some u, g_level := g_level g + 1, g_reminder_count := 0,
                                 g_last_escalated_at := Some now, g_updated_at := now\<rparr> in
                      Inr (deliver_escalation_notification w
                             (create_alert_event ''escalated'' (''Escalated to '' @ username u) (g', snd s)), True)))"

section \<open>Position in a policy\<close>

text \<open>
  A policy of \<open>n\<close> enabled rules with \<open>R\<close> repeats is a walk through \<open>(R + 1) * n\<close> stations. A
  group that follows its policy stands at the station given by its repeat counter and the
  place of its rule.
\<close>

abbreviation rules_of :: "world \<Rightarrow> alert_group \<Rightarrow> esc_rule list" where
  "rules_of w g \<equiv> list_enabled_rules w (g_policy g)"

definition at_rule :: "world \<Rightarrow> alert_group \<Rightarrow> nat \<Rightarrow> bool" where
  "at_rule w g i \<longleftrightarrow> i < length (rules_of w g) \<and> map_option rule_id (g_rule g) = Some (rule_id (rules_of w g ! i))"

definition follows_policy :: "world \<Rightarrow> alert_group \<Rightarrow> bool" where
  "follows_policy w g \<longleftrightarrow>
     (\<exists>p. g_policy g = Some p \<and> policy_enabled p \<and> 0 \<le> g_repeat g \<and> g_repeat g \<le> repeat_count p) \<and>
     distinct (map rule_id (rules_of w g)) \<and> (\<exists>i. at_rule w g i)"

definition rule_index :: "world \<Rightarrow> alert_group \<Rightarrow> nat" where
  "rule_index w g =
     (case g_rule g of
        None \<Rightarrow> 0
      | Some r \<Rightarrow> (case next_after (rule_id r) (rules_of w g) of
                    None \<Rightarrow> 0 | Some rest \<Rightarrow> length (rules_of w g) - Suc (length rest)))"

definition station :: "world \<Rightarrow> alert_group \<Rightarrow> nat" where
  "station w g = nat (g_repeat g) * length (rules_of w g) + rule_index w g"

definition stations :: "world \<Rightarrow> alert_group \<Rightarrow> nat" where
  "stations w g = (case g_policy g of None \<Rightarrow> 0 | Some p \<Rightarrow> Suc (nat (repeat_count p)) * length (rules_of w g))"

lemma next_after_nth:
  "distinct (map rule_id rs) \<Longrightarrow> i < length rs \<Longrightarrow> next_after (rule_id (rs ! i)) rs = Some (drop (Suc i) rs)"
proof (induction rs arbitrary: i)
  case (Cons r rs)
  show ?case
  proof (cases i)
    case (Suc j)
    then have "rule_id r \<noteq> rule_id (rs ! j)"
      using Cons.prems by (metis distinct.simps(2) image_eqI length_Cons list.set_map list.simps(9) not_less_eq nth_mem)
    with Suc Cons show ?thesis by simp
  qed simp
qed simp

lemma at_rule_next_after:
  assumes "distinct (map rule_id (rules_of w g))" and "at_rule w g i"
  shows "\<exists>r. g_rule g = Some r \<and> next_after (rule_id r) (rules_of w g) = Some (drop (Suc i) (rules_of w g)) \<and> rule_index w g = i"
proof -
  obtain r where r: "g_rule g = Some r" "rule_id r = rule_id (rules_of w g ! i)" "i < length (rules_of w g)"
    using assms(2) by (auto simp: at_rule_def)
  with next_after_nth [OF assms(1) r(3)] show ?thesis by (auto simp: rule_index_def)
qed

lemma follows_policyE:
  assumes "follows_policy w g"
  obtains p i where "g_policy g = Some p" "policy_enabled p" "0 \<le> g_repeat g" "g_repeat g \<le> repeat_count p"
    "distinct (map rule_id (rules_of w g))" "at_rule w g i" "rule_index w g = i"
  using assms at_rule_next_after unfolding follows_policy_def by blast

lemma station_arith: "Suc i < n \<Longrightarrow> Suc (m * n + i) mod n = Suc i \<and> Suc (m * n + i) div n = m"
  using div_mult_self3 [of n m "Suc i"] mod_mult_self3 [of m n "Suc i"] by simp

lemma get_next_rule_cases:
  assumes "follows_policy w g"
  shows "get_next_rule_for_alert w g =
     (if Suc (station w g) < stations w g
      then (Some (rules_of w g ! (Suc (station w g) mod length (rules_of w g))),
            int (Suc (station w g) div length (rules_of w g)))
      else (None, g_repeat g))"
proof -
  let ?rs = "rules_of w g" and ?n = "length (rules_of w g)"
  obtain p i where p: "g_policy g = Some p" "policy_enabled p" "0 \<le> g_repeat g" "g_repeat g \<le> repeat_count p"
    "distinct (map rule_id ?rs)" "at_rule w g i" "rule_index w g = i"
    using assms by (rule follows_policyE)
  obtain r where r: "g_rule g = Some r" "next_after (rule_id r) ?rs = Some (drop (Suc i) ?rs)"
    using at_rule_next_after [OF p(5,6)] by blast
  have i: "i < ?n" using p(6) by (simp add: at_rule_def)
  obtain m where m: "g_repeat g = int m" using p(3) nonneg_int_cases by blast
  have st: "station w g = m * ?n + i" "stations w g = Suc (nat (repeat_count p)) * ?n"
    using p m by (simp_all add: station_def stations_def)
  show ?thesis
  proof (cases "Suc i < ?n")
    case True
    have "Suc (m * ?n + i) mod ?n = Suc i" "Suc (m * ?n + i) div ?n = m"
      using station_arith [OF True] by simp_all
    moreover have "Suc (station w g) < stations w g"
    proof -
      have "m * ?n \<le> nat (repeat_count p) * ?n" using p(4) m by (intro mult_le_mono1) linarith
      with True show ?thesis unfolding st mult_Suc by linarith
    qed
    moreover have "drop (Suc i) ?rs = ?rs ! Suc i # drop (Suc (Suc i)) ?rs" using True by (simp add: Cons_nth_drop_Suc)
    ultimately show ?thesis using p r i m st by (auto simp: get_next_rule_for_alert_def Let_def)
  next
    case False
    then have ni: "Suc i = ?n" using i by simp
    then have k: "Suc (station w g) = Suc m * ?n" using st by simp
    have "Suc (station w g) < stations w g \<longleftrightarrow> g_repeat g < repeat_count p"
      using i m unfolding k st(2) by (auto simp: mult_less_cancel2)
    moreover have "?rs ! 0 = hd ?rs" using i by (cases ?rs) auto
    ultimately show ?thesis
      using p r i m k ni by (auto simp: get_next_rule_for_alert_def Let_def)
  qed
qed

section \<open>One tick\<close>

definition same_position :: "alert_group \<Rightarrow> alert_group \<Rightarrow> bool" where
  "same_position g g' \<longleftrightarrow> g_policy g' = g_policy g \<and> g_rule g' = g_rule g \<and> g_repeat g' = g_repeat g"

named_theorems frame \<open>what the operations leave of a group\<close>

lemma fst_create_alert_event [simp, frame]: "fst (create_alert_event ty m s) = fst s"
  by (simp add: create_alert_event_def)

lemma fst_deliver [simp, frame]: "fst (deliver_escalation_notification w s) = fst s"
  by (simp add: deliver_escalation_notification_def Let_def)

lemma pause_position [frame]: "same_position (fst s) (fst (fst (pause_notification_lifecycle now s)))"
  by (simp add: pause_notification_lifecycle_def Let_def same_position_def)

lemma resume_position [frame]: "same_position (fst s) (fst (fst (resume_notification_lifecycle w now s)))"
  by (simp add: resume_notification_lifecycle_def Let_def same_position_def)

lemma resume_False: "resume_notification_lifecycle w now s = (s', False) \<Longrightarrow> s' = s \<and> (\<not> g_maintenance_suppressed (fst s) \<or> is_notification_lifecycle_suppressed w now (fst s))"
  by (auto simp: resume_notification_lifecycle_def Let_def split: if_splits)

definition calm :: "world \<Rightarrow> int \<Rightarrow> alert_group \<Rightarrow> bool" where
  "calm w now g \<longleftrightarrow> \<not> is_notification_lifecycle_suppressed w now g \<and> \<not> is_escalation_lifecycle_paused w now g \<and>
     \<not> g_maintenance_suppressed g"

lemma guards_calm: "calm w now (fst s) \<Longrightarrow> lifecycle_guards w now s = (None, s)"
  by (simp add: calm_def lifecycle_guards_def resume_notification_lifecycle_def)

lemma guards_None: "lifecycle_guards w now s = (None, s') \<Longrightarrow> s' = s \<and> calm w now (fst s)"
  by (auto simp: lifecycle_guards_def calm_def split: if_splits prod.splits bool.splits dest!: resume_False)

lemma guards_Some:
  assumes "lifecycle_guards w now s = (Some s', x)"
  shows "same_position (fst s) (fst s')"
  using assms pause_position [of s now] resume_position [of s w now]
  by (auto simp: lifecycle_guards_def same_position_def split: if_splits prod.splits bool.splits)

text \<open>A tick of the scheduler on a group that has a policy.\<close>

lemma policy_tick_cases:
  assumes "g_policy (fst s) \<noteq> None" and "maybe_escalate_alert w now s = Inr (s', b)"
  obtains (held) "\<not> calm w now (fst s)" "\<not> b" "same_position (fst s) (fst s')"
  | (idle) "calm w now (fst s)" "\<not> b" "s' = s" "\<forall>d. g_next_escalation_at (fst s) = Some d \<longrightarrow> now < d"
  | (stopped) d repeats where "calm w now (fst s)" "\<not> b" "g_next_escalation_at (fst s) = Some d" "d \<le> now"
      "get_next_rule_for_alert w (fst s) = (None, repeats)"
      "fst s' = (fst s)\<lparr>g_next_escalation_at := None, g_updated_at := now\<rparr>"
  | (escalated) d r repeats u where "calm w now (fst s)" "b" "g_next_escalation_at (fst s) = Some d" "d \<le> now"
      "get_next_rule_for_alert w (fst s) = (Some r, repeats)" "resolve_rule_user w now (Some r) = Inr u"
      "s' = escalate_to w now r repeats u s"
proof -
  obtain a s1 where Pair: "lifecycle_guards w now s = (a, s1)"
    using prod.exhaust [of "lifecycle_guards w now s"] by blast
  show ?thesis
  proof (cases a)
    case (Some s2)
    with Pair assms(2) have "s' = s2" "\<not> b" by (auto simp: maybe_escalate_alert_def)
    moreover have "\<not> calm w now (fst s)" using Pair Some guards_calm by fastforce
    ultimately show ?thesis using guards_Some Pair Some held by blast
  next
    case None
    then have c: "s1 = s" "calm w now (fst s)" using guards_None Pair by blast+
    with assms None Pair have t: "maybe_escalate_alert_by_policy w now s = Inr (s', b)"
      by (simp add: maybe_escalate_alert_def Let_def)
    show ?thesis
    proof (cases "\<exists>d. g_next_escalation_at (fst s) = Some d \<and> d \<le> now")
      case False
      with t c Pair None have "s' = s" "\<not> b"
        by (auto simp: maybe_escalate_alert_by_policy_def Let_def split: option.splits if_splits)
      with False c idle show ?thesis by fastforce
    next
      case True
      then obtain d where d: "g_next_escalation_at (fst s) = Some d" "d \<le> now" by blast
      obtain nr rep where n: "get_next_rule_for_alert w (fst s) = (nr, rep)" by fastforce
      show ?thesis
      proof (cases nr)
        case None
        with t c Pair \<open>a = None\<close> d n assms(1) stopped [OF c(2) _ d] show ?thesis
          by (auto simp: maybe_escalate_alert_by_policy_def Let_def)
      next
        case (Some r)
        with t c Pair \<open>a = None\<close> d n assms(1) escalated [OF c(2) _ d] show ?thesis
          by (auto simp: maybe_escalate_alert_by_policy_def Let_def res_bind_Inr_iff)
      qed
    qed
  qed
qed

lemma rules_of_cong: "w_rules w = w_rules w' \<Longrightarrow> list_enabled_rules w = list_enabled_rules w'"
  by (rule ext) (simp add: list_enabled_rules_def split: option.split)

lemma station_cong:
  assumes "w_rules w = w_rules w'" and "same_position g g'"
  shows "station w g' = station w' g" "stations w g' = stations w' g" "follows_policy w g' = follows_policy w' g"
  using assms(2) unfolding same_position_def station_def stations_def rule_index_def follows_policy_def at_rule_def
    rules_of_cong [OF assms(1)] by (simp_all cong: option.case_cong)

lemma station_bound: "follows_policy w g \<Longrightarrow> station w g < stations w g"
proof (erule follows_policyE)
  fix p i assume p: "g_policy g = Some p" "0 \<le> g_repeat g" "g_repeat g \<le> repeat_count p" "at_rule w g i" "rule_index w g = i"
  have "nat (g_repeat g) * length (rules_of w g) \<le> nat (repeat_count p) * length (rules_of w g)"
    using p(3) by (intro mult_le_mono1 nat_mono)
  moreover have "i < length (rules_of w g)" using p(4) by (simp add: at_rule_def)
  moreover have "station w g = nat (g_repeat g) * length (rules_of w g) + i"
    "stations w g = length (rules_of w g) + nat (repeat_count p) * length (rules_of w g)"
    using p by (simp_all add: station_def stations_def)
  ultimately show ?thesis by linarith
qed

lemma escalate_to_station:
  assumes "follows_policy w (fst s)" and "get_next_rule_for_alert w (fst s) = (Some r, repeats)"
    and "s' = escalate_to w now r repeats u s"
  shows "follows_policy w (fst s') \<and> station w (fst s') = Suc (station w (fst s)) \<and> stations w (fst s') = stations w (fst s) \<and>
     r = rules_of w (fst s) ! (Suc (station w (fst s)) mod length (rules_of w (fst s)))"
proof -
  let ?g = "fst s" and ?g' = "fst s'" and ?rs = "rules_of w (fst s)"
  let ?n = "length ?rs" and ?k = "Suc (station w (fst s))"
  obtain p i where p: "g_policy ?g = Some p" "policy_enabled p" "distinct (map rule_id ?rs)" "at_rule w ?g i"
    "0 \<le> repeat_count p"
    using assms(1) by (rule follows_policyE) fastforce
  have k: "?k < stations w ?g" "r = ?rs ! (?k mod ?n)" "repeats = int (?k div ?n)"
    using get_next_rule_cases [OF assms(1)] assms(2) by (auto split: if_splits)
  have n: "0 < ?n" using p(4) by (auto simp: at_rule_def)
  have g': "g_policy ?g' = Some p" "g_rule ?g' = Some r" "g_repeat ?g' = repeats"
    using p(1) assms(3) by (simp_all add: escalate_to_def Let_def)
  then have at: "at_rule w ?g' (?k mod ?n)" using p(1) k(2) n by (simp add: at_rule_def)
  have "?k div ?n < Suc (nat (repeat_count p))"
    using k(1) p(1) n by (simp add: stations_def less_mult_imp_div_less)
  then have "repeats \<le> repeat_count p" using k(3) p(5) by linarith
  then have f: "follows_policy w ?g'"
    using p g' at k(3) unfolding follows_policy_def by auto
  have "rule_index w ?g' = ?k mod ?n"
    using at_rule_next_after [OF _ at] p g' by simp
  then have "station w ?g' = ?k div ?n * ?n + ?k mod ?n"
    using g' p(1) k(3) by (simp add: station_def)
  with f g' p(1) k(2) show ?thesis by (simp add: stations_def)
qed

section \<open>The abstract policy\<close>

text \<open>
  What a policy promises, without groups and rows: wait at a station until it is due, go on
  to the next with the delay of its rule, halt after the last one.
\<close>

datatype phase = Waiting nat int | Halted nat

inductive policy_step :: "esc_rule list \<Rightarrow> nat \<Rightarrow> int \<Rightarrow> phase \<Rightarrow> phase \<Rightarrow> bool" for rules len now where
  advance: "due \<le> now \<Longrightarrow> Suc k < len \<Longrightarrow>
     policy_step rules len now (Waiting k due)
       (Waiting (Suc k) (now + max (delay_seconds (rules ! (Suc k mod length rules))) 0 * second))"
| finish: "due \<le> now \<Longrightarrow> \<not> Suc k < len \<Longrightarrow> policy_step rules len now (Waiting k due) (Halted k)"
| wait: "now < due \<Longrightarrow> policy_step rules len now (Waiting k due) (Waiting k due)"
| rest: "policy_step rules len now (Halted k) (Halted k)"

inductive_cases from_waiting: "policy_step rules len now (Waiting k due) ph"
inductive_cases from_halted: "policy_step rules len now (Halted k) ph"
inductive_simps halted_step: "policy_step rules len now (Halted k) ph"

definition phase_of :: "world \<Rightarrow> alert_group \<Rightarrow> phase" where
  "phase_of w g = (case g_next_escalation_at g of None \<Rightarrow> Halted (station w g) | Some d \<Rightarrow> Waiting (station w g) d)"

lemma tick_refines:
  assumes "follows_policy w (fst s)" and "calm w now (fst s)" and "maybe_escalate_alert w now s = Inr (s', b)"
  shows "policy_step (rules_of w (fst s)) (stations w (fst s)) now (phase_of w (fst s)) (phase_of w (fst s')) \<and>
     follows_policy w (fst s') \<and> stations w (fst s') = stations w (fst s) \<and> rules_of w (fst s') = rules_of w (fst s)"
proof -
  have "g_policy (fst s) \<noteq> None" using assms(1) by (rule follows_policyE) simp
  from this assms(3) show ?thesis
  proof (cases rule: policy_tick_cases)
    case held
    with assms(2) show ?thesis by simp
  next
    case idle
    with assms(1) show ?thesis by (auto simp: phase_of_def intro: policy_step.intros split: option.split)
  next
    case (stopped d repeats)
    then have "\<not> Suc (station w (fst s)) < stations w (fst s)"
      using get_next_rule_cases [OF assms(1)] by (auto split: if_splits)
    moreover have "same_position (fst s) (fst s')" using stopped by (simp add: same_position_def)
    ultimately show ?thesis
      using stopped assms(1) station_cong [of w w "fst s" "fst s'"]
      by (auto simp: phase_of_def same_position_def intro: policy_step.finish)
  next
    case (escalated d r repeats u)
    note st = escalate_to_station [OF assms(1) escalated(5,7)]
    have k: "Suc (station w (fst s)) < stations w (fst s)"
      using get_next_rule_cases [OF assms(1)] escalated(5) by (auto split: if_splits)
    have "g_next_escalation_at (fst s') = Some (now + max (delay_seconds r) 0 * second)" "g_policy (fst s') = g_policy (fst s)"
      using escalated(7) by (simp_all add: escalate_to_def Let_def get_next_escalation_at_def get_rule_delay_seconds_def)
    with policy_step.advance [OF escalated(4) k] st escalated(3) show ?thesis
      by (simp add: phase_of_def)
  qed
qed

section \<open>Runs of the scheduler\<close>

text \<open>Ticks in which the lookup of a user fails leave the group as it is.\<close>

fun escalations :: "(world \<times> int) list \<Rightarrow> gstate \<Rightarrow> nat" where
  "escalations [] s = 0"
| "escalations ((w, now) # ticks) s =
     (case maybe_escalate_alert w now s of
        Inl _ \<Rightarrow> escalations ticks s
      | Inr (s', b) \<Rightarrow> (if b then 1 else 0) + escalations ticks s')"

lemma tick_station:
  assumes "follows_policy w (fst s)" and "maybe_escalate_alert w now s = Inr (s', b)"
  shows "follows_policy w (fst s') \<and> stations w (fst s') = stations w (fst s) \<and>
     station w (fst s') = station w (fst s) + (if b then 1 else 0)"
proof -
  have "g_policy (fst s) \<noteq> None" using assms(1) by (rule follows_policyE) simp
  from this assms(2) show ?thesis
  proof (cases rule: policy_tick_cases)
    case held
    with assms(1) station_cong [of w w] show ?thesis by auto
  next
    case idle
    with assms(1) show ?thesis by simp
  next
    case (stopped d repeats)
    then have "same_position (fst s) (fst s')" by (simp add: same_position_def)
    with stopped assms(1) station_cong [of w w] show ?thesis by auto
  next
    case (escalated d r repeats u)
    show ?thesis using escalate_to_station [OF assms(1) escalated(5,7)] escalated(2) by simp
  qed
qed

lemma escalations_bound:
  assumes "follows_policy w0 (fst s)" and "\<forall>(w, t) \<in> set ticks. w_rules w = w_rules w0"
  shows "station w0 (fst s) + escalations ticks s < stations w0 (fst s)"
  using assms
proof (induction ticks arbitrary: s)
  case Nil
  then show ?case by (simp add: station_bound)
next
  case (Cons tick ticks)
  obtain w t where tick: "tick = (w, t)" by (cases tick)
  then have w: "w_rules w = w_rules w0" using Cons.prems(2) by simp
  have refl: "same_position g g" for g by (simp add: same_position_def)
  show ?case
  proof (cases "maybe_escalate_alert w t s")
    case (Inl e)
    with tick Cons show ?thesis by simp
  next
    case (Inr sb)
    obtain s' b where sb: "sb = (s', b)" using prod.exhaust by blast
    have "follows_policy w0 (fst s') \<and> stations w0 (fst s') = stations w0 (fst s) \<and>
        station w0 (fst s') = station w0 (fst s) + (if b then 1 else 0)"
      using tick_station [of w s t s' b] Cons.prems(1) Inr sb station_cong [OF w refl] by simp
    with Cons.IH [of s'] Cons.prems(2) tick Inr sb show ?thesis by auto
  qed
qed

fun run_ticks :: "(world \<times> int) list \<Rightarrow> gstate \<Rightarrow> gstate" where
  "run_ticks [] s = s"
| "run_ticks ((w, now) # ticks) s =
     (case maybe_escalate_alert w now s of Inl _ \<Rightarrow> run_ticks ticks s | Inr (s', b) \<Rightarrow> run_ticks ticks s')"

text \<open>Ticks that find the group due: each at least \<open>d\<close> after the one before, and the first one late enough.\<close>

fun prompt :: "int \<Rightarrow> int \<Rightarrow> (world \<times> int) list \<Rightarrow> bool" where
  "prompt d due [] = True"
| "prompt d due ((w, t) # ticks) = (due \<le> t \<and> prompt d (t + d) ticks)"

text \<open>A tick outside maintenance that can resolve the users of all rules.\<close>

definition good_tick :: "world \<Rightarrow> alert_group \<Rightarrow> world \<times> int \<Rightarrow> bool" where
  "good_tick w0 g tick \<longleftrightarrow> (case tick of (w, t) \<Rightarrow>
     w_rules w = w_rules w0 \<and> calm w t g \<and> (\<forall>r \<in> set (rules_of w0 g). is_ok (resolve_rule_user w t (Some r))))"

lemma waiting_step:
  "policy_step rules len now (Waiting k due) ph \<Longrightarrow> due \<le> now \<Longrightarrow>
     ph = (if Suc k < len then Waiting (Suc k) (now + max (delay_seconds (rules ! (Suc k mod length rules))) 0 * second) else Halted k)"
  by (elim from_waiting) auto

lemma calm_cong:
  "g_maintenance_window g' = g_maintenance_window g \<Longrightarrow> g_maintenance_behavior g' = g_maintenance_behavior g \<Longrightarrow>
   g_maintenance_suppressed g' = g_maintenance_suppressed g \<Longrightarrow> calm w t g' = calm w t g"
  by (cases "g_maintenance_window g")
    (simp_all add: calm_def is_notification_lifecycle_suppressed_def is_escalation_lifecycle_paused_def)

lemma calm_tick_frame:
  assumes "g_policy (fst s) \<noteq> None" and "calm w now (fst s)" and "maybe_escalate_alert w now s = Inr (s', b)"
  shows "calm w' t (fst s') = calm w' t (fst s) \<and> g_policy (fst s') = g_policy (fst s)"
  using assms(1,3)
proof (cases rule: policy_tick_cases)
  case (escalated d r repeats u)
  have "calm w' t (fst s') = calm w' t (fst s)"
    by (rule calm_cong) (simp_all add: escalated(7) escalate_to_def Let_def)
  with escalated(7) show ?thesis by (simp add: escalate_to_def Let_def)
next
  case (stopped d repeats)
  have "calm w' t (fst s') = calm w' t (fst s)"
    by (rule calm_cong) (simp_all add: stopped(6))
  with stopped(6) show ?thesis by simp
qed (use assms(2) in simp_all)

lemma good_tick_total:
  assumes "follows_policy w0 (fst s)" and "good_tick w0 (fst s) (w, t)"
  shows "\<exists>s' b. maybe_escalate_alert w t s = Inr (s', b)"
proof -
  have w: "w_rules w = w_rules w0" "calm w t (fst s)" and ok: "\<forall>r \<in> set (rules_of w0 (fst s)). is_ok (resolve_rule_user w t (Some r))"
    using assms(2) by (auto simp: good_tick_def)
  have f: "follows_policy w (fst s)" using assms(1) station_cong(3) [OF w(1), of "fst s" "fst s"] by (simp add: same_position_def)
  have p: "g_policy (fst s) \<noteq> None" "0 < length (rules_of w (fst s))" using f by (auto elim!: follows_policyE simp: at_rule_def)
  have "is_ok (resolve_rule_user w t (Some r))" if "get_next_rule_for_alert w (fst s) = (Some r, n)" for r n
    using that ok p(2) get_next_rule_cases [OF f] rules_of_cong [OF w(1)] by (auto split: if_splits)
  then show ?thesis
    using p(1) guards_calm [OF w(2)]
    by (fastforce simp: maybe_escalate_alert_def maybe_escalate_alert_by_policy_def Let_def is_ok_iff split: option.split prod.split)
qed

lemma good_ticks_step:
  assumes "follows_policy w0 (fst s)" and "good_tick w0 (fst s) (w, t)" and "maybe_escalate_alert w t s = Inr (s', b)"
  shows "follows_policy w0 (fst s')" "stations w0 (fst s') = stations w0 (fst s)"
    "rules_of w0 (fst s') = rules_of w0 (fst s)" "good_tick w0 (fst s') x = good_tick w0 (fst s) x"
    "policy_step (rules_of w0 (fst s)) (stations w0 (fst s)) t (phase_of w0 (fst s)) (phase_of w0 (fst s'))"
proof -
  have w: "w_rules w = w_rules w0" "calm w t (fst s)" using assms(2) by (auto simp: good_tick_def)
  have refl: "same_position g g" for g by (simp add: same_position_def)
  have f: "follows_policy w (fst s)" using assms(1) station_cong(3) [OF w(1) refl] by simp
  note t = tick_refines [OF f w(2) assms(3)]
  have ph: "phase_of w g = phase_of w0 g" for g
    using station_cong(1) [OF w(1) refl] by (simp add: phase_of_def split: option.split)
  note c = station_cong(2,3) [OF w(1) refl] rules_of_cong [OF w(1)]
  show "follows_policy w0 (fst s')" "stations w0 (fst s') = stations w0 (fst s)"
    "rules_of w0 (fst s') = rules_of w0 (fst s)"
    "policy_step (rules_of w0 (fst s)) (stations w0 (fst s)) t (phase_of w0 (fst s)) (phase_of w0 (fst s'))"
    using t unfolding ph c by simp_all
  have "g_policy (fst s) \<noteq> None" using f by (auto elim!: follows_policyE)
  from calm_tick_frame [OF this w(2) assms(3)] show "good_tick w0 (fst s') x = good_tick w0 (fst s) x"
    by (auto simp: good_tick_def split: prod.split)
qed

lemma halted_stays:
  assumes "follows_policy w0 (fst s)" and "\<forall>tick \<in> set ticks. good_tick w0 (fst s) tick" and "phase_of w0 (fst s) = Halted k"
  shows "phase_of w0 (fst (run_ticks ticks s)) = Halted k"
  using assms
proof (induction ticks arbitrary: s)
  case (Cons tick ticks)
  obtain w t where tick: "tick = (w, t)" by (cases tick)
  have g: "good_tick w0 (fst s) (w, t)" using Cons.prems(2) tick by simp
  obtain s' b where s': "maybe_escalate_alert w t s = Inr (s', b)"
    using good_tick_total [OF Cons.prems(1) g] by blast
  note st = good_ticks_step [OF Cons.prems(1) g s']
  have "phase_of w0 (fst s') = Halted k"
    using st(5) Cons.prems(3) by (simp add: halted_step)
  with Cons st tick s' show ?case by auto
qed simp

lemma walk_completes:
  assumes "follows_policy w0 (fst s)" and "\<forall>tick \<in> set ticks. good_tick w0 (fst s) tick"
    and "phase_of w0 (fst s) = Waiting k due" and "prompt d due' ticks" and "due \<le> due'"
    and "\<forall>r \<in> set (rules_of w0 (fst s)). max (delay_seconds r) 0 * second \<le> d"
    and "stations w0 (fst s) \<le> k + length ticks"
  shows "phase_of w0 (fst (run_ticks ticks s)) = Halted (stations w0 (fst s) - 1)"
  using assms
proof (induction ticks arbitrary: s k due due')
  case Nil
  then have "station w0 (fst s) = k" by (auto simp: phase_of_def split: option.splits)
  with Nil station_bound [of w0 "fst s"] show ?case by simp
next
  case (Cons tick ticks)
  obtain w t where tick: "tick = (w, t)" by (cases tick)
  have g: "good_tick w0 (fst s) (w, t)" using Cons.prems(2) tick by simp
  obtain s' b where s': "maybe_escalate_alert w t s = Inr (s', b)"
    using good_tick_total [OF Cons.prems(1) g] by blast
  note st = good_ticks_step [OF Cons.prems(1) g s']
  have due: "due \<le> t" "prompt d (t + d) ticks" using Cons.prems(4,5) tick by auto
  let ?r = "rules_of w0 (fst s) ! (Suc k mod length (rules_of w0 (fst s)))"
  have ph: "phase_of w0 (fst s') =
      (if Suc k < stations w0 (fst s) then Waiting (Suc k) (t + max (delay_seconds ?r) 0 * second) else Halted k)"
    using waiting_step [OF st(5) [unfolded Cons.prems(3)] due(1)] .
  have run: "run_ticks (tick # ticks) s = run_ticks ticks s'" using tick s' by simp
  have gt: "\<forall>tick \<in> set ticks. good_tick w0 (fst s') tick" using Cons.prems(2) st(4) by simp
  show ?case
  proof (cases "Suc k < stations w0 (fst s)")
    case True
    have "0 < length (rules_of w0 (fst s))" using Cons.prems(1) by (auto elim!: follows_policyE simp: at_rule_def)
    then have "max (delay_seconds ?r) 0 * second \<le> d" using Cons.prems(6) by simp
    then show ?thesis
      using Cons.IH [OF st(1) gt _ due(2), of "Suc k"] ph True st(2,3) Cons.prems(6,7) run by simp
  next
    case False
    then have "k = stations w0 (fst s) - 1"
      using station_bound [OF Cons.prems(1)] Cons.prems(3) by (auto simp: phase_of_def split: option.splits)
    with False halted_stays [OF st(1) gt] ph run show ?thesis by simp
  qed
qed

section \<open>Properties\<close>

text \<open>
  C4. Outside maintenance, a tick of the scheduler on a group that follows its policy is a
  step of the abstract policy: it waits until the station is due, moves to the next rule in
  order of position, wraps around for the allowed repeats, and halts after the last one.
\<close>

theorem escalation_refines_policy:
  assumes "follows_policy w (fst s)" and "calm w now (fst s)" and "maybe_escalate_alert w now s = Inr (s', b)"
  shows "policy_step (list_enabled_rules w (g_policy (fst s))) (stations w (fst s)) now (phase_of w (fst s)) (phase_of w (fst s'))"
  using tick_refines [OF assms] by blast

definition demo_rule :: "int \<Rightarrow> esc_rule" where
  "demo_rule n = \<lparr>rule_id = n, rule_policy = 1, rule_position = n, delay_seconds = 300, target_type = ''user'',
     target_rotation = None, target_user = Some (demo_user n), rule_enabled = True\<rparr>"

definition demo_world :: world where
  "demo_world = \<lparr>w_tz = (\<lambda>_. None), w_oncall = demo_db, w_rrule = (\<lambda>_ _. None), w_rules = [demo_rule 2, demo_rule 1],
     w_applications = [], w_has_channel = (\<lambda>_. Inr True), w_notify = (\<lambda>_. Inr 1)\<rparr>"

definition demo_group :: alert_group where
  "demo_group = \<lparr>g_status = ''firing'', g_team = None, g_rotation = None, g_assignee = Some (demo_user 1),
     g_policy = Some \<lparr>policy_id = 1, policy_enabled = True, repeat_count = 0\<rparr>, g_rule = Some (demo_rule 1), g_level = 0,
     g_repeat = 0, g_reminder_count = 0, g_last_escalated_at = None, g_next_escalation_at = Some 300, g_updated_at = 0,
     g_maintenance_suppressed = False, g_maintenance_window = None, g_maintenance_behavior = '''', g_notification_pending = False,
     g_notification_due_at = None, g_notification_reason = None\<rparr>"

lemma demo_rules: "list_enabled_rules demo_world (g_policy demo_group) = [demo_rule 1, demo_rule 2]"
  by (simp add: list_enabled_rules_def demo_world_def demo_group_def demo_rule_def)

lemma demo_stations: "stations demo_world demo_group = 2" "station demo_world demo_group = 0"
  unfolding stations_def station_def rule_index_def demo_rules by (simp_all add: demo_group_def demo_rule_def)

lemma demo_follows: "follows_policy demo_world demo_group"
proof -
  have "at_rule demo_world demo_group 0"
    unfolding at_rule_def demo_rules by (simp add: demo_group_def)
  moreover have "distinct (map rule_id (list_enabled_rules demo_world (g_policy demo_group)))"
    unfolding demo_rules by (simp add: demo_rule_def)
  ultimately show ?thesis
    unfolding follows_policy_def by (auto simp: demo_group_def)
qed

lemma demo_calm: "calm demo_world t demo_group"
  by (simp add: calm_def is_notification_lifecycle_suppressed_def is_escalation_lifecycle_paused_def
      effective_group_applications_def demo_world_def demo_group_def paused_behaviors_def)

lemma demo_good: "good_tick demo_world demo_group (demo_world, t)"
  unfolding good_tick_def demo_rules by (simp add: demo_calm) (simp add: resolve_rule_user_def demo_rule_def)

theorem escalation_refines_policy_witness:
  "\<exists>s' b. maybe_escalate_alert demo_world 400 (demo_group, []) = Inr (s', b) \<and>
     policy_step (list_enabled_rules demo_world (g_policy demo_group)) 2 400 (Waiting 0 300) (phase_of demo_world (fst s'))"
proof -
  obtain s' b where s': "maybe_escalate_alert demo_world 400 (demo_group, []) = Inr (s', b)"
    using good_tick_total [of demo_world "(demo_group, [])" demo_world 400] demo_follows demo_good by auto
  have "phase_of demo_world demo_group = Waiting 0 300"
    unfolding phase_of_def demo_stations by (simp add: demo_group_def)
  with escalation_refines_policy [OF _ _ s'] s' show ?thesis
    by (auto simp: demo_follows demo_calm demo_stations)
qed

text \<open>
  C9. A policy escalates only so often: however many ticks the scheduler runs, with
  maintenance windows and failed user lookups in between, a group passes each of the
  \<open>(repeat_count + 1) * n\<close> stations of its policy at most once.
\<close>

theorem escalations_limited:
  assumes "follows_policy w0 (fst s)" and "\<forall>(w, t) \<in> set ticks. w_rules w = w_rules w0"
  shows "station w0 (fst s) + escalations ticks s < stations w0 (fst s)"
  using escalations_bound [OF assms] .

theorem escalations_limited_witness:
  "escalations [(demo_world, 400), (demo_world, 900), (demo_world, 1500)] (demo_group, []) < 2"
  using escalations_limited [of demo_world "(demo_group, [])" "[(demo_world, 400), (demo_world, 900), (demo_world, 1500)]"]
  by (simp add: demo_follows demo_stations)

text \<open>
  C26. A policy is walked to its end: if every tick finds the group due, outside
  maintenance and with resolvable users, then as many ticks as stations are left halt the
  escalation at the last station.
\<close>

theorem escalation_completes:
  assumes "follows_policy w0 (fst s)" and "\<forall>tick \<in> set ticks. good_tick w0 (fst s) tick"
    and "g_next_escalation_at (fst s) = Some due" and "prompt d due ticks"
    and "\<forall>r \<in> set (list_enabled_rules w0 (g_policy (fst s))). max (delay_seconds r) 0 * second \<le> d"
    and "stations w0 (fst s) \<le> station w0 (fst s) + length ticks"
  shows "phase_of w0 (fst (run_ticks ticks s)) = Halted (stations w0 (fst s) - 1)"
  using walk_completes [OF assms(1,2) _ assms(4) order_refl assms(5,6)] assms(3) by (simp add: phase_of_def)

theorem escalation_completes_witness:
  "phase_of demo_world (fst (run_ticks [(demo_world, 400), (demo_world, 400000000)] (demo_group, []))) = Halted 1"
proof -
  have "g_next_escalation_at demo_group = Some 300" by (simp add: demo_group_def)
  moreover have "\<forall>r \<in> set (list_enabled_rules demo_world (g_policy demo_group)). max (delay_seconds r) 0 * second \<le> 300 * second"
    unfolding demo_rules by (simp add: demo_rule_def)
  ultimately show ?thesis
    using escalation_completes [of demo_world "(demo_group, [])" "[(demo_world, 400), (demo_world, 400000000)]" 300 "300 * second"]
    by (simp add: demo_follows demo_stations demo_good)
qed

end
