(* ===== verification/Db_Monad.thy ===== *)
theory Db_Monad
  imports Py_Values
begin

text \<open>
  Computations over a database, shared by the components that write tables: a computation returns
  a value or raises an exception, and leaves a database. \<open>atomic\<close> is a transaction: it rolls
  the database back when its body raises. The rules of \<open>wp\<close> reduce what a composed
  computation does to what its parts do.
\<close>

section \<open>Combinators\<close>

definition db_return :: "'a \<Rightarrow> 's \<Rightarrow> ('e + 'a) \<times> 's" where
  "db_return x db = (Inr x, db)"

definition db_raise :: "'e \<Rightarrow> 's \<Rightarrow> ('e + 'a) \<times> 's" where
  "db_raise e db = (Inl e, db)"

definition db_bind :: "('s \<Rightarrow> ('e + 'a) \<times> 's) \<Rightarrow> ('a \<Rightarrow> 's \<Rightarrow> ('e + 'b) \<times> 's) \<Rightarrow> 's \<Rightarrow> ('e + 'b) \<times> 's" where
  "db_bind m f db = (case m db of (Inl e, db') \<Rightarrow> (Inl e, db') | (Inr x, db') \<Rightarrow> f x db')"

definition db_read :: "('s \<Rightarrow> 'e + 'a) \<Rightarrow> 's \<Rightarrow> ('e + 'a) \<times> 's" where
  "db_read r db = (r db, db)"

definition db_write :: "('s \<Rightarrow> 's) \<Rightarrow> 's \<Rightarrow> ('e + unit) \<times> 's" where
  "db_write w db = (Inr (), w db)"

text \<open>\<open>with db.atomic():\<close> the writes of a body that raises are rolled back.\<close>

definition atomic :: "('s \<Rightarrow> ('e + 'a) \<times> 's) \<Rightarrow> 's \<Rightarrow> ('e + 'a) \<times> 's" where
  "atomic m db = (case m db of (Inl e, db') \<Rightarrow> (Inl e, db) | (Inr x, db') \<Rightarrow> (Inr x, db'))"

section \<open>Weakest preconditions\<close>

definition wp :: "('s \<Rightarrow> ('e + 'a) \<times> 's) \<Rightarrow> ('e + 'a \<Rightarrow> 's \<Rightarrow> bool) \<Rightarrow> 's \<Rightarrow> bool" where
  "wp m Q db \<longleftrightarrow> Q (fst (m db)) (snd (m db))"

named_theorems wp_simps \<open>weakest preconditions of the combinators\<close>

lemma wp_return [wp_simps]: "wp (db_return x) Q db \<longleftrightarrow> Q (Inr x) db"
  by (simp add: wp_def db_return_def)

lemma wp_raise [wp_simps]: "wp (db_raise e) Q db \<longleftrightarrow> Q (Inl e) db"
  by (simp add: wp_def db_raise_def)

lemma wp_read [wp_simps]: "wp (db_read r) Q db \<longleftrightarrow> Q (r db) db"
  by (simp add: wp_def db_read_def)

lemma wp_write [wp_simps]: "wp (db_write w) Q db \<longleftrightarrow> Q (Inr ()) (w db)"
  by (simp add: wp_def db_write_def)

lemma wp_bind [wp_simps]:
  "wp (db_bind m f) Q db \<longleftrightarrow> wp m (\<lambda>r db'. case r of Inl e \<Rightarrow> Q (Inl e) db' | Inr x \<Rightarrow> wp (f x) Q db') db"
  by (cases "m db") (auto simp: wp_def db_bind_def split: sum.splits)

lemma wp_atomic [wp_simps]:
  "wp (atomic m) Q db \<longleftrightarrow> wp m (\<lambda>r db'. case r of Inl e \<Rightarrow> Q (Inl e) db | Inr x \<Rightarrow> Q (Inr x) db') db"
  by (cases "m db") (auto simp: wp_def atomic_def split: sum.splits)

lemma wp_if [wp_simps]: "wp (if b then m else n) Q db \<longleftrightarrow> (if b then wp m Q db else wp n Q db)"
  by simp

lemma wp_mono: "wp m P db \<Longrightarrow> (\<And>r db'. P r db' \<Longrightarrow> Q r db') \<Longrightarrow> wp m Q db"
  by (simp add: wp_def)

text \<open>A computation whose own writes, when it succeeds, are known, and that changes nothing when it raises.\<close>

lemma wp_cases:
  assumes "\<And>e db'. m db = (Inl e, db') \<Longrightarrow> Q (Inl e) db'"
    and "\<And>x db'. m db = (Inr x, db') \<Longrightarrow> Q (Inr x) db'"
  shows "wp m Q db"
  using assms by (cases "m db"; cases "fst (m db)") (auto simp: wp_def)

text \<open>What \<open>first()\<close> of a query returns is one of its rows.\<close>

lemma find_SomeD: "find P xs = Some x \<Longrightarrow> x \<in> set xs \<and> P x"
  by (induction xs) (auto split: if_splits)

section \<open>Steps\<close>

text \<open>
  What a component promises of its steps: they keep an invariant, and, for a stable property, the
  property where the invariant holds. Both carry over to runs.
\<close>

locale guarded_steps =
  fixes step :: "'s \<Rightarrow> 's \<Rightarrow> bool" and inv :: "'s \<Rightarrow> bool"
  assumes step_inv: "step s s' \<Longrightarrow> inv s \<Longrightarrow> inv s'"
begin

lemma run_inv: "step\<^sup>*\<^sup>* s s' \<Longrightarrow> inv s \<Longrightarrow> inv s'"
  by (induction rule: rtranclp_induct) (auto intro: step_inv)

end

locale stable_steps = guarded_steps step inv for step :: "'s \<Rightarrow> 's \<Rightarrow> bool" and inv +
  fixes holds :: "'s \<Rightarrow> bool"
  assumes step_stable: "step s s' \<Longrightarrow> inv s \<Longrightarrow> holds s \<Longrightarrow> holds s'"
begin

lemma run_stable: "step\<^sup>*\<^sup>* s s' \<Longrightarrow> inv s \<Longrightarrow> holds s \<Longrightarrow> holds s'"
  by (induction rule: rtranclp_induct) (auto intro: step_stable run_inv)

end

end
