(* ===== verification/Access_Store.thy ===== *)
theory Access_Store
  imports Db_Monad
begin

text \<open>
  The access-control tables (\<open>modules/db/models.py\<close>) and the repository functions over them
  (\<open>modules/db/groups_repo.py\<close>, \<open>teams_repo.py\<close>, \<open>users_repo.py\<close>,
  \<open>tokens_repo.py\<close>): groups, teams, users, memberships, the rotation rows a removed member
  loses, API tokens and the audit log.

  A table is the list of its rows. A repository function that writes is a computation that
  returns a value or raises and leaves a database (\<open>dbm\<close>); \<open>atomic\<close> rolls the
  database back when its body raises. The engine assigns the ids of new rows: \<open>env_new_id\<close>
  maps the ids in use to the next one. Unique indexes and foreign keys are checked on insertion
  and update, as the engine does. Time stamps of creation, and those
  of a token's use and revocation, are left out: nothing below reads them.
\<close>

section \<open>Rows\<close>

record group_row =
  g_id :: int
  g_slug :: string
  g_name :: string
  g_description :: "string option"
  g_active :: bool
  g_deleted :: bool
  g_deleted_at :: "int option"

record team_row =
  t_id :: int
  t_group_id :: "int option"
  t_slug :: string
  t_name :: string
  t_description :: "string option"
  t_escalation_enabled :: bool
  t_escalation_after_reminders :: int
  t_active :: bool
  t_deleted :: bool
  t_deleted_at :: "int option"

record user_row =
  u_id :: int
  u_username :: string
  u_display_name :: "string option"
  u_email :: "string option"
  u_phone :: "string option"
  u_timezone :: "string option"
  u_locale :: "string option"
  u_theme :: string
  u_telegram_user_id :: "string option"
  u_slack_user_id :: "string option"
  u_mattermost_user_id :: "string option"
  u_notify_start_email :: bool
  u_notify_end_email :: bool
  u_notify_start_mattermost :: bool
  u_password_hash :: "string option"
  u_active :: bool
  u_is_admin :: bool
  u_active_group_id :: "int option"
  u_deleted :: bool
  u_deleted_at :: "int option"

record user_group_row =
  ug_id :: int
  ug_user :: int
  ug_group :: int
  ug_role :: string
  ug_active :: bool

record team_user_row =
  tu_id :: int
  tu_team :: int
  tu_user :: int
  tu_role :: string
  tu_active :: bool

record rotation_row =
  rt_id :: int
  rt_team :: int

record rotation_member_row =
  rm_rotation :: int
  rm_user :: int
  rm_active :: bool

record rotation_layer_row =
  ly_id :: int
  ly_rotation :: int

record layer_member_row =
  lm_layer :: int
  lm_user :: int
  lm_active :: bool

record override_row =
  ov_rotation :: int
  ov_user :: int

record api_token_row =
  at_id :: int
  at_user_id :: "int option"
  at_group_id :: "int option"
  at_team_id :: "int option"
  at_name :: string
  at_token_prefix :: string
  at_token_hash :: string
  at_scopes :: "string list"
  at_expires_at :: "int option"
  at_active :: bool
  at_deleted :: bool

record audit_row =
  al_id :: int
  al_group :: "int option"
  al_team :: "int option"
  al_user :: "int option"
  al_api_token :: "int option"
  al_action :: string
  al_object_type :: "string option"
  al_object_id :: "int option"
  al_message :: "string option"
  al_data :: pydict

record access_db =
  db_groups :: "group_row list"
  db_teams :: "team_row list"
  db_users :: "user_row list"
  db_user_groups :: "user_group_row list"
  db_team_users :: "team_user_row list"
  db_rotations :: "rotation_row list"
  db_rotation_members :: "rotation_member_row list"
  db_rotation_layers :: "rotation_layer_row list"
  db_layer_members :: "layer_member_row list"
  db_overrides :: "override_row list"
  db_sso_identities :: "int list"
  db_api_tokens :: "api_token_row list"
  db_audit_logs :: "audit_row list"

section \<open>Computations over the database\<close>

datatype db_exn =
    DoesNotExist
  | IntegrityError string
  | NoneAttribute
  | UnsupportedTransport
  | BadValue string

type_synonym 'a dbr = "db_exn + 'a"
type_synonym 'a dbm = "access_db \<Rightarrow> 'a dbr \<times> access_db"

text \<open>
  The five compiled patterns of \<open>REDACTION_PATTERNS\<close> (\<open>modules/redaction.py\<close>), by what
  they match; \<open>pattern.sub(replacement, text)\<close> of each is taken from the regex engine.
\<close>

datatype redaction_pattern =
    Telegram_Bot_Token
  | Secret_Query_Parameter
  | Authorization_Header
  | Url_Credentials
  | Secret_Assignment

text \<open>What the code takes from outside: the engine's ids, the clock, \<open>re.Pattern.sub\<close>, password and token
  hashing, and the random token text.\<close>

record access_env =
  env_new_id :: "int list \<Rightarrow> int"
  env_now :: int
  env_re_sub :: "redaction_pattern \<Rightarrow> string \<Rightarrow> string"
  env_hash_password :: "string \<Rightarrow> string"
  env_raw_token :: string
  env_hash_token :: "string \<Rightarrow> string"
  env_error_id :: string

definition fresh_ids :: "access_env \<Rightarrow> bool" where
  "fresh_ids env \<longleftrightarrow> (\<forall>used. env_new_id env used \<notin> set used \<and> env_new_id env used \<noteq> 0)"

definition update_row :: "('r \<Rightarrow> int) \<Rightarrow> 'r \<Rightarrow> 'r list \<Rightarrow> 'r list" where
  "update_row key r rows = map (\<lambda>x. if key x = key r then r else x) rows"

text \<open>\<open>if field in data: setattr(row, field, data[field])\<close>\<close>

definition present :: "'a option \<Rightarrow> 'a \<Rightarrow> 'a" where
  "present given old = (case given of None \<Rightarrow> old | Some v \<Rightarrow> v)"

definition the_row :: "'a option \<Rightarrow> 'a dbr" where
  "the_row r = (case r of None \<Rightarrow> Inl DoesNotExist | Some x \<Rightarrow> Inr x)"

definition id_in :: "('r \<Rightarrow> int) \<Rightarrow> 'r list \<Rightarrow> int \<Rightarrow> bool" where
  "id_in key rows i \<longleftrightarrow> i \<in> key ` set rows"

definition fk_ok :: "('r \<Rightarrow> int) \<Rightarrow> 'r list \<Rightarrow> int option \<Rightarrow> bool" where
  "fk_ok key rows ref = (case ref of None \<Rightarrow> True | Some i \<Rightarrow> id_in key rows i)"

section \<open>Reading\<close>

subsection \<open>Groups\<close>

definition group_live :: "group_row \<Rightarrow> bool" where
  "group_live g \<longleftrightarrow> g_active g \<and> \<not> g_deleted g"

definition list_groups :: "access_db \<Rightarrow> bool \<Rightarrow> bool \<Rightarrow> group_row list" where
  "list_groups db active_only include_deleted =
     filter (\<lambda>g. (include_deleted \<or> \<not> g_deleted g) \<and> (active_only \<longrightarrow> g_active g))
       (sort_key g_id (db_groups db))"

text \<open>The join of a membership with its group: the group row exists and is active and not deleted.\<close>

definition in_live_group :: "access_db \<Rightarrow> user_group_row \<Rightarrow> bool" where
  "in_live_group db m \<longleftrightarrow> (\<exists>g\<in>set (db_groups db). g_id g = ug_group m \<and> group_live g)"

definition GROUP_VIEWER_ROLE :: string where "GROUP_VIEWER_ROLE = ''viewer''"
definition GROUP_EDITOR_ROLE :: string where "GROUP_EDITOR_ROLE = ''editor''"
definition GROUP_USER_ADMIN_ROLE :: string where "GROUP_USER_ADMIN_ROLE = ''user_admin''"
definition GROUP_ROLE_VALUES :: "string list" where
  "GROUP_ROLE_VALUES = [GROUP_VIEWER_ROLE, GROUP_EDITOR_ROLE, GROUP_USER_ADMIN_ROLE]"
definition GROUP_ASSIGNABLE_BY_USER_ADMIN_VALUES :: "string list" where
  "GROUP_ASSIGNABLE_BY_USER_ADMIN_VALUES = [GROUP_VIEWER_ROLE, GROUP_EDITOR_ROLE]"
definition TEAM_VIEWER_ROLE :: string where "TEAM_VIEWER_ROLE = ''viewer''"
definition TEAM_RESPONDER_ROLE :: string where "TEAM_RESPONDER_ROLE = ''responder''"
definition TEAM_MANAGER_ROLE :: string where "TEAM_MANAGER_ROLE = ''manager''"
definition TEAM_ROLE_VALUES :: "string list" where
  "TEAM_ROLE_VALUES = [TEAM_VIEWER_ROLE, TEAM_RESPONDER_ROLE, TEAM_MANAGER_ROLE]"

text \<open>
  \<open>list_groups_for_user\<close>: the group ids of the memberships, in membership order (every caller
  takes only the ids). The first argument is the user when there is one.
\<close>

definition list_groups_for_user :: "access_db \<Rightarrow> user_row option \<Rightarrow> bool \<Rightarrow> bool \<Rightarrow> int list" where
  "list_groups_for_user db user write_required manage_users_required =
     (case user of
        None \<Rightarrow> []
      | Some u \<Rightarrow>
          if u_is_admin u then map g_id (list_groups db True False)
          else map ug_group
            (filter (\<lambda>m. if manage_users_required then ug_role m = GROUP_USER_ADMIN_ROLE
                       else write_required \<longrightarrow> ug_role m \<in> {GROUP_EDITOR_ROLE, GROUP_USER_ADMIN_ROLE})
              (filter (\<lambda>m. ug_user m = u_id u \<and> ug_active m \<and> in_live_group db m)
                (sort_key ug_id (db_user_groups db)))))"

definition get_group :: "access_db \<Rightarrow> int \<Rightarrow> group_row dbr" where
  "get_group db group_id = the_row (find (\<lambda>g. g_id g = group_id \<and> \<not> g_deleted g) (db_groups db))"

definition list_user_groups :: "access_db \<Rightarrow> int \<Rightarrow> user_group_row list" where
  "list_user_groups db user_id =
     filter (\<lambda>m. ug_user m = user_id \<and> ug_active m \<and> in_live_group db m) (sort_key ug_id (db_user_groups db))"

definition get_user_group_role :: "access_db \<Rightarrow> int \<Rightarrow> int \<Rightarrow> string option" where
  "get_user_group_role db user_id group_id =
     map_option ug_role
       (find (\<lambda>m. ug_user m = user_id \<and> ug_group m = group_id \<and> ug_active m \<and> in_live_group db m)
         (db_user_groups db))"

definition get_group_membership :: "access_db \<Rightarrow> int \<Rightarrow> user_group_row dbr" where
  "get_group_membership db membership_id = the_row (find (\<lambda>m. ug_id m = membership_id) (db_user_groups db))"

subsection \<open>Teams\<close>

definition team_in_groups :: "int list option \<Rightarrow> team_row \<Rightarrow> bool" where
  "team_in_groups group_ids t =
     (case group_ids of
        None \<Rightarrow> True
      | Some gs \<Rightarrow> (case t_group_id t of None \<Rightarrow> False | Some g \<Rightarrow> g \<in> set gs))"

definition list_teams :: "access_db \<Rightarrow> bool \<Rightarrow> int list option \<Rightarrow> bool \<Rightarrow> team_row list" where
  "list_teams db active_only group_ids include_deleted =
     filter (\<lambda>t. (include_deleted \<or> \<not> t_deleted t) \<and> team_in_groups group_ids t \<and> (active_only \<longrightarrow> t_active t))
       (sort_key t_id (db_teams db))"

text \<open>One result row per team and matching membership.\<close>

definition list_teams_for_user ::
  "access_db \<Rightarrow> int \<Rightarrow> string list option \<Rightarrow> int list option \<Rightarrow> bool \<Rightarrow> team_row list" where
  "list_teams_for_user db user_id roles group_ids active_only =
     concat (map (\<lambda>t. map (\<lambda>_. t)
         (filter (\<lambda>m. tu_team m = t_id t \<and> tu_user m = user_id \<and> tu_active m
                  \<and> (case roles of None \<Rightarrow> True | Some rs \<Rightarrow> tu_role m \<in> set rs))
           (db_team_users db)))
       (list_teams db active_only group_ids False))"

definition get_team :: "access_db \<Rightarrow> int \<Rightarrow> team_row dbr" where
  "get_team db team_id = the_row (find (\<lambda>t. t_id t = team_id \<and> \<not> t_deleted t) (db_teams db))"

definition get_user_team_role :: "access_db \<Rightarrow> int \<Rightarrow> int \<Rightarrow> string option" where
  "get_user_team_role db user_id team_id =
     map_option tu_role
       (find (\<lambda>m. tu_user m = user_id \<and> tu_team m = team_id \<and> tu_active m) (db_team_users db))"

definition list_team_users :: "access_db \<Rightarrow> int \<Rightarrow> team_user_row list" where
  "list_team_users db team_id = filter (\<lambda>m. tu_team m = team_id) (sort_key tu_id (db_team_users db))"

definition get_team_membership :: "access_db \<Rightarrow> int \<Rightarrow> team_user_row dbr" where
  "get_team_membership db membership_id = the_row (find (\<lambda>m. tu_id m = membership_id) (db_team_users db))"

subsection \<open>Users\<close>

definition get_user :: "access_db \<Rightarrow> int \<Rightarrow> bool \<Rightarrow> user_row dbr" where
  "get_user db user_id include_deleted =
     the_row (find (\<lambda>u. u_id u = user_id \<and> (include_deleted \<or> \<not> u_deleted u)) (db_users db))"

subsection \<open>Following a foreign key: \<open>row.group\<close>, \<open>row.team\<close>, \<open>row.user\<close>\<close>

definition group_of :: "access_db \<Rightarrow> int \<Rightarrow> group_row dbr" where
  "group_of db i = the_row (find (\<lambda>g. g_id g = i) (db_groups db))"

definition team_of :: "access_db \<Rightarrow> int \<Rightarrow> team_row dbr" where
  "team_of db i = the_row (find (\<lambda>t. t_id t = i) (db_teams db))"

definition user_of :: "access_db \<Rightarrow> int \<Rightarrow> user_row dbr" where
  "user_of db i = the_row (find (\<lambda>u. u_id u = i) (db_users db))"

section \<open>Well-formed databases\<close>

text \<open>Primary keys, unique indexes, foreign keys, and the role names the schemas admit.\<close>

definition keys_ok :: "access_db \<Rightarrow> bool" where
  "keys_ok db \<longleftrightarrow>
     distinct (map g_id (db_groups db)) \<and> distinct (map t_id (db_teams db)) \<and> distinct (map u_id (db_users db))
     \<and> distinct (map ug_id (db_user_groups db)) \<and> distinct (map tu_id (db_team_users db))
     \<and> distinct (map at_id (db_api_tokens db)) \<and> distinct (map rt_id (db_rotations db))
     \<and> distinct (map ly_id (db_rotation_layers db))
     \<and> 0 \<notin> g_id ` set (db_groups db) \<and> 0 \<notin> t_id ` set (db_teams db)"

definition unique_ok :: "access_db \<Rightarrow> bool" where
  "unique_ok db \<longleftrightarrow>
     distinct (map g_slug (db_groups db)) \<and> distinct (map t_slug (db_teams db))
     \<and> distinct (map u_username (db_users db)) \<and> distinct (map at_token_hash (db_api_tokens db))
     \<and> distinct (map (\<lambda>m. (ug_user m, ug_group m)) (db_user_groups db))
     \<and> distinct (map (\<lambda>m. (tu_team m, tu_user m)) (db_team_users db))"

definition refs_ok :: "access_db \<Rightarrow> bool" where
  "refs_ok db \<longleftrightarrow>
     (\<forall>m\<in>set (db_user_groups db). id_in u_id (db_users db) (ug_user m) \<and> id_in g_id (db_groups db) (ug_group m))
     \<and> (\<forall>m\<in>set (db_team_users db). id_in u_id (db_users db) (tu_user m) \<and> id_in t_id (db_teams db) (tu_team m))
     \<and> (\<forall>t\<in>set (db_teams db). fk_ok g_id (db_groups db) (t_group_id t))
     \<and> (\<forall>u\<in>set (db_users db). fk_ok g_id (db_groups db) (u_active_group_id u))"

definition roles_ok :: "access_db \<Rightarrow> bool" where
  "roles_ok db \<longleftrightarrow>
     (\<forall>m\<in>set (db_user_groups db). ug_role m \<in> set GROUP_ROLE_VALUES)
     \<and> (\<forall>m\<in>set (db_team_users db). tu_role m \<in> set TEAM_ROLE_VALUES)"

definition db_wf :: "access_db \<Rightarrow> bool" where
  "db_wf db \<longleftrightarrow> keys_ok db \<and> unique_ok db \<and> refs_ok db \<and> roles_ok db"

section \<open>Rows by key\<close>

lemma find_key_Some:
  assumes "distinct (map key rows)"
  shows "find (\<lambda>r. key r = k \<and> P r) rows = Some r \<longleftrightarrow> r \<in> set rows \<and> key r = k \<and> P r"
  using assms by (induction rows) (auto simp: image_iff)

lemma find_key_Some':
  assumes "distinct (map key rows)"
  shows "find (\<lambda>r. key r = k) rows = Some r \<longleftrightarrow> r \<in> set rows \<and> key r = k"
  using find_key_Some [OF assms, where P = "\<lambda>_. True"] by simp

lemma the_row_Inr [simp]: "the_row v = Inr x \<longleftrightarrow> v = Some x"
  by (cases v) (auto simp: the_row_def)

lemma the_row_Inl [simp]: "the_row v = Inl e \<longleftrightarrow> v = None \<and> e = DoesNotExist"
  by (cases v) (auto simp: the_row_def)

lemma get_team_Inr:
  "db_wf db \<Longrightarrow> get_team db i = Inr t \<longleftrightarrow> t \<in> set (db_teams db) \<and> t_id t = i \<and> \<not> t_deleted t"
  unfolding get_team_def the_row_Inr by (rule find_key_Some) (simp add: db_wf_def keys_ok_def)

lemma get_group_Inr:
  "db_wf db \<Longrightarrow> get_group db i = Inr g \<longleftrightarrow> g \<in> set (db_groups db) \<and> g_id g = i \<and> \<not> g_deleted g"
  unfolding get_group_def the_row_Inr by (rule find_key_Some) (simp add: db_wf_def keys_ok_def)

lemma get_group_membership_Inr:
  "db_wf db \<Longrightarrow> get_group_membership db i = Inr m \<longleftrightarrow> m \<in> set (db_user_groups db) \<and> ug_id m = i"
  unfolding get_group_membership_def the_row_Inr by (rule find_key_Some') (simp add: db_wf_def keys_ok_def)

lemma get_team_membership_Inr:
  "db_wf db \<Longrightarrow> get_team_membership db i = Inr m \<longleftrightarrow> m \<in> set (db_team_users db) \<and> tu_id m = i"
  unfolding get_team_membership_def the_row_Inr by (rule find_key_Some') (simp add: db_wf_def keys_ok_def)

lemma get_user_Inr:
  "db_wf db \<Longrightarrow> get_user db i d = Inr u \<longleftrightarrow> u \<in> set (db_users db) \<and> u_id u = i \<and> (d \<or> \<not> u_deleted u)"
  unfolding get_user_def the_row_Inr by (rule find_key_Some) (simp add: db_wf_def keys_ok_def)

lemma group_of_Inr: "db_wf db \<Longrightarrow> group_of db i = Inr g \<longleftrightarrow> g \<in> set (db_groups db) \<and> g_id g = i"
  unfolding group_of_def the_row_Inr by (rule find_key_Some') (simp add: db_wf_def keys_ok_def)

lemma team_of_Inr: "db_wf db \<Longrightarrow> team_of db i = Inr t \<longleftrightarrow> t \<in> set (db_teams db) \<and> t_id t = i"
  unfolding team_of_def the_row_Inr by (rule find_key_Some') (simp add: db_wf_def keys_ok_def)

lemma user_of_Inr: "db_wf db \<Longrightarrow> user_of db i = Inr u \<longleftrightarrow> u \<in> set (db_users db) \<and> u_id u = i"
  unfolding user_of_def the_row_Inr by (rule find_key_Some') (simp add: db_wf_def keys_ok_def)

lemmas row_by_key =
  get_team_Inr get_group_Inr get_group_membership_Inr get_team_membership_Inr get_user_Inr
  group_of_Inr team_of_Inr user_of_Inr

text \<open>The role of a user in a group or team is that of the one active membership row.\<close>

lemma get_user_group_role_Some:
  assumes "db_wf db"
  shows "get_user_group_role db u g = Some r \<longleftrightarrow>
    (\<exists>m\<in>set (db_user_groups db). ug_user m = u \<and> ug_group m = g \<and> ug_active m \<and> in_live_group db m \<and> ug_role m = r)"
proof -
  have "distinct (map (\<lambda>m. (ug_user m, ug_group m)) (db_user_groups db))"
    using assms by (simp add: db_wf_def unique_ok_def)
  from find_key_Some [OF this, where k = "(u, g)" and P = "\<lambda>m. ug_active m \<and> in_live_group db m"]
  show ?thesis
    by (auto simp: get_user_group_role_def)
qed

lemma get_user_team_role_Some:
  assumes "db_wf db"
  shows "get_user_team_role db u t = Some r \<longleftrightarrow>
    (\<exists>m\<in>set (db_team_users db). tu_user m = u \<and> tu_team m = t \<and> tu_active m \<and> tu_role m = r)"
proof -
  have "distinct (map (\<lambda>m. (tu_team m, tu_user m)) (db_team_users db))"
    using assms by (simp add: db_wf_def unique_ok_def)
  from find_key_Some [OF this, where k = "(t, u)" and P = tu_active]
  have "find (\<lambda>m. tu_user m = u \<and> tu_team m = t \<and> tu_active m) (db_team_users db) = Some m \<longleftrightarrow>
      m \<in> set (db_team_users db) \<and> (tu_team m, tu_user m) = (t, u) \<and> tu_active m" for m
    by (simp add: conj_ac)
  then show ?thesis
    by (auto simp: get_user_team_role_def)
qed

end
