(* ===== verification/Access_Writes.thy ===== *)
theory Access_Writes
  imports Access_Store
begin

text \<open>
  The repository functions that write the access-control tables
  (\<open>modules/db/groups_repo.py\<close>, \<open>teams_repo.py\<close>, \<open>users_repo.py\<close>,
  \<open>tokens_repo.py\<close>).
\<close>

section \<open>Groups\<close>

record group_patch =
  gp_slug :: "string option"
  gp_name :: "string option"
  gp_description :: "string option option"
  gp_active :: "bool option"

definition slug_taken :: "('r \<Rightarrow> int) \<Rightarrow> ('r \<Rightarrow> string) \<Rightarrow> 'r list \<Rightarrow> int option \<Rightarrow> string \<Rightarrow> bool" where
  "slug_taken key slug rows self s \<longleftrightarrow> (\<exists>r\<in>set rows. slug r = s \<and> Some (key r) \<noteq> self)"

definition create_group :: "access_env \<Rightarrow> string \<Rightarrow> string \<Rightarrow> string option \<Rightarrow> bool \<Rightarrow> group_row dbm" where
  "create_group env slug name description active db =
     (case find (\<lambda>g. g_slug g = slug) (db_groups db) of
        Some existing \<Rightarrow>
          if g_deleted existing
          then let g = existing\<lparr>g_name := name, g_description := description, g_active := active,
                                g_deleted := False, g_deleted_at := None\<rparr>
               in (Inr g, db\<lparr>db_groups := update_row g_id g (db_groups db)\<rparr>)
          else (Inl (IntegrityError ''slug''), db)
      | None \<Rightarrow>
          let g = \<lparr>g_id = env_new_id env (map g_id (db_groups db)), g_slug = slug, g_name = name,
                   g_description = description, g_active = active, g_deleted = False, g_deleted_at = None\<rparr>
          in (Inr g, db\<lparr>db_groups := db_groups db @ [g]\<rparr>))"

definition apply_group_patch :: "group_patch \<Rightarrow> group_row \<Rightarrow> group_row" where
  "apply_group_patch data g =
     g\<lparr>g_slug := present (gp_slug data) (g_slug g), g_name := present (gp_name data) (g_name g),
       g_description := present (gp_description data) (g_description g),
       g_active := present (gp_active data) (g_active g)\<rparr>"

definition update_group :: "int \<Rightarrow> group_patch \<Rightarrow> group_row dbm" where
  "update_group group_id data db =
     (case get_group db group_id of
        Inl e \<Rightarrow> (Inl e, db)
      | Inr old \<Rightarrow>
          let g = apply_group_patch data old in
          if slug_taken g_id g_slug (db_groups db) (Some (g_id g)) (g_slug g) then (Inl (IntegrityError ''slug''), db)
          else (Inr g, db\<lparr>db_groups := update_row g_id g (db_groups db)\<rparr>))"

definition add_user_to_group :: "access_env \<Rightarrow> int \<Rightarrow> int \<Rightarrow> string \<Rightarrow> bool \<Rightarrow> user_group_row dbm" where
  "add_user_to_group env user_id group_id role active db =
     (case find (\<lambda>m. ug_user m = user_id \<and> ug_group m = group_id) (db_user_groups db) of
        Some old \<Rightarrow>
          let m = old\<lparr>ug_role := role, ug_active := active\<rparr>
          in (Inr m, db\<lparr>db_user_groups := update_row ug_id m (db_user_groups db)\<rparr>)
      | None \<Rightarrow>
          if id_in u_id (db_users db) user_id \<and> id_in g_id (db_groups db) group_id
          then let m = \<lparr>ug_id = env_new_id env (map ug_id (db_user_groups db)), ug_user = user_id,
                        ug_group = group_id, ug_role = role, ug_active = active\<rparr>
               in (Inr m, db\<lparr>db_user_groups := db_user_groups db @ [m]\<rparr>)
          else (Inl (IntegrityError ''foreign key''), db))"

definition update_group_membership :: "int \<Rightarrow> string \<Rightarrow> bool \<Rightarrow> user_group_row dbm" where
  "update_group_membership membership_id role active db =
     (case get_group_membership db membership_id of
        Inl e \<Rightarrow> (Inl e, db)
      | Inr old \<Rightarrow>
          let m = old\<lparr>ug_role := role, ug_active := active\<rparr>
          in (Inr m, db\<lparr>db_user_groups := update_row ug_id m (db_user_groups db)\<rparr>))"

section \<open>Rotation rows of a removed member\<close>

definition team_rotation_ids :: "access_db \<Rightarrow> int set \<Rightarrow> int set" where
  "team_rotation_ids db teams = rt_id ` Set.filter (\<lambda>r. rt_team r \<in> teams) (set (db_rotations db))"

definition rotation_layer_ids :: "access_db \<Rightarrow> int set \<Rightarrow> int set" where
  "rotation_layer_ids db rotations = ly_id ` Set.filter (\<lambda>l. ly_rotation l \<in> rotations) (set (db_rotation_layers db))"

definition of_member :: "int \<Rightarrow> int set \<Rightarrow> rotation_member_row \<Rightarrow> bool" where
  "of_member user_id rotations r \<longleftrightarrow> rm_user r = user_id \<and> rm_rotation r \<in> rotations"

definition of_layer_member :: "int \<Rightarrow> int set \<Rightarrow> layer_member_row \<Rightarrow> bool" where
  "of_layer_member user_id layers r \<longleftrightarrow> lm_user r = user_id \<and> lm_layer r \<in> layers"

definition of_override :: "int \<Rightarrow> int set \<Rightarrow> override_row \<Rightarrow> bool" where
  "of_override user_id rotations r \<longleftrightarrow> ov_user r = user_id \<and> ov_rotation r \<in> rotations"

definition count_rows :: "('r \<Rightarrow> bool) \<Rightarrow> 'r list \<Rightarrow> py" where
  "count_rows P rows = PInt (int (length (filter P rows)))"

text \<open>The \<open>DELETE\<close> statements shared by the removals from a team and from a group.\<close>

definition delete_from_rotations :: "int \<Rightarrow> int set \<Rightarrow> access_db \<Rightarrow> access_db" where
  "delete_from_rotations user_id teams db =
     (let rotations = team_rotation_ids db teams; layers = rotation_layer_ids db rotations
      in db\<lparr>db_rotation_members := filter (\<lambda>r. \<not> of_member user_id rotations r) (db_rotation_members db),
            db_layer_members := filter (\<lambda>r. \<not> of_layer_member user_id layers r) (db_layer_members db),
            db_overrides := filter (\<lambda>r. \<not> of_override user_id rotations r) (db_overrides db)\<rparr>)"

definition deactivate_user_in_team_rotations :: "int \<Rightarrow> int \<Rightarrow> pydict dbm" where
  "deactivate_user_in_team_rotations team_id user_id db =
     (let rotations = team_rotation_ids db {team_id}; layers = rotation_layer_ids db rotations
      in (Inr [(''disabled_rotation_members'',
                count_rows (\<lambda>r. of_member user_id rotations r \<and> rm_active r) (db_rotation_members db)),
               (''disabled_rotation_layer_members'',
                count_rows (\<lambda>r. of_layer_member user_id layers r \<and> lm_active r) (db_layer_members db)),
               (''removed_rotation_overrides'', count_rows (of_override user_id rotations) (db_overrides db))],
          db\<lparr>db_layer_members := map (\<lambda>r. if of_layer_member user_id layers r then r\<lparr>lm_active := False\<rparr> else r)
                                   (db_layer_members db),
             db_rotation_members := map (\<lambda>r. if of_member user_id rotations r then r\<lparr>rm_active := False\<rparr> else r)
                                      (db_rotation_members db),
             db_overrides := filter (\<lambda>r. \<not> of_override user_id rotations r) (db_overrides db)\<rparr>))"

definition delete_group_membership :: "int \<Rightarrow> pydict dbm" where
  "delete_group_membership membership_id =
     db_bind (db_read (\<lambda>db. get_group_membership db membership_id)) (\<lambda>membership.
     db_bind (db_read (\<lambda>db. group_of db (ug_group membership))) (\<lambda>g.
     db_bind (db_read (\<lambda>db. user_of db (ug_user membership))) (\<lambda>u.
     db_bind (db_read (\<lambda>db. Inr db)) (\<lambda>db.
       let group_id = g_id g; user_id = u_id u;
           teams = t_id ` Set.filter (\<lambda>t. t_group_id t = Some group_id) (set (db_teams db));
           rotations = team_rotation_ids db teams; layers = rotation_layer_ids db rotations;
           in_team = (\<lambda>m. tu_user m = user_id \<and> tu_team m \<in> teams)
       in db_bind (atomic (db_write (\<lambda>s.
                (delete_from_rotations user_id teams s)
                  \<lparr>db_team_users := filter (\<lambda>m. \<not> in_team m) (db_team_users s),
                   db_user_groups := filter (\<lambda>m. ug_id m \<noteq> membership_id) (db_user_groups s)\<rparr>)))
            (\<lambda>_. db_return
              [(''id'', PInt membership_id), (''group_id'', PInt group_id), (''user_id'', PInt user_id),
               (''removed_rotation_members'', count_rows (of_member user_id rotations) (db_rotation_members db)),
               (''removed_rotation_layer_members'', count_rows (of_layer_member user_id layers) (db_layer_members db)),
               (''removed_rotation_overrides'', count_rows (of_override user_id rotations) (db_overrides db)),
               (''removed_team_memberships'', count_rows in_team (db_team_users db))])))))"

section \<open>Teams\<close>

record team_patch =
  tp_group :: "int option option"
  tp_slug :: "string option"
  tp_name :: "string option"
  tp_description :: "string option option"
  tp_escalation_enabled :: "bool option"
  tp_escalation_after_reminders :: "int option"
  tp_active :: "bool option"

definition create_team ::
  "access_env \<Rightarrow> string \<Rightarrow> string \<Rightarrow> string option \<Rightarrow> bool \<Rightarrow> int \<Rightarrow> int option \<Rightarrow> bool \<Rightarrow> team_row dbm" where
  "create_team env slug name description escalation_enabled escalation_after_reminders group_id active db =
     (case find (\<lambda>t. t_slug t = slug) (db_teams db) of
        Some existing \<Rightarrow>
          if t_deleted existing \<and> t_group_id existing = group_id
          then let t = existing\<lparr>t_name := name, t_description := description,
                                t_escalation_enabled := escalation_enabled,
                                t_escalation_after_reminders := escalation_after_reminders,
                                t_active := active, t_deleted := False, t_deleted_at := None\<rparr>
               in (Inr t, db\<lparr>db_teams := update_row t_id t (db_teams db)\<rparr>)
          else (Inl (IntegrityError ''slug''), db)
      | None \<Rightarrow>
          if fk_ok g_id (db_groups db) group_id
          then let t = \<lparr>t_id = env_new_id env (map t_id (db_teams db)), t_group_id = group_id, t_slug = slug,
                        t_name = name, t_description = description, t_escalation_enabled = escalation_enabled,
                        t_escalation_after_reminders = escalation_after_reminders, t_active = active,
                        t_deleted = False, t_deleted_at = None\<rparr>
               in (Inr t, db\<lparr>db_teams := db_teams db @ [t]\<rparr>)
          else (Inl (IntegrityError ''foreign key''), db))"

definition apply_team_patch :: "team_patch \<Rightarrow> team_row \<Rightarrow> team_row" where
  "apply_team_patch data t =
     t\<lparr>t_group_id := present (tp_group data) (t_group_id t), t_slug := present (tp_slug data) (t_slug t),
       t_name := present (tp_name data) (t_name t),
       t_description := present (tp_description data) (t_description t),
       t_escalation_enabled := present (tp_escalation_enabled data) (t_escalation_enabled t),
       t_escalation_after_reminders := present (tp_escalation_after_reminders data) (t_escalation_after_reminders t),
       t_active := present (tp_active data) (t_active t)\<rparr>"

definition update_team :: "int \<Rightarrow> team_patch \<Rightarrow> team_row dbm" where
  "update_team team_id data db =
     (case get_team db team_id of
        Inl e \<Rightarrow> (Inl e, db)
      | Inr old \<Rightarrow>
          let t = apply_team_patch data old in
          if slug_taken t_id t_slug (db_teams db) (Some (t_id t)) (t_slug t) then (Inl (IntegrityError ''slug''), db)
          else if \<not> fk_ok g_id (db_groups db) (t_group_id t) then (Inl (IntegrityError ''foreign key''), db)
          else (Inr t, db\<lparr>db_teams := update_row t_id t (db_teams db)\<rparr>))"

text \<open>\<open>TeamUser.get_or_create\<close>, then the new role and activity for a row that was there.\<close>

definition put_team_membership :: "access_env \<Rightarrow> int \<Rightarrow> int \<Rightarrow> string \<Rightarrow> bool \<Rightarrow> team_user_row dbm" where
  "put_team_membership env team_id user_id role active db =
     (case find (\<lambda>m. tu_team m = team_id \<and> tu_user m = user_id) (db_team_users db) of
        Some old \<Rightarrow>
          let m = old\<lparr>tu_role := role, tu_active := active\<rparr>
          in (Inr m, db\<lparr>db_team_users := update_row tu_id m (db_team_users db)\<rparr>)
      | None \<Rightarrow>
          if id_in u_id (db_users db) user_id \<and> id_in t_id (db_teams db) team_id
          then let m = \<lparr>tu_id = env_new_id env (map tu_id (db_team_users db)), tu_team = team_id,
                        tu_user = user_id, tu_role = role, tu_active = active\<rparr>
               in (Inr m, db\<lparr>db_team_users := db_team_users db @ [m]\<rparr>)
          else (Inl (IntegrityError ''foreign key''), db))"

definition add_user_to_team :: "access_env \<Rightarrow> int \<Rightarrow> int \<Rightarrow> string \<Rightarrow> bool \<Rightarrow> team_user_row dbm" where
  "add_user_to_team env team_id user_id role active =
     db_bind (put_team_membership env team_id user_id role active) (\<lambda>membership.
     if active then db_return membership
     else db_bind (db_read (\<lambda>db. team_of db (tu_team membership))) (\<lambda>t.
          db_bind (db_read (\<lambda>db. user_of db (tu_user membership))) (\<lambda>u.
          db_bind (deactivate_user_in_team_rotations (t_id t) (u_id u)) (\<lambda>_. db_return membership))))"

definition update_team_membership :: "int \<Rightarrow> string \<Rightarrow> bool \<Rightarrow> team_user_row dbm" where
  "update_team_membership membership_id role active =
     db_bind (db_read (\<lambda>db. get_team_membership db membership_id)) (\<lambda>old.
       let membership = old\<lparr>tu_role := role, tu_active := active\<rparr> in
       atomic (db_bind (db_write (\<lambda>db. db\<lparr>db_team_users := update_row tu_id membership (db_team_users db)\<rparr>)) (\<lambda>_.
         if active then db_return membership
         else db_bind (db_read (\<lambda>db. team_of db (tu_team membership))) (\<lambda>t.
              db_bind (db_read (\<lambda>db. user_of db (tu_user membership))) (\<lambda>u.
              db_bind (deactivate_user_in_team_rotations (t_id t) (u_id u)) (\<lambda>_. db_return membership))))))"

definition delete_team_membership :: "int \<Rightarrow> pydict dbm" where
  "delete_team_membership membership_id =
     db_bind (db_read (\<lambda>db. get_team_membership db membership_id)) (\<lambda>membership.
     db_bind (db_read (\<lambda>db. team_of db (tu_team membership))) (\<lambda>t.
     db_bind (db_read (\<lambda>db. user_of db (tu_user membership))) (\<lambda>u.
     db_bind (db_read (\<lambda>db. Inr db)) (\<lambda>db.
       let team_id = t_id t; user_id = u_id u;
           rotations = team_rotation_ids db {team_id}; layers = rotation_layer_ids db rotations
       in db_bind (atomic (db_write (\<lambda>s.
                (delete_from_rotations user_id {team_id} s)
                  \<lparr>db_team_users := filter (\<lambda>m. tu_id m \<noteq> membership_id) (db_team_users s)\<rparr>)))
            (\<lambda>_. db_return
              [(''id'', PInt membership_id), (''team_id'', PInt team_id),
               (''group_id'', (case t_group_id t of None \<Rightarrow> PNone | Some g \<Rightarrow> PInt g)),
               (''user_id'', PInt user_id),
               (''removed_rotation_members'', count_rows (of_member user_id rotations) (db_rotation_members db)),
               (''removed_rotation_layer_members'', count_rows (of_layer_member user_id layers) (db_layer_members db)),
               (''removed_rotation_overrides'', count_rows (of_override user_id rotations) (db_overrides db))])))))"

section \<open>Users\<close>

text \<open>The keyword arguments of \<open>create_user\<close>; the views pass no others. \<open>nu_password_hash = None\<close>: the key is absent.\<close>

record new_user =
  nu_username :: string
  nu_display_name :: "string option"
  nu_email :: "string option"
  nu_phone :: "string option"
  nu_telegram_user_id :: "string option"
  nu_slack_user_id :: "string option"
  nu_mattermost_user_id :: "string option"
  nu_password_hash :: "string option"
  nu_active :: bool
  nu_is_admin :: bool

definition restore_user :: "int \<Rightarrow> new_user \<Rightarrow> user_row dbm" where
  "restore_user user_id kwargs db =
     (case get_user db user_id True of
        Inl e \<Rightarrow> (Inl e, db)
      | Inr old \<Rightarrow>
          if \<not> u_deleted old then (Inr old, db)
          else
            let u = old\<lparr>u_username := nu_username kwargs, u_display_name := nu_display_name kwargs,
                        u_email := nu_email kwargs, u_phone := nu_phone kwargs,
                        u_telegram_user_id := nu_telegram_user_id kwargs,
                        u_slack_user_id := nu_slack_user_id kwargs,
                        u_mattermost_user_id := nu_mattermost_user_id kwargs,
                        u_password_hash := (case nu_password_hash kwargs of None \<Rightarrow> u_password_hash old | Some h \<Rightarrow> Some h),
                        u_is_admin := nu_is_admin kwargs, u_active := nu_active kwargs,
                        u_deleted := False, u_deleted_at := None, u_active_group_id := None\<rparr>
            in (Inr u, db\<lparr>db_sso_identities := filter (\<lambda>i. i \<noteq> u_id old) (db_sso_identities db),
                           db_users := update_row u_id u (db_users db)\<rparr>))"

definition new_user_row :: "int \<Rightarrow> new_user \<Rightarrow> user_row" where
  "new_user_row i kwargs =
     \<lparr>u_id = i, u_username = nu_username kwargs, u_display_name = nu_display_name kwargs,
      u_email = nu_email kwargs, u_phone = nu_phone kwargs, u_timezone = None, u_locale = None,
      u_theme = ''system'', u_telegram_user_id = nu_telegram_user_id kwargs,
      u_slack_user_id = nu_slack_user_id kwargs, u_mattermost_user_id = nu_mattermost_user_id kwargs,
      u_notify_start_email = True, u_notify_end_email = True, u_notify_start_mattermost = True,
      u_password_hash = nu_password_hash kwargs, u_active = nu_active kwargs,
      u_is_admin = nu_is_admin kwargs, u_active_group_id = None, u_deleted = False, u_deleted_at = None\<rparr>"

definition create_user :: "access_env \<Rightarrow> new_user \<Rightarrow> user_row dbm" where
  "create_user env kwargs db =
     (let create =
          (if nu_username kwargs \<in> u_username ` set (db_users db) then (Inl (IntegrityError ''username''), db)
           else let u = new_user_row (env_new_id env (map u_id (db_users db))) kwargs
                in (Inr u, db\<lparr>db_users := db_users db @ [u]\<rparr>))
      in if nu_username kwargs = [] then create
         else (case find (\<lambda>u. u_username u = nu_username kwargs) (db_users db) of
                 None \<Rightarrow> create
               | Some existing \<Rightarrow> if u_deleted existing then restore_user (u_id existing) kwargs db else create))"

definition set_active_group :: "int \<Rightarrow> int option \<Rightarrow> user_row dbm" where
  "set_active_group user_id group_id db =
     (case get_user db user_id False of
        Inl e \<Rightarrow> (Inl e, db)
      | Inr old \<Rightarrow>
          if \<not> fk_ok g_id (db_groups db) group_id then (Inl (IntegrityError ''foreign key''), db)
          else let u = old\<lparr>u_active_group_id := group_id\<rparr>
               in (Inr u, db\<lparr>db_users := update_row u_id u (db_users db)\<rparr>))"

section \<open>API tokens\<close>

definition create_token ::
  "access_env \<Rightarrow> string \<Rightarrow> string \<Rightarrow> string \<Rightarrow> string list \<Rightarrow> int option \<Rightarrow> int option \<Rightarrow> int option \<Rightarrow> int option
   \<Rightarrow> api_token_row dbm" where
  "create_token env name token_prefix token_hash scopes team grp user expires_at db =
     (if token_hash \<in> at_token_hash ` set (db_api_tokens db) then (Inl (IntegrityError ''token_hash''), db)
      else if \<not> (fk_ok t_id (db_teams db) team \<and> fk_ok g_id (db_groups db) grp \<and> fk_ok u_id (db_users db) user)
      then (Inl (IntegrityError ''foreign key''), db)
      else let t = \<lparr>at_id = env_new_id env (map at_id (db_api_tokens db)), at_user_id = user, at_group_id = grp,
                    at_team_id = team, at_name = name, at_token_prefix = token_prefix, at_token_hash = token_hash,
                    at_scopes = scopes, at_expires_at = expires_at, at_active = True, at_deleted = False\<rparr>
           in (Inr t, db\<lparr>db_api_tokens := db_api_tokens db @ [t]\<rparr>))"

definition get_user_token :: "access_db \<Rightarrow> int \<Rightarrow> int \<Rightarrow> api_token_row option" where
  "get_user_token db token_id user_id =
     find (\<lambda>t. at_id t = token_id \<and> at_user_id t = Some user_id \<and> \<not> at_deleted t) (db_api_tokens db)"

definition revoke_user_token :: "int \<Rightarrow> int \<Rightarrow> api_token_row option dbm" where
  "revoke_user_token token_id user_id db =
     (case get_user_token db token_id user_id of
        None \<Rightarrow> (Inr None, db)
      | Some old \<Rightarrow>
          let t = old\<lparr>at_active := False, at_deleted := True\<rparr>
          in (Inr (Some t), db\<lparr>db_api_tokens := update_row at_id t (db_api_tokens db)\<rparr>))"

end
