(* ===== verification/Rbac.thy ===== *)
theory Rbac
  imports Access_Store
begin

text \<open>
  Role-based access control (\<open>services/rbac.py\<close>): who may read, respond to, write and
  administer groups and teams, as questions about one user (\<open>can_*\<close>), as lists of ids
  (\<open>get_allowed_*\<close>), and as guards of a request (\<open>require_*\<close>: an error response or
  nothing).

  The request context holds the authenticated user and API token, when there are any. A
  \<open>user\<close> argument that is \<open>None\<close> falls back on the context. A question about a team may
  raise: \<open>get_team\<close> raises when the team does not exist or is deleted.
\<close>

section \<open>The request\<close>

record request_ctx =
  rq_user :: "user_row option"
  rq_token :: "api_token_row option"

definition current_user :: "request_ctx \<Rightarrow> user_row option \<Rightarrow> user_row option" where
  "current_user c user = (case user of None \<Rightarrow> rq_user c | Some u \<Rightarrow> Some u)"

definition is_admin_user :: "request_ctx \<Rightarrow> user_row option \<Rightarrow> bool" where
  "is_admin_user c user = (case current_user c user of None \<Rightarrow> False | Some u \<Rightarrow> u_is_admin u)"

section \<open>Roles\<close>

definition GROUP_READ_ROLES :: "string list" where
  "GROUP_READ_ROLES = [GROUP_VIEWER_ROLE, GROUP_EDITOR_ROLE, GROUP_USER_ADMIN_ROLE]"
definition GROUP_WRITE_ROLES :: "string list" where
  "GROUP_WRITE_ROLES = [GROUP_EDITOR_ROLE, GROUP_USER_ADMIN_ROLE]"
definition GROUP_USER_ADMIN_ROLES :: "string list" where
  "GROUP_USER_ADMIN_ROLES = [GROUP_USER_ADMIN_ROLE]"
definition TEAM_READ_ROLES :: "string list" where
  "TEAM_READ_ROLES = [TEAM_VIEWER_ROLE, TEAM_RESPONDER_ROLE, TEAM_MANAGER_ROLE]"
definition TEAM_RESPOND_ROLES :: "string list" where
  "TEAM_RESPOND_ROLES = [TEAM_RESPONDER_ROLE, TEAM_MANAGER_ROLE]"
definition TEAM_WRITE_ROLES :: "string list" where
  "TEAM_WRITE_ROLES = [TEAM_MANAGER_ROLE]"

text \<open>\<open>role in ROLES\<close> for a role that may be \<open>None\<close>.\<close>

definition role_in :: "string option \<Rightarrow> string list \<Rightarrow> bool" where
  "role_in role roles = (case role of None \<Rightarrow> False | Some r \<Rightarrow> r \<in> set roles)"

section \<open>Listing\<close>

text \<open>A foreign key is truthy when it is set and not 0.\<close>

definition fk_truthy :: "int option \<Rightarrow> int option" where
  "fk_truthy ref = (case ref of None \<Rightarrow> None | Some i \<Rightarrow> if i = 0 then None else Some i)"

definition token_group :: "request_ctx \<Rightarrow> int option" where
  "token_group c = (case rq_token c of None \<Rightarrow> None | Some t \<Rightarrow> fk_truthy (at_group_id t))"

definition token_group_filter :: "request_ctx \<Rightarrow> int list \<Rightarrow> int list" where
  "token_group_filter c group_ids =
     (case token_group c of None \<Rightarrow> group_ids | Some g \<Rightarrow> filter (\<lambda>i. i = g) group_ids)"

definition get_allowed_group_ids ::
  "access_db \<Rightarrow> request_ctx \<Rightarrow> user_row option \<Rightarrow> bool \<Rightarrow> bool \<Rightarrow> bool \<Rightarrow> int list" where
  "get_allowed_group_ids db c user write_required manage_users_required use_active_group =
     (case current_user c user of
        None \<Rightarrow> (case token_group c of None \<Rightarrow> [] | Some g \<Rightarrow> [g])
      | Some u \<Rightarrow>
          if u_is_admin u then token_group_filter c (map g_id (list_groups db True False))
          else
            let group_ids = list_groups_for_user db (Some u) write_required manage_users_required
            in case fk_truthy (u_active_group_id u) of
                 None \<Rightarrow> token_group_filter c group_ids
               | Some g \<Rightarrow>
                   if use_active_group \<and> g \<in> set group_ids then token_group_filter c [g]
                   else token_group_filter c group_ids)"

definition get_managed_group_ids :: "access_db \<Rightarrow> request_ctx \<Rightarrow> user_row option \<Rightarrow> bool \<Rightarrow> int list" where
  "get_managed_group_ids db c user use_active_group = get_allowed_group_ids db c user False True use_active_group"

definition get_allowed_team_ids ::
  "access_db \<Rightarrow> request_ctx \<Rightarrow> user_row option \<Rightarrow> bool \<Rightarrow> bool \<Rightarrow> bool \<Rightarrow> bool \<Rightarrow> int list" where
  "get_allowed_team_ids db c user write_required respond_required use_active_group active_only =
     (let user = current_user c user;
          group_ids = get_allowed_group_ids db c user False False use_active_group
      in if group_ids = [] then []
         else case user of
           None \<Rightarrow> map t_id (list_teams db active_only (Some group_ids) False)
         | Some u \<Rightarrow>
             if u_is_admin u then map t_id (list_teams db active_only (Some group_ids) False)
             else
               let managed_group_ids = get_managed_group_ids db c user use_active_group;
                   managed_team_ids = map t_id (list_teams db active_only (Some managed_group_ids) False);
                   roles = (if write_required then TEAM_WRITE_ROLES
                            else if respond_required then TEAM_RESPOND_ROLES else TEAM_READ_ROLES);
                   member_team_ids =
                     map t_id (list_teams_for_user db (u_id u) (Some roles) (Some group_ids) active_only)
               in sorted_list_of_set (set managed_team_ids \<union> set member_team_ids))"

definition get_allowed_oncall_team_ids ::
  "access_db \<Rightarrow> request_ctx \<Rightarrow> user_row option \<Rightarrow> bool \<Rightarrow> bool \<Rightarrow> int list" where
  "get_allowed_oncall_team_ids db c user use_active_group active_only =
     (let group_ids = get_allowed_group_ids db c (current_user c user) False False use_active_group
      in if group_ids = [] then [] else map t_id (list_teams db active_only (Some group_ids) False))"

definition get_allowed_team_or_group_resource_ids ::
  "access_db \<Rightarrow> request_ctx \<Rightarrow> user_row option \<Rightarrow> bool \<Rightarrow> bool \<Rightarrow> bool \<Rightarrow> int list" where
  "get_allowed_team_or_group_resource_ids db c user write_required use_active_group active_only =
     (let user = current_user c user;
          team_ids = get_allowed_team_ids db c user write_required False use_active_group active_only;
          group_ids = get_allowed_group_ids db c user True False use_active_group
      in sorted_list_of_set
           (set team_ids \<union> set (map t_id (list_teams db active_only (Some group_ids) False))))"

section \<open>Checking\<close>

definition can_read_group :: "access_db \<Rightarrow> user_row option \<Rightarrow> int \<Rightarrow> bool" where
  "can_read_group db user group_id =
     (case user of
        None \<Rightarrow> False
      | Some u \<Rightarrow> u_is_admin u \<or> role_in (get_user_group_role db (u_id u) group_id) GROUP_READ_ROLES)"

definition can_write_group :: "access_db \<Rightarrow> user_row option \<Rightarrow> int \<Rightarrow> bool" where
  "can_write_group db user group_id =
     (case user of
        None \<Rightarrow> False
      | Some u \<Rightarrow> u_is_admin u \<or> role_in (get_user_group_role db (u_id u) group_id) GROUP_WRITE_ROLES)"

definition can_manage_group_users :: "access_db \<Rightarrow> user_row option \<Rightarrow> int \<Rightarrow> bool" where
  "can_manage_group_users db user group_id =
     (case user of
        None \<Rightarrow> False
      | Some u \<Rightarrow> u_is_admin u \<or> role_in (get_user_group_role db (u_id u) group_id) GROUP_USER_ADMIN_ROLES)"

definition can_read_team :: "access_db \<Rightarrow> user_row option \<Rightarrow> int \<Rightarrow> bool dbr" where
  "can_read_team db user team_id =
     (case user of
        None \<Rightarrow> Inr False
      | Some u \<Rightarrow>
          if u_is_admin u then Inr True
          else res_bind (get_team db team_id) (\<lambda>team.
            case fk_truthy (t_group_id team) of
              None \<Rightarrow> Inr False
            | Some g \<Rightarrow>
                Inr (if can_manage_group_users db user g then True
                     else if \<not> can_read_group db user g then False
                     else role_in (get_user_team_role db (u_id u) team_id) TEAM_READ_ROLES)))"

definition can_view_team_oncall :: "access_db \<Rightarrow> user_row option \<Rightarrow> int \<Rightarrow> bool dbr" where
  "can_view_team_oncall db user team_id =
     (case user of
        None \<Rightarrow> Inr False
      | Some u \<Rightarrow>
          if u_is_admin u then Inr True
          else res_bind (get_team db team_id) (\<lambda>team.
            case fk_truthy (t_group_id team) of
              None \<Rightarrow> Inr False
            | Some g \<Rightarrow> Inr (can_read_group db user g)))"

definition can_respond_team :: "access_db \<Rightarrow> user_row option \<Rightarrow> int \<Rightarrow> bool dbr" where
  "can_respond_team db user team_id =
     (case user of
        None \<Rightarrow> Inr False
      | Some u \<Rightarrow>
          if u_is_admin u then Inr True
          else res_bind (get_team db team_id) (\<lambda>team.
            case fk_truthy (t_group_id team) of
              None \<Rightarrow> Inr False
            | Some g \<Rightarrow>
                Inr (if \<not> can_read_group db user g then False
                     else role_in (get_user_team_role db (u_id u) team_id) TEAM_RESPOND_ROLES)))"

definition can_write_team :: "access_db \<Rightarrow> user_row option \<Rightarrow> int \<Rightarrow> bool dbr" where
  "can_write_team db user team_id =
     (case user of
        None \<Rightarrow> Inr False
      | Some u \<Rightarrow>
          if u_is_admin u then Inr True
          else res_bind (get_team db team_id) (\<lambda>team.
            case fk_truthy (t_group_id team) of
              None \<Rightarrow> Inr False
            | Some g \<Rightarrow>
                Inr (if \<not> can_read_group db user g then False
                     else if can_manage_group_users db user g then True
                     else role_in (get_user_team_role db (u_id u) team_id) TEAM_WRITE_ROLES)))"

definition can_manage_team_users :: "access_db \<Rightarrow> user_row option \<Rightarrow> int \<Rightarrow> bool dbr" where
  "can_manage_team_users db user team_id =
     (case user of
        None \<Rightarrow> Inr False
      | Some u \<Rightarrow>
          if u_is_admin u then Inr True
          else res_bind (get_team db team_id) (\<lambda>team.
            case fk_truthy (t_group_id team) of
              None \<Rightarrow> Inr False
            | Some g \<Rightarrow>
                Inr (if can_manage_group_users db user g then True
                     else if \<not> can_read_group db user g then False
                     else get_user_team_role db (u_id u) team_id = Some TEAM_MANAGER_ROLE)))"

definition can_access_team_or_group_resource :: "access_db \<Rightarrow> user_row option \<Rightarrow> int \<Rightarrow> bool \<Rightarrow> bool dbr" where
  "can_access_team_or_group_resource db user team_id write_required =
     (case user of
        None \<Rightarrow> Inr False
      | Some u \<Rightarrow>
          res_bind (if write_required then can_write_team db user team_id else can_read_team db user team_id)
            (\<lambda>allowed.
              if allowed then Inr True
              else res_bind (get_team db team_id) (\<lambda>team.
                case fk_truthy (t_group_id team) of
                  None \<Rightarrow> Inr False
                | Some g \<Rightarrow> Inr (can_write_group db user g))))"

definition can_assign_group_role :: "request_ctx \<Rightarrow> string \<Rightarrow> user_row option \<Rightarrow> bool" where
  "can_assign_group_role c role user \<longleftrightarrow> is_admin_user c user \<or> role \<noteq> GROUP_USER_ADMIN_ROLE"

subsection \<open>Audit log\<close>

definition get_audit_log_group_ids :: "access_db \<Rightarrow> request_ctx \<Rightarrow> user_row option \<Rightarrow> int list option" where
  "get_audit_log_group_ids db c user =
     (case current_user c user of
        None \<Rightarrow> Some []
      | Some u \<Rightarrow>
          if u_is_admin u then None
          else Some (sorted_list_of_set (ug_group ` set
                 (filter (\<lambda>m. ug_user m = u_id u \<and> ug_role m = GROUP_EDITOR_ROLE \<and> ug_active m \<and> in_live_group db m)
                   (db_user_groups db)))))"

definition can_read_audit_logs :: "access_db \<Rightarrow> request_ctx \<Rightarrow> user_row option \<Rightarrow> bool" where
  "can_read_audit_logs db c user = (case get_audit_log_group_ids db c user of None \<Rightarrow> True | Some ids \<Rightarrow> ids \<noteq> [])"

section \<open>Guards\<close>

type_synonym response = "py \<times> int"

definition error_message :: "string \<Rightarrow> string \<Rightarrow> int \<Rightarrow> response" where
  "error_message err message status = (PDict [(''error'', PStr err), (''message'', PStr message)], status)"

definition error_only :: "string \<Rightarrow> int \<Rightarrow> response" where
  "error_only err status = (PDict [(''error'', PStr err)], status)"

definition require_admin_user :: "request_ctx \<Rightarrow> response option" where
  "require_admin_user c =
     (case rq_user c of
        None \<Rightarrow> Some (error_message ''admin_required'' ''Admin role is required'' 403)
      | Some u \<Rightarrow>
          if u_is_admin u then None else Some (error_message ''admin_required'' ''Admin role is required'' 403))"

definition require_group_read :: "access_db \<Rightarrow> request_ctx \<Rightarrow> int \<Rightarrow> response option" where
  "require_group_read db c group_id =
     (if group_id \<notin> set (get_allowed_group_ids db c None False False False)
      then Some (error_message ''group_access_denied'' ''Access to this group is denied'' 403) else None)"

definition require_group_write :: "access_db \<Rightarrow> request_ctx \<Rightarrow> int \<Rightarrow> response option" where
  "require_group_write db c group_id =
     (if is_admin_user c None then None
      else if \<not> can_write_group db (rq_user c) group_id
      then Some (error_message ''group_write_required'' ''Group editor or group admin role is required for this group'' 403)
      else None)"

definition require_group_user_admin :: "access_db \<Rightarrow> request_ctx \<Rightarrow> int \<Rightarrow> response option" where
  "require_group_user_admin db c group_id =
     (if is_admin_user c None then None
      else if \<not> can_manage_group_users db (rq_user c) group_id
      then Some (error_only ''Group user admin role is required for this group'' 403) else None)"

text \<open>The guards of a team: nothing for an administrator, else the question, which may raise.\<close>

definition require_team ::
  "(access_db \<Rightarrow> user_row option \<Rightarrow> int \<Rightarrow> bool dbr) \<Rightarrow> response \<Rightarrow> access_db \<Rightarrow> request_ctx \<Rightarrow> int \<Rightarrow> response option dbr" where
  "require_team can denied db c team_id =
     (if is_admin_user c None then Inr None
      else res_bind (can db (rq_user c) team_id) (\<lambda>allowed. Inr (if allowed then None else Some denied)))"

definition require_team_read :: "access_db \<Rightarrow> request_ctx \<Rightarrow> int \<Rightarrow> response option dbr" where
  "require_team_read = require_team can_read_team (error_only ''Access to this team is denied'' 403)"

definition require_team_oncall_read :: "access_db \<Rightarrow> request_ctx \<Rightarrow> int \<Rightarrow> response option dbr" where
  "require_team_oncall_read = require_team can_view_team_oncall
     (error_message ''team_oncall_access_denied'' ''Access to this team on-call schedule is denied'' 403)"

definition require_team_respond :: "access_db \<Rightarrow> request_ctx \<Rightarrow> int \<Rightarrow> response option dbr" where
  "require_team_respond = require_team can_respond_team (error_only ''Team responder role is required for this team'' 403)"

definition require_team_write :: "access_db \<Rightarrow> request_ctx \<Rightarrow> int \<Rightarrow> response option dbr" where
  "require_team_write = require_team can_write_team (error_only ''Team manager role is required for this team'' 403)"

definition require_team_user_admin :: "access_db \<Rightarrow> request_ctx \<Rightarrow> int \<Rightarrow> response option dbr" where
  "require_team_user_admin = require_team can_manage_team_users
     (error_message ''team_user_admin_required'' ''Team manager or group admin role is required for this team'' 403)"

definition require_team_or_group_resource_access ::
  "access_db \<Rightarrow> request_ctx \<Rightarrow> int \<Rightarrow> bool \<Rightarrow> response option dbr" where
  "require_team_or_group_resource_access db c team_id write_required =
     (if is_admin_user c None then Inr None
      else res_bind (can_access_team_or_group_resource db (rq_user c) team_id write_required) (\<lambda>allowed.
        Inr (if allowed then None
             else if write_required
             then Some (error_message ''team_or_group_write_required''
                    ''Team manager or group editor role is required for this team'' 403)
             else Some (error_message ''team_or_group_access_denied'' ''Access to this team resource is denied'' 403))))"

definition require_audit_log_access :: "access_db \<Rightarrow> request_ctx \<Rightarrow> response option" where
  "require_audit_log_access db c =
     (if can_read_audit_logs db c None then None
      else Some (error_message ''audit_log_access_denied'' ''Global admin or group editor role is required'' 403))"

definition require_user_management_access :: "access_db \<Rightarrow> request_ctx \<Rightarrow> response option" where
  "require_user_management_access db c =
     (case rq_user c of
        None \<Rightarrow> Some (error_only ''Authentication is required'' 401)
      | Some u \<Rightarrow>
          if u_is_admin u then None
          else if get_allowed_group_ids db c (Some u) False True False \<noteq> [] then None
          else Some (error_only ''Group Admin role is required'' 403))"

definition require_assign_group_role :: "request_ctx \<Rightarrow> string \<Rightarrow> response option" where
  "require_assign_group_role c role =
     (if can_assign_group_role c role None then None
      else Some (error_message ''role_not_allowed'' ''Only global admin can assign group user-admin role'' 403))"

section \<open>Permission records of the serializers\<close>

definition get_group_permissions :: "access_db \<Rightarrow> user_row option \<Rightarrow> int \<Rightarrow> pydict" where
  "get_group_permissions db user group_id =
     [(''can_read'', PBool (can_read_group db user group_id)),
      (''can_write'', PBool (can_write_group db user group_id)),
      (''can_manage_users'', PBool (can_manage_group_users db user group_id))]"

definition get_team_permissions :: "access_db \<Rightarrow> user_row option \<Rightarrow> int \<Rightarrow> pydict dbr" where
  "get_team_permissions db user team_id =
     res_bind (can_read_team db user team_id) (\<lambda>r.
     res_bind (can_write_team db user team_id) (\<lambda>w.
     res_bind (can_respond_team db user team_id) (\<lambda>p.
     res_bind (can_manage_team_users db user team_id) (\<lambda>m.
     res_bind (can_view_team_oncall db user team_id) (\<lambda>v.
       Inr [(''can_read'', PBool r), (''can_write'', PBool w), (''can_respond'', PBool p),
            (''can_manage_users'', PBool m), (''can_view_oncall'', PBool v)])))))"

end
