(* ===== verification/Audit_Log.thy ===== *)
theory Audit_Log
  imports Access_Writes Rbac
begin

text \<open>
  Redaction of secrets (\<open>modules/redaction.py\<close>) and the audit log
  (\<open>services/audit.py\<close>, \<open>modules/db/audit_repo.py\<close>). Redaction is over JSON values: bytes,
  exceptions, sets and keys that are no strings, which the code also takes, do not occur in them,
  and the substitution of the five patterns is the parameter \<open>env_re_sub\<close>. An audit record is refused
  for an unknown transport or a reference that does not exist, and for nothing else.
\<close>

section \<open>Redaction\<close>

definition REDACTED :: string where "REDACTED = ''***REDACTED***''"

definition SENSITIVE_KEY_PARTS :: "string list" where
  "SENSITIVE_KEY_PARTS =
     [''token'', ''secret'', ''password'', ''passwd'', ''authorization'', ''api_key'', ''apikey'', ''access_key'',
      ''private_key'', ''webhook_url'']"

definition REDACTION_PATTERNS :: "redaction_pattern list" where
  "REDACTION_PATTERNS =
     [Telegram_Bot_Token, Secret_Query_Parameter, Authorization_Header, Url_Credentials, Secret_Assignment]"

definition is_sensitive_key :: "string \<Rightarrow> bool" where
  "is_sensitive_key key \<longleftrightarrow> list_ex (\<lambda>part. str_in part (lower key)) SENSITIVE_KEY_PARTS"

definition redact_string :: "access_env \<Rightarrow> string \<Rightarrow> string" where
  "redact_string env value = fold (env_re_sub env) REDACTION_PATTERNS value"

fun redact_secrets :: "access_env \<Rightarrow> py \<Rightarrow> py" where
  "redact_secrets env (PStr s) = PStr (redact_string env s)"
| "redact_secrets env (PDict d) =
     PDict (map (\<lambda>(key, item). (key, if is_sensitive_key key then PStr REDACTED else redact_secrets env item)) d)"
| "redact_secrets env (PList xs) = PList (map (redact_secrets env) xs)"
| "redact_secrets env v = v"

text \<open>A value a log may hold: secrets under sensitive keys replaced, every other text redacted.\<close>

fun log_safe :: "access_env \<Rightarrow> py \<Rightarrow> bool" where
  "log_safe env (PStr s) \<longleftrightarrow> s \<in> range (redact_string env)"
| "log_safe env (PDict d) \<longleftrightarrow>
     list_all (\<lambda>(key, item). if is_sensitive_key key then item = PStr REDACTED else log_safe env item) d"
| "log_safe env (PList xs) \<longleftrightarrow> list_all (log_safe env) xs"
| "log_safe env v \<longleftrightarrow> True"

text \<open>What redaction keeps: a value with its texts and its entries under sensitive keys blanked.\<close>

fun outline :: "py \<Rightarrow> py" where
  "outline (PStr s) = PStr []"
| "outline (PDict d) = PDict (map (\<lambda>(key, item). (key, if is_sensitive_key key then PNone else outline item)) d)"
| "outline (PList xs) = PList (map outline xs)"
| "outline v = v"

lemma log_safe_redacted: "log_safe env (redact_secrets env v)"
  by (induction env v rule: redact_secrets.induct) (auto simp: list_all_iff)

lemma outline_redacted: "outline (redact_secrets env v) = outline v"
  by (induction env v rule: redact_secrets.induct) auto

text \<open>
  Redaction before a value is logged: at any depth, an entry whose key names a secret holds
  only the placeholder, every other string has passed through all redaction patterns, and the
  structure, the keys and all other values are those of the original.
\<close>

theorem redaction_complete:
  "log_safe env (redact_secrets env v) \<and> outline (redact_secrets env v) = outline v"
  by (simp add: log_safe_redacted outline_redacted)

section \<open>Audit records\<close>

definition create_audit_log ::
  "access_env \<Rightarrow> string \<Rightarrow> string option \<Rightarrow> int option \<Rightarrow> int option \<Rightarrow> int option \<Rightarrow> int option \<Rightarrow> int option
   \<Rightarrow> string option \<Rightarrow> pydict \<Rightarrow> audit_row dbm" where
  "create_audit_log env action object_type object_id group_id team_id user_id api_token_id message data db =
     (if fk_ok g_id (db_groups db) group_id \<and> fk_ok t_id (db_teams db) team_id
         \<and> fk_ok u_id (db_users db) user_id \<and> fk_ok at_id (db_api_tokens db) api_token_id
      then let row = \<lparr>al_id = env_new_id env (map al_id (db_audit_logs db)), al_group = group_id,
                      al_team = team_id, al_user = user_id, al_api_token = api_token_id, al_action = action,
                      al_object_type = object_type, al_object_id = object_id, al_message = message,
                      al_data = data\<rparr>
           in (Inr row, db\<lparr>db_audit_logs := db_audit_logs db @ [row]\<rparr>)
      else (Inl (IntegrityError ''foreign key''), db))"

definition record_audit ::
  "access_env \<Rightarrow> string \<Rightarrow> string option \<Rightarrow> int option \<Rightarrow> int option \<Rightarrow> int option \<Rightarrow> int option \<Rightarrow> int option
   \<Rightarrow> string option \<Rightarrow> pydict \<Rightarrow> string \<Rightarrow> audit_row dbm" where
  "record_audit env action object_type object_id group_id team_id user_id api_token_id message data transport =
     (if transport \<notin> {''api'', ''sso'', ''system'', ''integration''} then db_raise UnsupportedTransport
      else create_audit_log env action object_type object_id group_id team_id user_id api_token_id
             (map_option (redact_string env) message)
             (items (redact_secrets env (PDict (dset data ''transport'' (PStr transport))))))"

text \<open>\<open>write_audit\<close>: the actor and the token come from the request; the views give no actor of their own here.\<close>

definition write_audit ::
  "access_env \<Rightarrow> request_ctx \<Rightarrow> string \<Rightarrow> string \<Rightarrow> int \<Rightarrow> int option \<Rightarrow> int option \<Rightarrow> int option \<Rightarrow> pydict \<Rightarrow> audit_row dbm" where
  "write_audit env c action object_type object_id group_id team_id user_id data =
     record_audit env action (Some object_type) (Some object_id) group_id team_id
       (case fk_truthy user_id of None \<Rightarrow> map_option u_id (rq_user c) | Some i \<Rightarrow> Some i)
       (map_option at_id (rq_token c)) None data ''api''"

end
