(* ===== verification/Member_Api.thy ===== *)
theory Member_Api
  imports Audit_Log
begin

text \<open>
  The endpoints that change memberships and teams (\<open>views/groups_view.py\<close>,
  \<open>views/teams_view.py\<close>) with the serializers of their answers
  (\<open>services/serializers/*.py\<close>) and the error handlers of the application
  (\<open>modules/logger.py\<close>). Each handler is a computation over the database that answers a
  JSON body with a status; it runs its guards, validates the body and writes in the order of the
  code.

  A body argument is the outcome of \<open>validate_body\<close>: the validation response, or the payload.
  Pydantic is not modelled; what the handlers rely on is that a payload satisfies its schema,
  and \<open>*_ok\<close> states the constraints used below. Deleting whole groups and teams cascades
  into every other component and is not modelled.
\<close>

section \<open>Handlers\<close>

type_synonym 'p body = "response + 'p"

text \<open>\<open>error = require_...(); if error: return error\<close>\<close>

definition require :: "(access_db \<Rightarrow> response option dbr) \<Rightarrow> response dbm \<Rightarrow> response dbm" where
  "require guard k = db_bind (db_read guard) (\<lambda>err. case err of Some r \<Rightarrow> db_return r | None \<Rightarrow> k)"

text \<open>\<open>payload, error = validate_body(Schema); if error: return error\<close>\<close>

definition with_body :: "'p body \<Rightarrow> ('p \<Rightarrow> response dbm) \<Rightarrow> response dbm" where
  "with_body body k = (case body of Inl r \<Rightarrow> db_return r | Inr p \<Rightarrow> k p)"

text \<open>\<open>try: x = m except IntegrityError: return h\<close>, then the rest.\<close>

definition catch_integrity :: "'a dbm \<Rightarrow> (string \<Rightarrow> response dbm) \<Rightarrow> ('a \<Rightarrow> response dbm) \<Rightarrow> response dbm" where
  "catch_integrity m h k db =
     (case m db of
        (Inl (IntegrityError s), db') \<Rightarrow> h s db'
      | (Inl e, db') \<Rightarrow> (Inl e, db')
      | (Inr x, db') \<Rightarrow> k x db')"

text \<open>The error handlers: a missing row is 404, anything else that escapes is 500.\<close>

definition respond :: "access_env \<Rightarrow> response dbm \<Rightarrow> access_db \<Rightarrow> response \<times> access_db" where
  "respond env handler db =
     (case handler db of
        (Inr r, db') \<Rightarrow> (r, db')
      | (Inl DoesNotExist, db') \<Rightarrow>
          ((PDict [(''error'', PStr ''not_found''), (''message'', PStr ''Requested resource was not found.''),
                   (''status'', PInt 404)], 404), db')
      | (Inl e, db') \<Rightarrow>
          ((PDict [(''error'', PStr ''Internal Server Error''), (''error_id'', PStr (env_error_id env)),
                   (''message'', PStr ''Unexpected server error. Check JSON log by error_id.'')], 500), db'))"

section \<open>Serializers\<close>

definition py_opt :: "('a \<Rightarrow> py) \<Rightarrow> 'a option \<Rightarrow> py" where
  "py_opt f v = (case v of None \<Rightarrow> PNone | Some x \<Rightarrow> f x)"

definition serialize_user_group :: "access_db \<Rightarrow> user_group_row \<Rightarrow> py dbr" where
  "serialize_user_group db m =
     res_bind (group_of db (ug_group m)) (\<lambda>g. Inr (PDict
       [(''id'', PInt (ug_id m)), (''group_id'', PInt (g_id g)), (''group_slug'', PStr (g_slug g)),
        (''group_name'', PStr (g_name g)), (''role'', PStr (ug_role m)), (''active'', PBool (ug_active m))]))"

text \<open>\<open>row.group\<close> of a nullable foreign key\<close>

definition group_ref :: "access_db \<Rightarrow> int option \<Rightarrow> group_row option dbr" where
  "group_ref db ref = (case ref of None \<Rightarrow> Inr None | Some i \<Rightarrow> res_bind (group_of db i) (\<lambda>g. Inr (Some g)))"

definition serialize_user :: "access_db \<Rightarrow> user_row \<Rightarrow> py dbr" where
  "serialize_user db u =
     res_bind (group_ref db (u_active_group_id u)) (\<lambda>g. Inr (PDict
       [(''id'', PInt (u_id u)), (''username'', PStr (u_username u)),
        (''display_name'', py_opt PStr (u_display_name u)), (''email'', py_opt PStr (u_email u)),
        (''phone'', py_opt PStr (u_phone u)), (''timezone'', py_opt PStr (u_timezone u)),
        (''locale'', py_opt PStr (u_locale u)),
        (''theme'', PStr (if u_theme u = [] then ''system'' else u_theme u)),
        (''telegram_user_id'', py_opt PStr (u_telegram_user_id u)),
        (''slack_user_id'', py_opt PStr (u_slack_user_id u)),
        (''mattermost_user_id'', py_opt PStr (u_mattermost_user_id u)),
        (''active'', PBool (u_active u)), (''is_admin'', PBool (u_is_admin u)),
        (''active_group_id'', py_opt (PInt \<circ> g_id) g), (''active_group_slug'', py_opt (PStr \<circ> g_slug) g),
        (''notify_oncall_shift_start_email'', PBool (u_notify_start_email u)),
        (''notify_oncall_shift_end_email'', PBool (u_notify_end_email u)),
        (''notify_oncall_shift_start_mattermost'', PBool (u_notify_start_mattermost u))]))"

definition serialize_group :: "access_db \<Rightarrow> user_row option \<Rightarrow> group_row \<Rightarrow> py" where
  "serialize_group db user g =
     PDict ([(''id'', PInt (g_id g)), (''slug'', PStr (g_slug g)), (''name'', PStr (g_name g)),
             (''description'', py_opt PStr (g_description g)), (''active'', PBool (g_active g))]
            @ (if user \<noteq> None \<and> g_id g \<noteq> 0
               then [(''permissions'', PDict (get_group_permissions db user (g_id g)))] else []))"

definition attach_team_permissions :: "access_db \<Rightarrow> user_row option \<Rightarrow> int \<Rightarrow> pydict dbr" where
  "attach_team_permissions db user team_id =
     (case user of
        None \<Rightarrow> Inr []
      | Some u \<Rightarrow>
          if team_id = 0 then Inr []
          else res_bind (get_team_permissions db user team_id) (\<lambda>permissions.
            res_bind (can_access_team_or_group_resource db user team_id True) (\<lambda>w.
            res_bind (if u_is_admin u then Inr True else can_respond_team db user team_id) (\<lambda>r.
              Inr [(''permissions'', PDict (permissions @
                     [(''can_write_resources'', PBool w),
                      (''can_create_manual_alert_group'', PBool (r \<or> w)),
                      (''can_create_incident'', PBool (r \<or> w))]))]))))"

definition serialize_team :: "access_db \<Rightarrow> user_row option \<Rightarrow> team_row \<Rightarrow> py dbr" where
  "serialize_team db user t =
     res_bind (group_ref db (t_group_id t)) (\<lambda>g.
     res_bind (attach_team_permissions db user (t_id t)) (\<lambda>permissions.
       Inr (PDict ([(''id'', PInt (t_id t)), (''group_id'', py_opt (PInt \<circ> g_id) g),
         (''group_slug'', py_opt (PStr \<circ> g_slug) g), (''group_name'', py_opt (PStr \<circ> g_name) g),
         (''slug'', PStr (t_slug t)), (''name'', PStr (t_name t)), (''description'', py_opt PStr (t_description t)),
         (''escalation_enabled'', PBool (t_escalation_enabled t)),
         (''escalation_after_reminders'', PInt (t_escalation_after_reminders t)), (''active'', PBool (t_active t))]
         @ permissions))))"

text \<open>The inline dictionary of a membership with its user, in both views.\<close>

definition membership_body :: "access_db \<Rightarrow> int \<Rightarrow> int \<Rightarrow> string \<Rightarrow> bool \<Rightarrow> py dbr" where
  "membership_body db i user_id role active =
     res_bind (user_of db user_id) (\<lambda>u. Inr (PDict
       [(''id'', PInt i), (''user_id'', PInt (u_id u)), (''username'', PStr (u_username u)),
        (''display_name'', py_opt PStr (u_display_name u)), (''role'', PStr role), (''active'', PBool active)]))"

section \<open>Payloads\<close>

record membership_add =
  ma_user_id :: int
  ma_role :: string
  ma_active :: bool

record membership_update =
  mu_role :: string
  mu_active :: bool

record group_user_create =
  gc_username :: string
  gc_display_name :: "string option"
  gc_email :: "string option"
  gc_phone :: "string option"
  gc_telegram_user_id :: "string option"
  gc_slack_user_id :: "string option"
  gc_mattermost_user_id :: "string option"
  gc_password :: string
  gc_group_role :: string

record team_fields =
  tf_group_id :: int
  tf_slug :: string
  tf_name :: string
  tf_description :: "string option"
  tf_escalation_enabled :: bool
  tf_escalation_after_reminders :: int
  tf_active :: bool

record group_fields =
  gf_slug :: string
  gf_name :: string
  gf_description :: "string option"
  gf_active :: bool

definition UserGroupAddSchema_ok :: "membership_add \<Rightarrow> bool" where
  "UserGroupAddSchema_ok p \<longleftrightarrow> 1 \<le> ma_user_id p \<and> ma_role p \<in> set GROUP_ROLE_VALUES"
definition UserGroupUpdateSchema_ok :: "membership_update \<Rightarrow> bool" where
  "UserGroupUpdateSchema_ok p \<longleftrightarrow> mu_role p \<in> set GROUP_ROLE_VALUES"
definition TeamUserAddSchema_ok :: "membership_add \<Rightarrow> bool" where
  "TeamUserAddSchema_ok p \<longleftrightarrow> 1 \<le> ma_user_id p \<and> ma_role p \<in> set TEAM_ROLE_VALUES"
definition TeamUserUpdateSchema_ok :: "membership_update \<Rightarrow> bool" where
  "TeamUserUpdateSchema_ok p \<longleftrightarrow> mu_role p \<in> set TEAM_ROLE_VALUES"
definition GroupUserCreateSchema_ok :: "group_user_create \<Rightarrow> bool" where
  "GroupUserCreateSchema_ok p \<longleftrightarrow> 2 \<le> length (gc_username p) \<and> gc_group_role p \<in> set GROUP_ASSIGNABLE_BY_USER_ADMIN_VALUES"

definition dump_membership_add :: "membership_add \<Rightarrow> pydict" where
  "dump_membership_add p = [(''user_id'', PInt (ma_user_id p)), (''role'', PStr (ma_role p)), (''active'', PBool (ma_active p))]"

definition dump_membership_update :: "membership_update \<Rightarrow> pydict" where
  "dump_membership_update p = [(''role'', PStr (mu_role p)), (''active'', PBool (mu_active p))]"

definition dump_team_fields :: "team_fields \<Rightarrow> pydict" where
  "dump_team_fields p =
     [(''group_id'', PInt (tf_group_id p)), (''slug'', PStr (tf_slug p)), (''name'', PStr (tf_name p)),
      (''description'', py_opt PStr (tf_description p)), (''escalation_enabled'', PBool (tf_escalation_enabled p)),
      (''escalation_after_reminders'', PInt (tf_escalation_after_reminders p)), (''active'', PBool (tf_active p))]"

definition dump_group_fields :: "group_fields \<Rightarrow> pydict" where
  "dump_group_fields p =
     [(''slug'', PStr (gf_slug p)), (''name'', PStr (gf_name p)), (''description'', py_opt PStr (gf_description p)),
      (''active'', PBool (gf_active p))]"

definition unique_field_conflict :: "string \<Rightarrow> string \<Rightarrow> string \<Rightarrow> response" where
  "unique_field_conflict field v message =
     (PDict [(''error'', PStr ''conflict''), (''message'', PStr message),
        (''details'', PList [PDict [(''field'', PStr field), (''loc'', PList [PStr field]),
           (''message'', PStr (field @ '' must be unique'')), (''type'', PStr ''unique''), (''input'', PStr v)]])], 409)"

definition integrity_conflict :: "string \<Rightarrow> response" where
  "integrity_conflict message =
     (PDict [(''error'', PStr ''conflict''), (''message'', PStr message),
        (''details'', PList [PDict [(''message'', PStr ''Database integrity constraint failed''),
           (''type'', PStr ''integrity_error'')]])], 409)"

section \<open>Group endpoints\<close>

definition update_group_view :: "access_env \<Rightarrow> request_ctx \<Rightarrow> int \<Rightarrow> group_fields body \<Rightarrow> response dbm" where
  "update_group_view env c group_id body =
     require (\<lambda>db. Inr (require_group_write db c group_id))
      (with_body body (\<lambda>p.
        db_bind (atomic
          (db_bind (update_group group_id \<lparr>gp_slug = Some (gf_slug p), gp_name = Some (gf_name p),
                      gp_description = Some (gf_description p), gp_active = Some (gf_active p)\<rparr>) (\<lambda>g.
           db_bind (write_audit env c ''group.update'' ''group'' (g_id g) (Some (g_id g)) None None (dump_group_fields p))
             (\<lambda>_. db_return g)))) (\<lambda>g.
        db_read (\<lambda>db. Inr (serialize_group db (rq_user c) g, 200)))))"

text \<open>\<open>get_group\<close> with its answers for a missing and for an inactive group\<close>

definition with_active_group :: "int \<Rightarrow> response dbm \<Rightarrow> response dbm" where
  "with_active_group group_id k =
     db_bind (db_read (\<lambda>db. Inr (get_group db group_id))) (\<lambda>r.
       case r of
         Inl e \<Rightarrow> db_return (error_message ''group_not_found'' ''Selected group was not found'' 404)
       | Inr g \<Rightarrow>
           if \<not> g_active g then db_return (error_message ''group_inactive'' ''Selected group is inactive'' 400)
           else k)"

definition group_user_kwargs :: "access_env \<Rightarrow> group_user_create \<Rightarrow> new_user" where
  "group_user_kwargs env p =
     \<lparr>nu_username = gc_username p, nu_display_name = gc_display_name p, nu_email = gc_email p,
      nu_phone = gc_phone p, nu_telegram_user_id = gc_telegram_user_id p,
      nu_slack_user_id = gc_slack_user_id p, nu_mattermost_user_id = gc_mattermost_user_id p,
      nu_password_hash = Some (env_hash_password env (gc_password p)), nu_active = True, nu_is_admin = False\<rparr>"

definition group_user_audit_data :: "group_user_create \<Rightarrow> pydict" where
  "group_user_audit_data p =
     [(''username'', PStr (gc_username p)), (''display_name'', py_opt PStr (gc_display_name p)),
      (''email'', py_opt PStr (gc_email p)), (''phone'', py_opt PStr (gc_phone p)),
      (''telegram_user_id'', py_opt PStr (gc_telegram_user_id p)),
      (''slack_user_id'', py_opt PStr (gc_slack_user_id p)),
      (''mattermost_user_id'', py_opt PStr (gc_mattermost_user_id p)), (''password_hash'', PStr ''***''),
      (''active'', PBool True), (''is_admin'', PBool False), (''group_role'', PStr (gc_group_role p))]"

definition create_group_user :: "access_env \<Rightarrow> request_ctx \<Rightarrow> int \<Rightarrow> group_user_create body \<Rightarrow> response dbm" where
  "create_group_user env c group_id body =
     require (\<lambda>db. Inr (require_group_user_admin db c group_id))
      (with_active_group group_id
        (with_body body (\<lambda>p.
          catch_integrity (atomic
            (db_bind (create_user env (group_user_kwargs env p)) (\<lambda>u.
             db_bind (add_user_to_group env (u_id u) group_id (gc_group_role p) True) (\<lambda>_.
             db_bind (set_active_group (u_id u) (Some group_id)) (\<lambda>_.
             db_bind (db_read (\<lambda>db. get_user db (u_id u) False)) (\<lambda>user.
             db_bind (write_audit env c ''group.user.create'' ''user'' (u_id user) (Some group_id) None None
                        (group_user_audit_data p)) (\<lambda>_. db_return user)))))))
            (\<lambda>_. db_return (error_message ''user_conflict'' ''User with this username or unique field already exists'' 409))
            (\<lambda>user. db_read (\<lambda>db. res_bind (serialize_user db user) (\<lambda>b. Inr (b, 201)))))))"

definition add_group_user :: "access_env \<Rightarrow> request_ctx \<Rightarrow> int \<Rightarrow> membership_add body \<Rightarrow> response dbm" where
  "add_group_user env c group_id body =
     require (\<lambda>db. Inr (require_group_user_admin db c group_id))
      (with_active_group group_id
        (with_body body (\<lambda>p.
          require (\<lambda>_. Inr (require_assign_group_role c (ma_role p)))
            (db_bind (atomic
              (db_bind (add_user_to_group env (ma_user_id p) group_id (ma_role p) (ma_active p)) (\<lambda>m.
               db_bind (write_audit env c ''group.user.add'' ''group'' group_id (Some group_id) None None
                          (dump_membership_add p)) (\<lambda>_. db_return m)))) (\<lambda>m.
            db_read (\<lambda>db. res_bind (serialize_user_group db m) (\<lambda>b. Inr (b, 201))))))))"

text \<open>\<open>groups_repo.get_group_membership(membership_id).group.id\<close>\<close>

definition membership_group :: "access_db \<Rightarrow> int \<Rightarrow> int dbr" where
  "membership_group db membership_id =
     res_bind (get_group_membership db membership_id) (\<lambda>m. res_bind (group_of db (ug_group m)) (\<lambda>g. Inr (g_id g)))"

definition update_group_user :: "access_env \<Rightarrow> request_ctx \<Rightarrow> int \<Rightarrow> membership_update body \<Rightarrow> response dbm" where
  "update_group_user env c membership_id body =
     require (\<lambda>db. res_bind (membership_group db membership_id) (\<lambda>g. Inr (require_group_user_admin db c g)))
      (with_body body (\<lambda>p.
        require (\<lambda>_. Inr (require_assign_group_role c (mu_role p)))
          (db_bind (atomic
            (db_bind (update_group_membership membership_id (mu_role p) (mu_active p)) (\<lambda>m.
             db_bind (db_read (\<lambda>db. group_of db (ug_group m))) (\<lambda>g.
             db_bind (write_audit env c ''group.user.update'' ''group'' (g_id g) (Some (g_id g)) None None
                        ((''membership_id'', PInt (ug_id m)) # dump_membership_update p)) (\<lambda>_. db_return m))))) (\<lambda>m.
          db_read (\<lambda>db. res_bind (membership_body db (ug_id m) (ug_user m) (ug_role m) (ug_active m))
                          (\<lambda>b. Inr (b, 200)))))))"

definition dict_int :: "pydict \<Rightarrow> string \<Rightarrow> int" where
  "dict_int d k = (case map_of d k of Some (PInt i) \<Rightarrow> i | _ \<Rightarrow> 0)"

definition dict_opt_int :: "pydict \<Rightarrow> string \<Rightarrow> int option" where
  "dict_opt_int d k = (case map_of d k of Some (PInt i) \<Rightarrow> Some i | _ \<Rightarrow> None)"

definition dict_item :: "pydict \<Rightarrow> string \<Rightarrow> py" where
  "dict_item d k = (case map_of d k of Some v \<Rightarrow> v | None \<Rightarrow> PInt 0)"

definition delete_group_user :: "access_env \<Rightarrow> request_ctx \<Rightarrow> int \<Rightarrow> response dbm" where
  "delete_group_user env c membership_id =
     require (\<lambda>db. res_bind (membership_group db membership_id) (\<lambda>g. Inr (require_group_user_admin db c g)))
      (db_bind (db_read (\<lambda>db. membership_group db membership_id)) (\<lambda>group_id.
       db_bind (atomic
        (db_bind (delete_group_membership membership_id) (\<lambda>data.
           write_audit env c ''group.user.remove'' ''group'' (dict_int data ''group_id'')
             (dict_opt_int data ''group_id'') None None
             [(''membership_id'', dict_item data ''id''), (''user_id'', dict_item data ''user_id''),
              (''removed_team_memberships'', dict_item data ''removed_team_memberships''),
              (''removed_rotation_members'', dict_item data ''removed_rotation_members''),
              (''removed_rotation_layer_members'', dict_item data ''removed_rotation_layer_members''),
              (''removed_rotation_overrides'', dict_item data ''removed_rotation_overrides'')]))) (\<lambda>_.
       db_return (PDict [(''deleted'', PBool True), (''id'', PInt membership_id), (''group_id'', PInt group_id)], 200))))"

section \<open>Team endpoints\<close>

text \<open>The answer to a unique or foreign key conflict of a team.\<close>

definition team_conflict :: "string \<Rightarrow> string \<Rightarrow> response" where
  "team_conflict slug err =
     (if err = ''slug'' then unique_field_conflict ''slug'' slug ''Team with this slug already exists''
      else integrity_conflict ''Team could not be saved because it conflicts with existing data'')"

definition create_team_view :: "access_env \<Rightarrow> request_ctx \<Rightarrow> team_fields body \<Rightarrow> response dbm" where
  "create_team_view env c body =
     with_body body (\<lambda>p.
       require (\<lambda>db. Inr (require_group_write db c (tf_group_id p)))
        (catch_integrity
          (create_team env (tf_slug p) (tf_name p) (tf_description p) (tf_escalation_enabled p)
             (tf_escalation_after_reminders p) (Some (tf_group_id p)) (tf_active p))
          (\<lambda>err. db_return (team_conflict (tf_slug p) err))
          (\<lambda>team.
            db_bind (case rq_user c of
                Some u \<Rightarrow> if u_is_admin u then db_return ()
                          else db_bind (add_user_to_team env (t_id team) (u_id u) TEAM_MANAGER_ROLE True) (\<lambda>_. db_return ())
              | None \<Rightarrow> db_return ()) (\<lambda>_.
            db_bind (write_audit env c ''team.create'' ''team'' (t_id team) (t_group_id team) (Some (t_id team)) None
                       (dump_team_fields p)) (\<lambda>_.
            db_read (\<lambda>db. res_bind (serialize_team db (rq_user c) team) (\<lambda>b. Inr (b, 201))))))))"

definition team_change_guard :: "request_ctx \<Rightarrow> int \<Rightarrow> team_fields \<Rightarrow> access_db \<Rightarrow> response option dbr" where
  "team_change_guard c team_id p db =
     res_bind (get_team db team_id) (\<lambda>current_team.
       if Some (tf_group_id p) \<noteq> t_group_id current_team
       then (case rq_user c of
               None \<Rightarrow> Inl NoneAttribute
             | Some u \<Rightarrow>
                 if \<not> u_is_admin u
                 then Inr (Some (error_message ''group_change_denied''
                        ''Only global admin can move a team to another group'' 403))
                 else Inr (require_group_write db c (tf_group_id p)))
       else Inr None)"

definition team_update_data :: "team_fields \<Rightarrow> team_patch" where
  "team_update_data p =
     \<lparr>tp_group = Some (Some (tf_group_id p)), tp_slug = Some (tf_slug p), tp_name = Some (tf_name p),
      tp_description = Some (tf_description p), tp_escalation_enabled = Some (tf_escalation_enabled p),
      tp_escalation_after_reminders = Some (tf_escalation_after_reminders p), tp_active = Some (tf_active p)\<rparr>"

definition update_team_view :: "access_env \<Rightarrow> request_ctx \<Rightarrow> int \<Rightarrow> team_fields body \<Rightarrow> response dbm" where
  "update_team_view env c team_id body =
     require (\<lambda>db. require_team_write db c team_id)
      (with_body body (\<lambda>p.
        require (team_change_guard c team_id p)
         (catch_integrity
           (update_team team_id (team_update_data p))
           (\<lambda>err. db_return (team_conflict (tf_slug p) err))
           (\<lambda>team.
             db_bind (write_audit env c ''team.update'' ''team'' (t_id team) (t_group_id team) (Some (t_id team)) None
                        (dump_team_fields p)) (\<lambda>_.
             db_read (\<lambda>db. res_bind (serialize_team db (rq_user c) team) (\<lambda>b. Inr (b, 200))))))))"

definition user_not_in_group :: response where
  "user_not_in_group = error_message ''user_not_in_group''
     ''User must already belong to the team's group before being added to the team'' 400"

definition team_user_guard :: "int \<Rightarrow> int \<Rightarrow> access_db \<Rightarrow> response option dbr" where
  "team_user_guard team_id user_id db =
     res_bind (get_team db team_id) (\<lambda>team.
       case fk_truthy (t_group_id team) of
         None \<Rightarrow> Inr None
       | Some g \<Rightarrow>
           (case get_user_group_role db user_id g of
              None \<Rightarrow> Inr (Some user_not_in_group)
            | Some r \<Rightarrow> Inr (if r = [] then Some user_not_in_group else None)))"

definition add_team_user :: "access_env \<Rightarrow> request_ctx \<Rightarrow> int \<Rightarrow> membership_add body \<Rightarrow> response dbm" where
  "add_team_user env c team_id body =
     require (\<lambda>db. require_team_user_admin db c team_id)
      (with_body body (\<lambda>p.
        db_bind (db_read (\<lambda>db. get_team db team_id)) (\<lambda>team.
        require (team_user_guard team_id (ma_user_id p))
         (db_bind (add_user_to_team env team_id (ma_user_id p) (ma_role p) (ma_active p)) (\<lambda>m.
          db_bind (write_audit env c ''team.user.add'' ''team'' team_id (t_group_id team) (Some team_id) None
                     (dump_membership_add p)) (\<lambda>_.
          db_read (\<lambda>db. res_bind (membership_body db (tu_id m) (tu_user m) (tu_role m) (tu_active m))
                          (\<lambda>b. Inr (b, 201)))))))))"

definition membership_team :: "access_db \<Rightarrow> int \<Rightarrow> int dbr" where
  "membership_team db membership_id =
     res_bind (get_team_membership db membership_id) (\<lambda>m. res_bind (team_of db (tu_team m)) (\<lambda>t. Inr (t_id t)))"

definition update_team_user :: "access_env \<Rightarrow> request_ctx \<Rightarrow> int \<Rightarrow> membership_update body \<Rightarrow> response dbm" where
  "update_team_user env c membership_id body =
     require (\<lambda>db. res_bind (membership_team db membership_id) (\<lambda>t. require_team_user_admin db c t))
      (with_body body (\<lambda>p.
        db_bind (update_team_membership membership_id (mu_role p) (mu_active p)) (\<lambda>m.
        db_bind (db_read (\<lambda>db. team_of db (tu_team m))) (\<lambda>t.
        db_bind (write_audit env c ''team.user.update'' ''team'' (t_id t) (t_group_id t) (Some (t_id t)) None
                   ((''membership_id'', PInt (tu_id m)) # dump_membership_update p)) (\<lambda>_.
        db_read (\<lambda>db. res_bind (membership_body db (tu_id m) (tu_user m) (tu_role m) (tu_active m))
                        (\<lambda>b. Inr (b, 200))))))))"

definition delete_team_user :: "access_env \<Rightarrow> request_ctx \<Rightarrow> int \<Rightarrow> response dbm" where
  "delete_team_user env c membership_id =
     require (\<lambda>db. res_bind (membership_team db membership_id) (\<lambda>t. require_team_user_admin db c t))
      (db_bind (delete_team_membership membership_id) (\<lambda>data.
       db_bind (write_audit env c ''team.user.remove'' ''team'' (dict_int data ''team_id'')
                  (dict_opt_int data ''group_id'') (dict_opt_int data ''team_id'') None
                  [(''membership_id'', dict_item data ''id''), (''user_id'', dict_item data ''user_id''),
                   (''removed_from_team_rotations'', PBool True)]) (\<lambda>_.
       db_return (PDict [(''deleted'', PBool True), (''id'', PInt membership_id)], 200))))"

end
