(* ===== verification/Member_Steps.thy ===== *)
theory Member_Steps
  imports Member_Api
begin

text \<open>
  The requests that change memberships and teams as guarded writes: whatever a handler answers,
  the database it leaves is the old one or the result of one repository operation whose guard
  held when the request came in (\<open>api_change\<close>), up to the audit log.
\<close>

section \<open>Weakest preconditions of the handlers' combinators\<close>

lemma wp_require [wp_simps]:
  "wp (require g k) Q db \<longleftrightarrow>
     (case g db of Inl e \<Rightarrow> Q (Inl e) db | Inr (Some r) \<Rightarrow> Q (Inr r) db | Inr None \<Rightarrow> wp k Q db)"
  by (auto simp: require_def wp_simps split: sum.splits option.splits)

lemma wp_with_body [wp_simps]:
  "wp (with_body body k) Q db \<longleftrightarrow> (case body of Inl r \<Rightarrow> Q (Inr r) db | Inr p \<Rightarrow> wp (k p) Q db)"
  by (auto simp: with_body_def wp_simps split: sum.splits)

lemma wp_catch_integrity [wp_simps]:
  "wp (catch_integrity m h k) Q db \<longleftrightarrow>
     wp m (\<lambda>r db'. case r of Inl (IntegrityError s) \<Rightarrow> wp (h s) Q db' | Inl e \<Rightarrow> Q (Inl e) db' | Inr x \<Rightarrow> wp (k x) Q db') db"
  by (cases "m db") (auto simp: wp_def catch_integrity_def split: sum.splits db_exn.splits)

lemma wp_with_active_group [wp_simps]:
  "wp (with_active_group g k) Q db \<longleftrightarrow>
     (case get_group db g of
        Inl e \<Rightarrow> Q (Inr (error_message ''group_not_found'' ''Selected group was not found'' 404)) db
      | Inr r \<Rightarrow> if \<not> g_active r then Q (Inr (error_message ''group_inactive'' ''Selected group is inactive'' 400)) db
                 else wp k Q db)"
  by (auto simp: with_active_group_def wp_simps split: sum.splits)

section \<open>Guarded changes\<close>

definition audited :: "access_db \<Rightarrow> access_db \<Rightarrow> bool" where
  "audited db db' \<longleftrightarrow> (\<exists>l. db' = db\<lparr>db_audit_logs := l\<rparr>)"

definition may_assign :: "request_ctx \<Rightarrow> string \<Rightarrow> bool" where
  "may_assign c role \<longleftrightarrow> is_admin_user c None \<or> role \<noteq> GROUP_USER_ADMIN_ROLE"

inductive api_change :: "access_env \<Rightarrow> request_ctx \<Rightarrow> access_db \<Rightarrow> access_db \<Rightarrow> bool" for env c db where
  unchanged: "api_change env c db db"
| group_updated:
    "can_write_group db (rq_user c) gid \<Longrightarrow> update_group gid p db = (Inr g, db1) \<Longrightarrow> audited db1 db'
     \<Longrightarrow> api_change env c db db'"
| user_created:
    "can_manage_group_users db (rq_user c) gid \<Longrightarrow> \<not> nu_is_admin k
     \<Longrightarrow> role \<in> set GROUP_ASSIGNABLE_BY_USER_ADMIN_VALUES
     \<Longrightarrow> create_user env k db = (Inr u, db1)
     \<Longrightarrow> add_user_to_group env (u_id u) gid role True db1 = (Inr m, db2)
     \<Longrightarrow> set_active_group (u_id u) (Some gid) db2 = (Inr u', db3) \<Longrightarrow> audited db3 db'
     \<Longrightarrow> api_change env c db db'"
| group_member_added:
    "can_manage_group_users db (rq_user c) gid \<Longrightarrow> may_assign c role \<Longrightarrow> role \<in> set GROUP_ROLE_VALUES
     \<Longrightarrow> add_user_to_group env uid gid role act db = (Inr m, db1) \<Longrightarrow> audited db1 db'
     \<Longrightarrow> api_change env c db db'"
| group_member_updated:
    "membership_group db mid = Inr gid \<Longrightarrow> can_manage_group_users db (rq_user c) gid
     \<Longrightarrow> may_assign c role \<Longrightarrow> role \<in> set GROUP_ROLE_VALUES
     \<Longrightarrow> update_group_membership mid role act db = (Inr m, db1) \<Longrightarrow> audited db1 db'
     \<Longrightarrow> api_change env c db db'"
| group_member_deleted:
    "membership_group db mid = Inr gid \<Longrightarrow> can_manage_group_users db (rq_user c) gid
     \<Longrightarrow> delete_group_membership mid db = (Inr d, db1) \<Longrightarrow> audited db1 db'
     \<Longrightarrow> api_change env c db db'"
| team_created:
    "can_write_group db (rq_user c) gid
     \<Longrightarrow> create_team env slug name desc esc rem (Some gid) act db = (Inr t, db1)
     \<Longrightarrow> db2 = db1 \<or> (\<exists>u r. rq_user c = Some u
           \<and> add_user_to_team env (t_id t) (u_id u) TEAM_MANAGER_ROLE True db1 = (r, db2))
     \<Longrightarrow> audited db2 db' \<Longrightarrow> api_change env c db db'"
| team_updated:
    "can_write_team db (rq_user c) tid = Inr True \<Longrightarrow> get_team db tid = Inr t0
     \<Longrightarrow> tp_group p = Some gid \<Longrightarrow> gid = t_group_id t0 \<or> is_admin_user c None
     \<Longrightarrow> update_team tid p db = (Inr t, db1) \<Longrightarrow> audited db1 db'
     \<Longrightarrow> api_change env c db db'"
| team_member_added:
    "can_manage_team_users db (rq_user c) tid = Inr True \<Longrightarrow> get_team db tid = Inr t
     \<Longrightarrow> role \<in> set TEAM_ROLE_VALUES
     \<Longrightarrow> add_user_to_team env tid uid role act db = (r, db1) \<Longrightarrow> audited db1 db'
     \<Longrightarrow> api_change env c db db'"
| team_member_updated:
    "membership_team db mid = Inr tid \<Longrightarrow> can_manage_team_users db (rq_user c) tid = Inr True
     \<Longrightarrow> role \<in> set TEAM_ROLE_VALUES
     \<Longrightarrow> update_team_membership mid role act db = (Inr m, db1) \<Longrightarrow> audited db1 db'
     \<Longrightarrow> api_change env c db db'"
| team_member_deleted:
    "membership_team db mid = Inr tid \<Longrightarrow> can_manage_team_users db (rq_user c) tid = Inr True
     \<Longrightarrow> delete_team_membership mid db = (Inr d, db1) \<Longrightarrow> audited db1 db'
     \<Longrightarrow> api_change env c db db'"

lemma audited_refl [simp, intro]: "audited db db"
  unfolding audited_def by (rule exI [of _ "db_audit_logs db"]) simp

lemma audited_logs: "audited db (db\<lparr>db_audit_logs := l\<rparr>)"
  by (auto simp: audited_def)

lemma create_audit_log_audited: "audited db (snd (create_audit_log env a ot oi g t u k m d db))"
  by (simp add: create_audit_log_def Let_def audited_logs)

lemma write_audit_audited: "audited db (snd (write_audit env c a ot oi g t u d db))"
  by (simp add: write_audit_def record_audit_def db_raise_def create_audit_log_audited)

lemma wp_write_audit:
  "(\<And>r db'. audited db db' \<Longrightarrow> Q r db') \<Longrightarrow> wp (write_audit env c a ot oi g t u d) Q db"
  by (simp add: wp_def write_audit_audited)

section \<open>Every handler is a guarded change\<close>

lemma require_admin_or: "require_group_user_admin db c g = None \<Longrightarrow> can_manage_group_users db (rq_user c) g"
  by (auto simp: require_group_user_admin_def is_admin_user_def current_user_def can_manage_group_users_def
      split: if_splits option.splits)

lemma require_write_can: "require_group_write db c g = None \<Longrightarrow> can_write_group db (rq_user c) g"
  by (auto simp: require_group_write_def is_admin_user_def current_user_def can_write_group_def
      split: if_splits option.splits)

lemma res_bind_Inr: "res_bind r f = Inr y \<longleftrightarrow> (\<exists>x. r = Inr x \<and> f x = Inr y)"
  by (cases r) auto

lemma require_team_can:
  assumes "require_team can denied db c tid = Inr None"
    and "\<And>u. u_is_admin u \<Longrightarrow> can db (Some u) tid = Inr True"
  shows "can db (rq_user c) tid = Inr True"
  using assms
  by (auto simp: require_team_def is_admin_user_def current_user_def res_bind_Inr split: if_splits option.splits)

lemma require_team_write_can: "require_team_write db c tid = Inr None \<Longrightarrow> can_write_team db (rq_user c) tid = Inr True"
  unfolding require_team_write_def by (erule require_team_can) (simp add: can_write_team_def)

lemma require_team_user_admin_can:
  "require_team_user_admin db c tid = Inr None \<Longrightarrow> can_manage_team_users db (rq_user c) tid = Inr True"
  unfolding require_team_user_admin_def by (erule require_team_can) (simp add: can_manage_team_users_def)

lemma require_assign_may: "require_assign_group_role c role = None \<Longrightarrow> may_assign c role"
  by (auto simp: require_assign_group_role_def can_assign_group_role_def may_assign_def split: if_splits)

abbreviation guarded :: "access_env \<Rightarrow> request_ctx \<Rightarrow> response dbm \<Rightarrow> access_db \<Rightarrow> bool" where
  "guarded env c h db \<equiv> wp h (\<lambda>r db'. api_change env c db db') db"

text \<open>The writes of a repository function are known from its result; an error leaves the database as it was.\<close>

definition clean :: "'a dbm \<Rightarrow> bool" where
  "clean m \<longleftrightarrow> (\<forall>db e. fst (m db) = Inl e \<longrightarrow> snd (m db) = db)"

named_theorems clean

lemma wp_clean:
  assumes "clean m" and "\<And>e. Q (Inl e) db" and "\<And>x db'. m db = (Inr x, db') \<Longrightarrow> Q (Inr x) db'"
  shows "wp m Q db"
proof (rule wp_cases)
  fix e db' assume "m db = (Inl e, db')"
  then show "Q (Inl e) db'"
    using assms(1,2) unfolding clean_def by (metis fst_conv snd_conv)
qed (rule assms(3))

lemma clean_update_group [clean]: "clean (update_group gid p)"
  by (auto simp: clean_def update_group_def Let_def split: sum.splits)

lemma clean_add_user_to_group [clean]: "clean (add_user_to_group env uid gid role act)"
  by (auto simp: clean_def add_user_to_group_def Let_def split: option.splits)

lemma clean_update_group_membership [clean]: "clean (update_group_membership mid role act)"
  by (auto simp: clean_def update_group_membership_def Let_def split: sum.splits)

lemma clean_create_team [clean]: "clean (create_team env s n d e r g a)"
  by (auto simp: clean_def create_team_def Let_def split: option.splits)

lemma clean_update_team [clean]: "clean (update_team tid p)"
  by (auto simp: clean_def update_team_def Let_def split: sum.splits)

lemma clean_delete_group_membership [clean]: "clean (delete_group_membership mid)"
  by (auto simp: clean_def delete_group_membership_def db_bind_def db_read_def db_return_def atomic_def db_write_def
      Let_def split: sum.splits)

lemma clean_delete_team_membership [clean]: "clean (delete_team_membership mid)"
  by (auto simp: clean_def delete_team_membership_def db_bind_def db_read_def db_return_def atomic_def db_write_def
      Let_def split: sum.splits)

lemma clean_update_team_membership [clean]: "clean (update_team_membership mid role act)"
  by (auto simp: clean_def update_team_membership_def db_bind_def db_read_def atomic_def Let_def split: sum.splits prod.splits)

lemma clean_create_user [clean]: "clean (create_user env k)"
  by (auto simp: clean_def create_user_def restore_user_def Let_def split: sum.splits option.splits)

lemma clean_set_active_group [clean]: "clean (set_active_group uid g)"
  by (auto simp: clean_def set_active_group_def Let_def split: sum.splits)

lemma guarded_update_group: "guarded env c (update_group_view env c gid body) db"
  unfolding update_group_view_def
  by (auto simp: wp_simps api_change.unchanged split: sum.split option.split
      intro!: wp_clean clean wp_write_audit dest!: require_write_can intro: api_change.group_updated)

lemma guarded_add_group_user:
  assumes "\<And>p. body = Inr p \<Longrightarrow> UserGroupAddSchema_ok p"
  shows "guarded env c (add_group_user env c gid body) db"
  unfolding add_group_user_def using assms
  by (auto simp: wp_simps api_change.unchanged UserGroupAddSchema_ok_def split: sum.split option.split
      intro!: wp_clean clean wp_write_audit dest!: require_admin_or require_assign_may
      intro: api_change.group_member_added)

lemma guarded_update_group_user:
  assumes "\<And>p. body = Inr p \<Longrightarrow> UserGroupUpdateSchema_ok p"
  shows "guarded env c (update_group_user env c mid body) db"
  unfolding update_group_user_def using assms
  by (auto simp: wp_simps api_change.unchanged res_bind_Inr UserGroupUpdateSchema_ok_def split: sum.split option.split
      intro!: wp_clean clean wp_write_audit dest!: require_admin_or require_assign_may
      intro: api_change.group_member_updated)

lemma guarded_delete_group_user: "guarded env c (delete_group_user env c mid) db"
  unfolding delete_group_user_def
  by (auto simp: wp_simps api_change.unchanged res_bind_Inr split: sum.split option.split
      intro!: wp_clean clean wp_write_audit dest!: require_admin_or
      intro: api_change.group_member_deleted)

lemma guarded_create_group_user:
  assumes "\<And>p. body = Inr p \<Longrightarrow> GroupUserCreateSchema_ok p"
  shows "guarded env c (create_group_user env c gid body) db"
  unfolding create_group_user_def using assms
  by (auto simp: wp_simps api_change.unchanged GroupUserCreateSchema_ok_def group_user_kwargs_def
      split: sum.split option.split db_exn.split
      intro!: wp_clean clean wp_write_audit dest!: require_admin_or
      intro: api_change.user_created [where k = "group_user_kwargs env p" for p])

lemma team_change_guard_None:
  "team_change_guard c tid p db = Inr None \<Longrightarrow>
     \<exists>t0. get_team db tid = Inr t0 \<and> (Some (tf_group_id p) = t_group_id t0 \<or> is_admin_user c None)"
  by (auto simp: team_change_guard_def res_bind_Inr is_admin_user_def current_user_def split: if_splits option.splits)

lemma team_updated':
  assumes "can_write_team db (rq_user c) tid = Inr True" "team_change_guard c tid p db = Inr None"
    "update_team tid (team_update_data p) db = (Inr t, db1)" "audited db1 db'"
  shows "api_change env c db db'"
proof -
  from team_change_guard_None [OF assms(2)] obtain t0 where
    "get_team db tid = Inr t0" "Some (tf_group_id p) = t_group_id t0 \<or> is_admin_user c None"
    by blast
  then show ?thesis
    using assms by (intro api_change.team_updated [where p = "team_update_data p"]) (auto simp: team_update_data_def)
qed

lemma guarded_update_team: "guarded env c (update_team_view env c tid body) db"
  unfolding update_team_view_def
  by (auto simp: wp_simps api_change.unchanged split: sum.split option.split db_exn.split
      intro!: wp_clean clean wp_write_audit dest!: require_team_write_can intro: team_updated')

lemma guarded_create_team: "guarded env c (create_team_view env c body) db"
  unfolding create_team_view_def
  by (auto simp: wp_simps api_change.unchanged split: sum.split option.split db_exn.split
      intro!: wp_clean [OF clean_create_team] wp_cases [where m = "add_user_to_team _ _ _ _ _"] wp_write_audit
      dest!: require_write_can intro: api_change.team_created)

lemma guarded_delete_team_user: "guarded env c (delete_team_user env c mid) db"
  unfolding delete_team_user_def
  by (auto simp: wp_simps api_change.unchanged res_bind_Inr split: sum.split option.split
      intro!: wp_clean clean wp_write_audit dest!: require_team_user_admin_can
      intro: api_change.team_member_deleted)

lemma guarded_update_team_user:
  assumes "\<And>p. body = Inr p \<Longrightarrow> TeamUserUpdateSchema_ok p"
  shows "guarded env c (update_team_user env c mid body) db"
  unfolding update_team_user_def using assms
  by (auto simp: wp_simps api_change.unchanged res_bind_Inr TeamUserUpdateSchema_ok_def split: sum.split option.split
      intro!: wp_clean clean wp_write_audit dest!: require_team_user_admin_can
      intro: api_change.team_member_updated)

lemma guarded_add_team_user:
  assumes "\<And>p. body = Inr p \<Longrightarrow> TeamUserAddSchema_ok p"
  shows "guarded env c (add_team_user env c tid body) db"
  unfolding add_team_user_def using assms
  by (auto simp: wp_simps api_change.unchanged res_bind_Inr TeamUserAddSchema_ok_def split: sum.split option.split
      intro!: wp_cases wp_write_audit dest!: require_team_user_admin_can
      intro: api_change.team_member_added)

section \<open>Requests\<close>

datatype api_request =
    Update_Group int "group_fields body"
  | Create_Group_User int "group_user_create body"
  | Add_Group_User int "membership_add body"
  | Update_Group_User int "membership_update body"
  | Delete_Group_User int
  | Create_Team "team_fields body"
  | Update_Team int "team_fields body"
  | Add_Team_User int "membership_add body"
  | Update_Team_User int "membership_update body"
  | Delete_Team_User int

fun handler :: "access_env \<Rightarrow> request_ctx \<Rightarrow> api_request \<Rightarrow> response dbm" where
  "handler env c (Update_Group g body) = update_group_view env c g body"
| "handler env c (Create_Group_User g body) = create_group_user env c g body"
| "handler env c (Add_Group_User g body) = add_group_user env c g body"
| "handler env c (Update_Group_User m body) = update_group_user env c m body"
| "handler env c (Delete_Group_User m) = delete_group_user env c m"
| "handler env c (Create_Team body) = create_team_view env c body"
| "handler env c (Update_Team t body) = update_team_view env c t body"
| "handler env c (Add_Team_User t body) = add_team_user env c t body"
| "handler env c (Update_Team_User m body) = update_team_user env c m body"
| "handler env c (Delete_Team_User m) = delete_team_user env c m"

definition handle :: "access_env \<Rightarrow> request_ctx \<Rightarrow> api_request \<Rightarrow> access_db \<Rightarrow> response \<times> access_db" where
  "handle env c req = respond env (handler env c req)"

text \<open>What validation gives: an error response, or a payload that satisfies its schema.\<close>

definition body_ok :: "('p \<Rightarrow> bool) \<Rightarrow> 'p body \<Rightarrow> bool" where
  "body_ok P body = (case body of Inl r \<Rightarrow> snd r = 400 | Inr p \<Rightarrow> P p)"

fun request_ok :: "api_request \<Rightarrow> bool" where
  "request_ok (Update_Group g body) = body_ok (\<lambda>_. True) body"
| "request_ok (Create_Group_User g body) = body_ok GroupUserCreateSchema_ok body"
| "request_ok (Add_Group_User g body) = body_ok UserGroupAddSchema_ok body"
| "request_ok (Update_Group_User m body) = body_ok UserGroupUpdateSchema_ok body"
| "request_ok (Delete_Group_User m) = True"
| "request_ok (Create_Team body) = body_ok (\<lambda>_. True) body"
| "request_ok (Update_Team t body) = body_ok (\<lambda>_. True) body"
| "request_ok (Add_Team_User t body) = body_ok TeamUserAddSchema_ok body"
| "request_ok (Update_Team_User m body) = body_ok TeamUserUpdateSchema_ok body"
| "request_ok (Delete_Team_User m) = True"

lemma body_okD: "body_ok P body \<Longrightarrow> body = Inr p \<Longrightarrow> P p"
  by (simp add: body_ok_def)

lemma snd_respond: "snd (respond env h db) = snd (h db)"
  by (auto simp: respond_def split: prod.splits sum.splits db_exn.splits)

lemmas guarded_handlers =
  guarded_update_group guarded_create_group_user guarded_add_group_user guarded_update_group_user
  guarded_delete_group_user guarded_create_team guarded_update_team guarded_add_team_user
  guarded_update_team_user guarded_delete_team_user

text \<open>Every request is a guarded change, whatever it answers.\<close>

lemma handled_guarded: "request_ok req \<Longrightarrow> api_change env c db (snd (handle env c req db))"
  unfolding handle_def snd_respond
  by (cases req) (auto intro!: guarded_handlers [unfolded wp_def] dest: body_okD)

end
