(* ===== verification/Member_Invariant.thy ===== *)
theory Member_Invariant
  imports Member_Steps
begin

text \<open>
  Every request keeps the database well formed: keys and unique indexes, foreign keys, and the
  role names.
\<close>

section \<open>Rows that change\<close>

lemma set_update_row: "x \<in> set (update_row key r rows) \<Longrightarrow> x = r \<or> x \<in> set rows"
  by (auto simp: update_row_def split: if_splits)

lemma set_update_row_iff:
  assumes "distinct (map key rows)" "old \<in> set rows" "key r = key old"
  shows "x \<in> set (update_row key r rows) \<longleftrightarrow> x = r \<or> x \<in> set rows \<and> key x \<noteq> key r"
  using assms by (fastforce simp: update_row_def)

lemma map_update_row:
  assumes "distinct (map key rows)" "old \<in> set rows" "key r = key old" "f r = f old"
  shows "map f (update_row key r rows) = map f rows"
  using assms(1-2) unfolding update_row_def map_map
  by (intro map_cong) (auto simp: assms(3,4) distinct_map inj_on_def)

lemma image_update_row:
  assumes "distinct (map key rows)" "old \<in> set rows" "key r = key old"
  shows "key ` set (update_row key r rows) = key ` set rows"
  using map_update_row [OF assms(1-3), of key] assms(3) by (metis list.set_map)

lemma id_in_update_row:
  "distinct (map key rows) \<Longrightarrow> old \<in> set rows \<Longrightarrow> key r = key old \<Longrightarrow> id_in key (update_row key r rows) = id_in key rows"
  by (auto simp: id_in_def fun_eq_iff image_update_row)

lemma distinct_update_unique:
  assumes "distinct (map key rows)" "distinct (map f rows)" "\<not> slug_taken key f rows (Some (key r)) (f r)"
  shows "distinct (map f (update_row key r rows))"
proof -
  have free: "\<forall>x\<in>set rows. key x \<noteq> key r \<longrightarrow> f x \<noteq> f r"
    using assms(3) by (auto simp: slug_taken_def)
  have other: "update_row key r xs = xs" if "key r \<notin> key ` set xs" for xs
    unfolding update_row_def using that by (intro map_idI) (metis image_eqI)
  from free assms(1,2) show ?thesis
  proof (induction rows)
    case (Cons x rows)
    show ?case
    proof (cases "key x = key r")
      case True
      then have "update_row key r (x # rows) = r # rows"
        using Cons.prems(2) other [of rows] by (simp add: update_row_def)
      moreover have "f r \<notin> f ` set rows"
        using Cons.prems(1,2) True by (metis imageE image_eqI list.set_intros(2) list.simps(9) distinct.simps(2) list.set_map)
      ultimately show ?thesis
        using Cons.prems(3) by simp
    next
      case False
      then have "f x \<notin> f ` set (update_row key r rows)"
        using Cons.prems by (auto dest!: set_update_row)
      moreover have "distinct (map f (update_row key r rows))"
        using Cons by simp
      moreover have "update_row key r (x # rows) = x # update_row key r rows"
        using False by (simp add: update_row_def)
      ultimately show ?thesis
        by simp
    qed
  qed (simp add: update_row_def)
qed

lemma id_in_append [simp]: "id_in key (rows @ [r]) i \<longleftrightarrow> id_in key rows i \<or> i = key r"
  by (auto simp: id_in_def)

lemma fk_ok_append: "fk_ok key rows v \<Longrightarrow> fk_ok key (rows @ [r]) v"
  by (auto simp: fk_ok_def split: option.splits)

lemma fk_ok_update_row:
  "distinct (map key rows) \<Longrightarrow> old \<in> set rows \<Longrightarrow> key r = key old \<Longrightarrow> fk_ok key (update_row key r rows) = fk_ok key rows"
  by (auto simp: fk_ok_def fun_eq_iff id_in_update_row split: option.splits)

lemma find_Some: "find P xs = Some x \<Longrightarrow> x \<in> set xs \<and> P x"
  by (auto simp: find_Some_iff)

lemma fresh_id: "fresh_ids env \<Longrightarrow> env_new_id env ids \<notin> set ids"
  and fresh_nonzero: "fresh_ids env \<Longrightarrow> env_new_id env ids \<noteq> 0"
  by (auto simp: fresh_ids_def)

lemma fresh_row: "fresh_ids env \<Longrightarrow> env_new_id env (map key rows) \<notin> key ` set rows"
  using fresh_id [of env "map key rows"] by simp

lemmas wf_defs = db_wf_def keys_ok_def unique_ok_def refs_ok_def roles_ok_def

lemma db_wf_audited: "audited db db' \<Longrightarrow> db_wf db' = db_wf db"
  by (auto simp: audited_def wf_defs)

section \<open>Repository operations\<close>

text \<open>Replacing one table by its update, or by one more row, from facts about that table.\<close>

lemma wf_update_group:
  assumes wf: "db_wf db" and "update_group gid p db = (Inr g, db')"
  shows "db_wf db'"
proof -
  obtain old where old: "get_group db gid = Inr old" and g: "g = apply_group_patch p old"
    and free: "\<not> slug_taken g_id g_slug (db_groups db) (Some (g_id g)) (g_slug g)"
    and db': "db' = db\<lparr>db_groups := update_row g_id g (db_groups db)\<rparr>"
    using assms(2) by (auto simp: update_group_def Let_def split: sum.splits if_splits)
  have mem: "old \<in> set (db_groups db)" and key: "g_id g = g_id old"
    using old by (auto simp: get_group_Inr [OF wf] g apply_group_patch_def)
  have dist: "distinct (map g_id (db_groups db))"
    using wf by (simp add: wf_defs)
  note upd = id_in_update_row [OF dist mem key] fk_ok_update_row [OF dist mem key]
    map_update_row [OF dist mem key key] image_update_row [OF dist mem key]
  show ?thesis
    using wf distinct_update_unique [OF dist _ free] by (simp add: db' wf_defs upd)
qed

text \<open>A new role and activity for an existing membership.\<close>

lemma wf_group_role:
  assumes wf: "db_wf db" and mem: "old \<in> set (db_user_groups db)" and role: "role \<in> set GROUP_ROLE_VALUES"
  shows "db_wf (db\<lparr>db_user_groups := update_row ug_id (old\<lparr>ug_role := role, ug_active := act\<rparr>) (db_user_groups db)\<rparr>)"
proof -
  let ?m = "old\<lparr>ug_role := role, ug_active := act\<rparr>"
  have dist: "distinct (map ug_id (db_user_groups db))"
    using wf by (simp add: wf_defs)
  have "map ug_id (update_row ug_id ?m (db_user_groups db)) = map ug_id (db_user_groups db)"
    "map (\<lambda>m. (ug_user m, ug_group m)) (update_row ug_id ?m (db_user_groups db))
       = map (\<lambda>m. (ug_user m, ug_group m)) (db_user_groups db)"
    by (rule map_update_row [OF dist mem]; simp)+
  moreover have "\<forall>x\<in>set (update_row ug_id ?m (db_user_groups db)).
      (id_in u_id (db_users db) (ug_user x) \<and> id_in g_id (db_groups db) (ug_group x)) \<and> ug_role x \<in> set GROUP_ROLE_VALUES"
    using wf mem role by (auto simp: wf_defs dest!: set_update_row)
  ultimately show ?thesis
    using wf by (simp add: wf_defs)
qed

lemma wf_team_role:
  assumes wf: "db_wf db" and mem: "old \<in> set (db_team_users db)" and role: "role \<in> set TEAM_ROLE_VALUES"
  shows "db_wf (db\<lparr>db_team_users := update_row tu_id (old\<lparr>tu_role := role, tu_active := act\<rparr>) (db_team_users db)\<rparr>)"
proof -
  let ?m = "old\<lparr>tu_role := role, tu_active := act\<rparr>"
  have dist: "distinct (map tu_id (db_team_users db))"
    using wf by (simp add: wf_defs)
  have "map tu_id (update_row tu_id ?m (db_team_users db)) = map tu_id (db_team_users db)"
    "map (\<lambda>m. (tu_team m, tu_user m)) (update_row tu_id ?m (db_team_users db))
       = map (\<lambda>m. (tu_team m, tu_user m)) (db_team_users db)"
    by (rule map_update_row [OF dist mem]; simp)+
  moreover have "\<forall>x\<in>set (update_row tu_id ?m (db_team_users db)).
      (id_in u_id (db_users db) (tu_user x) \<and> id_in t_id (db_teams db) (tu_team x)) \<and> tu_role x \<in> set TEAM_ROLE_VALUES"
    using wf mem role by (auto simp: wf_defs dest!: set_update_row)
  ultimately show ?thesis
    using wf by (simp add: wf_defs)
qed

lemma wf_add_user_to_group:
  assumes wf: "db_wf db" and fresh: "fresh_ids env" and role: "role \<in> set GROUP_ROLE_VALUES"
    and "add_user_to_group env uid gid role act db = (Inr m, db')"
  shows "db_wf db'"
proof (cases "find (\<lambda>m. ug_user m = uid \<and> ug_group m = gid) (db_user_groups db)")
  case None
  then have "(uid, gid) \<notin> (\<lambda>m. (ug_user m, ug_group m)) ` set (db_user_groups db)"
    by (auto simp: find_None_iff)
  then show ?thesis
    using assms None fresh_row [OF fresh, of ug_id "db_user_groups db"]
    by (auto simp: add_user_to_group_def Let_def wf_defs split: if_splits)
next
  case (Some old)
  then show ?thesis
    using assms(4) wf_group_role [OF wf _ role] find_Some [OF Some] by (auto simp: add_user_to_group_def Let_def)
qed

lemma wf_update_group_membership:
  assumes wf: "db_wf db" and role: "role \<in> set GROUP_ROLE_VALUES"
    and "update_group_membership mid role act db = (Inr m, db')"
  shows "db_wf db'"
  using assms(3) wf_group_role [OF wf _ role]
  by (auto simp: update_group_membership_def Let_def get_group_membership_Inr [OF wf] split: sum.splits)

text \<open>Removing rows from the membership and rotation tables.\<close>

definition prune :: "access_db \<Rightarrow> (user_group_row \<Rightarrow> bool) \<Rightarrow> (team_user_row \<Rightarrow> bool) \<Rightarrow> rotation_member_row list
    \<Rightarrow> layer_member_row list \<Rightarrow> override_row list \<Rightarrow> access_db" where
  "prune db P Q rms lms ovs =
     db\<lparr>db_user_groups := filter P (db_user_groups db), db_team_users := filter Q (db_team_users db),
        db_rotation_members := rms, db_layer_members := lms, db_overrides := ovs\<rparr>"

lemma wf_prune: "db_wf db \<Longrightarrow> db_wf (prune db P Q rms lms ovs)"
  by (auto simp: wf_defs prune_def distinct_map_filter)

lemma prune_folds:
  "db\<lparr>db_rotation_members := rms, db_layer_members := lms, db_overrides := ovs,
      db_team_users := filter Q (db_team_users db), db_user_groups := filter P (db_user_groups db)\<rparr> = prune db P Q rms lms ovs"
  "db\<lparr>db_rotation_members := rms, db_layer_members := lms, db_overrides := ovs,
      db_team_users := filter Q (db_team_users db)\<rparr> = prune db (\<lambda>_. True) Q rms lms ovs"
  by (cases db; simp add: prune_def)+

lemma delete_group_membership_effect:
  assumes "delete_group_membership mid db = (Inr d, db')"
  obtains m g u teams rotations layers where
    "get_group_membership db mid = Inr m" "group_of db (ug_group m) = Inr g" "user_of db (ug_user m) = Inr u"
    "teams = {t_id t | t. t \<in> set (db_teams db) \<and> t_group_id t = Some (g_id g)}"
    "rotations = team_rotation_ids db teams" "layers = rotation_layer_ids db rotations"
    "db' = prune db (\<lambda>r. ug_id r \<noteq> mid) (\<lambda>r. tu_user r = u_id u \<longrightarrow> tu_team r \<notin> teams)
       (filter (\<lambda>r. \<not> of_member (u_id u) rotations r) (db_rotation_members db))
       (filter (\<lambda>r. \<not> of_layer_member (u_id u) layers r) (db_layer_members db))
       (filter (\<lambda>r. \<not> of_override (u_id u) rotations r) (db_overrides db))"
proof -
  obtain m g u where m: "get_group_membership db mid = Inr m" "group_of db (ug_group m) = Inr g" "user_of db (ug_user m) = Inr u"
    using assms by (auto simp: delete_group_membership_def db_bind_def db_read_def split: sum.splits)
  define teams where "teams = {t_id t | t. t \<in> set (db_teams db) \<and> t_group_id t = Some (g_id g)}"
  have teams: "t_id ` {t \<in> set (db_teams db). t_group_id t = Some (g_id g)} = teams"
    by (auto simp: teams_def)
  show ?thesis
    by (rule that [OF m teams_def refl refl])
      (use assms in \<open>auto simp: delete_group_membership_def db_bind_def db_read_def db_return_def atomic_def db_write_def
        m teams delete_from_rotations_def prune_folds(1) Let_def\<close>)
qed

lemma wf_delete_group_membership: "db_wf db \<Longrightarrow> delete_group_membership mid db = (Inr d, db') \<Longrightarrow> db_wf db'"
  by (erule delete_group_membership_effect) (simp add: wf_prune)

lemma delete_team_membership_effect:
  assumes "delete_team_membership mid db = (Inr d, db')"
  obtains m t u rotations layers where
    "get_team_membership db mid = Inr m" "team_of db (tu_team m) = Inr t" "user_of db (tu_user m) = Inr u"
    "rotations = team_rotation_ids db {t_id t}" "layers = rotation_layer_ids db rotations"
    "db' = prune db (\<lambda>_. True) (\<lambda>r. tu_id r \<noteq> mid)
       (filter (\<lambda>r. \<not> of_member (u_id u) rotations r) (db_rotation_members db))
       (filter (\<lambda>r. \<not> of_layer_member (u_id u) layers r) (db_layer_members db))
       (filter (\<lambda>r. \<not> of_override (u_id u) rotations r) (db_overrides db))"
proof -
  obtain m t u where m: "get_team_membership db mid = Inr m" "team_of db (tu_team m) = Inr t" "user_of db (tu_user m) = Inr u"
    using assms by (auto simp: delete_team_membership_def db_bind_def db_read_def split: sum.splits)
  show ?thesis
    by (rule that [OF m refl refl])
      (use assms in \<open>auto simp: delete_team_membership_def db_bind_def db_read_def db_return_def atomic_def db_write_def
        m delete_from_rotations_def prune_folds(2) Let_def\<close>)
qed

lemma wf_delete_team_membership: "db_wf db \<Longrightarrow> delete_team_membership mid db = (Inr d, db') \<Longrightarrow> db_wf db'"
  by (erule delete_team_membership_effect) (simp add: wf_prune)


text \<open>
  A database in which rows of the rotations of the teams \<open>T\<close> may have been changed or removed,
  and nothing else.
\<close>

definition pruned :: "int set \<Rightarrow> access_db \<Rightarrow> access_db \<Rightarrow> bool" where
  "pruned T db db' \<longleftrightarrow> (\<exists>rms lms ovs. db' = prune db (\<lambda>_. True) (\<lambda>_. True) rms lms ovs
     \<and> filter (\<lambda>r. rm_rotation r \<notin> team_rotation_ids db T) rms
         = filter (\<lambda>r. rm_rotation r \<notin> team_rotation_ids db T) (db_rotation_members db)
     \<and> filter (\<lambda>r. lm_layer r \<notin> rotation_layer_ids db (team_rotation_ids db T)) lms
         = filter (\<lambda>r. lm_layer r \<notin> rotation_layer_ids db (team_rotation_ids db T)) (db_layer_members db)
     \<and> filter (\<lambda>r. ov_rotation r \<notin> team_rotation_ids db T) ovs
         = filter (\<lambda>r. ov_rotation r \<notin> team_rotation_ids db T) (db_overrides db))"

lemma prune_all: "prune db (\<lambda>_. True) (\<lambda>_. True) (db_rotation_members db) (db_layer_members db) (db_overrides db) = db"
  by (simp add: prune_def)

lemma pruned_refl [simp]: "pruned T db db"
  unfolding pruned_def
  by (rule exI [of _ "db_rotation_members db"], rule exI [of _ "db_layer_members db"],
    rule exI [of _ "db_overrides db"]) (simp add: prune_all)

lemma filter_map_other: "(\<And>r. P r \<Longrightarrow> f r = r) \<Longrightarrow> (\<And>r. P (f r) \<longleftrightarrow> P r) \<Longrightarrow> filter P (map f rows) = filter P rows"
  by (induction rows) auto

lemma filter_filter_other: "(\<And>r. P r \<Longrightarrow> Q r) \<Longrightarrow> filter P (filter Q rows) = filter P rows"
  by (induction rows) auto

lemma pruned_deactivate: "pruned {t} db (snd (deactivate_user_in_team_rotations t u db))"
proof -
  let ?R = "team_rotation_ids db {t}" and ?L = "rotation_layer_ids db (team_rotation_ids db {t})"
  have "snd (deactivate_user_in_team_rotations t u db) = prune db (\<lambda>_. True) (\<lambda>_. True)
      (map (\<lambda>r. if of_member u ?R r then r\<lparr>rm_active := False\<rparr> else r) (db_rotation_members db))
      (map (\<lambda>r. if of_layer_member u ?L r then r\<lparr>lm_active := False\<rparr> else r) (db_layer_members db))
      (filter (\<lambda>r. \<not> of_override u ?R r) (db_overrides db))"
    by (cases db) (simp add: deactivate_user_in_team_rotations_def Let_def prune_def)
  moreover have "filter (\<lambda>r. rm_rotation r \<notin> ?R) (map (\<lambda>r. if of_member u ?R r then r\<lparr>rm_active := False\<rparr> else r) l)
      = filter (\<lambda>r. rm_rotation r \<notin> ?R) l" for l
    by (rule filter_map_other) (auto simp: of_member_def)
  moreover have "filter (\<lambda>r. lm_layer r \<notin> ?L) (map (\<lambda>r. if of_layer_member u ?L r then r\<lparr>lm_active := False\<rparr> else r) l)
      = filter (\<lambda>r. lm_layer r \<notin> ?L) l" for l
    by (rule filter_map_other) (auto simp: of_layer_member_def)
  moreover have "filter (\<lambda>r. ov_rotation r \<notin> ?R) (filter (\<lambda>r. \<not> of_override u ?R r) l) = filter (\<lambda>r. ov_rotation r \<notin> ?R) l" for l
    by (rule filter_filter_other) (auto simp: of_override_def)
  ultimately show ?thesis
    unfolding pruned_def by blast
qed

text \<open>Adding to a team: the membership table gets the row, then the user may leave the rotations.\<close>

definition put_team_user :: "access_env \<Rightarrow> int \<Rightarrow> int \<Rightarrow> string \<Rightarrow> bool \<Rightarrow> access_db \<Rightarrow> access_db" where
  "put_team_user env team_id user_id role active db = snd (put_team_membership env team_id user_id role active db)"

lemma wf_put_team_user:
  assumes wf: "db_wf db" and fresh: "fresh_ids env" and role: "role \<in> set TEAM_ROLE_VALUES"
  shows "db_wf (put_team_user env tid uid role act db)"
proof (cases "find (\<lambda>m. tu_team m = tid \<and> tu_user m = uid) (db_team_users db)")
  case None
  then have "(tid, uid) \<notin> (\<lambda>m. (tu_team m, tu_user m)) ` set (db_team_users db)"
    by (auto simp: find_None_iff)
  then show ?thesis
    using assms None fresh_row [OF fresh, of tu_id "db_team_users db"]
    by (auto simp: put_team_user_def put_team_membership_def Let_def wf_defs)
next
  case (Some old)
  then show ?thesis
    using wf_team_role [OF wf _ role] find_Some [OF Some]
    by (auto simp: put_team_user_def put_team_membership_def Let_def)
qed

lemma wf_prune_rotations: "db_wf (prune db (\<lambda>_. True) (\<lambda>_. True) rms lms ovs) = db_wf db"
  by (simp add: wf_defs prune_def)

lemma wf_pruned: "pruned T db db' \<Longrightarrow> db_wf db' = db_wf db"
  unfolding pruned_def by (elim exE conjE) (simp only: wf_prune_rotations)

lemma wp_deactivate: "(\<And>r db'. pruned {t} db db' \<Longrightarrow> Q r db') \<Longrightarrow> wp (deactivate_user_in_team_rotations t u) Q db"
  by (simp add: wp_def pruned_deactivate)

lemma team_of_id: "team_of db i = Inr t \<Longrightarrow> t_id t = i"
  by (auto simp: team_of_def dest: find_Some)

lemma put_team_membership_team: "put_team_membership env tid uid role act db = (Inr m, db') \<Longrightarrow> tu_team m = tid"
  by (auto simp: put_team_membership_def Let_def split: option.splits if_splits dest: find_Some)

lemma wp_add_user_to_team:
  "wp (add_user_to_team env tid uid role act) (\<lambda>_. pruned {tid} (put_team_user env tid uid role act db)) db"
proof (cases "put_team_membership env tid uid role act db")
  case (Pair r db1)
  show ?thesis
  proof (cases r)
    case (Inl e)
    then show ?thesis
      using Pair by (simp add: wp_def add_user_to_team_def db_bind_def put_team_user_def)
  next
    case (Inr m)
    have "wp (if act then db_return m
       else db_bind (db_read (\<lambda>db. team_of db (tu_team m))) (\<lambda>t.
            db_bind (db_read (\<lambda>db. user_of db (tu_user m))) (\<lambda>u.
            db_bind (deactivate_user_in_team_rotations (t_id t) (u_id u)) (\<lambda>_. db_return m))))
         (\<lambda>_. pruned {tu_team m} db1) db1"
      by (auto simp: wp_simps split: sum.split intro!: wp_deactivate dest!: team_of_id)
    moreover have "tu_team m = tid"
      using put_team_membership_team Pair Inr by blast
    ultimately show ?thesis
      using Pair Inr by (simp add: wp_def add_user_to_team_def db_bind_def put_team_user_def)
  qed
qed

lemma add_user_to_team_effect:
  "add_user_to_team env tid uid role act db = (r, db') \<Longrightarrow> pruned {tid} (put_team_user env tid uid role act db) db'"
  using wp_add_user_to_team [of env tid uid role act db] by (simp add: wp_def)

lemma wp_update_team_membership:
  assumes "get_team_membership db mid = Inr old"
  shows "wp (update_team_membership mid role act) (\<lambda>r. case r of Inl e \<Rightarrow> \<lambda>_. True | Inr m \<Rightarrow> pruned {tu_team old}
    (db\<lparr>db_team_users := update_row tu_id (old\<lparr>tu_role := role, tu_active := act\<rparr>) (db_team_users db)\<rparr>)) db"
  unfolding update_team_membership_def
  by (auto simp: assms wp_simps Let_def split: sum.split intro!: wp_deactivate dest!: team_of_id)

lemma update_team_membership_effect:
  assumes "update_team_membership mid role act db = (Inr m, db')"
  shows "\<exists>old. get_team_membership db mid = Inr old \<and> pruned {tu_team old}
    (db\<lparr>db_team_users := update_row tu_id (old\<lparr>tu_role := role, tu_active := act\<rparr>) (db_team_users db)\<rparr>) db'"
proof -
  obtain old where old: "get_team_membership db mid = Inr old"
    using assms by (auto simp: update_team_membership_def db_bind_def db_read_def split: sum.splits)
  then show ?thesis
    using assms wp_update_team_membership [OF old, of role act] by (simp add: wp_def)
qed

lemma wf_add_user_to_team:
  "db_wf db \<Longrightarrow> fresh_ids env \<Longrightarrow> role \<in> set TEAM_ROLE_VALUES \<Longrightarrow> add_user_to_team env tid uid role act db = (r, db')
    \<Longrightarrow> db_wf db'"
  using wf_pruned [OF add_user_to_team_effect] wf_put_team_user by blast

lemma wf_update_team_membership:
  assumes "db_wf db" "role \<in> set TEAM_ROLE_VALUES" "update_team_membership mid role act db = (Inr m, db')"
  shows "db_wf db'"
proof -
  obtain old where "get_team_membership db mid = Inr old"
    "pruned {tu_team old} (db\<lparr>db_team_users := update_row tu_id (old\<lparr>tu_role := role, tu_active := act\<rparr>) (db_team_users db)\<rparr>) db'"
    using update_team_membership_effect [OF assms(3)] by blast
  then show ?thesis
    using wf_team_role [OF assms(1) _ assms(2)] wf_pruned by (simp add: get_team_membership_Inr [OF assms(1)])
qed

text \<open>A team row that keeps its id, with a free slug and an existing group.\<close>

lemma wf_set_team:
  assumes wf: "db_wf db" and mem: "old \<in> set (db_teams db)" and key: "t_id t = t_id old"
    and free: "\<not> slug_taken t_id t_slug (db_teams db) (Some (t_id t)) (t_slug t)"
    and grp: "fk_ok g_id (db_groups db) (t_group_id t)"
  shows "db_wf (db\<lparr>db_teams := update_row t_id t (db_teams db)\<rparr>)"
proof -
  have dist: "distinct (map t_id (db_teams db))"
    using wf by (simp add: wf_defs)
  note upd = id_in_update_row [OF dist mem key] map_update_row [OF dist mem key key] image_update_row [OF dist mem key]
  have "\<forall>x\<in>set (update_row t_id t (db_teams db)). fk_ok g_id (db_groups db) (t_group_id x)"
    using wf grp by (auto simp: wf_defs dest!: set_update_row)
  then show ?thesis
    using wf distinct_update_unique [OF dist _ free] by (simp add: wf_defs upd)
qed

lemma wf_create_team:
  assumes wf: "db_wf db" and fresh: "fresh_ids env"
    and "create_team env slug name desc esc rem g act db = (Inr t, db')"
  shows "db_wf db'"
proof (cases "find (\<lambda>t. t_slug t = slug) (db_teams db)")
  case None
  then have "slug \<notin> t_slug ` set (db_teams db)"
    by (auto simp: find_None_iff)
  then show ?thesis
    using assms None fresh_row [OF fresh, of t_id "db_teams db"] fresh_nonzero [OF fresh]
    by (auto simp: create_team_def Let_def wf_defs split: if_splits)
next
  case (Some old)
  have old: "old \<in> set (db_teams db)" "t_slug old = slug"
    using find_Some [OF Some] by simp_all
  have t: "t_id t = t_id old" "t_slug t = t_slug old" "t_group_id t = t_group_id old"
    and db': "db' = db\<lparr>db_teams := update_row t_id t (db_teams db)\<rparr>"
    using assms(3) Some by (auto simp: create_team_def Let_def split: if_splits)
  have "\<not> slug_taken t_id t_slug (db_teams db) (Some (t_id t)) (t_slug t)"
    using wf old(1) by (auto simp: slug_taken_def t wf_defs distinct_map inj_on_def)
  moreover have "fk_ok g_id (db_groups db) (t_group_id t)"
    using wf old(1) by (simp add: t wf_defs)
  ultimately show ?thesis
    unfolding db' by (rule wf_set_team [OF wf old(1) t(1)])
qed

lemma update_team_effect:
  assumes "update_team tid p db = (Inr t, db')"
  obtains old where "get_team db tid = Inr old" "t = apply_team_patch p old"
    "\<not> slug_taken t_id t_slug (db_teams db) (Some (t_id t)) (t_slug t)" "fk_ok g_id (db_groups db) (t_group_id t)"
    "db' = db\<lparr>db_teams := update_row t_id t (db_teams db)\<rparr>"
  using assms by (auto simp: update_team_def Let_def split: sum.splits if_splits)

lemma wf_update_team:
  assumes wf: "db_wf db" and "update_team tid p db = (Inr t, db')"
  shows "db_wf db'"
  using assms(2)
proof (rule update_team_effect)
  fix old assume a: "get_team db tid = Inr old" "t = apply_team_patch p old"
    "\<not> slug_taken t_id t_slug (db_teams db) (Some (t_id t)) (t_slug t)" "fk_ok g_id (db_groups db) (t_group_id t)"
    "db' = db\<lparr>db_teams := update_row t_id t (db_teams db)\<rparr>"
  have "old \<in> set (db_teams db)" "t_id t = t_id old"
    using a(1,2) by (simp_all add: get_team_Inr [OF wf] apply_team_patch_def)
  then show ?thesis
    unfolding a(5) using a(3,4) by (intro wf_set_team [OF wf])
qed

text \<open>A user row that keeps its id and has a free name.\<close>

lemma wf_set_user:
  assumes wf: "db_wf db" and mem: "old \<in> set (db_users db)" and key: "u_id u = u_id old" "u_username u = u_username old"
    and grp: "fk_ok g_id (db_groups db) (u_active_group_id u)"
  shows "db_wf (db\<lparr>db_sso_identities := l, db_users := update_row u_id u (db_users db)\<rparr>)"
proof -
  have dist: "distinct (map u_id (db_users db))"
    using wf by (simp add: wf_defs)
  note upd = id_in_update_row [OF dist mem key(1)] map_update_row [OF dist mem key(1)] image_update_row [OF dist mem key(1)]
  have "\<forall>x\<in>set (update_row u_id u (db_users db)). fk_ok g_id (db_groups db) (u_active_group_id x)"
    using wf grp by (auto simp: wf_defs dest!: set_update_row)
  then show ?thesis
    using wf by (simp add: wf_defs upd key)
qed

lemma create_user_effect:
  assumes "create_user env k db = (Inr u, db')" and wf: "db_wf db"
  obtains "u = new_user_row (env_new_id env (map u_id (db_users db))) k" "nu_username k \<notin> u_username ` set (db_users db)"
      "db' = db\<lparr>db_users := db_users db @ [u]\<rparr>"
    | old l where "old \<in> set (db_users db)" "u_deleted old" "u_username old = nu_username k"
      "u_id u = u_id old" "u_username u = nu_username k" "u_is_admin u = nu_is_admin k" "u_active_group_id u = None"
      "db' = db\<lparr>db_sso_identities := l, db_users := update_row u_id u (db_users db)\<rparr>"
proof (cases "nu_username k \<noteq> [] \<and> (\<exists>old. find (\<lambda>u. u_username u = nu_username k) (db_users db) = Some old \<and> u_deleted old)")
  case True
  then obtain old where old: "find (\<lambda>u. u_username u = nu_username k) (db_users db) = Some old" "u_deleted old"
    by blast
  then have r: "restore_user (u_id old) k db = (Inr u, db')"
    using assms True by (simp add: create_user_def Let_def)
  have mem: "old \<in> set (db_users db)" "u_username old = nu_username k"
    using find_Some [OF old(1)] by simp_all
  then have "get_user db (u_id old) True = Inr old"
    by (simp add: get_user_Inr [OF wf])
  then show ?thesis
    using r old(2) by (intro that(2) [OF mem(1) old(2) mem(2), of "filter (\<lambda>i. i \<noteq> u_id old) (db_sso_identities db)"])
      (auto simp: restore_user_def Let_def)
next
  case False
  then show ?thesis
    using assms(1) that(1) by (auto simp: create_user_def Let_def split: if_splits option.splits)
qed

lemma wf_create_user:
  assumes wf: "db_wf db" and fresh: "fresh_ids env" and "create_user env k db = (Inr u, db')"
  shows "db_wf db'"
  using assms(3) wf
proof (rule create_user_effect)
  assume "u = new_user_row (env_new_id env (map u_id (db_users db))) k" "nu_username k \<notin> u_username ` set (db_users db)"
    "db' = db\<lparr>db_users := db_users db @ [u]\<rparr>"
  then show ?thesis
    using wf fresh_row [OF fresh, of u_id "db_users db"] by (auto simp: wf_defs new_user_row_def fk_ok_def)
next
  fix old l assume "old \<in> set (db_users db)" "u_deleted old" "u_username old = nu_username k"
    "u_id u = u_id old" "u_username u = nu_username k" "u_is_admin u = nu_is_admin k" "u_active_group_id u = None"
    "db' = db\<lparr>db_sso_identities := l, db_users := update_row u_id u (db_users db)\<rparr>"
  then show ?thesis
    using wf_set_user [OF wf, of old u l] by (simp add: fk_ok_def)
qed

lemma set_active_group_effect:
  assumes "set_active_group uid g db = (Inr u, db')" and wf: "db_wf db"
  obtains old where "old \<in> set (db_users db)" "u_id old = uid" "u = old\<lparr>u_active_group_id := g\<rparr>" "fk_ok g_id (db_groups db) g"
    "db' = db\<lparr>db_users := update_row u_id u (db_users db)\<rparr>"
  using assms(1) that by (auto simp: set_active_group_def Let_def get_user_Inr [OF wf] split: sum.splits if_splits)

lemma wf_set_active_group:
  assumes wf: "db_wf db" and "set_active_group uid g db = (Inr u, db')"
  shows "db_wf db'"
  using assms(2,1)
proof (rule set_active_group_effect)
  fix old assume "old \<in> set (db_users db)" "u_id old = uid" "u = old\<lparr>u_active_group_id := g\<rparr>"
    "fk_ok g_id (db_groups db) g" "db' = db\<lparr>db_users := update_row u_id u (db_users db)\<rparr>"
  then show ?thesis
    using wf_set_user [OF wf, of old u "db_sso_identities db"] by simp
qed

section \<open>Requests\<close>

lemma assignable_valid: "role \<in> set GROUP_ASSIGNABLE_BY_USER_ADMIN_VALUES \<Longrightarrow> role \<in> set GROUP_ROLE_VALUES"
  by (auto simp: GROUP_ASSIGNABLE_BY_USER_ADMIN_VALUES_def GROUP_ROLE_VALUES_def)

lemma manager_valid: "TEAM_MANAGER_ROLE \<in> set TEAM_ROLE_VALUES"
  by (simp add: TEAM_ROLE_VALUES_def)

lemma api_change_wf:
  assumes "api_change env c db db'" and wf: "db_wf db" and fresh: "fresh_ids env"
  shows "db_wf db'"
  using assms(1)
proof cases
  case unchanged
  then show ?thesis
    using wf by simp
next
  case (group_updated gid p g db1)
  show ?thesis
    using wf_update_group [OF wf group_updated(2)] db_wf_audited [OF group_updated(3)] by simp
next
  case (user_created gid k role u db1 m db2 u' db3)
  have "db_wf db1"
    by (rule wf_create_user [OF wf fresh user_created(4)])
  then have "db_wf db2"
    by (rule wf_add_user_to_group [OF _ fresh assignable_valid [OF user_created(3)] user_created(5)])
  then have "db_wf db3"
    using user_created(6) by (rule wf_set_active_group)
  then show ?thesis
    using db_wf_audited [OF user_created(7)] by simp
next
  case (group_member_added gid role uid act m db1)
  show ?thesis
    using wf_add_user_to_group [OF wf fresh group_member_added(3,4)] db_wf_audited [OF group_member_added(5)] by simp
next
  case (group_member_updated mid gid role act m db1)
  show ?thesis
    using wf_update_group_membership [OF wf group_member_updated(4,5)] db_wf_audited [OF group_member_updated(6)] by simp
next
  case (group_member_deleted mid gid d db1)
  show ?thesis
    using wf_delete_group_membership [OF wf group_member_deleted(3)] db_wf_audited [OF group_member_deleted(4)] by simp
next
  case (team_created gid slug name desc esc rem act t db1 db2)
  have "db_wf db1"
    by (rule wf_create_team [OF wf fresh team_created(2)])
  then have "db_wf db2"
    using team_created(3) wf_add_user_to_team [OF _ fresh manager_valid] by blast
  then show ?thesis
    using db_wf_audited [OF team_created(4)] by simp
next
  case (team_updated tid t0 p gid t db1)
  show ?thesis
    using wf_update_team [OF wf team_updated(5)] db_wf_audited [OF team_updated(6)] by simp
next
  case (team_member_added tid t role uid act r db1)
  show ?thesis
    using wf_add_user_to_team [OF wf fresh team_member_added(3,4)] db_wf_audited [OF team_member_added(5)] by simp
next
  case (team_member_updated mid tid role act m db1)
  show ?thesis
    using wf_update_team_membership [OF wf team_member_updated(3,4)] db_wf_audited [OF team_member_updated(5)] by simp
next
  case (team_member_deleted mid tid d db1)
  show ?thesis
    using wf_delete_team_membership [OF wf team_member_deleted(3)] db_wf_audited [OF team_member_deleted(4)] by simp
qed

end
