(* ===== verification/Rbac_Correct.thy ===== *)
theory Rbac_Correct
  imports Rbac
begin

text \<open>
  Correctness of role-based access control: the lists of ids agree with the questions about one
  group or team, the permissions form a lattice, and the reach of an API token's group
  restriction.
\<close>

section \<open>Groups\<close>

lemma set_list_teams:
  "t \<in> set (list_teams db ao (Some gs) False) \<longleftrightarrow>
     t \<in> set (db_teams db) \<and> \<not> t_deleted t \<and> (\<exists>g\<in>set gs. t_group_id t = Some g) \<and> (ao \<longrightarrow> t_active t)"
  by (auto simp: list_teams_def team_in_groups_def split: option.splits)

lemma set_list_groups_for_user:
  assumes "db_wf db" "\<not> u_is_admin u"
  shows "g \<in> set (list_groups_for_user db (Some u) w m) \<longleftrightarrow>
    (\<exists>r. get_user_group_role db (u_id u) g = Some r
       \<and> (if m then r = GROUP_USER_ADMIN_ROLE else w \<longrightarrow> r \<in> {GROUP_EDITOR_ROLE, GROUP_USER_ADMIN_ROLE}))"
  using assms(2) by (auto simp: list_groups_for_user_def get_user_group_role_Some [OF assms(1)])

lemma group_role_valid:
  "db_wf db \<Longrightarrow> get_user_group_role db u g = Some r \<Longrightarrow> r \<in> set GROUP_ROLE_VALUES"
  by (auto simp: get_user_group_role_Some db_wf_def roles_ok_def)

lemmas group_roles =
  GROUP_READ_ROLES_def GROUP_WRITE_ROLES_def GROUP_USER_ADMIN_ROLES_def GROUP_ROLE_VALUES_def
lemmas team_roles = TEAM_READ_ROLES_def TEAM_RESPOND_ROLES_def TEAM_WRITE_ROLES_def TEAM_ROLE_VALUES_def

lemma role_in_group [simp]:
  "role_in v GROUP_READ_ROLES \<longleftrightarrow> v = Some GROUP_VIEWER_ROLE \<or> v = Some GROUP_EDITOR_ROLE \<or> v = Some GROUP_USER_ADMIN_ROLE"
  "role_in v GROUP_WRITE_ROLES \<longleftrightarrow> v = Some GROUP_EDITOR_ROLE \<or> v = Some GROUP_USER_ADMIN_ROLE"
  "role_in v GROUP_USER_ADMIN_ROLES \<longleftrightarrow> v = Some GROUP_USER_ADMIN_ROLE"
  by (cases v; auto simp: role_in_def group_roles)+

lemma role_in_team [simp]:
  "role_in v TEAM_READ_ROLES \<longleftrightarrow> v = Some TEAM_VIEWER_ROLE \<or> v = Some TEAM_RESPONDER_ROLE \<or> v = Some TEAM_MANAGER_ROLE"
  "role_in v TEAM_RESPOND_ROLES \<longleftrightarrow> v = Some TEAM_RESPONDER_ROLE \<or> v = Some TEAM_MANAGER_ROLE"
  "role_in v TEAM_WRITE_ROLES \<longleftrightarrow> v = Some TEAM_MANAGER_ROLE"
  by (cases v; auto simp: role_in_def team_roles)+

lemma role_in_mono: "role_in v rs \<Longrightarrow> set rs \<subseteq> set qs \<Longrightarrow> role_in v qs"
  by (auto simp: role_in_def split: option.splits)

lemma manage_imp_write: "can_manage_group_users db u g \<Longrightarrow> can_write_group db u g"
  by (auto simp: can_manage_group_users_def can_write_group_def split: option.splits)

lemma write_imp_read: "can_write_group db u g \<Longrightarrow> can_read_group db u g"
  by (auto simp: can_read_group_def can_write_group_def split: option.splits)

text \<open>For a database whose roles are valid, any role reads its group.\<close>

lemma can_read_group_member:
  "db_wf db \<Longrightarrow> \<not> u_is_admin u \<Longrightarrow>
     can_read_group db (Some u) g \<longleftrightarrow> (\<exists>r. get_user_group_role db (u_id u) g = Some r)"
  by (auto simp: can_read_group_def GROUP_ROLE_VALUES_def dest: group_role_valid)

lemma set_list_groups_for_user_can:
  assumes "db_wf db" "\<not> u_is_admin u"
  shows "set (list_groups_for_user db (Some u) False False) = {g. can_read_group db (Some u) g}"
    and "set (list_groups_for_user db (Some u) True False) = {g. can_write_group db (Some u) g}"
    and "set (list_groups_for_user db (Some u) False True) = {g. can_manage_group_users db (Some u) g}"
  using assms
  by (auto simp: set_list_groups_for_user can_read_group_member can_write_group_def can_manage_group_users_def)

lemma allowed_group_ids_unfiltered:
  assumes "\<not> u_is_admin u" "token_group c = None" 
  shows "get_allowed_group_ids db c (Some u) w m False = list_groups_for_user db (Some u) w m"
  using assms
  by (simp add: get_allowed_group_ids_def current_user_def token_group_filter_def Let_def split: option.splits)

section \<open>Teams\<close>

lemma role_in_iff: "role_in v roles \<longleftrightarrow> (\<exists>r\<in>set roles. v = Some r)"
  by (cases v) (auto simp: role_in_def)

lemma set_list_teams_for_user:
  assumes "db_wf db"
  shows "t \<in> set (list_teams_for_user db uid (Some roles) (Some gs) ao) \<longleftrightarrow>
    t \<in> set (list_teams db ao (Some gs) False) \<and> role_in (get_user_team_role db uid (t_id t)) roles"
  unfolding role_in_iff get_user_team_role_Some [OF assms] by (auto simp: list_teams_for_user_def)

lemma team_group_truthy:
  assumes "db_wf db" "t \<in> set (db_teams db)"
  shows "fk_truthy (t_group_id t) = t_group_id t"
proof (cases "t_group_id t")
  case (Some g)
  then have "id_in g_id (db_groups db) g"
    using assms by (force simp: db_wf_def refs_ok_def fk_ok_def)
  then have "g \<noteq> 0"
    using assms by (auto simp: db_wf_def keys_ok_def id_in_def)
  with Some show ?thesis
    by (simp add: fk_truthy_def)
qed (simp add: fk_truthy_def)

lemma team_ids_of_groups:
  "db_wf db \<Longrightarrow> tid \<in> t_id ` set (list_teams db ao (Some gs) False) \<longleftrightarrow>
    (\<exists>t g. get_team db tid = Inr t \<and> (ao \<longrightarrow> t_active t) \<and> t_group_id t = Some g \<and> g \<in> set gs)"
  unfolding image_iff Bex_def set_list_teams get_team_Inr by blast

lemma team_ids_of_member:
  "db_wf db \<Longrightarrow> tid \<in> t_id ` set (list_teams_for_user db uid (Some roles) (Some gs) ao) \<longleftrightarrow>
    (\<exists>t g. get_team db tid = Inr t \<and> (ao \<longrightarrow> t_active t) \<and> t_group_id t = Some g \<and> g \<in> set gs
       \<and> role_in (get_user_team_role db uid tid) roles)"
  unfolding image_iff Bex_def set_list_teams_for_user set_list_teams get_team_Inr by blast

text \<open>The teams of a user's groups, by what the user may do in the group and the role in the team.\<close>

lemma set_allowed_team_ids:
  assumes wf: "db_wf db" and "\<not> u_is_admin u" "token_group c = None"
  shows "tid \<in> set (get_allowed_team_ids db c (Some u) w r False ao) \<longleftrightarrow>
    (\<exists>t g. get_team db tid = Inr t \<and> (ao \<longrightarrow> t_active t) \<and> t_group_id t = Some g \<and> can_read_group db (Some u) g
       \<and> (can_manage_group_users db (Some u) g
          \<or> role_in (get_user_team_role db (u_id u) tid)
              (if w then TEAM_WRITE_ROLES else if r then TEAM_RESPOND_ROLES else TEAM_READ_ROLES)))"
    (is "?l \<longleftrightarrow> ?r")
proof -
  define gs where "gs = list_groups_for_user db (Some u) False False"
  define ms where "ms = list_groups_for_user db (Some u) False True"
  define roles where "roles = (if w then TEAM_WRITE_ROLES else if r then TEAM_RESPOND_ROLES else TEAM_READ_ROLES)"
  have gs: "g \<in> set gs \<longleftrightarrow> can_read_group db (Some u) g" for g
    using set_list_groups_for_user_can(1) [OF assms(1,2)] by (simp add: gs_def)
  have ms: "g \<in> set ms \<longleftrightarrow> can_manage_group_users db (Some u) g" for g
    using set_list_groups_for_user_can(3) [OF assms(1,2)] by (simp add: ms_def)
  have lists: "get_allowed_team_ids db c (Some u) w r False ao =
      (if gs = [] then [] else sorted_list_of_set
         (t_id ` set (list_teams db ao (Some ms) False)
          \<union> t_id ` set (list_teams_for_user db (u_id u) (Some roles) (Some gs) ao)))"
    using assms(2)
    by (simp add: get_allowed_team_ids_def current_user_def get_managed_group_ids_def roles_def
        allowed_group_ids_unfiltered [OF assms(2,3)] gs_def ms_def Let_def)
  have read: "can_read_group db (Some u) g" if "can_manage_group_users db (Some u) g" for g
    using that manage_imp_write write_imp_read by blast
  show ?thesis
  proof (cases "gs = []")
    case True
    then have "\<not> can_read_group db (Some u) g" for g
      using gs [of g] by simp
    with True show ?thesis
      by (simp add: lists)
  next
    case False
    then have "tid \<in> set (get_allowed_team_ids db c (Some u) w r False ao) \<longleftrightarrow>
        tid \<in> t_id ` set (list_teams db ao (Some ms) False)
        \<or> tid \<in> t_id ` set (list_teams_for_user db (u_id u) (Some roles) (Some gs) ao)"
      by (simp add: lists)
    then show ?thesis
      unfolding team_ids_of_groups [OF wf] team_ids_of_member [OF wf] gs ms roles_def [symmetric] using read by blast
  qed
qed

lemma team_question_iff:
  assumes wf: "db_wf db"
  shows "res_bind (get_team db tid) (\<lambda>t. case fk_truthy (t_group_id t) of None \<Rightarrow> Inr False | Some g \<Rightarrow> Inr (P t g)) = Inr True
    \<longleftrightarrow> (\<exists>t g. get_team db tid = Inr t \<and> t_group_id t = Some g \<and> P t g)"
proof (cases "get_team db tid")
  case (Inr t)
  then have "fk_truthy (t_group_id t) = t_group_id t"
    using team_group_truthy [OF wf] get_team_Inr [OF wf] by blast
  with Inr show ?thesis
    by (simp split: option.splits)
qed simp

lemma can_team_iff:
  assumes "db_wf db" "\<not> u_is_admin u"
  shows "can_read_team db (Some u) tid = Inr True \<longleftrightarrow>
      (\<exists>t g. get_team db tid = Inr t \<and> t_group_id t = Some g
         \<and> (can_manage_group_users db (Some u) g
            \<or> can_read_group db (Some u) g \<and> role_in (get_user_team_role db (u_id u) tid) TEAM_READ_ROLES))"
    and "can_write_team db (Some u) tid = Inr True \<longleftrightarrow>
      (\<exists>t g. get_team db tid = Inr t \<and> t_group_id t = Some g \<and> can_read_group db (Some u) g
         \<and> (can_manage_group_users db (Some u) g \<or> role_in (get_user_team_role db (u_id u) tid) TEAM_WRITE_ROLES))"
    and "can_respond_team db (Some u) tid = Inr True \<longleftrightarrow>
      (\<exists>t g. get_team db tid = Inr t \<and> t_group_id t = Some g \<and> can_read_group db (Some u) g
         \<and> role_in (get_user_team_role db (u_id u) tid) TEAM_RESPOND_ROLES)"
    and "can_view_team_oncall db (Some u) tid = Inr True \<longleftrightarrow>
      (\<exists>t g. get_team db tid = Inr t \<and> t_group_id t = Some g \<and> can_read_group db (Some u) g)"
  using assms(2)
  by (auto simp: can_read_team_def can_write_team_def can_respond_team_def can_view_team_oncall_def
      team_question_iff [OF assms(1)] simp del: role_in_team)

section \<open>Agreement of listing and checking\<close>

lemma set_allowed_resource_ids:
  assumes "db_wf db" "\<not> u_is_admin u" "token_group c = None"
  shows "tid \<in> set (get_allowed_team_or_group_resource_ids db c (Some u) w False ao) \<longleftrightarrow>
    tid \<in> set (get_allowed_team_ids db c (Some u) w False False ao)
    \<or> (\<exists>t g. get_team db tid = Inr t \<and> (ao \<longrightarrow> t_active t) \<and> t_group_id t = Some g \<and> can_write_group db (Some u) g)"
  using set_list_groups_for_user_can(2) [OF assms(1,2)]
  by (simp add: get_allowed_team_or_group_resource_ids_def current_user_def Let_def
      allowed_group_ids_unfiltered [OF assms(2,3)] team_ids_of_groups [OF assms(1)])

lemma set_allowed_oncall_ids:
  assumes "db_wf db" "\<not> u_is_admin u" "token_group c = None"
  shows "tid \<in> set (get_allowed_oncall_team_ids db c (Some u) False ao) \<longleftrightarrow>
    (\<exists>t g. get_team db tid = Inr t \<and> (ao \<longrightarrow> t_active t) \<and> t_group_id t = Some g \<and> can_read_group db (Some u) g)"
  using set_list_groups_for_user_can(1) [OF assms(1,2)]
  by (auto simp: get_allowed_oncall_team_ids_def current_user_def Let_def
      allowed_group_ids_unfiltered [OF assms(2,3)] team_ids_of_groups [OF assms(1)])

lemma can_access_resource_iff:
  assumes wf: "db_wf db" and "\<not> u_is_admin u"
  shows "can_access_team_or_group_resource db (Some u) tid w = Inr True \<longleftrightarrow>
    (if w then can_write_team db (Some u) tid else can_read_team db (Some u) tid) = Inr True
    \<or> (\<exists>t g. get_team db tid = Inr t \<and> t_group_id t = Some g \<and> can_write_group db (Some u) g)"
proof (cases "get_team db tid")
  case (Inl e)
  with assms(2) show ?thesis
    by (simp add: can_access_team_or_group_resource_def can_read_team_def can_write_team_def)
next
  case (Inr t)
  then have "fk_truthy (t_group_id t) = t_group_id t"
    using team_group_truthy [OF wf] get_team_Inr [OF wf] by blast
  with Inr assms(2) show ?thesis
    by (cases "t_group_id t")
      (auto simp: can_access_team_or_group_resource_def can_read_team_def can_write_team_def)
qed

text \<open>
  C25. For a user who is not a global administrator, and without a token's group restriction or
  an active-group filter, the list functions return exactly the groups and the teams on which the
  corresponding check of a single object answers yes: reading, writing and administering groups,
  reading and writing teams, the team-owned resources for reading and writing, and the on-call
  view. Teams a group user-admin may write are listed as respondable although
  \<open>can_respond_team\<close> refuses them; nothing else separates that list from its check.
\<close>

theorem listing_agrees_with_checking:
  assumes "db_wf db" "\<not> u_is_admin u" "token_group c = None"
  shows "(\<forall>g w m. g \<in> set (get_allowed_group_ids db c (Some u) w m False) \<longleftrightarrow>
           (if m then can_manage_group_users db (Some u) g
            else if w then can_write_group db (Some u) g else can_read_group db (Some u) g))
    \<and> (\<forall>tid w. tid \<in> set (get_allowed_team_ids db c (Some u) w False False False) \<longleftrightarrow>
           (if w then can_write_team db (Some u) tid else can_read_team db (Some u) tid) = Inr True)
    \<and> (\<forall>tid. tid \<in> set (get_allowed_team_ids db c (Some u) False True False False) \<longleftrightarrow>
           can_respond_team db (Some u) tid = Inr True \<or> can_write_team db (Some u) tid = Inr True)
    \<and> (\<forall>tid w. tid \<in> set (get_allowed_team_or_group_resource_ids db c (Some u) w False False) \<longleftrightarrow>
           can_access_team_or_group_resource db (Some u) tid w = Inr True)
    \<and> (\<forall>tid. tid \<in> set (get_allowed_oncall_team_ids db c (Some u) False False) \<longleftrightarrow>
           can_view_team_oncall db (Some u) tid = Inr True)"
proof -
  note team = set_allowed_team_ids [OF assms] can_team_iff [OF assms(1,2)]
  have read: "can_read_group db (Some u) g" if "can_manage_group_users db (Some u) g" for g
    using that manage_imp_write write_imp_read by blast
  have teams: "tid \<in> set (get_allowed_team_ids db c (Some u) w False False False) \<longleftrightarrow>
      (if w then can_write_team db (Some u) tid else can_read_team db (Some u) tid) = Inr True" for tid w
    unfolding team using read by (auto simp: team simp del: role_in_team)
  have "g \<in> set (get_allowed_group_ids db c (Some u) w m False) \<longleftrightarrow>
      (if m then can_manage_group_users db (Some u) g
       else if w then can_write_group db (Some u) g else can_read_group db (Some u) g)" for g w m
    using set_list_groups_for_user [OF assms(1,2), of g w m] set_list_groups_for_user_can [OF assms(1,2)]
    by (cases m; cases w) (auto simp: allowed_group_ids_unfiltered [OF assms(2,3)] set_list_groups_for_user [OF assms(1,2)])
  moreover have "tid \<in> set (get_allowed_team_ids db c (Some u) False True False False) \<longleftrightarrow>
      can_respond_team db (Some u) tid = Inr True \<or> can_write_team db (Some u) tid = Inr True" for tid
    unfolding team by auto
  moreover have "tid \<in> set (get_allowed_team_or_group_resource_ids db c (Some u) w False False) \<longleftrightarrow>
      can_access_team_or_group_resource db (Some u) tid w = Inr True" for tid w
    unfolding set_allowed_resource_ids [OF assms] can_access_resource_iff [OF assms(1,2)] teams by simp
  moreover have "tid \<in> set (get_allowed_oncall_team_ids db c (Some u) False False) \<longleftrightarrow>
      can_view_team_oncall db (Some u) tid = Inr True" for tid
    unfolding set_allowed_oncall_ids [OF assms] team by simp
  ultimately show ?thesis
    using teams by blast
qed

section \<open>Order of the permissions\<close>

lemma manage_team_is_write: "can_manage_team_users db user tid = can_write_team db user tid"
  using manage_imp_write [THEN write_imp_read]
  by (cases user; cases "get_team db tid")
    (auto simp: can_write_team_def can_manage_team_users_def split: option.splits if_splits)

text \<open>
  What a permission implies. In a group: administering users implies writing, writing implies
  reading. On a team: writing or responding implies reading, and reading implies seeing its
  on-call schedule; administering its members is the same question as writing it, whatever the
  answer, errors included. A right to write team-owned resources implies the right to read them.
\<close>

theorem permission_order:
  "(can_manage_group_users db user g \<longrightarrow> can_write_group db user g)
   \<and> (can_write_group db user g \<longrightarrow> can_read_group db user g)
   \<and> (can_write_team db user tid = Inr True \<longrightarrow> can_read_team db user tid = Inr True)
   \<and> (can_respond_team db user tid = Inr True \<longrightarrow> can_read_team db user tid = Inr True)
   \<and> (can_read_team db user tid = Inr True \<longrightarrow> can_view_team_oncall db user tid = Inr True)
   \<and> can_manage_team_users db user tid = can_write_team db user tid
   \<and> (can_access_team_or_group_resource db user tid True = Inr True \<longrightarrow>
       can_access_team_or_group_resource db user tid False = Inr True)"
proof -
  have imp: "can_manage_group_users db user g \<Longrightarrow> can_read_group db user g"
    "can_write_group db user g \<Longrightarrow> can_read_group db user g" for g
    using manage_imp_write write_imp_read by blast+
  have "can_write_team db user tid = Inr True \<Longrightarrow> can_read_team db user tid = Inr True"
    "can_respond_team db user tid = Inr True \<Longrightarrow> can_read_team db user tid = Inr True"
    "can_read_team db user tid = Inr True \<Longrightarrow> can_view_team_oncall db user tid = Inr True"
    "can_access_team_or_group_resource db user tid True = Inr True \<Longrightarrow>
       can_access_team_or_group_resource db user tid False = Inr True"
    using imp
    by (cases user; cases "get_team db tid";
        auto simp: can_write_team_def can_read_team_def can_respond_team_def can_view_team_oncall_def
          can_access_team_or_group_resource_def
          split: option.splits if_splits)+
  then show ?thesis
    using manage_imp_write write_imp_read manage_team_is_write by blast
qed

section \<open>The group restriction of an API token\<close>

lemma token_filter_subset:
  "token_group c = Some g \<Longrightarrow> set (get_allowed_group_ids db c user w m a) \<subseteq> {g}"
  by (auto simp: get_allowed_group_ids_def token_group_filter_def Let_def split: option.splits if_splits)

lemma current_user_idem [simp]: "current_user c (current_user c v) = current_user c v"
  by (auto simp: current_user_def split: option.splits)

lemma team_ids_within:
  assumes "set gs \<subseteq> {g}"
  shows "t_id ` set (list_teams db ao (Some gs) False) \<subseteq> {tid. \<exists>t\<in>set (db_teams db). t_id t = tid \<and> t_group_id t = Some g}"
    and "t_id ` set (list_teams_for_user db uid roles (Some gs) ao)
      \<subseteq> {tid. \<exists>t\<in>set (db_teams db). t_id t = tid \<and> t_group_id t = Some g}"
  using assms by (fastforce simp: set_list_teams list_teams_for_user_def)+

lemma finite_team_ids [simp]: "finite {tid. \<exists>t\<in>set (db_teams db). t_id t = tid \<and> t_group_id t = Some g}"
  by (rule finite_subset [of _ "t_id ` set (db_teams db)"]) auto

lemma allowed_teams_within:
  assumes "token_group c = Some g"
  shows "set (get_allowed_team_ids db c user w r a ao) \<subseteq> {tid. \<exists>t\<in>set (db_teams db). t_id t = tid \<and> t_group_id t = Some g}"
  using team_ids_within [OF token_filter_subset [OF assms, of db]]
  by (simp add: get_allowed_team_ids_def get_managed_group_ids_def Let_def split: option.split)

lemma allowed_resources_within:
  assumes "token_group c = Some g"
  shows "set (get_allowed_team_or_group_resource_ids db c user w a ao)
    \<subseteq> {tid. \<exists>t\<in>set (db_teams db). t_id t = tid \<and> t_group_id t = Some g}"
  using allowed_teams_within [OF assms, of db] team_ids_within(1) [OF token_filter_subset [OF assms, of db]]
  by (simp add: get_allowed_team_or_group_resource_ids_def Let_def)

lemma require_team_token: "require_team can denied db (c\<lparr>rq_token := v\<rparr>) tid = require_team can denied db c tid"
  by (simp add: require_team_def is_admin_user_def current_user_def)

text \<open>
  C36. An API token bound to a group confines every list of ids, and the group-read guard, to that
  group: no id of another group or of another group's team is ever returned. The guards of single
  objects do not look at the token at all: group writes, user administration, and all team guards
  answer as they do for the same user without a token, in every group the user belongs to.
\<close>

theorem token_group_restriction:
  assumes "token_group c = Some g"
  shows "set (get_allowed_group_ids db c user w m a) \<subseteq> {g}
    \<and> set (get_allowed_team_ids db c user w r a ao) \<subseteq> {tid. \<exists>t\<in>set (db_teams db). t_id t = tid \<and> t_group_id t = Some g}
    \<and> set (get_allowed_team_or_group_resource_ids db c user w a ao)
        \<subseteq> {tid. \<exists>t\<in>set (db_teams db). t_id t = tid \<and> t_group_id t = Some g}
    \<and> (require_group_read db c g' = None \<longrightarrow> g' = g)
    \<and> require_group_write db c g' = require_group_write db (c\<lparr>rq_token := None\<rparr>) g'
    \<and> require_group_user_admin db c g' = require_group_user_admin db (c\<lparr>rq_token := None\<rparr>) g'
    \<and> require_team_read db c tid = require_team_read db (c\<lparr>rq_token := None\<rparr>) tid
    \<and> require_team_respond db c tid = require_team_respond db (c\<lparr>rq_token := None\<rparr>) tid
    \<and> require_team_write db c tid = require_team_write db (c\<lparr>rq_token := None\<rparr>) tid
    \<and> require_team_user_admin db c tid = require_team_user_admin db (c\<lparr>rq_token := None\<rparr>) tid"
proof -
  have "require_group_read db c g' = None \<longrightarrow> g' = g"
    using token_filter_subset [OF assms, of db None False False False]
    by (auto simp: require_group_read_def)
  moreover have "require_group_write db c g' = require_group_write db (c\<lparr>rq_token := None\<rparr>) g'"
    "require_group_user_admin db c g' = require_group_user_admin db (c\<lparr>rq_token := None\<rparr>) g'"
    by (simp_all add: require_group_write_def require_group_user_admin_def is_admin_user_def current_user_def)
  ultimately show ?thesis
    using token_filter_subset [OF assms] allowed_teams_within [OF assms] allowed_resources_within [OF assms]
    unfolding require_team_read_def require_team_respond_def require_team_write_def require_team_user_admin_def
      require_team_token
    by blast
qed

section \<open>A database for the examples\<close>

text \<open>
  Three groups with a team each. Ann is a viewer of the first and user-admin of the second group,
  Bob a viewer of the second and on call for its team, Cleo user-admin of the third. Ann's token is
  bound to the first group.
\<close>

definition example_group :: "int \<Rightarrow> string \<Rightarrow> group_row" where
  "example_group i slug = \<lparr>g_id = i, g_slug = slug, g_name = slug, g_description = None, g_active = True,
     g_deleted = False, g_deleted_at = None\<rparr>"

definition example_team :: "int \<Rightarrow> int \<Rightarrow> string \<Rightarrow> team_row" where
  "example_team i g slug = \<lparr>t_id = i, t_group_id = Some g, t_slug = slug, t_name = slug, t_description = None,
     t_escalation_enabled = True, t_escalation_after_reminders = 2, t_active = True, t_deleted = False,
     t_deleted_at = None\<rparr>"

definition example_user :: "int \<Rightarrow> string \<Rightarrow> bool \<Rightarrow> user_row" where
  "example_user i name admin = \<lparr>u_id = i, u_username = name, u_display_name = None, u_email = None, u_phone = None,
     u_timezone = None, u_locale = None, u_theme = ''system'', u_telegram_user_id = None,
     u_slack_user_id = None, u_mattermost_user_id = None, u_notify_start_email = True,
     u_notify_end_email = True, u_notify_start_mattermost = True, u_password_hash = None, u_active = True,
     u_is_admin = admin, u_active_group_id = None, u_deleted = False, u_deleted_at = None\<rparr>"

definition example_token :: api_token_row where
  "example_token = \<lparr>at_id = 1, at_user_id = Some 1, at_group_id = Some 1, at_team_id = None, at_name = ''ci'',
     at_token_prefix = ''abc'', at_token_hash = ''h'', at_scopes = [''teams:write''], at_expires_at = None,
     at_active = True, at_deleted = False\<rparr>"

definition example_db :: access_db where
  "example_db = \<lparr>db_groups = [example_group 1 ''a'', example_group 2 ''b'', example_group 3 ''c''],
     db_teams = [example_team 1 1 ''ta'', example_team 2 2 ''tb'', example_team 3 3 ''tc''],
     db_users = [example_user 1 ''ann'' False, example_user 2 ''bob'' False, example_user 3 ''cleo'' False],
     db_user_groups = [\<lparr>ug_id = 1, ug_user = 1, ug_group = 1, ug_role = ''viewer'', ug_active = True\<rparr>,
       \<lparr>ug_id = 2, ug_user = 1, ug_group = 2, ug_role = ''user_admin'', ug_active = True\<rparr>,
       \<lparr>ug_id = 3, ug_user = 2, ug_group = 2, ug_role = ''viewer'', ug_active = True\<rparr>,
       \<lparr>ug_id = 4, ug_user = 3, ug_group = 3, ug_role = ''user_admin'', ug_active = True\<rparr>],
     db_team_users = [\<lparr>tu_id = 1, tu_team = 1, tu_user = 1, tu_role = ''responder'', tu_active = True\<rparr>],
     db_rotations = [\<lparr>rt_id = 1, rt_team = 2\<rparr>],
     db_rotation_members = [\<lparr>rm_rotation = 1, rm_user = 2, rm_active = True\<rparr>],
     db_rotation_layers = [\<lparr>ly_id = 1, ly_rotation = 1\<rparr>],
     db_layer_members = [\<lparr>lm_layer = 1, lm_user = 2, lm_active = True\<rparr>],
     db_overrides = [\<lparr>ov_rotation = 1, ov_user = 2\<rparr>],
     db_sso_identities = [], db_api_tokens = [example_token], db_audit_logs = []\<rparr>"

definition ann :: user_row where "ann = example_user 1 ''ann'' False"
definition bob :: user_row where "bob = example_user 2 ''bob'' False"

definition example_env :: access_env where
  "example_env = \<lparr>env_new_id = (\<lambda>ids. 1 + fold max ids 0), env_now = 0, env_re_sub = (\<lambda>_ s. s),
     env_hash_password = (\<lambda>s. s), env_raw_token = ''raw-token-text'', env_hash_token = (\<lambda>s. s), env_error_id = ''e''\<rparr>"

definition ann_ctx :: request_ctx where "ann_ctx = \<lparr>rq_user = Some ann, rq_token = None\<rparr>"

lemma fold_max_upper: "(a::int) \<le> fold max ids a" "i \<in> set ids \<Longrightarrow> i \<le> fold max ids a"
proof (induction ids arbitrary: a)
  case (Cons x ids)
  {
    case 1
    show ?case using Cons(1) [of "max x a"] by simp
  next
    case 2
    then show ?case using Cons(1,2) [of "max x a"] by (force simp: max_def split: if_splits)
  }
qed simp_all

lemma example_env_fresh: "fresh_ids example_env"
proof -
  have "1 + fold max ids 0 \<notin> set ids \<and> 1 + fold max ids (0::int) \<noteq> 0" for ids
    using fold_max_upper [of 0 ids] fold_max_upper(2) [of "1 + fold max ids 0" ids 0] by fastforce
  then show ?thesis
    by (simp add: fresh_ids_def example_env_def)
qed

lemma example_db_wf: "db_wf example_db"
  by code_simp

lemma listing_agrees_with_checking_witness:
  "(2 \<in> set (get_allowed_team_ids example_db \<lparr>rq_user = None, rq_token = None\<rparr> (Some ann) False True False False))
   \<and> can_respond_team example_db (Some ann) 2 = Inr False \<and> can_write_team example_db (Some ann) 2 = Inr True"
proof -
  have "can_respond_team example_db (Some ann) 2 = Inr False" "can_write_team example_db (Some ann) 2 = Inr True"
    by code_simp+
  moreover have "\<not> u_is_admin ann" "token_group \<lparr>rq_user = None, rq_token = None\<rparr> = None"
    by code_simp+
  ultimately show ?thesis
    using listing_agrees_with_checking [OF example_db_wf, of ann "\<lparr>rq_user = None, rq_token = None\<rparr>"] by blast
qed

lemma permission_order_witness:
  "can_read_team example_db (Some ann) 1 = Inr True \<and> can_view_team_oncall example_db (Some ann) 1 = Inr True"
proof -
  have "can_respond_team example_db (Some ann) 1 = Inr True"
    by code_simp
  then show ?thesis
    using permission_order [of example_db "Some ann" 1 1] by blast
qed

lemma token_group_restriction_witness:
  "set (get_allowed_group_ids example_db \<lparr>rq_user = Some ann, rq_token = Some example_token\<rparr> None True False True) \<subseteq> {1}
   \<and> require_team_write example_db \<lparr>rq_user = Some ann, rq_token = Some example_token\<rparr> 2 = Inr None
   \<and> require_group_read example_db \<lparr>rq_user = Some ann, rq_token = Some example_token\<rparr> 2 \<noteq> None"
proof -
  let ?c = "\<lparr>rq_user = Some ann, rq_token = Some example_token\<rparr>"
  have "token_group ?c = Some 1"
    by code_simp
  note * = token_group_restriction [OF this, of example_db]
  have "require_team_write example_db (?c\<lparr>rq_token := None\<rparr>) 2 = Inr None"
    by code_simp
  then have "require_team_write example_db ?c 2 = Inr None"
    using * [of None True False True False False 1 2] by simp
  then show ?thesis
    using * [of None True False True False False 2 2] by auto
qed

end
