(* ===== verification/Member_Safety.thy ===== *)
theory Member_Safety
  imports Member_Invariant Rbac_Correct Token_Scopes
begin

text \<open>
  What no sequence of membership and team requests can do: touch a group from outside it, or
  make an administrator; and what removing a member takes away.
\<close>

section \<open>Sequences of requests\<close>

text \<open>The user and the token of an authenticated request are rows of the database.\<close>

definition authenticated :: "access_db \<Rightarrow> request_ctx \<Rightarrow> bool" where
  "authenticated db c \<longleftrightarrow>
     (case rq_user c of None \<Rightarrow> True | Some u \<Rightarrow> u \<in> set (db_users db) \<and> u_active u)
     \<and> (case rq_token c of None \<Rightarrow> True | Some t \<Rightarrow> t \<in> set (db_api_tokens db))"

inductive api_run :: "access_env \<Rightarrow> access_db \<Rightarrow> (request_ctx \<times> api_request) list \<Rightarrow> access_db \<Rightarrow> bool" for env where
  nil: "api_run env db [] db"
| cons: "authenticated db c \<Longrightarrow> request_ok req \<Longrightarrow> api_run env (snd (handle env c req db)) xs db'
    \<Longrightarrow> api_run env db ((c, req) # xs) db'"

inductive_simps api_run_nil [simp]: "api_run env db [] db'"
inductive_cases api_run_consE: "api_run env db ((c, req) # xs) db'"

text \<open>
  C24. Every sequence of authenticated, validated requests keeps the database well formed: primary
  keys and unique indexes stay unique, every membership, team and active group refers to existing
  rows, and every role is one the schemas name.
\<close>

theorem requests_keep_database_well_formed:
  assumes "api_run env db xs db'" "db_wf db" "fresh_ids env"
  shows "db_wf db'"
  using assms
proof (induction rule: api_run.induct)
  case (cons db c req xs db')
  then show ?case
    using api_change_wf [OF handled_guarded] by blast
qed

section \<open>Isolation of a group\<close>

definition group_teams :: "access_db \<Rightarrow> int \<Rightarrow> int set" where
  "group_teams db g = {t_id t | t. t \<in> set (db_teams db) \<and> t_group_id t = Some g}"

text \<open>All that belongs to a group: its row, members, teams, their members and their rotations.\<close>

definition group_part :: "access_db \<Rightarrow> int \<Rightarrow>
    group_row list \<times> user_group_row list \<times> team_row list \<times> team_user_row list
    \<times> rotation_member_row list \<times> layer_member_row list \<times> override_row list" where
  "group_part db g =
     (let teams = group_teams db g; rotations = team_rotation_ids db teams; layers = rotation_layer_ids db rotations
      in (filter (\<lambda>r. g_id r = g) (db_groups db), filter (\<lambda>m. ug_group m = g) (db_user_groups db),
          filter (\<lambda>t. t_group_id t = Some g) (db_teams db), filter (\<lambda>m. tu_team m \<in> teams) (db_team_users db),
          filter (\<lambda>r. rm_rotation r \<in> rotations) (db_rotation_members db),
          filter (\<lambda>r. lm_layer r \<in> layers) (db_layer_members db),
          filter (\<lambda>r. ov_rotation r \<in> rotations) (db_overrides db)))"

lemma group_teams_filter: "group_teams db g = t_id ` set (filter (\<lambda>t. t_group_id t = Some g) (db_teams db))"
  by (auto simp: group_teams_def)

lemma filter_update_row:
  assumes "distinct (map key rows)" "old \<in> set rows" "key r = key old" "\<not> P old" "\<not> P r"
  shows "filter P (update_row key r rows) = filter P rows"
proof -
  have "P (if key x = key r then r else x) \<longleftrightarrow> P x" "P x \<Longrightarrow> (if key x = key r then r else x) = x" if "x \<in> set rows" for x
    using assms that by (auto simp: distinct_map inj_on_def)
  then show ?thesis
    unfolding update_row_def by (induction rows) auto
qed

lemma filter_other: "(\<And>r. r \<in> set rows \<Longrightarrow> P r \<Longrightarrow> Q r) \<Longrightarrow> filter P (filter Q rows) = filter P rows"
  by (induction rows) auto

text \<open>A changed table outside the group leaves the group's part alone.\<close>

lemma group_part_eqI:
  assumes "filter (\<lambda>r. g_id r = g) (db_groups db') = filter (\<lambda>r. g_id r = g) (db_groups db)"
    and "filter (\<lambda>m. ug_group m = g) (db_user_groups db') = filter (\<lambda>m. ug_group m = g) (db_user_groups db)"
    and "filter (\<lambda>t. t_group_id t = Some g) (db_teams db') = filter (\<lambda>t. t_group_id t = Some g) (db_teams db)"
    and "filter (\<lambda>m. tu_team m \<in> group_teams db g) (db_team_users db') = filter (\<lambda>m. tu_team m \<in> group_teams db g) (db_team_users db)"
    and "db_rotations db' = db_rotations db" "db_rotation_layers db' = db_rotation_layers db"
    and "filter (\<lambda>r. rm_rotation r \<in> team_rotation_ids db (group_teams db g)) (db_rotation_members db')
       = filter (\<lambda>r. rm_rotation r \<in> team_rotation_ids db (group_teams db g)) (db_rotation_members db)"
    and "filter (\<lambda>r. lm_layer r \<in> rotation_layer_ids db (team_rotation_ids db (group_teams db g))) (db_layer_members db')
       = filter (\<lambda>r. lm_layer r \<in> rotation_layer_ids db (team_rotation_ids db (group_teams db g))) (db_layer_members db)"
    and "filter (\<lambda>r. ov_rotation r \<in> team_rotation_ids db (group_teams db g)) (db_overrides db')
       = filter (\<lambda>r. ov_rotation r \<in> team_rotation_ids db (group_teams db g)) (db_overrides db)"
  shows "group_part db' g = group_part db g"
proof -
  have teams: "group_teams db' g = group_teams db g"
    by (simp add: group_teams_filter assms(3))
  moreover have "team_rotation_ids db' T = team_rotation_ids db T" "rotation_layer_ids db' R = rotation_layer_ids db R" for T R
    by (simp_all add: team_rotation_ids_def rotation_layer_ids_def assms(5,6))
  ultimately show ?thesis
    by (simp add: group_part_def Let_def assms)
qed

lemma group_part_audited: "audited db db' \<Longrightarrow> group_part db' g = group_part db g"
  by (auto simp: audited_def intro!: group_part_eqI)

lemma same_key: "distinct (map key rows) \<Longrightarrow> x \<in> set rows \<Longrightarrow> y \<in> set rows \<Longrightarrow> key x = key y \<Longrightarrow> x = y"
  by (meson distinct_map inj_onD)

lemma keys_disjoint:
  assumes "distinct (map key rows)" "\<And>r. r \<in> set rows \<Longrightarrow> P r \<Longrightarrow> \<not> Q r"
  shows "key ` {r \<in> set rows. P r} \<inter> key ` {r \<in> set rows. Q r} = {}"
  using assms(2) same_key [OF assms(1)] by blast

lemma rotations_disjoint:
  assumes "db_wf db" "T \<inter> U = {}"
  shows "team_rotation_ids db T \<inter> team_rotation_ids db U = {}"
    and "rotation_layer_ids db (team_rotation_ids db T) \<inter> rotation_layer_ids db (team_rotation_ids db U) = {}"
proof -
  have dist: "distinct (map rt_id (db_rotations db))" "distinct (map ly_id (db_rotation_layers db))"
    using assms(1) by (simp_all add: wf_defs)
  show rt: "team_rotation_ids db T \<inter> team_rotation_ids db U = {}"
    using keys_disjoint [OF dist(1), of "\<lambda>r. rt_team r \<in> T" "\<lambda>r. rt_team r \<in> U"] assms(2)
    by (auto simp: team_rotation_ids_def)
  show "rotation_layer_ids db (team_rotation_ids db T) \<inter> rotation_layer_ids db (team_rotation_ids db U) = {}"
    using keys_disjoint [OF dist(2), of "\<lambda>l. ly_rotation l \<in> team_rotation_ids db T" "\<lambda>l. ly_rotation l \<in> team_rotation_ids db U"] rt
    by (auto simp: rotation_layer_ids_def)
qed

lemma not_in_group_teams:
  assumes "db_wf db" "t \<in> set (db_teams db)" "t_group_id t \<noteq> Some g"
  shows "t_id t \<notin> group_teams db g"
proof
  assume "t_id t \<in> group_teams db g"
  then obtain s where "s \<in> set (db_teams db)" "t_group_id s = Some g" "t_id s = t_id t"
    by (force simp: group_teams_def)
  then have "s = t"
    using assms(1,2) by (intro same_key [of t_id "db_teams db"]) (simp_all add: wf_defs)
  with \<open>t_group_id s = Some g\<close> assms(3) show False
    by simp
qed

lemma group_teams_disjoint: "db_wf db \<Longrightarrow> g \<noteq> h \<Longrightarrow> group_teams db g \<inter> group_teams db h = {}"
proof (rule equals0I)
  fix i assume "db_wf db" "g \<noteq> h" "i \<in> group_teams db g \<inter> group_teams db h"
  then obtain t where "t \<in> set (db_teams db)" "t_group_id t = Some g" "i = t_id t" "i \<in> group_teams db h"
    unfolding group_teams_def by blast
  then show False
    using not_in_group_teams [of db t h] \<open>db_wf db\<close> \<open>g \<noteq> h\<close> by simp
qed

lemma group_part_pruned:
  assumes "pruned T db db'" "db_wf db" "T \<inter> group_teams db g = {}"
  shows "group_part db' g = group_part db g"
proof -
  note disj = rotations_disjoint [OF assms(2,3)]
  have via: "filter P xs = filter P ys" if "filter Q xs = filter Q ys" "\<And>r. P r \<Longrightarrow> Q r" for P Q :: "'r \<Rightarrow> bool" and xs ys
    by (metis that filter_filter_other)
  obtain rms lms ovs where db': "db' = prune db (\<lambda>_. True) (\<lambda>_. True) rms lms ovs"
    and rest: "filter (\<lambda>r. rm_rotation r \<notin> team_rotation_ids db T) rms
        = filter (\<lambda>r. rm_rotation r \<notin> team_rotation_ids db T) (db_rotation_members db)"
      "filter (\<lambda>r. lm_layer r \<notin> rotation_layer_ids db (team_rotation_ids db T)) lms
        = filter (\<lambda>r. lm_layer r \<notin> rotation_layer_ids db (team_rotation_ids db T)) (db_layer_members db)"
      "filter (\<lambda>r. ov_rotation r \<notin> team_rotation_ids db T) ovs
        = filter (\<lambda>r. ov_rotation r \<notin> team_rotation_ids db T) (db_overrides db)"
    using assms(1) unfolding pruned_def by blast
  have "filter (\<lambda>r. rm_rotation r \<in> team_rotation_ids db (group_teams db g)) rms
      = filter (\<lambda>r. rm_rotation r \<in> team_rotation_ids db (group_teams db g)) (db_rotation_members db)"
    by (rule via [OF rest(1)]) (use disj in blast)
  moreover have "filter (\<lambda>r. lm_layer r \<in> rotation_layer_ids db (team_rotation_ids db (group_teams db g))) lms
      = filter (\<lambda>r. lm_layer r \<in> rotation_layer_ids db (team_rotation_ids db (group_teams db g))) (db_layer_members db)"
    by (rule via [OF rest(2)]) (use disj in blast)
  moreover have "filter (\<lambda>r. ov_rotation r \<in> team_rotation_ids db (group_teams db g)) ovs
      = filter (\<lambda>r. ov_rotation r \<in> team_rotation_ids db (group_teams db g)) (db_overrides db)"
    by (rule via [OF rest(3)]) (use disj in blast)
  ultimately show ?thesis
    by (intro group_part_eqI) (simp_all add: db' prune_def)
qed

text \<open>What a change does to the memberships of a group, given the groups it is about.\<close>

lemma group_part_update_group:
  assumes wf: "db_wf db" and "update_group gid p db = (Inr r, db')" and "gid \<noteq> g"
  shows "group_part db' g = group_part db g"
proof -
  obtain old where old: "get_group db gid = Inr old" and r: "r = apply_group_patch p old"
    and db': "db' = db\<lparr>db_groups := update_row g_id r (db_groups db)\<rparr>"
    using assms(2) by (auto simp: update_group_def Let_def split: sum.splits if_splits)
  have "old \<in> set (db_groups db)" "g_id r = g_id old" "g_id old \<noteq> g"
    using old assms(3) by (auto simp: get_group_Inr [OF wf] r apply_group_patch_def)
  moreover have "distinct (map g_id (db_groups db))"
    using wf by (simp add: wf_defs)
  ultimately show ?thesis
    by (intro group_part_eqI) (auto simp: db' filter_update_row)
qed

lemma group_part_update_membership:
  assumes wf: "db_wf db" and "old \<in> set (db_user_groups db)" "ug_group old \<noteq> g"
  shows "group_part (db\<lparr>db_user_groups := update_row ug_id (old\<lparr>ug_role := r, ug_active := a\<rparr>) (db_user_groups db)\<rparr>) g = group_part db g"
proof -
  have "distinct (map ug_id (db_user_groups db))"
    using wf by (simp add: wf_defs)
  then show ?thesis
    using assms(2,3) by (intro group_part_eqI) (auto intro!: filter_update_row)
qed

lemma group_part_add_user_to_group:
  assumes wf: "db_wf db" and "add_user_to_group env uid gid role act db = (Inr m, db')" "gid \<noteq> g"
  shows "group_part db' g = group_part db g"
proof (cases "find (\<lambda>m. ug_user m = uid \<and> ug_group m = gid) (db_user_groups db)")
  case None
  then show ?thesis
    using assms(2,3) by (intro group_part_eqI) (auto simp: add_user_to_group_def Let_def split: if_splits)
next
  case (Some old)
  then show ?thesis
    using assms(2,3) find_Some [OF Some] group_part_update_membership [OF wf, of old g]
    by (auto simp: add_user_to_group_def Let_def)
qed

lemma group_part_users: "group_part (db\<lparr>db_users := us, db_sso_identities := l\<rparr>) g = group_part db g"
  by (intro group_part_eqI) auto

lemma group_part_create_user: "db_wf db \<Longrightarrow> create_user env k db = (Inr u, db') \<Longrightarrow> group_part db' g = group_part db g"
  by (erule (1) create_user_effect) (auto intro!: group_part_eqI)

lemma group_part_set_active_group:
  "db_wf db \<Longrightarrow> set_active_group uid h db = (Inr u, db') \<Longrightarrow> group_part db' g = group_part db g"
  by (erule (1) set_active_group_effect) (auto intro!: group_part_eqI)

lemma group_part_delete_group_membership:
  assumes wf: "db_wf db" and "delete_group_membership mid db = (Inr d, db')"
    and "membership_group db mid = Inr gid" "gid \<noteq> g"
  shows "group_part db' g = group_part db g"
  using assms(2)
proof (rule delete_group_membership_effect)
  fix m h u teams rotations layers
  assume m: "get_group_membership db mid = Inr m" "group_of db (ug_group m) = Inr h" "user_of db (ug_user m) = Inr u"
    and teams: "teams = {t_id t |t. t \<in> set (db_teams db) \<and> t_group_id t = Some (g_id h)}"
    and rot: "rotations = team_rotation_ids db teams" "layers = rotation_layer_ids db rotations"
    and db': "db' = prune db (\<lambda>r. ug_id r \<noteq> mid) (\<lambda>r. tu_user r = u_id u \<longrightarrow> tu_team r \<notin> teams)
       (filter (\<lambda>r. \<not> of_member (u_id u) rotations r) (db_rotation_members db))
       (filter (\<lambda>r. \<not> of_layer_member (u_id u) layers r) (db_layer_members db))
       (filter (\<lambda>r. \<not> of_override (u_id u) rotations r) (db_overrides db))"
  have h: "g_id h = gid" "ug_group m = gid"
    using assms(3) m by (auto simp: membership_group_def group_of_Inr [OF wf])
  have disj: "teams \<inter> group_teams db g = {}"
    using group_teams_disjoint [OF wf assms(4)] by (simp add: teams group_teams_def h)
  note rd = rotations_disjoint [OF wf disj, folded rot]
  have mem: "m \<in> set (db_user_groups db)" "ug_id m = mid"
    using m(1) by (simp_all add: get_group_membership_Inr [OF wf])
  then have "filter (\<lambda>m. ug_group m = g) (filter (\<lambda>r. ug_id r \<noteq> mid) (db_user_groups db)) = filter (\<lambda>m. ug_group m = g) (db_user_groups db)"
    using wf h(2) assms(4) same_key [of ug_id "db_user_groups db"] by (intro filter_other) (auto simp: wf_defs)
  then show ?thesis
    using disj rd
    by (intro group_part_eqI)
      (auto simp: db' prune_def of_member_def of_layer_member_def of_override_def rot(2) intro!: filter_cong)
qed

lemma group_part_set_team:
  assumes wf: "db_wf db" and "old \<in> set (db_teams db)" "t_id t = t_id old"
    and "t_group_id old \<noteq> Some g" "t_group_id t \<noteq> Some g"
  shows "group_part (db\<lparr>db_teams := update_row t_id t (db_teams db)\<rparr>) g = group_part db g"
proof -
  have "distinct (map t_id (db_teams db))"
    using wf by (simp add: wf_defs)
  then show ?thesis
    using assms(2-5) by (intro group_part_eqI) (auto intro!: filter_update_row)
qed

lemma group_part_create_team:
  assumes wf: "db_wf db" and "create_team env slug name desc esc rem (Some gid) act db = (Inr t, db')" "gid \<noteq> g"
  shows "group_part db' g = group_part db g \<and> t_group_id t = Some gid \<and> t \<in> set (db_teams db')"
proof (cases "find (\<lambda>t. t_slug t = slug) (db_teams db)")
  case None
  then show ?thesis
    using assms(2,3) by (auto simp: create_team_def Let_def split: if_splits intro!: group_part_eqI)
next
  case (Some old)
  have mem: "old \<in> set (db_teams db)"
    using find_Some [OF Some] by simp
  have t: "t_id t = t_id old" "t_group_id t = Some gid" "t_group_id old = Some gid"
    and db': "db' = db\<lparr>db_teams := update_row t_id t (db_teams db)\<rparr>"
    using assms(2) Some by (auto simp: create_team_def Let_def split: if_splits)
  have "distinct (map t_id (db_teams db))"
    using wf by (simp add: wf_defs)
  then show ?thesis
    using group_part_set_team [OF wf mem t(1), of g] t assms(3) set_update_row_iff [OF _ mem t(1)] by (simp add: db')
qed

lemma group_part_set_team_role:
  assumes wf: "db_wf db" and "old \<in> set (db_team_users db)" "tu_team old \<notin> group_teams db g"
  shows "group_part (db\<lparr>db_team_users := update_row tu_id (old\<lparr>tu_role := r, tu_active := a\<rparr>) (db_team_users db)\<rparr>) g = group_part db g"
proof -
  have "distinct (map tu_id (db_team_users db))"
    using wf by (simp add: wf_defs)
  then show ?thesis
    using assms(2,3) by (intro group_part_eqI) (auto intro!: filter_update_row)
qed

lemma group_teams_db_team_users [simp]: "group_teams (db\<lparr>db_team_users := l\<rparr>) g = group_teams db g"
  by (simp add: group_teams_def)

lemma put_team_user_teams [simp]: "group_teams (put_team_user env tid uid role act db) g = group_teams db g"
  by (auto simp: put_team_user_def put_team_membership_def Let_def split: option.splits)

lemma group_part_put_team_user:
  assumes wf: "db_wf db" and "tid \<notin> group_teams db g"
  shows "group_part (put_team_user env tid uid role act db) g = group_part db g"
proof (cases "find (\<lambda>m. tu_team m = tid \<and> tu_user m = uid) (db_team_users db)")
  case None
  then show ?thesis
    using assms(2) by (auto simp: put_team_user_def put_team_membership_def Let_def intro!: group_part_eqI)
next
  case (Some old)
  then show ?thesis
    using find_Some [OF Some] group_part_set_team_role [OF wf, of old g] assms(2)
    by (auto simp: put_team_user_def put_team_membership_def Let_def)
qed

lemma group_part_add_user_to_team:
  assumes wf: "db_wf db" "fresh_ids env" "role \<in> set TEAM_ROLE_VALUES"
    and "add_user_to_team env tid uid role act db = (r, db')" "tid \<notin> group_teams db g"
  shows "group_part db' g = group_part db g"
proof -
  have "group_part db' g = group_part (put_team_user env tid uid role act db) g"
    using add_user_to_team_effect [OF assms(4)] wf_put_team_user [OF wf] assms(5) by (intro group_part_pruned) auto
  then show ?thesis
    using group_part_put_team_user [OF wf(1) assms(5)] by simp
qed

lemma group_part_update_team_membership:
  assumes wf: "db_wf db" and role: "role \<in> set TEAM_ROLE_VALUES"
    and upd: "update_team_membership mid role act db = (Inr m, db')"
    and "membership_team db mid = Inr tid" "tid \<notin> group_teams db g"
  shows "group_part db' g = group_part db g"
proof -
  obtain old where old: "get_team_membership db mid = Inr old"
    and p: "pruned {tu_team old} (db\<lparr>db_team_users := update_row tu_id (old\<lparr>tu_role := role, tu_active := act\<rparr>) (db_team_users db)\<rparr>) db'"
    using update_team_membership_effect [OF upd] by blast
  have tid: "tu_team old = tid"
    using assms(4) old by (auto simp: membership_team_def dest!: team_of_id split: sum.splits) (cases "team_of db (tu_team old)"; auto dest: team_of_id)
  have mem: "old \<in> set (db_team_users db)"
    using old by (simp add: get_team_membership_Inr [OF wf])
  show ?thesis
    using group_part_pruned [OF p wf_team_role [OF wf mem role], of g] group_part_set_team_role [OF wf mem, of g] assms(5)
    by (simp add: tid)
qed

lemma group_part_delete_team_membership:
  assumes wf: "db_wf db" and "delete_team_membership mid db = (Inr d, db')"
    and "membership_team db mid = Inr tid" "tid \<notin> group_teams db g"
  shows "group_part db' g = group_part db g"
  using assms(2)
proof (rule delete_team_membership_effect)
  fix m t u rotations layers
  assume m: "get_team_membership db mid = Inr m" "team_of db (tu_team m) = Inr t" "user_of db (tu_user m) = Inr u"
    and rot: "rotations = team_rotation_ids db {t_id t}" "layers = rotation_layer_ids db rotations"
    and db': "db' = prune db (\<lambda>_. True) (\<lambda>r. tu_id r \<noteq> mid)
       (filter (\<lambda>r. \<not> of_member (u_id u) rotations r) (db_rotation_members db))
       (filter (\<lambda>r. \<not> of_layer_member (u_id u) layers r) (db_layer_members db))
       (filter (\<lambda>r. \<not> of_override (u_id u) rotations r) (db_overrides db))"
  have t: "t_id t = tid" "tu_team m = tid"
    using assms(3) m by (auto simp: membership_team_def team_of_Inr [OF wf])
  have "{t_id t} \<inter> group_teams db g = {}"
    using assms(4) t by simp
  note rd = rotations_disjoint [OF wf this, folded rot]
  have "filter (\<lambda>m. tu_team m \<in> group_teams db g) (filter (\<lambda>r. tu_id r \<noteq> mid) (db_team_users db))
      = filter (\<lambda>m. tu_team m \<in> group_teams db g) (db_team_users db)"
  proof (rule filter_other)
    fix r assume r: "r \<in> set (db_team_users db)" "tu_team r \<in> group_teams db g"
    have "m \<in> set (db_team_users db)" "tu_id m = mid" "distinct (map tu_id (db_team_users db))"
      using m(1) wf by (simp_all add: get_team_membership_Inr [OF wf] wf_defs)
    then have "r = m" if "tu_id r = mid"
      using same_key r(1) that by metis
    then show "tu_id r \<noteq> mid"
      using r(2) t(2) assms(4) by auto
  qed
  then show ?thesis
    using rd
    by (intro group_part_eqI)
      (auto simp: db' prune_def of_member_def of_layer_member_def of_override_def rot(2) intro!: filter_cong)
qed

text \<open>Someone with no active membership of a live group, who is not a global administrator.\<close>

definition outsider :: "access_db \<Rightarrow> int \<Rightarrow> request_ctx \<Rightarrow> bool" where
  "outsider db g c \<longleftrightarrow>
     (case rq_user c of None \<Rightarrow> True | Some u \<Rightarrow> \<not> u_is_admin u \<and> get_user_group_role db (u_id u) g = None)"

lemma outsider_cannot:
  assumes "outsider db g c"
  shows "\<not> can_read_group db (rq_user c) g" "\<not> is_admin_user c None"
  using assms by (auto simp: outsider_def can_read_group_def is_admin_user_def current_user_def split: option.splits)

lemma team_right_group:
  assumes "db_wf db" "can_write_team db (rq_user c) tid = Inr True" "outsider db g c"
  shows "\<exists>t h. get_team db tid = Inr t \<and> t_group_id t = Some h \<and> h \<noteq> g"
proof -
  obtain u where u: "rq_user c = Some u" "\<not> u_is_admin u"
    using assms(2,3) by (cases "rq_user c") (auto simp: can_write_team_def outsider_def)
  then show ?thesis
    using assms can_team_iff(2) [OF assms(1) u(2), of tid] outsider_cannot(1) [OF assms(3)] by auto
qed

lemma outside_team:
  assumes "db_wf db" "can_write_team db (rq_user c) tid = Inr True" "outsider db g c"
  shows "tid \<notin> group_teams db g"
  using team_right_group [OF assms] not_in_group_teams [OF assms(1)] get_team_Inr [OF assms(1)] by (metis option.inject)

lemma api_change_isolated:
  assumes "api_change env c db db'" and wf: "db_wf db" and fresh: "fresh_ids env" and out: "outsider db g c"
  shows "group_part db' g = group_part db g"
proof -
  have ng: "gid \<noteq> g" if "can_manage_group_users db (rq_user c) gid \<or> can_write_group db (rq_user c) gid" for gid
    using that outsider_cannot(1) [OF out] manage_imp_write write_imp_read by blast
  have team: "tid \<notin> group_teams db g" if "can_manage_team_users db (rq_user c) tid = Inr True" for tid
    using that manage_team_is_write outside_team [OF wf _ out] by metis
  show ?thesis
    using assms(1)
  proof cases
    case unchanged
    then show ?thesis
      by simp
  next
    case (group_updated gid p r db1)
    show ?thesis
      using group_part_update_group [OF wf group_updated(2) ng] group_part_audited [OF group_updated(3)] group_updated(1) by simp
  next
    case (user_created gid k role u db1 m db2 u' db3)
    have wf1: "db_wf db1" and gid: "gid \<noteq> g"
      using wf_create_user [OF wf fresh user_created(4)] ng user_created(1) by auto
    have wf2: "db_wf db2"
      by (rule wf_add_user_to_group [OF wf1 fresh assignable_valid [OF user_created(3)] user_created(5)])
    show ?thesis
      using group_part_create_user [OF wf user_created(4)] group_part_add_user_to_group [OF wf1 user_created(5) gid]
        group_part_set_active_group [OF wf2 user_created(6)] group_part_audited [OF user_created(7)]
      by simp
  next
    case (group_member_added gid role uid act m db1)
    show ?thesis
      using group_part_add_user_to_group [OF wf group_member_added(4) ng] group_part_audited [OF group_member_added(5)]
        group_member_added(1) by simp
  next
    case (group_member_updated mid gid role act m db1)
    then have gid: "gid \<noteq> g"
      using ng by blast
    from group_member_updated(1,5) obtain old where old: "get_group_membership db mid = Inr old" "ug_group old = gid"
      "db1 = db\<lparr>db_user_groups := update_row ug_id (old\<lparr>ug_role := role, ug_active := act\<rparr>) (db_user_groups db)\<rparr>"
      by (auto simp: membership_group_def res_bind_Inr update_group_membership_def Let_def group_of_Inr [OF wf])
    show ?thesis
      using group_part_update_membership [OF wf, of old g] old gid group_part_audited [OF group_member_updated(6)]
      by (simp add: get_group_membership_Inr [OF wf])
  next
    case (group_member_deleted mid gid d db1)
    then have "gid \<noteq> g"
      using ng by blast
    then show ?thesis
      using group_part_delete_group_membership [OF wf group_member_deleted(3,1)] group_part_audited [OF group_member_deleted(4)]
      by simp
  next
    case (team_created gid slug name desc esc rem act t db1 db2)
    have gid: "gid \<noteq> g" and wf1: "db_wf db1"
      using ng team_created(1) wf_create_team [OF wf fresh team_created(2)] by auto
    have 1: "group_part db1 g = group_part db g" and t: "t_group_id t = Some gid" "t \<in> set (db_teams db1)"
      using group_part_create_team [OF wf team_created(2) gid] by auto
    have "t_id t \<notin> group_teams db1 g"
      using not_in_group_teams [OF wf1 t(2)] t(1) gid by simp
    then have "group_part db2 g = group_part db1 g"
      using team_created(3) group_part_add_user_to_team [OF wf1 fresh manager_valid] by blast
    then show ?thesis
      using 1 group_part_audited [OF team_created(4)] by simp
  next
    case (team_updated tid t0 p gid t db1)
    obtain h where h: "t_group_id t0 = Some h" "h \<noteq> g"
      using team_right_group [OF wf team_updated(1) out] team_updated(2) by auto
    have gid: "gid = Some h"
      using team_updated(4) outsider_cannot(2) [OF out] h(1) by simp
    from team_updated(5) show ?thesis
    proof (rule update_team_effect)
      fix old assume old: "get_team db tid = Inr old" "t = apply_team_patch p old"
        "db1 = db\<lparr>db_teams := update_row t_id t (db_teams db)\<rparr>"
      then have "old = t0" "t_id t = t_id old" "t_group_id t = Some h"
        using team_updated(2,3) gid by (simp_all add: apply_team_patch_def present_def)
      then show ?thesis
        using group_part_set_team [OF wf, of old t g] old h group_part_audited [OF team_updated(6)]
        by (simp add: get_team_Inr [OF wf])
    qed
  next
    case (team_member_added tid t role uid act r db1)
    show ?thesis
      using group_part_add_user_to_team [OF wf fresh team_member_added(3,4) team [OF team_member_added(1)]]
        group_part_audited [OF team_member_added(5)] by simp
  next
    case (team_member_updated mid tid role act m db1)
    show ?thesis
      using group_part_update_team_membership [OF wf team_member_updated(3,4,1) team [OF team_member_updated(2)]]
        group_part_audited [OF team_member_updated(5)] by simp
  next
    case (team_member_deleted mid tid d db1)
    show ?thesis
      using group_part_delete_team_membership [OF wf team_member_deleted(3,1) team [OF team_member_deleted(2)]]
        group_part_audited [OF team_member_deleted(4)] by simp
  qed
qed

section \<open>No new administrators\<close>

definition global_admins :: "access_db \<Rightarrow> int set" where
  "global_admins db = {u_id u | u. u \<in> set (db_users db) \<and> u_is_admin u}"

definition group_admins :: "access_db \<Rightarrow> (int \<times> int) set" where
  "group_admins db = {(ug_user m, ug_group m) | m. m \<in> set (db_user_groups db) \<and> ug_role m = GROUP_USER_ADMIN_ROLE}"

definition no_new_admins :: "access_db \<Rightarrow> access_db \<Rightarrow> bool" where
  "no_new_admins db db' \<longleftrightarrow> global_admins db' \<subseteq> global_admins db \<and> group_admins db' \<subseteq> group_admins db"

lemma no_new_admins_refl [simp]: "no_new_admins db db"
  by (simp add: no_new_admins_def)

lemma no_new_admins_trans: "no_new_admins a b \<Longrightarrow> no_new_admins b c \<Longrightarrow> no_new_admins a c"
  by (auto simp: no_new_admins_def)

lemma no_new_admins_tables:
  "db_users db' = db_users db \<Longrightarrow> set (db_user_groups db') \<subseteq> set (db_user_groups db) \<Longrightarrow> no_new_admins db db'"
  by (auto simp: no_new_admins_def global_admins_def group_admins_def)

lemma no_new_admins_audited: "audited db db' \<Longrightarrow> no_new_admins db db'"
  by (auto simp: audited_def intro!: no_new_admins_tables)

lemma no_new_admins_prune: "no_new_admins db (prune db P Q a b c)"
  by (auto simp: prune_def intro!: no_new_admins_tables)

lemma no_new_admins_pruned: "pruned T db db' \<Longrightarrow> no_new_admins db db'"
  by (auto simp: pruned_def no_new_admins_prune)

lemma no_new_admins_row:
  assumes "set (db_user_groups db') \<subseteq> insert m (set (db_user_groups db))" "ug_role m \<noteq> GROUP_USER_ADMIN_ROLE"
    "db_users db' = db_users db"
  shows "no_new_admins db db'"
  using assms unfolding no_new_admins_def global_admins_def group_admins_def by auto

lemma no_new_admins_add_user_to_group:
  "role \<noteq> GROUP_USER_ADMIN_ROLE \<Longrightarrow> add_user_to_group env uid gid role act db = (Inr m, db') \<Longrightarrow> no_new_admins db db'"
  by (intro no_new_admins_row [of db' m]) (auto simp: add_user_to_group_def Let_def split: option.splits if_splits dest: set_update_row)

lemma no_new_admins_update_membership:
  "role \<noteq> GROUP_USER_ADMIN_ROLE \<Longrightarrow> update_group_membership mid role act db = (Inr m, db') \<Longrightarrow> no_new_admins db db'"
  by (intro no_new_admins_row [of db' m]) (auto simp: update_group_membership_def Let_def split: sum.splits dest: set_update_row)

lemma no_new_admins_user:
  assumes "set (db_users db') \<subseteq> insert u (set (db_users db))" "db_user_groups db' = db_user_groups db"
    "u_is_admin u \<Longrightarrow> \<exists>old\<in>set (db_users db). u_id old = u_id u \<and> u_is_admin old"
  shows "no_new_admins db db'"
proof -
  have "\<exists>old\<in>set (db_users db). u_id old = u_id v \<and> u_is_admin old" if "v \<in> set (db_users db')" "u_is_admin v" for v
    using assms(1,3) that by (cases "v = u") auto
  then have "global_admins db' \<subseteq> global_admins db"
    unfolding global_admins_def by (smt (verit) mem_Collect_eq subsetI)
  then show ?thesis
    using assms(2) by (simp add: no_new_admins_def group_admins_def)
qed

lemma no_new_admins_create_user:
  assumes wf: "db_wf db" and "create_user env k db = (Inr u, db')" "\<not> nu_is_admin k"
  shows "no_new_admins db db'"
  using assms(2,1)
  by (rule create_user_effect)
    (use assms(3) in \<open>auto simp: new_user_row_def intro!: no_new_admins_user [where u = u] dest: set_update_row\<close>)

lemma no_new_admins_set_active_group:
  assumes wf: "db_wf db" and "set_active_group uid g db = (Inr u, db')"
  shows "no_new_admins db db'"
  using assms(2,1)
  by (rule set_active_group_effect) (auto intro!: no_new_admins_user [where u = u] dest: set_update_row)

lemma put_team_user_tables [simp]:
  "db_users (put_team_user env tid uid role act db) = db_users db"
  "db_user_groups (put_team_user env tid uid role act db) = db_user_groups db"
  by (auto simp: put_team_user_def put_team_membership_def Let_def split: option.splits)

lemma no_new_admins_add_user_to_team: "add_user_to_team env tid uid role act db = (r, db') \<Longrightarrow> no_new_admins db db'"
  by (rule no_new_admins_trans [OF _ no_new_admins_pruned [OF add_user_to_team_effect]])
    (auto intro: no_new_admins_tables)

lemma no_new_admins_update_team_membership:
  assumes "update_team_membership mid role act db = (Inr m, db')"
  shows "no_new_admins db db'"
proof -
  obtain old where "pruned {tu_team old}
      (db\<lparr>db_team_users := update_row tu_id (old\<lparr>tu_role := role, tu_active := act\<rparr>) (db_team_users db)\<rparr>) db'"
    using update_team_membership_effect [OF assms] by blast
  then show ?thesis
    by (rule no_new_admins_trans [OF _ no_new_admins_pruned, rotated]) (auto intro: no_new_admins_tables)
qed

lemma api_change_no_new_admins:
  assumes "api_change env c db db'" and wf: "db_wf db" and fresh: "fresh_ids env" and "\<not> is_admin_user c None"
  shows "no_new_admins db db'"
proof -
  have role: "role \<noteq> GROUP_USER_ADMIN_ROLE" if "may_assign c role" for role
    using that assms(4) by (simp add: may_assign_def)
  show ?thesis
    using assms(1)
  proof cases
    case (group_updated gid p r db1)
    then have "no_new_admins db db1"
      by (auto simp: update_group_def Let_def split: sum.splits if_splits intro!: no_new_admins_tables)
    then show ?thesis
      using no_new_admins_audited [OF group_updated(3)] no_new_admins_trans by blast
  next
    case (user_created gid k role u db1 m db2 u' db3)
    have wf1: "db_wf db1"
      by (rule wf_create_user [OF wf fresh user_created(4)])
    have wf2: "db_wf db2"
      by (rule wf_add_user_to_group [OF wf1 fresh assignable_valid [OF user_created(3)] user_created(5)])
    have "role \<noteq> GROUP_USER_ADMIN_ROLE"
      using user_created(3)
      by (auto simp: GROUP_ASSIGNABLE_BY_USER_ADMIN_VALUES_def GROUP_VIEWER_ROLE_def GROUP_EDITOR_ROLE_def GROUP_USER_ADMIN_ROLE_def)
    then show ?thesis
      using no_new_admins_create_user [OF wf user_created(4,2)] no_new_admins_add_user_to_group [OF _ user_created(5)]
        no_new_admins_set_active_group [OF wf2 user_created(6)] no_new_admins_audited [OF user_created(7)]
        no_new_admins_trans by blast
  next
    case (group_member_added gid role uid act m db1)
    show ?thesis
      using no_new_admins_add_user_to_group [OF role [OF group_member_added(2)] group_member_added(4)]
        no_new_admins_audited [OF group_member_added(5)] no_new_admins_trans by blast
  next
    case (group_member_updated mid gid role act m db1)
    show ?thesis
      using no_new_admins_update_membership [OF role [OF group_member_updated(3)] group_member_updated(5)]
        no_new_admins_audited [OF group_member_updated(6)] no_new_admins_trans by blast
  next
    case (group_member_deleted mid gid d db1)
    have "no_new_admins db db1"
      using group_member_deleted(3) by (rule delete_group_membership_effect) (simp add: no_new_admins_prune)
    then show ?thesis
      using no_new_admins_audited [OF group_member_deleted(4)] no_new_admins_trans by blast
  next
    case (team_created gid slug name desc esc rem act t db1 db2)
    have "no_new_admins db db1"
      using team_created(2) by (auto simp: create_team_def Let_def split: option.splits if_splits intro!: no_new_admins_tables)
    moreover have "no_new_admins db1 db2"
      using team_created(3) no_new_admins_add_user_to_team by auto
    ultimately show ?thesis
      using no_new_admins_audited [OF team_created(4)] no_new_admins_trans by blast
  next
    case (team_updated tid t0 p gid t db1)
    have "no_new_admins db db1"
      using team_updated(5) by (rule update_team_effect) (auto intro!: no_new_admins_tables)
    then show ?thesis
      using no_new_admins_audited [OF team_updated(6)] no_new_admins_trans by blast
  next
    case (team_member_added tid t role uid act r db1)
    show ?thesis
      using no_new_admins_add_user_to_team [OF team_member_added(4)] no_new_admins_audited [OF team_member_added(5)]
        no_new_admins_trans by blast
  next
    case (team_member_updated mid tid role act m db1)
    show ?thesis
      using no_new_admins_update_team_membership [OF team_member_updated(4)] no_new_admins_audited [OF team_member_updated(5)]
        no_new_admins_trans by blast
  next
    case (team_member_deleted mid tid d db1)
    have "no_new_admins db db1"
      using team_member_deleted(3) by (rule delete_team_membership_effect) (simp add: no_new_admins_prune)
    then show ?thesis
      using no_new_admins_audited [OF team_member_deleted(4)] no_new_admins_trans by blast
  qed simp
qed

section \<open>Sequences by outsiders and by ordinary users\<close>

lemma find_filter: "(\<And>x. P x \<Longrightarrow> Q x) \<Longrightarrow> find P (filter Q xs) = find P xs"
  by (induction xs) auto

lemma role_of_group_part:
  assumes "group_part db' g = group_part db g"
  shows "get_user_group_role db' a g = get_user_group_role db a g"
proof -
  have mem: "filter (\<lambda>m. ug_group m = g) (db_user_groups db') = filter (\<lambda>m. ug_group m = g) (db_user_groups db)"
    and grp: "filter (\<lambda>r. g_id r = g) (db_groups db') = filter (\<lambda>r. g_id r = g) (db_groups db)"
    using assms by (simp_all add: group_part_def Let_def)
  have "{r \<in> set (db_groups db'). g_id r = g} = {r \<in> set (db_groups db). g_id r = g}"
    using arg_cong [OF grp, of set] by simp
  then have live: "in_live_group db' m = in_live_group db m" if "ug_group m = g" for m
    using that unfolding in_live_group_def by blast
  let ?P = "\<lambda>d m. ug_user m = a \<and> ug_group m = g \<and> ug_active m \<and> in_live_group d m"
  have "find (?P db') (db_user_groups db') = find (?P db') (filter (\<lambda>m. ug_group m = g) (db_user_groups db'))"
    by (rule find_filter [symmetric]) simp
  also have "\<dots> = find (?P db) (filter (\<lambda>m. ug_group m = g) (db_user_groups db))"
    unfolding mem by (rule find_cong) (auto simp: live)
  also have "\<dots> = find (?P db) (db_user_groups db)"
    by (rule find_filter) simp
  finally show ?thesis
    by (simp add: get_user_group_role_def)
qed

text \<open>The ids of users who may act: no global administrator, no active membership of the live group.\<close>

definition strangers :: "access_db \<Rightarrow> int \<Rightarrow> int set \<Rightarrow> bool" where
  "strangers db g A \<longleftrightarrow> A \<inter> global_admins db = {} \<and> (\<forall>a\<in>A. get_user_group_role db a g = None)"

definition actor_in :: "int set \<Rightarrow> request_ctx \<Rightarrow> bool" where
  "actor_in A c = (case rq_user c of None \<Rightarrow> True | Some u \<Rightarrow> u_id u \<in> A)"

lemma stranger_outsider: "strangers db g A \<Longrightarrow> actor_in A c \<Longrightarrow> authenticated db c \<Longrightarrow> outsider db g c"
  by (auto simp: strangers_def actor_in_def authenticated_def outsider_def global_admins_def split: option.splits)

text \<open>
  C5. Isolation of groups: whatever sequence of requests is made by users none of whom is a global
  administrator or has an active membership of a live group, that group's row, memberships,
  teams, team members and rotation rows are the same before and after. The requests may change
  any other group, create users and teams, and include requests that fail midway.
\<close>

theorem group_isolated_from_outsiders:
  assumes "api_run env db xs db'" "db_wf db" "fresh_ids env" "strangers db g A"
    and "list_all (\<lambda>(c, req). actor_in A c) xs"
  shows "group_part db' g = group_part db g"
  using assms
proof (induction rule: api_run.induct)
  case (cons db c req xs db')
  let ?db1 = "snd (handle env c req db)"
  have ch: "api_change env c db ?db1"
    using cons.hyps(2) by (rule handled_guarded)
  have out: "outsider db g c"
    using cons.prems(3,4) cons.hyps(1) stranger_outsider by simp
  have part: "group_part ?db1 g = group_part db g"
    by (rule api_change_isolated [OF ch cons.prems(1,2) out])
  have "no_new_admins db ?db1"
    using api_change_no_new_admins [OF ch cons.prems(1,2)] outsider_cannot(2) [OF out] .
  then have "strangers ?db1 g A"
    using cons.prems(3) role_of_group_part [OF part] by (auto simp: strangers_def no_new_admins_def)
  then show ?case
    using cons.IH api_change_wf [OF ch cons.prems(1,2)] cons.prems(2,4) part by simp
qed simp

text \<open>
  C6. No escalation: no sequence of requests by users who are not global administrators makes a
  global administrator, or gives anyone the user-admin role of a group who did not hold a
  membership with that role of that group before, active or not. In particular a group's
  user-admins cannot appoint another, nor reinstate themselves.
\<close>

theorem no_administrator_is_made:
  assumes "api_run env db xs db'" "db_wf db" "fresh_ids env"
    and "A \<inter> global_admins db = {}" "list_all (\<lambda>(c, req). actor_in A c) xs"
  shows "global_admins db' \<subseteq> global_admins db \<and> group_admins db' \<subseteq> group_admins db"
proof -
  have "no_new_admins db db'"
    using assms
  proof (induction rule: api_run.induct)
    case (cons db c req xs db')
    let ?db1 = "snd (handle env c req db)"
    have ch: "api_change env c db ?db1"
      using cons.hyps(2) by (rule handled_guarded)
    have "\<not> is_admin_user c None"
      using cons.prems(3,4) cons.hyps(1)
      by (auto simp: actor_in_def authenticated_def is_admin_user_def current_user_def global_admins_def split: option.splits)
    then have step: "no_new_admins db ?db1"
      using api_change_no_new_admins [OF ch cons.prems(1,2)] by blast
    then have "no_new_admins ?db1 db'"
      using cons.IH api_change_wf [OF ch cons.prems(1,2)] cons.prems(2-4) by (auto simp: no_new_admins_def)
    with step show ?case
      by (rule no_new_admins_trans)
  qed simp
  then show ?thesis
    by (simp add: no_new_admins_def)
qed

section \<open>Examples\<close>

text \<open>Ann removes Bob from her group, and tries to remove Cleo from Cleo's.\<close>

definition after_removal :: access_db where
  "after_removal = snd (handle example_env ann_ctx (Delete_Group_User 3) example_db)"

lemma ann_authenticated: "authenticated example_db ann_ctx"
  by code_simp

lemma ann_removal_run:
  "api_run example_env example_db [(ann_ctx, Delete_Group_User 3), (ann_ctx, Delete_Group_User 4)]
     (snd (handle example_env ann_ctx (Delete_Group_User 4) after_removal))"
proof -
  have "authenticated after_removal ann_ctx"
    by code_simp
  then show ?thesis
    unfolding after_removal_def using ann_authenticated
    by (intro api_run.intros) simp_all
qed

lemma requests_keep_database_well_formed_witness: "db_wf after_removal"
proof -
  have "api_run example_env example_db [(ann_ctx, Delete_Group_User 3)] after_removal"
    unfolding after_removal_def using ann_authenticated by (intro api_run.intros) simp_all
  then show ?thesis
    by (rule requests_keep_database_well_formed [OF _ example_db_wf example_env_fresh])
qed

lemma group_isolated_from_outsiders_witness:
  "group_part (snd (handle example_env ann_ctx (Delete_Group_User 4) after_removal)) 3 = group_part example_db 3
   \<and> group_part after_removal 2 \<noteq> group_part example_db 2"
proof -
  have 1: "u_id u = 1" if "rq_user ann_ctx = Some u" for u
    using that by (auto simp: ann_ctx_def ann_def example_user_def)
  have "global_admins example_db = {}"
    by (auto simp: global_admins_def example_db_def example_user_def)
  moreover have "get_user_group_role example_db 1 3 = None"
    by code_simp
  ultimately have 2: "strangers example_db 3 {1}"
    by (simp add: strangers_def)
  have 3: "list_all (\<lambda>(c, req). actor_in {1} c) [(ann_ctx, Delete_Group_User 3), (ann_ctx, Delete_Group_User 4)]"
    using 1 by (simp add: actor_in_def ann_ctx_def)
  have "length (fst (snd (group_part after_removal 2))) \<noteq> length (fst (snd (group_part example_db 2)))"
    unfolding group_part_def Let_def fst_conv snd_conv by code_simp
  then show ?thesis
    using group_isolated_from_outsiders [OF ann_removal_run example_db_wf example_env_fresh 2 3] by metis
qed

lemma no_administrator_is_made_witness:
  "(2, 2) \<notin> group_admins (snd (handle example_env ann_ctx
      (Add_Group_User 2 (Inr \<lparr>ma_user_id = 2, ma_role = ''user_admin'', ma_active = True\<rparr>)) example_db))"
proof -
  let ?req = "Add_Group_User 2 (Inr \<lparr>ma_user_id = 2, ma_role = ''user_admin'', ma_active = True\<rparr>)"
  have "request_ok ?req"
    by code_simp
  then have run: "api_run example_env example_db [(ann_ctx, ?req)] (snd (handle example_env ann_ctx ?req example_db))"
    using ann_authenticated by (intro api_run.intros)
  have "{1} \<inter> global_admins example_db = {}"
    by (auto simp: global_admins_def example_db_def example_user_def)
  moreover have "list_all (\<lambda>(c, req). actor_in {1} c) [(ann_ctx, ?req)]"
    by (simp add: actor_in_def ann_ctx_def ann_def example_user_def)
  ultimately have "group_admins (snd (handle example_env ann_ctx ?req example_db)) \<subseteq> group_admins example_db"
    using no_administrator_is_made [OF run example_db_wf example_env_fresh] by blast
  moreover have "(2, 2) \<notin> group_admins example_db"
    by (auto simp: group_admins_def example_db_def GROUP_USER_ADMIN_ROLE_def)
  ultimately show ?thesis
    by blast
qed

end
