(* ===== verification/Member_Audit.thy ===== *)
theory Member_Audit
  imports Member_Safety
begin

text \<open>
  What a request leaves behind: an error answer leaves the database untouched, also in the
  handlers that do not run in a transaction, and every success leaves exactly one audit record
  that names its actor. Removing a member takes every right and every duty in the group.
\<close>

section \<open>Rows only added\<close>

text \<open>A database that knows every group, team, user and token of another, with the same audit log.\<close>

definition extends :: "access_db \<Rightarrow> access_db \<Rightarrow> bool" where
  "extends db db' \<longleftrightarrow>
     (\<forall>i. id_in g_id (db_groups db) i \<longrightarrow> id_in g_id (db_groups db') i)
     \<and> (\<forall>i. id_in t_id (db_teams db) i \<longrightarrow> id_in t_id (db_teams db') i)
     \<and> (\<forall>i. id_in u_id (db_users db) i \<longrightarrow> id_in u_id (db_users db') i)
     \<and> db_api_tokens db' = db_api_tokens db \<and> db_audit_logs db' = db_audit_logs db"

lemma extends_refl [simp]: "extends db db"
  by (simp add: extends_def)

lemma extends_trans: "extends a b \<Longrightarrow> extends b c \<Longrightarrow> extends a c"
  by (auto simp: extends_def)

lemma id_in_update_mono [intro]: "id_in key rows i \<Longrightarrow> id_in key (update_row key r rows) i"
  unfolding id_in_def update_row_def set_map image_image
  by (elim imageE, rename_tac x, rule_tac x = x in image_eqI) simp_all

lemma extends_tables:
  "db_groups db' = db_groups db \<Longrightarrow> db_teams db' = db_teams db \<Longrightarrow> db_users db' = db_users db
   \<Longrightarrow> db_api_tokens db' = db_api_tokens db \<Longrightarrow> db_audit_logs db' = db_audit_logs db \<Longrightarrow> extends db db'"
  by (simp add: extends_def)

lemma extends_update_group: "update_group gid p db = (Inr g, db') \<Longrightarrow> extends db db'"
  by (auto simp: update_group_def Let_def extends_def split: sum.splits if_splits)

lemma extends_add_user_to_group: "add_user_to_group env uid gid role act db = (Inr m, db') \<Longrightarrow> extends db db'"
  by (auto simp: add_user_to_group_def Let_def split: option.splits if_splits intro!: extends_tables)

lemma extends_update_membership: "update_group_membership mid role act db = (Inr m, db') \<Longrightarrow> extends db db'"
  by (auto simp: update_group_membership_def Let_def split: sum.splits intro!: extends_tables)

lemma extends_delete_group_membership: "delete_group_membership mid db = (Inr d, db') \<Longrightarrow> extends db db'"
  by (erule delete_group_membership_effect) (simp add: prune_def extends_tables)

lemma extends_delete_team_membership: "delete_team_membership mid db = (Inr d, db') \<Longrightarrow> extends db db'"
  by (erule delete_team_membership_effect) (simp add: prune_def extends_tables)

lemma extends_create_team: "create_team env s n d e r g a db = (Inr t, db') \<Longrightarrow> extends db db'"
  by (auto simp: create_team_def Let_def extends_def split: option.splits if_splits)

lemma extends_update_team: "update_team tid p db = (Inr t, db') \<Longrightarrow> extends db db'"
  by (auto simp: update_team_def Let_def extends_def split: sum.splits if_splits)

lemma extends_pruned: "pruned T db db' \<Longrightarrow> extends db db'"
  by (auto simp: pruned_def prune_def intro!: extends_tables)

lemma extends_put_team_user: "extends db (put_team_user env tid uid role act db)"
  by (auto simp: put_team_user_def put_team_membership_def Let_def split: option.splits intro!: extends_tables)

lemma extends_add_user_to_team: "add_user_to_team env tid uid role act db = (r, db') \<Longrightarrow> extends db db'"
  using extends_trans [OF extends_put_team_user extends_pruned] add_user_to_team_effect by blast

lemma extends_update_team_membership:
  assumes "update_team_membership mid role act db = (Inr m, db')"
  shows "extends db db'"
proof -
  obtain old where "pruned {tu_team old}
      (db\<lparr>db_team_users := update_row tu_id (old\<lparr>tu_role := role, tu_active := act\<rparr>) (db_team_users db)\<rparr>) db'"
    using update_team_membership_effect [OF assms] by blast
  from extends_pruned [OF this] show ?thesis
    by (rule extends_trans [rotated]) (simp add: extends_tables)
qed

lemma extends_create_user: "db_wf db \<Longrightarrow> create_user env k db = (Inr u, db') \<Longrightarrow> extends db db'"
  by (erule (1) create_user_effect) (auto simp: extends_def)

lemma extends_set_active_group: "db_wf db \<Longrightarrow> set_active_group uid g db = (Inr u, db') \<Longrightarrow> extends db db'"
  by (erule (1) set_active_group_effect) (auto simp: extends_def)

section \<open>Audit records\<close>

definition logged :: "request_ctx \<Rightarrow> access_db \<Rightarrow> access_db \<Rightarrow> bool" where
  "logged c db db' \<longleftrightarrow> (\<exists>row. db_audit_logs db' = db_audit_logs db @ [row]
     \<and> al_user row = map_option u_id (rq_user c) \<and> al_api_token row = map_option at_id (rq_token c))"

definition logged_copy :: "request_ctx \<Rightarrow> access_db \<Rightarrow> access_db \<Rightarrow> bool" where
  "logged_copy c db db' \<longleftrightarrow> audited db db' \<and> logged c db db'"

lemma logged_extends: "extends db db1 \<Longrightarrow> logged_copy c db1 db' \<Longrightarrow> logged c db db'"
  by (auto simp: logged_copy_def logged_def extends_def)

lemma authenticated_fk:
  assumes "authenticated db c" "extends db db'"
  shows "fk_ok u_id (db_users db') (map_option u_id (rq_user c))"
    and "fk_ok at_id (db_api_tokens db') (map_option at_id (rq_token c))"
proof -
  have "id_in u_id (db_users db) (u_id u)" if "rq_user c = Some u" for u
    using that assms(1) by (auto simp: authenticated_def id_in_def)
  then show "fk_ok u_id (db_users db') (map_option u_id (rq_user c))"
    using assms(2) by (cases "rq_user c") (auto simp: fk_ok_def extends_def)
  have "id_in at_id (db_api_tokens db) (at_id t)" if "rq_token c = Some t" for t
    using that assms(1) by (auto simp: authenticated_def id_in_def)
  then show "fk_ok at_id (db_api_tokens db') (map_option at_id (rq_token c))"
    using assms(2) by (cases "rq_token c") (auto simp: fk_ok_def extends_def)
qed

text \<open>With existing references the audit record is written.\<close>

lemma write_audit_logged:
  assumes "authenticated db c" "extends db db1"
    and "fk_ok g_id (db_groups db1) g" "fk_ok t_id (db_teams db1) t"
  obtains row db' where "write_audit env c a ot oi g t None d db1 = (Inr row, db')" "logged_copy c db1 db'"
proof -
  have "fk_ok g_id (db_groups db1) g \<and> fk_ok t_id (db_teams db1) t
      \<and> fk_ok u_id (db_users db1) (map_option u_id (rq_user c)) \<and> fk_ok at_id (db_api_tokens db1) (map_option at_id (rq_token c))"
    using assms authenticated_fk by blast
  then show ?thesis
    using that
    by (auto simp: write_audit_def record_audit_def create_audit_log_def fk_truthy_def Let_def logged_copy_def logged_def
        audited_logs)
qed

lemma wp_write_audit_logged:
  assumes "authenticated db c" "extends db db1"
    and "fk_ok g_id (db_groups db1) g" "fk_ok t_id (db_teams db1) t"
    and "\<And>row db'. logged_copy c db1 db' \<Longrightarrow> Q (Inr row) db'"
  shows "wp (write_audit env c a ot oi g t None d) Q db1"
  using write_audit_logged [OF assms(1-4), of env a ot oi d] assms(5) by (metis fst_conv snd_conv wp_def)

text \<open>The promise of a handler.\<close>

definition tidy :: "request_ctx \<Rightarrow> access_db \<Rightarrow> response dbr \<Rightarrow> access_db \<Rightarrow> bool" where
  "tidy c db r db' \<longleftrightarrow>
     (case r of Inl e \<Rightarrow> db' = db
      | Inr (b, st) \<Rightarrow> 400 \<le> st \<and> db' = db \<or> st < 300 \<and> logged c db db')"

lemma tidy_error [simp]: "tidy c db (Inl e) db"
  by (simp add: tidy_def)

lemma tidy_refused [simp]:
  "400 \<le> st \<Longrightarrow> tidy c db (Inr (error_message a b st)) db"
  "400 \<le> st \<Longrightarrow> tidy c db (Inr (error_only a st)) db"
  by (simp_all add: tidy_def error_message_def error_only_def)

lemma tidy_done [intro]: "st < 300 \<Longrightarrow> logged c db db' \<Longrightarrow> tidy c db (Inr (b, st)) db'"
  by (simp add: tidy_def)

lemma tidy_invalid [simp]: "body_ok P (Inl r) \<Longrightarrow> tidy c db (Inr r) db"
  by (cases r) (simp add: body_ok_def tidy_def)

lemma require_responses:
  "require_group_write db c g = Some r \<Longrightarrow> snd r = 403"
  "require_group_user_admin db c g = Some r \<Longrightarrow> snd r = 403"
  "require_assign_group_role c role = Some r \<Longrightarrow> snd r = 403"
  "require_team_write db c t = Inr (Some r) \<Longrightarrow> snd r = 403"
  "require_team_user_admin db c t = Inr (Some r) \<Longrightarrow> snd r = 403"
  by (auto simp: require_group_write_def require_group_user_admin_def require_assign_group_role_def require_team_def
      require_team_write_def require_team_user_admin_def error_message_def error_only_def res_bind_Inr split: if_splits)

lemma tidy_403 [simp]: "snd r = 403 \<Longrightarrow> tidy c db (Inr r) db"
  by (cases r) (simp add: tidy_def)

lemmas tidy_refusals [intro] =
  require_responses(1) [THEN tidy_403] require_responses(2) [THEN tidy_403] require_responses(3) [THEN tidy_403]
  require_responses(4) [THEN tidy_403] require_responses(5) [THEN tidy_403]

lemma fk_ok_Some [simp]: "fk_ok key rows (Some i) \<longleftrightarrow> id_in key rows i"
  by (simp add: fk_ok_def)

lemma fk_ok_None [simp]: "fk_ok key rows None"
  by (simp add: fk_ok_def)

lemma id_in_self [intro]: "r \<in> set rows \<Longrightarrow> id_in key rows (key r)"
  by (auto simp: id_in_def)

lemma updated_group_present: "db_wf db \<Longrightarrow> update_group gid p db = (Inr g, db') \<Longrightarrow> id_in g_id (db_groups db') (g_id g)"
  by (auto simp: update_group_def Let_def apply_group_patch_def get_group_Inr split: sum.splits if_splits
      intro!: id_in_update_mono)

lemmas wp_clean_ops =
  wp_clean [OF clean_update_group] wp_clean [OF clean_add_user_to_group] wp_clean [OF clean_update_group_membership]
  wp_clean [OF clean_create_team] wp_clean [OF clean_update_team] wp_clean [OF clean_delete_group_membership]
  wp_clean [OF clean_delete_team_membership] wp_clean [OF clean_update_team_membership]
  wp_clean [OF clean_create_user] wp_clean [OF clean_set_active_group]

lemma tidy_update_group:
  assumes wf: "db_wf db" and auth: "authenticated db c" and "body_ok (\<lambda>_. True) body"
  shows "wp (update_group_view env c gid body) (tidy c db) db"
  unfolding update_group_view_def using assms(3)
  by (auto simp: wp_simps require_responses split: sum.split option.split
      intro!: wp_clean_ops wp_write_audit_logged [OF auth] extends_update_group
      dest: updated_group_present [OF wf] logged_extends [OF extends_update_group])

lemma live_group_present: "db_wf db \<Longrightarrow> get_group db gid = Inr g \<Longrightarrow> id_in g_id (db_groups db) gid"
  by (auto simp: get_group_Inr)

lemma find_key_total: "id_in key rows i \<Longrightarrow> \<exists>r. the_row (find (\<lambda>r. key r = i) rows) = Inr r"
  by (cases "find (\<lambda>r. key r = i) rows") (auto simp: id_in_def find_None_iff)

lemma group_of_total: "id_in g_id (db_groups db) i \<Longrightarrow> \<exists>g. group_of db i = Inr g"
  and team_of_total: "id_in t_id (db_teams db) i \<Longrightarrow> \<exists>t. team_of db i = Inr t"
  and user_of_total: "id_in u_id (db_users db) i \<Longrightarrow> \<exists>u. user_of db i = Inr u"
  unfolding group_of_def team_of_def user_of_def by (rule find_key_total; assumption)+

lemma added_member_group:
  "db_wf db \<Longrightarrow> add_user_to_group env uid gid role act db = (Inr m, db') \<Longrightarrow> ug_group m = gid \<and> ug_user m = uid
     \<and> id_in g_id (db_groups db') gid \<and> id_in u_id (db_users db') uid"
  by (auto simp: add_user_to_group_def Let_def wf_defs split: option.splits if_splits dest!: find_Some)

lemma logged_copy_audited: "logged_copy c db db' \<Longrightarrow> audited db db'"
  by (simp add: logged_copy_def)

lemma audited_lookups:
  "audited db db' \<Longrightarrow> group_of db' = group_of db \<and> user_of db' = user_of db \<and> team_of db' = team_of db
     \<and> get_team db' = get_team db"
  by (auto simp: audited_def group_of_def user_of_def team_of_def get_team_def fun_eq_iff)

lemma tidy_add_group_user:
  assumes wf: "db_wf db" and auth: "authenticated db c" and fresh: "fresh_ids env" and "body_ok UserGroupAddSchema_ok body"
  shows "wp (add_group_user env c gid body) (tidy c db) db"
proof -
  have fin: "tidy c db (res_bind (serialize_user_group db2 m) (\<lambda>b. Inr (b, 201))) db2"
    if a: "add_user_to_group env uid gid role act db = (Inr m, db1)" and l: "logged_copy c db1 db2" for uid role act m db1 db2
  proof -
    obtain g where "group_of db1 (ug_group m) = Inr g"
      using added_member_group [OF wf a] group_of_total by blast
    then show ?thesis
      using audited_lookups [OF logged_copy_audited [OF l]] logged_extends [OF extends_add_user_to_group [OF a] l]
      by (auto simp: serialize_user_group_def)
  qed
  show ?thesis
    unfolding add_group_user_def using assms(4)
    by (auto simp: wp_simps require_responses split: sum.split option.split
        intro!: wp_clean_ops wp_write_audit_logged [OF auth extends_add_user_to_group] fin
        dest: added_member_group [OF wf])
qed

lemma updated_member_group:
  "db_wf db \<Longrightarrow> update_group_membership mid role act db = (Inr m, db') \<Longrightarrow>
     db_groups db' = db_groups db \<and> db_users db' = db_users db
     \<and> id_in g_id (db_groups db) (ug_group m) \<and> id_in u_id (db_users db) (ug_user m)"
  by (auto simp: update_group_membership_def Let_def get_group_membership_Inr wf_defs split: sum.splits)

lemma group_of_id: "group_of db i = Inr g \<Longrightarrow> g_id g = i"
  by (auto simp: group_of_def dest: find_Some)

lemma membership_body_total:
  "id_in u_id (db_users db) i \<Longrightarrow> \<exists>b. membership_body db k i role act = Inr b"
  using user_of_total by (fastforce simp: membership_body_def)

lemma tidy_body:
  assumes "\<exists>b. r = Inr b" "st < 300" "logged c db db'"
  shows "tidy c db (res_bind r (\<lambda>b. Inr (b, st))) db'"
  using assms by (auto simp: tidy_def)

lemma tidy_update_group_user:
  assumes wf: "db_wf db" and auth: "authenticated db c" and "body_ok UserGroupUpdateSchema_ok body"
  shows "wp (update_group_user env c mid body) (tidy c db) db"
proof -
  have fin: "tidy c db (res_bind (membership_body db2 (ug_id m) (ug_user m) (ug_role m) (ug_active m)) (\<lambda>b. Inr (b, 200))) db2"
    if u: "update_group_membership mid role act db = (Inr m, db1)" and l: "logged_copy c db1 db2" for role act m db1 db2
    using updated_member_group [OF wf u] logged_copy_audited [OF l] logged_extends [OF extends_update_membership [OF u] l]
    by (intro tidy_body membership_body_total) (auto simp: audited_def)
  have grp: "id_in g_id (db_groups db1) (g_id g)"
    if "update_group_membership mid role act db = (Inr m, db1)" "group_of db1 (ug_group m) = Inr g" for role act m db1 g
    using updated_member_group [OF wf that(1)] group_of_id [OF that(2)] by simp
  show ?thesis
    unfolding update_group_user_def using assms(3)
    by (auto simp: wp_simps require_responses res_bind_Inr split: sum.split option.split
        intro!: wp_clean_ops wp_write_audit_logged [OF auth extends_update_membership] fin grp)
qed

lemma delete_group_membership_data:
  assumes "delete_group_membership mid db = (Inr d, db')"
  shows "\<exists>g u. map_of d ''group_id'' = Some (PInt g) \<and> map_of d ''user_id'' = Some (PInt u) \<and> map_of d ''id'' = Some (PInt mid)
    \<and> membership_group db mid = Inr g \<and> id_in g_id (db_groups db) g"
proof -
  obtain m g u where m: "get_group_membership db mid = Inr m" "group_of db (ug_group m) = Inr g" "user_of db (ug_user m) = Inr u"
    using assms by (rule delete_group_membership_effect) blast
  then have "g \<in> set (db_groups db)"
    by (auto simp: group_of_def dest: find_Some)
  with m assms show ?thesis
    by (auto simp: delete_group_membership_def db_bind_def db_read_def db_return_def atomic_def db_write_def Let_def
        membership_group_def)
qed

lemma tidy_delete_group_user:
  assumes wf: "db_wf db" and auth: "authenticated db c"
  shows "wp (delete_group_user env c mid) (tidy c db) db"
proof -
  have fk: "fk_ok g_id (db_groups db1) (dict_opt_int d ''group_id'')"
    if "delete_group_membership mid db = (Inr d, db1)" for d db1
    using delete_group_membership_data [OF that] extends_delete_group_membership [OF that]
    by (auto simp: dict_opt_int_def extends_def)
  show ?thesis
    unfolding delete_group_user_def
    by (auto simp: wp_simps res_bind_Inr split: sum.split option.split
        intro!: wp_clean_ops wp_write_audit_logged [OF auth extends_delete_group_membership] fk
        intro: logged_extends [OF extends_delete_group_membership])
qed

lemma serialize_user_total:
  assumes "db_wf db" "u \<in> set (db_users db)"
  shows "\<exists>b. serialize_user db u = Inr b"
proof -
  have "fk_ok g_id (db_groups db) (u_active_group_id u)"
    using assms by (simp add: wf_defs)
  then show ?thesis
    using group_of_total by (cases "u_active_group_id u") (fastforce simp: serialize_user_def group_ref_def)+
qed

lemma audited_serialize_user: "audited db db' \<Longrightarrow> serialize_user db' u = serialize_user db u"
  unfolding serialize_user_def group_ref_def audited_lookups [THEN conjunct1] ..

lemma set_active_group_present: "set_active_group uid (Some g) db = (Inr u, db') \<Longrightarrow> id_in g_id (db_groups db') g"
  by (auto simp: set_active_group_def Let_def split: sum.splits if_splits)

lemma wp_create_group_user:
  assumes wf: "db_wf db" and auth: "authenticated db c" and fresh: "fresh_ids env"
    and role: "role \<in> set GROUP_ASSIGNABLE_BY_USER_ADMIN_VALUES"
  shows "wp (atomic
      (db_bind (create_user env k) (\<lambda>u.
       db_bind (add_user_to_group env (u_id u) gid role True) (\<lambda>_.
       db_bind (set_active_group (u_id u) (Some gid)) (\<lambda>_.
       db_bind (db_read (\<lambda>db. get_user db (u_id u) False)) (\<lambda>user.
       db_bind (write_audit env c a ot (u_id user) (Some gid) None None d) (\<lambda>_. db_return user)))))))
    (\<lambda>r db'. case r of Inl e \<Rightarrow> db' = db | Inr user \<Rightarrow> logged c db db' \<and> (\<exists>b. serialize_user db' user = Inr b)) db"
proof -
  have fin: "wp (write_audit env c a ot (u_id user) (Some gid) None None d)
      (\<lambda>r db'. case r of Inl e \<Rightarrow> True | Inr _ \<Rightarrow> logged c db db' \<and> (\<exists>b. serialize_user db' user = Inr b)) db3"
    if 1: "create_user env k db = (Inr u, db1)" and 2: "add_user_to_group env (u_id u) gid role True db1 = (Inr m, db2)"
      and 3: "set_active_group (u_id u) (Some gid) db2 = (Inr u', db3)" and 4: "get_user db3 (u_id u) False = Inr user"
    for u db1 m db2 u' db3 user
  proof -
    have wf2: "db_wf db2"
      by (rule wf_add_user_to_group [OF wf_create_user [OF wf fresh 1] fresh assignable_valid [OF role] 2])
    then have wf3: "db_wf db3"
      by (rule wf_set_active_group [OF _ 3])
    have ext: "extends db db3"
      using extends_create_user [OF wf 1] extends_add_user_to_group [OF 2] extends_set_active_group [OF wf2 3]
      by (meson extends_trans)
    have "\<exists>b. serialize_user db3 user = Inr b"
      using 4 serialize_user_total [OF wf3] by (simp add: get_user_Inr [OF wf3])
    then show ?thesis
      using set_active_group_present [OF 3] logged_extends [OF ext] audited_serialize_user [OF logged_copy_audited]
      by (intro wp_write_audit_logged [OF auth ext]) auto
  qed
  show ?thesis
    by (auto simp: wp_simps split: sum.split intro!: wp_clean_ops wp_mono [OF fin])
qed

lemma tidy_create_group_user:
  assumes wf: "db_wf db" and auth: "authenticated db c" and fresh: "fresh_ids env" and "body_ok GroupUserCreateSchema_ok body"
  shows "wp (create_group_user env c gid body) (tidy c db) db"
  unfolding create_group_user_def using assms(4)
  by (auto simp: wp_require wp_with_active_group wp_with_body wp_catch_integrity wp_read wp_return body_ok_def
      GroupUserCreateSchema_ok_def split: sum.split option.split db_exn.split
      intro!: wp_mono [OF wp_create_group_user [OF wf auth fresh]] tidy_body)

section \<open>Teams\<close>

lemma get_team_total: "t \<in> set (db_teams db) \<Longrightarrow> \<not> t_deleted t \<Longrightarrow> \<exists>s. get_team db (t_id t) = Inr s"
  by (cases "find (\<lambda>s. t_id s = t_id t \<and> \<not> t_deleted s) (db_teams db)") (auto simp: get_team_def find_None_iff the_row_def)

definition answers :: "'a dbr \<Rightarrow> bool" where
  "answers r \<longleftrightarrow> (\<exists>b. r = Inr b)"

lemma answers_Inr [simp]: "answers (Inr b)"
  by (simp add: answers_def)

lemma answers_bind: "answers r \<Longrightarrow> (\<And>x. answers (f x)) \<Longrightarrow> answers (res_bind r f)"
  by (auto simp: answers_def)

lemma answers_question:
  assumes "get_team db tid = Inr s"
  shows "answers (can_read_team db v tid)" "answers (can_write_team db v tid)" "answers (can_respond_team db v tid)"
    "answers (can_manage_team_users db v tid)" "answers (can_view_team_oncall db v tid)"
    "answers (can_access_team_or_group_resource db v tid w)"
proof -
  show q: "answers (can_read_team db v tid)" "answers (can_write_team db v tid)" "answers (can_respond_team db v tid)"
    "answers (can_manage_team_users db v tid)" "answers (can_view_team_oncall db v tid)"
    by (simp_all add: assms can_read_team_def can_write_team_def can_respond_team_def can_manage_team_users_def
        can_view_team_oncall_def split: option.split)
  then have "answers (if w then can_write_team db v tid else can_read_team db v tid)"
    by simp
  then show "answers (can_access_team_or_group_resource db v tid w)"
    unfolding can_access_team_or_group_resource_def
    by (cases v) (auto simp: assms intro!: answers_bind split: option.split)
qed

lemma answers_permissions:
  "get_team db tid = Inr s \<Longrightarrow> answers (attach_team_permissions db v tid)"
  by (auto simp: attach_team_permissions_def get_team_permissions_def intro!: answers_bind answers_question
      split: option.split)

lemma serialize_team_total:
  assumes "t \<in> set (db_teams db)" "\<not> t_deleted t" "fk_ok g_id (db_groups db) (t_group_id t)"
  shows "\<exists>b. serialize_team db v t = Inr b"
proof -
  obtain s where s: "get_team db (t_id t) = Inr s"
    using get_team_total [OF assms(1,2)] by blast
  then have "\<exists>l. attach_team_permissions db v (t_id t) = Inr l"
    using answers_permissions by (simp add: answers_def)
  moreover have "\<exists>g. group_ref db (t_group_id t) = Inr g"
    using assms(3) group_of_total by (cases "t_group_id t") (fastforce simp: group_ref_def)+
  ultimately show ?thesis
    by (auto simp: serialize_team_def)
qed

lemma tidy_team:
  assumes "extends db db1" "logged_copy c db1 db2" "st < 300"
    and "t \<in> set (db_teams db1)" "\<not> t_deleted t" "fk_ok g_id (db_groups db1) (t_group_id t)"
  shows "tidy c db (res_bind (serialize_team db2 v t) (\<lambda>b. Inr (b, st))) db2"
  using assms logged_copy_audited [OF assms(2)] logged_extends [OF assms(1,2)]
  by (intro tidy_body serialize_team_total) (auto simp: audited_def)

lemma created_team_present:
  assumes wf: "db_wf db" and "create_team env s n d e r g a db = (Inr t, db')"
  shows "t \<in> set (db_teams db') \<and> \<not> t_deleted t \<and> db_groups db' = db_groups db \<and> fk_ok g_id (db_groups db) (t_group_id t)
    \<and> db_users db' = db_users db \<and> id_in t_id (db_teams db') (t_id t)"
proof (cases "find (\<lambda>t. t_slug t = s) (db_teams db)")
  case None
  then show ?thesis
    using assms(2) by (auto simp: create_team_def Let_def split: if_splits)
next
  case (Some old)
  have mem: "old \<in> set (db_teams db)"
    using find_Some [OF Some] by simp
  have t: "t_id t = t_id old" "t_group_id t = t_group_id old" "\<not> t_deleted t"
    and db': "db' = db\<lparr>db_teams := update_row t_id t (db_teams db)\<rparr>"
    using assms(2) Some by (auto simp: create_team_def Let_def split: if_splits)
  have "distinct (map t_id (db_teams db))" "fk_ok g_id (db_groups db) (t_group_id old)"
    using wf mem by (simp_all add: wf_defs)
  then show ?thesis
    using set_update_row_iff [OF _ mem t(1)] t id_in_self [of t "db_teams db'" t_id] by (simp add: db')
qed

lemma updated_team_present:
  assumes wf: "db_wf db" and "update_team tid p db = (Inr t, db')"
  shows "t \<in> set (db_teams db') \<and> \<not> t_deleted t \<and> db_groups db' = db_groups db \<and> fk_ok g_id (db_groups db) (t_group_id t)
    \<and> id_in t_id (db_teams db') (t_id t)"
  using assms(2)
proof (rule update_team_effect)
  fix old assume a: "get_team db tid = Inr old" "t = apply_team_patch p old" "fk_ok g_id (db_groups db) (t_group_id t)"
    "db' = db\<lparr>db_teams := update_row t_id t (db_teams db)\<rparr>"
  have old: "old \<in> set (db_teams db)" "t_id t = t_id old" "\<not> t_deleted t"
    using a(1,2) by (simp_all add: get_team_Inr [OF wf] apply_team_patch_def)
  have "distinct (map t_id (db_teams db))"
    using wf by (simp add: wf_defs)
  then show ?thesis
    using set_update_row_iff [OF _ old(1,2), of t] old(3) a(3,4) id_in_self [of t "db_teams db'" t_id] by simp
qed

lemma tidy_update_team:
  assumes wf: "db_wf db" and auth: "authenticated db c" and "body_ok (\<lambda>_. True) body"
  shows "wp (update_team_view env c tid body) (tidy c db) db"
proof -
  have guard: "tidy c db (Inr r) db" if "team_change_guard c tid p db = Inr (Some r)" for p r
    using that by (auto simp: team_change_guard_def res_bind_Inr split: if_splits option.splits intro: tidy_refusals)
  have conflict: "tidy c db (Inr (team_conflict s e)) db" for s e
    by (simp add: tidy_def team_conflict_def unique_field_conflict_def integrity_conflict_def)
  show ?thesis
    unfolding update_team_view_def using assms(3)
    by (auto simp: wp_simps split: sum.split option.split db_exn.split
        intro!: wp_clean_ops wp_write_audit_logged [OF auth extends_update_team] tidy_team [OF extends_update_team] conflict
        dest: updated_team_present [OF wf] guard)
qed

lemma add_user_to_team_tables:
  assumes "add_user_to_team env tid uid role act db = (r, db')"
  shows "db_teams db' = db_teams db \<and> db_groups db' = db_groups db \<and> db_users db' = db_users db"
  using add_user_to_team_effect [OF assms]
  by (auto simp: pruned_def prune_def put_team_user_def put_team_membership_def Let_def split: option.splits)

text \<open>Adding an existing user to an existing team succeeds.\<close>

lemma add_user_to_team_total:
  assumes "id_in u_id (db_users db) uid" "id_in t_id (db_teams db) tid"
  shows "\<exists>m db'. add_user_to_team env tid uid role act db = (Inr m, db') \<and> tu_user m = uid"
proof -
  have "\<exists>m db1. put_team_membership env tid uid role act db = (Inr m, db1) \<and> tu_team m = tid \<and> tu_user m = uid
      \<and> db_teams db1 = db_teams db \<and> db_users db1 = db_users db"
  proof (cases "find (\<lambda>m. tu_team m = tid \<and> tu_user m = uid) (db_team_users db)")
    case (Some old)
    then show ?thesis
      using find_Some [OF Some] by (simp add: put_team_membership_def Let_def)
  qed (use assms in \<open>simp add: put_team_membership_def Let_def\<close>)
  then obtain m db1 where put: "put_team_membership env tid uid role act db = (Inr m, db1)"
    and m: "tu_team m = tid" "tu_user m = uid" "db_teams db1 = db_teams db" "db_users db1 = db_users db"
    by blast
  obtain t u where "team_of db1 (tu_team m) = Inr t" "user_of db1 (tu_user m) = Inr u"
    using assms m team_of_total [of db1 tid] user_of_total [of db1 uid] by auto
  then show ?thesis
    using put m(2) by (auto simp: add_user_to_team_def db_bind_def db_return_def db_read_def
        deactivate_user_in_team_rotations_def Let_def)
qed

lemma tidy_create_team:
  assumes wf: "db_wf db" and auth: "authenticated db c" and "body_ok (\<lambda>_. True) body"
  shows "wp (create_team_view env c body) (tidy c db) db"
proof -
  have conflict: "tidy c db (Inr (team_conflict s e)) db" for s e
    by (simp add: tidy_def team_conflict_def unique_field_conflict_def integrity_conflict_def)
  have fin: "wp (write_audit env c a ot oi (t_group_id t) (Some (t_id t)) None d)
      (\<lambda>r db'. (\<forall>e. r = Inl e \<longrightarrow> tidy c db (Inl e) db')
        \<and> ((\<exists>x. r = Inr x) \<longrightarrow> tidy c db (res_bind (serialize_team db' v t) (\<lambda>b. Inr (b, 201))) db')) db2"
    if cr: "create_team env s n ds e r g act db = (Inr t, db1)"
      and db2: "db2 = db1 \<or> (\<exists>u r. add_user_to_team env (t_id t) (u_id u) TEAM_MANAGER_ROLE True db1 = (r, db2))"
    for s n ds e r g act t db1 db2 a ot oi d v
  proof -
    have ext: "extends db db2"
      using extends_create_team [OF cr] extends_add_user_to_team extends_trans db2 by blast
    have "db_teams db2 = db_teams db1 \<and> db_groups db2 = db_groups db1"
      using db2 add_user_to_team_tables by blast
    then show ?thesis
      using created_team_present [OF wf cr]
      by (intro wp_write_audit_logged [OF auth ext]) (auto intro!: tidy_team [OF ext])
  qed
  have join: "wp (add_user_to_team env (t_id t) (u_id u) TEAM_MANAGER_ROLE True)
      (\<lambda>r db'. (\<forall>e. r = Inl e \<longrightarrow> tidy c db (Inl e) db') \<and> ((\<exists>x. r = Inr x) \<longrightarrow> Q db')) db1"
    if cr: "create_team env s n ds e r g act db = (Inr t, db1)" and u: "rq_user c = Some u"
      and Q: "\<And>db2 r. add_user_to_team env (t_id t) (u_id u) TEAM_MANAGER_ROLE True db1 = (r, db2) \<Longrightarrow> Q db2"
    for s n ds e r g act t db1 u Q
  proof -
    have "id_in u_id (db_users db1) (u_id u)"
      using auth u created_team_present [OF wf cr] by (auto simp: authenticated_def)
    then obtain m db2 where "add_user_to_team env (t_id t) (u_id u) TEAM_MANAGER_ROLE True db1 = (Inr m, db2)"
      using add_user_to_team_total created_team_present [OF wf cr] by blast
    then show ?thesis
      using Q by (simp add: wp_def)
  qed
  show ?thesis
    unfolding create_team_view_def using assms(3)
    by (auto simp: wp_simps split: sum.split option.split db_exn.split
        intro!: wp_clean_ops conflict intro: fin join)
qed

lemma updated_team_member_present:
  assumes wf: "db_wf db" and upd: "update_team_membership mid role act db = (Inr m, db')"
  shows "id_in u_id (db_users db') (tu_user m) \<and> id_in t_id (db_teams db') (tu_team m)"
proof -
  obtain old where old: "get_team_membership db mid = Inr old" "pruned {tu_team old}
      (db\<lparr>db_team_users := update_row tu_id (old\<lparr>tu_role := role, tu_active := act\<rparr>) (db_team_users db)\<rparr>) db'"
    using update_team_membership_effect [OF upd] by blast
  have "m = old\<lparr>tu_role := role, tu_active := act\<rparr>"
    using upd old(1) by (auto simp: update_team_membership_def db_bind_def db_read_def db_write_def db_return_def atomic_def
        Let_def split: sum.splits if_splits prod.splits)
  moreover have "id_in u_id (db_users db) (tu_user old)" "id_in t_id (db_teams db) (tu_team old)"
    using wf old(1) by (simp_all add: get_team_membership_Inr [OF wf] wf_defs)
  ultimately show ?thesis
    using old(2) by (auto simp: pruned_def prune_def)
qed

lemma team_row_fk: "db_wf db \<Longrightarrow> team_of db i = Inr t \<Longrightarrow> id_in t_id (db_teams db) (t_id t) \<and> fk_ok g_id (db_groups db) (t_group_id t)"
  by (auto simp: team_of_Inr wf_defs)

lemma tidy_update_team_user:
  assumes wf: "db_wf db" and auth: "authenticated db c" and body: "body_ok TeamUserUpdateSchema_ok body"
  shows "wp (update_team_user env c mid body) (tidy c db) db"
proof -
  have team: "team_of db1 (tu_team m) \<noteq> Inl e"
    if "update_team_membership mid role act db = (Inr m, db1)" for role act m db1 e
    using updated_team_member_present [OF wf that] team_of_total by fastforce
  have fk: "fk_ok g_id (db_groups db1) (t_group_id t)" "id_in t_id (db_teams db1) (t_id t)"
    if u: "update_team_membership mid role act db = (Inr m, db1)" and t: "team_of db1 (tu_team m) = Inr t" 
      and r: "role \<in> set TEAM_ROLE_VALUES" for role act m db1 t
    using team_row_fk [OF wf_update_team_membership [OF wf r u] t] by simp_all
  have fin: "tidy c db (res_bind (membership_body db2 (tu_id m) (tu_user m) (tu_role m) (tu_active m)) (\<lambda>b. Inr (b, 200))) db2"
    if u: "update_team_membership mid role act db = (Inr m, db1)" and l: "logged_copy c db1 db2" for role act m db1 db2
    using updated_team_member_present [OF wf u] logged_copy_audited [OF l] logged_extends [OF extends_update_team_membership [OF u] l]
    by (intro tidy_body membership_body_total) (auto simp: audited_def)
  show ?thesis
    unfolding update_team_user_def using body
    by (auto simp: wp_simps res_bind_Inr team split: sum.split option.split
        intro!: wp_clean_ops wp_write_audit_logged [OF auth extends_update_team_membership] fin fk
        dest: body_okD simp: TeamUserUpdateSchema_ok_def)
qed

lemma team_user_guard_refuses: "team_user_guard tid uid db = Inr (Some r) \<Longrightarrow> tidy c db (Inr r) db"
proof -
  assume "team_user_guard tid uid db = Inr (Some r)"
  then have "r = user_not_in_group"
    by (auto simp: team_user_guard_def res_bind_Inr split: option.splits if_splits)
  then show ?thesis
    by (simp add: user_not_in_group_def)
qed

lemma tidy_add_team_user:
  assumes wf: "db_wf db" and auth: "authenticated db c" and fresh: "fresh_ids env" and body: "body_ok TeamUserAddSchema_ok body"
  shows "wp (add_team_user env c tid body) (tidy c db) db"
proof -
  have add: "wp (add_user_to_team env tid uid role act) (\<lambda>r db'. (\<forall>e. r = Inl e \<longrightarrow> tidy c db (Inl e) db')
      \<and> (\<forall>m. r = Inr m \<longrightarrow> Q m db')) db"
    if t: "get_team db tid = Inr t"
      and Q: "\<And>m db1. add_user_to_team env tid uid role act db = (Inr m, db1) \<Longrightarrow> tu_user m = uid
        \<Longrightarrow> id_in u_id (db_users db) uid \<Longrightarrow> Q m db1"
    for uid role act t Q
  proof (cases "id_in u_id (db_users db) uid")
    case True
    moreover have "id_in t_id (db_teams db) tid"
      using t by (auto simp: get_team_Inr [OF wf])
    ultimately obtain m db1 where "add_user_to_team env tid uid role act db = (Inr m, db1)" "tu_user m = uid"
      using add_user_to_team_total by blast
    then show ?thesis
      using Q True by (simp add: wp_def)
  next
    case False
    then have "find (\<lambda>m. tu_team m = tid \<and> tu_user m = uid) (db_team_users db) = None"
      using wf by (auto simp: find_None_iff wf_defs)
    then have "add_user_to_team env tid uid role act db = (Inl (IntegrityError ''foreign key''), db)"
      using False by (simp add: add_user_to_team_def put_team_membership_def db_bind_def)
    then show ?thesis
      by (simp add: wp_def)
  qed
  have fk: "fk_ok g_id (db_groups db1) (t_group_id t)" "id_in t_id (db_teams db1) tid"
    if "add_user_to_team env tid uid role act db = (Inr m, db1)" "get_team db tid = Inr t" for uid role act m db1 t
    using add_user_to_team_tables [OF that(1)] that(2) wf by (auto simp: get_team_Inr [OF wf] wf_defs)
  have fin: "tidy c db (res_bind (membership_body db2 (tu_id m) (tu_user m) (tu_role m) (tu_active m)) (\<lambda>b. Inr (b, 201))) db2"
    if a: "add_user_to_team env tid uid role act db = (Inr m, db1)" and l: "logged_copy c db1 db2"
      and "id_in u_id (db_users db) uid" "tu_user m = uid" for uid role act m db1 db2
    using that(3,4) add_user_to_team_tables [OF a] logged_copy_audited [OF l] logged_extends [OF extends_add_user_to_team [OF a] l]
    by (intro tidy_body membership_body_total) (auto simp: audited_def)
  show ?thesis
    unfolding add_team_user_def using body
    by (auto simp: wp_simps team_user_guard_refuses split: sum.split option.split
        intro!: add wp_write_audit_logged [OF auth extends_add_user_to_team] fin fk)
qed

lemma delete_team_membership_data:
  assumes wf: "db_wf db" and "delete_team_membership mid db = (Inr d, db')"
  shows "fk_ok g_id (db_groups db) (dict_opt_int d ''group_id'') \<and> fk_ok t_id (db_teams db) (dict_opt_int d ''team_id'')"
proof -
  obtain m t u where m: "get_team_membership db mid = Inr m" "team_of db (tu_team m) = Inr t" "user_of db (tu_user m) = Inr u"
    using assms(2) by (rule delete_team_membership_effect) blast
  then show ?thesis
    using team_row_fk [OF wf m(2)] assms(2)
    by (auto simp: delete_team_membership_def db_bind_def db_read_def db_return_def atomic_def db_write_def Let_def
        dict_opt_int_def split: option.splits)
qed

lemma tidy_delete_team_user:
  assumes wf: "db_wf db" and auth: "authenticated db c"
  shows "wp (delete_team_user env c mid) (tidy c db) db"
proof -
  have fk: "fk_ok g_id (db_groups db1) (dict_opt_int d ''group_id'')" "fk_ok t_id (db_teams db1) (dict_opt_int d ''team_id'')"
    if "delete_team_membership mid db = (Inr d, db1)" for d db1
    using delete_team_membership_data [OF wf that] extends_delete_team_membership [OF that]
    by (auto simp: extends_def fk_ok_def split: option.splits)
  show ?thesis
    unfolding delete_team_user_def
    by (auto simp: wp_simps res_bind_Inr split: sum.split option.split
        intro!: wp_clean_ops wp_write_audit_logged [OF auth extends_delete_team_membership] fk
        intro: logged_extends [OF extends_delete_team_membership])
qed

section \<open>Whole requests\<close>

lemma handler_tidy:
  assumes "db_wf db" "authenticated db c" "fresh_ids env" "request_ok req"
  shows "wp (handler env c req) (tidy c db) db"
  using assms
  by (cases req)
    (simp_all add: tidy_update_group tidy_create_group_user tidy_add_group_user tidy_update_group_user
      tidy_delete_group_user tidy_create_team tidy_update_team tidy_add_team_user tidy_update_team_user
      tidy_delete_team_user)

text \<open>
  C8. A request is all or nothing and leaves a trace when it acts: an error answer, from a guard,
  a conflict, a missing row or any exception, leaves the database exactly as it was, also in the
  team handlers, which run outside a transaction; a success adds exactly one audit record, which
  names the authenticated user and token.
\<close>

theorem request_all_or_nothing:
  assumes "db_wf db" "authenticated db c" "fresh_ids env" "request_ok req"
    and "handle env c req db = ((b, st), db')"
  shows "400 \<le> st \<and> db' = db \<or> st < 300 \<and> logged c db db'"
proof (cases "handler env c req db")
  case (Pair r db1)
  then have "tidy c db r db1"
    using handler_tidy [OF assms(1-4)] by (simp add: wp_def)
  then show ?thesis
    using assms(5) Pair
    by (auto simp: handle_def respond_def tidy_def split: sum.splits db_exn.splits)
qed

section \<open>Removing a member\<close>

lemma wp_delete_group_user:
  "wp (delete_group_user env c mid) (\<lambda>r db'. \<forall>b st. r = Inr (b, st) \<longrightarrow> st < 300 \<longrightarrow>
     (\<exists>d db1. delete_group_membership mid db = (Inr d, db1) \<and> audited db1 db')) db"
  unfolding delete_group_user_def
  by (auto simp: wp_simps res_bind_Inr split: sum.split option.split
      intro!: wp_clean_ops wp_write_audit dest!: require_responses)

lemma delete_group_membership_revokes:
  assumes wf: "db_wf db" and del: "delete_group_membership mid db = (Inr d, db')"
    and m: "get_group_membership db mid = Inr m"
  shows "get_user_group_role db' (ug_user m) (ug_group m) = None
    \<and> (\<forall>tid\<in>group_teams db' (ug_group m). get_user_team_role db' (ug_user m) tid = None)
    \<and> (\<forall>r\<in>set (db_rotation_members db'). rm_user r = ug_user m \<longrightarrow>
         rm_rotation r \<notin> team_rotation_ids db' (group_teams db' (ug_group m)))
    \<and> (\<forall>r\<in>set (db_layer_members db'). lm_user r = ug_user m \<longrightarrow>
         lm_layer r \<notin> rotation_layer_ids db' (team_rotation_ids db' (group_teams db' (ug_group m))))
    \<and> (\<forall>r\<in>set (db_overrides db'). ov_user r = ug_user m \<longrightarrow>
         ov_rotation r \<notin> team_rotation_ids db' (group_teams db' (ug_group m)))"
  using del
proof (rule delete_group_membership_effect)
  fix m' h u teams rotations layers
  assume a: "get_group_membership db mid = Inr m'" "group_of db (ug_group m') = Inr h" "user_of db (ug_user m') = Inr u"
    and teams: "teams = {t_id t |t. t \<in> set (db_teams db) \<and> t_group_id t = Some (g_id h)}"
    and rot: "rotations = team_rotation_ids db teams" "layers = rotation_layer_ids db rotations"
    and db': "db' = prune db (\<lambda>r. ug_id r \<noteq> mid) (\<lambda>r. tu_user r = u_id u \<longrightarrow> tu_team r \<notin> teams)
       (filter (\<lambda>r. \<not> of_member (u_id u) rotations r) (db_rotation_members db))
       (filter (\<lambda>r. \<not> of_layer_member (u_id u) layers r) (db_layer_members db))
       (filter (\<lambda>r. \<not> of_override (u_id u) rotations r) (db_overrides db))"
  have eq: "m' = m" "g_id h = ug_group m" "u_id u = ug_user m"
    using a m by (auto simp: group_of_Inr [OF wf] user_of_Inr [OF wf])
  have mem: "m \<in> set (db_user_groups db)" "ug_id m = mid"
    using m by (simp_all add: get_group_membership_Inr [OF wf])
  have gt: "group_teams db' (ug_group m) = teams"
    by (simp add: group_teams_def teams eq db' prune_def)
  have rt: "team_rotation_ids db' T = team_rotation_ids db T" "rotation_layer_ids db' R = rotation_layer_ids db R" for T R
    by (simp_all add: team_rotation_ids_def rotation_layer_ids_def db' prune_def)
  have pair: "distinct (map (\<lambda>m. (ug_user m, ug_group m)) (db_user_groups db))"
    using wf by (simp add: wf_defs)
  have "x = m" if "x \<in> set (db_user_groups db)" "ug_user x = ug_user m" "ug_group x = ug_group m" for x
    using same_key [OF pair that(1) mem(1)] that by simp
  then have "get_user_group_role db' (ug_user m) (ug_group m) = None"
    using mem by (auto simp: get_user_group_role_def db' prune_def find_None_iff)
  moreover have "\<forall>tid\<in>teams. get_user_team_role db' (ug_user m) tid = None"
    by (auto simp: get_user_team_role_def db' prune_def find_None_iff eq)
  ultimately show ?thesis
    unfolding gt rt rot(1) [symmetric] rot(2) [symmetric]
    by (auto simp: db' prune_def of_member_def of_layer_member_def of_override_def eq)
qed

text \<open>
  C7. Removing a member through the API takes everything the membership gave: the user has no role
  in the group and in none of its teams, can no longer read the group or see any of its teams'
  on-call schedules (unless a global administrator), and stands in no rotation, no rotation layer
  and no override of a team of the group.
\<close>

theorem member_removal_revokes:
  assumes wf: "db_wf db" and h: "handle env c (Delete_Group_User mid) db = ((b, st), db')" "st < 300"
    and m: "get_group_membership db mid = Inr m" and v: "u_id v = ug_user m" "\<not> u_is_admin v"
  shows "\<not> can_read_group db' (Some v) (ug_group m)
    \<and> (\<forall>tid\<in>group_teams db' (ug_group m). get_user_team_role db' (ug_user m) tid = None
         \<and> can_view_team_oncall db' (Some v) tid \<noteq> Inr True \<and> can_read_team db' (Some v) tid \<noteq> Inr True)
    \<and> (\<forall>r\<in>set (db_rotation_members db'). rm_user r = ug_user m \<longrightarrow>
         rm_rotation r \<notin> team_rotation_ids db' (group_teams db' (ug_group m)))
    \<and> (\<forall>r\<in>set (db_layer_members db'). lm_user r = ug_user m \<longrightarrow>
         lm_layer r \<notin> rotation_layer_ids db' (team_rotation_ids db' (group_teams db' (ug_group m))))
    \<and> (\<forall>r\<in>set (db_overrides db'). ov_user r = ug_user m \<longrightarrow>
         ov_rotation r \<notin> team_rotation_ids db' (group_teams db' (ug_group m)))"
proof -
  obtain d db1 where del: "delete_group_membership mid db = (Inr d, db1)" and aud: "audited db1 db'"
  proof (cases "delete_group_user env c mid db")
    case (Pair r db2)
    then have "r = Inr (b, st)" "db2 = db'"
      using h by (auto simp: handle_def respond_def split: sum.splits db_exn.splits)
    then show ?thesis
      using wp_delete_group_user [of env c mid db] h(2) Pair that by (auto simp: wp_def)
  qed
  have wf': "db_wf db'"
    using wf_delete_group_membership [OF wf del] db_wf_audited [OF aud] by simp
  note part = group_part_audited [OF aud]
  have same: "get_user_team_role db' u t = get_user_team_role db1 u t" "group_teams db' g = group_teams db1 g"
    "team_rotation_ids db' T = team_rotation_ids db1 T" "rotation_layer_ids db' R = rotation_layer_ids db1 R"
    "db_rotation_members db' = db_rotation_members db1" "db_layer_members db' = db_layer_members db1"
    "db_overrides db' = db_overrides db1" for u t g T R
    using aud by (auto simp: audited_def get_user_team_role_def group_teams_def team_rotation_ids_def rotation_layer_ids_def)
  note gone = delete_group_membership_revokes [OF wf del m]
  have read: "\<not> can_read_group db' (Some v) (ug_group m)"
    using gone role_of_group_part [OF part] v by (simp add: can_read_group_def)
  moreover have "can_view_team_oncall db' (Some v) tid \<noteq> Inr True" if "tid \<in> group_teams db' (ug_group m)" for tid
  proof
    assume "can_view_team_oncall db' (Some v) tid = Inr True"
    then obtain t g where "get_team db' tid = Inr t" "t_group_id t = Some g" "can_read_group db' (Some v) g"
      using can_team_iff(4) [OF wf' v(2)] by blast
    then show False
      using read that not_in_group_teams [OF wf', of t "ug_group m"] by (auto simp: get_team_Inr [OF wf'])
  qed
  moreover have "can_read_team db' (Some v) tid = Inr True \<Longrightarrow> can_view_team_oncall db' (Some v) tid = Inr True" for tid
    using v manage_imp_write [THEN write_imp_read]
    by (auto simp: can_team_iff [OF wf' v(2)] simp del: role_in_team)
  ultimately show ?thesis
    using gone unfolding same by blast
qed

lemma removal_answer: "snd (fst (handle example_env ann_ctx (Delete_Group_User 3) example_db)) = 200"
  by code_simp

lemma request_all_or_nothing_witness: "logged ann_ctx example_db after_removal"
proof -
  obtain b st where h: "handle example_env ann_ctx (Delete_Group_User 3) example_db = ((b, st), after_removal)" "st = 200"
    using removal_answer unfolding after_removal_def by (metis prod.collapse)
  then show ?thesis
    using request_all_or_nothing [OF example_db_wf ann_authenticated example_env_fresh _ h(1)] by simp
qed

lemma member_removal_revokes_witness:
  "\<not> can_read_group after_removal (Some bob) 2
   \<and> (2, 1) \<notin> (\<lambda>r. (ov_user r, ov_rotation r)) ` set (db_overrides after_removal)"
proof -
  obtain b st where h: "handle example_env ann_ctx (Delete_Group_User 3) example_db = ((b, st), after_removal)" "st = 200"
    using removal_answer unfolding after_removal_def by (metis prod.collapse)
  then have ok: "st < 300"
    by simp
  have m: "get_group_membership example_db 3 = Inr \<lparr>ug_id = 3, ug_user = 2, ug_group = 2, ug_role = ''viewer'', ug_active = True\<rparr>"
    by code_simp
  have "u_id bob = 2" "\<not> u_is_admin bob"
    by (simp_all add: bob_def example_user_def)
  then have revoked: "\<not> can_read_group after_removal (Some bob) 2"
    "\<forall>r\<in>set (db_overrides after_removal). ov_user r = 2 \<longrightarrow> ov_rotation r \<notin> team_rotation_ids after_removal (group_teams after_removal 2)"
    using member_removal_revokes [OF example_db_wf h(1) ok m] by simp_all
  have "db_rotations after_removal = [\<lparr>rt_id = 1, rt_team = 2\<rparr>]" "example_team 2 2 ''tb'' \<in> set (db_teams after_removal)"
    by code_simp+
  then have "2 \<in> group_teams after_removal 2" and rot: "db_rotations after_removal = [\<lparr>rt_id = 1, rt_team = 2\<rparr>]"
    unfolding group_teams_def by (auto simp: example_team_def intro!: exI [of _ "example_team 2 2 ''tb''"])
  then have "1 \<in> team_rotation_ids after_removal (group_teams after_removal 2)"
    by (simp add: team_rotation_ids_def rot image_iff)
  then have "ov_user r \<noteq> 2 \<or> ov_rotation r \<noteq> 1" if "r \<in> set (db_overrides after_removal)" for r
    using revoked(2) that by auto
  then show ?thesis
    using revoked(1) by fastforce
qed

end
