(* ===== verification/Civil_Dates.thy ===== *)
theory Civil_Dates
  imports On_Call
begin

text \<open>
  The proleptic Gregorian calendar of Python's \<open>datetime\<close>, on day numbers counted from
  1 January 1970: leap years, month lengths, the day number of a date and the date of a day number,
  and \<open>isoformat\<close>. Years have no bounds here.
\<close>

section \<open>Dates\<close>

definition is_leap :: "int \<Rightarrow> bool" where
  "is_leap y \<longleftrightarrow> y mod 4 = 0 \<and> (y mod 100 \<noteq> 0 \<or> y mod 400 = 0)"

text \<open>\<open>calendar.monthrange(year, month)[1]\<close>\<close>

definition days_in_month :: "int \<Rightarrow> int \<Rightarrow> int" where
  "days_in_month y m =
     (if m = 2 then if is_leap y then 29 else 28
      else if m \<in> {4, 6, 9, 11} then 30 else 31)"

text \<open>The days of the years before year \<open>q + 1\<close>.\<close>

definition days_before_year :: "int \<Rightarrow> int" where
  "days_before_year q = 365 * q + q div 4 - q div 100 + q div 400"

fun days_before_month :: "int \<Rightarrow> nat \<Rightarrow> int" where
  "days_before_month y 0 = 0"
| "days_before_month y (Suc m) = (if m = 0 then 0 else days_before_month y m + days_in_month y (int m))"

abbreviation epoch_days :: int where "epoch_days \<equiv> 719162"

definition date_days :: "int \<Rightarrow> int \<Rightarrow> int \<Rightarrow> int" where
  "date_days y m d = days_before_year (y - 1) + days_before_month y (nat m) + d - 1 - epoch_days"

definition valid_date :: "int \<Rightarrow> int \<Rightarrow> int \<Rightarrow> bool" where
  "valid_date y m d \<longleftrightarrow> 1 \<le> m \<and> m \<le> 12 \<and> 1 \<le> d \<and> d \<le> days_in_month y m"

definition year_of :: "int \<Rightarrow> int" where
  "year_of n =
     (let r = n + epoch_days; q = r * 400 div 146097
      in if r < days_before_year (q + 1) then q + 1 else q + 2)"

function month_from :: "int \<Rightarrow> int \<Rightarrow> int \<Rightarrow> int \<times> int" where
  "month_from y m r =
     (if 12 \<le> m \<or> r < days_in_month y m then (m, r + 1) else month_from y (m + 1) (r - days_in_month y m))"
  by auto
termination by (relation "measure (\<lambda>(y, m, r). nat (12 - m))") auto

declare month_from.simps [simp del]

definition civil :: "int \<Rightarrow> int \<times> int \<times> int" where
  "civil n = (let y = year_of n; (m, d) = month_from y 1 (n + epoch_days - days_before_year (y - 1)) in (y, m, d))"

section \<open>Day numbers and dates are inverse\<close>

lemma days_in_month_bounds: "28 \<le> days_in_month y m" "days_in_month y m \<le> 31"
  by (auto simp: days_in_month_def)

lemma div_next:
  fixes k q :: int
  assumes "1 < k"
  shows "(q + 1) div k = q div k + (if (q + 1) mod k = 0 then 1 else 0)"
proof -
  have step: "(q + 1) div k = q div k + (q mod k + 1) div k" "(q + 1) mod k = (q mod k + 1) mod k"
    using assms by (simp_all add: div_add1_eq [of q 1] mod_add_left_eq)
  show ?thesis
  proof (cases "q mod k + 1 = k")
    case True
    then show ?thesis
      using step assms by simp
  next
    case False
    then have "0 < q mod k + 1" "q mod k + 1 < k"
      using assms pos_mod_bound [of k q] pos_mod_sign [of k q] by linarith+
    then show ?thesis
      using step by (simp add: div_pos_pos_trivial mod_pos_pos_trivial)
  qed
qed

lemma leap_count:
  assumes "c \<Longrightarrow> b" "b \<Longrightarrow> a"
  shows "(365::int) * (q + 1) + (x + (if a then 1 else 0)) - (y + (if b then 1 else 0)) + (z + (if c then 1 else 0))
    = 365 * q + x - y + z + (if a \<and> (\<not> b \<or> c) then 366 else 365)"
  using assms by (cases a; cases b; cases c) simp_all

lemma days_before_year_step: "days_before_year (q + 1) = days_before_year q + (if is_leap (q + 1) then 366 else 365)"
proof -
  have "(q + 1) mod 400 mod 100 = (q + 1) mod 100" "(q + 1) mod 100 mod 4 = (q + 1) mod 4"
    by (simp_all add: mod_mod_cancel)
  then have imp: "(q + 1) mod 400 = 0 \<Longrightarrow> (q + 1) mod 100 = 0" "(q + 1) mod 100 = 0 \<Longrightarrow> (q + 1) mod 4 = 0"
    by (metis mod_0)+
  have k: "1 < (4::int)" "1 < (100::int)" "1 < (400::int)"
    by simp_all
  show ?thesis
    unfolding days_before_year_def is_leap_def div_next [OF k(1)] div_next [OF k(2)] div_next [OF k(3)]
    using imp by (rule leap_count)
qed

lemma days_before_month_rec: "0 \<le> m \<Longrightarrow> days_before_month y (nat (m + 1)) = (if m = 0 then 0 else days_before_month y (nat m) + days_in_month y m)"
  by (simp add: nat_add_distrib)

lemma year_length: "days_before_month y 13 = (if is_leap y then 366 else 365)"
  by (simp add: numeral_eq_Suc days_in_month_def)

lemma year_estimate:
  fixes r q :: int
  assumes "146097 * q \<le> r * 400" "r * 400 < 146097 * q + 146097"
  shows "4 * a \<le> q \<and> q < 4 * a + 4 \<Longrightarrow> 100 * b \<le> q \<and> q < 100 * b + 100 \<Longrightarrow> 400 * c \<le> q \<and> q < 400 * c + 400
      \<Longrightarrow> 365 * q + a - b + c \<le> r"
    and "4 * a \<le> q + 2 \<and> q + 2 < 4 * a + 4 \<Longrightarrow> 100 * b \<le> q + 2 \<and> q + 2 < 100 * b + 100
      \<Longrightarrow> 400 * c \<le> q + 2 \<and> q + 2 < 400 * c + 400 \<Longrightarrow> r < 365 * (q + 2) + a - b + c"
proof -
  assume "4 * a \<le> q \<and> q < 4 * a + 4" "100 * b \<le> q \<and> q < 100 * b + 100" "400 * c \<le> q \<and> q < 400 * c + 400"
  then show "365 * q + a - b + c \<le> r"
    using assms by linarith
next
  assume "4 * a \<le> q + 2 \<and> q + 2 < 4 * a + 4" "100 * b \<le> q + 2 \<and> q + 2 < 100 * b + 100"
    "400 * c \<le> q + 2 \<and> q + 2 < 400 * c + 400"
  then have "q + 2 \<le> 4 * a + 3" "100 * b \<le> q + 2" "q + 2 \<le> 400 * c + 399"
    by simp_all
  then have "146000 * q + 292000 + 100 * (q - 1) - 4 * (q + 2) + (q - 397) \<le> 400 * (365 * (q + 2) + a - b + c)"
    by (simp add: algebra_simps)
  then have "400 * r < 400 * (365 * (q + 2) + a - b + c)"
    using assms by (simp add: algebra_simps)
  then show "r < 365 * (q + 2) + a - b + c"
    by simp
qed

lemma div_range: "0 < k \<Longrightarrow> k * (x div k) \<le> x \<and> x < k * (x div k) + k" for x k :: int
  using pos_mod_bound [of k x] pos_mod_sign [of k x] mult_div_mod_eq [of k x] by linarith

lemma year_of_range:
  "days_before_year (year_of n - 1) \<le> n + epoch_days" "n + epoch_days < days_before_year (year_of n)"
proof -
  let ?r = "n + epoch_days" and ?q = "(n + epoch_days) * 400 div 146097"
  have q: "146097 * ?q \<le> ?r * 400" "?r * 400 < 146097 * ?q + 146097"
    using div_range [of 146097 "?r * 400"] by simp_all
  have low: "days_before_year ?q \<le> ?r"
    unfolding days_before_year_def by (rule year_estimate(1) [OF q]) (rule div_range, simp)+
  have high: "?r < days_before_year (?q + 2)"
    unfolding days_before_year_def by (rule year_estimate(2) [OF q]) (rule div_range, simp)+
  have "year_of n = ?q + 1 \<and> ?r < days_before_year (?q + 1) \<or> year_of n = ?q + 2 \<and> days_before_year (?q + 1) \<le> ?r"
    by (simp only: year_of_def Let_def not_less [symmetric] if_True if_False split: if_split) simp
  moreover have "?q + 1 - 1 = ?q" "?q + 2 - 1 = ?q + 1"
    by simp_all
  ultimately show "days_before_year (year_of n - 1) \<le> ?r" "?r < days_before_year (year_of n)"
    using low high by (elim disjE conjE; simp only:)+
qed

text \<open>\<open>month_from\<close> starts from the first day of month \<open>m\<close>.\<close>

lemma month_from_spec:
  assumes "month_from y m r = (m', d)" "1 \<le> m" "m \<le> 12" "0 \<le> r" "r < days_before_month y 13 - days_before_month y (nat m)"
  shows "m \<le> m' \<and> m' \<le> 12 \<and> 1 \<le> d \<and> d \<le> days_in_month y m' \<and>
    days_before_month y (nat m') + d - 1 = days_before_month y (nat m) + r"
  using assms
proof (induction y m r arbitrary: m' d rule: month_from.induct)
  case (1 y m r)
  show ?case
  proof (cases "12 \<le> m \<or> r < days_in_month y m")
    case True
    then have "m' = m" "d = r + 1"
      using "1.prems"(1) by (simp_all add: month_from.simps [of y m r])
    moreover have "r < days_in_month y m"
      using True "1.prems"(2-5) by (auto simp: numeral_eq_Suc)
    ultimately show ?thesis
      using "1.prems" by simp
  next
    case False
    then have step: "days_before_month y (nat (m + 1)) = days_before_month y (nat m) + days_in_month y m"
      using "1.prems"(2) days_before_month_rec [of m y] by simp
    have "month_from y (m + 1) (r - days_in_month y m) = (m', d)"
      using False "1.prems"(1) by (simp add: month_from.simps [of y m r])
    then show ?thesis
      using "1.IH" [OF False] False "1.prems"(2-5) step by auto
  qed
qed

lemma civil_spec:
  assumes "civil n = (y, m, d)"
  shows "valid_date y m d" "date_days y m d = n"
proof -
  let ?r = "n + epoch_days - days_before_year (year_of n - 1)"
  have y: "y = year_of n" and m: "month_from y 1 ?r = (m, d)"
    using assms by (auto simp: civil_def Let_def split: prod.splits)
  have "days_before_year y = days_before_year (y - 1) + days_before_month y 13"
    using days_before_year_step [of "y - 1"] by (simp add: year_length)
  then have "0 \<le> ?r" "?r < days_before_month y 13 - days_before_month y (nat 1)"
    using year_of_range [of n] by (simp_all add: y)
  then have "1 \<le> m \<and> m \<le> 12 \<and> 1 \<le> d \<and> d \<le> days_in_month y m \<and> days_before_month y (nat m) + d - 1 = ?r"
    using month_from_spec [OF m] by simp
  then show "valid_date y m d" "date_days y m d = n"
    by (simp_all add: valid_date_def date_days_def y)
qed

lemma days_before_month_mono: "m \<le> m' \<Longrightarrow> days_before_month y m \<le> days_before_month y m'"
proof (induction m' rule: dec_induct)
  case (step k)
  then show ?case
    using days_in_month_bounds(1) [of y "int k"] by (cases k) auto
qed simp

lemma days_before_year_mono: "a \<le> b \<Longrightarrow> days_before_year a \<le> days_before_year b"
proof (induction b rule: int_ge_induct)
  case (step b)
  then show ?case
    using days_before_year_step [of b] by (simp split: if_splits)
qed simp

text \<open>Dates are ordered as their day numbers.\<close>

lemma date_days_month: "1 \<le> m \<Longrightarrow> m \<le> m' \<Longrightarrow> date_days y m 1 \<le> date_days y m' 1"
  using days_before_month_mono [of "nat m" "nat m'" y] by (simp add: date_days_def)

lemma date_days_next_year: "date_days y 13 1 = date_days (y + 1) 1 1"
  using days_before_year_step [of "y - 1"] year_length [of y] by (simp add: date_days_def)

lemma date_days_upper: "valid_date y m d \<Longrightarrow> date_days y m d < date_days y (m + 1) 1"
  using days_before_month_rec [of m y] by (simp add: date_days_def valid_date_def)

lemma date_days_first: "valid_date y m d \<Longrightarrow> date_days y m 1 \<le> date_days y m d"
  by (simp add: date_days_def valid_date_def)

lemma date_days_less:
  assumes "valid_date y m d" "valid_date y' m' d'"
    and "y < y' \<or> y = y' \<and> (m < m' \<or> m = m' \<and> d < d')"
  shows "date_days y m d < date_days y' m' d'"
proof -
  have m: "1 \<le> m" "m \<le> 12" "1 \<le> m'"
    using assms(1,2) by (simp_all add: valid_date_def)
  consider (year) "y < y'" | (month) "y = y'" "m < m'" | (day) "y = y'" "m = m'" "d < d'"
    using assms(3) by blast
  then show ?thesis
  proof cases
    case year
    have "date_days y m d < date_days y 13 1"
      using date_days_upper [OF assms(1)] date_days_month [of "m + 1" 13 y] m by simp
    also have "\<dots> \<le> date_days y' 1 1"
      using days_before_year_mono [of y "y' - 1"] year by (simp add: date_days_next_year) (simp add: date_days_def)
    also have "\<dots> \<le> date_days y' m' d'"
      using date_days_month [of 1 m' y'] date_days_first [OF assms(2)] m by simp
    finally show ?thesis .
  next
    case month
    then show ?thesis
      using date_days_upper [OF assms(1)] date_days_month [of "m + 1" m' y] date_days_first [OF assms(2)] m by simp
  qed (simp add: date_days_def)
qed

lemma civil_date_days: "valid_date y m d \<Longrightarrow> civil (date_days y m d) = (y, m, d)"
proof -
  assume v: "valid_date y m d"
  obtain y' m' d' where c: "civil (date_days y m d) = (y', m', d')"
    by (cases "civil (date_days y m d)") auto
  note spec = civil_spec [OF c]
  have "\<not> (y < y' \<or> y = y' \<and> (m < m' \<or> m = m' \<and> d < d'))" "\<not> (y' < y \<or> y' = y \<and> (m' < m \<or> m' = m \<and> d' < d))"
    using date_days_less [OF v spec(1)] date_days_less [OF spec(1) v] spec(2) by auto
  then show ?thesis
    using c by (auto simp: not_less)
qed

section \<open>ISO text\<close>

definition pad_int :: "nat \<Rightarrow> int \<Rightarrow> string" where
  "pad_int width n = (let s = nat_str (nat n) in replicate (width - length s) (CHR ''0'') @ s)"

text \<open>\<open>datetime.isoformat()\<close> of a naive instant in microseconds.\<close>

definition isoformat :: "int \<Rightarrow> string" where
  "isoformat t =
     (let (y, m, d) = civil (t div (86400 * second)); r = t mod (86400 * second); us = r mod second
      in pad_int 4 y @ ''-'' @ pad_int 2 m @ ''-'' @ pad_int 2 d @ ''T'' @
         pad_int 2 (r div (3600 * second)) @ '':'' @ pad_int 2 (r div (60 * second) mod 60) @ '':'' @
         pad_int 2 (r div second mod 60) @ (if us = 0 then [] else ''.'' @ pad_int 6 us))"

lemma civil_example: "civil 20643 = (2026, 7, 9)"
  by code_simp

lemma isoformat_example: "isoformat (20643 * (86400 * second) + 3661 * second) = ''2026-07-09T01:01:01''"
  by code_simp

end
