(* ===== verification/Alert_Groups.thy ===== *)
theory Alert_Groups
  imports Civil_Dates Escalation Audit_Log
begin

text \<open>
  Alert groups, the incidents responders see, with their alerts, shelves and notification state:
  the queries and writes of \<open>modules/db/alerts_repo.py\<close> and \<open>modules/db/shelving_repo.py\<close>, the
  manual lifecycle of \<open>services/alerts/actions.py\<close>, \<open>shelving.py\<close> and \<open>assignment.py\<close>, and
  the scheduling of \<open>services/alerts/notification_queue.py\<close>.

  A group row extends the columns the escalation step works on. An operation runs at one instant.
  Foreign keys of these tables are not checked: every id written comes from a row that was read.
  What an operation does after its transaction to other tables (correlations, business services,
  stakeholders, delivered messages) is left out.
\<close>

section \<open>Rows\<close>

record alert_group_row = alert_group +
  ag_id :: int
  ag_team_id :: "int option"
  ag_route_id :: "int option"
  ag_service_id :: "int option"
  ag_source :: string
  ag_group_key :: string
  ag_group_key_hash :: string
  ag_title :: string
  ag_message :: "string option"
  ag_severity :: "string option"
  ag_common_labels :: pydict
  ag_label_values :: pydict
  ag_payload_summary :: pydict
  ag_previous_status :: "string option"
  ag_acknowledged_by :: "int option"
  ag_acknowledged_at :: "int option"
  ag_resolved_by :: "int option"
  ag_resolved_at :: "int option"
  ag_first_seen_at :: int
  ag_last_seen_at :: int
  ag_last_notification_at :: "int option"
  ag_alert_count :: int
  ag_firing_count :: int
  ag_acknowledged_count :: int
  ag_resolved_count :: int
  ag_silenced_count :: int
  ag_silenced :: bool
  ag_merged_into :: "int option"
  ag_merged_by :: "int option"
  ag_merged_at :: "int option"
  ag_merge_reason :: "string option"

record alert_row =
  ca_id :: int
  ca_group :: "int option"
  ca_route :: "int option"
  ca_source :: string
  ca_dedup_key :: string
  ca_external_id :: "string option"
  ca_group_key :: string
  ca_title :: string
  ca_message :: "string option"
  ca_severity :: "string option"
  ca_labels :: pydict
  ca_payload :: pydict
  ca_status :: string
  ca_previous_status :: "string option"
  ca_last_seen_at :: int
  ca_resolved_at :: "int option"

record shelve_row =
  sh_id :: int
  sh_group :: int
  sh_shelved_by :: "int option"
  sh_reason :: "string option"
  sh_source :: string
  sh_shelved_at :: int
  sh_ends_at :: "int option"
  sh_active :: bool
  sh_unshelved_at :: "int option"
  sh_unshelved_by :: "int option"
  sh_unshelve_reason :: "string option"

record merge_row =
  mg_source :: int
  mg_target :: int
  mg_by :: "int option"
  mg_reason :: "string option"

record event_row =
  er_alert :: "int option"
  er_group :: "int option"
  er_type :: string
  er_message :: string
  er_user :: "int option"

record delivery_row =
  dr_group :: int
  dr_user :: int
  dr_event_type :: string
  dr_status :: string
  dr_provider_status :: "string option"
  dr_last_error :: "string option"

record alert_db =
  core_db :: access_db
  ag_rows :: "alert_group_row list"
  ca_rows :: "alert_row list"
  sh_rows :: "shelve_row list"
  mg_rows :: "merge_row list"
  er_rows :: "event_row list"
  dr_rows :: "delivery_row list"

type_synonym 'a alm = "alert_db \<Rightarrow> 'a dbr \<times> alert_db"

text \<open>What an operation reads besides: the clock, SHA-256, settings, and the escalation and
  maintenance tables as the group of an id sees them.\<close>

record alert_env =
  al_env :: access_env
  al_now :: int
  al_sha256 :: "string \<Rightarrow> string"
  al_world :: "int \<Rightarrow> world"
  al_group_wait :: int
  al_group_interval :: int

definition in_core :: "'a dbm \<Rightarrow> 'a alm" where
  "in_core m db = (let (r, c) = m (core_db db) in (r, db\<lparr>core_db := c\<rparr>))"

section \<open>Repository\<close>

definition get_alert_group :: "alert_db \<Rightarrow> int \<Rightarrow> alert_group_row dbr" where
  "get_alert_group db group_id = the_row (find (\<lambda>g. ag_id g = group_id) (ag_rows db))"

text \<open>\<open>group.save()\<close> and \<open>alert.save()\<close>\<close>

definition save_group :: "alert_group_row \<Rightarrow> alert_db \<Rightarrow> alert_db" where
  "save_group g db = db\<lparr>ag_rows := update_row ag_id g (ag_rows db)\<rparr>"

definition save_alert :: "alert_row \<Rightarrow> alert_db \<Rightarrow> alert_db" where
  "save_alert a db = db\<lparr>ca_rows := update_row ca_id a (ca_rows db)\<rparr>"

definition create_alert_event_row :: "int option \<Rightarrow> string \<Rightarrow> string \<Rightarrow> int option \<Rightarrow> int option \<Rightarrow> alert_db \<Rightarrow> alert_db" where
  "create_alert_event_row alert event_type message by_user grp db =
     db\<lparr>er_rows := er_rows db @
          [\<lparr>er_alert = alert, er_group = grp, er_type = event_type, er_message = message, er_user = by_user\<rparr>]\<rparr>"

definition hash_group_key :: "alert_env \<Rightarrow> string \<Rightarrow> string" where
  "hash_group_key env group_key = al_sha256 env group_key"

definition find_open_alert_group ::
  "alert_env \<Rightarrow> alert_db \<Rightarrow> string \<Rightarrow> string \<Rightarrow> int option \<Rightarrow> int option \<Rightarrow> int option \<Rightarrow> alert_group_row option" where
  "find_open_alert_group env db source group_key team_id route_id service_id =
     (let matches = (\<lambda>ref col. case fk_truthy ref of None \<Rightarrow> True | Some i \<Rightarrow> col = Some i)
      in find (\<lambda>g. ag_source g = source \<and> ag_group_key_hash g = hash_group_key env group_key
                 \<and> g_status g \<notin> {''resolved'', ''merged''} \<and> ag_merged_into g = None
                 \<and> matches team_id (ag_team_id g) \<and> matches route_id (ag_route_id g)
                 \<and> matches service_id (ag_service_id g))
           (sort_key (\<lambda>g. - ag_id g) (ag_rows db)))"

definition find_existing_alert :: "alert_db \<Rightarrow> string \<Rightarrow> string \<Rightarrow> int option \<Rightarrow> alert_row option" where
  "find_existing_alert db source dedup_key route_id =
     find (\<lambda>a. ca_source a = source \<and> ca_dedup_key a = dedup_key \<and> ca_status a \<noteq> ''resolved''
             \<and> (route_id \<noteq> None \<longrightarrow> ca_route a = route_id))
       (sort_key (\<lambda>a. - ca_id a) (ca_rows db))"

definition list_alerts_for_group :: "alert_db \<Rightarrow> int \<Rightarrow> alert_row list" where
  "list_alerts_for_group db group_id = filter (\<lambda>a. ca_group a = Some group_id) (sort_key ca_id (ca_rows db))"

section \<open>Recalculation\<close>

text \<open>The values of a label over the alerts, without repetition and without \<open>None\<close>.\<close>

fun label_seen :: "string \<Rightarrow> alert_row list \<Rightarrow> py list \<Rightarrow> py list" where
  "label_seen key [] seen = seen"
| "label_seen key (a # alerts) seen =
     (let v = dget (ca_labels a) key
      in label_seen key alerts (if v = PNone \<or> py_in_list v seen then seen else seen @ [v]))"

definition all_label_keys :: "alert_row list \<Rightarrow> string list" where
  "all_label_keys alerts = sort (remdups (concat (map (map fst \<circ> ca_labels) alerts)))"

definition collect_group_labels :: "alert_row list \<Rightarrow> pydict \<times> pydict" where
  "collect_group_labels alerts =
     (let seen = map (\<lambda>key. (key, label_seen key alerts [])) (all_label_keys alerts)
      in (map (\<lambda>(key, vs). (key, hd vs)) (filter (\<lambda>(key, vs). length vs = 1) seen),
          map (\<lambda>(key, vs). (key, PList vs)) (filter (\<lambda>(key, vs). 1 < length vs) seen)))"

definition count_status :: "string \<Rightarrow> alert_row list \<Rightarrow> int" where
  "count_status s alerts = int (length (filter (\<lambda>a. ca_status a = s) alerts))"

text \<open>The status of a group with alerts, from their counts and its own status.\<close>

definition effective_status :: "string \<Rightarrow> alert_row list \<Rightarrow> string" where
  "effective_status status alerts =
     (if count_status ''resolved'' alerts = int (length alerts) then ''resolved''
      else if 0 < count_status ''firing'' alerts then (if status = ''acknowledged'' then ''acknowledged'' else ''firing'')
      else if 0 < count_status ''silenced'' alerts then ''silenced''
      else if 0 < count_status ''acknowledged'' alerts then ''acknowledged''
      else status)"

definition count_alerts :: "alert_row list \<Rightarrow> alert_group_row \<Rightarrow> alert_group_row" where
  "count_alerts alerts g =
     g\<lparr>ag_alert_count := int (length alerts), ag_firing_count := count_status ''firing'' alerts,
       ag_acknowledged_count := count_status ''acknowledged'' alerts,
       ag_resolved_count := count_status ''resolved'' alerts,
       ag_silenced_count := count_status ''silenced'' alerts,
       ag_silenced := alerts \<noteq> [] \<and> count_status ''silenced'' alerts = int (length alerts)\<rparr>"

text \<open>What the newest alert and the labels of all give the group.\<close>

definition describe_group :: "alert_row list \<Rightarrow> alert_group_row \<Rightarrow> alert_group_row" where
  "describe_group alerts g =
     (case alerts of
        [] \<Rightarrow> g
      | newest # _ \<Rightarrow>
          let (common, vals) = collect_group_labels alerts
          in g\<lparr>ag_title := ca_title newest, ag_message := ca_message newest, ag_severity := ca_severity newest,
               ag_last_seen_at := ca_last_seen_at newest, ag_common_labels := common, ag_label_values := vals,
               ag_payload_summary :=
                 [(''latest_alert_id'', PInt (ca_id newest)), (''latest_dedup_key'', PStr (ca_dedup_key newest)),
                  (''latest_external_id'', (case ca_external_id newest of None \<Rightarrow> PNone | Some s \<Rightarrow> PStr s)),
                  (''latest_payload'', PDict (ca_payload newest))]\<rparr>)"

definition settle_status :: "int \<Rightarrow> alert_row list \<Rightarrow> alert_group_row \<Rightarrow> alert_group_row" where
  "settle_status now alerts g =
     (if alerts = [] then g
      else let status = effective_status (g_status g) alerts;
               reopened = (count_status ''resolved'' alerts \<noteq> int (length alerts)
                 \<and> (if 0 < count_status ''firing'' alerts then g_status g \<noteq> ''acknowledged''
                    else 0 < count_status ''silenced'' alerts \<or> 0 < count_status ''acknowledged'' alerts))
           in if count_status ''resolved'' alerts = int (length alerts)
              then g\<lparr>g_status := status, ag_resolved_at := (case ag_resolved_at g of None \<Rightarrow> Some now | t \<Rightarrow> t)\<rparr>
              else if reopened then g\<lparr>g_status := status, ag_resolved_at := None, ag_resolved_by := None\<rparr>
              else g\<lparr>g_status := status\<rparr>)"

definition group_alerts :: "alert_db \<Rightarrow> int \<Rightarrow> alert_row list" where
  "group_alerts db group_id =
     filter (\<lambda>a. ca_group a = Some group_id) (sort_key (\<lambda>a. (- ca_last_seen_at a, - ca_id a)) (ca_rows db))"

definition recalculate_alert_group :: "int \<Rightarrow> alert_group_row \<Rightarrow> alert_db \<Rightarrow> alert_group_row \<times> alert_db" where
  "recalculate_alert_group now g db =
     (let alerts = group_alerts db (ag_id g);
          all_resolved = (alerts \<noteq> [] \<and> count_status ''resolved'' alerts = int (length alerts));
          g1 = settle_status now alerts (describe_group alerts (count_alerts alerts g));
          g2 = (if g_status g1 \<noteq> g_status g then g1\<lparr>ag_previous_status := Some (g_status g)\<rparr> else g1);
          g3 = g2\<lparr>g_updated_at := now\<rparr>;
          stamped = (if all_resolved
                     then db\<lparr>ca_rows := map (\<lambda>a. if ca_group a = Some (ag_id g) \<and> ca_resolved_at a = None
                                                then a\<lparr>ca_resolved_at := Some now\<rparr> else a) (ca_rows db)\<rparr>
                     else db)
      in (g3, save_group g3 stamped))"

section \<open>Notification state\<close>

definition schedule_alert_group_notification :: "int \<Rightarrow> int \<Rightarrow> string \<Rightarrow> alert_group_row \<Rightarrow> alert_group_row" where
  "schedule_alert_group_notification now due_at reason g =
     (if g_notification_pending g \<and> (case g_notification_due_at g of None \<Rightarrow> False | Some t \<Rightarrow> t \<le> due_at) then g
      else g\<lparr>g_notification_pending := True, g_notification_due_at := Some due_at,
             g_notification_reason := Some reason, g_updated_at := now\<rparr>)"

definition clear_alert_group_notification :: "int \<Rightarrow> alert_group_row \<Rightarrow> alert_group_row" where
  "clear_alert_group_notification now g =
     g\<lparr>g_notification_pending := False, g_notification_due_at := None, g_notification_reason := None,
       g_updated_at := now\<rparr>"

definition list_due_alert_group_notifications :: "alert_db \<Rightarrow> int \<Rightarrow> nat \<Rightarrow> alert_group_row list" where
  "list_due_alert_group_notifications db now limit =
     take limit (sort_key (\<lambda>g. (case g_notification_due_at g of None \<Rightarrow> 0 | Some t \<Rightarrow> t, ag_id g))
       (filter (\<lambda>g. g_notification_pending g \<and> (case g_notification_due_at g of None \<Rightarrow> False | Some t \<Rightarrow> t \<le> now)
                  \<and> ag_merged_into g = None \<and> g_status g \<noteq> ''merged'') (ag_rows db)))"

text \<open>Firing groups whose team, and its group, are live; a team without a group drops out of the join.\<close>

definition team_live :: "access_db \<Rightarrow> int option \<Rightarrow> bool" where
  "team_live db ref =
     (case ref of
        None \<Rightarrow> False
      | Some i \<Rightarrow> list_ex (\<lambda>t. t_id t = i \<and> t_active t \<and> \<not> t_deleted t
          \<and> (case t_group_id t of
               None \<Rightarrow> False
             | Some gid \<Rightarrow> list_ex (\<lambda>g. g_id g = gid \<and> group_live g) (db_groups db))) (db_teams db))"

definition list_firing_alert_groups :: "alert_db \<Rightarrow> alert_group_row list" where
  "list_firing_alert_groups db =
     filter (\<lambda>g. g_status g = ''firing'' \<and> ag_merged_into g = None \<and> team_live (core_db db) (ag_team_id g)) (ag_rows db)"

definition cancel_pending_group_deliveries :: "int \<Rightarrow> string set \<Rightarrow> string \<Rightarrow> alert_db \<Rightarrow> alert_db" where
  "cancel_pending_group_deliveries group_id event_types reason db =
     db\<lparr>dr_rows := map (\<lambda>d. if dr_group d = group_id \<and> dr_status d = ''pending'' \<and> dr_event_type d \<in> event_types
                           then d\<lparr>dr_status := ''skipped'', dr_provider_status := Some ''skipped'',
                                  dr_last_error := Some reason\<rparr> else d) (dr_rows db)\<rparr>"

section \<open>Shelves\<close>

definition active_shelves :: "alert_db \<Rightarrow> int \<Rightarrow> shelve_row list" where
  "active_shelves db group_id =
     sort_key (\<lambda>s. (- sh_shelved_at s, - sh_id s)) (filter (\<lambda>s. sh_group s = group_id \<and> sh_active s) (sh_rows db))"

definition get_current_shelve :: "alert_db \<Rightarrow> int \<Rightarrow> int \<Rightarrow> shelve_row option" where
  "get_current_shelve db now group_id =
     find (\<lambda>s. case sh_ends_at s of None \<Rightarrow> True | Some t \<Rightarrow> now < t) (active_shelves db group_id)"

definition get_active_record :: "alert_db \<Rightarrow> int \<Rightarrow> shelve_row option" where
  "get_active_record db group_id = (case active_shelves db group_id of [] \<Rightarrow> None | s # _ \<Rightarrow> Some s)"

definition list_due_shelves :: "alert_db \<Rightarrow> int \<Rightarrow> nat \<Rightarrow> shelve_row list" where
  "list_due_shelves db now limit =
     take (max 1 (if limit = 0 then 100 else limit))
       (sort_key (\<lambda>s. (case sh_ends_at s of None \<Rightarrow> 0 | Some t \<Rightarrow> t, sh_id s))
         (filter (\<lambda>s. sh_active s \<and> (case sh_ends_at s of None \<Rightarrow> False | Some t \<Rightarrow> t \<le> now)) (sh_rows db)))"

definition is_alert_group_shelved :: "alert_db \<Rightarrow> int \<Rightarrow> int \<Rightarrow> bool" where
  "is_alert_group_shelved db now group_id \<longleftrightarrow> group_id \<noteq> 0 \<and> get_current_shelve db now group_id \<noteq> None"

section \<open>Scheduling a notification\<close>

text \<open>A step of the maintenance lifecycle, which works on the columns the escalation step reads.\<close>

definition lift_lifecycle :: "(gstate \<Rightarrow> gstate \<times> bool) \<Rightarrow> alert_group_row \<Rightarrow> alert_db \<Rightarrow> alert_group_row \<times> alert_db" where
  "lift_lifecycle f g db =
     (let ((g0, evs), changed) = f (alert_group.truncate g, []); g' = alert_group.extend g0 (alert_group.more g)
      in (g', fold (\<lambda>(ty, msg). create_alert_event_row None ty msg None (Some (ag_id g))) evs (save_group g' db)))"

definition schedule_group_notification :: "alert_env \<Rightarrow> string \<Rightarrow> alert_group_row \<Rightarrow> alert_db \<Rightarrow> alert_group_row \<times> alert_db" where
  "schedule_group_notification env reason g db =
     (let now = al_now env; w = al_world env (ag_id g); saved = (\<lambda>g db. (g, save_group g db)) in
      if is_alert_group_shelved db now (ag_id g)
      then saved ((clear_alert_group_notification now g)\<lparr>g_next_escalation_at := None\<rparr>) db
      else if is_notification_lifecycle_suppressed w now (alert_group.truncate g)
      then lift_lifecycle (pause_notification_lifecycle now) g db
      else let (g, db) = lift_lifecycle (resume_notification_lifecycle w now) g db in
        if g_status g \<noteq> ''firing'' then saved (clear_alert_group_notification now g) db
        else let due_at = (case ag_last_notification_at g of
                             None \<Rightarrow> now + al_group_wait env * second
                           | Some t \<Rightarrow> max now (t + al_group_interval env * second))
             in saved (schedule_alert_group_notification now due_at reason g) db)"

section \<open>The manual lifecycle\<close>

text \<open>\<open>group.team.group_id if group.team_id and group.team else None\<close>\<close>

definition owner_group :: "access_db \<Rightarrow> int option \<Rightarrow> int option dbr" where
  "owner_group db ref = (case fk_truthy ref of None \<Rightarrow> Inr None | Some i \<Rightarrow> res_bind (team_of db i) (\<lambda>t. Inr (t_group_id t)))"

definition group_audit ::
  "alert_env \<Rightarrow> alert_group_row \<Rightarrow> string \<Rightarrow> int option \<Rightarrow> int option \<Rightarrow> pydict \<Rightarrow> unit alm" where
  "group_audit env g action by_user api_token data =
     in_core (db_bind (db_read (\<lambda>c. owner_group c (ag_team_id g))) (\<lambda>gid.
       db_bind (create_audit_log (al_env env) action (Some ''alert_group'') (Some (ag_id g)) gid (ag_team_id g)
                  by_user api_token None data) (\<lambda>_. db_return ())))"

definition audit_lifecycle_change ::
  "alert_env \<Rightarrow> alert_group_row \<Rightarrow> string \<Rightarrow> int option \<Rightarrow> string \<Rightarrow> int option \<Rightarrow> unit alm" where
  "audit_lifecycle_change env g action by_user source api_token =
     group_audit env g (''alert_group.'' @ action) by_user api_token
       (items (redact_secrets (al_env env) (PDict [(''source'', PStr source)])))"

definition acknowledge_alert_group :: "alert_env \<Rightarrow> int \<Rightarrow> int option \<Rightarrow> alert_group_row alm" where
  "acknowledge_alert_group env group_id by_user =
     db_bind (db_read (\<lambda>db. get_alert_group db group_id)) (\<lambda>g.
       let g = g\<lparr>ag_previous_status := Some (g_status g), g_status := ''acknowledged'',
                 ag_acknowledged_by := by_user, ag_acknowledged_at := Some (al_now env)\<rparr>
       in db_bind (db_write (save_group g)) (\<lambda>_. db_return g))"

definition resolve_alert_group :: "alert_env \<Rightarrow> int \<Rightarrow> int option \<Rightarrow> alert_group_row alm" where
  "resolve_alert_group env group_id by_user =
     db_bind (db_read (\<lambda>db. get_alert_group db group_id)) (\<lambda>g.
     db_bind (db_write (\<lambda>db. db\<lparr>ca_rows := map (\<lambda>a. if ca_group a = Some (ag_id g) \<and> ca_status a \<noteq> ''resolved''
         then a\<lparr>ca_status := ''resolved'', ca_resolved_at := Some (al_now env)\<rparr> else a) (ca_rows db)\<rparr>)) (\<lambda>_.
     db_bind (db_read (\<lambda>db. Inr (int (length (filter (\<lambda>a. ca_group a = Some (ag_id g)) (ca_rows db)))))) (\<lambda>n.
       let g = g\<lparr>ag_previous_status := Some (g_status g), g_status := ''resolved'', ag_resolved_by := by_user,
                 ag_resolved_at := Some (al_now env), ag_firing_count := 0, ag_acknowledged_count := 0,
                 ag_resolved_count := n, g_updated_at := al_now env\<rparr>
       in db_bind (db_write (save_group g)) (\<lambda>_. db_return g))))"

definition ACK_CANCELLED_DELIVERY_EVENT_TYPES :: "string set" where
  "ACK_CANCELLED_DELIVERY_EVENT_TYPES = {''notification'', ''reminder'', ''escalation''}"

definition cancel_acknowledged_notification_work :: "alert_env \<Rightarrow> alert_group_row \<Rightarrow> alert_group_row alm" where
  "cancel_acknowledged_notification_work env g =
     (let g' = (if g_notification_pending g then clear_alert_group_notification (al_now env) g else g) in
      db_bind (db_write (\<lambda>db. cancel_pending_group_deliveries (ag_id g) ACK_CANCELLED_DELIVERY_EVENT_TYPES
                 ''alert_acknowledged'' (if g_notification_pending g then save_group g' db else db))) (\<lambda>_. db_return g'))"

text \<open>The guard both actions share: nothing happens to a resolved, merged or merged-away group.\<close>

definition group_closed :: "alert_group_row \<Rightarrow> bool" where
  "group_closed g \<longleftrightarrow> g_status g \<in> {''resolved'', ''merged''} \<or> fk_truthy (ag_merged_into g) \<noteq> None"

definition acknowledge_alert ::
  "alert_env \<Rightarrow> int \<Rightarrow> int option \<Rightarrow> string \<Rightarrow> int option \<Rightarrow> alert_group_row alm" where
  "acknowledge_alert env group_id by_user source api_token =
     atomic (db_bind (db_read (\<lambda>db. get_alert_group db group_id)) (\<lambda>before.
       if g_status before = ''acknowledged'' then cancel_acknowledged_notification_work env before
       else if group_closed before then db_return before
       else db_bind (acknowledge_alert_group env group_id by_user) (\<lambda>g.
         db_bind (cancel_acknowledged_notification_work env g) (\<lambda>g.
         db_bind (db_write (create_alert_event_row None ''acknowledged'' ''Alert group acknowledged'' by_user (Some (ag_id g)))) (\<lambda>_.
         db_bind (audit_lifecycle_change env g ''ack'' by_user source api_token) (\<lambda>_. db_return g))))))"

subsection \<open>Shelving\<close>

definition DEFAULT_SHELVE_DURATION_SECONDS :: int where "DEFAULT_SHELVE_DURATION_SECONDS = 3600"
definition MIN_SHELVE_DURATION_SECONDS :: int where "MIN_SHELVE_DURATION_SECONDS = 60"
definition MAX_SHELVE_DURATION_SECONDS :: int where "MAX_SHELVE_DURATION_SECONDS = 7 * 24 * 60 * 60"
definition SHELVE_CANCELLED_DELIVERY_EVENT_TYPES :: "string set" where
  "SHELVE_CANCELLED_DELIVERY_EVENT_TYPES = {''notification'', ''update'', ''reminder'', ''escalation''}"

definition normalize_duration :: "int option \<Rightarrow> int dbr" where
  "normalize_duration duration =
     (case duration of
        None \<Rightarrow> Inr DEFAULT_SHELVE_DURATION_SECONDS
      | Some v \<Rightarrow>
          if v < MIN_SHELVE_DURATION_SECONDS
          then Inl (BadValue (''duration_seconds must be at least '' @ int_str MIN_SHELVE_DURATION_SECONDS))
          else if MAX_SHELVE_DURATION_SECONDS < v
          then Inl (BadValue (''duration_seconds must not exceed '' @ int_str MAX_SHELVE_DURATION_SECONDS))
          else Inr v)"

definition normalize_reason :: "string option \<Rightarrow> string option dbr" where
  "normalize_reason reason =
     (let v = strip (case reason of None \<Rightarrow> [] | Some s \<Rightarrow> s) in
      if v = [] then Inr None
      else if 1000 < length v then Inl (BadValue ''reason must not exceed 1000 characters'')
      else Inr (Some v))"

definition normalize_source :: "string \<Rightarrow> string" where
  "normalize_source source =
     (let v = take 64 (lower (strip (if source = [] then ''ui'' else source))) in if v = [] then ''ui'' else v)"

definition truthy_text :: "string option \<Rightarrow> bool" where
  "truthy_text v = (case v of None \<Rightarrow> False | Some s \<Rightarrow> s \<noteq> [])"

definition quiet_group :: "int \<Rightarrow> alert_group_row \<Rightarrow> alert_group_row" where
  "quiet_group now g =
     (let g1 = (if g_notification_pending g then clear_alert_group_notification now g else g);
          left = (g_notification_pending g1 \<or> g_notification_due_at g1 \<noteq> None \<or> truthy_text (g_notification_reason g1));
          g2 = (if left then g1\<lparr>g_notification_pending := False, g_notification_due_at := None, g_notification_reason := None\<rparr> else g1)
      in if g_next_escalation_at g1 \<noteq> None \<or> left then g2\<lparr>g_next_escalation_at := None, g_updated_at := now\<rparr> else g2)"

definition cancel_shelved_notification_work :: "alert_env \<Rightarrow> alert_group_row \<Rightarrow> alert_db \<Rightarrow> alert_group_row \<times> alert_db" where
  "cancel_shelved_notification_work env g db =
     (let g' = quiet_group (al_now env) g
      in (g', save_group g' (cancel_pending_group_deliveries (ag_id g) SHELVE_CANCELLED_DELIVERY_EVENT_TYPES
                ''alert_group_shelved'' db)))"

definition restart_after_unshelve :: "alert_env \<Rightarrow> alert_group_row \<Rightarrow> alert_db \<Rightarrow> alert_group_row \<times> alert_db" where
  "restart_after_unshelve env g db =
     (if g_status g \<noteq> ''firing'' \<or> fk_truthy (ag_merged_into g) \<noteq> None then (g, db)
      else let now = al_now env;
               next_at = (if g_policy g \<noteq> None \<and> g_rule g \<noteq> None
                             \<and> \<not> is_escalation_lifecycle_paused (al_world env (ag_id g)) now
                                   (alert_group.truncate (g\<lparr>g_reminder_count := 0\<rparr>))
                          then get_next_escalation_at (g_rule g) now else None);
               g = g\<lparr>g_reminder_count := 0, g_next_escalation_at := next_at, g_updated_at := now\<rparr>
           in schedule_group_notification env ''shelve_ended'' g (save_group g db))"

definition close_shelf :: "alert_env \<Rightarrow> int option \<Rightarrow> string \<Rightarrow> shelve_row \<Rightarrow> shelve_row" where
  "close_shelf env by_user reason s =
     s\<lparr>sh_active := False, sh_unshelved_at := Some (al_now env), sh_unshelved_by := by_user,
       sh_unshelve_reason := Some reason\<rparr>"

definition shelve_alert_group ::
  "alert_env \<Rightarrow> int \<Rightarrow> int option \<Rightarrow> int option \<Rightarrow> string option \<Rightarrow> string \<Rightarrow> int option
   \<Rightarrow> (alert_group_row \<times> shelve_row) alm" where
  "shelve_alert_group env group_id by_user duration_opt reason source api_token =
     db_bind (db_read (\<lambda>_. normalize_duration duration_opt)) (\<lambda>duration.
     db_bind (db_read (\<lambda>_. normalize_reason reason)) (\<lambda>reason.
       let source = normalize_source source; now = al_now env; ends_at = now + duration * second in
       atomic (db_bind (db_read (\<lambda>db. get_alert_group db group_id)) (\<lambda>g.
         if g_status g = ''resolved'' \<or> fk_truthy (ag_merged_into g) \<noteq> None
         then db_raise (BadValue ''only open, non-merged alert groups can be shelved'')
         else
           db_bind (db_read (\<lambda>db. Inr (get_active_record db (ag_id g)))) (\<lambda>previous.
           db_bind (db_write (\<lambda>db. db\<lparr>sh_rows :=
             (case previous of
                None \<Rightarrow> sh_rows db
              | Some p \<Rightarrow> map (\<lambda>s. if sh_id s = sh_id p \<and> sh_active s then close_shelf env by_user ''replaced'' s else s) (sh_rows db))\<rparr>)) (\<lambda>_.
           db_bind (db_read (\<lambda>db. Inr \<lparr>sh_id = env_new_id (al_env env) (map sh_id (sh_rows db)), sh_group = ag_id g,
             sh_shelved_by = by_user, sh_reason = reason, sh_source = source, sh_shelved_at = now,
             sh_ends_at = Some ends_at, sh_active = True, sh_unshelved_at = None, sh_unshelved_by = None,
             sh_unshelve_reason = None\<rparr>)) (\<lambda>shelf.
           db_bind (db_write (\<lambda>db. db\<lparr>sh_rows := sh_rows db @ [shelf]\<rparr>)) (\<lambda>_.
           db_bind (\<lambda>db. let (g, db) = cancel_shelved_notification_work env g db in (Inr g, db)) (\<lambda>g.
           db_bind (db_write (create_alert_event_row None ''alert_group_shelved''
             (''Alert group shelved until '' @ isoformat ends_at @ (case reason of None \<Rightarrow> [] | Some r \<Rightarrow> '': '' @ r))
             by_user (Some (ag_id g)))) (\<lambda>_.
           db_bind (group_audit env g ''alert_group.shelve'' by_user api_token (items (redact_secrets (al_env env) (PDict
             [(''source'', PStr source), (''duration_seconds'', PInt duration), (''until'', PStr (isoformat ends_at)),
              (''reason'', (case reason of None \<Rightarrow> PNone | Some r \<Rightarrow> PStr r))])))) (\<lambda>_.
           db_return (g, shelf))))))))))))"

definition unshelve_alert_group ::
  "alert_env \<Rightarrow> int \<Rightarrow> int option \<Rightarrow> string \<Rightarrow> string option \<Rightarrow> int option \<Rightarrow> bool \<Rightarrow> bool \<Rightarrow> int option
   \<Rightarrow> (alert_group_row \<times> shelve_row option) alm" where
  "unshelve_alert_group env group_id by_user source reason api_token expired resume expected_shelf_id =
     (let source = normalize_source source in
      db_bind (db_read (\<lambda>_. normalize_reason reason)) (\<lambda>reason.
      atomic (db_bind (db_read (\<lambda>db. get_alert_group db group_id)) (\<lambda>g.
        db_bind (db_read (\<lambda>db. Inr (get_active_record db (ag_id g)))) (\<lambda>record.
        case record of
          None \<Rightarrow> db_return (g, None)
        | Some shelf \<Rightarrow>
            if (case expected_shelf_id of None \<Rightarrow> False | Some i \<Rightarrow> sh_id shelf \<noteq> i) then db_return (g, None)
            else
              db_bind (db_write (\<lambda>db. db\<lparr>sh_rows := map (\<lambda>s. if sh_id s = sh_id shelf \<and> sh_active s
                then close_shelf env by_user (case reason of None \<Rightarrow> if expired then ''expired'' else ''manual'' | Some r \<Rightarrow> r) s
                else s) (sh_rows db)\<rparr>)) (\<lambda>_.
              db_bind (db_write (create_alert_event_row None
                (if expired then ''alert_group_shelve_expired'' else ''alert_group_unshelved'')
                (if expired then ''Alert group shelf expired'' else ''Alert group unshelved'') by_user (Some (ag_id g)))) (\<lambda>_.
              db_bind (group_audit env g (if expired then ''alert_group.shelve_expired'' else ''alert_group.unshelve'')
                by_user api_token (items (redact_secrets (al_env env) (PDict
                  [(''source'', PStr source), (''reason'', (case reason of None \<Rightarrow> PNone | Some r \<Rightarrow> PStr r))])))) (\<lambda>_.
              if resume
              then (\<lambda>db. let (g, db) = restart_after_unshelve env g db in (Inr (g, Some shelf), db))
              else db_return (g, Some shelf)))))))))"

definition clear_shelve_on_resolve ::
  "alert_env \<Rightarrow> int \<Rightarrow> int option \<Rightarrow> int option \<Rightarrow> (alert_group_row \<times> shelve_row option) alm" where
  "clear_shelve_on_resolve env group_id by_user api_token =
     unshelve_alert_group env group_id by_user ''resolve'' (Some ''alert_resolved'') api_token False False None"

fun expire_shelves :: "alert_env \<Rightarrow> shelve_row list \<Rightarrow> int \<Rightarrow> int alm" where
  "expire_shelves env [] expired_count = db_return expired_count"
| "expire_shelves env (shelf # rest) expired_count =
     db_bind (unshelve_alert_group env (sh_group shelf) None ''scheduler'' None None True True (Some (sh_id shelf)))
       (\<lambda>(g, ended). expire_shelves env rest (if ended = None then expired_count else expired_count + 1))"

definition process_due_shelves :: "alert_env \<Rightarrow> nat \<Rightarrow> (int \<times> int) alm" where
  "process_due_shelves env limit =
     db_bind (db_read (\<lambda>db. Inr (list_due_shelves db (al_now env) limit))) (\<lambda>due.
     db_bind (expire_shelves env due 0) (\<lambda>expired_count. db_return (int (length due), expired_count)))"

subsection \<open>Resolving, merging, assigning\<close>

definition resolve_alert ::
  "alert_env \<Rightarrow> int \<Rightarrow> int option \<Rightarrow> string \<Rightarrow> int option \<Rightarrow> alert_group_row alm" where
  "resolve_alert env group_id by_user source api_token =
     atomic (db_bind (db_read (\<lambda>db. get_alert_group db group_id)) (\<lambda>before.
       if group_closed before then db_return before
       else db_bind (resolve_alert_group env group_id by_user) (\<lambda>g.
         let g = clear_alert_group_notification (al_now env) g in
         db_bind (db_write (save_group g)) (\<lambda>_.
         db_bind (clear_shelve_on_resolve env (ag_id g) by_user api_token) (\<lambda>_.
         db_bind (db_write (create_alert_event_row None ''resolved'' ''Alert group resolved'' by_user (Some (ag_id g)))) (\<lambda>_.
         db_bind (audit_lifecycle_change env g ''resolve'' by_user source api_token) (\<lambda>_. db_return g)))))))"

definition merge_source :: "alert_env \<Rightarrow> alert_group_row \<Rightarrow> int option \<Rightarrow> string option \<Rightarrow> int \<Rightarrow> unit alm" where
  "merge_source env tgt by_user reason source_id =
     (if source_id = ag_id tgt then db_return ()
      else db_bind (db_read (\<lambda>db. get_alert_group db source_id)) (\<lambda>src.
        db_write (\<lambda>db.
          let src' = src\<lparr>ag_previous_status := Some (g_status src), g_status := ''merged'', ag_merged_into := Some (ag_id tgt),
                         ag_merged_by := by_user, ag_merged_at := Some (al_now env), ag_merge_reason := reason,
                         g_updated_at := al_now env\<rparr>;
              db1 = save_group src' (db\<lparr>ca_rows := map (\<lambda>a. if ca_group a = Some (ag_id src)
                then a\<lparr>ca_group := Some (ag_id tgt), ca_group_key := ag_group_key tgt\<rparr> else a) (ca_rows db)\<rparr>);
              db2 = db1\<lparr>sh_rows := map (\<lambda>s. if sh_group s = ag_id src \<and> sh_active s
                then close_shelf env by_user ''alert_group_merged'' s else s) (sh_rows db1),
                mg_rows := mg_rows db1 @ [\<lparr>mg_source = ag_id src, mg_target = ag_id tgt, mg_by = by_user, mg_reason = reason\<rparr>]\<rparr>
          in create_alert_event_row None ''merged'' (''Merged into group #'' @ int_str (ag_id tgt)) by_user (Some (ag_id src)) db2)))"

fun merge_sources :: "alert_env \<Rightarrow> alert_group_row \<Rightarrow> int option \<Rightarrow> string option \<Rightarrow> int list \<Rightarrow> unit alm" where
  "merge_sources env tgt by_user reason [] = db_return ()"
| "merge_sources env tgt by_user reason (i # ids) =
     db_bind (merge_source env tgt by_user reason i) (\<lambda>_. merge_sources env tgt by_user reason ids)"

definition merge_alert_groups ::
  "alert_env \<Rightarrow> int \<Rightarrow> int list \<Rightarrow> int option \<Rightarrow> string option \<Rightarrow> alert_group_row alm" where
  "merge_alert_groups env target_group_id source_group_ids by_user reason =
     atomic (db_bind (db_read (\<lambda>db. get_alert_group db target_group_id)) (\<lambda>tgt.
       db_bind (merge_sources env tgt by_user reason source_group_ids) (\<lambda>_.
       db_bind (\<lambda>db. let (g, db) = recalculate_alert_group (al_now env) tgt db in (Inr g, db)) (\<lambda>g.
       db_bind (db_write (create_alert_event_row None ''merge_target_updated'' ''Alert groups merged into this group''
                  by_user (Some (ag_id g)))) (\<lambda>_. db_return g)))))"

text \<open>The account as the on-call model holds it: the type of the group's foreign key \<open>assignee\<close>.\<close>

definition account :: "user_row \<Rightarrow> user" where
  "account u = \<lparr>user_id = u_id u, username = u_username u, user_active = u_active u, user_deleted = u_deleted u\<rparr>"

abbreviation assignee_id :: "user option \<Rightarrow> int option" where
  "assignee_id \<equiv> map_option user_id"

definition resolve_assignee :: "alert_db \<Rightarrow> int option \<Rightarrow> int option \<Rightarrow> user option dbr" where
  "resolve_assignee db requested team_id =
     (case requested of
        None \<Rightarrow> Inr None
      | Some uid \<Rightarrow>
          (case fk_truthy team_id of
             None \<Rightarrow> Inl (BadValue ''cannot assign a user to an AlertGroup without a team'')
           | Some tid \<Rightarrow>
               (case find (\<lambda>u. u_id u = uid \<and> u_active u \<and> \<not> u_deleted u) (db_users (core_db db)) of
                  None \<Rightarrow> Inl (BadValue ''assignee_id points to a missing or inactive user'')
                | Some u \<Rightarrow>
                    if list_ex (\<lambda>m. tu_team m = tid \<and> tu_user m = u_id u \<and> tu_active m) (db_team_users (core_db db))
                    then Inr (Some (account u))
                    else Inl (BadValue ''assignee must be an active member of the AlertGroup team''))))"

definition show_id :: "int option \<Rightarrow> string" where
  "show_id i = (case fk_truthy i of None \<Rightarrow> ''-'' | Some n \<Rightarrow> int_str n)"

definition set_alert_group_assignee ::
  "alert_env \<Rightarrow> int \<Rightarrow> int option \<Rightarrow> int option \<Rightarrow> string \<Rightarrow> int option \<Rightarrow> alert_group_row alm" where
  "set_alert_group_assignee env group_id new_assignee actor source api_token =
     db_bind (db_read (\<lambda>db. case get_alert_group db group_id of Inl e \<Rightarrow> Inl (BadValue ''alert group not found'') | Inr g \<Rightarrow> Inr g)) (\<lambda>g.
     db_bind (db_read (\<lambda>db. resolve_assignee db new_assignee (ag_team_id g))) (\<lambda>assignee.
       if assignee_id (g_assignee g) = assignee_id assignee then db_return g
       else
         db_bind (db_read (\<lambda>db. Inr (case fk_truthy (ag_team_id g) of None \<Rightarrow> None
             | Some i \<Rightarrow> find (\<lambda>t. t_id t = i) (db_teams (core_db db))))) (\<lambda>team.
         db_bind (atomic
           (db_bind (db_write (save_group (g\<lparr>g_assignee := assignee, g_updated_at := al_now env\<rparr>))) (\<lambda>_.
            db_bind (db_write (create_alert_event_row None ''assignee_changed''
              (''Technical assignee changed from '' @ show_id (assignee_id (g_assignee g)) @ '' to '' @ show_id (assignee_id assignee))
              actor (Some (ag_id g)))) (\<lambda>_.
            in_core (create_audit_log (al_env env) ''alert_group.assignee_change'' (Some ''alert_group'') (Some (ag_id g))
              (case team of None \<Rightarrow> None | Some t \<Rightarrow> t_group_id t) (ag_team_id g) actor api_token None
              [(''source'', PStr source),
               (''from_user_id'', (case assignee_id (g_assignee g) of None \<Rightarrow> PNone | Some i \<Rightarrow> PInt i)),
               (''to_user_id'', (case assignee_id assignee of None \<Rightarrow> PNone | Some i \<Rightarrow> PInt i))]))))) (\<lambda>_.
         db_read (\<lambda>db. get_alert_group db (ag_id g))))))"

end
