(* ===== verification/Heartbeat_Schedule.thy ===== *)
theory Heartbeat_Schedule
  imports Civil_Dates Alert_Groups
begin

text \<open>
  When a heartbeat ping is expected: the rows of \<open>Heartbeat\<close> and \<open>HeartbeatInstance\<close> and the
  due-date functions of \<open>services/heartbeats/service.py\<close>. Instants are naive UTC or wall-clock
  microseconds; two local datetimes of one zone are compared by their wall clock, as Python does.
\<close>

section \<open>Rows\<close>

record heartbeat_row =
  hb_id :: int
  hb_uid :: string
  hb_group :: "int option"
  hb_team :: int
  hb_service :: "int option"
  hb_route :: int
  hb_name :: string
  hb_slug :: string
  hb_mode :: string
  hb_interval :: "int option"
  hb_grace :: int
  hb_kind :: "string option"
  hb_time :: "string option"
  hb_weekday :: "int option"
  hb_monthday :: "int option"
  hb_timezone :: string
  hb_status :: string
  hb_enabled :: bool
  hb_deleted :: bool
  hb_auto_resolve :: bool
  hb_tracking :: bool
  hb_instance_key :: string
  hb_expected_mode :: string
  hb_ttl_days :: "int option"
  hb_severity :: string
  hb_priority_slug :: string
  hb_token_hash :: string
  hb_last_seen :: "int option"
  hb_last_payload :: pydict
  hb_next_expected :: "int option"
  hb_overdue_since :: "int option"
  hb_last_overdue_at :: "int option"
  hb_last_recovered_at :: "int option"
  hb_alert_group :: "int option"
  hb_labels :: pydict
  hb_metadata :: pydict
  hb_created_at :: int
  hb_updated_at :: int

record instance_row =
  hi_id :: int
  hi_heartbeat :: int
  hi_key :: string
  hi_status :: string
  hi_enabled :: bool
  hi_auto :: bool
  hi_first_seen :: "int option"
  hi_last_seen :: "int option"
  hi_last_payload :: pydict
  hi_next_expected :: "int option"
  hi_overdue_since :: "int option"
  hi_last_overdue_at :: "int option"
  hi_last_recovered_at :: "int option"
  hi_alert_group :: "int option"
  hi_created_at :: int
  hi_updated_at :: int

section \<open>Due dates\<close>

text \<open>\<open>as_utc_naive_seconds\<close> of a naive instant\<close>

definition whole_seconds :: "int \<Rightarrow> int" where
  "whole_seconds t = t - t mod second"

abbreviation day_us :: int where "day_us \<equiv> 86400000000"

definition int_value :: "string \<Rightarrow> int dbr" where
  "int_value s = (case parse_int s of None \<Rightarrow> Inl (BadValue ''invalid literal for int()'') | Some n \<Rightarrow> Inr n)"

text \<open>The time of day as microseconds.\<close>

definition parse_schedule_time :: "string \<Rightarrow> int dbr" where
  "parse_schedule_time value =
     (let parts = take 2 (split_str '':'' (Some 1) (strip value) @ [''0'']) in
      res_bind (int_value (parts ! 0)) (\<lambda>h.
      res_bind (int_value (parts ! 1)) (\<lambda>mi.
        Inr ((max 0 (min 23 h) * 3600 + max 0 (min 59 mi) * 60) * second))))"

definition monthly_date :: "int \<Rightarrow> int \<Rightarrow> int \<Rightarrow> int" where
  "monthly_date y m d = min (max 1 (if d = 0 then 1 else d)) (days_in_month y m)"

definition previous_month :: "int \<Rightarrow> int \<Rightarrow> int \<times> int" where
  "previous_month y m = (if m = 1 then (y - 1, 12) else (y, m - 1))"

definition next_month :: "int \<Rightarrow> int \<Rightarrow> int \<times> int" where
  "next_month y m = (if m = 12 then (y + 1, 1) else (y, m + 1))"

text \<open>\<open>datetime.weekday()\<close> of a day number: Monday is 0, and 1 January 1970 was a Thursday.\<close>

definition weekday_of :: "int \<Rightarrow> int" where
  "weekday_of n = (n + 3) mod 7"

definition kind_of :: "heartbeat_row \<Rightarrow> string" where
  "kind_of hb = (case hb_kind hb of None \<Rightarrow> ''daily'' | Some k \<Rightarrow> if k = [] then ''daily'' else k)"

definition month_day :: "heartbeat_row \<Rightarrow> int" where
  "month_day hb = (case hb_monthday hb of None \<Rightarrow> 1 | Some d \<Rightarrow> if d = 0 then 1 else d)"

definition week_day :: "heartbeat_row \<Rightarrow> int" where
  "week_day hb = max 0 (min 6 (case hb_weekday hb of None \<Rightarrow> 0 | Some d \<Rightarrow> d))"

definition schedule_time :: "heartbeat_row \<Rightarrow> int dbr" where
  "schedule_time hb = parse_schedule_time (case hb_time hb of None \<Rightarrow> ''00:00'' | Some s \<Rightarrow> if s = [] then ''00:00'' else s)"

definition scheduled_due_local :: "heartbeat_row \<Rightarrow> int \<Rightarrow> int dbr" where
  "scheduled_due_local hb now_local =
     res_bind (schedule_time hb) (\<lambda>tm.
       let today = now_local div day_us in
       Inr (if kind_of hb = ''weekly'' then
              let days_since = (weekday_of today - week_day hb) mod 7;
                  due = (today - days_since) * day_us + tm
              in if now_local < due then due - 7 * day_us else due
            else if kind_of hb = ''monthly'' then
              let (y, m, _) = civil today;
                  due = date_days y m (monthly_date y m (month_day hb)) * day_us + tm
              in if now_local < due
                 then let (y', m') = previous_month y m
                      in date_days y' m' (monthly_date y' m' (month_day hb)) * day_us + tm
                 else due
            else
              let due = today * day_us + tm in if now_local < due then due - day_us else due))"

text \<open>The loops of the next due date.\<close>

function step_days :: "int \<Rightarrow> int \<Rightarrow> int \<Rightarrow> int" where
  "step_days step now_local candidate =
     (if candidate \<le> now_local \<and> 0 < step then step_days step now_local (candidate + step) else candidate)"
  by auto
termination by (relation "measure (\<lambda>(step, now_local, candidate). nat (now_local + 1 - candidate))") auto

declare step_days.simps [simp del]

text \<open>\<open>candidate.replace(year=..., month=..., day=...)\<close>\<close>

definition month_after :: "int \<Rightarrow> int \<Rightarrow> int" where
  "month_after md candidate =
     (let (y, m, _) = civil (candidate div day_us); (y', m') = next_month y m
      in date_days y' m' (monthly_date y' m' md) * day_us + candidate mod day_us)"

lemma monthly_date_valid: "1 \<le> m \<Longrightarrow> m \<le> 12 \<Longrightarrow> valid_date y m (monthly_date y m d)"
  using days_in_month_bounds [of y m] by (auto simp: valid_date_def monthly_date_def)

lemma next_month_range: "1 \<le> m \<Longrightarrow> m \<le> 12 \<Longrightarrow> 1 \<le> snd (next_month y m) \<and> snd (next_month y m) \<le> 12"
  by (simp add: next_month_def)

lemma month_after_day:
  assumes "civil (candidate div day_us) = (y, m, d)" "next_month y m = (y', m')"
  shows "month_after md candidate div day_us = date_days y' m' (monthly_date y' m' md)"
    "candidate div day_us < month_after md candidate div day_us" "month_after md candidate mod day_us = candidate mod day_us"
proof -
  note c = civil_spec [OF assms(1)]
  have m: "1 \<le> m" "m \<le> 12"
    using c(1) by (simp_all add: valid_date_def)
  have v: "valid_date y' m' (monthly_date y' m' md)"
    using next_month_range [OF m, of y] assms(2) by (intro monthly_date_valid) simp_all
  have "y < y' \<or> y = y' \<and> (m < m' \<or> m = m' \<and> d < monthly_date y' m' md)"
    using assms(2) by (auto simp: next_month_def split: if_splits)
  from date_days_less [OF c(1) v this] show "candidate div day_us < month_after md candidate div day_us"
    by (simp add: month_after_def assms c(2))
  show "month_after md candidate div day_us = date_days y' m' (monthly_date y' m' md)"
    "month_after md candidate mod day_us = candidate mod day_us"
    by (simp_all add: month_after_def assms)
qed

lemma month_after_later: "candidate < month_after md candidate"
proof -
  obtain y m d where c: "civil (candidate div day_us) = (y, m, d)"
    by (cases "civil (candidate div day_us)") auto
  obtain y' m' where n: "next_month y m = (y', m')"
    by fastforce
  note a = month_after_day [OF c n, of md]
  have "candidate = candidate div day_us * day_us + candidate mod day_us"
    "month_after md candidate = month_after md candidate div day_us * day_us + candidate mod day_us"
    using a(3) by (metis div_mult_mod_eq)+
  moreover have "(candidate div day_us + 1) * day_us \<le> month_after md candidate div day_us * day_us"
    using a(2) by (intro mult_right_mono) simp_all
  ultimately show ?thesis
    by (simp add: algebra_simps)
qed

function step_months :: "int \<Rightarrow> int \<Rightarrow> int \<Rightarrow> int" where
  "step_months md now_local candidate =
     (if candidate \<le> now_local then step_months md now_local (month_after md candidate) else candidate)"
  by auto
termination
  by (relation "measure (\<lambda>(md, now_local, candidate). nat (now_local + 1 - candidate))")
    (use month_after_later in \<open>force simp: nat_less_eq_zless\<close>)+

declare step_months.simps [simp del]

definition scheduled_next_due_local :: "heartbeat_row \<Rightarrow> int \<Rightarrow> int \<Rightarrow> int" where
  "scheduled_next_due_local hb latest_due_local now_local =
     (if kind_of hb = ''weekly'' then step_days (7 * day_us) now_local (latest_due_local + 7 * day_us)
      else if kind_of hb = ''monthly'' then step_months (month_day hb) now_local latest_due_local
      else step_days day_us now_local (latest_due_local + day_us))"

section \<open>Deadlines\<close>

definition hb_zone :: "tzdb \<Rightarrow> heartbeat_row \<Rightarrow> zone" where
  "hb_zone tz hb = timezone_or_utc tz (hb_timezone hb)"

definition interval_seconds :: "heartbeat_row \<Rightarrow> int" where
  "interval_seconds hb = (case hb_interval hb of None \<Rightarrow> 300 | Some n \<Rightarrow> if n = 0 then 300 else n)"

definition compute_next_expected_at :: "tzdb \<Rightarrow> int \<Rightarrow> heartbeat_row \<Rightarrow> int dbr" where
  "compute_next_expected_at tz now hb =
     (let now = whole_seconds now in
      if hb_mode hb = ''scheduled'' then
        let zone = hb_zone tz hb; now_local = to_wall zone now in
        res_bind (scheduled_due_local hb now_local) (\<lambda>latest_due.
          Inr (whole_seconds (from_wall zone (scheduled_next_due_local hb latest_due now_local))))
      else
        let anchor = (case hb_last_seen hb of Some t \<Rightarrow> t | None \<Rightarrow> hb_created_at hb) in
        Inr (whole_seconds anchor + interval_seconds hb * second))"

text \<open>\<open>heartbeat.next_expected_at or compute_next_expected_at(heartbeat, now=now)\<close>\<close>

definition expected_or_next :: "tzdb \<Rightarrow> int \<Rightarrow> heartbeat_row \<Rightarrow> int dbr" where
  "expected_or_next tz now hb = (case hb_next_expected hb of Some t \<Rightarrow> Inr t | None \<Rightarrow> compute_next_expected_at tz now hb)"

definition heartbeat_is_overdue :: "tzdb \<Rightarrow> int \<Rightarrow> heartbeat_row \<Rightarrow> bool dbr" where
  "heartbeat_is_overdue tz now hb =
     (let now = whole_seconds now in
      if hb_tracking hb \<or> hb_status hb = ''paused'' \<or> \<not> hb_enabled hb \<or> hb_deleted hb then Inr False
      else if hb_mode hb = ''scheduled'' then
        let zone = hb_zone tz hb in
        res_bind (scheduled_due_local hb (to_wall zone now)) (\<lambda>due_local.
          let due_at = whole_seconds (from_wall zone due_local) in
          Inr (due_at + hb_grace hb * second \<le> now
             \<and> (case hb_last_seen hb of None \<Rightarrow> True | Some t \<Rightarrow> whole_seconds t < due_at)))
      else res_bind (expected_or_next tz now hb) (\<lambda>expected_at. Inr (expected_at + hb_grace hb * second \<le> now)))"

definition compute_instance_next_expected_at :: "tzdb \<Rightarrow> int \<Rightarrow> heartbeat_row \<Rightarrow> instance_row \<Rightarrow> int dbr" where
  "compute_instance_next_expected_at tz now hb inst =
     (let now = whole_seconds now in
      if hb_mode hb = ''scheduled'' then compute_next_expected_at tz now hb
      else let anchor = (case hi_last_seen inst of Some t \<Rightarrow> t | None \<Rightarrow> hi_created_at inst) in
           Inr (whole_seconds anchor + interval_seconds hb * second))"

definition heartbeat_instance_is_overdue :: "tzdb \<Rightarrow> int \<Rightarrow> heartbeat_row \<Rightarrow> instance_row \<Rightarrow> bool dbr" where
  "heartbeat_instance_is_overdue tz now hb inst =
     (let now = whole_seconds now in
      if hb_status hb = ''paused'' \<or> \<not> hb_enabled hb \<or> hb_deleted hb \<or> hi_status inst = ''paused'' \<or> \<not> hi_enabled inst
      then Inr False
      else if hb_mode hb = ''scheduled'' then
        let zone = hb_zone tz hb in
        res_bind (scheduled_due_local hb (to_wall zone now)) (\<lambda>due_local.
          let due_at = whole_seconds (from_wall zone due_local) in
          Inr (due_at + hb_grace hb * second \<le> now
             \<and> (case hi_last_seen inst of None \<Rightarrow> True | Some t \<Rightarrow> whole_seconds t < due_at)))
      else res_bind (case hi_next_expected inst of Some t \<Rightarrow> Inr t | None \<Rightarrow> compute_instance_next_expected_at tz now hb inst)
             (\<lambda>expected_at. Inr (expected_at + hb_grace hb * second \<le> now)))"

section \<open>The due dates of a schedule\<close>

text \<open>
  The days a schedule names, and its due instants on the wall clock: a day of the month that the month
  does not have is its last day.
\<close>

definition month_names :: "int \<Rightarrow> int \<Rightarrow> int \<Rightarrow> int \<Rightarrow> bool" where
  "month_names md y m d \<longleftrightarrow> valid_date y m d \<and> (if md \<le> 0 then d = 1 else d = md \<or> d < md \<and> \<not> valid_date y m (d + 1))"

definition schedule_day :: "heartbeat_row \<Rightarrow> int \<Rightarrow> bool" where
  "schedule_day hb n \<longleftrightarrow>
     (if hb_kind hb = Some ''weekly''
      then weekday_of n = (case hb_weekday hb of None \<Rightarrow> 0 | Some w \<Rightarrow> if w < 0 then 0 else if 6 < w then 6 else w)
      else if hb_kind hb = Some ''monthly''
      then (case civil n of (y, m, d) \<Rightarrow> month_names (case hb_monthday hb of None \<Rightarrow> 1 | Some md \<Rightarrow> md) y m d)
      else True)"

lemma month_names_iff: "valid_date y m d \<Longrightarrow> month_names md y m d \<longleftrightarrow> d = monthly_date y m (if md = 0 then 1 else md)"
  by (auto simp: month_names_def monthly_date_def valid_date_def)

lemma schedule_day_iff:
  "schedule_day hb n \<longleftrightarrow>
     (if kind_of hb = ''weekly'' then weekday_of n = week_day hb
      else if kind_of hb = ''monthly'' then
        (case civil n of (y, m, d) \<Rightarrow> d = monthly_date y m (month_day hb))
      else True)"
proof -
  obtain y m d where c: "civil n = (y, m, d)"
    by (cases "civil n") auto
  have names: "month_names (case hb_monthday hb of None \<Rightarrow> 1 | Some md \<Rightarrow> md) y m d \<longleftrightarrow> d = monthly_date y m (month_day hb)"
    using month_names_iff [OF civil_spec(1) [OF c]] by (simp add: month_day_def split: option.split)
  have kinds: "kind_of hb = ''weekly'' \<longleftrightarrow> hb_kind hb = Some ''weekly''" "kind_of hb = ''monthly'' \<longleftrightarrow> hb_kind hb = Some ''monthly''"
    by (simp_all add: kind_of_def split: option.split)
  have "week_day hb = (case hb_weekday hb of None \<Rightarrow> 0 | Some w \<Rightarrow> if w < 0 then 0 else if 6 < w then 6 else w)"
    by (simp add: week_day_def split: option.split)
  then show ?thesis
    by (simp add: schedule_day_def kinds names c)
qed

definition due_instant :: "heartbeat_row \<Rightarrow> int \<Rightarrow> int \<Rightarrow> bool" where
  "due_instant hb tm t \<longleftrightarrow> schedule_day hb (t div day_us) \<and> t mod day_us = tm"

lemma parse_schedule_time_range: "parse_schedule_time s = Inr tm \<Longrightarrow> 0 \<le> tm \<and> tm < day_us"
proof -
  assume "parse_schedule_time s = Inr tm"
  then obtain h mi where tm: "tm = (max 0 (min 23 h) * 3600 + max 0 (min 59 mi) * 60) * second"
    by (cases "int_value (take 2 (split_str '':'' (Some 1) (strip s) @ [''0'']) ! 0)";
      cases "int_value (take 2 (split_str '':'' (Some 1) (strip s) @ [''0'']) ! 1)")
      (auto simp: parse_schedule_time_def Let_def)
  have "0 \<le> max 0 (min 23 h)" "max 0 (min 23 h) \<le> 23" "0 \<le> max 0 (min 59 mi)" "max 0 (min 59 mi) \<le> 59"
    by auto
  then show ?thesis
    unfolding tm by (simp add: mult_less_cancel_right_pos) 
qed

text \<open>What \<open>latest\<close> and \<open>next\<close> are to be, for any set of due instants.\<close>

definition brackets :: "(int \<Rightarrow> bool) \<Rightarrow> int \<Rightarrow> int \<Rightarrow> int \<Rightarrow> bool" where
  "brackets D now latest nxt \<longleftrightarrow> D latest \<and> D nxt \<and> latest \<le> now \<and> now < nxt
     \<and> (\<forall>x. D x \<longrightarrow> x \<le> latest \<or> nxt \<le> x)"

lemma step_days_stop: "now < c \<Longrightarrow> step_days step now c = c"
  by (simp add: step_days.simps)

text \<open>Instants a period apart.\<close>

lemma periodic_brackets:
  assumes D: "D due" and p: "0 < p" "\<And>x. D x \<Longrightarrow> \<exists>k. x = due + k * p" "\<And>k. D (due + k * p)"
    and now: "due \<le> now" "now < due + p"
  shows "brackets D now due (due + p)"
proof -
  have "x \<le> due \<or> due + p \<le> x" if "D x" for x
  proof -
    obtain k where x: "x = due + k * p"
      using p(2) \<open>D x\<close> by blast
    show ?thesis
    proof (cases "k \<le> 0")
      case True
      then show ?thesis
        using p(1) mult_nonpos_nonneg [of k p] by (simp add: x)
    next
      case False
      then show ?thesis
        using p(1) mult_right_mono [of 1 k p] by (simp add: x)
    qed
  qed
  then show ?thesis
    using D p(3) [of 1] now by (simp add: brackets_def)
qed

lemma weekday_of_add: "weekday_of (n + 7 * k) = weekday_of n"
  using mod_mult_self2 [of "n + 3" 7 k] by (simp add: weekday_of_def add.assoc add.commute add.left_commute)

lemma weekday_of_eq: "weekday_of n = weekday_of m \<Longrightarrow> \<exists>k. n = m + k * 7"
proof -
  assume "weekday_of n = weekday_of m"
  then have "7 dvd (n + 3) - (m + 3)"
    unfolding weekday_of_def by (simp add: mod_eq_dvd_iff)
  then obtain k where "n - m = 7 * k"
    by (auto elim: dvdE)
  then show ?thesis
    by (intro exI [of _ k]) simp
qed

lemma due_at:
  assumes "0 \<le> tm" "tm < day_us"
  shows "(n * day_us + tm) div day_us = n" "(n * day_us + tm) mod day_us = tm"
  using assms by simp_all

lemma due_instantE:
  assumes "due_instant hb tm x"
  obtains n where "x = n * day_us + tm" "schedule_day hb n"
proof (rule that [of "x div day_us"])
  show "x = x div day_us * day_us + tm" "schedule_day hb (x div day_us)"
    using assms div_mult_mod_eq [of x day_us] by (simp_all add: due_instant_def)
qed

lemma now_day: "(now div day_us) * day_us \<le> now" "now < (now div day_us) * day_us + day_us" for now :: int
  using div_mult_mod_eq [of now day_us] pos_mod_bound [of day_us now] pos_mod_sign [of day_us now] by linarith+

lemma due_instantI: "0 \<le> tm \<Longrightarrow> tm < day_us \<Longrightarrow> schedule_day hb n \<Longrightarrow> due_instant hb tm (n * day_us + tm)"
  by (simp add: due_instant_def)

lemma daily_brackets:
  assumes kind: "kind_of hb \<noteq> ''weekly''" "kind_of hb \<noteq> ''monthly''" and tm: "schedule_time hb = Inr tm"
    and due: "scheduled_due_local hb now = Inr due"
  shows "brackets (due_instant hb tm) now due (scheduled_next_due_local hb due now)"
proof -
  let ?today = "now div day_us"
  have range: "0 \<le> tm" "tm < day_us"
    using tm parse_schedule_time_range by (auto simp: schedule_time_def)
  have all: "schedule_day hb n" for n
    using kind by (simp add: schedule_day_iff)
  obtain n where n: "due = n * day_us + tm" and now: "due \<le> now" "now < due + day_us"
    using due tm kind now_day [of now] range that [of ?today] that [of "?today - 1"]
    by (auto simp: scheduled_due_local_def Let_def algebra_simps split: if_splits)
  have step: "due + k * day_us = (n + k) * day_us + tm" for k
    by (simp add: n algebra_simps)
  have "brackets (due_instant hb tm) now due (due + day_us)"
  proof (rule periodic_brackets)
    show "due_instant hb tm (due + k * day_us)" for k
      unfolding step by (rule due_instantI [OF range all])
    from this [of 0] show "due_instant hb tm due"
      by simp
    show "\<exists>k. x = due + k * day_us" if x: "due_instant hb tm x" for x
    proof -
      obtain m where "x = m * day_us + tm"
        using x by (rule due_instantE)
      then show ?thesis
        by (intro exI [of _ "m - n"]) (simp add: n algebra_simps)
    qed
  qed (use now in simp_all)
  then show ?thesis
    using kind now by (simp add: scheduled_next_due_local_def step_days_stop)
qed

lemma weekly_brackets:
  assumes kind: "kind_of hb = ''weekly''" and tm: "schedule_time hb = Inr tm"
    and due: "scheduled_due_local hb now = Inr due"
  shows "brackets (due_instant hb tm) now due (scheduled_next_due_local hb due now)"
proof -
  let ?today = "now div day_us" and ?week = "7 * day_us"
  let ?since = "(weekday_of ?today - week_day hb) mod 7"
  have range: "0 \<le> tm" "tm < day_us"
    using tm parse_schedule_time_range by (auto simp: schedule_time_def)
  have wd: "0 \<le> week_day hb" "week_day hb \<le> 6"
    by (auto simp: week_day_def)
  have "weekday_of (?today - ?since) = (weekday_of ?today - (weekday_of ?today - week_day hb)) mod 7"
  proof -
    have "weekday_of (?today - ?since) = (?today + 3 - ?since) mod 7"
      by (simp add: weekday_of_def algebra_simps)
    also have "\<dots> = (?today + 3 - (weekday_of ?today - week_day hb)) mod 7"
      by (rule mod_diff_right_eq)
    also have "\<dots> = ((?today + 3) mod 7 - (weekday_of ?today - week_day hb)) mod 7"
      by (rule mod_diff_left_eq [symmetric])
    finally show ?thesis
      by (simp only: weekday_of_def)
  qed
  then have first: "weekday_of (?today - ?since) = week_day hb"
    using wd by simp
  have since: "0 \<le> ?since" "?since \<le> 6"
    using pos_mod_bound [of 7 "weekday_of ?today - week_day hb"] by simp_all
  define since where "since = ?since"
  have since_us: "since * day_us \<le> 6 * day_us" "0 \<le> since * day_us"
    using since by (simp_all add: since_def)
  note first = first [folded since_def]
  have "\<exists>n. weekday_of n = week_day hb \<and> due = n * day_us + tm \<and> due \<le> now \<and> now < due + ?week"
  proof (cases "now < (?today - since) * day_us + tm")
    case True
    then have "due = (?today - since - 7) * day_us + tm"
      using due tm kind by (simp add: scheduled_due_local_def Let_def algebra_simps flip: since_def)
    moreover have "weekday_of (?today - since - 7) = week_day hb"
      using weekday_of_add [of "?today - since" "-1"] first by simp
    ultimately show ?thesis
      using True now_day [of now] range since_us
      by (intro exI [of _ "?today - since - 7"]) (simp add: algebra_simps)
  next
    case False
    then have "due = (?today - since) * day_us + tm"
      using due tm kind by (simp add: scheduled_due_local_def Let_def flip: since_def)
    then show ?thesis
      using False first now_day [of now] range since_us
      by (intro exI [of _ "?today - since"]) (simp add: algebra_simps)
  qed
  then obtain n where n: "weekday_of n = week_day hb" "due = n * day_us + tm" and now: "due \<le> now" "now < due + ?week"
    by blast
  have step: "due + k * ?week = (n + 7 * k) * day_us + tm" for k
    by (simp add: n algebra_simps)
  have sched: "schedule_day hb m \<longleftrightarrow> weekday_of m = week_day hb" for m
    using kind by (simp add: schedule_day_iff)
  have "brackets (due_instant hb tm) now due (due + ?week)"
  proof (rule periodic_brackets)
    show "due_instant hb tm (due + k * ?week)" for k
      unfolding step by (rule due_instantI [OF range]) (simp add: sched weekday_of_add n)
    from this [of 0] show "due_instant hb tm due"
      by simp
    show "\<exists>k. x = due + k * ?week" if x: "due_instant hb tm x" for x
    proof -
      obtain m where m: "x = m * day_us + tm" "schedule_day hb m"
        using x by (rule due_instantE)
      obtain k where "m = n + k * 7"
        using weekday_of_eq [of m n] m(2) n(1) by (auto simp: sched)
      then show ?thesis
        by (intro exI [of _ k]) (simp add: n m algebra_simps)
    qed
  qed (use now in simp_all)
  then show ?thesis
    using kind now by (simp add: scheduled_next_due_local_def step_days_stop)
qed

text \<open>The due instant of a month, and the order of months.\<close>

definition month_due :: "heartbeat_row \<Rightarrow> int \<Rightarrow> int \<times> int \<Rightarrow> int" where
  "month_due hb tm q = date_days (fst q) (snd q) (monthly_date (fst q) (snd q) (month_day hb)) * day_us + tm"

definition is_month :: "int \<times> int \<Rightarrow> bool" where
  "is_month q \<longleftrightarrow> 1 \<le> snd q \<and> snd q \<le> 12"

definition earlier :: "int \<times> int \<Rightarrow> int \<times> int \<Rightarrow> bool" where
  "earlier q r \<longleftrightarrow> fst q < fst r \<or> fst q = fst r \<and> snd q < snd r"

lemma months: "is_month (y, m) \<Longrightarrow> is_month (next_month y m)" "is_month (y, m) \<Longrightarrow> is_month (previous_month y m)"
  "is_month (y, m) \<Longrightarrow> case_prod next_month (previous_month y m) = (y, m)"
  "is_month (y, m) \<Longrightarrow> earlier (y, m) (next_month y m)" "is_month (y, m) \<Longrightarrow> earlier (previous_month y m) (y, m)"
  by (auto simp: is_month_def next_month_def previous_month_def earlier_def)

lemma earlier_total: "r = q \<or> earlier r q \<or> earlier q r"
  by (cases q; cases r) (auto simp: earlier_def)

lemma next_is_least: "is_month q \<Longrightarrow> is_month r \<Longrightarrow> earlier q r \<Longrightarrow> r = case_prod next_month q \<or> earlier (case_prod next_month q) r"
  by (cases q; cases r) (auto simp: is_month_def next_month_def earlier_def)

lemma month_day_valid: "is_month q \<Longrightarrow> valid_date (fst q) (snd q) (monthly_date (fst q) (snd q) (month_day hb))"
  by (simp add: is_month_def monthly_date_valid)

lemma days_mono: "a < b \<Longrightarrow> a * day_us + day_us \<le> b * day_us" for a b :: int
  using mult_right_mono [of "a + 1" b day_us] by simp

lemma month_due_mono: "is_month q \<Longrightarrow> is_month r \<Longrightarrow> earlier q r \<Longrightarrow> month_due hb tm q < month_due hb tm r"
  using date_days_less [OF month_day_valid month_day_valid, of q r hb hb] days_mono
  by (fastforce simp: earlier_def month_due_def)

lemma month_due_instant:
  assumes "kind_of hb = ''monthly''" "0 \<le> tm" "tm < day_us"
  shows "due_instant hb tm x \<longleftrightarrow> (\<exists>q. is_month q \<and> x = month_due hb tm q)"
proof
  assume "due_instant hb tm x"
  then obtain n where n: "x = n * day_us + tm" "schedule_day hb n"
    by (rule due_instantE)
  obtain y m d where c: "civil n = (y, m, d)"
    by (cases "civil n") auto
  note spec = civil_spec [OF c]
  have "d = monthly_date y m (month_day hb)"
    using n(2) assms(1) c by (simp add: schedule_day_iff)
  then show "\<exists>q. is_month q \<and> x = month_due hb tm q"
    using spec n(1) by (intro exI [of _ "(y, m)"]) (simp add: month_due_def is_month_def valid_date_def)
next
  assume "\<exists>q. is_month q \<and> x = month_due hb tm q"
  then obtain q where q: "is_month q" "x = month_due hb tm q"
    by blast
  show "due_instant hb tm x"
    unfolding q(2) month_due_def
    by (rule due_instantI [OF assms(2,3)]) (simp add: schedule_day_iff assms(1) civil_date_days [OF month_day_valid [OF q(1)]])
qed

lemma month_after_due:
  assumes "is_month q" "0 \<le> tm" "tm < day_us"
  shows "month_after (month_day hb) (month_due hb tm q) = month_due hb tm (case_prod next_month q)"
proof -
  have day: "month_due hb tm q div day_us = date_days (fst q) (snd q) (monthly_date (fst q) (snd q) (month_day hb))"
    "month_due hb tm q mod day_us = tm"
    using assms(2,3) by (simp_all add: month_due_def)
  obtain y m where q: "q = (y, m)"
    by fastforce
  obtain y' m' where n: "next_month y m = (y', m')"
    by fastforce
  have "civil (month_due hb tm q div day_us) = (y, m, monthly_date y m (month_day hb))"
    unfolding day using civil_date_days [OF month_day_valid [OF assms(1)]] by (simp add: q)
  then show ?thesis
    unfolding month_after_def day(2) by (simp add: q n month_due_def)
qed

lemma monthly_brackets:
  assumes kind: "kind_of hb = ''monthly''" and tm: "schedule_time hb = Inr tm"
    and due: "scheduled_due_local hb now = Inr due"
  shows "brackets (due_instant hb tm) now due (scheduled_next_due_local hb due now)"
proof -
  have range: "0 \<le> tm" "tm < day_us"
    using tm parse_schedule_time_range by (auto simp: schedule_time_def)
  obtain y m d where c: "civil (now div day_us) = (y, m, d)"
    by (cases "civil (now div day_us)") auto
  note spec = civil_spec [OF c]
  have this_month: "is_month (y, m)"
    using spec(1) by (simp add: is_month_def valid_date_def)
  have before: "month_due hb tm q \<le> now" if "is_month q" "earlier q (y, m)" for q
  proof -
    have "date_days (fst q) (snd q) (monthly_date (fst q) (snd q) (month_day hb)) < now div day_us"
      using date_days_less [OF month_day_valid [OF that(1)] spec(1)] that(2) spec(2) by (auto simp: earlier_def)
    then show ?thesis
      using days_mono now_day(1) [of now] range by (fastforce simp: month_due_def)
  qed
  have after: "now < month_due hb tm q" if "is_month q" "earlier (y, m) q" for q
  proof -
    have "now div day_us < date_days (fst q) (snd q) (monthly_date (fst q) (snd q) (month_day hb))"
      using date_days_less [OF spec(1) month_day_valid [OF that(1)]] that(2) spec(2) by (auto simp: earlier_def)
    then show ?thesis
      using days_mono [of "now div day_us"] now_day(2) [of now] range by (fastforce simp: month_due_def)
  qed
  have "\<exists>q. is_month q \<and> due = month_due hb tm q \<and> due \<le> now \<and> now < month_due hb tm (case_prod next_month q)"
  proof (cases "now < month_due hb tm (y, m)")
    case True
    have "due = month_due hb tm (previous_month y m)"
      using due tm kind c True by (auto simp: scheduled_due_local_def month_due_def Let_def split: prod.splits if_splits)
    then show ?thesis
      using months [OF this_month] before [OF months(2) [OF this_month] months(5) [OF this_month]] True
      by (intro exI [of _ "previous_month y m"]) simp
  next
    case False
    have "due = month_due hb tm (y, m)"
      using due tm kind c False by (auto simp: scheduled_due_local_def month_due_def Let_def split: prod.splits if_splits)
    then show ?thesis
      using False this_month after [OF months(1) [OF this_month] months(4) [OF this_month]]
      by (intro exI [of _ "(y, m)"]) simp
  qed
  then obtain q where q: "is_month q" "due = month_due hb tm q" "due \<le> now" "now < month_due hb tm (case_prod next_month q)"
    by blast
  have next_q: "is_month (case_prod next_month q)"
    using months(1) q(1) by (cases q) simp
  have "step_months (month_day hb) now due = month_due hb tm (case_prod next_month q)"
  proof -
    have "step_months (month_day hb) now due = step_months (month_day hb) now (month_after (month_day hb) due)"
      using q(3) by (subst step_months.simps) simp
    also have "\<dots> = step_months (month_day hb) now (month_due hb tm (case_prod next_month q))"
      unfolding q(2) month_after_due [OF q(1) range] ..
    also have "\<dots> = month_due hb tm (case_prod next_month q)"
      using q(4) by (subst step_months.simps) simp
    finally show ?thesis .
  qed
  then have nxt: "scheduled_next_due_local hb due now = month_due hb tm (case_prod next_month q)"
    using kind by (simp add: scheduled_next_due_local_def)
  have "x \<le> due \<or> month_due hb tm (case_prod next_month q) \<le> x" if "due_instant hb tm x" for x
  proof -
    obtain r where r: "is_month r" "x = month_due hb tm r"
      using \<open>due_instant hb tm x\<close> unfolding month_due_instant [OF kind range] by blast
    consider "r = q" | "earlier r q" | "earlier q r"
      using earlier_total [of r q] by blast
    then show ?thesis
    proof cases
      case 3
      then show ?thesis
        using next_is_least [OF q(1) r(1)] month_due_mono [OF next_q r(1), of hb tm] r(2) by fastforce
    qed (use r(2) q(2) month_due_mono [OF r(1) q(1), of hb tm] in auto)
  qed
  moreover have "due_instant hb tm due" "due_instant hb tm (month_due hb tm (case_prod next_month q))"
    unfolding month_due_instant [OF kind range] using q(1,2) next_q by blast+
  ultimately show ?thesis
    using q(3,4) unfolding brackets_def nxt by blast
qed

lemma due_brackets:
  assumes "scheduled_due_local hb now = Inr due"
  obtains tm where "schedule_time hb = Inr tm" "0 \<le> tm" "tm < day_us"
    "brackets (due_instant hb tm) now due (scheduled_next_due_local hb due now)"
proof -
  obtain tm where tm: "schedule_time hb = Inr tm"
    using assms by (cases "schedule_time hb") (simp_all add: scheduled_due_local_def)
  have range: "0 \<le> tm" "tm < day_us"
    using tm parse_schedule_time_range by (auto simp: schedule_time_def)
  have "brackets (due_instant hb tm) now due (scheduled_next_due_local hb due now)"
    using daily_brackets [OF _ _ tm assms] weekly_brackets [OF _ tm assms] monthly_brackets [OF _ tm assms] by blast
  then show ?thesis
    by (rule that [OF tm range])
qed

end
