(* ===== verification/Heartbeats.thy ===== *)
theory Heartbeats
  imports Heartbeat_Schedule
begin

text \<open>
  Heartbeats, the dead-man switches: the queries and writes of \<open>modules/db/heartbeats_repo.py\<close> and
  the operations of \<open>services/heartbeats/service.py\<close>. A ping is expected by a date and within a
  grace period; the scheduler marks what is late and opens an alert, a ping marks it recovered and
  resolves the alert. Objects the program holds are rows that may be older than the stored ones.

  The intake of alerts (\<open>upsert_alert\<close>) and the delivery of notifications are arguments.
\<close>

section \<open>Tables\<close>

record ping_row =
  hp_heartbeat :: int
  hp_type :: string
  hp_instance :: "string option"
  hp_before :: "string option"
  hp_after :: string
  hp_message :: string
  hp_payload :: pydict
  hp_alert_group :: "int option"
  hp_at :: int

record hb_db =
  hb_alerts :: alert_db
  hb_rows :: "heartbeat_row list"
  hi_rows :: "instance_row list"
  hp_rows :: "ping_row list"

type_synonym 'a hbm = "hb_db \<Rightarrow> 'a dbr \<times> hb_db"

record hb_env =
  he_alert :: alert_env
  he_tz :: tzdb
  he_upsert :: "pydict \<Rightarrow> alert_db \<Rightarrow> int option dbr \<times> alert_db"
  he_notify :: "alert_group_row \<Rightarrow> alert_db \<Rightarrow> unit dbr \<times> alert_db"
  he_recovery_delay :: int

definition he_now :: "hb_env \<Rightarrow> int" where
  "he_now env = whole_seconds (al_now (he_alert env))"

definition in_alerts :: "'a alm \<Rightarrow> 'a hbm" where
  "in_alerts m db = (let (r, a) = m (hb_alerts db) in (r, db\<lparr>hb_alerts := a\<rparr>))"

section \<open>Repository\<close>

definition save_heartbeat :: "heartbeat_row \<Rightarrow> hb_db \<Rightarrow> hb_db" where
  "save_heartbeat h db = db\<lparr>hb_rows := update_row hb_id h (hb_rows db)\<rparr>"

definition save_instance :: "instance_row \<Rightarrow> hb_db \<Rightarrow> hb_db" where
  "save_instance i db = db\<lparr>hi_rows := update_row hi_id i (hi_rows db)\<rparr>"

text \<open>\<open>save(only=[...])\<close> changes columns of the stored row.\<close>

definition patch_heartbeat :: "int \<Rightarrow> (heartbeat_row \<Rightarrow> heartbeat_row) \<Rightarrow> hb_db \<Rightarrow> hb_db" where
  "patch_heartbeat i f db = db\<lparr>hb_rows := map (\<lambda>h. if hb_id h = i then f h else h) (hb_rows db)\<rparr>"

definition patch_instance :: "int \<Rightarrow> (instance_row \<Rightarrow> instance_row) \<Rightarrow> hb_db \<Rightarrow> hb_db" where
  "patch_instance i f db = db\<lparr>hi_rows := map (\<lambda>x. if hi_id x = i then f x else x) (hi_rows db)\<rparr>"

definition record_ping ::
  "heartbeat_row \<Rightarrow> string \<Rightarrow> string option \<Rightarrow> string option \<Rightarrow> string \<Rightarrow> string \<Rightarrow> pydict \<Rightarrow> int option \<Rightarrow> int \<Rightarrow> hb_db \<Rightarrow> hb_db" where
  "record_ping h event_type instance_key before after message payload grp received db =
     db\<lparr>hp_rows := hp_rows db @ [\<lparr>hp_heartbeat = hb_id h, hp_type = event_type, hp_instance = instance_key,
       hp_before = before, hp_after = after, hp_message = message, hp_payload = payload,
       hp_alert_group = grp, hp_at = received\<rparr>]\<rparr>"

text \<open>The team is live and so is the group, when there is one.\<close>

definition heartbeat_live :: "access_db \<Rightarrow> heartbeat_row \<Rightarrow> bool" where
  "heartbeat_live c h \<longleftrightarrow>
     list_ex (\<lambda>t. t_id t = hb_team h \<and> t_active t \<and> \<not> t_deleted t) (db_teams c)
   \<and> (case hb_group h of None \<Rightarrow> True | Some g \<Rightarrow> list_ex (\<lambda>r. g_id r = g \<and> group_live r) (db_groups c))"

definition due_now :: "int \<Rightarrow> int option \<Rightarrow> bool" where
  "due_now now next_at \<longleftrightarrow> (case next_at of None \<Rightarrow> True | Some t \<Rightarrow> t \<le> now)"

definition nulls_first :: "int option \<Rightarrow> int \<Rightarrow> int \<times> int \<times> int" where
  "nulls_first next_at i = (case next_at of None \<Rightarrow> (0, 0, i) | Some t \<Rightarrow> (1, t, i))"

definition list_due_heartbeat_candidates :: "hb_db \<Rightarrow> int \<Rightarrow> nat \<Rightarrow> int list option \<Rightarrow> heartbeat_row list" where
  "list_due_heartbeat_candidates db now limit team_ids =
     take limit (sort_key (\<lambda>h. nulls_first (hb_next_expected h) (hb_id h))
       (filter (\<lambda>h. \<not> hb_deleted h \<and> hb_enabled h \<and> hb_status h \<noteq> ''paused'' \<and> heartbeat_live (core_db (hb_alerts db)) h
          \<and> \<not> hb_tracking h \<and> due_now now (hb_next_expected h)
          \<and> (case team_ids of None \<Rightarrow> True | Some ts \<Rightarrow> hb_team h \<in> set ts)) (hb_rows db)))"

definition list_due_heartbeat_instance_candidates ::
  "hb_db \<Rightarrow> int \<Rightarrow> nat \<Rightarrow> int list option \<Rightarrow> (instance_row \<times> heartbeat_row) list" where
  "list_due_heartbeat_instance_candidates db now limit team_ids =
     take limit (sort_key (\<lambda>(i, h). nulls_first (hi_next_expected i) (hi_id i))
       (filter (\<lambda>(i, h). \<not> hb_deleted h \<and> hb_enabled h \<and> hb_status h \<noteq> ''paused'' \<and> heartbeat_live (core_db (hb_alerts db)) h
          \<and> hb_tracking h \<and> hi_enabled i \<and> hi_status i \<noteq> ''paused'' \<and> due_now now (hi_next_expected i)
          \<and> (case team_ids of None \<Rightarrow> True | Some ts \<Rightarrow> hb_team h \<in> set ts))
          (concat (map (\<lambda>i. map (Pair i) (filter (\<lambda>h. hb_id h = hi_heartbeat i) (hb_rows db))) (hi_rows db)))))"

definition get_heartbeat_by_token :: "hb_env \<Rightarrow> hb_db \<Rightarrow> string \<Rightarrow> heartbeat_row option" where
  "get_heartbeat_by_token env db raw_token =
     (if raw_token = [] then None
      else find (\<lambda>h. hb_token_hash h = env_hash_token (al_env (he_alert env)) raw_token \<and> \<not> hb_deleted h \<and> hb_enabled h
                   \<and> heartbeat_live (core_db (hb_alerts db)) h) (hb_rows db))"

definition get_heartbeat_instance :: "hb_db \<Rightarrow> int \<Rightarrow> string \<Rightarrow> instance_row option" where
  "get_heartbeat_instance db heartbeat_id instance_key =
     (if instance_key = [] then None
      else find (\<lambda>i. hi_heartbeat i = heartbeat_id \<and> hi_key i = instance_key) (hi_rows db))"

definition list_heartbeat_instances :: "hb_db \<Rightarrow> int \<Rightarrow> bool \<Rightarrow> instance_row list" where
  "list_heartbeat_instances db heartbeat_id enabled_only =
     sort_key hi_key (filter (\<lambda>i. hi_heartbeat i = heartbeat_id \<and> (enabled_only \<longrightarrow> hi_enabled i)) (hi_rows db))"

definition create_heartbeat_instance ::
  "hb_env \<Rightarrow> heartbeat_row \<Rightarrow> string \<Rightarrow> bool \<Rightarrow> int option \<Rightarrow> int option \<Rightarrow> instance_row hbm" where
  "create_heartbeat_instance env h instance_key auto_discovered first_seen next_expected =
     db_bind (db_read (\<lambda>db. Inr \<lparr>hi_id = env_new_id (al_env (he_alert env)) (map hi_id (hi_rows db)), hi_heartbeat = hb_id h,
       hi_key = instance_key, hi_status = ''new'', hi_enabled = True, hi_auto = auto_discovered, hi_first_seen = first_seen,
       hi_last_seen = None, hi_last_payload = [], hi_next_expected = next_expected, hi_overdue_since = None,
       hi_last_overdue_at = None, hi_last_recovered_at = None, hi_alert_group = None, hi_created_at = he_now env,
       hi_updated_at = he_now env\<rparr>)) (\<lambda>i.
     db_bind (db_write (\<lambda>db. db\<lparr>hi_rows := hi_rows db @ [i]\<rparr>)) (\<lambda>_. db_return i))"

definition list_heartbeats ::
  "hb_db \<Rightarrow> int option \<Rightarrow> int list option \<Rightarrow> int option \<Rightarrow> bool \<Rightarrow> string option \<Rightarrow> bool \<Rightarrow> heartbeat_row list" where
  "list_heartbeats db team_id team_ids group_id enabled_only status include_deleted =
     (let teams = db_teams (core_db (hb_alerts db));
          slug = (\<lambda>h. case find (\<lambda>t. t_id t = hb_team h) teams of None \<Rightarrow> [] | Some t \<Rightarrow> t_slug t)
      in sort_key (\<lambda>h. (slug h, hb_name h))
           (filter (\<lambda>h. list_ex (\<lambda>t. t_id t = hb_team h) teams
              \<and> (include_deleted \<or> \<not> hb_deleted h) \<and> (enabled_only \<longrightarrow> hb_enabled h)
              \<and> (case status of None \<Rightarrow> True | Some s \<Rightarrow> s = [] \<or> hb_status h = s)
              \<and> (case fk_truthy team_id of
                   Some t \<Rightarrow> hb_team h = t
                 | None \<Rightarrow> (case team_ids of None \<Rightarrow> True | Some ts \<Rightarrow> hb_team h \<in> set ts))
              \<and> (case fk_truthy group_id of None \<Rightarrow> True | Some g \<Rightarrow> hb_group h = Some g)) (hb_rows db)))"

section \<open>Instances\<close>

definition normalize_heartbeat_instance_key :: "py \<Rightarrow> string option" where
  "normalize_heartbeat_instance_key v =
     (if v = PNone then None
      else let s = strip (py_str v) in if s = [] then None else Some (take 255 s))"

definition heartbeat_instance_key_name :: "heartbeat_row \<Rightarrow> string" where
  "heartbeat_instance_key_name h =
     (let s = strip (if hb_instance_key h = [] then ''instance'' else hb_instance_key h) in if s = [] then ''instance'' else s)"

definition extract_heartbeat_instance_key :: "heartbeat_row \<Rightarrow> pydict \<Rightarrow> string option" where
  "extract_heartbeat_instance_key h payload =
     (let names = [heartbeat_instance_key_name h, ''instance'', ''host'', ''hostname'', ''node''];
          nested = (case dget payload ''payload'' of PDict d \<Rightarrow> map (dget d) names | _ \<Rightarrow> []);
          candidates = map (dget payload) names @ nested
      in case filter (\<lambda>c. c \<noteq> None) (map normalize_heartbeat_instance_key candidates) of
           [] \<Rightarrow> None | c # _ \<Rightarrow> c)"

text \<open>The columns a rollup computes from the instances.\<close>

definition rollup_status :: "instance_row list \<Rightarrow> string" where
  "rollup_status instances =
     (if list_ex (\<lambda>i. hi_status i = ''overdue'') instances then ''overdue''
      else if list_ex (\<lambda>i. hi_last_seen i \<noteq> None) instances then ''ok'' else ''new'')"

definition some_values :: "('r \<Rightarrow> int option) \<Rightarrow> 'r list \<Rightarrow> int list" where
  "some_values f rows = concat (map (\<lambda>r. case f r of None \<Rightarrow> [] | Some t \<Rightarrow> [t]) rows)"

definition max_of :: "int list \<Rightarrow> int option" where
  "max_of ts = (case ts of [] \<Rightarrow> None | t # ts \<Rightarrow> Some (fold max ts t))"

definition min_of :: "int list \<Rightarrow> int option" where
  "min_of ts = (case ts of [] \<Rightarrow> None | t # ts \<Rightarrow> Some (fold min ts t))"

definition refresh_heartbeat_instance_rollup :: "hb_env \<Rightarrow> heartbeat_row \<Rightarrow> heartbeat_row hbm" where
  "refresh_heartbeat_instance_rollup env h =
     db_bind (db_read (\<lambda>db. Inr (list_heartbeat_instances db (hb_id h) True))) (\<lambda>instances.
       if \<not> hb_tracking h \<or> hb_status h = ''paused'' \<or> \<not> hb_enabled h then db_return h
       else
         let h1 = (if instances = [] then h\<lparr>hb_status := ''new'', hb_last_seen := None, hb_next_expected := None\<rparr>
                   else h\<lparr>hb_status := rollup_status instances, hb_last_seen := max_of (some_values hi_last_seen instances),
                          hb_next_expected := min_of (some_values hi_next_expected instances)\<rparr>);
             h2 = h1\<lparr>hb_updated_at := he_now env\<rparr>
         in db_bind (db_write (save_heartbeat h2)) (\<lambda>_. db_return h2))"

definition initialize_heartbeat_schedule :: "hb_env \<Rightarrow> heartbeat_row \<Rightarrow> heartbeat_row hbm" where
  "initialize_heartbeat_schedule env h =
     (if hb_tracking h then refresh_heartbeat_instance_rollup env h
      else db_bind (db_read (\<lambda>_. compute_next_expected_at (he_tz env) (he_now env) h)) (\<lambda>t.
        db_bind (db_write (patch_heartbeat (hb_id h) (\<lambda>r. r\<lparr>hb_next_expected := Some t\<rparr>))) (\<lambda>_.
        db_return (h\<lparr>hb_next_expected := Some t\<rparr>))))"

definition heartbeat_expected_instances_from_metadata :: "heartbeat_row \<Rightarrow> py list" where
  "heartbeat_expected_instances_from_metadata h = (case dget (hb_metadata h) ''expected_instances'' of PList l \<Rightarrow> l | _ \<Rightarrow> [])"

section \<open>Alerts\<close>

definition opt_text :: "string option \<Rightarrow> py" where
  "opt_text v = (case v of None \<Rightarrow> PNone | Some s \<Rightarrow> PStr s)"

definition opt_number :: "int option \<Rightarrow> py" where
  "opt_number v = (case v of None \<Rightarrow> PNone | Some n \<Rightarrow> PInt n)"

text \<open>\<open>serialize_utc_datetime\<close>\<close>

definition utc_text :: "int \<Rightarrow> string" where
  "utc_text t = isoformat t @ ''Z''"

definition text_or :: "int option \<Rightarrow> string \<Rightarrow> string" where
  "text_or t default_text = (case t of None \<Rightarrow> default_text | Some x \<Rightarrow> utc_text x)"

definition overdue_message :: "string \<Rightarrow> int option \<Rightarrow> int option \<Rightarrow> int \<Rightarrow> int \<Rightarrow> string" where
  "overdue_message what last_seen expected grace now =
     what @ '' Last seen: '' @ text_or last_seen ''never'' @ ''. Expected at: '' @ text_or expected ''unknown''
     @ ''. Deadline with grace: '' @ text_or (map_option (\<lambda>t. t + grace * second) expected) ''unknown''
     @ ''. Detected at: '' @ utc_text now @ ''.''"

definition heartbeat_overdue_message :: "heartbeat_row \<Rightarrow> int \<Rightarrow> string" where
  "heartbeat_overdue_message h now =
     overdue_message ''Expected heartbeat ping did not arrive.'' (hb_last_seen h) (hb_next_expected h) (hb_grace h) now"

definition heartbeat_instance_overdue_message :: "heartbeat_row \<Rightarrow> instance_row \<Rightarrow> int \<Rightarrow> string" where
  "heartbeat_instance_overdue_message h i now =
     overdue_message (''Expected heartbeat ping did not arrive for instance '' @ hi_key i @ ''.'')
       (hi_last_seen i) (hi_next_expected i) (hb_grace h) now"

definition or_text :: "string \<Rightarrow> string \<Rightarrow> string" where
  "or_text s default_text = (if s = [] then default_text else s)"

definition heartbeat_labels :: "heartbeat_row \<Rightarrow> team_row \<Rightarrow> string \<Rightarrow> pydict \<Rightarrow> pydict" where
  "heartbeat_labels h t alertname middle =
     dupdate (hb_labels h) ([(''alertname'', PStr alertname), (''heartbeat_id'', PStr (int_str (hb_id h))),
       (''heartbeat_uid'', PStr (hb_uid h)), (''heartbeat_slug'', PStr (hb_slug h)), (''heartbeat_name'', PStr (hb_name h))]
     @ middle @ [(''team'', PStr (t_slug t)),
       (''service_id'', PStr (case fk_truthy (hb_service h) of None \<Rightarrow> [] | Some i \<Rightarrow> int_str i)), (''source'', PStr ''heartbeat'')])"

definition heartbeat_facts :: "heartbeat_row \<Rightarrow> pydict \<Rightarrow> pydict \<Rightarrow> pydict" where
  "heartbeat_facts h middle end_facts =
     [(''id'', PInt (hb_id h)), (''uid'', PStr (hb_uid h)), (''name'', PStr (hb_name h)), (''slug'', PStr (hb_slug h)),
      (''mode'', PStr (hb_mode h))] @ middle @
     [(''expected_interval_seconds'', opt_number (hb_interval h)), (''grace_period_seconds'', PInt (hb_grace h)),
      (''schedule_kind'', opt_text (hb_kind h)), (''schedule_time'', opt_text (hb_time h)),
      (''schedule_weekday'', opt_number (hb_weekday h)), (''schedule_monthday'', opt_number (hb_monthday h)),
      (''timezone'', PStr (hb_timezone h))] @ end_facts"

definition heartbeat_event :: "heartbeat_row \<Rightarrow> team_row \<Rightarrow> string \<Rightarrow> string \<Rightarrow> string \<Rightarrow> string \<Rightarrow> pydict \<Rightarrow> pydict \<Rightarrow> pydict" where
  "heartbeat_event h t key title summary message labels payload =
     [(''source'', PStr ''heartbeat''), (''forced_route_id'', PInt (hb_route h)), (''forced_team_id'', PInt (hb_team h)),
      (''team_slug'', PStr (t_slug t)), (''_forced_service_id'', opt_number (hb_service h)),
      (''external_id'', PStr key), (''dedup_key'', PStr key), (''title'', PStr title), (''message'', PStr message),
      (''severity'', PStr (or_text (hb_severity h) ''critical'')), (''priority_slug'', PStr (or_text (hb_priority_slug h) ''p2'')),
      (''priority_set_manually'', PBool True), (''labels'', PDict labels),
      (''annotations'', PDict [(''summary'', PStr summary), (''description'', PStr message)]),
      (''payload'', PDict payload), (''status'', PStr ''firing'')]"

definition seen_facts :: "int option \<Rightarrow> int option \<Rightarrow> int option \<Rightarrow> int \<Rightarrow> pydict" where
  "seen_facts last_seen next_expected overdue_since now =
     [(''last_seen_at'', opt_text (map_option utc_text last_seen)), (''next_expected_at'', opt_text (map_option utc_text next_expected)),
      (''overdue_since'', PStr (text_or overdue_since (utc_text now)))]"

definition heartbeat_alert_payload :: "heartbeat_row \<Rightarrow> team_row \<Rightarrow> int \<Rightarrow> pydict" where
  "heartbeat_alert_payload h t now =
     heartbeat_event h t (''heartbeat:'' @ hb_uid h) (''Heartbeat overdue: '' @ hb_name h)
       (''Heartbeat '' @ hb_name h @ '' is overdue'') (heartbeat_overdue_message h now)
       (heartbeat_labels h t ''HeartbeatOverdue'' [])
       [(''heartbeat'', PDict (heartbeat_facts h [] (seen_facts (hb_last_seen h) (hb_next_expected h) (hb_overdue_since h) now)))]"

definition heartbeat_instance_alert_payload :: "heartbeat_row \<Rightarrow> team_row \<Rightarrow> instance_row \<Rightarrow> int \<Rightarrow> pydict" where
  "heartbeat_instance_alert_payload h t i now =
     heartbeat_event h t (''heartbeat:'' @ hb_uid h @ '':instance:'' @ hi_key i)
       (''Heartbeat overdue: '' @ hb_name h @ '' / '' @ hi_key i)
       (''Heartbeat '' @ hb_name h @ '' is overdue on '' @ hi_key i) (heartbeat_instance_overdue_message h i now)
       (heartbeat_labels h t ''HeartbeatInstanceOverdue'' [(''heartbeat_instance'', PStr (hi_key i)), (''instance'', PStr (hi_key i))])
       [(''heartbeat'', PDict (heartbeat_facts h [(''instance_tracking_enabled'', PBool True),
          (''instance_key'', PStr (heartbeat_instance_key_name h))] [])),
        (''instance'', PDict ([(''id'', PInt (hi_id i)), (''key'', PStr (hi_key i))]
          @ seen_facts (hi_last_seen i) (hi_next_expected i) (hi_overdue_since i) now))]"

text \<open>An alert group that exists and is not resolved.\<close>

definition open_group :: "hb_db \<Rightarrow> int option \<Rightarrow> bool" where
  "open_group db ref =
     (case fk_truthy ref of
        None \<Rightarrow> False
      | Some i \<Rightarrow> (case get_alert_group (hb_alerts db) i of Inl _ \<Rightarrow> False | Inr g \<Rightarrow> g_status g \<noteq> ''resolved''))"

definition first_time :: "int option \<Rightarrow> int \<Rightarrow> int option" where
  "first_time t now = (case t of None \<Rightarrow> Some now | Some x \<Rightarrow> Some x)"

definition mark_heartbeat_overdue :: "hb_env \<Rightarrow> heartbeat_row \<Rightarrow> (heartbeat_row \<times> int option) hbm" where
  "mark_heartbeat_overdue env h =
     (let now = he_now env; before = hb_status h; transitioned = (before \<noteq> ''overdue'') in
      db_bind (db_read (\<lambda>db. Inr (\<not> transitioned \<and> open_group db (hb_alert_group h)))) (\<lambda>keep.
        if keep then db_return (h, None)
        else
          let h = h\<lparr>hb_status := ''overdue'', hb_overdue_since := first_time (hb_overdue_since h) now,
                   hb_last_overdue_at := (if transitioned then Some now else hb_last_overdue_at h), hb_updated_at := now\<rparr> in
          db_bind (db_read (\<lambda>_. compute_next_expected_at (he_tz env) now h)) (\<lambda>next_at.
            let h = h\<lparr>hb_next_expected := Some next_at\<rparr> in
            db_bind (db_write (save_heartbeat h)) (\<lambda>_.
            db_bind (db_read (\<lambda>db. team_of (core_db (hb_alerts db)) (hb_team h))) (\<lambda>t.
            db_bind (in_alerts (he_upsert env (heartbeat_alert_payload h t now))) (\<lambda>grp.
            db_bind (case grp of
                       None \<Rightarrow> db_return h
                     | Some g \<Rightarrow>
                         db_bind (db_write (patch_heartbeat (hb_id h) (\<lambda>r. r\<lparr>hb_alert_group := Some g\<rparr>))) (\<lambda>_.
                         db_bind (in_alerts (db_write (create_alert_event_row None ''heartbeat_overdue''
                           (''Heartbeat overdue: '' @ hb_name h) None (Some g)))) (\<lambda>_.
                         db_return (h\<lparr>hb_alert_group := Some g\<rparr>)))) (\<lambda>h.
            db_bind (if transitioned
                     then db_write (record_ping h ''overdue'' None (Some before) (hb_status h) ''Heartbeat became overdue'' [] grp now)
                     else db_return ()) (\<lambda>_.
            db_return (h, grp)))))))))"

definition mark_heartbeat_instance_overdue :: "hb_env \<Rightarrow> instance_row \<Rightarrow> heartbeat_row \<Rightarrow> (instance_row \<times> int option) hbm" where
  "mark_heartbeat_instance_overdue env i h =
     (let now = he_now env; before = hi_status i; transitioned = (before \<noteq> ''overdue'') in
      db_bind (db_read (\<lambda>db. Inr (\<not> transitioned \<and> open_group db (hi_alert_group i)))) (\<lambda>keep.
        if keep then db_bind (refresh_heartbeat_instance_rollup env h) (\<lambda>_. db_return (i, None))
        else
          let i = i\<lparr>hi_status := ''overdue'', hi_overdue_since := first_time (hi_overdue_since i) now,
                   hi_last_overdue_at := (if transitioned then Some now else hi_last_overdue_at i)\<rparr> in
          db_bind (db_read (\<lambda>_. compute_instance_next_expected_at (he_tz env) now h i)) (\<lambda>next_at.
            let i = i\<lparr>hi_next_expected := Some next_at, hi_updated_at := now\<rparr> in
            db_bind (db_write (save_instance i)) (\<lambda>_.
            db_bind (db_read (\<lambda>db. team_of (core_db (hb_alerts db)) (hb_team h))) (\<lambda>t.
            db_bind (in_alerts (he_upsert env (heartbeat_instance_alert_payload h t i now))) (\<lambda>grp.
            db_bind (case grp of
                       None \<Rightarrow> db_return i
                     | Some g \<Rightarrow>
                         db_bind (db_write (patch_instance (hi_id i) (\<lambda>r. r\<lparr>hi_alert_group := Some g\<rparr>))) (\<lambda>_.
                         db_bind (in_alerts (db_write (create_alert_event_row None ''heartbeat_instance_overdue''
                           (''Heartbeat overdue: '' @ hb_name h @ '' / '' @ hi_key i) None (Some g)))) (\<lambda>_.
                         db_return (i\<lparr>hi_alert_group := Some g\<rparr>)))) (\<lambda>i.
            db_bind (if transitioned
                     then db_write (record_ping h ''instance_overdue'' (Some (hi_key i)) (Some before) (hi_status i)
                            (''Heartbeat instance became overdue: '' @ hi_key i) [] grp now)
                     else db_return ()) (\<lambda>_.
            db_bind (refresh_heartbeat_instance_rollup env h) (\<lambda>_.
            db_return (i, grp))))))))))"

section \<open>Recovery\<close>

definition schedule_recovery_notification :: "hb_env \<Rightarrow> alert_group_row \<Rightarrow> unit alm" where
  "schedule_recovery_notification env g =
     (let delay = he_recovery_delay env; now = al_now (he_alert env); due_at = now + delay * second in
      if delay = 0 \<or> g_status g \<noteq> ''resolved'' \<or> ag_resolved_at g = None then db_return ()
      else
        let hit = (\<lambda>r. ag_id r = ag_id g \<and> g_status r = ''resolved'' \<and> ag_resolved_at r = ag_resolved_at g
              \<and> ag_merged_into r = None \<and> (\<not> g_notification_pending r \<or> g_notification_reason r \<noteq> Some ''recovery''))
        in db_bind (db_read (\<lambda>db. Inr (list_ex hit (ag_rows db)))) (\<lambda>updated.
             if \<not> updated then db_return ()
             else db_write (\<lambda>db. create_alert_event_row None ''recovery_notification_scheduled''
                    (''Recovery notification deferred for '' @ int_str delay @ ''s until '' @ isoformat due_at @ '' UTC'') None (Some (ag_id g))
                    (db\<lparr>ag_rows := map (\<lambda>r. if hit r then r\<lparr>g_notification_pending := True, g_notification_due_at := Some due_at,
                        g_notification_reason := Some ''recovery'', g_updated_at := now\<rparr> else r) (ag_rows db)\<rparr>))))"

definition resolve_heartbeat_alert :: "hb_env \<Rightarrow> alert_group_row \<Rightarrow> string \<Rightarrow> string \<Rightarrow> alert_group_row hbm" where
  "resolve_heartbeat_alert env g event_type message =
     in_alerts (db_bind (resolve_alert (he_alert env) (ag_id g) None ''system'' None) (\<lambda>resolved.
       let resolved = clear_alert_group_notification (al_now (he_alert env)) resolved in
       db_bind (db_write (save_group resolved)) (\<lambda>_.
       db_bind (db_write (create_alert_event_row None event_type message None (Some (ag_id resolved)))) (\<lambda>_.
       db_bind (if he_recovery_delay env \<noteq> 0 then schedule_recovery_notification env resolved
                else if ag_last_notification_at g \<noteq> None then he_notify env resolved else db_return ()) (\<lambda>_.
       db_return resolved)))))"

definition resolve_current_alert :: "hb_env \<Rightarrow> int option \<Rightarrow> string \<Rightarrow> string \<Rightarrow> int option hbm" where
  "resolve_current_alert env ref event_type message =
     (case fk_truthy ref of
        None \<Rightarrow> db_return None
      | Some i \<Rightarrow>
          db_bind (db_read (\<lambda>db. Inr (case get_alert_group (hb_alerts db) i of Inl _ \<Rightarrow> None | Inr g \<Rightarrow> Some g))) (\<lambda>found.
          case found of
            None \<Rightarrow> db_return None
          | Some g \<Rightarrow>
              if g_status g = ''resolved'' then db_return (Some (ag_id g))
              else db_bind (resolve_heartbeat_alert env g event_type message) (\<lambda>r. db_return (Some (ag_id r)))))"

definition resolve_current_overdue_alert :: "hb_env \<Rightarrow> heartbeat_row \<Rightarrow> int option hbm" where
  "resolve_current_overdue_alert env h =
     resolve_current_alert env (hb_alert_group h) ''heartbeat_recovered'' (''Heartbeat recovered: '' @ hb_name h)"

definition resolve_current_instance_overdue_alert :: "hb_env \<Rightarrow> heartbeat_row \<Rightarrow> instance_row \<Rightarrow> int option hbm" where
  "resolve_current_instance_overdue_alert env h i =
     resolve_current_alert env (hi_alert_group i) ''heartbeat_instance_recovered'' (''Heartbeat recovered: '' @ hb_name h @ '' / '' @ hi_key i)"

section \<open>Pings\<close>

datatype ping_reply = Accepted heartbeat_row | Refused string string

definition ping_status :: "string \<Rightarrow> string" where
  "ping_status status = (if status = ''paused'' then ''paused'' else ''ok'')"

definition ping_heartbeat :: "hb_env \<Rightarrow> heartbeat_row \<Rightarrow> pydict \<Rightarrow> ping_reply hbm" where
  "ping_heartbeat env h payload =
     (let now = he_now env; before = hb_status h; h = h\<lparr>hb_last_seen := Some now, hb_last_payload := payload\<rparr> in
      db_bind (db_read (\<lambda>_. compute_next_expected_at (he_tz env) now h)) (\<lambda>next_at.
        let h = h\<lparr>hb_next_expected := Some next_at, hb_updated_at := now\<rparr> in
        db_bind (if before = ''overdue''
                 then db_bind (if hb_auto_resolve h then resolve_current_overdue_alert env h else db_return None) (\<lambda>grp.
                   db_return (h\<lparr>hb_status := ''ok'', hb_overdue_since := None, hb_last_recovered_at := Some now, hb_alert_group := None\<rparr>, grp))
                 else db_return (h\<lparr>hb_status := ping_status before\<rparr>, None)) (\<lambda>(h, grp).
        db_bind (db_write (save_heartbeat h)) (\<lambda>_.
        db_bind (db_write (record_ping h (if before \<noteq> ''overdue'' then ''ping'' else ''recovery'') None (Some before) (hb_status h)
                   ''Heartbeat ping received'' payload grp now)) (\<lambda>_.
        db_return (Accepted h))))))"

definition ping_instance :: "hb_env \<Rightarrow> heartbeat_row \<Rightarrow> instance_row \<Rightarrow> pydict \<Rightarrow> ping_reply hbm" where
  "ping_instance env h i payload =
     (let now = he_now env; before = hi_status i; i = i\<lparr>hi_last_seen := Some now, hi_last_payload := payload\<rparr> in
      db_bind (db_read (\<lambda>_. compute_instance_next_expected_at (he_tz env) now h i)) (\<lambda>next_at.
        let i = i\<lparr>hi_next_expected := Some next_at, hi_updated_at := now\<rparr> in
        db_bind (if before = ''overdue''
                 then db_bind (if hb_auto_resolve h then resolve_current_instance_overdue_alert env h i else db_return None) (\<lambda>grp.
                   db_return (i\<lparr>hi_status := ''ok'', hi_overdue_since := None, hi_last_recovered_at := Some now, hi_alert_group := None\<rparr>, grp))
                 else db_return (i\<lparr>hi_status := ping_status before\<rparr>, None)) (\<lambda>(i, grp).
        db_bind (db_write (save_instance i)) (\<lambda>_.
        db_bind (refresh_heartbeat_instance_rollup env h) (\<lambda>h.
        db_bind (db_write (record_ping h (if before \<noteq> ''overdue'' then ''ping'' else ''recovery'') (Some (hi_key i)) (Some before)
                   (hi_status i) ''Heartbeat instance ping received'' payload grp now)) (\<lambda>_.
        db_return (Accepted h)))))))"

definition quote :: string where
  "quote = [CHR 0x27]"

definition not_expected :: "string \<Rightarrow> ping_reply" where
  "not_expected key = Refused ''heartbeat_instance_not_expected'' (''Instance '' @ quote @ key @ quote @ '' is not expected for this heartbeat.'')"

text \<open>A set of values can only hold hashable ones.\<close>

fun unhashable :: "py \<Rightarrow> bool" where
  "unhashable (PList _) = True"
| "unhashable (PDict _) = True"
| "unhashable _ = False"

text \<open>The instance of a ping, found, created or refused.\<close>

definition instance_for_ping :: "hb_env \<Rightarrow> heartbeat_row \<Rightarrow> string \<Rightarrow> pydict \<Rightarrow> (ping_reply + instance_row) hbm" where
  "instance_for_ping env h key payload =
     db_bind (db_read (\<lambda>db. Inr (get_heartbeat_instance db (hb_id h) key))) (\<lambda>found.
     case found of
       Some i \<Rightarrow> db_return (Inr i)
     | None \<Rightarrow>
         if hb_expected_mode h = ''static''
         then if list_ex unhashable (heartbeat_expected_instances_from_metadata h)
              then db_raise (BadValue ''unhashable type'')
              else if \<not> list_ex (\<lambda>v. v = PStr key) (heartbeat_expected_instances_from_metadata h)
              then db_return (Inl (not_expected key))
              else db_bind (create_heartbeat_instance env h key False None None) (\<lambda>i. db_return (Inr i))
         else if hb_expected_mode h = ''auto''
         then db_bind (create_heartbeat_instance env h key True (Some (he_now env)) None) (\<lambda>i.
              db_bind (db_write (record_ping h ''instance_discovered'' (Some key) None ''new''
                (''Heartbeat instance auto-discovered: '' @ key) payload None (he_now env))) (\<lambda>_. db_return (Inr i)))
         else db_return (Inl (not_expected key)))"

definition receive_heartbeat_ping :: "hb_env \<Rightarrow> string \<Rightarrow> pydict \<Rightarrow> ping_reply hbm" where
  "receive_heartbeat_ping env raw_token payload =
     db_bind (db_read (\<lambda>db. Inr (get_heartbeat_by_token env db raw_token))) (\<lambda>found.
     case found of
       None \<Rightarrow> db_return (Refused ''heartbeat_not_found'' ''Heartbeat token was not found or is disabled.'')
     | Some h \<Rightarrow>
         if \<not> hb_tracking h then ping_heartbeat env h payload
         else
           (case extract_heartbeat_instance_key h payload of
              None \<Rightarrow> db_return (Refused ''heartbeat_instance_required''
                (''Heartbeat expects instance tracking. Add '' @ quote @ heartbeat_instance_key_name h @ quote @ '' to the ping JSON.''))
            | Some key \<Rightarrow>
                db_bind (instance_for_ping env h key payload) (\<lambda>r.
                case r of
                  Inl refusal \<Rightarrow> db_return refusal
                | Inr i \<Rightarrow>
                    if \<not> hi_enabled i
                    then db_return (Refused ''heartbeat_instance_disabled'' (''Instance '' @ quote @ key @ quote @ '' is disabled for this heartbeat.''))
                    else ping_instance env h i payload)))"

section \<open>The scheduler\<close>

record overdue_result =
  or_processed :: int
  or_overdue :: int
  or_unchanged :: int
  or_failed :: int
  or_instances_processed :: int
  or_instances_overdue :: int

definition no_results :: overdue_result where
  "no_results = \<lparr>or_processed = 0, or_overdue = 0, or_unchanged = 0, or_failed = 0, or_instances_processed = 0, or_instances_overdue = 0\<rparr>"

text \<open>\<open>try: ... except Exception: result["failed"] += 1\<close>: no transaction, so earlier writes stay.\<close>

definition attempt :: "overdue_result hbm \<Rightarrow> overdue_result \<Rightarrow> overdue_result hbm" where
  "attempt m res db = (case m db of (Inl e, db') \<Rightarrow> (Inr (res\<lparr>or_failed := or_failed res + 1\<rparr>), db') | (Inr r, db') \<Rightarrow> (Inr r, db'))"

definition check_heartbeat :: "hb_env \<Rightarrow> heartbeat_row \<Rightarrow> overdue_result \<Rightarrow> overdue_result hbm" where
  "check_heartbeat env h res =
     (let now = he_now env; res = res\<lparr>or_processed := or_processed res + 1\<rparr> in
      attempt
        (db_bind (db_read (\<lambda>_. heartbeat_is_overdue (he_tz env) now h)) (\<lambda>overdue.
           if overdue
           then db_bind (mark_heartbeat_overdue env h) (\<lambda>_.
             db_return (if hb_status h \<noteq> ''overdue'' then res\<lparr>or_overdue := or_overdue res + 1\<rparr>
                        else res\<lparr>or_unchanged := or_unchanged res + 1\<rparr>))
           else db_bind (db_read (\<lambda>_. compute_next_expected_at (he_tz env) now h)) (\<lambda>next_at.
             db_bind (db_write (patch_heartbeat (hb_id h) (\<lambda>r. r\<lparr>hb_next_expected := Some next_at\<rparr>))) (\<lambda>_.
             db_return (res\<lparr>or_unchanged := or_unchanged res + 1\<rparr>))))) res)"

definition check_instance :: "hb_env \<Rightarrow> instance_row \<times> heartbeat_row \<Rightarrow> overdue_result \<Rightarrow> overdue_result hbm" where
  "check_instance env ih res =
     (let (i, h) = ih; now = he_now env; res = res\<lparr>or_instances_processed := or_instances_processed res + 1\<rparr> in
      attempt
        (db_bind (db_read (\<lambda>_. heartbeat_instance_is_overdue (he_tz env) now h i)) (\<lambda>overdue.
           if overdue
           then db_bind (mark_heartbeat_instance_overdue env i h) (\<lambda>_.
             db_return (if hi_status i \<noteq> ''overdue''
                        then res\<lparr>or_overdue := or_overdue res + 1, or_instances_overdue := or_instances_overdue res + 1\<rparr>
                        else res\<lparr>or_unchanged := or_unchanged res + 1\<rparr>))
           else db_bind (db_read (\<lambda>_. compute_instance_next_expected_at (he_tz env) now h i)) (\<lambda>next_at.
             db_bind (db_write (patch_instance (hi_id i) (\<lambda>r. r\<lparr>hi_next_expected := Some next_at\<rparr>))) (\<lambda>_.
             db_bind (refresh_heartbeat_instance_rollup env h) (\<lambda>_.
             db_return (res\<lparr>or_unchanged := or_unchanged res + 1\<rparr>)))))) res)"

fun for_each :: "('a \<Rightarrow> 'r \<Rightarrow> 'r hbm) \<Rightarrow> 'a list \<Rightarrow> 'r \<Rightarrow> 'r hbm" where
  "for_each step [] res = db_return res"
| "for_each step (x # xs) res = db_bind (step x res) (for_each step xs)"

definition instance_expired :: "hb_env \<Rightarrow> int \<Rightarrow> instance_row \<Rightarrow> bool" where
  "instance_expired env ttl_days i \<longleftrightarrow> hi_auto i \<and> fk_truthy (hi_alert_group i) = None \<and> hi_status i \<noteq> ''overdue''
     \<and> (case hi_last_seen i of Some t \<Rightarrow> t | None \<Rightarrow> (case hi_first_seen i of Some t \<Rightarrow> t | None \<Rightarrow> hi_created_at i))
       < he_now env - ttl_days * day_us"

definition expire_instance :: "hb_env \<Rightarrow> heartbeat_row \<Rightarrow> int \<Rightarrow> instance_row \<Rightarrow> int \<Rightarrow> int hbm" where
  "expire_instance env h ttl_days i expired =
     (if \<not> instance_expired env ttl_days i then db_return expired
      else db_bind (db_write (save_instance (i\<lparr>hi_enabled := False, hi_status := ''paused'', hi_updated_at := he_now env\<rparr>))) (\<lambda>_.
           db_bind (db_write (record_ping h ''instance_expired'' (Some (hi_key i)) (Some ''ok'') ''paused''
             (''Auto-discovered heartbeat instance expired: '' @ hi_key i) [] None (he_now env))) (\<lambda>_.
           db_return (expired + 1))))"

definition expire_heartbeat_instances :: "hb_env \<Rightarrow> heartbeat_row \<Rightarrow> int \<Rightarrow> int hbm" where
  "expire_heartbeat_instances env h expired =
     (case (if hb_tracking h then fk_truthy (hb_ttl_days h) else None) of
        None \<Rightarrow> db_return expired
      | Some ttl_days \<Rightarrow>
          db_bind (db_read (\<lambda>db. Inr (list_heartbeat_instances db (hb_id h) True))) (\<lambda>instances.
          db_bind (for_each (expire_instance env h ttl_days) instances expired) (\<lambda>expired'.
          db_bind (if expired' \<noteq> expired then db_bind (refresh_heartbeat_instance_rollup env h) (\<lambda>_. db_return ()) else db_return ()) (\<lambda>_.
          db_return expired'))))"

definition expire_auto_discovered_instances :: "hb_env \<Rightarrow> int list option \<Rightarrow> int hbm" where
  "expire_auto_discovered_instances env team_ids =
     db_bind (db_read (\<lambda>db. Inr (list_heartbeats db None team_ids None True None False))) (\<lambda>candidates.
       for_each (expire_heartbeat_instances env) candidates 0)"

definition process_overdue_heartbeats :: "hb_env \<Rightarrow> nat \<Rightarrow> int list option \<Rightarrow> overdue_result hbm" where
  "process_overdue_heartbeats env limit team_ids =
     db_bind (db_read (\<lambda>db. Inr (list_due_heartbeat_candidates db (he_now env) limit team_ids))) (\<lambda>candidates.
     db_bind (for_each (check_heartbeat env) candidates no_results) (\<lambda>res.
     db_bind (db_read (\<lambda>db. Inr (list_due_heartbeat_instance_candidates db (he_now env) limit team_ids))) (\<lambda>instances.
     db_bind (for_each (check_instance env) instances res) (\<lambda>res.
     db_bind (expire_auto_discovered_instances env team_ids) (\<lambda>_. db_return res)))))"

section \<open>Pausing and resuming\<close>

definition pause_heartbeat :: "hb_env \<Rightarrow> heartbeat_row \<Rightarrow> heartbeat_row hbm" where
  "pause_heartbeat env h =
     (if hb_status h = ''paused'' then db_return h
      else
        let now = he_now env; before = hb_status h; h = h\<lparr>hb_status := ''paused'', hb_updated_at := now\<rparr> in
        db_bind (db_write (save_heartbeat h)) (\<lambda>_.
        db_bind (if hb_tracking h
                 then db_bind (db_read (\<lambda>db. Inr (list_heartbeat_instances db (hb_id h) True))) (\<lambda>instances.
                   for_each (\<lambda>i _. db_write (save_instance (i\<lparr>hi_status := ''paused'', hi_updated_at := now\<rparr>))) instances ())
                 else db_return ()) (\<lambda>_.
        db_bind (db_write (record_ping h ''paused'' None (Some before) ''paused'' ''Heartbeat paused'' [] None now)) (\<lambda>_.
        db_return h))))"

definition resume_instance :: "hb_env \<Rightarrow> heartbeat_row \<Rightarrow> instance_row \<Rightarrow> unit \<Rightarrow> unit hbm" where
  "resume_instance env h i _ =
     (let i = i\<lparr>hi_status := (if hi_last_seen i \<noteq> None then ''ok'' else ''new'')\<rparr> in
      db_bind (db_read (\<lambda>_. compute_instance_next_expected_at (he_tz env) (he_now env) h i)) (\<lambda>next_at.
      db_write (save_instance (i\<lparr>hi_next_expected := Some next_at, hi_updated_at := he_now env\<rparr>))))"

definition resume_heartbeat :: "hb_env \<Rightarrow> heartbeat_row \<Rightarrow> heartbeat_row hbm" where
  "resume_heartbeat env h =
     (if hb_status h \<noteq> ''paused'' then db_return h
      else
        let now = he_now env; before = hb_status h in
        db_bind (if hb_tracking h
                 then db_bind (db_read (\<lambda>db. Inr (list_heartbeat_instances db (hb_id h) True))) (\<lambda>instances.
                      db_bind (for_each (resume_instance env h) instances ()) (\<lambda>_.
                      refresh_heartbeat_instance_rollup env h))
                 else
                   let h = h\<lparr>hb_status := (if hb_last_seen h \<noteq> None then ''ok'' else ''new'')\<rparr> in
                   db_bind (db_read (\<lambda>_. compute_next_expected_at (he_tz env) now h)) (\<lambda>next_at.
                   let h = h\<lparr>hb_next_expected := Some next_at, hb_updated_at := now\<rparr> in
                   db_bind (db_write (save_heartbeat h)) (\<lambda>_. db_return h))) (\<lambda>h.
        db_bind (db_write (record_ping h ''resumed'' None (Some before) (hb_status h) ''Heartbeat resumed'' [] None now)) (\<lambda>_.
        db_return h)))"

section \<open>Expected instances\<close>

fun desired_keys :: "py list \<Rightarrow> string list \<Rightarrow> string list" where
  "desired_keys [] desired = desired"
| "desired_keys (v # vs) desired =
     (case normalize_heartbeat_instance_key v of
        None \<Rightarrow> desired_keys vs desired
      | Some key \<Rightarrow> desired_keys vs (if key \<in> set desired then desired else desired @ [key]))"

definition enable_instance :: "hb_env \<Rightarrow> heartbeat_row \<Rightarrow> instance_row list \<Rightarrow> string \<Rightarrow> unit \<Rightarrow> unit hbm" where
  "enable_instance env h existing key _ =
     (case find (\<lambda>i. hi_key i = key) (rev existing) of
        Some i \<Rightarrow>
          let i = i\<lparr>hi_enabled := True, hi_auto := False,
                   hi_status := (if hi_status i = ''paused'' then if hi_last_seen i \<noteq> None then ''ok'' else ''new'' else hi_status i)\<rparr> in
          db_bind (db_read (\<lambda>_. compute_instance_next_expected_at (he_tz env) (he_now env) h i)) (\<lambda>next_at.
          db_write (save_instance (i\<lparr>hi_next_expected := Some next_at, hi_updated_at := he_now env\<rparr>)))
      | None \<Rightarrow>
          db_bind (db_read (\<lambda>_. compute_next_expected_at (he_tz env) (he_now env) h)) (\<lambda>next_at.
          db_bind (create_heartbeat_instance env h key False None (Some next_at)) (\<lambda>_. db_return ())))"

definition retire_instance :: "hb_env \<Rightarrow> string list \<Rightarrow> instance_row \<Rightarrow> unit \<Rightarrow> unit hbm" where
  "retire_instance env desired i _ =
     (if hi_key i \<in> set desired \<or> hi_auto i \<or> fk_truthy (hi_alert_group i) \<noteq> None then db_return ()
      else db_write (save_instance (i\<lparr>hi_enabled := False, hi_status := ''paused'', hi_updated_at := he_now env\<rparr>)))"

definition sync_heartbeat_static_instances :: "hb_env \<Rightarrow> heartbeat_row \<Rightarrow> py list \<Rightarrow> unit hbm" where
  "sync_heartbeat_static_instances env h expected_instances =
     (let desired = desired_keys expected_instances [] in
      db_bind (db_read (\<lambda>db. Inr (list_heartbeat_instances db (hb_id h) False))) (\<lambda>existing.
      db_bind (for_each (enable_instance env h existing) desired ()) (\<lambda>_.
      db_bind (if hb_expected_mode h = ''static'' then for_each (retire_instance env desired) existing () else db_return ()) (\<lambda>_.
      db_bind (refresh_heartbeat_instance_rollup env h) (\<lambda>_. db_return ())))))"

section \<open>Commands\<close>

definition get_heartbeat :: "hb_db \<Rightarrow> int \<Rightarrow> heartbeat_row dbr" where
  "get_heartbeat db i = the_row (find (\<lambda>h. hb_id h = i \<and> \<not> hb_deleted h) (hb_rows db))"

text \<open>The commands of the pause and resume endpoints, after authorisation.\<close>

definition pause_command :: "hb_env \<Rightarrow> int \<Rightarrow> heartbeat_row hbm" where
  "pause_command env i = atomic (db_bind (db_read (\<lambda>db. get_heartbeat db i)) (pause_heartbeat env))"

definition resume_command :: "hb_env \<Rightarrow> int \<Rightarrow> heartbeat_row hbm" where
  "resume_command env i = atomic (db_bind (db_read (\<lambda>db. get_heartbeat db i)) (resume_heartbeat env))"

datatype hb_op = Ping string pydict | Pause int | Resume int | Check nat "int list option"

fun hb_op_db :: "hb_env \<Rightarrow> hb_op \<Rightarrow> hb_db \<Rightarrow> hb_db" where
  "hb_op_db env (Ping raw_token payload) db = snd (receive_heartbeat_ping env raw_token payload db)"
| "hb_op_db env (Pause i) db = snd (pause_command env i db)"
| "hb_op_db env (Resume i) db = snd (resume_command env i db)"
| "hb_op_db env (Check limit team_ids) db = snd (process_overdue_heartbeats env limit team_ids db)"

fun run_hb_ops :: "(hb_env \<times> hb_op) list \<Rightarrow> hb_db \<Rightarrow> hb_db" where
  "run_hb_ops [] db = db"
| "run_hb_ops ((env, op) # ops) db = run_hb_ops ops (hb_op_db env op db)"

end
