(* ===== verification/Heartbeat_Steps.thy ===== *)
theory Heartbeat_Steps
  imports Heartbeats
begin

text \<open>
  What the operations on heartbeats leave of the rows they are not about: rules for \<open>wp\<close>, and
  for each operation the ids of the heartbeat rows it may change.
\<close>

section \<open>Rows that stay\<close>

definition rows_of :: "int \<Rightarrow> hb_db \<Rightarrow> heartbeat_row list" where
  "rows_of i db = filter (\<lambda>h. hb_id h = i) (hb_rows db)"

text \<open>A computation leaves the rows with id \<open>i\<close> as they are.\<close>

definition keeps_row :: "int \<Rightarrow> 'a hbm \<Rightarrow> bool" where
  "keeps_row i m \<longleftrightarrow> (\<forall>db. rows_of i (snd (m db)) = rows_of i db)"

named_theorems row_rules \<open>computations that leave the rows of an id\<close>

lemma keeps_row_return [row_rules]: "keeps_row i (db_return x)"
  by (simp add: keeps_row_def db_return_def)

lemma keeps_row_raise [row_rules]: "keeps_row i (db_raise e)"
  by (simp add: keeps_row_def db_raise_def)

lemma keeps_row_read [row_rules]: "keeps_row i (db_read r)"
  by (simp add: keeps_row_def db_read_def)

lemma keeps_row_bind: "keeps_row i m \<Longrightarrow> (\<And>x. keeps_row i (f x)) \<Longrightarrow> keeps_row i (db_bind m f)"
  by (simp add: keeps_row_def db_bind_def split: prod.split sum.split) (metis snd_conv)

lemma keeps_row_if: "(b \<Longrightarrow> keeps_row i m) \<Longrightarrow> (\<not> b \<Longrightarrow> keeps_row i n) \<Longrightarrow> keeps_row i (if b then m else n)"
  by simp

lemma keeps_row_in_alerts [row_rules]: "keeps_row i (in_alerts m)"
  by (simp add: keeps_row_def in_alerts_def rows_of_def split: prod.split)

lemma keeps_row_write: "(\<And>db. rows_of i (w db) = rows_of i db) \<Longrightarrow> keeps_row i (db_write w)"
  by (simp add: keeps_row_def db_write_def)

lemma rows_of_save_other: "hb_id h \<noteq> i \<Longrightarrow> rows_of i (save_heartbeat h db) = rows_of i db"
proof -
  assume ne: "hb_id h \<noteq> i"
  have "filter (\<lambda>h. hb_id h = i) (update_row hb_id h rows) = filter (\<lambda>h. hb_id h = i) rows" for rows
    using ne by (induction rows) (auto simp: update_row_def)
  then show ?thesis
    by (simp add: rows_of_def save_heartbeat_def)
qed

lemma rows_of_patch: "(\<And>h. hb_id (f h) = hb_id h) \<Longrightarrow> rows_of i (patch_heartbeat j f db) = (if i = j then map f (rows_of i db) else rows_of i db)"
proof -
  assume id: "\<And>h. hb_id (f h) = hb_id h"
  have "filter (\<lambda>h. hb_id h = i) (map (\<lambda>h. if hb_id h = j then f h else h) rows)
    = (if i = j then map f (filter (\<lambda>h. hb_id h = i) rows) else filter (\<lambda>h. hb_id h = i) rows)" for rows
    by (induction rows) (auto simp: id)
  then show ?thesis
    by (simp add: rows_of_def patch_heartbeat_def)
qed

lemma keeps_row_save [row_rules]: "hb_id h \<noteq> i \<Longrightarrow> keeps_row i (db_write (save_heartbeat h))"
  by (simp add: keeps_row_write rows_of_save_other)

lemma keeps_row_patch [row_rules]:
  "(\<And>h. hb_id (f h) = hb_id h) \<Longrightarrow> j \<noteq> i \<Longrightarrow> keeps_row i (db_write (patch_heartbeat j f))"
  by (simp add: keeps_row_write rows_of_patch)

lemma keeps_row_tables [row_rules]:
  "keeps_row i (db_write (save_instance x))" "keeps_row i (db_write (patch_instance j f))"
  "keeps_row i (db_write (record_ping h a b c d e p g t))" "keeps_row i (db_write (\<lambda>db. db\<lparr>hi_rows := r db\<rparr>))"
  by (simp_all add: keeps_row_def db_write_def rows_of_def save_instance_def patch_instance_def record_ping_def)

lemma keeps_row_for_each: "(\<And>x res. x \<in> set xs \<Longrightarrow> keeps_row i (step x res)) \<Longrightarrow> keeps_row i (for_each step xs res)"
  by (induction xs arbitrary: res) (auto intro: row_rules keeps_row_bind)

lemma keeps_row_attempt: "keeps_row i m \<Longrightarrow> keeps_row i (attempt m res)"
  by (auto simp: keeps_row_def attempt_def split: prod.split sum.split) (metis snd_conv)+

lemmas row_intros = keeps_row_bind keeps_row_if keeps_row_for_each keeps_row_attempt

lemma keeps_row_case_option: "(v = None \<Longrightarrow> keeps_row i m) \<Longrightarrow> (\<And>x. v = Some x \<Longrightarrow> keeps_row i (n x)) \<Longrightarrow> keeps_row i (case v of None \<Rightarrow> m | Some x \<Rightarrow> n x)"
  by (cases v) simp_all

lemma keeps_row_case_sum: "(\<And>e. v = Inl e \<Longrightarrow> keeps_row i (m e)) \<Longrightarrow> (\<And>x. v = Inr x \<Longrightarrow> keeps_row i (n x)) \<Longrightarrow> keeps_row i (case v of Inl e \<Rightarrow> m e | Inr x \<Rightarrow> n x)"
  by (cases v) simp_all

lemma keeps_row_case_prod: "(\<And>a b. v = (a, b) \<Longrightarrow> keeps_row i (m a b)) \<Longrightarrow> keeps_row i (case v of (a, b) \<Rightarrow> m a b)"
  by (cases v) simp_all

section \<open>The operations\<close>

lemma keeps_row_refresh [row_rules]: "hb_id h \<noteq> i \<or> \<not> hb_tracking h \<or> hb_status h = ''paused'' \<Longrightarrow> keeps_row i (refresh_heartbeat_instance_rollup env h)"
  unfolding refresh_heartbeat_instance_rollup_def Let_def
  by (intro row_intros row_rules) auto

lemma keeps_row_create [row_rules]: "keeps_row i (create_heartbeat_instance env h k a s n)"
  unfolding create_heartbeat_instance_def by (intro row_intros row_rules)

lemma keeps_row_resolve [row_rules]: "keeps_row i (resolve_current_alert env ref t m)"
  unfolding resolve_current_alert_def resolve_heartbeat_alert_def
  by (intro row_intros row_rules keeps_row_case_option)

lemma keeps_row_mark [row_rules]: "hb_id h \<noteq> i \<Longrightarrow> keeps_row i (mark_heartbeat_overdue env h)"
  unfolding mark_heartbeat_overdue_def Let_def
  by (intro row_intros row_rules keeps_row_case_option) simp_all

lemma keeps_row_mark_instance [row_rules]:
  "hb_id h \<noteq> i \<or> \<not> hb_tracking h \<or> hb_status h = ''paused'' \<Longrightarrow> keeps_row i (mark_heartbeat_instance_overdue env x h)"
  unfolding mark_heartbeat_instance_overdue_def Let_def
  by (intro row_intros row_rules keeps_row_case_option)

lemma keeps_row_check [row_rules]: "hb_id h \<noteq> i \<Longrightarrow> keeps_row i (check_heartbeat env h res)"
  unfolding check_heartbeat_def Let_def by (intro row_intros row_rules) simp_all

lemma keeps_row_check_instance [row_rules]:
  "hb_id (snd xh) \<noteq> i \<or> \<not> hb_tracking (snd xh) \<or> hb_status (snd xh) = ''paused'' \<Longrightarrow> keeps_row i (check_instance env xh res)"
  unfolding check_instance_def Let_def by (intro row_intros row_rules keeps_row_case_prod) simp_all

lemma keeps_row_expire [row_rules]:
  "hb_id h \<noteq> i \<or> \<not> hb_tracking h \<or> hb_status h = ''paused'' \<Longrightarrow> keeps_row i (expire_heartbeat_instances env h n)"
  unfolding expire_heartbeat_instances_def expire_instance_def by (intro row_intros row_rules keeps_row_case_option)

text \<open>What is known of the values a computation returns.\<close>

definition returns :: "('a \<Rightarrow> bool) \<Rightarrow> 'a hbm \<Rightarrow> bool" where
  "returns P m \<longleftrightarrow> (\<forall>db x db'. m db = (Inr x, db') \<longrightarrow> P x)"

lemma returns_return: "P x \<Longrightarrow> returns P (db_return x)"
  by (simp add: returns_def db_return_def)

lemma returns_bind: "(\<And>x. returns P (f x)) \<Longrightarrow> returns P (db_bind m f)"
  by (auto simp: returns_def db_bind_def split: prod.splits sum.splits)

lemma keeps_row_bind_returns:
  assumes "keeps_row i m" "returns P m" "\<And>x. P x \<Longrightarrow> keeps_row i (f x)"
  shows "keeps_row i (db_bind m f)"
  unfolding keeps_row_def
proof
  fix db
  obtain r db' where m: "m db = (r, db')"
    by fastforce
  have same: "rows_of i db' = rows_of i db"
    using assms(1) m by (metis keeps_row_def snd_conv)
  show "rows_of i (snd (db_bind m f db)) = rows_of i db"
  proof (cases r)
    case (Inr x)
    then have "P x"
      using assms(2) m by (auto simp: returns_def)
    then show ?thesis
      using assms(3) same m Inr by (simp add: keeps_row_def db_bind_def)
  qed (simp add: db_bind_def m same)
qed

lemma keeps_row_ping [row_rules]: "hb_id h \<noteq> i \<Longrightarrow> keeps_row i (ping_heartbeat env h p)"
  unfolding ping_heartbeat_def resolve_current_overdue_alert_def Let_def
  by (intro keeps_row_bind [of _ "db_read _"] row_rules
        keeps_row_bind_returns [of _ _ "\<lambda>hg. hb_id (fst hg) = hb_id h"] keeps_row_if returns_bind returns_return;
      auto intro!: keeps_row_bind keeps_row_if row_rules returns_bind returns_return)

lemma keeps_row_ping_instance [row_rules]:
  "hb_id h \<noteq> i \<or> \<not> hb_tracking h \<or> hb_status h = ''paused'' \<Longrightarrow> keeps_row i (ping_instance env h x p)"
  unfolding ping_instance_def resolve_current_instance_overdue_alert_def Let_def
  by (intro row_intros row_rules keeps_row_case_prod) simp_all

lemma keeps_row_instance_for_ping [row_rules]: "keeps_row i (instance_for_ping env h k p)"
  unfolding instance_for_ping_def by (intro row_intros row_rules keeps_row_case_option)

lemma keeps_row_pause [row_rules]: "hb_id h \<noteq> i \<or> hb_status h = ''paused'' \<Longrightarrow> keeps_row i (pause_heartbeat env h)"
  unfolding pause_heartbeat_def Let_def by (intro row_intros row_rules) auto

lemma keeps_row_resume [row_rules]: "hb_id h \<noteq> i \<or> hb_tracking h \<Longrightarrow> keeps_row i (resume_heartbeat env h)"
  unfolding resume_heartbeat_def resume_instance_def Let_def by (intro row_intros row_rules) auto

section \<open>Computations from a given state\<close>

definition keeps_at :: "int \<Rightarrow> 'a hbm \<Rightarrow> hb_db \<Rightarrow> bool" where
  "keeps_at i m db \<longleftrightarrow> rows_of i (snd (m db)) = rows_of i db"

lemma keeps_atI: "keeps_row i m \<Longrightarrow> keeps_at i m db"
  by (simp add: keeps_at_def keeps_row_def)

lemma keeps_at_read: "(\<And>x. r db = Inr x \<Longrightarrow> keeps_at i (f x) db) \<Longrightarrow> keeps_at i (db_bind (db_read r) f) db"
  by (cases "r db") (simp_all add: keeps_at_def db_bind_def db_read_def)

lemma keeps_at_bind:
  "keeps_row i m \<Longrightarrow> (\<And>x db'. rows_of i db' = rows_of i db \<Longrightarrow> keeps_at i (f x) db') \<Longrightarrow> keeps_at i (db_bind m f) db"
  by (auto simp: keeps_at_def keeps_row_def db_bind_def split: prod.split sum.split) (metis snd_conv)+

lemma keeps_at_atomic: "keeps_at i m db \<Longrightarrow> keeps_at i (atomic m) db"
  by (auto simp: keeps_at_def atomic_def split: prod.split sum.split)

lemma rows_of_iff: "h \<in> set (rows_of i db) \<longleftrightarrow> h \<in> set (hb_rows db) \<and> hb_id h = i"
  by (auto simp: rows_of_def)

lemma candidate_in: "h \<in> set (list_due_heartbeat_candidates db now limit ts) \<Longrightarrow>
    h \<in> set (hb_rows db) \<and> \<not> hb_deleted h \<and> hb_status h \<noteq> ''paused'' \<and> \<not> hb_tracking h \<and> due_now now (hb_next_expected h)"
  unfolding list_due_heartbeat_candidates_def by (drule in_set_takeD) simp

lemma instance_candidate_in: "(x, h) \<in> set (list_due_heartbeat_instance_candidates db now limit ts) \<Longrightarrow>
    h \<in> set (hb_rows db) \<and> hb_status h \<noteq> ''paused'' \<and> hb_tracking h \<and> \<not> hb_deleted h"
  unfolding list_due_heartbeat_instance_candidates_def by (drule in_set_takeD) auto

text \<open>The second half of a check: instances and expiry leave a row that tracks no instances, or is paused.\<close>

definition check_rest :: "hb_env \<Rightarrow> nat \<Rightarrow> int list option \<Rightarrow> overdue_result \<Rightarrow> overdue_result hbm" where
  "check_rest env limit team_ids res =
     db_bind (db_read (\<lambda>db. Inr (list_due_heartbeat_instance_candidates db (he_now env) limit team_ids))) (\<lambda>instances.
     db_bind (for_each (check_instance env) instances res) (\<lambda>res.
     db_bind (expire_auto_discovered_instances env team_ids) (\<lambda>_. db_return res)))"

lemma process_split:
  "process_overdue_heartbeats env limit team_ids =
     db_bind (db_read (\<lambda>db. Inr (list_due_heartbeat_candidates db (he_now env) limit team_ids))) (\<lambda>candidates.
     db_bind (for_each (check_heartbeat env) candidates no_results) (check_rest env limit team_ids))"
  by (simp add: process_overdue_heartbeats_def check_rest_def [abs_def])

definition calm_row :: "heartbeat_row \<Rightarrow> bool" where
  "calm_row h \<longleftrightarrow> \<not> hb_tracking h \<or> hb_status h = ''paused'' \<or> hb_deleted h"

lemma keeps_at_check_rest:
  assumes "\<forall>h\<in>set (rows_of i db). calm_row h"
  shows "keeps_at i (check_rest env limit ts res) db"
  unfolding check_rest_def
proof (rule keeps_at_read, rule keeps_at_bind)
  fix instances assume x: "Inr (list_due_heartbeat_instance_candidates db (he_now env) limit ts) = (Inr instances :: _ dbr)"
  have "hb_id h \<noteq> i \<or> \<not> hb_tracking h \<or> hb_status h = ''paused''" if "h \<in> set (hb_rows db)" "\<not> hb_deleted h" for h
    using assms that by (auto simp: rows_of_iff calm_row_def)
  then show "keeps_row i (for_each (check_instance env) instances res)"
    using x by (intro keeps_row_for_each keeps_row_check_instance) (auto dest: instance_candidate_in)
  fix res' db' assume same: "rows_of i db' = rows_of i db"
  have "hb_id h \<noteq> i \<or> \<not> hb_tracking h \<or> hb_status h = ''paused''" if "h \<in> set (hb_rows db')" "\<not> hb_deleted h" for h
    using assms that unfolding same [symmetric] by (auto simp: rows_of_iff calm_row_def)
  then have "keeps_at i (expire_auto_discovered_instances env ts) db'"
    unfolding expire_auto_discovered_instances_def list_heartbeats_def Let_def
    by (intro keeps_at_read keeps_atI keeps_row_for_each keeps_row_expire) auto
  then show "keeps_at i (db_bind (expire_auto_discovered_instances env ts) (\<lambda>_. db_return res')) db'"
    by (auto simp: keeps_at_def db_bind_def db_return_def split: prod.split sum.split)
qed

text \<open>A deleted heartbeat, and a paused one that tracks instances, is never changed by these operations.\<close>

definition stuck :: "heartbeat_row \<Rightarrow> bool" where
  "stuck h \<longleftrightarrow> hb_deleted h \<or> hb_tracking h \<and> hb_status h = ''paused''"

lemma stuck_op:
  assumes "\<forall>h\<in>set (rows_of i db). stuck h"
  shows "rows_of i (hb_op_db env op db) = rows_of i db"
proof -
  have row: "hb_id h \<noteq> i \<or> hb_tracking h \<and> hb_status h = ''paused''" if "h \<in> set (hb_rows db)" "\<not> hb_deleted h" for h
    using assms that by (auto simp: rows_of_iff stuck_def)
  have got: "hb_id h \<noteq> i \<or> hb_tracking h \<and> hb_status h = ''paused''" if "get_heartbeat db j = Inr h" for h j
    using that unfolding get_heartbeat_def the_row_def
    by (auto split: option.splits dest!: find_SomeD dest: row)
  have "keeps_at i (receive_heartbeat_ping env tok p) db" for tok p
    unfolding receive_heartbeat_ping_def
  proof (rule keeps_at_read, goal_cases)
    case (1 found)
    then have "hb_id h \<noteq> i \<or> hb_tracking h \<and> hb_status h = ''paused''" if "found = Some h" for h
      using that unfolding get_heartbeat_by_token_def
      by (auto split: if_splits dest!: find_SomeD dest: row)
    then show ?case
      by (intro keeps_atI keeps_row_case_option keeps_row_if keeps_row_bind keeps_row_case_sum row_rules) auto
  qed
  moreover have "keeps_at i (pause_command env j) db" "keeps_at i (resume_command env j) db" for j
    unfolding pause_command_def resume_command_def
    by (intro keeps_at_atomic keeps_at_read keeps_atI row_rules; use got in blast)+
  moreover have "keeps_at i (process_overdue_heartbeats env limit ts) db" for limit ts
    unfolding process_split
  proof (rule keeps_at_read, rule keeps_at_bind)
    fix cs assume x: "Inr (list_due_heartbeat_candidates db (he_now env) limit ts) = (Inr cs :: _ dbr)"
    show "keeps_row i (for_each (check_heartbeat env) cs no_results)"
      using x row by (intro keeps_row_for_each keeps_row_check) (auto dest: candidate_in)
    show "keeps_at i (check_rest env limit ts res) db'" if "rows_of i db' = rows_of i db" for res db'
      by (rule keeps_at_check_rest) (use assms that in \<open>auto simp: stuck_def calm_row_def\<close>)
  qed
  ultimately show ?thesis
    by (cases op) (simp_all add: keeps_at_def)
qed

end
