(* ===== verification/Heartbeat_Cycle.thy ===== *)
theory Heartbeat_Cycle
  imports Heartbeat_Steps
begin

text \<open>
  One run of the scheduler over a heartbeat that tracks no instances: which rows it checks, and
  what the check writes.
\<close>

section \<open>The batch\<close>

definition in_batch :: "hb_env \<Rightarrow> int list option \<Rightarrow> hb_db \<Rightarrow> heartbeat_row \<Rightarrow> bool" where
  "in_batch env team_ids db h \<longleftrightarrow> \<not> hb_deleted h \<and> hb_enabled h \<and> hb_status h \<noteq> ''paused''
     \<and> heartbeat_live (core_db (hb_alerts db)) h \<and> \<not> hb_tracking h \<and> due_now (he_now env) (hb_next_expected h)
     \<and> (case team_ids of None \<Rightarrow> True | Some ts \<Rightarrow> hb_team h \<in> set ts)"

lemma batch_eq: "list_due_heartbeat_candidates db (he_now env) limit ts =
    take limit (sort_key (\<lambda>h. nulls_first (hb_next_expected h) (hb_id h)) (filter (in_batch env ts db) (hb_rows db)))"
  by (simp add: list_due_heartbeat_candidates_def in_batch_def [abs_def])

lemma batch_split:
  assumes row: "rows_of i db = [h]" and hit: "in_batch env ts db h" and limit: "length (hb_rows db) \<le> limit"
  obtains xs ys where "list_due_heartbeat_candidates db (he_now env) limit ts = xs @ h # ys"
    "\<forall>x\<in>set xs \<union> set ys. hb_id x \<noteq> i"
proof -
  let ?batch = "list_due_heartbeat_candidates db (he_now env) limit ts"
  have all: "?batch = sort_key (\<lambda>h. nulls_first (hb_next_expected h) (hb_id h)) (filter (in_batch env ts db) (hb_rows db))"
    unfolding batch_eq using le_trans [OF length_filter_le limit] by simp
  have "h \<in> set (rows_of i db)"
    using row by simp
  then have h: "h \<in> set (hb_rows db)" "hb_id h = i"
    by (simp_all add: rows_of_iff)
  then have "h \<in> set ?batch"
    using hit by (simp add: all)
  then obtain xs ys where split: "?batch = xs @ h # ys"
    by (auto dest: split_list)
  have "length (filter (\<lambda>x. hb_id x = i) ?batch) = length (filter (in_batch env ts db) (rows_of i db))"
    unfolding all filter_sort length_sort rows_of_def by (simp add: conj_commute)
  also have "\<dots> = 1"
    using row hit by simp
  finally have "filter (\<lambda>x. hb_id x = i) xs = []" "filter (\<lambda>x. hb_id x = i) ys = []"
    using h(2) by (simp_all add: split)
  then show ?thesis
    using that [OF split] by (auto simp: filter_empty_conv)
qed

lemma batch_other:
  assumes "rows_of i db = [h]" "\<not> in_batch env ts db h" "x \<in> set (list_due_heartbeat_candidates db (he_now env) limit ts)"
  shows "hb_id x \<noteq> i"
proof
  assume "hb_id x = i"
  then have "x \<in> set (rows_of i db)" "in_batch env ts db x"
    using assms(3) unfolding batch_eq by (auto dest: in_set_takeD simp: rows_of_iff)
  then show False
    using assms(1,2) by simp
qed

section \<open>A run of the scheduler\<close>

lemma check_heartbeat_returns: "\<exists>r db'. check_heartbeat env h res db = (Inr r, db')"
  by (simp add: check_heartbeat_def attempt_def Let_def split: prod.split sum.split)

lemma for_each_returns: "\<exists>r db'. for_each (check_heartbeat env) xs res db = (Inr r, db')"
proof (induction xs arbitrary: res db)
  case (Cons x xs)
  obtain r db' where "check_heartbeat env x res db = (Inr r, db')"
    using check_heartbeat_returns by blast
  then show ?case
    using Cons by (simp add: db_bind_def)
qed (simp add: db_return_def)

lemma for_each_append: "for_each step (xs @ ys) res = db_bind (for_each step xs res) (for_each step ys)"
  by (induction xs arbitrary: res) (auto simp: db_bind_def db_return_def fun_eq_iff split: prod.split sum.split)

text \<open>What a run leaves of a row is what the check of that row leaves of it.\<close>

lemma process_row:
  assumes row: "rows_of i db = [h]" and hit: "in_batch env ts db h" and limit: "length (hb_rows db) \<le> limit"
    and check: "\<And>res db'. rows_of i db' = [h] \<Longrightarrow> P (rows_of i (snd (check_heartbeat env h res db')))"
    and calm: "\<And>rows. P rows \<Longrightarrow> \<forall>x\<in>set rows. calm_row x"
  shows "P (rows_of i (snd (process_overdue_heartbeats env limit ts db)))"
proof -
  obtain xs ys where split: "list_due_heartbeat_candidates db (he_now env) limit ts = xs @ h # ys"
    and others: "\<forall>x\<in>set xs \<union> set ys. hb_id x \<noteq> i"
    using batch_split [OF row hit limit] .
  obtain r1 db1 where one: "for_each (check_heartbeat env) xs no_results db = (Inr r1, db1)"
    using for_each_returns by blast
  obtain r2 db2 where two: "check_heartbeat env h r1 db1 = (Inr r2, db2)"
    using check_heartbeat_returns by blast
  obtain r3 db3 where three: "for_each (check_heartbeat env) ys r2 db2 = (Inr r3, db3)"
    using for_each_returns by blast
  have keep: "keeps_row i (for_each (check_heartbeat env) zs res)" if "set zs \<subseteq> set xs \<union> set ys" for zs res
    using others that by (intro keeps_row_for_each keeps_row_check) blast
  have "rows_of i db1 = [h]"
    using keep [of xs no_results] one row by (auto simp: keeps_row_def dest: spec [of _ db])
  then have "P (rows_of i db2)"
    using check [of db1 r1] two by simp
  moreover have "rows_of i db3 = rows_of i db2"
    using keep [of ys r2] three by (auto simp: keeps_row_def dest: spec [of _ db2])
  ultimately have P: "P (rows_of i db3)"
    by simp
  have "for_each (check_heartbeat env) (xs @ h # ys) no_results db = (Inr r3, db3)"
    by (simp add: for_each_append db_bind_def one two three)
  then have "process_overdue_heartbeats env limit ts db = check_rest env limit ts r3 db3"
    unfolding process_split by (simp add: db_bind_def db_read_def split)
  moreover have "rows_of i (snd (check_rest env limit ts r3 db3)) = rows_of i db3"
    using keeps_at_check_rest [OF calm [OF P], of env limit ts r3] by (simp add: keeps_at_def)
  ultimately show ?thesis
    using P by simp
qed

lemma process_other_row:
  assumes row: "rows_of i db = [h]" and "\<not> in_batch env ts db h" "calm_row h"
  shows "rows_of i (snd (process_overdue_heartbeats env limit ts db)) = [h]"
proof -
  have "keeps_at i (process_overdue_heartbeats env limit ts) db"
    unfolding process_split
  proof (rule keeps_at_read, rule keeps_at_bind)
    fix cs assume "Inr (list_due_heartbeat_candidates db (he_now env) limit ts) = (Inr cs :: _ dbr)"
    then show "keeps_row i (for_each (check_heartbeat env) cs no_results)"
      using batch_other [OF assms(1,2)] by (intro keeps_row_for_each keeps_row_check) blast
    show "keeps_at i (check_rest env limit ts res) db'" if "rows_of i db' = rows_of i db" for res db'
      by (rule keeps_at_check_rest) (use assms that in simp)
  qed
  then show ?thesis
    using row by (simp add: keeps_at_def)
qed

section \<open>Marking\<close>

lemma rows_of_save_same: "rows_of i db = [h] \<Longrightarrow> hb_id h' = i \<Longrightarrow> rows_of i (save_heartbeat h' db) = [h']"
proof -
  assume row: "rows_of i db = [h]" and id: "hb_id h' = i"
  have "filter (\<lambda>h. hb_id h = i) (update_row hb_id h' rows) = map (\<lambda>_. h') (filter (\<lambda>h. hb_id h = i) rows)" for rows
    using id by (induction rows) (auto simp: update_row_def)
  then show ?thesis
    using row by (simp add: rows_of_def save_heartbeat_def)
qed

lemma rows_of_other_tables [simp]:
  "rows_of i (db\<lparr>hb_alerts := a\<rparr>) = rows_of i db" "rows_of i (record_ping h e k b c m p g t db) = rows_of i db"
  by (simp_all add: rows_of_def record_ping_def)

text \<open>What holds of the rows of an id after a computation.\<close>

definition row_ends :: "int \<Rightarrow> (heartbeat_row list \<Rightarrow> bool) \<Rightarrow> 'a hbm \<Rightarrow> hb_db \<Rightarrow> bool" where
  "row_ends i P m db \<longleftrightarrow> P (rows_of i (snd (m db)))"

lemma row_ends_read:
  "P (rows_of i db) \<Longrightarrow> (\<And>x. r db = Inr x \<Longrightarrow> row_ends i P (f x) db) \<Longrightarrow> row_ends i P (db_bind (db_read r) f) db"
  by (cases "r db") (simp_all add: row_ends_def db_bind_def db_read_def)

lemma row_ends_read_Inr: "r db = Inr x \<Longrightarrow> row_ends i P (f x) db \<Longrightarrow> row_ends i P (db_bind (db_read r) f) db"
  by (simp add: row_ends_def db_bind_def db_read_def)

lemma row_ends_write: "row_ends i P (f ()) (w db) \<Longrightarrow> row_ends i P (db_bind (db_write w) f) db"
  by (simp add: row_ends_def db_bind_def db_write_def)

lemma row_ends_alerts:
  "P (rows_of i db) \<Longrightarrow> (\<And>x a. row_ends i P (f x) (db\<lparr>hb_alerts := a\<rparr>)) \<Longrightarrow> row_ends i P (db_bind (in_alerts m) f) db"
  by (simp add: row_ends_def db_bind_def in_alerts_def split: prod.split sum.split)

lemma row_ends_keep: "keeps_row i m \<Longrightarrow> P (rows_of i db) \<Longrightarrow> row_ends i P m db"
  by (simp add: row_ends_def keeps_row_def)

lemma row_ends_last: "row_ends i P m db \<Longrightarrow> (\<And>x. keeps_row i (f x)) \<Longrightarrow> row_ends i P (db_bind m f) db"
  by (cases "m db"; cases "fst (m db)") (auto simp: row_ends_def keeps_row_def db_bind_def)

lemma row_ends_attempt: "row_ends i P m db \<Longrightarrow> row_ends i P (attempt m res) db"
  by (cases "m db"; cases "fst (m db)") (auto simp: row_ends_def attempt_def)

definition overdue_row :: "int \<Rightarrow> int \<Rightarrow> heartbeat_row \<Rightarrow> heartbeat_row" where
  "overdue_row now next_at h = h\<lparr>hb_status := ''overdue'', hb_overdue_since := first_time (hb_overdue_since h) now,
     hb_last_overdue_at := Some now, hb_updated_at := now, hb_next_expected := Some next_at\<rparr>"

text \<open>Whatever the intake of the alert does: the row is stored first.\<close>

lemma mark_row:
  assumes row: "rows_of i db = [h]" and st: "hb_status h \<noteq> ''overdue''"
    and next_at: "\<And>now st t u. compute_next_expected_at (he_tz env) now (h\<lparr>hb_status := st, hb_overdue_since := t, hb_last_overdue_at := u, hb_updated_at := now\<rparr>) = Inr n"
  shows "\<exists>g. rows_of i (snd (mark_heartbeat_overdue env h db)) = [overdue_row (he_now env) n h\<lparr>hb_alert_group := g\<rparr>]"
proof -
  have id: "hb_id h = i"
    using row rows_of_iff [of h i db] by simp
  let ?new = "overdue_row (he_now env) n h"
  let ?P = "\<lambda>rows. \<exists>g. rows = [?new\<lparr>hb_alert_group := g\<rparr>]"
  have new: "?new = h\<lparr>hb_status := ''overdue'', hb_overdue_since := first_time (hb_overdue_since h) (he_now env),
      hb_last_overdue_at := Some (he_now env), hb_updated_at := he_now env, hb_next_expected := Some n\<rparr>"
    by (simp add: overdue_row_def)
  have saved: "rows_of i (save_heartbeat ?new db) = [?new]"
    by (rule rows_of_save_same [OF row]) (simp add: overdue_row_def id)
  have new_id: "hb_id ?new = i"
    by (simp add: overdue_row_def id)
  have P: "?P [?new]"
    by (intro exI [of _ "hb_alert_group h"]) (simp add: overdue_row_def)
  have "row_ends i ?P (mark_heartbeat_overdue env h) db"
    unfolding mark_heartbeat_overdue_def Let_def
    apply (rule row_ends_read_Inr [where x = False], simp add: st)
    apply (simp only: simp_thms st not_True_eq_False if_False)
    apply (simp only: if_True)
    apply (rule row_ends_read_Inr, rule next_at)
    apply (rule row_ends_write)
    apply (fold new)
    apply (rule row_ends_read, simp only: saved P)
    apply (rule row_ends_alerts, simp only: saved P)
    apply (rule row_ends_last)
    subgoal for t grp a
      by (cases grp) (auto simp: saved P P [simplified] new_id rows_of_patch intro!: row_ends_keep row_ends_write row_intros row_rules)
    by (intro row_intros row_rules)
  then show ?thesis
    by (simp add: row_ends_def)
qed

end
