(* ===== verification/Alert_Lifecycle.thy ===== *)
theory Alert_Lifecycle
  imports Alert_Groups
begin

text \<open>
  Correctness of the manual lifecycle of alert groups: an invariant of the tables kept by every
  sequence of operations, the finality of resolved and merged groups, what each action leaves,
  and the effect of merging.
\<close>

section \<open>The invariant\<close>

text \<open>
  The statuses of an alert that recalculation counts: three open ones and \<open>resolved\<close>. Nothing bounds
  the column, and maintenance puts alerts into a status of its own (\<open>maintenance\<close>) that is not
  counted; so the status of an alert is any string here.
\<close>

definition OPEN_STATUSES :: "string set" where
  "OPEN_STATUSES = {''firing'', ''acknowledged'', ''silenced''}"

definition counted :: "string \<Rightarrow> bool" where
  "counted st \<longleftrightarrow> st = ''resolved'' \<or> st \<in> OPEN_STATUSES"

definition all_counted :: "alert_db \<Rightarrow> bool" where
  "all_counted db \<longleftrightarrow> list_all (\<lambda>a. counted (ca_status a)) (ca_rows db)"

text \<open>
  A resolved group has no open alerts; a group with status \<open>merged\<close> points to its target, has no
  active shelf, and has no alerts left, unless one of them is in a status that is not counted.
\<close>

definition group_ok :: "alert_db \<Rightarrow> alert_group_row \<Rightarrow> bool" where
  "group_ok db g \<longleftrightarrow>
     (g_status g = ''resolved'' \<longrightarrow> ag_resolved_at g \<noteq> None
        \<and> (\<forall>a\<in>set (ca_rows db). ca_group a = Some (ag_id g) \<longrightarrow> ca_status a \<notin> OPEN_STATUSES))
   \<and> (g_status g = ''merged'' \<longrightarrow> ag_merged_into g \<noteq> None
        \<and> (\<forall>a\<in>set (ca_rows db). ca_group a = Some (ag_id g) \<longrightarrow> ca_status a \<notin> OPEN_STATUSES)
        \<and> ((\<forall>a\<in>set (ca_rows db). ca_group a \<noteq> Some (ag_id g))
             \<or> (\<exists>a\<in>set (ca_rows db). ca_group a = Some (ag_id g) \<and> \<not> counted (ca_status a)))
        \<and> (\<forall>s\<in>set (sh_rows db). sh_active s \<longrightarrow> sh_group s \<noteq> ag_id g))
   \<and> ag_merged_into g \<noteq> Some 0 \<and> ag_id g \<noteq> 0"

definition shelves_ok :: "shelve_row list \<Rightarrow> bool" where
  "shelves_ok rows \<longleftrightarrow> distinct (map sh_id rows)
     \<and> (\<forall>s\<in>set rows. \<forall>s'\<in>set rows. sh_active s \<longrightarrow> sh_active s' \<longrightarrow> sh_group s = sh_group s' \<longrightarrow> s = s')"

definition alert_wf :: "alert_db \<Rightarrow> bool" where
  "alert_wf db \<longleftrightarrow> distinct (map ag_id (ag_rows db)) \<and> distinct (map ca_id (ca_rows db))
     \<and> (\<forall>g\<in>set (ag_rows db). group_ok db g) \<and> shelves_ok (sh_rows db)"

lemma get_alert_group_iff:
  "distinct (map ag_id (ag_rows db)) \<Longrightarrow> get_alert_group db i = Inr g \<longleftrightarrow> g \<in> set (ag_rows db) \<and> ag_id g = i"
  unfolding get_alert_group_def the_row_Inr by (rule find_key_Some')

lemma get_alert_group_Inr: "alert_wf db \<Longrightarrow> get_alert_group db i = Inr g \<longleftrightarrow> g \<in> set (ag_rows db) \<and> ag_id g = i"
  by (simp add: alert_wf_def get_alert_group_iff)

text \<open>What \<open>alert_wf\<close> and a group see of the tables.\<close>

lemma group_ok_cong:
  "ca_rows db' = ca_rows db \<Longrightarrow> sh_rows db' = sh_rows db \<Longrightarrow> group_ok db' g = group_ok db g"
  by (simp add: group_ok_def)

lemma alert_wf_cong:
  "ag_rows db' = ag_rows db \<Longrightarrow> ca_rows db' = ca_rows db \<Longrightarrow> sh_rows db' = sh_rows db \<Longrightarrow> alert_wf db' = alert_wf db"
  by (simp add: alert_wf_def group_ok_cong [of db' db])

lemma save_group_fields [simp]:
  "core_db (save_group g db) = core_db db" "ca_rows (save_group g db) = ca_rows db"
  "sh_rows (save_group g db) = sh_rows db" "mg_rows (save_group g db) = mg_rows db"
  "er_rows (save_group g db) = er_rows db" "dr_rows (save_group g db) = dr_rows db"
  "ag_rows (save_group g db) = update_row ag_id g (ag_rows db)"
  by (simp_all add: save_group_def)

lemma create_alert_event_row_fields [simp]:
  "core_db (create_alert_event_row a t m u g db) = core_db db" "ag_rows (create_alert_event_row a t m u g db) = ag_rows db"
  "ca_rows (create_alert_event_row a t m u g db) = ca_rows db" "sh_rows (create_alert_event_row a t m u g db) = sh_rows db"
  "mg_rows (create_alert_event_row a t m u g db) = mg_rows db" "dr_rows (create_alert_event_row a t m u g db) = dr_rows db"
  by (simp_all add: create_alert_event_row_def)

lemma cancel_deliveries_fields [simp]:
  "core_db (cancel_pending_group_deliveries i T r db) = core_db db" "ag_rows (cancel_pending_group_deliveries i T r db) = ag_rows db"
  "ca_rows (cancel_pending_group_deliveries i T r db) = ca_rows db" "sh_rows (cancel_pending_group_deliveries i T r db) = sh_rows db"
  "mg_rows (cancel_pending_group_deliveries i T r db) = mg_rows db" "er_rows (cancel_pending_group_deliveries i T r db) = er_rows db"
  by (simp_all add: cancel_pending_group_deliveries_def)

lemma wf_frame [simp]:
  "alert_wf (create_alert_event_row a t m u g db) = alert_wf db" "alert_wf (cancel_pending_group_deliveries i T r db) = alert_wf db"
  "alert_wf (db\<lparr>core_db := c\<rparr>) = alert_wf db" "alert_wf (db\<lparr>mg_rows := ms\<rparr>) = alert_wf db"
  by (rule alert_wf_cong; simp)+

lemma ids_update_row [simp]: "map key (update_row key r rows) = map key rows"
  by (simp add: update_row_def)

lemma set_update_row_subset: "set (update_row key r rows) \<subseteq> insert r (set rows)"
  by (auto simp: update_row_def)

lemma set_update_rowD: "x \<in> set (update_row key r rows) \<Longrightarrow> x = r \<or> x \<in> set rows \<and> key x \<noteq> key r"
  by (auto simp: update_row_def)

lemma wf_save_group: "alert_wf db \<Longrightarrow> group_ok db g \<Longrightarrow> alert_wf (save_group g db)"
  using set_update_row_subset [of ag_id g "ag_rows db"]
  by (auto simp: alert_wf_def group_ok_cong [of "save_group g db" db])

text \<open>A row that differs only in notification and escalation columns.\<close>

definition same_state :: "alert_group_row \<Rightarrow> alert_group_row \<Rightarrow> bool" where
  "same_state g g' \<longleftrightarrow> ag_id g' = ag_id g \<and> g_status g' = g_status g \<and> ag_merged_into g' = ag_merged_into g
     \<and> ag_resolved_at g' = ag_resolved_at g"

lemma same_state_ok: "same_state g g' \<Longrightarrow> group_ok db g' = group_ok db g"
  by (simp add: same_state_def group_ok_def)

lemma same_state_refl [simp]: "same_state g g"
  by (simp add: same_state_def)

lemma same_state_trans: "same_state g g' \<Longrightarrow> same_state g' g'' \<Longrightarrow> same_state g g''"
  by (simp add: same_state_def)

lemma same_state_clear [simp]: "same_state g (clear_alert_group_notification now g)"
  "same_state g (g\<lparr>g_next_escalation_at := n\<rparr>)" "same_state g (schedule_alert_group_notification now due r g)"
  "same_state g (quiet_group now g)"
  by (simp_all add: same_state_def clear_alert_group_notification_def schedule_alert_group_notification_def
      quiet_group_def Let_def)

lemma clear_notification_fields [simp]:
  "ag_id (clear_alert_group_notification now g) = ag_id g" "g_status (clear_alert_group_notification now g) = g_status g"
  "ag_merged_into (clear_alert_group_notification now g) = ag_merged_into g"
  "ag_resolved_at (clear_alert_group_notification now g) = ag_resolved_at g"
  by (simp_all add: clear_alert_group_notification_def)

section \<open>Operations that leave the state of groups alone\<close>

lemma lifecycle_truncate [simp]:
  "ag_id (alert_group.extend g0 (alert_group.more g)) = ag_id g"
  "ag_merged_into (alert_group.extend g0 (alert_group.more g)) = ag_merged_into g"
  "ag_resolved_at (alert_group.extend g0 (alert_group.more g)) = ag_resolved_at g"
  "g_status (alert_group.extend g0 (alert_group.more g)) = g_status g0"
  "g_status (alert_group.truncate g) = g_status g"
  by (cases g, simp add: alert_group.defs)+

lemma pause_resume_status:
  "g_status (fst (fst (pause_notification_lifecycle now s))) = g_status (fst s)"
  "g_status (fst (fst (resume_notification_lifecycle w now s))) = g_status (fst s)"
  by (auto simp: pause_notification_lifecycle_def resume_notification_lifecycle_def Escalation.create_alert_event_def Let_def)

lemma fold_events_fields:
  "ag_rows (fold (\<lambda>(ty, msg). create_alert_event_row None ty msg None i) evs db) = ag_rows db"
  "ca_rows (fold (\<lambda>(ty, msg). create_alert_event_row None ty msg None i) evs db) = ca_rows db"
  "sh_rows (fold (\<lambda>(ty, msg). create_alert_event_row None ty msg None i) evs db) = sh_rows db"
  "mg_rows (fold (\<lambda>(ty, msg). create_alert_event_row None ty msg None i) evs db) = mg_rows db"
  "dr_rows (fold (\<lambda>(ty, msg). create_alert_event_row None ty msg None i) evs db) = dr_rows db"
  "core_db (fold (\<lambda>(ty, msg). create_alert_event_row None ty msg None i) evs db) = core_db db"
  by (induction evs arbitrary: db) auto

text \<open>What a step that saves one row, with its state as it was, and adds events leaves.\<close>

definition gentle :: "alert_group_row \<Rightarrow> alert_db \<Rightarrow> alert_group_row \<times> alert_db \<Rightarrow> bool" where
  "gentle g db r \<longleftrightarrow> same_state g (fst r) \<and> ca_rows (snd r) = ca_rows db \<and> sh_rows (snd r) = sh_rows db
     \<and> core_db (snd r) = core_db db \<and> mg_rows (snd r) = mg_rows db
     \<and> ag_rows (snd r) = update_row ag_id (fst r) (ag_rows db)"

lemma update_row_twice [simp]: "key r' = key r \<Longrightarrow> update_row key r (update_row key r' rows) = update_row key r rows"
  by (simp add: update_row_def)

lemma gentle_save [intro]: "same_state g g' \<Longrightarrow> gentle g db (g', save_group g' db)"
  by (simp add: gentle_def)

lemma gentle_trans: "gentle g db (g', db') \<Longrightarrow> gentle g' db' r \<Longrightarrow> gentle g db r"
  by (auto simp: gentle_def same_state_def)

lemma gentle_lift:
  assumes "\<And>s. g_status (fst (fst (f s))) = g_status (fst s)"
  shows "gentle g db (lift_lifecycle f g db)"
proof -
  obtain g0 evs b where f: "f (alert_group.truncate g, []) = ((g0, evs), b)"
    by (metis prod.exhaust)
  then have "g_status g0 = g_status g"
    using assms [of "(alert_group.truncate g, [])"] by simp
  then show ?thesis
    by (simp add: lift_lifecycle_def f gentle_def same_state_def fold_events_fields Let_def)
qed

lemma gentle_schedule: "gentle g db (schedule_group_notification env reason g db)"
proof -
  let ?w = "al_world env (ag_id g)" and ?now = "al_now env"
  obtain g' db' where r: "lift_lifecycle (resume_notification_lifecycle ?w ?now) g db = (g', db')"
    by (metis prod.exhaust)
  have lifted: "gentle g db (lift_lifecycle (pause_notification_lifecycle ?now) g db)" "gentle g db (g', db')"
    using gentle_lift [of "resume_notification_lifecycle ?w ?now" g db] gentle_lift [of "pause_notification_lifecycle ?now" g db]
    by (simp_all add: r pause_resume_status)
  have "gentle g' db' (clear_alert_group_notification ?now g', save_group (clear_alert_group_notification ?now g') db')"
    "gentle g' db' (schedule_alert_group_notification ?now due reason g', save_group (schedule_alert_group_notification ?now due reason g') db')" for due
    by (intro gentle_save same_state_clear)+
  note after = this [THEN gentle_trans [OF lifted(2)]]
  have "same_state g ((clear_alert_group_notification ?now g)\<lparr>g_next_escalation_at := None\<rparr>)"
    by (rule same_state_trans [OF same_state_clear(1,2)])
  then show ?thesis
    unfolding schedule_group_notification_def Let_def using lifted(1) after by (simp add: r gentle_save)
qed

lemma gentle_restart:
  "restart_after_unshelve env g db = (g, db) \<or> gentle g db (restart_after_unshelve env g db)"
  by (auto simp: restart_after_unshelve_def Let_def same_state_def
      intro!: gentle_trans [OF gentle_save gentle_schedule])

lemma gentle_quiet: "gentle g db (cancel_shelved_notification_work env g db)"
  by (simp add: cancel_shelved_notification_work_def gentle_def Let_def)

lemma wf_gentle:
  assumes "gentle g db r" "alert_wf db" "g \<in> set (ag_rows db)"
  shows "alert_wf (snd r)"
proof -
  have "group_ok db (fst r)"
    using assms same_state_ok [of g "fst r" db] by (auto simp: gentle_def alert_wf_def)
  then have "alert_wf (save_group (fst r) db)"
    using assms(2) by (rule wf_save_group [rotated])
  then show ?thesis
    using assms(1) alert_wf_cong [of "snd r" "save_group (fst r) db"] by (simp add: gentle_def)
qed

section \<open>Operations as steps\<close>

text \<open>
  The changes of state there are. The columns of notifications and escalation, events, deliveries
  and the audit log may change in any of them. \<open>M\<close> holds the targets of merges.
\<close>

definition resolve_alerts :: "int \<Rightarrow> int \<Rightarrow> alert_row list \<Rightarrow> alert_row list" where
  "resolve_alerts now i rows = map (\<lambda>a. if ca_group a = Some i \<and> ca_status a \<noteq> ''resolved''
     then a\<lparr>ca_status := ''resolved'', ca_resolved_at := Some now\<rparr> else a) rows"

definition only_closes :: "(shelve_row \<Rightarrow> shelve_row) \<Rightarrow> bool" where
  "only_closes f \<longleftrightarrow> (\<forall>s. f s = s \<or> (\<not> sh_active (f s) \<and> sh_id (f s) = sh_id s \<and> sh_group (f s) = sh_group s))"

inductive lstep :: "int set \<Rightarrow> alert_db \<Rightarrow> alert_db \<Rightarrow> bool" for M where
  other: "ag_rows db' = ag_rows db \<Longrightarrow> ca_rows db' = ca_rows db \<Longrightarrow> sh_rows db' = sh_rows db \<Longrightarrow> lstep M db db'"
| touched: "g \<in> set (ag_rows db) \<Longrightarrow> same_state g g' \<Longrightarrow> ag_rows db' = update_row ag_id g' (ag_rows db)
    \<Longrightarrow> ca_rows db' = ca_rows db \<Longrightarrow> sh_rows db' = sh_rows db \<Longrightarrow> lstep M db db'"
| acked: "g \<in> set (ag_rows db) \<Longrightarrow> \<not> group_closed g \<Longrightarrow> same_state g (g'\<lparr>g_status := g_status g\<rparr>)
    \<Longrightarrow> g_status g' = ''acknowledged'' \<Longrightarrow> ag_rows db' = update_row ag_id g' (ag_rows db)
    \<Longrightarrow> ca_rows db' = ca_rows db \<Longrightarrow> sh_rows db' = sh_rows db \<Longrightarrow> lstep M db db'"
| resolved: "g \<in> set (ag_rows db) \<Longrightarrow> \<not> group_closed g \<Longrightarrow> ag_id g' = ag_id g \<Longrightarrow> ag_merged_into g' = ag_merged_into g
    \<Longrightarrow> g_status g' = ''resolved'' \<Longrightarrow> ag_resolved_at g' = Some now \<Longrightarrow> ag_rows db' = update_row ag_id g' (ag_rows db)
    \<Longrightarrow> ca_rows db' = resolve_alerts now (ag_id g) (ca_rows db) \<Longrightarrow> sh_rows db' = sh_rows db \<Longrightarrow> lstep M db db'"
| shelf_closed: "only_closes f \<Longrightarrow> ag_rows db' = ag_rows db \<Longrightarrow> ca_rows db' = ca_rows db
    \<Longrightarrow> sh_rows db' = map f (sh_rows db) \<Longrightarrow> lstep M db db'"
| shelved: "g \<in> set (ag_rows db) \<Longrightarrow> g_status g \<noteq> ''resolved'' \<Longrightarrow> fk_truthy (ag_merged_into g) = None
    \<Longrightarrow> \<forall>s\<in>set (sh_rows db). sh_active s \<longrightarrow> sh_group s \<noteq> ag_id g
    \<Longrightarrow> sh_group s = ag_id g \<Longrightarrow> sh_id s \<notin> sh_id ` set (sh_rows db) \<Longrightarrow> sh_rows db' = sh_rows db @ [s]
    \<Longrightarrow> same_state g g' \<Longrightarrow> ag_rows db' = update_row ag_id g' (ag_rows db) \<Longrightarrow> ca_rows db' = ca_rows db \<Longrightarrow> lstep M db db'"
| merged: "tgt \<in> set (ag_rows db) \<Longrightarrow> ag_id tgt \<in> M \<Longrightarrow> merge_sources env tgt u reason ids db = (Inr (), db1)
    \<Longrightarrow> db2 = snd (recalculate_alert_group now tgt db1) \<Longrightarrow> ag_rows db' = ag_rows db2
    \<Longrightarrow> ca_rows db' = ca_rows db2 \<Longrightarrow> sh_rows db' = sh_rows db2 \<Longrightarrow> lstep M db db'"

abbreviation lsteps :: "int set \<Rightarrow> alert_db \<Rightarrow> alert_db \<Rightarrow> bool" where
  "lsteps M \<equiv> (lstep M)\<^sup>*\<^sup>*"

lemmas one_step =
  r_into_rtranclp [where r = "lstep M" for M, OF lstep.other]
  r_into_rtranclp [where r = "lstep M" for M, OF lstep.touched]
  r_into_rtranclp [where r = "lstep M" for M, OF lstep.acked]
  r_into_rtranclp [where r = "lstep M" for M, OF lstep.resolved]
  r_into_rtranclp [where r = "lstep M" for M, OF lstep.shelf_closed]
  r_into_rtranclp [where r = "lstep M" for M, OF lstep.shelved]
  r_into_rtranclp [where r = "lstep M" for M, OF lstep.merged]

lemma wp_in_core [wp_simps]: "wp (in_core m) Q db \<longleftrightarrow> Q (fst (m (core_db db))) (db\<lparr>core_db := snd (m (core_db db))\<rparr>)"
  by (simp add: wp_def in_core_def split: prod.splits)

lemma wp_fn [wp_simps]: "wp (\<lambda>db. let (x, db') = f db in (Inr (h x), db')) Q db \<longleftrightarrow> Q (Inr (h (fst (f db)))) (snd (f db))"
  by (simp add: wp_def split: prod.splits)

lemma wp_fn' [wp_simps]: "wp (\<lambda>db. case f db of (x, db') \<Rightarrow> (Inr (h x), db')) Q db \<longleftrightarrow> Q (Inr (h (fst (f db)))) (snd (f db))"
  by (simp add: wp_def split: prod.splits)

lemma wp_det [wp_simps]: "wp (\<lambda>db. (Inr (h db), k db)) Q db \<longleftrightarrow> Q (Inr (h db)) (k db)"
  by (simp add: wp_def)

lemma wp_group_audit:
  "(\<And>r c. Q r (db\<lparr>core_db := c\<rparr>)) \<Longrightarrow> wp (group_audit env g action u tok data) Q db"
  by (simp add: group_audit_def wp_in_core)

lemma wp_audit:
  "(\<And>r c. Q r (db\<lparr>core_db := c\<rparr>)) \<Longrightarrow> wp (audit_lifecycle_change env g action u src tok) Q db"
  by (simp add: audit_lifecycle_change_def wp_group_audit)

lemma cancel_ack_cases:
  "cancel_acknowledged_notification_work env g db =
     (let g' = (if g_notification_pending g then clear_alert_group_notification (al_now env) g else g)
      in (Inr g', cancel_pending_group_deliveries (ag_id g) ACK_CANCELLED_DELIVERY_EVENT_TYPES ''alert_acknowledged''
                    (if g_notification_pending g then save_group g' db else db)))"
  by (simp add: cancel_acknowledged_notification_work_def db_bind_def db_write_def db_return_def Let_def)

lemma wp_cancel_ack [wp_simps]:
  "wp (cancel_acknowledged_notification_work env g) Q db \<longleftrightarrow>
     Q (fst (cancel_acknowledged_notification_work env g db)) (snd (cancel_acknowledged_notification_work env g db))"
  by (simp add: wp_def)

lemma row_in: "alert_wf db \<Longrightarrow> get_alert_group db i = Inr g \<Longrightarrow> g \<in> set (ag_rows db)"
  by (simp add: get_alert_group_Inr)

lemma only_closes_if [simp]: "only_closes (\<lambda>s. if P s then close_shelf env u r s else s)"
  by (simp add: only_closes_def close_shelf_def)

section \<open>Steps keep the invariant\<close>

lemma only_closesD: "only_closes f \<Longrightarrow> sh_active (f s) \<Longrightarrow> f s = s" "only_closes f \<Longrightarrow> sh_id (f s) = sh_id s"
  "only_closes f \<Longrightarrow> sh_group (f s) = sh_group s"
  by (auto simp: only_closes_def dest: spec [where x = s])

lemma only_closes_active: "only_closes f \<Longrightarrow> sh_active (f s) \<Longrightarrow> sh_active s"
  by (metis only_closesD(1))

lemma shelves_ok_close:
  assumes f: "only_closes f" and ok: "shelves_ok rows"
  shows "shelves_ok (map f rows)"
proof -
  have "f s = f s'" if "s \<in> set rows" "s' \<in> set rows" "sh_active (f s)" "sh_active (f s')" "sh_group (f s) = sh_group (f s')" for s s'
    using ok that(1,2) only_closes_active [OF f that(3)] only_closes_active [OF f that(4)] that(5)
    by (auto simp: shelves_ok_def only_closesD(3) [OF f])
  moreover have "map sh_id (map f rows) = map sh_id rows"
    by (simp add: only_closesD(2) [OF f])
  ultimately show ?thesis
    using ok unfolding shelves_ok_def by (metis (no_types, lifting) image_iff set_map)
qed

lemma group_ok_close:
  assumes "only_closes f" "ca_rows db' = ca_rows db" "sh_rows db' = map f (sh_rows db)" "group_ok db g"
  shows "group_ok db' g"
  using assms only_closes_active [OF assms(1)] by (auto simp: group_ok_def only_closesD(3) [OF assms(1)])

lemma resolve_alerts_ids [simp]: "map ca_id (resolve_alerts now i rows) = map ca_id rows"
  by (simp add: resolve_alerts_def)

lemma resolve_alertsE:
  assumes "a \<in> set (resolve_alerts now i rows)"
  obtains b where "b \<in> set rows" "ca_group a = ca_group b" "ca_status a = ca_status b \<or> ca_status a = ''resolved''"
    "ca_group a = Some i \<Longrightarrow> ca_status a = ''resolved''"
  using assms by (auto simp: resolve_alerts_def split: if_splits)

lemma resolve_alerts_other:
  "ca_group a = Some j \<Longrightarrow> j \<noteq> i \<Longrightarrow> a \<in> set (resolve_alerts now i rows) \<longleftrightarrow> a \<in> set rows"
  by (force simp: resolve_alerts_def image_iff)

lemma group_ok_other:
  assumes alerts: "\<And>a. ca_group a = Some (ag_id g) \<Longrightarrow> a \<in> set (ca_rows db') \<longleftrightarrow> a \<in> set (ca_rows db)"
    and shelves: "\<forall>s\<in>set (sh_rows db'). sh_active s \<longrightarrow> s \<in> set (sh_rows db)" and ok: "group_ok db g"
  shows "group_ok db' g"
proof -
  have all: "(\<forall>a\<in>set (ca_rows db'). ca_group a = Some (ag_id g) \<longrightarrow> Q a) \<longleftrightarrow> (\<forall>a\<in>set (ca_rows db). ca_group a = Some (ag_id g) \<longrightarrow> Q a)" for Q
    using alerts by blast
  have ex: "(\<exists>a\<in>set (ca_rows db'). ca_group a = Some (ag_id g) \<and> Q a) \<longleftrightarrow> (\<exists>a\<in>set (ca_rows db). ca_group a = Some (ag_id g) \<and> Q a)" for Q
    using alerts by blast
  have none: "(\<forall>a\<in>set (ca_rows db'). ca_group a \<noteq> Some (ag_id g)) \<longleftrightarrow> (\<forall>a\<in>set (ca_rows db). ca_group a \<noteq> Some (ag_id g))"
    using alerts by blast
  have sh: "\<forall>s\<in>set (sh_rows db'). sh_active s \<longrightarrow> sh_group s \<noteq> ag_id g" if "\<forall>s\<in>set (sh_rows db). sh_active s \<longrightarrow> sh_group s \<noteq> ag_id g"
    using shelves that by blast
  show ?thesis
    using ok sh unfolding group_ok_def all ex none by argo
qed

lemma group_ok_resolve:
  assumes "ca_rows db' = resolve_alerts now i (ca_rows db)" "sh_rows db' = sh_rows db" "group_ok db g" "ag_id g \<noteq> i"
  shows "group_ok db' g"
  by (rule group_ok_other [OF _ _ assms(3)]) (simp_all add: assms resolve_alerts_other)

text \<open>The tables while sources are merged into a group that is recalculated last.\<close>

definition merging :: "alert_group_row \<Rightarrow> alert_db \<Rightarrow> bool" where
  "merging tgt db \<longleftrightarrow> distinct (map ag_id (ag_rows db)) \<and> distinct (map ca_id (ca_rows db))
     \<and> shelves_ok (sh_rows db)
     \<and> tgt \<in> set (ag_rows db) \<and> ag_merged_into tgt \<noteq> Some 0 \<and> ag_id tgt \<noteq> 0
     \<and> (g_status tgt = ''resolved'' \<longrightarrow> ag_resolved_at tgt \<noteq> None)
     \<and> (g_status tgt = ''merged'' \<longrightarrow> ag_merged_into tgt \<noteq> None
          \<and> (\<forall>s\<in>set (sh_rows db). sh_active s \<longrightarrow> sh_group s \<noteq> ag_id tgt))
     \<and> (\<forall>g\<in>set (ag_rows db). ag_id g \<noteq> ag_id tgt \<longrightarrow> group_ok db g)"

lemma merging_start: "alert_wf db \<Longrightarrow> tgt \<in> set (ag_rows db) \<Longrightarrow> merging tgt db"
  by (auto simp: merging_def alert_wf_def group_ok_def)

text \<open>One source: its alerts move, its row points to the target, its shelf closes.\<close>

lemma merge_source_Inr:
  assumes "merge_source env tgt u reason i db = (Inr (), db')" "i \<noteq> ag_id tgt"
  obtains src src' where "get_alert_group db i = Inr src"
    "ag_id src' = ag_id src" "g_status src' = ''merged''" "ag_merged_into src' = Some (ag_id tgt)"
    "ag_rows db' = update_row ag_id src' (ag_rows db)"
    "ca_rows db' = map (\<lambda>a. if ca_group a = Some (ag_id src)
        then a\<lparr>ca_group := Some (ag_id tgt), ca_group_key := ag_group_key tgt\<rparr> else a) (ca_rows db)"
    "sh_rows db' = map (\<lambda>s. if sh_group s = ag_id src \<and> sh_active s then close_shelf env u ''alert_group_merged'' s else s) (sh_rows db)"
proof -
  obtain src where src: "get_alert_group db i = Inr src"
    using assms by (auto simp: merge_source_def db_bind_def db_read_def split: sum.splits)
  show ?thesis
    using assms src
    by (intro that [OF src, where src' = "src\<lparr>ag_previous_status := Some (g_status src), g_status := ''merged'',
          ag_merged_into := Some (ag_id tgt), ag_merged_by := u, ag_merged_at := Some (al_now env),
          ag_merge_reason := reason, g_updated_at := al_now env\<rparr>"])
      (auto simp: merge_source_def db_bind_def db_read_def db_write_def Let_def)
qed

lemma merging_source:
  assumes "merge_source env tgt u reason i db = (Inr (), db')" "merging tgt db"
  shows "merging tgt db'"
proof (cases "i = ag_id tgt")
  case True
  then show ?thesis
    using assms by (simp add: merge_source_def db_return_def)
next
  case False
  from merge_source_Inr [OF assms(1) this] obtain src src' where src: "get_alert_group db i = Inr src"
    and src': "ag_id src' = ag_id src" "g_status src' = ''merged''" "ag_merged_into src' = Some (ag_id tgt)"
    and rows: "ag_rows db' = update_row ag_id src' (ag_rows db)"
    and alerts: "ca_rows db' = map (\<lambda>a. if ca_group a = Some (ag_id src)
        then a\<lparr>ca_group := Some (ag_id tgt), ca_group_key := ag_group_key tgt\<rparr> else a) (ca_rows db)"
    and shelves: "sh_rows db' = map (\<lambda>s. if sh_group s = ag_id src \<and> sh_active s then close_shelf env u ''alert_group_merged'' s else s) (sh_rows db)"
    by blast
  have m: "distinct (map ag_id (ag_rows db))"
    using assms(2) by (simp add: merging_def)
  have id: "ag_id src = i" "src \<in> set (ag_rows db)"
    using src get_alert_group_iff [OF m] by auto
  have ids: "map ca_id (ca_rows db') = map ca_id (ca_rows db)"
    by (simp add: alerts)
  have new: "group_ok db' src'"
    using assms(2) False id by (auto simp: group_ok_def src' alerts shelves merging_def close_shelf_def)
  have same: "a \<in> set (ca_rows db') \<longleftrightarrow> a \<in> set (ca_rows db)" if "ca_group a = Some j" "j \<noteq> ag_id src" "j \<noteq> ag_id tgt" for a j
    using that by (auto simp: alerts image_iff)
  have open_: "\<forall>s\<in>set (sh_rows db'). sh_active s \<longrightarrow> s \<in> set (sh_rows db)"
    by (auto simp: shelves close_shelf_def)
  have old: "group_ok db' g" if "g \<in> set (ag_rows db)" "ag_id g \<noteq> ag_id tgt" "ag_id g \<noteq> ag_id src" for g
    by (rule group_ok_other [OF same open_]) (use assms(2) that in \<open>simp_all add: merging_def\<close>)
  have "tgt \<in> set (ag_rows db')"
    using assms(2) False id src'(1) by (auto simp: merging_def rows update_row_def image_iff)
  moreover have "\<forall>g\<in>set (ag_rows db'). ag_id g \<noteq> ag_id tgt \<longrightarrow> group_ok db' g"
    using new old src'(1) by (auto simp: rows update_row_def)
  moreover have "shelves_ok (sh_rows db')"
    using assms(2) shelves_ok_close [OF only_closes_if] by (simp add: merging_def shelves)
  ultimately show ?thesis
    using assms(2) ids open_ by (auto simp: merging_def rows)
qed

lemma merging_sources: "merge_sources env tgt u reason ids db = (Inr (), db') \<Longrightarrow> merging tgt db \<Longrightarrow> merging tgt db'"
proof (induction ids arbitrary: db)
  case (Cons i ids)
  obtain db1 where "merge_source env tgt u reason i db = (Inr (), db1)" "merge_sources env tgt u reason ids db1 = (Inr (), db')"
    using Cons.prems(1) by (auto simp: db_bind_def split: prod.splits sum.splits)
  then show ?case
    using Cons.IH Cons.prems(2) merging_source by blast
qed (simp add: db_return_def)

section \<open>Recalculation\<close>

lemma set_group_alerts [simp]: "set (group_alerts db i) = {a \<in> set (ca_rows db). ca_group a = Some i}"
  by (auto simp: group_alerts_def)

lemma count_status_pos: "0 < count_status st alerts \<longleftrightarrow> (\<exists>a\<in>set alerts. ca_status a = st)"
  by (auto simp: count_status_def filter_empty_conv)

lemma count_status_all: "count_status st alerts = int (length alerts) \<longleftrightarrow> (\<forall>a\<in>set alerts. ca_status a = st)"
  using sum_length_filter_compl [of "\<lambda>a. ca_status a = st" alerts] by (auto simp: count_status_def filter_empty_conv)

text \<open>The status of a group as a function of the set of its alerts' statuses.\<close>

lemma effective_status_eq:
  assumes "alerts \<noteq> []"
  shows "effective_status st alerts =
    (let S = ca_status ` set alerts
     in if S = {''resolved''} then ''resolved''
        else if ''firing'' \<in> S then (if st = ''acknowledged'' then ''acknowledged'' else ''firing'')
        else if ''silenced'' \<in> S then ''silenced''
        else if ''acknowledged'' \<in> S then ''acknowledged'' else st)"
proof -
  let ?S = "ca_status ` set alerts"
  have resolved: "(\<forall>a\<in>set alerts. ca_status a = ''resolved'') \<longleftrightarrow> ?S = {''resolved''}"
    using assms(1) by (cases alerts) auto
  have pos: "0 < count_status st alerts \<longleftrightarrow> st \<in> ?S" for st
    by (auto simp: count_status_pos)
  show ?thesis
    unfolding effective_status_def count_status_all resolved pos Let_def by simp
qed

text \<open>A status that no open alert gives is either resolved or the one before.\<close>

lemma effective_status_closed:
  assumes "alerts \<noteq> []" "effective_status st alerts \<notin> OPEN_STATUSES"
  shows "\<forall>a\<in>set alerts. ca_status a \<notin> OPEN_STATUSES"
    "effective_status st alerts = (if \<forall>a\<in>set alerts. ca_status a = ''resolved'' then ''resolved'' else st)"
proof -
  let ?S = "ca_status ` set alerts"
  have resolved: "(\<forall>a\<in>set alerts. ca_status a = ''resolved'') \<longleftrightarrow> ?S = {''resolved''}"
    using assms(1) by (cases alerts) auto
  have S: "''firing'' \<notin> ?S" "''silenced'' \<notin> ?S" "''acknowledged'' \<notin> ?S" if "?S \<noteq> {''resolved''}"
    using assms(2) that unfolding effective_status_eq [OF assms(1)] Let_def OPEN_STATUSES_def
    by (simp_all only: if_not_P split: if_split_asm) simp_all
  show "effective_status st alerts = (if \<forall>a\<in>set alerts. ca_status a = ''resolved'' then ''resolved'' else st)"
    using S unfolding effective_status_eq [OF assms(1)] Let_def resolved by argo
  show "\<forall>a\<in>set alerts. ca_status a \<notin> OPEN_STATUSES"
  proof (cases "?S = {''resolved''}")
    case True
    then show ?thesis
      unfolding resolved [symmetric] by (simp add: OPEN_STATUSES_def)
  next
    case False
    then show ?thesis
      using S [OF False] unfolding OPEN_STATUSES_def by (metis empty_iff imageI insert_iff)
  qed
qed

lemma describe_group_state [simp]:
  "g_status (describe_group alerts g) = g_status g" "ag_id (describe_group alerts g) = ag_id g"
  "ag_merged_into (describe_group alerts g) = ag_merged_into g" "ag_resolved_at (describe_group alerts g) = ag_resolved_at g"
  "ag_alert_count (describe_group alerts g) = ag_alert_count g" "ag_firing_count (describe_group alerts g) = ag_firing_count g"
  "ag_acknowledged_count (describe_group alerts g) = ag_acknowledged_count g"
  "ag_resolved_count (describe_group alerts g) = ag_resolved_count g"
  "ag_silenced_count (describe_group alerts g) = ag_silenced_count g"
  by (auto simp: describe_group_def split: list.split prod.split)

lemma count_alerts_state [simp]:
  "g_status (count_alerts alerts g) = g_status g" "ag_id (count_alerts alerts g) = ag_id g"
  "ag_merged_into (count_alerts alerts g) = ag_merged_into g" "ag_resolved_at (count_alerts alerts g) = ag_resolved_at g"
  by (simp_all add: count_alerts_def)

lemma settle_status_state [simp]:
  "ag_id (settle_status now alerts g) = ag_id g" "ag_merged_into (settle_status now alerts g) = ag_merged_into g"
  "g_status (settle_status now alerts g) = (if alerts = [] then g_status g else effective_status (g_status g) alerts)"
  "ag_alert_count (settle_status now alerts g) = ag_alert_count g" "ag_firing_count (settle_status now alerts g) = ag_firing_count g"
  "ag_acknowledged_count (settle_status now alerts g) = ag_acknowledged_count g"
  "ag_resolved_count (settle_status now alerts g) = ag_resolved_count g"
  "ag_silenced_count (settle_status now alerts g) = ag_silenced_count g"
  by (simp_all add: settle_status_def Let_def)

text \<open>The group row that recalculation saves.\<close>

lemma recalculate_group:
  assumes "recalculate_alert_group now g db = (g', db')"
  defines "alerts \<equiv> group_alerts db (ag_id g)"
  shows "ag_id g' = ag_id g" "ag_merged_into g' = ag_merged_into g"
    "g_status g' = (if alerts = [] then g_status g else effective_status (g_status g) alerts)"
    "ag_rows db' = update_row ag_id g' (ag_rows db)" "sh_rows db' = sh_rows db"
    "ag_alert_count g' = int (length alerts)" "ag_firing_count g' = count_status ''firing'' alerts"
    "ag_acknowledged_count g' = count_status ''acknowledged'' alerts" "ag_resolved_count g' = count_status ''resolved'' alerts"
    "ag_silenced_count g' = count_status ''silenced'' alerts"
    "\<exists>f. ca_rows db' = map (\<lambda>a. a\<lparr>ca_resolved_at := f a\<rparr>) (ca_rows db)
       \<and> (\<forall>a. ca_group a \<noteq> Some (ag_id g) \<longrightarrow> f a = ca_resolved_at a)"
    "alerts \<noteq> [] \<Longrightarrow> count_status ''resolved'' alerts = int (length alerts) \<Longrightarrow> ag_resolved_at g' \<noteq> None"
    "\<forall>a\<in>set alerts. ca_status a \<notin> OPEN_STATUSES \<Longrightarrow> ag_resolved_at g \<noteq> None \<Longrightarrow> ag_resolved_at g' \<noteq> None"
    "alerts = [] \<Longrightarrow> ag_resolved_at g' = ag_resolved_at g"
proof -
  have g': "g' = fst (recalculate_alert_group now g db)" and db': "db' = snd (recalculate_alert_group now g db)"
    using assms(1) by simp_all
  show "ag_id g' = ag_id g" "ag_merged_into g' = ag_merged_into g"
    "g_status g' = (if alerts = [] then g_status g else effective_status (g_status g) alerts)"
    "ag_alert_count g' = int (length alerts)" "ag_firing_count g' = count_status ''firing'' alerts"
    "ag_acknowledged_count g' = count_status ''acknowledged'' alerts" "ag_resolved_count g' = count_status ''resolved'' alerts"
    "ag_silenced_count g' = count_status ''silenced'' alerts"
    by (simp_all add: g' alerts_def recalculate_alert_group_def Let_def) (simp_all add: count_alerts_def)
  show "ag_rows db' = update_row ag_id g' (ag_rows db)" "sh_rows db' = sh_rows db"
    by (simp_all add: g' db' recalculate_alert_group_def Let_def)
  show "\<exists>f. ca_rows db' = map (\<lambda>a. a\<lparr>ca_resolved_at := f a\<rparr>) (ca_rows db)
       \<and> (\<forall>a. ca_group a \<noteq> Some (ag_id g) \<longrightarrow> f a = ca_resolved_at a)"
    by (intro exI [of _ "\<lambda>a. if alerts \<noteq> [] \<and> count_status ''resolved'' alerts = int (length alerts)
          \<and> ca_group a = Some (ag_id g) \<and> ca_resolved_at a = None then Some now else ca_resolved_at a"])
      (auto simp: db' alerts_def recalculate_alert_group_def Let_def)
  show "alerts \<noteq> [] \<Longrightarrow> count_status ''resolved'' alerts = int (length alerts) \<Longrightarrow> ag_resolved_at g' \<noteq> None"
    "alerts = [] \<Longrightarrow> ag_resolved_at g' = ag_resolved_at g"
    unfolding alerts_def
    by (auto simp: g' recalculate_alert_group_def Let_def settle_status_def split: option.split)
  show "ag_resolved_at g' \<noteq> None" if h: "\<forall>a\<in>set alerts. ca_status a \<notin> OPEN_STATUSES" "ag_resolved_at g \<noteq> None"
  proof -
    have "\<not> 0 < count_status st alerts" if "st \<in> OPEN_STATUSES" for st
      using h(1) that unfolding count_status_pos by blast
    then show ?thesis
      using h(2) unfolding alerts_def
      by (auto simp: g' recalculate_alert_group_def Let_def settle_status_def OPEN_STATUSES_def split: option.split)
  qed
qed

lemma set_with_resolved_at:
  assumes "rows' = map (\<lambda>a. a\<lparr>ca_resolved_at := f a\<rparr>) rows"
  shows "map ca_id rows' = map ca_id rows" "(\<forall>a\<in>set rows'. P (ca_group a) (ca_status a)) \<longleftrightarrow> (\<forall>a\<in>set rows. P (ca_group a) (ca_status a))"
  by (simp_all add: assms comp_def)

lemma resolved_at_fields:
  "ca_group (a\<lparr>ca_resolved_at := t\<rparr>) = ca_group a" "ca_status (a\<lparr>ca_resolved_at := t\<rparr>) = ca_status a"
  by simp_all

lemma wf_recalculated:
  assumes m: "merging tgt db" and r: "recalculate_alert_group now tgt db = (g', db')"
    and none: "group_alerts db (ag_id tgt) = [] \<Longrightarrow> group_ok db tgt"
  shows "alert_wf db'"
proof -
  note out = recalculate_group [OF r]
  let ?alerts = "group_alerts db (ag_id tgt)"
  obtain f where f: "ca_rows db' = map (\<lambda>a. a\<lparr>ca_resolved_at := f a\<rparr>) (ca_rows db)"
    using out(11) by blast
  note alerts = set_with_resolved_at [OF f]
  have ok: "group_ok db' g = group_ok db g" for g
    unfolding group_ok_def out(5) f
    by (simp only: set_map ball_simps bex_simps resolved_at_fields)
  have "group_ok db g'"
  proof (cases "?alerts = []")
    case True
    then show ?thesis
      using none out(1-3,14) by (simp add: group_ok_def)
  next
    case False
    have st: "g_status g' = effective_status (g_status tgt) ?alerts"
      using out(3) False by simp
    have closed: "(\<forall>a\<in>set ?alerts. ca_status a \<notin> OPEN_STATUSES)
        \<and> g_status g' = (if \<forall>a\<in>set ?alerts. ca_status a = ''resolved'' then ''resolved'' else g_status tgt)"
      if "g_status g' \<notin> OPEN_STATUSES"
      using effective_status_closed [OF False, of "g_status tgt"] that unfolding st by blast
    have "ag_merged_into g' \<noteq> None \<and> (\<forall>a\<in>set ?alerts. ca_status a \<notin> OPEN_STATUSES)
        \<and> (\<exists>a\<in>set ?alerts. \<not> counted (ca_status a)) \<and> (\<forall>s\<in>set (sh_rows db). sh_active s \<longrightarrow> sh_group s \<noteq> ag_id g')"
      if "g_status g' = ''merged''"
      using closed m that out(1,2) by (auto simp: OPEN_STATUSES_def counted_def merging_def split: if_splits)
    moreover have "ag_resolved_at g' \<noteq> None \<and> (\<forall>a\<in>set ?alerts. ca_status a \<notin> OPEN_STATUSES)" if "g_status g' = ''resolved''"
    proof -
      have "g_status g' \<notin> OPEN_STATUSES"
        using that by (simp add: OPEN_STATUSES_def)
      note c = closed [OF this]
      show ?thesis
      proof (cases "\<forall>a\<in>set ?alerts. ca_status a = ''resolved''")
        case True
        then show ?thesis
          using c out(12) [OF False] unfolding count_status_all by blast
      next
        case False
        then have "ag_resolved_at tgt \<noteq> None"
          using c that m by (simp add: merging_def split: if_splits)
        then show ?thesis
          using c out(13) by blast
      qed
    qed
    ultimately show ?thesis
      using m out(1,2) by (auto simp: group_ok_def merging_def)
  qed
  then have "\<forall>g\<in>set (ag_rows db'). group_ok db' g"
    using m by (auto simp: ok out(4) merging_def update_row_def out(1))
  then show ?thesis
    using m alerts(1) by (simp add: alert_wf_def merging_def out(4,5))
qed

section \<open>Each operation as steps\<close>

lemma steps_acknowledge:
  assumes wf: "alert_wf db"
  shows "wp (acknowledge_alert env i u src tok) (\<lambda>_. lsteps M db) db"
proof (cases "get_alert_group db i")
  case (Inr g)
  note g = row_in [OF wf Inr]
  let ?g' = "g\<lparr>ag_previous_status := Some (g_status g), g_status := ''acknowledged'',
               ag_acknowledged_by := u, ag_acknowledged_at := Some (al_now env)\<rparr>"
  have touched: "lsteps M db db'" if "ag_rows db' \<in> {ag_rows db, update_row ag_id (clear_alert_group_notification (al_now env) g) (ag_rows db)}"
    "ca_rows db' = ca_rows db" "sh_rows db' = sh_rows db" for db'
    using that one_step(1) [of db' db M] one_step(2) [OF g same_state_clear(1), of db' "al_now env" M] by auto
  have acked: "lsteps M db db'" if "\<not> group_closed g"
    "ag_rows db' \<in> {update_row ag_id ?g' (ag_rows db), update_row ag_id (clear_alert_group_notification (al_now env) ?g') (ag_rows db)}"
    "ca_rows db' = ca_rows db" "sh_rows db' = sh_rows db" for db'
    using that one_step(3) [OF g, of ?g' db' M] one_step(3) [OF g, of "clear_alert_group_notification (al_now env) ?g'" db' M]
    by (auto simp: same_state_def clear_alert_group_notification_def)
  show ?thesis
  proof (cases "g_status g = ''acknowledged'' \<or> group_closed g")
    case True
    then show ?thesis
      unfolding acknowledge_alert_def
      by (auto simp: wp_simps Inr cancel_ack_cases Let_def intro!: touched)
  next
    case False
    then show ?thesis
      unfolding acknowledge_alert_def acknowledge_alert_group_def
      by (auto simp: wp_simps Inr cancel_ack_cases Let_def split: sum.split intro!: wp_audit acked)
  qed
qed (simp add: acknowledge_alert_def wp_simps)

lemma steps_unshelve:
  assumes wf: "alert_wf db"
  shows "wp (unshelve_alert_group env i u src reason tok expired resume expected) (\<lambda>_. lsteps M db) db"
proof (cases "get_alert_group db i")
  case (Inr g)
  note found = Inr
  note g = row_in [OF wf Inr]
  have closed: "lsteps M db db'" if "ag_rows db' = ag_rows db" "ca_rows db' = ca_rows db"
    "sh_rows db' = map (\<lambda>s. if P s then close_shelf env u r s else s) (sh_rows db)" for db' P r
    by (rule one_step(5) [OF only_closes_if that])
  have restarted: "lsteps M db (snd (restart_after_unshelve env g db'))" if "ag_rows db' = ag_rows db" "ca_rows db' = ca_rows db"
    "sh_rows db' = map (\<lambda>s. if P s then close_shelf env u r s else s) (sh_rows db)" for db' P r
    using gentle_restart [of env g db']
  proof
    assume "gentle g db' (restart_after_unshelve env g db')"
    then have "lsteps M db' (snd (restart_after_unshelve env g db'))"
      using g that(1) by (intro one_step(2) [of g]) (auto simp: gentle_def)
    then show ?thesis
      using closed [OF that] by (rule rtranclp_trans [rotated])
  qed (simp add: closed [OF that])
  show ?thesis
  proof (cases "normalize_reason reason")
    case (Inr why)
    note why = this
    show ?thesis
    proof (cases "get_active_record db (ag_id g)")
      case (Some shelf)
      let ?P = "\<lambda>s. sh_id s = sh_id shelf \<and> sh_active s" and ?r = "case why of None \<Rightarrow> if expired then ''expired'' else ''manual'' | Some r \<Rightarrow> r"
      show ?thesis
      proof (cases "case expected of None \<Rightarrow> False | Some i \<Rightarrow> sh_id shelf \<noteq> i")
        case False
        with Some show ?thesis
          unfolding unshelve_alert_group_def Let_def
          by (simp add: wp_simps found why del: redact_secrets.simps cong: if_cong)
            (intro conjI impI wp_group_audit; auto simp: wp_simps split: sum.split intro: closed [where P = ?P and r = ?r] restarted [where P = ?P and r = ?r])
      qed (simp add: unshelve_alert_group_def wp_simps Let_def found why Some)
    qed (simp add: unshelve_alert_group_def wp_simps Let_def found why)
  qed (simp add: unshelve_alert_group_def wp_simps Let_def)
qed (cases "normalize_reason reason"; simp add: unshelve_alert_group_def wp_simps Let_def)

section \<open>Every step keeps the invariant\<close>

lemma wf_rows:
  assumes "alert_wf db" "ag_rows db' = update_row ag_id g (ag_rows db)" "ca_rows db' = ca_rows db" "sh_rows db' = sh_rows db"
    "group_ok db g"
  shows "alert_wf db'"
  using wf_save_group [OF assms(1,5)] assms alert_wf_cong [of db' "save_group g db"] by simp

lemma shelves_ok_new:
  assumes "shelves_ok rows" "\<forall>s'\<in>set rows. sh_active s' \<longrightarrow> sh_group s' \<noteq> sh_group s" "sh_id s \<notin> sh_id ` set rows"
  shows "shelves_ok (rows @ [s])"
proof -
  have "t = t'" if "t \<in> set (rows @ [s])" "t' \<in> set (rows @ [s])" "sh_active t" "sh_active t'" "sh_group t = sh_group t'" for t t'
    using that assms(1,2) by (auto simp: shelves_ok_def)
  then show ?thesis
    using assms(1,3) by (simp add: shelves_ok_def)
qed

lemma wf_shelved:
  assumes wf: "alert_wf db" and g: "g \<in> set (ag_rows db)" "g_status g \<noteq> ''resolved''" "fk_truthy (ag_merged_into g) = None"
    and s: "\<forall>s'\<in>set (sh_rows db). sh_active s' \<longrightarrow> sh_group s' \<noteq> ag_id g" "sh_group s = ag_id g" "sh_id s \<notin> sh_id ` set (sh_rows db)"
    and rows: "sh_rows db' = sh_rows db @ [s]" "ag_rows db' = ag_rows db" "ca_rows db' = ca_rows db"
  shows "alert_wf db'"
proof -
  have id: "h = g" if "h \<in> set (ag_rows db)" "ag_id h = ag_id g" for h
    using wf that g(1) by (auto simp: alert_wf_def distinct_map inj_on_def)
  have ok: "group_ok db h" if "h \<in> set (ag_rows db)" for h
    using wf that by (simp add: alert_wf_def)
  have "\<not> (g_status g = ''merged'')"
  proof
    assume "g_status g = ''merged''"
    then obtain j where "ag_merged_into g = Some j" "j \<noteq> 0"
      using ok [OF g(1)] by (cases "ag_merged_into g") (simp_all add: group_ok_def)
    then show False
      using g(3) by (simp add: fk_truthy_def)
  qed
  then have "group_ok db' h" if "h \<in> set (ag_rows db)" for h
  proof (cases "h = g")
    case True
    then show ?thesis
      using ok [OF that] g(2) \<open>\<not> (g_status g = ''merged'')\<close> by (simp add: group_ok_def)
  next
    case False
    then have "ag_id h \<noteq> ag_id g"
      using id [OF that] by blast
    then show ?thesis
      using ok [OF that] by (auto simp: group_ok_def rows s(2))
  qed
  moreover have "shelves_ok (sh_rows db')"
    unfolding rows using s wf by (intro shelves_ok_new) (simp_all add: alert_wf_def)
  ultimately show ?thesis
    using wf by (simp add: alert_wf_def rows)
qed

lemma lstep_wf: "lstep M db db' \<Longrightarrow> alert_wf db \<Longrightarrow> alert_wf db'"
proof (induction rule: lstep.induct)
  case (other db' db)
  then show ?case by (simp add: alert_wf_cong [of db' db])
next
  case (touched g db g' db')
  then show ?case
    using same_state_ok [of g g' db] by (intro wf_rows [of db db' g']) (simp_all add: alert_wf_def)
next
  case (acked g db g' db')
  then have "group_ok db g'"
    by (auto simp: alert_wf_def group_ok_def same_state_def)
  with acked show ?case by (intro wf_rows [of db db' g'])
next
  case (resolved g db g' now db')
  have "group_ok db' h" if "group_ok db h" "ag_id h \<noteq> ag_id g" for h
    using group_ok_resolve [OF resolved(8,9) that] .
  moreover have "group_ok db' g'"
    using resolved by (auto simp: group_ok_def alert_wf_def OPEN_STATUSES_def elim!: resolve_alertsE)
  ultimately show ?case
    using resolved(3,7-10) ids_update_row [of ag_id g' "ag_rows db"] set_update_rowD [of _ ag_id g' "ag_rows db"]
    by (auto simp: alert_wf_def)
next
  case (shelf_closed f db' db)
  have "group_ok db' h" if "group_ok db h" for h
    using group_ok_close [OF shelf_closed(1,3,4) that] .
  then show ?case
    using shelf_closed shelves_ok_close [OF shelf_closed(1)] by (simp add: alert_wf_def)
next
  case (shelved g db s db' g')
  have "alert_wf (db\<lparr>sh_rows := sh_rows db @ [s]\<rparr>)"
    by (rule wf_shelved [of db g s]) (use shelved in simp_all)
  moreover have "group_ok (db\<lparr>sh_rows := sh_rows db @ [s]\<rparr>) g'"
    using calculation shelved(1,8) same_state_ok [of g g'] by (simp add: alert_wf_def)
  ultimately show ?case
    using shelved(7,9,10) by (intro wf_rows [of "db\<lparr>sh_rows := sh_rows db @ [s]\<rparr>" db' g']) simp_all
next
  case (merged tgt db env u reason ids db1 db2 now db')
  have start: "merging tgt db"
    using merged by (intro merging_start)
  then have m: "merging tgt db1"
    by (rule merging_sources [OF merged(3)])
  obtain g' where r: "recalculate_alert_group now tgt db1 = (g', db2)"
    using merged(4) by (metis prod.collapse)
  have "group_ok db1 tgt" if none: "group_alerts db1 (ag_id tgt) = []"
  proof -
    have "\<forall>a\<in>set (ca_rows db1). ca_group a \<noteq> Some (ag_id tgt)"
      using none set_group_alerts [of db1 "ag_id tgt"] by (auto simp del: set_group_alerts simp: none)
    then show ?thesis
      using m by (auto simp: merging_def group_ok_def)
  qed
  then have "alert_wf db2"
    by (rule wf_recalculated [OF m r])
  then show ?case
    using merged(5-7) by (simp add: alert_wf_cong [of db' db2])
qed

interpretation alert_steps: guarded_steps "lstep M" alert_wf for M
  by unfold_locales (rule lstep_wf)

lemmas lsteps_wf = alert_steps.run_inv

section \<open>The composed operations as steps\<close>

lemma then_other:
  "lsteps M db db' \<Longrightarrow> ag_rows db'' = ag_rows db' \<Longrightarrow> ca_rows db'' = ca_rows db' \<Longrightarrow> sh_rows db'' = sh_rows db'
    \<Longrightarrow> lsteps M db db''"
  by (rule rtranclp_trans [OF _ one_step(1)])

lemma steps_resolve:
  assumes wf: "alert_wf db"
  shows "wp (resolve_alert env i u src tok) (\<lambda>_. lsteps M db) db"
proof (cases "get_alert_group db i")
  case (Inr g)
  note g = row_in [OF wf Inr]
  show ?thesis
  proof (cases "group_closed g")
    case True
    then show ?thesis
      by (simp add: resolve_alert_def wp_simps Inr)
  next
    case False
    have resolved: "lsteps M db (save_group (clear_alert_group_notification now g') (save_group g' (db\<lparr>ca_rows := resolve_alerts now (ag_id g) (ca_rows db)\<rparr>)))"
      if "ag_id g' = ag_id g" "ag_merged_into g' = ag_merged_into g" "g_status g' = ''resolved''" "ag_resolved_at g' = Some now" for g' now
      by (rule one_step(4) [OF g False, of "clear_alert_group_notification now g'" now]) (simp_all add: that)
    have closed: "wp (clear_shelve_on_resolve env j u tok) (\<lambda>r db''. case r of
          Inl e \<Rightarrow> (case Inl e :: db_exn + alert_group_row of Inl e \<Rightarrow> lsteps M db db | Inr x \<Rightarrow> lsteps M db db'')
        | Inr x \<Rightarrow> wp (db_bind (db_write (create_alert_event_row None a b u c)) (\<lambda>_.
              db_bind (audit_lifecycle_change env h act u src tok) (\<lambda>_. db_return h')))
            (\<lambda>r db'. case r of Inl e \<Rightarrow> lsteps M db db | Inr x \<Rightarrow> lsteps M db db') db'') db'"
      if "lsteps M db db'" for db' j h h' act a b c
      unfolding clear_shelve_on_resolve_def
      by (rule wp_mono [OF steps_unshelve [OF lsteps_wf [OF that wf]]])
        (auto simp: wp_simps split: sum.split intro!: wp_audit intro: then_other [OF rtranclp_trans [OF that]])
    show ?thesis
      using False unfolding resolve_alert_def resolve_alert_group_def resolve_alerts_def [symmetric]
      by (simp add: wp_simps Inr Let_def) (rule closed, rule resolved; simp)
  qed
qed (simp add: resolve_alert_def wp_simps)

lemma steps_assign:
  assumes wf: "alert_wf db"
  shows "wp (set_alert_group_assignee env i v actor src tok) (\<lambda>_. lsteps M db) db"
proof (cases "get_alert_group db i")
  case (Inr g)
  note found = Inr and g = row_in [OF wf Inr]
  have touched: "lsteps M db db'" if "ag_rows db' = update_row ag_id (g\<lparr>g_assignee := w, g_updated_at := t\<rparr>) (ag_rows db)"
    "ca_rows db' = ca_rows db" "sh_rows db' = sh_rows db" for db' w t
    by (rule one_step(2) [OF g _ that]) (simp add: same_state_def)
  show ?thesis
    unfolding set_alert_group_assignee_def
    by (cases "resolve_assignee db v (ag_team_id g)")
      (auto simp: wp_simps found split: sum.split intro!: touched)
qed (simp add: set_alert_group_assignee_def wp_simps)

lemma steps_merge:
  assumes wf: "alert_wf db" and M: "i \<in> M"
  shows "wp (merge_alert_groups env i ids u why) (\<lambda>_. lsteps M db) db"
proof (cases "get_alert_group db i")
  case (Inr tgt)
  have id: "ag_id tgt = i" "tgt \<in> set (ag_rows db)"
    using get_alert_group_Inr [OF wf] Inr by simp_all
  obtain r db1 where m: "merge_sources env tgt u why ids db = (r, db1)"
    by fastforce
  have merged: "lsteps M db (create_alert_event_row a b c u d (snd (recalculate_alert_group now tgt db1)))" if "r = Inr ()" for a b c d now
    by (rule one_step(7) [OF id(2) _ m [unfolded that] refl, where now = now]) (simp_all add: M id)
  show ?thesis
    unfolding merge_alert_groups_def
    by (cases r) (simp_all add: wp_simps Inr wp_def [of "merge_sources env tgt u why ids"] m merged)
qed (simp add: merge_alert_groups_def wp_simps)

lemma active_shelves_iff: "s \<in> set (active_shelves db j) \<longleftrightarrow> s \<in> set (sh_rows db) \<and> sh_group s = j \<and> sh_active s"
  by (auto simp: active_shelves_def)

lemma get_active_record_None: "get_active_record db j = None \<longleftrightarrow> (\<forall>s\<in>set (sh_rows db). sh_active s \<longrightarrow> sh_group s \<noteq> j)"
proof -
  have "get_active_record db j = None \<longleftrightarrow> set (active_shelves db j) = {}"
    by (simp add: get_active_record_def split: list.split)
  also have "\<dots> \<longleftrightarrow> (\<forall>s\<in>set (sh_rows db). sh_active s \<longrightarrow> sh_group s \<noteq> j)"
    unfolding set_eq_iff active_shelves_iff by auto
  finally show ?thesis .
qed

lemma get_active_record_Some:
  assumes "shelves_ok (sh_rows db)" "get_active_record db j = Some p" "s \<in> set (sh_rows db)" "sh_active s" "sh_group s = j"
  shows "s = p"
proof -
  have "p \<in> set (active_shelves db j)"
    using assms(2) by (auto simp: get_active_record_def split: list.splits)
  then show ?thesis
    using assms unfolding active_shelves_iff shelves_ok_def by blast
qed

lemma quiet_group_id [simp]: "ag_id (quiet_group now g) = ag_id g"
  using same_state_clear(4) [of g now] by (simp add: same_state_def)

lemma lsteps_shelved:
  assumes wf: "alert_wf db" and g: "g \<in> set (ag_rows db)" "g_status g \<noteq> ''resolved''" "fk_truthy (ag_merged_into g) = None"
    and ids: "fresh_ids (al_env env)"
    and rows: "rows = (case get_active_record db (ag_id g) of None \<Rightarrow> sh_rows db
      | Some p \<Rightarrow> map (\<lambda>s. if sh_id s = sh_id p \<and> sh_active s then close_shelf env u why s else s) (sh_rows db))"
    and s: "sh_group s = ag_id g" "sh_id s = env_new_id (al_env env) (map sh_id rows)"
    and db': "ag_rows db' = update_row ag_id (quiet_group now g) (ag_rows db)" "ca_rows db' = ca_rows db" "sh_rows db' = rows @ [s]"
  shows "lsteps M db db'"
proof -
  let ?mid = "db\<lparr>sh_rows := rows\<rparr>"
  have none: "\<forall>t\<in>set rows. sh_active t \<longrightarrow> sh_group t \<noteq> ag_id g"
  proof (cases "get_active_record db (ag_id g)")
    case None
    then show ?thesis
      using get_active_record_None [of db "ag_id g"] by (simp add: rows)
  next
    case (Some p)
    have "t = p" if "t \<in> set (sh_rows db)" "sh_active t" "sh_group t = ag_id g" for t
      using get_active_record_Some [OF _ Some that] wf by (simp add: alert_wf_def)
    then show ?thesis
      by (auto simp: rows Some close_shelf_def)
  qed
  have "lsteps M db ?mid"
  proof (cases "get_active_record db (ag_id g)")
    case (Some p)
    show ?thesis
      by (rule one_step(5) [OF only_closes_if [of "\<lambda>s. sh_id s = sh_id p \<and> sh_active s" env u why]]) (simp_all add: rows Some)
  qed (simp add: rows)
  moreover have "sh_id s \<notin> sh_id ` set rows"
    using ids unfolding fresh_ids_def s(2) by (metis set_map)
  then have "lsteps M ?mid db'"
    by (intro one_step(6) [of g ?mid s db' "quiet_group now g"]) (simp_all add: g s none db')
  ultimately show ?thesis
    by (rule rtranclp_trans)
qed

lemma steps_shelve:
  assumes wf: "alert_wf db" and ids: "fresh_ids (al_env env)"
  shows "wp (shelve_alert_group env i u dur why src tok) (\<lambda>_. lsteps M db) db"
proof (cases "normalize_duration dur")
  case (Inr d)
  note d = Inr
  show ?thesis
  proof (cases "normalize_reason why")
    case (Inr w)
    note w = Inr
    show ?thesis
    proof (cases "get_alert_group db i")
      case (Inr g)
      note found = Inr and g = row_in [OF wf Inr]
      show ?thesis
      proof (cases "g_status g = ''resolved'' \<or> fk_truthy (ag_merged_into g) \<noteq> None")
        case True
        then show ?thesis
          unfolding shelve_alert_group_def Let_def by (simp add: wp_simps d w found)
      next
        case False
        then have open_: "g_status g \<noteq> ''resolved''" "fk_truthy (ag_merged_into g) = None"
          by simp_all
        show ?thesis
          using open_ unfolding shelve_alert_group_def cancel_shelved_notification_work_def Let_def
          by (simp add: wp_simps d w found del: redact_secrets.simps)
            (intro wp_group_audit; auto simp: wp_simps split: sum.split intro!: lsteps_shelved [OF wf g open_ ids refl])
      qed
    qed (simp add: shelve_alert_group_def wp_simps Let_def d w)
  qed (simp add: shelve_alert_group_def wp_simps Let_def d)
qed (simp add: shelve_alert_group_def wp_simps Let_def)

lemma steps_expire:
  "alert_wf db \<Longrightarrow> wp (expire_shelves env shelves n) (\<lambda>_. lsteps M db) db"
proof (induction shelves arbitrary: n db)
  case (Cons s shelves)
  have rest: "wp (expire_shelves env shelves k) (\<lambda>_. lsteps M db) db'" if "lsteps M db db'" for k db'
    by (rule wp_mono [OF Cons.IH [OF lsteps_wf [OF that Cons.prems]]]) (rule rtranclp_trans [OF that])
  show ?case
    by (simp add: wp_simps)
      (rule wp_mono [OF steps_unshelve [OF Cons.prems]], auto simp: rest split: sum.split prod.split)
qed (simp add: wp_simps)

lemma steps_process_due: "alert_wf db \<Longrightarrow> wp (process_due_shelves env limit) (\<lambda>_. lsteps M db) db"
  unfolding process_due_shelves_def
  by (simp add: wp_simps, rule wp_mono [OF steps_expire]) (auto simp: wp_simps split: sum.split)

text \<open>A request or a scheduler tick, with what it reads besides the tables.\<close>

datatype alert_op =
  Acknowledge int "int option" string "int option"
| Resolve int "int option" string "int option"
| Shelve int "int option" "int option" "string option" string "int option"
| Unshelve int "int option" string "string option" "int option"
| Expire_shelves nat
| Merge int "int list" "int option" "string option"
| Assign int "int option" "int option" string "int option"

fun alert_op_db :: "alert_env \<Rightarrow> alert_op \<Rightarrow> alert_db \<Rightarrow> alert_db" where
  "alert_op_db env (Acknowledge i u src tok) db = snd (acknowledge_alert env i u src tok db)"
| "alert_op_db env (Resolve i u src tok) db = snd (resolve_alert env i u src tok db)"
| "alert_op_db env (Shelve i u dur why src tok) db = snd (shelve_alert_group env i u dur why src tok db)"
| "alert_op_db env (Unshelve i u src why tok) db = snd (unshelve_alert_group env i u src why tok False True None db)"
| "alert_op_db env (Expire_shelves limit) db = snd (process_due_shelves env limit db)"
| "alert_op_db env (Merge i ids u why) db = snd (merge_alert_groups env i ids u why db)"
| "alert_op_db env (Assign i v actor src tok) db = snd (set_alert_group_assignee env i v actor src tok db)"

fun merge_targets :: "alert_op list \<Rightarrow> int set" where
  "merge_targets [] = {}"
| "merge_targets (Merge i ids u why # ops) = insert i (merge_targets ops)"
| "merge_targets (op # ops) = merge_targets ops"

lemma alert_op_steps:
  assumes "alert_wf db" "fresh_ids (al_env env)" "merge_targets [op] \<subseteq> M"
  shows "lsteps M db (alert_op_db env op db)"
proof (cases op)
  case (Merge i ids u why)
  then show ?thesis
    using steps_merge [OF assms(1), of i M env ids u why] assms(3) by (simp add: wp_def)
qed (use assms steps_acknowledge steps_resolve steps_shelve steps_unshelve steps_process_due steps_assign in \<open>simp_all add: wp_def\<close>)

fun run_alert_ops :: "(alert_env \<times> alert_op) list \<Rightarrow> alert_db \<Rightarrow> alert_db" where
  "run_alert_ops [] db = db"
| "run_alert_ops ((env, op) # ops) db = run_alert_ops ops (alert_op_db env op db)"

lemma run_alert_ops_steps:
  assumes "alert_wf db" "list_all (\<lambda>(env, op). fresh_ids (al_env env)) ops" "merge_targets (map snd ops) \<subseteq> M"
  shows "lsteps M db (run_alert_ops ops db)"
  using assms
proof (induction ops arbitrary: db)
  case (Cons eop ops)
  obtain env op where eop: "eop = (env, op)"
    by (cases eop)
  have sub: "merge_targets [op] \<subseteq> M" "merge_targets (map snd ops) \<subseteq> M"
    using Cons.prems(3) by (cases op; simp add: eop)+
  have first: "lsteps M db (alert_op_db env op db)"
    using Cons.prems sub by (intro alert_op_steps) (simp_all add: eop)
  then have "lsteps M (alert_op_db env op db) (run_alert_ops ops (alert_op_db env op db))"
    using Cons.prems(2) sub lsteps_wf [OF first Cons.prems(1)] by (intro Cons.IH) (simp_all add: eop)
  with first show ?case
    by (simp add: eop)
qed simp

end
