(* ===== verification/Alert_Merge.thy ===== *)
theory Alert_Merge
  imports Alert_Lifecycle
begin

text \<open>
  What merging alert groups does to the tables, what sequences of operations keep, and what is
  left of a group that was merged away and then takes alerts again.
\<close>

section \<open>Merging\<close>

definition move_alert :: "int set \<Rightarrow> alert_group_row \<Rightarrow> alert_row \<Rightarrow> alert_row" where
  "move_alert J tgt a = (if ca_group a \<in> Some ` J then a\<lparr>ca_group := Some (ag_id tgt), ca_group_key := ag_group_key tgt\<rparr> else a)"

lemma move_alert_fields [simp]:
  "ca_id (move_alert J tgt a) = ca_id a" "ca_status (move_alert J tgt a) = ca_status a"
  "ca_group (move_alert J tgt a) = (if ca_group a \<in> Some ` J then Some (ag_id tgt) else ca_group a)"
  "ca_last_seen_at (move_alert J tgt a) = ca_last_seen_at a"
  by (simp_all add: move_alert_def)

lemma move_alert_twice: "ag_id tgt \<notin> J' \<Longrightarrow> move_alert J' tgt (move_alert J tgt a) = move_alert (J \<union> J') tgt a"
  by (auto simp: move_alert_def)

text \<open>The tables after the sources of \<open>J\<close> went into \<open>tgt\<close>.\<close>

definition merged_sources :: "alert_env \<Rightarrow> alert_group_row \<Rightarrow> int option \<Rightarrow> int set \<Rightarrow> alert_db \<Rightarrow> alert_db \<Rightarrow> bool" where
  "merged_sources env tgt u J db db' \<longleftrightarrow>
     ca_rows db' = map (move_alert J tgt) (ca_rows db)
   \<and> sh_rows db' = map (\<lambda>s. if sh_group s \<in> J \<and> sh_active s then close_shelf env u ''alert_group_merged'' s else s) (sh_rows db)
   \<and> map ag_id (ag_rows db') = map ag_id (ag_rows db) \<and> core_db db' = core_db db \<and> dr_rows db' = dr_rows db
   \<and> J \<subseteq> ag_id ` set (ag_rows db) - {ag_id tgt}
   \<and> (\<forall>g. ag_id g \<notin> J \<longrightarrow> g \<in> set (ag_rows db') \<longleftrightarrow> g \<in> set (ag_rows db))
   \<and> (\<forall>g\<in>set (ag_rows db'). ag_id g \<in> J \<longrightarrow> g_status g = ''merged'' \<and> ag_merged_into g = Some (ag_id tgt))"

lemma merged_sources_refl: "merged_sources env tgt u {} db db"
  by (simp add: merged_sources_def move_alert_def map_idI)

lemma merged_sourcesD:
  assumes "merged_sources env tgt u J db db'"
  shows "ca_rows db' = map (move_alert J tgt) (ca_rows db)"
    "sh_rows db' = map (\<lambda>s. if sh_group s \<in> J \<and> sh_active s then close_shelf env u ''alert_group_merged'' s else s) (sh_rows db)"
    "map ag_id (ag_rows db') = map ag_id (ag_rows db)" "core_db db' = core_db db" "dr_rows db' = dr_rows db"
    "J \<subseteq> ag_id ` set (ag_rows db)" "ag_id tgt \<notin> J" "ag_id ` set (ag_rows db') = ag_id ` set (ag_rows db)"
    "ag_id g \<notin> J \<Longrightarrow> g \<in> set (ag_rows db') \<longleftrightarrow> g \<in> set (ag_rows db)"
    "g \<in> set (ag_rows db') \<Longrightarrow> ag_id g \<in> J \<Longrightarrow> g_status g = ''merged''"
    "g \<in> set (ag_rows db') \<Longrightarrow> ag_id g \<in> J \<Longrightarrow> ag_merged_into g = Some (ag_id tgt)"
  using assms unfolding merged_sources_def by (simp_all, blast, blast, metis set_map)

lemma merge_source_merged:
  assumes "merge_source env tgt u reason i db = (Inr (), db')" "distinct (map ag_id (ag_rows db))"
  shows "merged_sources env tgt u ({i} - {ag_id tgt}) db db'"
proof (cases "i = ag_id tgt")
  case True
  then show ?thesis
    using assms(1) by (simp add: merge_source_def db_return_def merged_sources_refl)
next
  case False
  from assms(1) obtain src where src: "get_alert_group db i = Inr src"
    using False by (auto simp: merge_source_def db_bind_def db_read_def split: sum.splits)
  then have id: "ag_id src = i" "src \<in> set (ag_rows db)"
    using get_alert_group_iff [OF assms(2)] by auto
  show ?thesis
    using assms(1) False src id
    by (auto simp: merge_source_def db_bind_def db_read_def db_write_def Let_def merged_sources_def move_alert_def update_row_def image_iff)
qed

lemma merged_sources_trans:
  assumes "merged_sources env tgt u J db db'" "merged_sources env tgt u J' db' db''"
  shows "merged_sources env tgt u (J \<union> J') db db''"
proof -
  note m = merged_sourcesD [OF assms(1)] and m' = merged_sourcesD [OF assms(2)]
  have "ca_rows db'' = map (move_alert (J \<union> J') tgt) (ca_rows db)"
    using move_alert_twice [OF m'(7)] by (simp add: m(1) m'(1))
  moreover have "sh_rows db'' = map (\<lambda>s. if sh_group s \<in> J \<union> J' \<and> sh_active s then close_shelf env u ''alert_group_merged'' s else s) (sh_rows db)"
    by (auto simp: m(2) m'(2) close_shelf_def)
  moreover have "g_status g = ''merged'' \<and> ag_merged_into g = Some (ag_id tgt)" if "g \<in> set (ag_rows db'')" "ag_id g \<in> J \<union> J'" for g
    using that m(10) [of g] m(11) [of g] m'(9) [of g] m'(10) [of g] m'(11) [of g] by (cases "ag_id g \<in> J'") simp_all
  moreover have "ag_id g \<notin> J \<union> J' \<Longrightarrow> g \<in> set (ag_rows db'') \<longleftrightarrow> g \<in> set (ag_rows db)" for g
    using m(9) [of g] m'(9) [of g] by simp
  moreover have "J \<union> J' \<subseteq> ag_id ` set (ag_rows db) - {ag_id tgt}"
    using m(6,7) m'(6,7) unfolding m(8) by (simp add: subset_Diff_insert)
  ultimately show ?thesis
    unfolding merged_sources_def using m(3-5) m'(3-5) by simp
qed

lemma merge_sources_merged:
  "merge_sources env tgt u reason ids db = (Inr (), db') \<Longrightarrow> distinct (map ag_id (ag_rows db))
    \<Longrightarrow> merged_sources env tgt u (set ids - {ag_id tgt}) db db'"
proof (induction ids arbitrary: db)
  case (Cons i ids)
  obtain db1 where one: "merge_source env tgt u reason i db = (Inr (), db1)" and rest: "merge_sources env tgt u reason ids db1 = (Inr (), db')"
    using Cons.prems(1) by (auto simp: db_bind_def split: prod.splits sum.splits)
  note m = merge_source_merged [OF one Cons.prems(2)]
  then have "distinct (map ag_id (ag_rows db1))"
    using Cons.prems(2) by (simp add: merged_sources_def)
  then have "merged_sources env tgt u (({i} - {ag_id tgt}) \<union> (set ids - {ag_id tgt})) db db'"
    by (rule merged_sources_trans [OF m Cons.IH [OF rest]])
  also have "({i} - {ag_id tgt}) \<union> (set ids - {ag_id tgt}) = set (i # ids) - {ag_id tgt}"
    by auto
  finally show ?case .
qed (simp add: db_return_def merged_sources_refl)

text \<open>Merging succeeds exactly when the sources exist.\<close>

lemma get_alert_group_ids: "(\<exists>g. get_alert_group db i = Inr g) \<longleftrightarrow> i \<in> ag_id ` set (ag_rows db)"
proof (cases "find (\<lambda>g. ag_id g = i) (ag_rows db)")
  case None
  then have "i \<notin> ag_id ` set (ag_rows db)"
    by (auto simp: find_None_iff)
  then show ?thesis
    using None by (simp add: get_alert_group_def the_row_def)
next
  case (Some g)
  then have "g \<in> set (ag_rows db)" "ag_id g = i"
    using find_Some_iff [of "\<lambda>g. ag_id g = i" "ag_rows db" g] nth_mem by metis+
  then show ?thesis
    unfolding get_alert_group_def Some the_row_def by auto
qed

lemma merge_source_ids:
  assumes "merge_source env tgt u reason i db = (r, db')"
  shows "(\<exists>x. r = Inr x) \<longleftrightarrow> i = ag_id tgt \<or> i \<in> ag_id ` set (ag_rows db)" "map ag_id (ag_rows db') = map ag_id (ag_rows db)"
  using assms get_alert_group_ids [of db i]
  by (auto simp: merge_source_def db_return_def db_bind_def db_read_def db_write_def Let_def split: if_splits sum.splits)

lemma merge_sources_total:
  "fst (merge_sources env tgt u reason ids db) = Inr () \<longleftrightarrow> set ids - {ag_id tgt} \<subseteq> ag_id ` set (ag_rows db)"
proof (induction ids arbitrary: db)
  case (Cons i ids)
  obtain r db1 where one: "merge_source env tgt u reason i db = (r, db1)"
    by fastforce
  note ids = merge_source_ids [OF one]
  have same: "ag_id ` set (ag_rows db1) = ag_id ` set (ag_rows db)"
    using arg_cong [OF ids(2), of set] by simp
  show ?case
    using ids(1) Cons.IH [of db1] by (cases r) (auto simp: db_bind_def one same)
qed (simp add: db_return_def)

section \<open>Closed groups\<close>

text \<open>The row of a group, when its table has one.\<close>

definition group_is :: "(alert_group_row \<Rightarrow> bool) \<Rightarrow> int \<Rightarrow> alert_db \<Rightarrow> bool" where
  "group_is P i db \<longleftrightarrow> (\<exists>g. get_alert_group db i = Inr g \<and> P g)"

lemma group_is_iff: "alert_wf db \<Longrightarrow> group_is P i db \<longleftrightarrow> (\<exists>g\<in>set (ag_rows db). ag_id g = i \<and> P g)"
  by (auto simp: group_is_def get_alert_group_Inr)

lemma row_unique: "alert_wf db \<Longrightarrow> g \<in> set (ag_rows db) \<Longrightarrow> h \<in> set (ag_rows db) \<Longrightarrow> ag_id g = ag_id h \<Longrightarrow> g = h"
  by (auto simp: alert_wf_def distinct_map inj_on_def)

lemma in_update_row: "g \<in> set rows \<Longrightarrow> h \<in> set rows \<Longrightarrow> key g' = key g \<Longrightarrow> (if key h = key g then g' else h) \<in> set (update_row key g' rows)"
  by (auto simp: update_row_def)

definition terminal :: "alert_group_row \<Rightarrow> bool" where
  "terminal g \<longleftrightarrow> g_status g \<in> {''resolved'', ''merged''}"

text \<open>Steps keep a group closed that is the target of no merge.\<close>

lemma lstep_closed:
  assumes "lstep M db db'" "alert_wf db" "g \<in> set (ag_rows db)" "group_closed g" "ag_id g \<notin> M"
  shows "\<exists>g'\<in>set (ag_rows db'). ag_id g' = ag_id g \<and> group_closed g' \<and> (terminal g \<longrightarrow> terminal g')"
  using assms
proof (induction rule: lstep.induct)
  case (touched h db h' db')
  have "(if ag_id g = ag_id h then h' else g) \<in> set (ag_rows db')"
    using in_update_row [OF touched(1,7), of ag_id h'] touched(2,3) by (simp add: same_state_def)
  moreover have "ag_id g = ag_id h \<Longrightarrow> g = h"
    using row_unique [OF touched(6,7,1)] by simp
  ultimately show ?case
    using touched(2,8) by (intro bexI [of _ "if ag_id g = ag_id h then h' else g"]) (auto simp: same_state_def group_closed_def terminal_def)
next
  case (acked h db h' db')
  have "(if ag_id g = ag_id h then h' else g) \<in> set (ag_rows db')"
    using in_update_row [OF acked(1,9), of ag_id h'] acked(3,5) by (simp add: same_state_def)
  moreover have "ag_id g \<noteq> ag_id h"
    using row_unique [OF acked(8,9,1)] acked(2,10) by auto
  ultimately show ?case
    using acked(10) by auto
next
  case (resolved h db h' now db')
  have "(if ag_id g = ag_id h then h' else g) \<in> set (ag_rows db')"
    using in_update_row [OF resolved(1,11), of ag_id h'] resolved(3,7) by simp
  moreover have "ag_id g \<noteq> ag_id h"
    using row_unique [OF resolved(10,11,1)] resolved(2,12) by auto
  ultimately show ?case
    using resolved(12) by auto
next
  case (shelved h db s db' h')
  have "(if ag_id g = ag_id h then h' else g) \<in> set (ag_rows db')"
    using in_update_row [OF shelved(1,12), of ag_id h'] shelved(8,9) by (simp add: same_state_def)
  moreover have "ag_id g = ag_id h \<Longrightarrow> g = h"
    using row_unique [OF shelved(11,12,1)] by simp
  ultimately show ?case
    using shelved(8,13) by (intro bexI [of _ "if ag_id g = ag_id h then h' else g"]) (auto simp: same_state_def group_closed_def terminal_def)
next
  case (merged tgt db env u reason ids db1 db2 now db')
  let ?J = "set ids - {ag_id tgt}"
  have m: "merged_sources env tgt u ?J db db1"
    using merged(3,8) by (intro merge_sources_merged) (auto simp: alert_wf_def)
  have kept: "h \<in> set (ag_rows db')" if "h \<in> set (ag_rows db1)" "ag_id h \<noteq> ag_id tgt" for h
  proof -
    obtain g' where r: "recalculate_alert_group now tgt db1 = (g', db2)"
      using merged(4) by (metis prod.collapse)
    show ?thesis
      using that recalculate_group(1,4) [OF r] by (auto simp: merged(5) update_row_def image_iff)
  qed
  have id: "ag_id g \<noteq> ag_id tgt"
    using merged(2,11) by auto
  show ?case
  proof (cases "ag_id g \<in> ?J")
    case True
    then obtain h where "h \<in> set (ag_rows db1)" "ag_id h = ag_id g"
      using merged_sourcesD(8) [OF m] merged(9) by (metis (no_types, lifting) imageE imageI)
    then show ?thesis
      using kept [of h] id True merged_sourcesD(10) [OF m, of h] by (auto simp: group_closed_def terminal_def)
  next
    case False
    then have "g \<in> set (ag_rows db1)"
      using merged_sourcesD(9) [OF m False] merged(9) by simp
    then show ?thesis
      using kept [OF _ id] merged(10) by blast
  qed
qed auto

text \<open>A closed group, and one that is resolved or merged, as properties of the tables.\<close>

definition row_closed :: "int \<Rightarrow> bool \<Rightarrow> alert_db \<Rightarrow> bool" where
  "row_closed i final db \<longleftrightarrow> (\<exists>g\<in>set (ag_rows db). ag_id g = i \<and> group_closed g \<and> (final \<longrightarrow> terminal g))"

lemma lstep_row_closed:
  assumes "lstep M db db'" "alert_wf db" "row_closed i final db" "i \<notin> M"
  shows "row_closed i final db'"
proof -
  obtain g where g: "g \<in> set (ag_rows db)" "ag_id g = i" "group_closed g" "final \<longrightarrow> terminal g"
    using assms(3) by (auto simp: row_closed_def)
  show ?thesis
    using lstep_closed [OF assms(1,2) g(1,3)] g(2,4) assms(4) unfolding row_closed_def by blast
qed

interpretation closed_group: stable_steps "lstep (M - {i})" alert_wf "row_closed i final" for M i final
  by unfold_locales (rule lstep_row_closed, auto)

text \<open>No operation puts an alert into a status that is not counted.\<close>

lemma all_counted_map: "map ca_status (ca_rows db') = map ca_status (ca_rows db) \<Longrightarrow> all_counted db' = all_counted db"
  unfolding all_counted_def by (metis (mono_tags, lifting) comp_def list.pred_map list.pred_cong)

lemma lstep_counted: "lstep M db db' \<Longrightarrow> alert_wf db \<Longrightarrow> all_counted db \<Longrightarrow> all_counted db'"
proof (induction rule: lstep.induct)
  case (resolved g db g' now db')
  then show ?case
    by (auto simp: all_counted_def list_all_iff counted_def elim!: resolve_alertsE)
next
  case (merged tgt db env u reason ids db1 db2 now db')
  have J: "merged_sources env tgt u (set ids - {ag_id tgt}) db db1"
    using merged(3,8) by (intro merge_sources_merged) (auto simp: alert_wf_def)
  obtain g' where rc: "recalculate_alert_group now tgt db1 = (g', db2)"
    using merged(4) by (metis prod.collapse)
  obtain f where f: "ca_rows db2 = map (\<lambda>a. a\<lparr>ca_resolved_at := f a\<rparr>) (ca_rows db1)"
    using recalculate_group(11) [OF rc] by blast
  have "map ca_status (ca_rows db') = map ca_status (ca_rows db)"
    by (simp add: merged(6) f merged_sourcesD(1) [OF J] comp_def)
  then show ?case
    using merged(9) all_counted_map by blast
qed (auto simp: all_counted_def)

interpretation counted_alerts: stable_steps "lstep M" alert_wf all_counted for M
  by unfold_locales (rule lstep_counted)

section \<open>The group that took the alerts\<close>

lemma length_filter_sort_key: "length (filter P (sort_key k xs)) = length (filter P xs)"
  by (metis length_sort filter_sort)

definition summary_status :: "string \<Rightarrow> string set \<Rightarrow> string" where
  "summary_status st S =
     (if S = {} then st else if S = {''resolved''} then ''resolved''
      else if ''firing'' \<in> S then (if st = ''acknowledged'' then ''acknowledged'' else ''firing'')
      else if ''silenced'' \<in> S then ''silenced''
      else if ''acknowledged'' \<in> S then ''acknowledged'' else st)"

lemma recalculate_status:
  assumes "recalculate_alert_group now g db = (g', db')"
  shows "g_status g' = summary_status (g_status g) (ca_status ` {a \<in> set (ca_rows db). ca_group a = Some (ag_id g)})"
proof (cases "group_alerts db (ag_id g) = []")
  case True
  then have "{a \<in> set (ca_rows db). ca_group a = Some (ag_id g)} = {}"
    using set_group_alerts [of db "ag_id g"] by simp
  then show ?thesis
    using recalculate_group(3) [OF assms] True by (simp add: summary_status_def)
next
  case False
  then have ne: "ca_status ` set (group_alerts db (ag_id g)) \<noteq> {}"
    by (simp del: set_group_alerts)
  have "g_status g' = effective_status (g_status g) (group_alerts db (ag_id g))"
    using recalculate_group(3) [OF assms] False by simp
  also have "\<dots> = summary_status (g_status g) (ca_status ` set (group_alerts db (ag_id g)))"
    unfolding summary_status_def if_not_P [OF ne]
    by (rule effective_status_eq [OF False, unfolded Let_def])
  finally show ?thesis
    by (simp only: set_group_alerts)
qed

lemma active_shelves_Nil: "active_shelves db j = [] \<longleftrightarrow> (\<forall>s\<in>set (sh_rows db). sh_active s \<longrightarrow> sh_group s \<noteq> j)"
  by (auto simp: set_empty [symmetric] set_eq_iff active_shelves_iff simp del: set_empty)

lemma get_alert_group_cong:
  assumes "distinct (map ag_id (ag_rows db))" "distinct (map ag_id (ag_rows db'))"
    and "\<And>g. ag_id g = j \<Longrightarrow> g \<in> set (ag_rows db') \<longleftrightarrow> g \<in> set (ag_rows db)"
  shows "get_alert_group db' j = get_alert_group db j"
proof -
  have same: "get_alert_group db' j = Inr g \<longleftrightarrow> get_alert_group db j = Inr g" for g
    unfolding get_alert_group_iff [OF assms(1)] get_alert_group_iff [OF assms(2)] using assms(3) [of g] by blast
  have err: "e = DoesNotExist" if "get_alert_group d j = Inl e" for d :: alert_db and e
    using that by (auto simp: get_alert_group_def the_row_def split: option.splits)
  show ?thesis
  proof (cases "get_alert_group db' j")
    case (Inl e)
    then obtain e' where "get_alert_group db j = Inl e'"
      using same by (cases "get_alert_group db j") auto
    then show ?thesis
      using Inl err by metis
  qed (use same in simp)
qed

lemma filter_map_frame:
  assumes "\<And>x. x \<in> set xs \<Longrightarrow> P (f x) = P x" "\<And>x. x \<in> set xs \<Longrightarrow> P x \<Longrightarrow> f x = x"
  shows "filter P (map f xs) = filter P xs"
  using assms by (induction xs) auto

lemma merge_result:
  assumes wf: "alert_wf db" and tgt: "get_alert_group db i = Inr tgt" and ids: "set ids - {i} \<subseteq> ag_id ` set (ag_rows db)"
  obtains g' db' where "merge_alert_groups env i ids u why db = (Inr g', db')" "alert_wf db'"
    "get_alert_group db' i = Inr g'" "ag_merged_into g' = ag_merged_into tgt"
    "map (\<lambda>a. (ca_id a, ca_status a, ca_group a)) (ca_rows db') =
       map (\<lambda>a. (ca_id a, ca_status a, if ca_group a \<in> Some ` (set ids - {i}) then Some i else ca_group a)) (ca_rows db)"
    "filter (\<lambda>a. ca_group a \<notin> Some ` insert i (set ids)) (ca_rows db') =
       filter (\<lambda>a. ca_group a \<notin> Some ` insert i (set ids)) (ca_rows db)"
    "ag_alert_count g' = int (length (filter (\<lambda>a. ca_group a \<in> Some ` insert i (set ids)) (ca_rows db)))"
    "g_status g' = summary_status (g_status tgt) (ca_status ` {a \<in> set (ca_rows db). ca_group a \<in> Some ` insert i (set ids)})"
    "\<forall>j. if j \<in> set ids - {i}
       then group_is (\<lambda>h. g_status h = ''merged'' \<and> ag_merged_into h = Some i) j db' \<and> active_shelves db' j = []
       else j \<noteq> i \<longrightarrow> get_alert_group db' j = get_alert_group db j"
proof -
  let ?J = "set ids - {i}"
  have id: "ag_id tgt = i" "tgt \<in> set (ag_rows db)"
    using tgt get_alert_group_Inr [OF wf] by simp_all
  obtain db1 where m: "merge_sources env tgt u why ids db = (Inr (), db1)"
    using merge_sources_total [of env tgt u why ids db] ids id(1) by (metis prod.collapse)
  have dist: "distinct (map ag_id (ag_rows db))"
    using wf by (simp add: alert_wf_def)
  have J: "merged_sources env tgt u ?J db db1"
    using merge_sources_merged [OF m dist] id(1) by simp
  note D = merged_sourcesD [OF J]
  obtain g' db2 where r: "recalculate_alert_group (al_now env) tgt db1 = (g', db2)"
    by fastforce
  note R = recalculate_group [OF r]
  define db' where "db' = create_alert_event_row None ''merge_target_updated'' ''Alert groups merged into this group'' u (Some (ag_id g')) db2"
  have rows: "ag_rows db' = update_row ag_id g' (ag_rows db1)" "ca_rows db' = ca_rows db2" "sh_rows db' = sh_rows db1"
    by (simp_all add: db'_def R)
  have out: "merge_alert_groups env i ids u why db = (Inr g', db')"
    using tgt m r by (simp add: merge_alert_groups_def atomic_def db_bind_def db_read_def db_write_def db_return_def Let_def db'_def)
  have wf': "alert_wf db'"
    using steps_merge [OF wf, of i "{i}" env ids u why] lsteps_wf [OF _ wf] out by (auto simp: wp_def)
  obtain f where f: "ca_rows db2 = map (\<lambda>a. a\<lparr>ca_resolved_at := f a\<rparr>) (ca_rows db1)"
    and others: "\<And>a. ca_group a \<noteq> Some (ag_id tgt) \<Longrightarrow> f a = ca_resolved_at a"
    using R(11) by blast
  have mem: "ca_group (move_alert ?J tgt a) = Some i \<longleftrightarrow> ca_group a \<in> Some ` insert i (set ids)" for a
    using id(1) by auto
  have tgt1: "tgt \<in> set (ag_rows db1)"
    using D(9) [of tgt] id by simp
  have there: "g' \<in> set (ag_rows db')"
    using tgt1 R(1) by (auto simp: rows update_row_def image_iff)
  have set1: "ca_status ` {a \<in> set (ca_rows db1). ca_group a = Some (ag_id tgt)} =
      ca_status ` {a \<in> set (ca_rows db). ca_group a \<in> Some ` insert i (set ids)}"
  proof -
    have "{a \<in> set (ca_rows db1). ca_group a = Some (ag_id tgt)} = move_alert ?J tgt ` {a \<in> set (ca_rows db). ca_group a \<in> Some ` insert i (set ids)}"
      unfolding D(1) id(1) mem [symmetric] by (auto simp del: move_alert_fields)
    then show ?thesis
      by (simp add: image_image)
  qed
  show ?thesis
  proof (rule that [OF out wf'])
    show "get_alert_group db' i = Inr g'"
      using there R(1) id(1) get_alert_group_Inr [OF wf'] by simp
    show "ag_merged_into g' = ag_merged_into tgt"
      by (rule R(2))
    show "map (\<lambda>a. (ca_id a, ca_status a, ca_group a)) (ca_rows db') =
       map (\<lambda>a. (ca_id a, ca_status a, if ca_group a \<in> Some ` ?J then Some i else ca_group a)) (ca_rows db)"
      by (simp add: rows f D(1) id(1) comp_def)
    show "filter (\<lambda>a. ca_group a \<notin> Some ` insert i (set ids)) (ca_rows db') =
        filter (\<lambda>a. ca_group a \<notin> Some ` insert i (set ids)) (ca_rows db)" (is "filter ?out _ = _")
      unfolding rows f D(1) map_map by (rule filter_map_frame) (use others id(1) in \<open>auto simp: move_alert_def\<close>)
    show "ag_alert_count g' = int (length (filter (\<lambda>a. ca_group a \<in> Some ` insert i (set ids)) (ca_rows db)))"
      unfolding R(6) group_alerts_def id(1) length_filter_sort_key D(1) filter_map comp_def mem by simp
    show "g_status g' = summary_status (g_status tgt) (ca_status ` {a \<in> set (ca_rows db). ca_group a \<in> Some ` insert i (set ids)})"
      using recalculate_status [OF r] unfolding set1 .
    have 1: "group_is (\<lambda>h. g_status h = ''merged'' \<and> ag_merged_into h = Some i) j db'" if j: "j \<in> ?J" for j
    proof -
      obtain h where h: "h \<in> set (ag_rows db1)" "ag_id h = j"
        using j D(6) unfolding D(8) [symmetric] by blast
      then have "h \<in> set (ag_rows db')"
        using that R(1) id(1) by (auto simp: rows update_row_def image_iff)
      then show ?thesis
        using h that D(10,11) [of h] id(1) by (auto simp: group_is_iff [OF wf'])
    qed
    have 2: "active_shelves db' j = []" if "j \<in> ?J" for j
      using that by (auto simp: active_shelves_Nil rows D(2) close_shelf_def)
    have 3: "get_alert_group db' j = get_alert_group db j" if "j \<noteq> i" "j \<notin> set ids" for j
    proof (rule get_alert_group_cong [OF dist])
      show "distinct (map ag_id (ag_rows db'))"
        using wf' by (simp add: alert_wf_def)
      show "g \<in> set (ag_rows db') \<longleftrightarrow> g \<in> set (ag_rows db)" if "ag_id g = j" for g
        using that \<open>j \<noteq> i\<close> \<open>j \<notin> set ids\<close> D(9) [of g] R(1) id(1) by (auto simp: rows update_row_def image_iff)
    qed
    show "\<forall>j. if j \<in> ?J
       then group_is (\<lambda>h. g_status h = ''merged'' \<and> ag_merged_into h = Some i) j db' \<and> active_shelves db' j = []
       else j \<noteq> i \<longrightarrow> get_alert_group db' j = get_alert_group db j"
      using 1 2 3 by auto
  qed
qed

end
