(* ===== verification/Alert_Safety.thy ===== *)
theory Alert_Safety
  imports Alert_Merge Rbac_Correct
begin

text \<open>
  The properties of the manual lifecycle: the invariant over every run, terminal groups, what
  acknowledging, resolving and shelving leave, what merging conserves, and the group that merging
  into a merged group leaves behind.
\<close>

section \<open>What a successful action wrote\<close>

lemma group_audit_Inr:
  assumes "group_audit env g act u tok data db = (Inr x, db')"
  obtains row where "db' = db\<lparr>core_db := (core_db db)\<lparr>db_audit_logs := db_audit_logs (core_db db) @ [row]\<rparr>\<rparr>"
    "al_action row = act" "al_object_id row = Some (ag_id g)" "al_user row = u"
  using assms
  by (auto simp: group_audit_def in_core_def db_bind_def db_read_def db_return_def create_audit_log_def Let_def
      split: prod.splits sum.splits if_splits)

lemma wp_group_audit_row:
  assumes "\<And>e c. Q (Inl e) (db\<lparr>core_db := c\<rparr>)"
    and "\<And>row. al_action row = act \<Longrightarrow> al_object_id row = Some (ag_id g) \<Longrightarrow> al_user row = u
      \<Longrightarrow> Q (Inr ()) (db\<lparr>core_db := (core_db db)\<lparr>db_audit_logs := db_audit_logs (core_db db) @ [row]\<rparr>\<rparr>)"
  shows "wp (group_audit env g act u tok data) Q db"
proof (rule wp_cases)
  fix e db' assume "group_audit env g act u tok data db = (Inl e, db')"
  then have "db' = db\<lparr>core_db := core_db db'\<rparr>"
    by (auto simp: group_audit_def in_core_def split: prod.splits)
  then show "Q (Inl e) db'"
    using assms(1) by metis
next
  fix x db' assume "group_audit env g act u tok data db = (Inr x, db')"
  then show "Q (Inr x) db'"
    by (rule group_audit_Inr) (simp add: assms(2))
qed

text \<open>Nothing pending of these kinds for the group.\<close>

definition no_pending_deliveries :: "int \<Rightarrow> string set \<Rightarrow> alert_db \<Rightarrow> bool" where
  "no_pending_deliveries i T db \<longleftrightarrow> list_all (\<lambda>d. \<not> (dr_group d = i \<and> dr_status d = ''pending'' \<and> dr_event_type d \<in> T)) (dr_rows db)"

lemma no_pending_cancel: "no_pending_deliveries i T (cancel_pending_group_deliveries i T r db)"
proof -
  have "list_all (\<lambda>d. \<not> (dr_group d = i \<and> dr_status d = ''pending'' \<and> dr_event_type d \<in> T))
    (map (\<lambda>d. if dr_group d = i \<and> dr_status d = ''pending'' \<and> dr_event_type d \<in> T
       then d\<lparr>dr_status := ''skipped'', dr_provider_status := Some ''skipped'', dr_last_error := Some r\<rparr> else d) rows)" for rows
    by (induction rows) simp_all
  then show ?thesis
    by (simp add: no_pending_deliveries_def cancel_pending_group_deliveries_def)
qed

lemma no_pending_cong: "dr_rows db' = dr_rows db \<Longrightarrow> no_pending_deliveries i T db' = no_pending_deliveries i T db"
  by (simp add: no_pending_deliveries_def)

lemma no_pending_frame [simp]:
  "no_pending_deliveries i T (create_alert_event_row a t m u g db) = no_pending_deliveries i T db"
  "no_pending_deliveries i T (db\<lparr>core_db := c\<rparr>) = no_pending_deliveries i T db"
  by (rule no_pending_cong; simp)+

lemma cancel_no_pending: "no_pending_deliveries i T db \<Longrightarrow> cancel_pending_group_deliveries i T r db = db"
  by (cases db) (auto simp: no_pending_deliveries_def cancel_pending_group_deliveries_def list_all_iff intro!: map_idI)

text \<open>Deliveries before and after: those of a group that were pending and of these kinds are skipped, the
  others are as they were.\<close>

definition only_skips :: "int \<Rightarrow> string set \<Rightarrow> alert_db \<Rightarrow> alert_db \<Rightarrow> bool" where
  "only_skips i T db db' \<longleftrightarrow> list_all2 (\<lambda>d d'. d' = d
      \<or> (dr_group d = i \<and> dr_status d = ''pending'' \<and> dr_event_type d \<in> T
          \<and> dr_status d' = ''skipped'' \<and> dr_group d' = i \<and> dr_user d' = dr_user d \<and> dr_event_type d' = dr_event_type d))
    (dr_rows db) (dr_rows db')"

lemma only_skips_cancel: "dr_rows db' = dr_rows db \<Longrightarrow> only_skips i T db (cancel_pending_group_deliveries i T r db')"
  by (simp add: only_skips_def cancel_pending_group_deliveries_def list_all2_map2 list_all2_same)

lemma only_skips_cong: "dr_rows db'' = dr_rows db' \<Longrightarrow> only_skips i T db db'' = only_skips i T db db'"
  by (simp add: only_skips_def)

lemma only_skips_frame [simp]:
  "only_skips i T db (create_alert_event_row a t m u g db') = only_skips i T db db'"
  "only_skips i T db (db'\<lparr>core_db := c\<rparr>) = only_skips i T db db'"
  by (rule only_skips_cong; simp)+

text \<open>The core tables before and after an action that only adds to the audit log.\<close>

definition only_audits :: "int \<Rightarrow> int option \<Rightarrow> nat \<Rightarrow> alert_db \<Rightarrow> alert_db \<Rightarrow> bool" where
  "only_audits i u n db db' \<longleftrightarrow> (\<exists>rows. core_db db' = (core_db db)\<lparr>db_audit_logs := db_audit_logs (core_db db) @ rows\<rparr>
     \<and> length rows = n \<and> list_all (\<lambda>row. al_object_id row = Some i \<and> al_user row = u) rows)"

lemma only_audits_refl: "core_db db' = core_db db \<Longrightarrow> only_audits i u 0 db db'"
  by (simp add: only_audits_def)

lemma only_audits_row:
  "core_db db' = (core_db db)\<lparr>db_audit_logs := db_audit_logs (core_db db) @ [row]\<rparr> \<Longrightarrow> al_object_id row = Some i
    \<Longrightarrow> al_user row = u \<Longrightarrow> only_audits i u (Suc 0) db db'"
  by (auto simp: only_audits_def intro!: exI [of _ "[row]"])

lemma er_rows_event:
  "er_rows (create_alert_event_row a t m u g db) =
     er_rows db @ [\<lparr>er_alert = a, er_group = g, er_type = t, er_message = m, er_user = u\<rparr>]"
  by (simp add: create_alert_event_row_def)

lemma acknowledge_again:
  assumes "get_alert_group db i = Inr g" "g_status g = ''acknowledged''" "\<not> g_notification_pending g"
    and "no_pending_deliveries (ag_id g) ACK_CANCELLED_DELIVERY_EVENT_TYPES db"
  shows "acknowledge_alert env i u src tok db = (Inr g, db)"
  using assms
  by (simp add: acknowledge_alert_def atomic_def db_bind_def db_read_def cancel_ack_cases cancel_no_pending Let_def)

lemma get_saved:
  assumes "alert_wf db" "g \<in> set (ag_rows db)" "ag_id g' = ag_id g" "ag_rows db' = update_row ag_id g' (ag_rows db)"
  shows "get_alert_group db' (ag_id g) = Inr g'" "j \<noteq> ag_id g \<Longrightarrow> get_alert_group db' j = get_alert_group db j"
proof -
  have d: "distinct (map ag_id (ag_rows db))" "distinct (map ag_id (ag_rows db'))"
    using assms(1,4) by (simp_all add: alert_wf_def)
  show "get_alert_group db' (ag_id g) = Inr g'"
    using in_update_row [OF assms(2,2), of ag_id g'] assms(3,4) by (simp add: get_alert_group_iff [OF d(2)])
  show "get_alert_group db' j = get_alert_group db j" if "j \<noteq> ag_id g"
    by (rule get_alert_group_cong [OF d]) (use that assms(3,4) in \<open>auto simp: update_row_def image_iff\<close>)
qed

lemma acknowledge_result:
  assumes wf: "alert_wf db" and g: "get_alert_group db i = Inr g" and open_: "g_status g = ''acknowledged'' \<or> \<not> group_closed g"
    and out: "acknowledge_alert env i u src tok db = (Inr g', db')"
  shows "ag_id g' = i" "g_status g' = ''acknowledged''" "\<not> g_notification_pending g'"
    "ag_rows db' = update_row ag_id g' (ag_rows db)" "ca_rows db' = ca_rows db" "sh_rows db' = sh_rows db" "mg_rows db' = mg_rows db"
    "no_pending_deliveries i ACK_CANCELLED_DELIVERY_EVENT_TYPES db'" "only_skips i ACK_CANCELLED_DELIVERY_EVENT_TYPES db db'"
    "only_audits i u (if g_status g = ''acknowledged'' then 0 else 1) db db'"
    "er_rows db' = er_rows db @ (if g_status g = ''acknowledged'' then [] else
       [\<lparr>er_alert = None, er_group = Some i, er_type = ''acknowledged'', er_message = ''Alert group acknowledged'', er_user = u\<rparr>])"
proof -
  have gs: "g \<in> set (ag_rows db)" "ag_id g = i"
    using g get_alert_group_Inr [OF wf] by simp_all
  define P where "P g' db' \<longleftrightarrow> ag_id g' = i \<and> g_status g' = ''acknowledged'' \<and> \<not> g_notification_pending g'
    \<and> ag_rows db' = update_row ag_id g' (ag_rows db) \<and> ca_rows db' = ca_rows db \<and> sh_rows db' = sh_rows db \<and> mg_rows db' = mg_rows db
    \<and> no_pending_deliveries i ACK_CANCELLED_DELIVERY_EVENT_TYPES db' \<and> only_skips i ACK_CANCELLED_DELIVERY_EVENT_TYPES db db'
    \<and> only_audits i u (if g_status g = ''acknowledged'' then 0 else 1) db db'
    \<and> er_rows db' = er_rows db @ (if g_status g = ''acknowledged'' then [] else
       [\<lparr>er_alert = None, er_group = Some i, er_type = ''acknowledged'', er_message = ''Alert group acknowledged'', er_user = u\<rparr>])" for g' db'
  have "wp (acknowledge_alert env i u src tok) (\<lambda>r db'. \<forall>g'. r = Inr g' \<longrightarrow> P g' db') db"
  proof (cases "g_status g = ''acknowledged''")
    case True
    have same: "update_row ag_id g (ag_rows db) = ag_rows db"
      using row_unique [OF wf gs(1)] by (auto simp: update_row_def intro!: map_idI)
    show ?thesis
      using True gs same
      by (simp add: acknowledge_alert_def wp_simps g cancel_ack_cases Let_def clear_alert_group_notification_def P_def
          no_pending_cancel only_skips_cancel only_audits_refl)
  next
    case False
    then have "\<not> group_closed g"
      using open_ by simp
    with False show ?thesis
      unfolding acknowledge_alert_def acknowledge_alert_group_def audit_lifecycle_change_def
      by (simp add: wp_simps g cancel_ack_cases Let_def del: redact_secrets.simps)
        (intro conjI impI wp_group_audit_row;
         use gs in \<open>auto simp: clear_alert_group_notification_def no_pending_cancel only_skips_cancel wp_simps P_def
           er_rows_event intro!: only_audits_row\<close>)
  qed
  then have "P g' db'"
    using out by (simp add: wp_def)
  then show "ag_id g' = i" "g_status g' = ''acknowledged''" "\<not> g_notification_pending g'"
    "ag_rows db' = update_row ag_id g' (ag_rows db)" "ca_rows db' = ca_rows db" "sh_rows db' = sh_rows db" "mg_rows db' = mg_rows db"
    "no_pending_deliveries i ACK_CANCELLED_DELIVERY_EVENT_TYPES db'" "only_skips i ACK_CANCELLED_DELIVERY_EVENT_TYPES db db'"
    "only_audits i u (if g_status g = ''acknowledged'' then 0 else 1) db db'"
    "er_rows db' = er_rows db @ (if g_status g = ''acknowledged'' then [] else
       [\<lparr>er_alert = None, er_group = Some i, er_type = ''acknowledged'', er_message = ''Alert group acknowledged'', er_user = u\<rparr>])"
    by (simp_all add: P_def)
qed

text \<open>Ending a shelf without restarting notifications.\<close>

lemma wp_clear_shelve:
  assumes wf: "alert_wf db"
  shows "wp (clear_shelve_on_resolve env i u tok) (\<lambda>r db'. \<forall>x. r = Inr x \<longrightarrow>
    ag_rows db' = ag_rows db \<and> ca_rows db' = ca_rows db \<and> dr_rows db' = dr_rows db \<and> active_shelves db' i = []) db"
proof (cases "get_alert_group db i")
  case (Inr g)
  note found = Inr
  have id: "ag_id g = i"
    using found get_alert_group_Inr [OF wf] by simp
  have why: "normalize_reason (Some ''alert_resolved'') = Inr (Some ''alert_resolved'')"
    by code_simp
  show ?thesis
  proof (cases "get_active_record db i")
    case None
    then have "active_shelves db i = []"
      by (simp add: active_shelves_Nil get_active_record_None)
    with None show ?thesis
      unfolding clear_shelve_on_resolve_def unshelve_alert_group_def
      by (simp add: wp_simps found why id Let_def)
  next
    case (Some p)
    have "active_shelves (db\<lparr>sh_rows := map (\<lambda>s. if sh_id s = sh_id p \<and> sh_active s then close_shelf env u why s else s) (sh_rows db)\<rparr>) i = []" for why
      using get_active_record_Some [OF _ Some] wf by (auto simp: active_shelves_Nil close_shelf_def alert_wf_def)
    then have ended: "active_shelves d i = []"
      if "sh_rows d = map (\<lambda>s. if sh_id s = sh_id p \<and> sh_active s then close_shelf env u ''alert_resolved'' s else s) (sh_rows db)" for d
      using that by (simp add: active_shelves_def)
    show ?thesis
      unfolding clear_shelve_on_resolve_def unshelve_alert_group_def
      by (simp add: wp_simps found why id Some Let_def del: redact_secrets.simps)
        (intro conjI impI wp_group_audit; auto simp: ended wp_simps split: sum.split)
  qed
qed (simp add: clear_shelve_on_resolve_def unshelve_alert_group_def wp_simps Let_def; cases "normalize_reason (Some ''alert_resolved'')"; simp add: wp_simps)

lemma resolve_result:
  assumes wf: "alert_wf db" and g: "get_alert_group db i = Inr g" and open_: "\<not> group_closed g"
    and out: "resolve_alert env i u src tok db = (Inr g', db')"
  shows "ag_id g' = i" "g_status g' = ''resolved''" "\<not> g_notification_pending g'" "ag_resolved_at g' = Some (al_now env)"
    "ag_rows db' = update_row ag_id g' (ag_rows db)" "ca_rows db' = resolve_alerts (al_now env) i (ca_rows db)"
    "active_shelves db' i = []"
proof -
  have gs: "g \<in> set (ag_rows db)" "ag_id g = i"
    using g get_alert_group_Inr [OF wf] by simp_all
  define P where "P g' db' \<longleftrightarrow> ag_id g' = i \<and> g_status g' = ''resolved'' \<and> \<not> g_notification_pending g' \<and> ag_resolved_at g' = Some (al_now env)
    \<and> ag_rows db' = update_row ag_id g' (ag_rows db) \<and> ca_rows db' = resolve_alerts (al_now env) i (ca_rows db)
    \<and> active_shelves db' i = []" for g' db'
  define Q where "Q r db' \<longleftrightarrow> (\<forall>g'. r = Inr g' \<longrightarrow> P g' db')" for r :: "db_exn + alert_group_row" and db'
  have Q: "Q (Inl e) d" "Q (Inr h) d \<longleftrightarrow> P h d" for e h d
    by (simp_all add: Q_def)
  have closed: "wp (clear_shelve_on_resolve env i u tok) (\<lambda>r db''. case r of
        Inl e \<Rightarrow> (case Inl e of Inl e \<Rightarrow> Q (Inl e) db | Inr x \<Rightarrow> Q (Inr x) db'')
      | Inr x \<Rightarrow> wp (db_bind (db_write (create_alert_event_row None a b u c)) (\<lambda>_.
            db_bind (audit_lifecycle_change env h act u src tok) (\<lambda>_. db_return h)))
          (\<lambda>r db'. case r of Inl e \<Rightarrow> Q (Inl e) db | Inr x \<Rightarrow> Q (Inr x) db') db'') d"
    if "alert_wf d" "ag_id h = i" "g_status h = ''resolved''" "\<not> g_notification_pending h" "ag_resolved_at h = Some (al_now env)"
      "ag_rows d = update_row ag_id h (ag_rows db)" "ca_rows d = resolve_alerts (al_now env) i (ca_rows db)" for d h act a b c
    by (rule wp_mono [OF wp_clear_shelve [OF that(1)]])
      (auto simp: Q P_def wp_simps that active_shelves_def split: sum.split intro!: wp_audit)
  have done_: "wp (clear_shelve_on_resolve env (ag_id g) u tok) (\<lambda>r db''. case r of
        Inl e \<Rightarrow> (case Inl e of Inl e \<Rightarrow> Q (Inl e) db | Inr x \<Rightarrow> Q (Inr x) db'')
      | Inr x \<Rightarrow> wp (db_bind (db_write (create_alert_event_row None a b u c)) (\<lambda>_.
            db_bind (audit_lifecycle_change env k act u src tok) (\<lambda>_. db_return k)))
          (\<lambda>r db'. case r of Inl e \<Rightarrow> Q (Inl e) db | Inr x \<Rightarrow> Q (Inr x) db') db'')
      (save_group (clear_alert_group_notification (al_now env) h) (save_group h (db\<lparr>ca_rows := resolve_alerts (al_now env) (ag_id g) (ca_rows db)\<rparr>)))"
    if "ag_id h = ag_id g" "ag_merged_into h = ag_merged_into g" "g_status h = ''resolved''" "ag_resolved_at h = Some (al_now env)"
      "k = clear_alert_group_notification (al_now env) h" for h k act a b c
  proof -
    have "lsteps {} db (save_group (clear_alert_group_notification (al_now env) h) (save_group h (db\<lparr>ca_rows := resolve_alerts (al_now env) (ag_id g) (ca_rows db)\<rparr>)))"
      by (rule one_step(4) [OF gs(1) open_, of "clear_alert_group_notification (al_now env) h" "al_now env"]) (simp_all add: that)
    then show ?thesis
      unfolding that(5) gs(2)
      by (intro closed) (use lsteps_wf [OF _ wf] that gs(2) in \<open>simp_all add: clear_alert_group_notification_def\<close>)
  qed
  have "wp (resolve_alert env i u src tok) Q db"
    using open_ unfolding resolve_alert_def resolve_alert_group_def resolve_alerts_def [symmetric]
    by (simp add: wp_simps g Let_def) (rule done_; simp)
  then have "P g' db'"
    using out by (simp add: wp_def Q)
  then show "ag_id g' = i" "g_status g' = ''resolved''" "\<not> g_notification_pending g'" "ag_resolved_at g' = Some (al_now env)"
    "ag_rows db' = update_row ag_id g' (ag_rows db)" "ca_rows db' = resolve_alerts (al_now env) i (ca_rows db)"
    "active_shelves db' i = []"
    by (simp_all add: P_def)
qed

section \<open>Shelving\<close>

lemma quiet_group_quiet: "\<not> g_notification_pending (quiet_group now g)" "g_next_escalation_at (quiet_group now g) = None"
  by (simp_all add: quiet_group_def Let_def clear_alert_group_notification_def truthy_text_def)

lemma normalize_duration_bounds:
  "normalize_duration dur = Inr d \<Longrightarrow> MIN_SHELVE_DURATION_SECONDS \<le> d \<and> d \<le> MAX_SHELVE_DURATION_SECONDS"
  by (auto simp: normalize_duration_def Let_def DEFAULT_SHELVE_DURATION_SECONDS_def MIN_SHELVE_DURATION_SECONDS_def
      MAX_SHELVE_DURATION_SECONDS_def split: option.splits if_splits)

lemma active_shelves_single:
  assumes "shelves_ok rows" "s \<in> set rows" "sh_active s"
  shows "filter (\<lambda>t. sh_group t = sh_group s \<and> sh_active t) rows = [s]"
proof -
  have "filter (\<lambda>t. sh_group t = sh_group s \<and> sh_active t) rows = filter (\<lambda>t. t = s) rows"
    using assms by (intro filter_cong) (auto simp: shelves_ok_def)
  moreover have "distinct rows"
    using assms(1) by (simp add: shelves_ok_def distinct_map)
  then have "filter (\<lambda>t. t = s) rows = [s]"
    using assms(2) by (induction rows) (auto simp: filter_empty_conv)
  ultimately show ?thesis
    by simp
qed

lemma wp_shelve:
  assumes wf: "alert_wf db" and ids: "fresh_ids (al_env env)" and g: "get_alert_group db i = Inr g"
  shows "wp (shelve_alert_group env i u dur why src tok) (\<lambda>r db'. \<forall>h s. r = Inr (h, s) \<longrightarrow>
    ag_rows db' = update_row ag_id (quiet_group (al_now env) g) (ag_rows db) \<and> h = quiet_group (al_now env) g
    \<and> ca_rows db' = ca_rows db \<and> s \<in> set (sh_rows db') \<and> sh_active s \<and> sh_group s = i
    \<and> (\<exists>d. sh_ends_at s = Some (al_now env + d * second) \<and> MIN_SHELVE_DURATION_SECONDS \<le> d \<and> d \<le> MAX_SHELVE_DURATION_SECONDS)
    \<and> no_pending_deliveries i SHELVE_CANCELLED_DELIVERY_EVENT_TYPES db') db" (is "wp _ (\<lambda>r db'. \<forall>h s. r = Inr (h, s) \<longrightarrow> ?P h s db') db")
proof -
  define Q where "Q r db' \<longleftrightarrow> (\<forall>h s. r = Inr (h, s) \<longrightarrow> ?P h s db')" for r :: "db_exn + alert_group_row \<times> shelve_row" and db'
  have Q: "Q (Inl e) d" "Q (Inr (h, s)) d \<longleftrightarrow> ?P h s d" for e h s d
    by (simp_all add: Q_def)
  have id: "ag_id g = i"
    using g get_alert_group_Inr [OF wf] by simp
  have "wp (shelve_alert_group env i u dur why src tok) Q db"
  proof (cases "normalize_duration dur")
    case (Inr d)
    note d = Inr normalize_duration_bounds [OF Inr]
    show ?thesis
    proof (cases "normalize_reason why")
      case (Inr w)
      note w = Inr
      show ?thesis
      proof (cases "g_status g = ''resolved'' \<or> fk_truthy (ag_merged_into g) \<noteq> None")
        case True
        then show ?thesis
          unfolding shelve_alert_group_def Let_def by (simp add: wp_simps d w g Q)
      next
        case False
        then have open_: "g_status g \<noteq> ''resolved''" "fk_truthy (ag_merged_into g) = None"
          by simp_all
        show ?thesis
          using open_ unfolding shelve_alert_group_def cancel_shelved_notification_work_def Let_def
          by (simp add: wp_simps d w g id del: redact_secrets.simps)
            (intro wp_group_audit; auto simp: wp_simps Q d id no_pending_cancel no_pending_cong [of "save_group h e" e for h e] split: sum.split)
      qed
    qed (simp add: shelve_alert_group_def wp_simps Let_def d Q)
  qed (simp add: shelve_alert_group_def wp_simps Let_def Q)
  then show ?thesis
    by (simp add: wp_def Q_def)
qed

text \<open>Where only counted statuses occur, closed groups are as one expects.\<close>

lemma counted_group:
  assumes "alert_wf db" "all_counted db" "g \<in> set (ag_rows db)" "a \<in> set (ca_rows db)" "ca_group a = Some (ag_id g)"
  shows "g_status g = ''resolved'' \<Longrightarrow> ca_status a = ''resolved''" "g_status g \<noteq> ''merged''"
proof -
  have ok: "group_ok db g"
    using assms by (simp add: alert_wf_def)
  have c: "counted (ca_status b)" if "b \<in> set (ca_rows db)" for b
    using assms(2) that by (simp add: all_counted_def list_all_iff)
  show "g_status g = ''resolved'' \<Longrightarrow> ca_status a = ''resolved''"
    using ok c [OF assms(4)] assms(4,5) by (auto simp: group_ok_def counted_def)
  show "g_status g \<noteq> ''merged''"
    using ok c assms(4,5) unfolding group_ok_def by blast
qed

section \<open>Properties\<close>

text \<open>C10. Every run of acknowledgements, resolutions, shelves, shelf expiry, merges and assignments, from
  tables with alerts in any status, keeps the tables consistent: keys are unique, resolved groups have no
  firing, acknowledged or silenced alerts, merged groups have a target, no such alerts and no active
  shelf, and a group has at most one active shelf. A run puts no alert into a status that
  recalculation does not count; from tables without such alerts (maintenance) resolved groups so keep
  only resolved alerts and merged groups none.\<close>

theorem alert_operations_keep_invariant:
  assumes "alert_wf db" and "list_all (\<lambda>(env, op). fresh_ids (al_env env)) ops"
  shows "let db' = run_alert_ops ops db in alert_wf db'
    \<and> (all_counted db \<longrightarrow> all_counted db' \<and>
        list_all (\<lambda>g. list_all (\<lambda>a. ca_group a = Some (ag_id g) \<longrightarrow>
            (g_status g = ''resolved'' \<longrightarrow> ca_status a = ''resolved'') \<and> g_status g \<noteq> ''merged'') (ca_rows db')) (ag_rows db'))"
proof -
  note steps = run_alert_ops_steps [OF assms subset_refl]
  have wf: "alert_wf (run_alert_ops ops db)"
    by (rule lsteps_wf [OF steps assms(1)])
  have "all_counted (run_alert_ops ops db)" if "all_counted db"
    by (rule counted_alerts.run_stable [OF steps assms(1) that])
  then show ?thesis
    using wf by (auto simp: Let_def list_all_iff dest: counted_group [OF wf])
qed

text \<open>C11. No run of these operations revives a resolved or merged group that is not the target of a merge:
  it stays resolved or merged, has no firing, acknowledged or silenced alert (and only resolved
  ones when no alert was in a status that is not counted), and the reminder loop never sees it.\<close>

theorem terminal_groups_stay_terminal:
  assumes wf: "alert_wf db" and ids: "list_all (\<lambda>(env, op). fresh_ids (al_env env)) ops"
    and g: "get_alert_group db i = Inr g" "terminal g" and i: "i \<notin> merge_targets (map snd ops)"
  shows "let db' = run_alert_ops ops db in group_is terminal i db'
    \<and> filter (\<lambda>a. ca_group a = Some i \<and> ca_status a \<in> OPEN_STATUSES) (ca_rows db') = []
    \<and> (all_counted db \<longrightarrow> filter (\<lambda>a. ca_group a = Some i \<and> ca_status a \<noteq> ''resolved'') (ca_rows db') = [])
    \<and> i \<notin> set (map ag_id (list_firing_alert_groups db'))"
proof -
  let ?db = "run_alert_ops ops db"
  have steps: "lsteps (merge_targets (map snd ops) - {i}) db ?db"
    by (rule run_alert_ops_steps [OF wf ids]) (use i in auto)
  note wf' = lsteps_wf [OF steps wf]
  have "row_closed i True db"
    using g get_alert_group_Inr [OF wf] by (auto simp: row_closed_def terminal_def group_closed_def)
  from closed_group.run_stable [OF steps wf this] obtain g' where g': "g' \<in> set (ag_rows ?db)" "ag_id g' = i" "terminal g'"
    by (auto simp: row_closed_def)
  then have "group_is terminal i ?db"
    by (auto simp: group_is_iff [OF wf'])
  moreover have "filter (\<lambda>a. ca_group a = Some i \<and> ca_status a \<in> OPEN_STATUSES) (ca_rows ?db) = []"
    using wf' g' by (auto simp: alert_wf_def group_ok_def terminal_def filter_empty_conv)
  moreover have "filter (\<lambda>a. ca_group a = Some i \<and> ca_status a \<noteq> ''resolved'') (ca_rows ?db) = []" if "all_counted db"
    using counted_group [OF wf' counted_alerts.run_stable [OF steps wf that] g'(1)] g'(2,3)
    by (auto simp: terminal_def filter_empty_conv)
  moreover have "ag_id h \<noteq> i" if "h \<in> set (list_firing_alert_groups ?db)" for h
    using that g' row_unique [OF wf', of h g'] by (auto simp: list_firing_alert_groups_def terminal_def)
  then have "i \<notin> set (map ag_id (list_firing_alert_groups ?db))"
    by auto
  ultimately show ?thesis
    by (simp add: Let_def)
qed

text \<open>C17. Acknowledging writes nothing when it fails or the group is closed. Otherwise the stored group is
  acknowledged and its queued notification is gone; of the deliveries exactly the pending notification,
  reminder and escalation ones of this group are skipped; the first time one event and one audit row of
  this group and user are added, later ones none; other groups, alerts, shelves, merges, deliveries
  and core tables are untouched, and any later acknowledgement changes nothing.\<close>

theorem acknowledge_alert_spec:
  assumes wf: "alert_wf db" and g: "get_alert_group db i = Inr g"
  shows "case acknowledge_alert env i u src tok db of
      (Inl e, db') \<Rightarrow> db' = db
    | (Inr g', db') \<Rightarrow>
        if g_status g \<noteq> ''acknowledged'' \<and> group_closed g then g' = g \<and> db' = db
        else get_alert_group db' i = Inr g' \<and> g_status g' = ''acknowledged'' \<and> \<not> g_notification_pending g'
           \<and> no_pending_deliveries i ACK_CANCELLED_DELIVERY_EVENT_TYPES db'
           \<and> only_skips i ACK_CANCELLED_DELIVERY_EVENT_TYPES db db'
           \<and> ca_rows db' = ca_rows db \<and> sh_rows db' = sh_rows db \<and> mg_rows db' = mg_rows db
           \<and> (j \<noteq> i \<longrightarrow> get_alert_group db' j = get_alert_group db j)
           \<and> only_audits i u (if g_status g = ''acknowledged'' then 0 else 1) db db'
           \<and> er_rows db' = er_rows db @ (if g_status g = ''acknowledged'' then [] else
                [\<lparr>er_alert = None, er_group = Some i, er_type = ''acknowledged'', er_message = ''Alert group acknowledged'', er_user = u\<rparr>])
           \<and> acknowledge_alert env' i u' src' tok' db' = (Inr g', db')"
proof (cases "acknowledge_alert env i u src tok db")
  case (Pair r db')
  show ?thesis
  proof (cases r)
    case (Inl e)
    then show ?thesis
      using Pair by (auto simp: acknowledge_alert_def atomic_def split: prod.splits sum.splits)
  next
    case (Inr g')
    show ?thesis
    proof (cases "g_status g \<noteq> ''acknowledged'' \<and> group_closed g")
      case True
      then show ?thesis
        using g by (simp add: acknowledge_alert_def atomic_def db_bind_def db_read_def db_return_def)
    next
      case False
      then have open_: "g_status g = ''acknowledged'' \<or> \<not> group_closed g"
        by blast
      note A = acknowledge_result [OF wf g open_ Pair [unfolded Inr]]
      have gs: "g \<in> set (ag_rows db)" "ag_id g = i" "ag_id g' = ag_id g"
        using g get_alert_group_Inr [OF wf] A(1) by simp_all
      note S = get_saved [OF wf gs(1,3) A(4)]
      have "acknowledge_alert env' i u' src' tok' db' = (Inr g', db')"
        using S(1) A gs(2) by (intro acknowledge_again) simp_all
      then show ?thesis
        using Pair Inr False A S gs(2) by auto
    qed
  qed
qed

text \<open>C18. Resolving writes nothing when it fails or the group is closed; otherwise the stored group and all
  its alerts are resolved, its queued notification and its shelf are gone, alerts of other groups
  and other groups are untouched, and any later resolve or acknowledge changes nothing.\<close>

theorem resolve_alert_spec:
  assumes wf: "alert_wf db" and g: "get_alert_group db i = Inr g"
  shows "case resolve_alert env i u src tok db of
      (Inl e, db') \<Rightarrow> db' = db
    | (Inr g', db') \<Rightarrow>
        if group_closed g then g' = g \<and> db' = db
        else get_alert_group db' i = Inr g' \<and> g_status g' = ''resolved'' \<and> ag_resolved_at g' = Some (al_now env)
           \<and> \<not> g_notification_pending g' \<and> active_shelves db' i = []
           \<and> filter (\<lambda>a. ca_group a = Some i \<and> ca_status a \<noteq> ''resolved'') (ca_rows db') = []
           \<and> filter (\<lambda>a. ca_group a \<noteq> Some i) (ca_rows db') = filter (\<lambda>a. ca_group a \<noteq> Some i) (ca_rows db)
           \<and> (j \<noteq> i \<longrightarrow> get_alert_group db' j = get_alert_group db j)
           \<and> resolve_alert env' i u' src' tok' db' = (Inr g', db')
           \<and> acknowledge_alert env' i u' src' tok' db' = (Inr g', db')"
proof (cases "resolve_alert env i u src tok db")
  case (Pair r db')
  show ?thesis
  proof (cases r)
    case (Inl e)
    then show ?thesis
      using Pair by (auto simp: resolve_alert_def atomic_def split: prod.splits sum.splits)
  next
    case (Inr g')
    show ?thesis
    proof (cases "group_closed g")
      case True
      then show ?thesis
        using g by (simp add: resolve_alert_def atomic_def db_bind_def db_read_def db_return_def)
    next
      case False
      note A = resolve_result [OF wf g False Pair [unfolded Inr]]
      have gs: "g \<in> set (ag_rows db)" "ag_id g = i" "ag_id g' = ag_id g"
        using g get_alert_group_Inr [OF wf] A(1) by simp_all
      note S = get_saved [OF wf gs(1,3) A(5)]
      have again: "group_closed g'" "g_status g' \<noteq> ''acknowledged''"
        using A(2) by (simp_all add: group_closed_def)
      have "resolve_alert env' i u' src' tok' db' = (Inr g', db')" "acknowledge_alert env' i u' src' tok' db' = (Inr g', db')"
        using S(1) gs(2) again
        by (simp_all add: resolve_alert_def acknowledge_alert_def atomic_def db_bind_def db_read_def db_return_def)
      moreover have "filter (\<lambda>a. ca_group a = Some i \<and> ca_status a \<noteq> ''resolved'') (ca_rows db') = []"
        by (auto simp: A(6) filter_empty_conv elim: resolve_alertsE)
      moreover have "filter (\<lambda>a. ca_group a \<noteq> Some i) (resolve_alerts (al_now env) i rows) = filter (\<lambda>a. ca_group a \<noteq> Some i) rows" for rows
        by (induction rows) (simp_all add: resolve_alerts_def)
      ultimately show ?thesis
        using Pair Inr False A S gs(2) by auto
    qed
  qed
qed

lemma not_Inr_unit:
  assumes "fst (p :: ('e + unit) \<times> 's) \<noteq> Inr ()"
  obtains e s where "p = (Inl e, s)"
proof (cases p)
  case (Pair r s)
  then show ?thesis
    using assms that by (cases r) auto
qed


text \<open>C13. A group that was merged away can be the target of a merge. It is firing again when a firing alert
  comes in, and still points to its old target: acknowledging and resolving it change nothing,
  it cannot be shelved, and neither the reminder loop, nor the notification queue, nor the
  search for an open group of its key ever finds it.\<close>

theorem merging_into_merged_group_strands_alerts:
  assumes wf: "alert_wf db" and tgt: "get_alert_group db i = Inr tgt" "g_status tgt = ''merged''"
    and out: "merge_alert_groups env i ids u why db = (Inr g', db')"
    and a: "a \<in> set (ca_rows db)" "ca_status a = ''firing''" "ca_group a = Some j" "j \<in> set ids"
  shows "get_alert_group db' i = Inr g' \<and> g_status g' = ''firing''
    \<and> acknowledge_alert env2 i v src tok db' = (Inr g', db') \<and> resolve_alert env2 i v src tok db' = (Inr g', db')
    \<and> snd (shelve_alert_group env2 i v dur rsn src tok db') = db'
    \<and> i \<notin> set (map ag_id (list_firing_alert_groups db'))
    \<and> i \<notin> set (map ag_id (list_due_alert_group_notifications db' now limit))
    \<and> (case find_open_alert_group env2 db' source key t r s of None \<Rightarrow> True | Some h \<Rightarrow> ag_id h \<noteq> i)"
proof -
  have ids: "set ids - {i} \<subseteq> ag_id ` set (ag_rows db)"
  proof (rule ccontr)
    assume "\<not> set ids - {i} \<subseteq> ag_id ` set (ag_rows db)"
    then have "fst (merge_sources env tgt u why ids db) \<noteq> Inr ()"
      using merge_sources_total [of env tgt u why ids db] tgt(1) get_alert_group_Inr [OF wf] by simp
    then show False
      using out tgt(1) by (auto simp: merge_alert_groups_def atomic_def db_bind_def db_read_def split: prod.splits sum.splits)
  qed
  obtain h d where m: "merge_alert_groups env i ids u why db = (Inr h, d)" "alert_wf d" "get_alert_group d i = Inr h"
    "ag_merged_into h = ag_merged_into tgt"
    "g_status h = summary_status (g_status tgt) (ca_status ` {a \<in> set (ca_rows db). ca_group a \<in> Some ` insert i (set ids)})"
    by (rule merge_result [OF wf tgt(1) ids, of env u why], rule that; assumption)
  have [simp]: "h = g'" "d = db'"
    using m(1) out by simp_all
  note m = m(2-5) [unfolded \<open>h = g'\<close> \<open>d = db'\<close>]
  let ?S = "ca_status ` {a \<in> set (ca_rows db). ca_group a \<in> Some ` insert i (set ids)}"
  have S: "''firing'' \<in> ?S"
    using a by (intro image_eqI [of _ _ a]) auto
  have "summary_status ''merged'' S = ''firing''" if "''firing'' \<in> S" for S
    using that by (auto simp: summary_status_def)
  from this [OF S] have firing: "g_status g' = ''firing''"
    using m(4) unfolding tgt(2) by (rule trans [rotated])
  have "tgt \<in> set (ag_rows db)"
    using tgt(1) get_alert_group_Inr [OF wf] by simp
  then have "ag_merged_into tgt \<noteq> None" "ag_merged_into tgt \<noteq> Some 0"
    using wf tgt(2) by (simp_all add: alert_wf_def group_ok_def)
  then have away: "ag_merged_into g' \<noteq> None" "fk_truthy (ag_merged_into g') \<noteq> None"
    by (auto simp: m(3) fk_truthy_def split: option.splits)
  have in': "g' \<in> set (ag_rows db')" "ag_id g' = i"
    using m(2) get_alert_group_Inr [OF m(1)] by simp_all
  have only: "h = g'" if "h \<in> set (ag_rows db')" "ag_id h = i" for h
    using row_unique [OF m(1) that(1) in'(1)] that(2) in'(2) by simp
  have "acknowledge_alert env2 i v src tok db' = (Inr g', db')" "resolve_alert env2 i v src tok db' = (Inr g', db')"
    using m(2) firing away(2)
    by (simp_all add: acknowledge_alert_def resolve_alert_def group_closed_def atomic_def db_bind_def db_read_def db_return_def)
  moreover have "snd (shelve_alert_group env2 i v dur rsn src tok db') = db'"
    using m(2) away(2) by (auto simp: shelve_alert_group_def db_bind_def db_read_def atomic_def db_raise_def Let_def split: sum.splits)
  moreover have "i \<notin> set (map ag_id (list_firing_alert_groups db'))"
    using only away(1) by (auto simp: list_firing_alert_groups_def)
  moreover have "i \<notin> set (map ag_id (list_due_alert_group_notifications db' now limit))"
  proof -
    have "h \<in> set (ag_rows db') \<and> ag_merged_into h = None" if "h \<in> set (list_due_alert_group_notifications db' now limit)" for h
      using in_set_takeD [OF that [unfolded list_due_alert_group_notifications_def]] by auto
    then show ?thesis
      using only away(1) by fastforce
  qed
  moreover have "ag_id h \<noteq> i" if found: "find_open_alert_group env2 db' source key t r s = Some h" for h
    using find_SomeD [OF found [unfolded find_open_alert_group_def Let_def]] only [of h] away(1) by auto
  ultimately show ?thesis
    using m(2) firing by (auto split: option.split)
qed

text \<open>C19. Shelving writes nothing when it fails; otherwise the group has exactly one active shelf, which ends
  between a minute and a week later, its queued notification, next escalation and pending
  deliveries are gone, and until the shelf ends scheduling a notification for the group only
  clears what is queued.\<close>

theorem shelve_alert_group_spec:
  assumes wf: "alert_wf db" and ids: "fresh_ids (al_env env)" and g: "get_alert_group db i = Inr g"
  shows "case shelve_alert_group env i u dur why src tok db of
      (Inl e, db') \<Rightarrow> db' = db
    | (Inr (g', s), db') \<Rightarrow>
        get_alert_group db' i = Inr g' \<and> same_state g g' \<and> \<not> g_notification_pending g' \<and> g_next_escalation_at g' = None
      \<and> no_pending_deliveries i SHELVE_CANCELLED_DELIVERY_EVENT_TYPES db'
      \<and> ca_rows db' = ca_rows db \<and> (j \<noteq> i \<longrightarrow> get_alert_group db' j = get_alert_group db j)
      \<and> active_shelves db' i = [s]
      \<and> (\<exists>d. sh_ends_at s = Some (al_now env + d * second) \<and> 60 \<le> d \<and> d \<le> 7 * 24 * 3600
           \<and> is_alert_group_shelved db' t i = (t < al_now env + d * second)
           \<and> (al_now env' < al_now env + d * second \<longrightarrow>
                (let (h, db'') = schedule_group_notification env' reason g' db'
                 in \<not> g_notification_pending h \<and> g_next_escalation_at h = None \<and> get_alert_group db'' i = Inr h)))"
proof (cases "shelve_alert_group env i u dur why src tok db")
  case (Pair r db')
  show ?thesis
  proof (cases r)
    case (Inl e)
    then show ?thesis
      using Pair by (auto simp: shelve_alert_group_def db_bind_def db_read_def atomic_def Let_def split: prod.splits sum.splits)
  next
    case (Inr gs)
    obtain g' s where r: "r = Inr (g', s)"
      using Inr by (cases gs) simp
    obtain d where rows: "ag_rows db' = update_row ag_id (quiet_group (al_now env) g) (ag_rows db)" "g' = quiet_group (al_now env) g"
      "ca_rows db' = ca_rows db" "s \<in> set (sh_rows db')" "sh_active s" "sh_group s = i"
      "no_pending_deliveries i SHELVE_CANCELLED_DELIVERY_EVENT_TYPES db'"
      and d: "sh_ends_at s = Some (al_now env + d * second)" "MIN_SHELVE_DURATION_SECONDS \<le> d" "d \<le> MAX_SHELVE_DURATION_SECONDS"
      using wp_shelve [OF wf ids g, of u dur why src tok] Pair by (auto simp: wp_def r)
    have wf': "alert_wf db'"
      using steps_shelve [OF wf ids, of i u dur why src tok "{}"] lsteps_wf [OF _ wf] Pair by (auto simp: wp_def)
    have in_db: "g \<in> set (ag_rows db)" "ag_id g = i" "i \<noteq> 0"
      using g get_alert_group_Inr [OF wf] wf by (auto simp: alert_wf_def group_ok_def)
    note S = get_saved [OF wf in_db(1) _ rows(1), simplified, unfolded in_db(2)]
    have one: "active_shelves db' i = [s]"
      using active_shelves_single [OF _ rows(4,5)] wf' by (simp add: active_shelves_def alert_wf_def rows(6))
    have until: "is_alert_group_shelved db' t i = (t < al_now env + d * second)" for t
      using in_db(3) by (simp add: is_alert_group_shelved_def get_current_shelve_def one d)
    have quiet: "\<not> g_notification_pending h \<and> g_next_escalation_at h = None \<and> get_alert_group db'' i = Inr h"
      if "al_now env' < al_now env + d * second" "schedule_group_notification env' reason g' db' = (h, db'')" for h db''
    proof -
      have h: "h = (clear_alert_group_notification (al_now env') g')\<lparr>g_next_escalation_at := None\<rparr>" "db'' = save_group h db'"
        using that until in_db(2) by (auto simp: schedule_group_notification_def Let_def rows(2))
      have "get_alert_group db'' (ag_id g') = Inr h"
        by (rule get_saved(1) [OF wf']) (use S(1) get_alert_group_Inr [OF wf'] in \<open>simp_all add: h rows(2)\<close>)
      then show ?thesis
        using in_db(2) by (simp add: h(1) clear_alert_group_notification_def rows(2))
    qed
    show ?thesis
      using Pair r S one d rows until quiet quiet_group_quiet [of "al_now env" g]
      by (auto simp: MIN_SHELVE_DURATION_SECONDS_def MAX_SHELVE_DURATION_SECONDS_def intro!: exI [of _ d])
  qed
qed

section \<open>A concrete run\<close>

text \<open>Two firing groups and a resolved one, with an alert each.\<close>

definition example_alert_env :: alert_env where
  "example_alert_env = \<lparr>al_env = example_env, al_now = 1000 * second, al_sha256 = (\<lambda>s. s), al_world = (\<lambda>_. demo_world),
     al_group_wait = 30, al_group_interval = 300\<rparr>"

definition example_alert_group :: "int \<Rightarrow> string \<Rightarrow> int option \<Rightarrow> alert_group_row" where
  "example_alert_group i st resolved_at = alert_group.extend (demo_group\<lparr>g_status := st, g_notification_pending := True\<rparr>)
     (alert_group_row.fields i None None None ''webhook'' ''k'' ''k'' ''disk full'' None None [] [] []
        None None None None resolved_at 0 0 None 1 1 0 0 0 False None None None None)"

definition example_alert :: "int \<Rightarrow> int \<Rightarrow> string \<Rightarrow> alert_row" where
  "example_alert i g st = \<lparr>ca_id = i, ca_group = Some g, ca_route = None, ca_source = ''webhook'', ca_dedup_key = ''d'',
     ca_external_id = None, ca_group_key = ''k'', ca_title = ''disk full'', ca_message = None, ca_severity = None,
     ca_labels = [], ca_payload = [], ca_status = st, ca_previous_status = None, ca_last_seen_at = i, ca_resolved_at = None\<rparr>"

definition example_alerts :: alert_db where
  "example_alerts = \<lparr>core_db = example_db,
     ag_rows = [example_alert_group 1 ''firing'' None, example_alert_group 2 ''firing'' None, example_alert_group 3 ''resolved'' (Some 5)],
     ca_rows = [example_alert 1 1 ''firing'', example_alert 2 2 ''firing'', example_alert 3 3 ''resolved''],
     sh_rows = [], mg_rows = [], er_rows = [],
     dr_rows = [\<lparr>dr_group = 1, dr_user = 1, dr_event_type = ''notification'', dr_status = ''pending'', dr_provider_status = None, dr_last_error = None\<rparr>]\<rparr>"

lemma example_alert_group_fields [simp]:
  "ag_id (example_alert_group i st r) = i" "g_status (example_alert_group i st r) = st"
  "ag_merged_into (example_alert_group i st r) = None" "ag_resolved_at (example_alert_group i st r) = r"
  by (simp_all add: example_alert_group_def alert_group.defs alert_group_row.defs demo_group_def)

lemma example_alerts_wf: "alert_wf example_alerts"
  by (simp add: alert_wf_def example_alerts_def example_alert_def group_ok_def shelves_ok_def OPEN_STATUSES_def)

lemma example_alert_groups:
  "get_alert_group example_alerts 1 = Inr (example_alert_group 1 ''firing'' None)"
  "get_alert_group example_alerts 2 = Inr (example_alert_group 2 ''firing'' None)"
  "get_alert_group example_alerts 3 = Inr (example_alert_group 3 ''resolved'' (Some 5))"
  by (simp_all add: get_alert_group_Inr [OF example_alerts_wf]) (simp_all add: example_alerts_def)

definition example_ops :: "(alert_env \<times> alert_op) list" where
  "example_ops = [(example_alert_env, Shelve 1 (Some 1) (Some 3600) None ''ui'' None),
     (example_alert_env\<lparr>al_now := 9000 * second\<rparr>, Expire_shelves 10),
     (example_alert_env, Merge 2 [1] (Some 1) None), (example_alert_env, Acknowledge 3 None ''ui'' None)]"

lemma example_ops_fresh: "list_all (\<lambda>(env, op). fresh_ids (al_env env)) example_ops"
  by (simp add: example_ops_def example_alert_env_def example_env_fresh)

definition is_Inr :: "'a + 'b \<Rightarrow> bool" where
  "is_Inr r = (case r of Inl _ \<Rightarrow> False | Inr _ \<Rightarrow> True)"

lemma is_InrE: assumes "is_Inr (fst p)" obtains x s where "p = (Inr x, s)"
  using assms by (cases p; cases "fst p") (auto simp: is_Inr_def)

lemma example_actions_succeed:
  "is_Inr (fst (acknowledge_alert example_alert_env 1 None ''ui'' None example_alerts))"
  "is_Inr (fst (resolve_alert example_alert_env 1 None ''ui'' None example_alerts))"
  "is_Inr (fst (shelve_alert_group example_alert_env 1 None None None ''ui'' None example_alerts))"
  by code_simp+

text \<open>The state after the first group was merged into the second.\<close>

definition merged_once :: alert_db where
  "merged_once = snd (merge_alert_groups example_alert_env 2 [1] (Some 1) None example_alerts)"

lemma merged_once_facts:
  "alert_wf merged_once" "is_Inr (fst (merge_alert_groups example_alert_env 1 [2] (Some 1) None merged_once))"
  "group_is (\<lambda>g. g_status g = ''merged'') 1 merged_once"
  "\<exists>a\<in>set (ca_rows merged_once). ca_status a = ''firing'' \<and> ca_group a = Some 2"
proof -
  have "set [1] - {2::int} \<subseteq> ag_id ` set (ag_rows example_alerts)"
    by (simp add: example_alerts_def)
  then obtain g' db' where m: "merge_alert_groups example_alert_env 2 [1] (Some 1) None example_alerts = (Inr g', db')" "alert_wf db'"
    "get_alert_group db' 2 = Inr g'"
    "map (\<lambda>a. (ca_id a, ca_status a, ca_group a)) (ca_rows db') =
       map (\<lambda>a. (ca_id a, ca_status a, if ca_group a \<in> Some ` (set [1] - {2}) then Some 2 else ca_group a)) (ca_rows example_alerts)"
    "\<forall>j. if j \<in> set [1] - {2::int}
       then group_is (\<lambda>h. g_status h = ''merged'' \<and> ag_merged_into h = Some 2) j db' \<and> active_shelves db' j = []
       else j \<noteq> 2 \<longrightarrow> get_alert_group db' j = get_alert_group example_alerts j"
    by (rule merge_result [OF example_alerts_wf example_alert_groups(2), of "[1]" example_alert_env "Some 1" None]) blast
  then have db': "merged_once = db'"
    by (simp add: merged_once_def)
  show wf: "alert_wf merged_once"
    using m(2) by (simp add: db')
  have one: "group_is (\<lambda>h. g_status h = ''merged'' \<and> ag_merged_into h = Some 2) 1 db'"
    using m(5) [rule_format, of 1] by simp
  then show "group_is (\<lambda>g. g_status g = ''merged'') 1 merged_once"
    by (auto simp: group_is_def db')
  from one obtain tgt where tgt: "get_alert_group merged_once 1 = Inr tgt"
    by (auto simp: group_is_def db')
  have "(2, ''firing'', Some 2) \<in> set (map (\<lambda>a. (ca_id a, ca_status a, ca_group a)) (ca_rows db'))"
    unfolding m(4) by (simp add: example_alerts_def example_alert_def)
  then show "\<exists>a\<in>set (ca_rows merged_once). ca_status a = ''firing'' \<and> ca_group a = Some 2"
    by (auto simp: db')
  have "2 \<in> ag_id ` set (ag_rows merged_once)"
    using m(3) get_alert_group_ids [of db' 2] by (auto simp: db')
  then have "set [2] - {1::int} \<subseteq> ag_id ` set (ag_rows merged_once)"
    by simp
  then show "is_Inr (fst (merge_alert_groups example_alert_env 1 [2] (Some 1) None merged_once))"
    by (rule merge_result [OF wf tgt, of "[2]" example_alert_env "Some 1" None]) (simp add: is_Inr_def)
qed

lemma alert_operations_keep_invariant_witness:
  "alert_wf (run_alert_ops example_ops example_alerts) \<and> length example_ops = 4"
  using alert_operations_keep_invariant [OF example_alerts_wf example_ops_fresh] by (simp add: example_ops_def Let_def)

lemma terminal_groups_stay_terminal_witness:
  "group_is terminal 3 (run_alert_ops example_ops example_alerts)"
  using terminal_groups_stay_terminal [OF example_alerts_wf example_ops_fresh example_alert_groups(3)]
  by (simp add: terminal_def example_ops_def Let_def)

lemma acknowledge_alert_spec_witness:
  "\<exists>g' db'. acknowledge_alert example_alert_env 1 None ''ui'' None example_alerts = (Inr g', db')
     \<and> get_alert_group db' 1 = Inr g' \<and> g_status g' = ''acknowledged'' \<and> \<not> g_notification_pending g'"
proof -
  obtain g' db' where "acknowledge_alert example_alert_env 1 None ''ui'' None example_alerts = (Inr g', db')"
    using example_actions_succeed(1) by (rule is_InrE)
  then show ?thesis
    using acknowledge_alert_spec [OF example_alerts_wf example_alert_groups(1), where env = example_alert_env and u = None and src = "''ui''" and tok = None and j = 2]
    by (simp add: group_closed_def fk_truthy_def)
qed

lemma resolve_alert_spec_witness:
  "\<exists>g' db'. resolve_alert example_alert_env 1 None ''ui'' None example_alerts = (Inr g', db')
     \<and> get_alert_group db' 1 = Inr g' \<and> g_status g' = ''resolved'' \<and> get_alert_group db' 2 = Inr (example_alert_group 2 ''firing'' None)"
proof -
  obtain g' db' where "resolve_alert example_alert_env 1 None ''ui'' None example_alerts = (Inr g', db')"
    using example_actions_succeed(2) by (rule is_InrE)
  then show ?thesis
    using resolve_alert_spec [OF example_alerts_wf example_alert_groups(1), where env = example_alert_env and u = None and src = "''ui''" and tok = None and j = 2]
    by (simp add: group_closed_def fk_truthy_def example_alert_groups(2))
qed


lemma merging_into_merged_group_strands_alerts_witness:
  "\<exists>g' db'. merge_alert_groups example_alert_env 1 [2] (Some 1) None merged_once = (Inr g', db')
     \<and> g_status g' = ''firing'' \<and> resolve_alert example_alert_env 1 None ''ui'' None db' = (Inr g', db')"
proof -
  obtain g' db' where out: "merge_alert_groups example_alert_env 1 [2] (Some 1) None merged_once = (Inr g', db')"
    using merged_once_facts(2) by (rule is_InrE)
  obtain a where a: "a \<in> set (ca_rows merged_once)" "ca_status a = ''firing''" "ca_group a = Some 2"
    using merged_once_facts(4) by blast
  obtain tgt where tgt: "get_alert_group merged_once 1 = Inr tgt" "g_status tgt = ''merged''"
    using merged_once_facts(3) by (auto simp: group_is_def)
  show ?thesis
    using out merging_into_merged_group_strands_alerts [OF merged_once_facts(1) tgt out a] by simp
qed

lemma shelve_alert_group_spec_witness:
  "\<exists>g' s db'. shelve_alert_group example_alert_env 1 None None None ''ui'' None example_alerts = (Inr (g', s), db')
     \<and> active_shelves db' 1 = [s] \<and> \<not> g_notification_pending g'"
proof -
  obtain x db' where "shelve_alert_group example_alert_env 1 None None None ''ui'' None example_alerts = (Inr x, db')"
    using example_actions_succeed(3) by (rule is_InrE)
  then show ?thesis
    using shelve_alert_group_spec [OF example_alerts_wf _ example_alert_groups(1), where env = example_alert_env and u = None and dur = None and why = None and src = "''ui''" and tok = None]
      example_env_fresh by (cases x) (auto simp: example_alert_env_def)
qed

end
