(* ===== verification/Heartbeat_Safety.thy ===== *)
theory Heartbeat_Safety
  imports Heartbeat_Cycle Alert_Safety Orch_Fields
begin

text \<open>
  What heartbeats promise: the due dates of schedules, silent heartbeats become overdue, pings
  recover them; and three ways in which the scheduler or a pause loses an alert.
\<close>

section \<open>Due dates\<close>

text \<open>Times of day as the API accepts them, hours and minutes of two digits.\<close>

lemma digit_not: "is_digit c \<Longrightarrow> c \<noteq> CHR '':'' \<and> c \<noteq> CHR ''_'' \<and> c \<noteq> CHR ''-'' \<and> c \<noteq> CHR ''+'' \<and> \<not> is_ws c"
  by (auto simp: is_digit_def is_ws_def code_of_def Let_def)

lemma int_value_digits: "is_digit a \<Longrightarrow> is_digit b \<Longrightarrow> \<exists>n. int_value [a, b] = Inr n"
  using digit_not [of a] digit_not [of b] strip_no_ws [of "[a, b]"] by (simp add: int_value_def parse_int_def)

definition clock_text :: "int \<Rightarrow> int \<Rightarrow> string" where
  "clock_text hh mm = pad_int 2 hh @ '':'' @ pad_int 2 mm"

lemma pad_int_two:
  "\<forall>n\<in>set [0..59]. case pad_int 2 n of [a, b] \<Rightarrow> is_digit a \<and> is_digit b \<and> int_value [a, b] = Inr n | _ \<Rightarrow> False"
  by code_simp

lemma two_digits:
  assumes "0 \<le> n" "n \<le> 59"
  obtains a b where "pad_int 2 n = [a, b]" "is_digit a" "is_digit b" "int_value [a, b] = Inr n"
  using assms pad_int_two [rule_format, of n] by (auto split: list.splits)

lemma parse_clock_text:
  assumes "0 \<le> hh" "hh \<le> 23" "0 \<le> mm" "mm \<le> 59"
  shows "parse_schedule_time (clock_text hh mm) = Inr ((hh * 60 + mm) * 60 * second)"
proof -
  obtain a b where h: "pad_int 2 hh = [a, b]" "is_digit a" "is_digit b" "int_value [a, b] = Inr hh"
    using two_digits [of hh] assms by auto
  obtain d e where m: "pad_int 2 mm = [d, e]" "is_digit d" "is_digit e" "int_value [d, e] = Inr mm"
    using two_digits [of mm] assms by auto
  have clock: "clock_text hh mm = [a, b, CHR '':'', d, e]"
    by (simp add: clock_text_def h(1) m(1))
  have "\<not> is_ws (CHR '':'')"
    by (simp add: is_ws_def code_of_def)
  then have "strip [a, b, CHR '':'', d, e] = [a, b, CHR '':'', d, e]"
    using h m digit_not by (intro strip_no_ws) auto
  moreover have "split_str '':'' (Some 1) [a, b, CHR '':'', d, e] = [[a, b], [d, e]]"
    using h m digit_not [of a] digit_not [of b] by (auto simp: split_str_def split_str_acc.simps)
  ultimately show ?thesis
    using assms by (simp add: parse_schedule_time_def clock h m algebra_simps)
qed

text \<open>
  C33. The latest and the next due date of a daily, weekly or monthly schedule are consecutive due
  instants around the present: the schedule names both, the one is not in the future, the other is,
  and no due instant lies between them, at month ends, in leap years and at turns of the year too.
  Their time of day is the one the schedule reads, for texts from 00:00 to 23:59 those hours and minutes.
  When the schedule's time of day cannot be read, the computation fails with that error.
\<close>

theorem heartbeat_due_dates:
  "case scheduled_due_local h now of
     Inl e \<Rightarrow> schedule_time h = Inl e
   | Inr due \<Rightarrow> (\<exists>tm. schedule_time h = Inr tm \<and> 0 \<le> tm \<and> tm < day_us
       \<and> brackets (due_instant h tm) now due (scheduled_next_due_local h due now)
       \<and> (\<forall>hh\<in>{0..23}. \<forall>mm\<in>{0..59}. hb_time h = Some (clock_text hh mm) \<longrightarrow> tm = (hh * 60 + mm) * 60 * second))"
proof (cases "scheduled_due_local h now")
  case (Inl e)
  then have "schedule_time h = Inl e"
    by (cases "schedule_time h") (simp_all add: scheduled_due_local_def Let_def)
  with Inl show ?thesis
    by simp
next
  case (Inr due)
  then obtain tm where tm: "schedule_time h = Inr tm" "0 \<le> tm" "tm < day_us"
    "brackets (due_instant h tm) now due (scheduled_next_due_local h due now)"
    by (rule due_brackets)
  have "tm = (hh * 60 + mm) * 60 * second" if "hh \<in> {0..23}" "mm \<in> {0..59}" "hb_time h = Some (clock_text hh mm)" for hh mm
    using that tm(1) parse_clock_text [of hh mm] by (simp add: schedule_time_def) (simp add: clock_text_def)
  with Inr tm show ?thesis
    by auto
qed

section \<open>Silence\<close>

definition interval_deadline :: "heartbeat_row \<Rightarrow> int" where
  "interval_deadline h = whole_seconds (case hb_last_seen h of Some t \<Rightarrow> t | None \<Rightarrow> hb_created_at h) + interval_seconds h * second"

lemma interval_next: "hb_mode h \<noteq> ''scheduled'' \<Longrightarrow> compute_next_expected_at tz now h = Inr (interval_deadline h)"
  by (simp add: compute_next_expected_at_def interval_deadline_def Let_def)

lemma interval_deadline_update: "interval_deadline (h\<lparr>hb_status := st, hb_overdue_since := t, hb_last_overdue_at := u, hb_updated_at := now\<rparr>) = interval_deadline h"
  by (simp add: interval_deadline_def interval_seconds_def split: option.split)

lemma whole_seconds_idem [simp]: "whole_seconds (whole_seconds t) = whole_seconds t"
  by (simp add: whole_seconds_def mod_diff_left_eq [symmetric])

lemma he_now_whole [simp]: "whole_seconds (he_now env) = he_now env"
  by (simp add: he_now_def)

lemma check_marks:
  assumes "rows_of i db = [h]" "heartbeat_is_overdue (he_tz env) (he_now env) h = Inr True" "hb_status h \<noteq> ''overdue''"
    and "\<And>now st t u. compute_next_expected_at (he_tz env) now (h\<lparr>hb_status := st, hb_overdue_since := t, hb_last_overdue_at := u, hb_updated_at := now\<rparr>) = Inr n"
  shows "\<exists>g. rows_of i (snd (check_heartbeat env h res db)) = [overdue_row (he_now env) n h\<lparr>hb_alert_group := g\<rparr>]"
proof -
  have "row_ends i (\<lambda>rows. \<exists>g. rows = [overdue_row (he_now env) n h\<lparr>hb_alert_group := g\<rparr>]) (check_heartbeat env h res) db"
    unfolding check_heartbeat_def Let_def
    by (intro row_ends_attempt row_ends_read_Inr [where x = True]; simp add: assms(2,3))
      (intro row_ends_last row_rules; use mark_row [OF assms(1,3,4)] in \<open>simp add: row_ends_def\<close>)
  then show ?thesis
    by (simp add: row_ends_def)
qed

lemma check_moves_on:
  assumes "rows_of i db = [h]" "heartbeat_is_overdue (he_tz env) (he_now env) h = Inr False"
    and "compute_next_expected_at (he_tz env) (he_now env) h = Inr n"
  shows "rows_of i (snd (check_heartbeat env h res db)) = [h\<lparr>hb_next_expected := Some n\<rparr>]"
proof -
  have id: "hb_id h = i"
    using assms(1) rows_of_iff [of h i db] by simp
  show ?thesis
    using assms id by (simp add: check_heartbeat_def attempt_def db_bind_def db_read_def db_write_def db_return_def Let_def rows_of_patch)
qed

lemma calm_rows [simp]: "\<not> hb_tracking h \<Longrightarrow> calm_row (overdue_row now n h\<lparr>hb_alert_group := g\<rparr>)"
  "\<not> hb_tracking h \<Longrightarrow> calm_row (h\<lparr>hb_next_expected := e\<rparr>)" "\<not> hb_tracking h \<Longrightarrow> calm_row h"
  by (simp_all add: calm_row_def overdue_row_def)

lemma process_moves_on:
  assumes "rows_of i db = [h]" "in_batch env ts db h" "length (hb_rows db) \<le> limit"
    and "heartbeat_is_overdue (he_tz env) (he_now env) h = Inr False" "compute_next_expected_at (he_tz env) (he_now env) h = Inr n"
  shows "rows_of i (snd (process_overdue_heartbeats env limit ts db)) = [h\<lparr>hb_next_expected := Some n\<rparr>]"
proof (rule process_row [OF assms(1-3), where P = "\<lambda>rows. rows = [h\<lparr>hb_next_expected := Some n\<rparr>]"])
  show "rows_of i (snd (check_heartbeat env h res db')) = [h\<lparr>hb_next_expected := Some n\<rparr>]" if "rows_of i db' = [h]" for res db'
    by (rule check_moves_on [OF that assms(4,5)])
  show "\<forall>x\<in>set rows. calm_row x" if "rows = [h\<lparr>hb_next_expected := Some n\<rparr>]" for rows
    using assms(2) that by (simp add: in_batch_def)
qed


section \<open>Schedules the scheduler keeps up with\<close>

definition offset_zone :: "int \<Rightarrow> zone \<Rightarrow> bool" where
  "offset_zone off z \<longleftrightarrow> (\<forall>t. utc_offset z t = off \<and> wall_offset z t = off) \<and> off mod second = 0"

lemma whole_seconds_same: "t mod second = 0 \<Longrightarrow> whole_seconds t = t"
  by (simp add: whole_seconds_def)

lemma schedule_time_whole:
  assumes "schedule_time h = Inr tm" "due_instant h tm x"
  shows "x mod second = 0"
proof -
  have "tm mod second = 0"
    using assms(1) by (auto simp: schedule_time_def parse_schedule_time_def Let_def res_bind_Inr_iff)
  moreover have "x = x div day_us * 86400 * second + tm"
    using assms(2) div_mult_mod_eq [of x day_us] by (simp add: due_instant_def)
  ultimately show ?thesis
    by (metis mod_mult_self3)
qed

text \<open>In a zone with one offset: the deadline in force and the date the scheduler writes.\<close>

lemma offset_dates:
  assumes zone: "offset_zone off (hb_zone tz h)" and mode: "hb_mode h = ''scheduled''" and tm: "schedule_time h = Inr tm"
    and now: "whole_seconds now = now"
  obtains latest nxt where "brackets (due_instant h tm) (now + off) latest nxt"
    "compute_next_expected_at tz now h = Inr (nxt - off)"
    "heartbeat_is_overdue tz now h = Inr True \<longrightarrow> latest - off + hb_grace h * second \<le> now"
    "\<exists>b. heartbeat_is_overdue tz now h = Inr b"
proof -
  have "\<exists>due. scheduled_due_local h (now + off) = Inr due"
    using tm by (simp add: scheduled_due_local_def Let_def)
  then obtain due where due: "scheduled_due_local h (now + off) = Inr due" ..
  then obtain tm' where b: "schedule_time h = Inr tm'" "brackets (due_instant h tm') (now + off) due (scheduled_next_due_local h due (now + off))"
    by (rule due_brackets)
  have b: "brackets (due_instant h tm) (now + off) due (scheduled_next_due_local h due (now + off))"
    using b tm by simp
  have wall: "to_wall (hb_zone tz h) t = t + off" "from_wall (hb_zone tz h) t = t - off" for t
    using zone by (simp_all add: offset_zone_def to_wall_def from_wall_def)
  have "x mod second = 0" if "due_instant h tm x" for x
    using schedule_time_whole [OF tm that] .
  then have whole: "whole_seconds (x - off) = x - off" if "due_instant h tm x" for x
    using that zone by (intro whole_seconds_same) (simp add: offset_zone_def mod_diff_eq [symmetric])
  have days: "whole_seconds (due - off) = due - off"
    "whole_seconds (scheduled_next_due_local h due (now + off) - off) = scheduled_next_due_local h due (now + off) - off"
    using b by (simp_all add: brackets_def whole)
  show ?thesis
  proof (rule that [OF b])
    show "compute_next_expected_at tz now h = Inr (scheduled_next_due_local h due (now + off) - off)"
      by (simp add: compute_next_expected_at_def mode now wall due days Let_def)
    show "heartbeat_is_overdue tz now h = Inr True \<longrightarrow> due - off + hb_grace h * second \<le> now"
      "\<exists>b. heartbeat_is_overdue tz now h = Inr b"
      by (auto simp: heartbeat_is_overdue_def mode now wall due days Let_def split: if_splits)
  qed
qed

lemma brackets_same:
  assumes "brackets D t l n" "brackets D t' l' n'" "t \<le> t'" "t' < n"
  shows "n' = n"
proof -
  have "n' \<le> l \<or> n \<le> n'" "n \<le> l' \<or> n' \<le> n"
    using assms(1,2) by (simp_all add: brackets_def)
  then show ?thesis
    using assms by (auto simp: brackets_def)
qed

lemma brackets_passed:
  assumes "brackets D t l n" "brackets D t' l' n'" "n \<le> t'"
  shows "n \<le> l'"
proof -
  have "n \<le> l' \<or> n' \<le> n"
    using assms(1,2) by (simp add: brackets_def)
  then show ?thesis
    using assms by (auto simp: brackets_def)
qed

lemma next_expected_update [simp]:
  "kind_of (h\<lparr>hb_next_expected := e\<rparr>) = kind_of h" "week_day (h\<lparr>hb_next_expected := e\<rparr>) = week_day h"
  "month_day (h\<lparr>hb_next_expected := e\<rparr>) = month_day h" "schedule_time (h\<lparr>hb_next_expected := e\<rparr>) = schedule_time h"
  "hb_zone tz (h\<lparr>hb_next_expected := e\<rparr>) = hb_zone tz h" "interval_seconds (h\<lparr>hb_next_expected := e\<rparr>) = interval_seconds h"
  by (simp_all add: kind_of_def week_day_def month_day_def schedule_time_def hb_zone_def interval_seconds_def)

lemma compute_next_update [simp]: "compute_next_expected_at tz now (h\<lparr>hb_next_expected := e\<rparr>) = compute_next_expected_at tz now h"
proof -
  have "scheduled_due_local (h\<lparr>hb_next_expected := e\<rparr>) = scheduled_due_local h"
    "scheduled_next_due_local (h\<lparr>hb_next_expected := e\<rparr>) = scheduled_next_due_local h"
    by (simp_all add: scheduled_due_local_def scheduled_next_due_local_def fun_eq_iff cong: if_cong)
  then show ?thesis
    by (simp add: compute_next_expected_at_def split: option.split)
qed

text \<open>A run within the grace period of the last one.\<close>

lemma scheduled_run:
  assumes row: "rows_of i db = [h]" and mode: "hb_mode h = ''scheduled''" "\<not> hb_tracking h" "hb_enabled h" "\<not> hb_deleted h" "hb_status h \<noteq> ''paused''"
    and live: "heartbeat_live (core_db (hb_alerts db)) h" and limit: "length (hb_rows db) \<le> limit"
    and zone: "offset_zone off (hb_zone (he_tz env) h)" and tm: "schedule_time h = Inr tm"
    and last: "whole_seconds t = t" "compute_next_expected_at (he_tz env) t h = Inr n" "hb_next_expected h = Some n"
    and now: "t \<le> he_now env" "he_now env \<le> t + hb_grace h * second"
  shows "\<exists>n'. rows_of i (snd (process_overdue_heartbeats env limit None db)) = [h\<lparr>hb_next_expected := Some n'\<rparr>]
    \<and> compute_next_expected_at (he_tz env) (he_now env) h = Inr n'"
proof -
  obtain l n0 where one: "brackets (due_instant h tm) (t + off) l n0" "compute_next_expected_at (he_tz env) t h = Inr (n0 - off)"
    using offset_dates [OF zone mode(1) tm last(1)] .
  obtain l' n' where two: "brackets (due_instant h tm) (he_now env + off) l' n'"
    "compute_next_expected_at (he_tz env) (he_now env) h = Inr (n' - off)"
    "heartbeat_is_overdue (he_tz env) (he_now env) h = Inr True \<longrightarrow> l' - off + hb_grace h * second \<le> he_now env"
    "\<exists>b. heartbeat_is_overdue (he_tz env) (he_now env) h = Inr b"
    using offset_dates [OF zone mode(1) tm he_now_whole [of env]] .
  have n: "n = n0 - off"
    using one(2) last(2) by simp
  have hit: "in_batch env None db h \<longleftrightarrow> n \<le> he_now env"
    using mode live last(3) by (simp add: in_batch_def due_now_def)
  show ?thesis
  proof (cases "n \<le> he_now env")
    case True
    have "n0 \<le> l'"
      by (rule brackets_passed [OF one(1) two(1)]) (use True n in simp)
    moreover have "t + off < n0"
      using one(1) by (simp add: brackets_def)
    ultimately have "heartbeat_is_overdue (he_tz env) (he_now env) h = Inr False"
      using two(3,4) now(2) by fastforce
    then show ?thesis
      using process_moves_on [OF row _ limit _ two(2), of None] hit True two(2) by blast
  next
    case False
    have "n' = n0"
      by (rule brackets_same [OF one(1) two(1)]) (use False n now in simp_all)
    then have "compute_next_expected_at (he_tz env) (he_now env) h = Inr n"
      using two(2) n by simp
    moreover have "h\<lparr>hb_next_expected := Some n\<rparr> = h"
      using last(3) by simp
    ultimately show ?thesis
      using process_other_row [OF row] hit False mode(2) by (intro exI [of _ n]) simp
  qed
qed

text \<open>Runs of the scheduler at most the grace period apart, each over all heartbeats.\<close>

fun kept_up :: "heartbeat_row \<Rightarrow> int \<Rightarrow> (hb_env \<times> nat) list \<Rightarrow> hb_db \<Rightarrow> bool" where
  "kept_up h t [] db \<longleftrightarrow> True"
| "kept_up h t ((env, limit) # runs) db \<longleftrightarrow>
     t \<le> he_now env \<and> he_now env \<le> t + hb_grace h * second
   \<and> heartbeat_live (core_db (hb_alerts db)) h \<and> length (hb_rows db) \<le> limit
   \<and> kept_up h (he_now env) runs (hb_op_db env (Check limit None) db)"

definition scheduler_runs :: "(hb_env \<times> nat) list \<Rightarrow> (hb_env \<times> hb_op) list" where
  "scheduler_runs = map (\<lambda>(env, limit). (env, Check limit None))"

lemma heartbeat_live_update [simp]: "heartbeat_live c (h\<lparr>hb_next_expected := e\<rparr>) = heartbeat_live c h"
  by (simp add: heartbeat_live_def)

lemma kept_up_update [simp]: "kept_up (h\<lparr>hb_next_expected := e\<rparr>) t runs db = kept_up h t runs db"
  by (induction h t runs db rule: kept_up.induct) simp_all

text \<open>
  C37. A heartbeat with a schedule never becomes overdue when the scheduler keeps up: in a zone with
  one offset, with its next date set as it was created at \<open>t\<close>, any number of runs at most the grace
  period apart leave its status alone, although no ping ever arrives. The run after a due date finds
  the grace period not over and moves the expected date on, so no run looks at that due date again.
\<close>

theorem scheduled_heartbeat_never_overdue:
  assumes "rows_of i db = [h]" "hb_mode h = ''scheduled''" "\<not> hb_tracking h" "hb_enabled h" "\<not> hb_deleted h" "hb_status h \<noteq> ''paused''"
    and "offset_zone off (hb_zone tz h)" "schedule_time h = Inr tm"
    and "whole_seconds t = t" "compute_next_expected_at tz t h = Inr n" "hb_next_expected h = Some n"
    and "list_all (\<lambda>(env, limit). he_tz env = tz) runs" "kept_up h t runs db"
  shows "\<exists>n'. rows_of i (run_hb_ops (scheduler_runs runs) db) = [h\<lparr>hb_next_expected := Some n'\<rparr>]"
  using assms
proof (induction runs arbitrary: h db t n)
  case Nil
  then show ?case
    by (intro exI [of _ n]) (simp add: scheduler_runs_def)
next
  case (Cons run runs)
  obtain env limit where run: "run = (env, limit)"
    by fastforce
  note prems = Cons.prems
  let ?db = "snd (process_overdue_heartbeats env limit None db)"
  have up: "he_tz env = tz" "t \<le> he_now env" "he_now env \<le> t + hb_grace h * second"
    "heartbeat_live (core_db (hb_alerts db)) h" "length (hb_rows db) \<le> limit" "kept_up h (he_now env) runs ?db"
    using prems(12,13) by (simp_all add: run)
  obtain n' where n': "rows_of i ?db = [h\<lparr>hb_next_expected := Some n'\<rparr>]" "compute_next_expected_at tz (he_now env) h = Inr n'"
    using scheduled_run [OF prems(1-6) up(4,5) _ prems(8,9) _ prems(11) up(2,3), of off] prems(7,10) by (auto simp: up(1))
  have "\<exists>m. rows_of i (run_hb_ops (scheduler_runs runs) ?db) = [h\<lparr>hb_next_expected := Some n'\<rparr>\<lparr>hb_next_expected := Some m\<rparr>]"
    by (rule Cons.IH [OF n'(1), of "he_now env" n']) (use prems(2-8,12) n'(2) up(6) in \<open>simp_all add: run\<close>)
  then show ?case
    by (simp add: scheduler_runs_def run)
qed

section \<open>Pausing\<close>

text \<open>Computations that do not raise.\<close>

definition never_raises :: "'a hbm \<Rightarrow> bool" where
  "never_raises m \<longleftrightarrow> (\<forall>db. \<exists>x db'. m db = (Inr x, db'))"

named_theorems no_raise_rules \<open>computations that do not raise\<close>

lemma no_raise_basic [no_raise_rules]: "never_raises (db_return x)" "never_raises (db_write w)" "never_raises (db_read (\<lambda>db. Inr (f db)))"
  by (simp_all add: never_raises_def db_return_def db_write_def db_read_def)

lemma no_raise_bind [no_raise_rules]: "never_raises m \<Longrightarrow> (\<And>x. never_raises (f x)) \<Longrightarrow> never_raises (db_bind m f)"
  unfolding never_raises_def db_bind_def by (metis (no_types, lifting) old.prod.case sum.case(2))

lemma no_raise_if [no_raise_rules]: "never_raises m \<Longrightarrow> never_raises n \<Longrightarrow> never_raises (if b then m else n)"
  by simp

lemma no_raise_for_each [no_raise_rules]: "(\<And>x res. never_raises (step x res)) \<Longrightarrow> never_raises (for_each step xs res)"
  by (induction xs arbitrary: res) (auto intro: no_raise_rules)

lemma no_raise_pause: "never_raises (pause_heartbeat env h)"
  unfolding pause_heartbeat_def Let_def by (intro no_raise_rules)

lemma find_hd_filter: "find P xs = (case filter P xs of [] \<Rightarrow> None | x # _ \<Rightarrow> Some x)"
  by (induction xs) auto

lemma get_heartbeat_row: "rows_of i db = [h] \<Longrightarrow> \<not> hb_deleted h \<Longrightarrow> get_heartbeat db i = Inr h"
proof -
  assume row: "rows_of i db = [h]" and "\<not> hb_deleted h"
  moreover have "filter (\<lambda>h. hb_id h = i \<and> \<not> hb_deleted h) (hb_rows db) = filter (\<lambda>h. \<not> hb_deleted h) (rows_of i db)"
    by (simp add: rows_of_def)
  ultimately have "filter (\<lambda>h. hb_id h = i \<and> \<not> hb_deleted h) (hb_rows db) = [h]"
    by simp
  then show ?thesis
    by (simp add: get_heartbeat_def the_row_def find_hd_filter)
qed

lemma pause_row:
  assumes row: "rows_of i db = [h]" and live: "\<not> hb_deleted h"
  shows "\<exists>t. rows_of i (hb_op_db env (Pause i) db) = [h\<lparr>hb_status := ''paused'', hb_updated_at := t\<rparr>]"
proof -
  have id: "hb_id h = i"
    using row rows_of_iff [of h i db] by simp
  have "never_raises (db_bind (db_read (\<lambda>_. Inr h)) (pause_heartbeat env))"
    by (intro no_raise_rules no_raise_pause)
  then have op: "hb_op_db env (Pause i) db = snd (pause_heartbeat env h db)"
    using get_heartbeat_row [OF row live] no_raise_pause
    by (simp add: pause_command_def atomic_def db_bind_def db_read_def never_raises_def split: prod.split sum.split) (metis Inl_Inr_False prod.inject)
  show ?thesis
  proof (cases "hb_status h = ''paused''")
    case True
    then have "h = h\<lparr>hb_status := ''paused'', hb_updated_at := hb_updated_at h\<rparr>"
      by simp
    then show ?thesis
      unfolding op using row True by (intro exI [of _ "hb_updated_at h"]) (simp add: pause_heartbeat_def db_return_def)
  next
    case False
    have "row_ends i (\<lambda>rows. rows = [h\<lparr>hb_status := ''paused'', hb_updated_at := he_now env\<rparr>]) (pause_heartbeat env h) db"
      unfolding pause_heartbeat_def Let_def if_not_P [OF False]
      by (intro row_ends_write row_ends_keep row_intros row_rules; simp add: rows_of_save_same [OF row] id)
    then show ?thesis
      unfolding op by (auto simp: row_ends_def)
  qed
qed

text \<open>A row that is stuck stays as it is, over any run.\<close>

definition hb_step :: "hb_db \<Rightarrow> hb_db \<Rightarrow> bool" where
  "hb_step db db' \<longleftrightarrow> (\<exists>env op. db' = hb_op_db env op db)"

interpretation stuck_rows: guarded_steps hb_step "\<lambda>db. rows_of i db = rows \<and> (\<forall>h\<in>set rows. stuck h)" for i rows
  by unfold_locales (auto simp: hb_step_def stuck_op)

lemma hb_step_op: "hb_step db (hb_op_db env op db)"
  by (auto simp: hb_step_def)

lemma run_hb_ops_steps: "hb_step\<^sup>*\<^sup>* db (run_hb_ops ops db)"
proof (induction ops arbitrary: db)
  case (Cons eop ops)
  obtain env op where eop: "eop = (env, op)"
    by fastforce
  show ?case
    by (rule converse_rtranclp_into_rtranclp [of hb_step, OF hb_step_op [of db env op]]) (use Cons eop in simp)
qed simp

text \<open>
  Pausing a heartbeat that tracks instances is for ever: after the pause no sequence of pings,
  pauses, resumes and runs of the scheduler changes the row again, so it stays paused and no later
  silence of its instances is noticed. Resuming re-enables the instances, but leaves the row to the rollup,
  which returns at once for a paused heartbeat.
\<close>

theorem paused_tracking_heartbeat_stays_paused:
  assumes "rows_of i db = [h]" "hb_tracking h" "\<not> hb_deleted h"
  shows "\<exists>t. rows_of i (run_hb_ops ((env, Pause i) # ops) db) = [h\<lparr>hb_status := ''paused'', hb_updated_at := t\<rparr>]"
proof -
  obtain t where t: "rows_of i (hb_op_db env (Pause i) db) = [h\<lparr>hb_status := ''paused'', hb_updated_at := t\<rparr>]"
    using pause_row [OF assms(1,3)] ..
  have "rows_of i (run_hb_ops ops (hb_op_db env (Pause i) db)) = rows_of i (hb_op_db env (Pause i) db)
    \<and> (\<forall>h\<in>set (rows_of i (hb_op_db env (Pause i) db)). stuck h)"
    by (rule stuck_rows.run_inv [OF run_hb_ops_steps]) (use assms(2) in \<open>simp add: t stuck_def del: hb_op_db.simps\<close>)
  then show ?thesis
    using t by auto
qed

text \<open>Operations on a row that is not overdue leave the alerts alone.\<close>

lemma resume_row:
  assumes row: "rows_of i db = [h]" and h: "hb_status h = ''paused''" "\<not> hb_tracking h" "\<not> hb_deleted h" "hb_mode h \<noteq> ''scheduled''"
  shows "hb_alerts (hb_op_db env (Resume i) db) = hb_alerts db
     \<and> (\<exists>st t u. st \<noteq> ''overdue'' \<and> st \<noteq> ''paused''
        \<and> rows_of i (hb_op_db env (Resume i) db) = [h\<lparr>hb_status := st, hb_next_expected := t, hb_updated_at := u\<rparr>])"
proof -
  have id: "hb_id h = i"
    using row rows_of_iff [of h i db] by simp
  define st where "st = (if hb_last_seen h \<noteq> None then ''ok'' else ''new'')"
  have st: "st \<noteq> ''overdue''" "st \<noteq> ''paused''"
    by (simp_all add: st_def)
  let ?new = "h\<lparr>hb_status := st, hb_next_expected := Some (interval_deadline (h\<lparr>hb_status := st\<rparr>)), hb_updated_at := he_now env\<rparr>"
  have "hb_op_db env (Resume i) db = record_ping ?new ''resumed'' None (Some (hb_status h)) st ''Heartbeat resumed'' [] None (he_now env) (save_heartbeat ?new db)"
    using h get_heartbeat_row [OF row h(3)]
    by (simp add: resume_command_def resume_heartbeat_def atomic_def db_bind_def db_read_def db_write_def db_return_def Let_def interval_next
        st_def)
  then show ?thesis
    using st rows_of_save_same [OF row, of ?new] id by (auto simp: save_heartbeat_def record_ping_def rows_of_def)
qed

lemma pause_alerts: "\<not> hb_tracking h \<Longrightarrow> get_heartbeat db i = Inr h \<Longrightarrow> hb_alerts (hb_op_db env (Pause i) db) = hb_alerts db"
  by (simp add: pause_command_def pause_heartbeat_def atomic_def db_bind_def db_read_def db_write_def db_return_def Let_def
      save_heartbeat_def record_ping_def)

definition pinged_row :: "int \<Rightarrow> pydict \<Rightarrow> int \<Rightarrow> heartbeat_row \<Rightarrow> heartbeat_row" where
  "pinged_row now payload next_at h =
     (let h' = h\<lparr>hb_last_seen := Some now, hb_last_payload := payload, hb_next_expected := Some next_at, hb_updated_at := now\<rparr> in
      if hb_status h = ''overdue''
      then h'\<lparr>hb_status := ''ok'', hb_overdue_since := None, hb_last_recovered_at := Some now, hb_alert_group := None\<rparr>
      else h'\<lparr>hb_status := (if hb_status h = ''paused'' then ''paused'' else ''ok'')\<rparr>)"

lemma pinged_row_id [simp]: "hb_id (pinged_row now p n h) = hb_id h"
  by (simp add: pinged_row_def Let_def)

lemma tables_of_writes [simp]:
  "hb_alerts (record_ping h e k b c m p g t db) = hb_alerts db" "hb_alerts (save_heartbeat h db) = hb_alerts db"
  "hp_rows (save_heartbeat h db) = hp_rows db"
  "hp_rows (record_ping h e k b c m p g t db) = hp_rows db @ [\<lparr>hp_heartbeat = hb_id h, hp_type = e, hp_instance = k,
     hp_before = b, hp_after = c, hp_message = m, hp_payload = p, hp_alert_group = g, hp_at = t\<rparr>]"
  by (simp_all add: record_ping_def save_heartbeat_def)

lemma ping_ordinary:
  assumes "hb_status h \<noteq> ''overdue''"
    and "compute_next_expected_at (he_tz env) (he_now env) (h\<lparr>hb_last_seen := Some (he_now env), hb_last_payload := p\<rparr>) = Inr n"
  shows "ping_heartbeat env h p db = (Inr (Accepted (pinged_row (he_now env) p n h)),
      record_ping (pinged_row (he_now env) p n h) ''ping'' None (Some (hb_status h)) (hb_status (pinged_row (he_now env) p n h))
        ''Heartbeat ping received'' p None (he_now env) (save_heartbeat (pinged_row (he_now env) p n h) db))"
  using assms by (simp add: ping_heartbeat_def db_bind_def db_read_def db_write_def db_return_def Let_def pinged_row_def ping_status_def)

lemma ping_row:
  assumes row: "rows_of i db = [h]" and h: "hb_status h \<noteq> ''overdue''" "hb_status h \<noteq> ''paused''" "hb_mode h \<noteq> ''scheduled''"
  shows "hb_alerts (snd (ping_heartbeat env h p db)) = hb_alerts db
     \<and> (\<exists>h'. rows_of i (snd (ping_heartbeat env h p db)) = [h'] \<and> hb_status h' = ''ok'' \<and> hb_last_seen h' = Some (he_now env)
        \<and> hb_alert_group h' = hb_alert_group h)"
proof -
  have id: "hb_id h = i"
    using row rows_of_iff [of h i db] by simp
  have next_at: "compute_next_expected_at (he_tz env) (he_now env) (h\<lparr>hb_last_seen := Some (he_now env), hb_last_payload := p\<rparr>)
      = Inr (interval_deadline (h\<lparr>hb_last_seen := Some (he_now env), hb_last_payload := p\<rparr>))"
    using h(3) by (simp add: interval_next)
  show ?thesis
    using h rows_of_save_same [OF row] id
    by (simp add: ping_ordinary [OF h(1) next_at]) (simp add: pinged_row_def Let_def)
qed

text \<open>
  C38. Pausing and resuming an overdue heartbeat strands its alert: the row is reset to ok or new while
  it still refers to the open alert group, so the ping that follows is an ordinary one, clears nothing and
  leaves every alert and alert group as it was before the pause.
\<close>

theorem resumed_heartbeat_strands_alert:
  assumes row: "rows_of i db = [h]" and h: "hb_status h = ''overdue''" "\<not> hb_tracking h" "\<not> hb_deleted h" "hb_mode h \<noteq> ''scheduled''"
    and token: "map_option hb_id (get_heartbeat_by_token env3 (run_hb_ops [(env1, Pause i), (env2, Resume i)] db) tok) = Some i"
  shows "\<exists>h'. hb_alerts (run_hb_ops [(env1, Pause i), (env2, Resume i), (env3, Ping tok payload)] db) = hb_alerts db
     \<and> rows_of i (run_hb_ops [(env1, Pause i), (env2, Resume i), (env3, Ping tok payload)] db) = [h']
     \<and> hb_status h' = ''ok'' \<and> hb_last_seen h' = Some (he_now env3) \<and> hb_alert_group h' = hb_alert_group h"
proof -
  define db1 where "db1 = hb_op_db env1 (Pause i) db"
  define db2 where "db2 = hb_op_db env2 (Resume i) db1"
  obtain t1 where "rows_of i db1 = [h\<lparr>hb_status := ''paused'', hb_updated_at := t1\<rparr>]" (is "_ = [?h1]")
    using pause_row [OF row h(3)] by (auto simp: db1_def)
  then have one: "rows_of i db1 = [?h1]" "hb_alerts db1 = hb_alerts db"
    using pause_alerts [OF h(2) get_heartbeat_row [OF row h(3)]] by (simp_all add: db1_def)
  obtain h2 where two: "rows_of i db2 = [h2]" "hb_alerts db2 = hb_alerts db" "hb_status h2 \<noteq> ''overdue''" "hb_status h2 \<noteq> ''paused''"
    "hb_alert_group h2 = hb_alert_group h" "\<not> hb_tracking h2" "hb_mode h2 \<noteq> ''scheduled''"
    using resume_row [OF one(1), of env2] h one(2) by (fastforce simp: db2_def)
  have run: "run_hb_ops [(env1, Pause i), (env2, Resume i), (env3, Ping tok payload)] db = hb_op_db env3 (Ping tok payload) db2"
    "run_hb_ops [(env1, Pause i), (env2, Resume i)] db = db2"
    by (simp_all add: db1_def db2_def)
  obtain h' where "get_heartbeat_by_token env3 db2 tok = Some h'" "hb_id h' = i"
    using token unfolding run by auto
  moreover have "h' \<in> set (hb_rows db2)" if "get_heartbeat_by_token env3 db2 tok = Some h'" for h'
    using that by (auto simp: get_heartbeat_by_token_def dest!: find_SomeD split: if_splits)
  ultimately have found: "get_heartbeat_by_token env3 db2 tok = Some h2"
    using rows_of_iff [of h' i db2] two(1) by auto
  have "hb_op_db env3 (Ping tok payload) db2 = snd (ping_heartbeat env3 h2 payload db2)"
    using two(6) by (simp add: receive_heartbeat_ping_def db_bind_def db_read_def found)
  then show ?thesis
    unfolding run using ping_row [OF two(1,3,4,7), of env3 payload] two(2,5) by auto
qed

section \<open>Recovery\<close>

definition group_resolved :: "int \<Rightarrow> alert_db \<Rightarrow> bool" where
  "group_resolved j a \<longleftrightarrow> (\<forall>g\<in>set (ag_rows a). ag_id g = j \<longrightarrow> g_status g = ''resolved'')"

lemma group_resolved_other [simp]:
  "group_resolved j (create_alert_event_row x e m u g a) = group_resolved j a"
  by (simp add: group_resolved_def create_alert_event_row_def)

lemma group_resolved_update: "g_status g = ''resolved'' \<Longrightarrow> ag_id g = j \<Longrightarrow> group_resolved j (a\<lparr>ag_rows := update_row ag_id g rows\<rparr>)"
  by (auto simp: group_resolved_def update_row_def)

definition keeps_resolved :: "int \<Rightarrow> 'a alm \<Rightarrow> bool" where
  "keeps_resolved j m \<longleftrightarrow> (\<forall>a. group_resolved j a \<longrightarrow> group_resolved j (snd (m a)))"

lemma keeps_resolved_bind: "keeps_resolved j m \<Longrightarrow> (\<And>x. keeps_resolved j (f x)) \<Longrightarrow> keeps_resolved j (db_bind m f)"
  by (simp add: keeps_resolved_def db_bind_def split: prod.split sum.split) (metis snd_conv)

lemma keeps_resolved_basic: "keeps_resolved j (db_return x)" "keeps_resolved j (db_read r)"
  "keeps_resolved j (db_write (create_alert_event_row y e msg u g))" "keeps_resolved j m \<Longrightarrow> keeps_resolved j n \<Longrightarrow> keeps_resolved j (if b then m else n)"
  by (simp_all add: keeps_resolved_def db_return_def db_read_def db_write_def)

lemma keeps_resolved_schedule: "keeps_resolved j (schedule_recovery_notification env g)"
  unfolding schedule_recovery_notification_def Let_def
  by (intro keeps_resolved_bind keeps_resolved_basic) (auto simp: keeps_resolved_def db_write_def group_resolved_def create_alert_event_row_def)

text \<open>What the delivery of a notification leaves of a resolved group.\<close>

definition notify_keeps_resolved :: "hb_env \<Rightarrow> bool" where
  "notify_keeps_resolved env \<longleftrightarrow> (\<forall>g j. keeps_resolved j (he_notify env g))"

lemma resolve_heartbeat_alert_resolves:
  assumes wf: "alert_wf a" and g: "get_alert_group a j = Inr g" and open_: "\<not> group_closed g" and notify: "notify_keeps_resolved env"
    and out: "resolve_heartbeat_alert env g e m db = (Inr r, db')" and a: "a = hb_alerts db"
  shows "group_resolved j (hb_alerts db')"
proof -
  have id: "ag_id g = j"
    using g get_alert_group_Inr [OF wf] by simp
  obtain g' a1 where one: "resolve_alert (he_alert env) j None ''system'' None a = (Inr g', a1)"
    using out by (auto simp: resolve_heartbeat_alert_def in_alerts_def db_bind_def id a split: prod.splits sum.splits)
  note done_ = resolve_result [OF wf g open_ one]
  let ?cleared = "clear_alert_group_notification (al_now (he_alert env)) g'"
  let ?rest = "db_bind (db_write (create_alert_event_row None e m None (Some (ag_id ?cleared)))) (\<lambda>_.
      db_bind (if he_recovery_delay env \<noteq> 0 then schedule_recovery_notification env ?cleared
               else if ag_last_notification_at g \<noteq> None then he_notify env ?cleared else db_return ()) (\<lambda>_. db_return ?cleared))"
  have "keeps_resolved j ?rest"
    using notify by (intro keeps_resolved_bind keeps_resolved_basic keeps_resolved_schedule) (simp add: notify_keeps_resolved_def)
  moreover have "group_resolved j (save_group ?cleared a1)"
    using done_(1,2) by (simp add: save_group_def group_resolved_update clear_alert_group_notification_def)
  moreover have "hb_alerts db' = snd (?rest (save_group ?cleared a1))"
    using arg_cong [OF out, of "\<lambda>r. hb_alerts (snd r)"] one
    by (simp add: resolve_heartbeat_alert_def in_alerts_def a id db_bind_def [of "resolve_alert _ _ _ _ _"] db_bind_def [of "db_write (save_group _)"] db_write_def [of "save_group _"] Let_def split: prod.splits split del: if_split)
  ultimately show ?thesis
    by (simp add: keeps_resolved_def)
qed

lemma resolve_current_only_alerts: "resolve_current_alert env ref e m db = (r, d) \<Longrightarrow> d = db\<lparr>hb_alerts := hb_alerts d\<rparr>"
  by (auto simp: resolve_current_alert_def resolve_heartbeat_alert_def in_alerts_def db_bind_def db_read_def db_return_def
      split: option.splits if_splits prod.splits sum.splits)

lemma resolve_current_resolves:
  assumes out: "resolve_current_alert env ref e m db = (Inr x, d)" and ref: "fk_truthy ref = Some j"
    and wf: "alert_wf (hb_alerts db)" and g: "get_alert_group (hb_alerts db) j = Inr g" "g_status g \<noteq> ''merged''" "fk_truthy (ag_merged_into g) = None"
    and notify: "notify_keeps_resolved env"
  shows "group_resolved j (hb_alerts d)"
proof (cases "g_status g = ''resolved''")
  case True
  have "d = db"
    using out ref g True by (simp add: resolve_current_alert_def db_bind_def db_read_def db_return_def)
  then show ?thesis
    using True g(1) wf row_unique [OF wf] by (auto simp: group_resolved_def get_alert_group_Inr)
next
  case False
  then have "\<not> group_closed g"
    using g by (simp add: group_closed_def)
  moreover obtain r where "resolve_heartbeat_alert env g e m db = (Inr r, d)"
    using out ref g(1) False
    by (auto simp: resolve_current_alert_def db_bind_def db_read_def db_return_def split: prod.splits sum.splits)
  ultimately show ?thesis
    by (intro resolve_heartbeat_alert_resolves [OF wf g(1) _ notify _ refl])
qed


section \<open>Concrete heartbeats\<close>

definition example_heartbeat :: "string \<Rightarrow> string \<Rightarrow> bool \<Rightarrow> int option \<Rightarrow> heartbeat_row" where
  "example_heartbeat mode st tracking next_at = \<lparr>hb_id = 7, hb_uid = ''u'', hb_group = None, hb_team = 1, hb_service = None, hb_route = 1,
     hb_name = ''backup'', hb_slug = ''backup'', hb_mode = mode, hb_interval = Some 300, hb_grace = 120, hb_kind = Some ''daily'',
     hb_time = Some ''00:00'', hb_weekday = None, hb_monthday = None, hb_timezone = ''UTC'', hb_status = st, hb_enabled = True,
     hb_deleted = False, hb_auto_resolve = True, hb_tracking = tracking, hb_instance_key = ''instance'', hb_expected_mode = ''none'',
     hb_ttl_days = None, hb_severity = ''critical'', hb_priority_slug = ''p2'', hb_token_hash = ''t'', hb_last_seen = None,
     hb_last_payload = [], hb_next_expected = next_at, hb_overdue_since = None, hb_last_overdue_at = None, hb_last_recovered_at = None,
     hb_alert_group = Some 1, hb_labels = [], hb_metadata = [], hb_created_at = 0, hb_updated_at = 0\<rparr>"

definition example_hb_db :: "heartbeat_row \<Rightarrow> hb_db" where
  "example_hb_db h = \<lparr>hb_alerts = example_alerts, hb_rows = [h], hi_rows = [], hp_rows = []\<rparr>"

text \<open>At a second, in UTC; the intake opens group 2 and notifications are delivered without a trace.\<close>

definition example_hb_env :: "int \<Rightarrow> hb_env" where
  "example_hb_env t = \<lparr>he_alert = example_alert_env\<lparr>al_now := t * second\<rparr>, he_tz = (\<lambda>_. None), he_upsert = (\<lambda>_ a. (Inr (Some 2), a)),
     he_notify = (\<lambda>_ a. (Inr (), a)), he_recovery_delay = 0\<rparr>"

lemma example_notify: "notify_keeps_resolved (example_hb_env t)"
  by (simp add: notify_keeps_resolved_def keeps_resolved_def example_hb_env_def)

lemma example_rows:
  "rows_of 7 (example_hb_db (example_heartbeat mode st tracking next_at)) = [example_heartbeat mode st tracking next_at]"
  by (simp add: rows_of_def example_hb_db_def example_heartbeat_def)

lemma heartbeat_due_dates_witness:
  "\<exists>due. scheduled_due_local (example_heartbeat ''scheduled'' ''new'' False None) (90000 * second) = Inr due
     \<and> due = 86400 * second
     \<and> brackets (due_instant (example_heartbeat ''scheduled'' ''new'' False None) 0) (90000 * second) due
         (scheduled_next_due_local (example_heartbeat ''scheduled'' ''new'' False None) due (90000 * second))"
proof -
  let ?h = "example_heartbeat ''scheduled'' ''new'' False None"
  have due: "scheduled_due_local ?h (90000 * second) = Inr (86400 * second)"
    by code_simp
  have "hb_time ?h = Some (clock_text 0 0)"
    by code_simp
  moreover have "(0::int) \<in> {0..23}" "(0::int) \<in> {0..59}"
    by simp_all
  ultimately show ?thesis
    using heartbeat_due_dates [of ?h "90000 * second"] due by fastforce
qed


lemma scheduled_heartbeat_never_overdue_witness:
  "\<exists>n. rows_of 7 (run_hb_ops (scheduler_runs [(example_hb_env 86340, 10), (example_hb_env 86430, 10), (example_hb_env 86550, 10)])
      (example_hb_db (example_heartbeat ''scheduled'' ''new'' False (Some (86400 * second)))))
    = [example_heartbeat ''scheduled'' ''new'' False (Some n)]"
proof -
  let ?h = "example_heartbeat ''scheduled'' ''new'' False (Some (86400 * second))"
  let ?runs = "[(example_hb_env 86340, 10), (example_hb_env 86430, 10), (example_hb_env 86550, 10)]"
  have "offset_zone 0 (hb_zone (\<lambda>_. None) ?h)"
    by (simp add: offset_zone_def hb_zone_def timezone_or_utc_def utc_zone_def)
  moreover have "schedule_time ?h = Inr 0" "compute_next_expected_at (\<lambda>_. None) (86300 * second) ?h = Inr (86400 * second)"
    "whole_seconds (86300 * second) = 86300 * second"
    by code_simp+
  moreover have "list_all (\<lambda>(env, limit). he_tz env = (\<lambda>_. None)) ?runs"
    by (simp add: example_hb_env_def)
  moreover have "kept_up ?h (86300 * second) ?runs (example_hb_db ?h)"
    by code_simp
  ultimately show ?thesis
    using scheduled_heartbeat_never_overdue [OF example_rows, of "''scheduled''" "''new''" False "Some (86400 * second)" 0 "\<lambda>_. None" 0 "86300 * second" "86400 * second" ?runs]
    by (auto simp: example_heartbeat_def)
qed

lemma paused_tracking_heartbeat_stays_paused_witness:
  "\<exists>t. rows_of 7 (run_hb_ops [(example_hb_env 10, Pause 7), (example_hb_env 20, Resume 7), (example_hb_env 900, Check 10 None)]
      (example_hb_db (example_heartbeat ''interval'' ''ok'' True None)))
    = [example_heartbeat ''interval'' ''paused'' True None\<lparr>hb_updated_at := t\<rparr>]"
  using paused_tracking_heartbeat_stays_paused [OF example_rows, of "''interval''" "''ok''" True None "example_hb_env 10"
    "[(example_hb_env 20, Resume 7), (example_hb_env 900, Check 10 None)]"]
  by (auto simp: example_heartbeat_def simp del: hb_op_db.simps run_hb_ops.simps)

lemma resumed_heartbeat_strands_alert_witness:
  "\<exists>h'. rows_of 7 (run_hb_ops [(example_hb_env 10, Pause 7), (example_hb_env 20, Resume 7), (example_hb_env 30, Ping ''t'' [])]
      (example_hb_db (example_heartbeat ''interval'' ''overdue'' False None))) = [h'] \<and> hb_status h' = ''ok'' \<and> hb_alert_group h' = Some 1"
proof -
  have "map_option hb_id (get_heartbeat_by_token (example_hb_env 30) (run_hb_ops [(example_hb_env 10, Pause 7), (example_hb_env 20, Resume 7)]
      (example_hb_db (example_heartbeat ''interval'' ''overdue'' False None))) ''t'') = Some 7"
    by code_simp
  then show ?thesis
    using resumed_heartbeat_strands_alert [OF example_rows, of "''interval''" "''overdue''" False None "example_hb_env 30" "example_hb_env 10" "example_hb_env 20" "''t''" "[]"]
    by (auto simp: example_heartbeat_def simp del: hb_op_db.simps run_hb_ops.simps)
qed

lemma example_ping_accepted:
  "is_Inr (fst (receive_heartbeat_ping (example_hb_env 900) ''t'' [] (example_hb_db (example_heartbeat ''interval'' ''overdue'' False None))))"
  by code_simp


end
