(* ===== verification/Heartbeat_Admin.thy ===== *)
theory Heartbeat_Admin
  imports Heartbeat_Cycle
begin

text \<open>
  How heartbeats are created, edited, deleted and disabled: the request schema
  (\<open>api/schemas/heartbeats.py\<close>), the writes of \<open>modules/db/heartbeats_repo.py\<close>
  and the commands of \<open>views/heartbeats_view.py\<close> after authorisation. Routes and services are
  arguments: the team and source of a route, the team of a service.
\<close>

section \<open>Requests\<close>

record heartbeat_payload =
  pl_team :: int
  pl_route :: int
  pl_service :: "int option"
  pl_name :: string
  pl_slug :: string
  pl_mode :: string
  pl_interval :: "int option"
  pl_grace :: int
  pl_kind :: "string option"
  pl_time :: "string option"
  pl_weekday :: "int option"
  pl_monthday :: "int option"
  pl_timezone :: string
  pl_severity :: string
  pl_priority :: string
  pl_enabled :: bool
  pl_auto_resolve :: bool
  pl_tracking :: bool
  pl_instance_key :: string
  pl_expected_mode :: string
  pl_expected :: "string list"
  pl_ttl_days :: "int option"
  pl_labels :: pydict
  pl_metadata :: pydict
  pl_status :: "string option"

definition in_range :: "int \<Rightarrow> int \<Rightarrow> int option \<Rightarrow> bool" where
  "in_range low high v \<longleftrightarrow> (case v of None \<Rightarrow> True | Some n \<Rightarrow> low \<le> n \<and> n \<le> high)"

definition length_in :: "nat \<Rightarrow> nat \<Rightarrow> string \<Rightarrow> bool" where
  "length_in low high s \<longleftrightarrow> low \<le> length s \<and> length s \<le> high"

text \<open>\<open>^([01]\d|2[0-3]):[0-5]\d$\<close>\<close>

definition schedule_time_pattern :: "string \<Rightarrow> bool" where
  "schedule_time_pattern s \<longleftrightarrow>
     (case s of
        [a, b, c, d, e] \<Rightarrow> (a \<in> set ''01'' \<and> is_digit b \<or> a = CHR ''2'' \<and> b \<in> set ''0123'') \<and> c = CHR '':''
          \<and> d \<in> set ''012345'' \<and> is_digit e
      | _ \<Rightarrow> False)"

text \<open>\<open>^[a-z0-9][a-z0-9_-]*$\<close> and \<open>^[A-Za-z0-9_.:-]+$\<close>\<close>

definition slug_pattern :: "string \<Rightarrow> bool" where
  "slug_pattern s \<longleftrightarrow>
     (let alnum = (\<lambda>c. is_digit c \<or> is_alpha c \<and> lower [c] = [c]) in
      case s of [] \<Rightarrow> False | c # cs \<Rightarrow> alnum c \<and> list_all (\<lambda>c. alnum c \<or> c \<in> set ''_-'') cs)"

definition instance_key_pattern :: "string \<Rightarrow> bool" where
  "instance_key_pattern s \<longleftrightarrow> s \<noteq> [] \<and> list_all (\<lambda>c. is_alpha c \<or> is_digit c \<or> c \<in> set ''_.:-'') s"

definition one_of :: "string list \<Rightarrow> string option \<Rightarrow> bool" where
  "one_of names v \<longleftrightarrow> (case v of None \<Rightarrow> True | Some s \<Rightarrow> s \<in> set names)"

text \<open>The field constraints of the schema, on values whose surrounding white space is stripped.\<close>

definition payload_fields_ok :: "heartbeat_payload \<Rightarrow> bool" where
  "payload_fields_ok p \<longleftrightarrow> 1 \<le> pl_team p \<and> 1 \<le> pl_route p \<and> (case pl_service p of None \<Rightarrow> True | Some i \<Rightarrow> 1 \<le> i)
   \<and> length_in 2 120 (pl_name p) \<and> length_in 2 120 (pl_slug p) \<and> slug_pattern (pl_slug p)
   \<and> one_of [''interval'', ''scheduled''] (Some (pl_mode p))
   \<and> in_range 30 31536000 (pl_interval p) \<and> in_range 0 31536000 (Some (pl_grace p))
   \<and> one_of [''daily'', ''weekly'', ''monthly''] (pl_kind p)
   \<and> (case pl_time p of None \<Rightarrow> True | Some s \<Rightarrow> schedule_time_pattern s)
   \<and> in_range 0 6 (pl_weekday p) \<and> in_range 1 31 (pl_monthday p) \<and> length_in 1 64 (pl_timezone p)
   \<and> one_of [''critical'', ''high'', ''medium'', ''warning'', ''low'', ''info''] (Some (pl_severity p))
   \<and> one_of [''p1'', ''p2'', ''p3'', ''p4'', ''p5''] (Some (pl_priority p))
   \<and> length_in 1 64 (pl_instance_key p) \<and> instance_key_pattern (pl_instance_key p)
   \<and> one_of [''none'', ''static'', ''auto''] (Some (pl_expected_mode p))
   \<and> in_range 1 3650 (pl_ttl_days p)
   \<and> one_of [''new'', ''ok'', ''overdue'', ''paused''] (pl_status p)"

definition validate_mode_fields :: "heartbeat_payload \<Rightarrow> string + heartbeat_payload" where
  "validate_mode_fields p =
     res_bind (if \<not> pl_tracking p
               then Inr (p\<lparr>pl_expected_mode := ''none'', pl_expected := [], pl_ttl_days := None\<rparr>)
               else if pl_expected_mode p = ''static'' \<and> pl_expected p = []
               then Inl ''expected_instances is required when static instance tracking is enabled''
               else if pl_expected_mode p = ''none''
               then Inl ''expected_instances_mode must be static or auto when instance tracking is enabled''
               else Inr p) (\<lambda>p.
       if pl_mode p = ''interval''
       then if fk_truthy (pl_interval p) = None then Inl ''expected_interval_seconds is required for interval heartbeats''
            else Inr (p\<lparr>pl_kind := None, pl_time := None, pl_weekday := None, pl_monthday := None\<rparr>)
       else if pl_kind p = None \<or> pl_kind p = Some [] then Inl ''schedule_kind is required for scheduled heartbeats''
       else if pl_time p = None \<or> pl_time p = Some [] then Inl ''schedule_time is required for scheduled heartbeats''
       else if pl_kind p = Some ''weekly'' \<and> pl_weekday p = None then Inl ''schedule_weekday is required for weekly heartbeats''
       else if pl_kind p = Some ''monthly'' \<and> pl_monthday p = None then Inl ''schedule_monthday is required for monthly heartbeats''
       else Inr (p\<lparr>pl_interval := None\<rparr>))"

definition validate_heartbeat_payload :: "heartbeat_payload \<Rightarrow> string + heartbeat_payload" where
  "validate_heartbeat_payload p =
     (if payload_fields_ok p then validate_mode_fields p else Inl ''validation_error'')"

text \<open>The scope of a request: team, route and service belong together.\<close>

record scope_env =
  sc_route :: "int \<Rightarrow> (int \<times> string) option"
  sc_service :: "int \<Rightarrow> int option"

definition validate_heartbeat_scope :: "scope_env \<Rightarrow> access_db \<Rightarrow> heartbeat_payload \<Rightarrow> string option" where
  "validate_heartbeat_scope sc db p =
     (case get_team db (pl_team p) of
        Inl _ \<Rightarrow> Some ''team_not_found''
      | Inr t \<Rightarrow>
          (case sc_route sc (pl_route p) of
             None \<Rightarrow> Some ''route_not_found''
           | Some (route_team, route_source) \<Rightarrow>
               if route_team \<noteq> t_id t then Some ''route_team_mismatch''
               else if route_source \<noteq> ''heartbeat'' then Some ''route_source_mismatch''
               else case fk_truthy (pl_service p) of
                 None \<Rightarrow> None
               | Some s \<Rightarrow> if sc_service sc s \<noteq> Some (t_id t) then Some ''service_team_mismatch'' else None))"

text \<open>The columns a request sets; the token's are set when there is one.\<close>

definition heartbeat_data :: "int option \<Rightarrow> heartbeat_payload \<Rightarrow> string option \<Rightarrow> heartbeat_row \<Rightarrow> heartbeat_row" where
  "heartbeat_data grp p token_hash h =
     h\<lparr>hb_team := pl_team p, hb_route := pl_route p, hb_service := pl_service p, hb_name := pl_name p, hb_slug := pl_slug p,
       hb_mode := pl_mode p, hb_interval := pl_interval p, hb_grace := pl_grace p, hb_kind := pl_kind p, hb_time := pl_time p,
       hb_weekday := pl_weekday p, hb_monthday := pl_monthday p, hb_timezone := pl_timezone p, hb_severity := pl_severity p,
       hb_priority_slug := pl_priority p, hb_enabled := pl_enabled p, hb_auto_resolve := pl_auto_resolve p,
       hb_tracking := pl_tracking p, hb_instance_key := or_text (pl_instance_key p) ''instance'',
       hb_expected_mode := pl_expected_mode p, hb_ttl_days := pl_ttl_days p, hb_labels := pl_labels p,
       hb_metadata := dset (pl_metadata p) ''expected_instances'' (PList (map PStr (pl_expected p))), hb_group := grp,
       hb_token_hash := (case token_hash of None \<Rightarrow> hb_token_hash h | Some t \<Rightarrow> t)\<rparr>"

section \<open>Writes\<close>

definition get_heartbeat_by_slug :: "hb_db \<Rightarrow> int \<Rightarrow> string \<Rightarrow> bool \<Rightarrow> heartbeat_row option" where
  "get_heartbeat_by_slug db team_id slug include_deleted =
     find (\<lambda>h. hb_team h = team_id \<and> hb_slug h = slug \<and> (include_deleted \<or> \<not> hb_deleted h)) (hb_rows db)"

text \<open>The unique indexes of the table, for a row to be written, and a write under them.\<close>

definition heartbeat_unique :: "hb_db \<Rightarrow> heartbeat_row \<Rightarrow> bool" where
  "heartbeat_unique db h \<longleftrightarrow>
     \<not> list_ex (\<lambda>r. hb_id r \<noteq> hb_id h \<and> (hb_team r = hb_team h \<and> hb_slug r = hb_slug h \<or> hb_token_hash r = hb_token_hash h)) (hb_rows db)"

definition store_heartbeat :: "heartbeat_row \<Rightarrow> heartbeat_row hbm" where
  "store_heartbeat h =
     db_bind (db_read (\<lambda>db. if heartbeat_unique db h then Inr () else Inl (IntegrityError ''heartbeat''))) (\<lambda>_.
     db_bind (db_write (save_heartbeat h)) (\<lambda>_. db_return h))"

definition update_heartbeat :: "hb_env \<Rightarrow> heartbeat_row \<Rightarrow> (heartbeat_row \<Rightarrow> heartbeat_row) \<Rightarrow> heartbeat_row hbm" where
  "update_heartbeat env h data = store_heartbeat ((data h)\<lparr>hb_updated_at := al_now (he_alert env)\<rparr>)"

definition delete_heartbeat_instances :: "int \<Rightarrow> hb_db \<Rightarrow> hb_db" where
  "delete_heartbeat_instances i db = db\<lparr>hi_rows := filter (\<lambda>x. hi_heartbeat x \<noteq> i) (hi_rows db)\<rparr>"

text \<open>The defaults of the columns; \<open>uid\<close> is the generated UUID.\<close>

definition new_heartbeat_row :: "hb_env \<Rightarrow> string \<Rightarrow> int \<Rightarrow> heartbeat_row" where
  "new_heartbeat_row env uid i =
     \<lparr>hb_id = i, hb_uid = uid, hb_group = None, hb_team = 0, hb_service = None, hb_route = 0, hb_name = [], hb_slug = [],
      hb_mode = ''interval'', hb_interval = None, hb_grace = 300, hb_kind = None, hb_time = None, hb_weekday = None,
      hb_monthday = None, hb_timezone = ''UTC'', hb_status = ''new'', hb_enabled = True, hb_deleted = False, hb_auto_resolve = True,
      hb_tracking = False, hb_instance_key = ''instance'', hb_expected_mode = ''none'', hb_ttl_days = None,
      hb_severity = ''critical'', hb_priority_slug = ''p2'', hb_token_hash = [], hb_last_seen = None, hb_last_payload = [],
      hb_next_expected = None, hb_overdue_since = None, hb_last_overdue_at = None, hb_last_recovered_at = None,
      hb_alert_group = None, hb_labels = [], hb_metadata = [], hb_created_at = al_now (he_alert env), hb_updated_at = al_now (he_alert env)\<rparr>"

definition create_heartbeat :: "hb_env \<Rightarrow> string \<Rightarrow> int \<Rightarrow> string \<Rightarrow> (heartbeat_row \<Rightarrow> heartbeat_row) \<Rightarrow> heartbeat_row hbm" where
  "create_heartbeat env uid team slug data =
     db_bind (db_read (\<lambda>db. Inr (get_heartbeat_by_slug db team slug True))) (\<lambda>existing.
     case (case existing of None \<Rightarrow> None | Some h \<Rightarrow> if hb_deleted h then Some h else None) of
       Some h \<Rightarrow>
         db_bind (db_write (delete_heartbeat_instances (hb_id h))) (\<lambda>_.
         store_heartbeat ((data h)\<lparr>hb_status := ''new'', hb_last_seen := None, hb_last_payload := [], hb_next_expected := None,
           hb_overdue_since := None, hb_last_overdue_at := None, hb_last_recovered_at := None, hb_alert_group := None,
           hb_deleted := False, hb_updated_at := al_now (he_alert env)\<rparr>))
     | None \<Rightarrow>
         db_bind (db_read (\<lambda>db.
           let h = data (new_heartbeat_row env uid (env_new_id (al_env (he_alert env)) (map hb_id (hb_rows db))))
           in if heartbeat_unique db h then Inr h else Inl (IntegrityError ''heartbeat''))) (\<lambda>h.
         db_bind (db_write (\<lambda>db. db\<lparr>hb_rows := hb_rows db @ [h]\<rparr>)) (\<lambda>_. db_return h)))"

text \<open>\<open>resolve_alert_groups_by_ids\<close> of \<open>modules/db/soft_delete_hardening.py\<close>\<close>

definition resolve_alert_groups_by_ids :: "int \<Rightarrow> string \<Rightarrow> int list \<Rightarrow> alert_db \<Rightarrow> alert_db" where
  "resolve_alert_groups_by_ids now reason group_ids db =
     db\<lparr>ca_rows := map (\<lambda>a. if ca_group a \<in> Some ` set group_ids \<and> ca_status a \<noteq> ''resolved''
          then a\<lparr>ca_previous_status := Some (ca_status a), ca_status := ''resolved'', ca_resolved_at := Some now\<rparr> else a) (ca_rows db),
        ag_rows := map (\<lambda>g. if ag_id g \<in> set group_ids \<and> g_status g \<notin> {''resolved'', ''merged''}
          then g\<lparr>ag_previous_status := Some (g_status g), g_status := ''resolved'', ag_resolved_at := Some now,
            g_next_escalation_at := None, g_notification_due_at := None, g_notification_pending := False,
            g_notification_reason := Some reason, ag_firing_count := 0, ag_acknowledged_count := 0, ag_silenced_count := 0,
            ag_resolved_count := ag_alert_count g, g_updated_at := now\<rparr> else g) (ag_rows db)\<rparr>"

definition truthy_ids :: "int option list \<Rightarrow> int list" where
  "truthy_ids refs = concat (map (\<lambda>r. case fk_truthy r of None \<Rightarrow> [] | Some i \<Rightarrow> [i]) refs)"

definition soft_delete_heartbeat :: "hb_env \<Rightarrow> heartbeat_row \<Rightarrow> heartbeat_row hbm" where
  "soft_delete_heartbeat env h =
     (let now = al_now (he_alert env);
          h' = h\<lparr>hb_deleted := True, hb_enabled := False, hb_status := ''paused'', hb_next_expected := None,
                 hb_overdue_since := None, hb_alert_group := None, hb_updated_at := now\<rparr> in
      db_bind (db_read (\<lambda>db. Inr (truthy_ids (hb_alert_group h # map hi_alert_group (filter (\<lambda>i. hi_heartbeat i = hb_id h) (hi_rows db)))))) (\<lambda>group_ids.
      db_bind (in_alerts (db_write (resolve_alert_groups_by_ids now ''heartbeat_deleted'' group_ids))) (\<lambda>_.
      db_bind (db_write (delete_heartbeat_instances (hb_id h))) (\<lambda>_.
      db_bind (db_write (save_heartbeat h')) (\<lambda>_. db_return h')))))"

definition disable_heartbeat_instance :: "hb_env \<Rightarrow> instance_row \<Rightarrow> string \<Rightarrow> instance_row hbm" where
  "disable_heartbeat_instance env i status =
     (let i = i\<lparr>hi_enabled := False, hi_status := status, hi_updated_at := al_now (he_alert env)\<rparr> in
      db_bind (db_write (save_instance i)) (\<lambda>_. db_return i))"

section \<open>Commands\<close>

text \<open>What both write commands do after the row is stored.\<close>

definition schedule_stored :: "hb_env \<Rightarrow> heartbeat_payload \<Rightarrow> heartbeat_row \<Rightarrow> (string + heartbeat_row) hbm" where
  "schedule_stored env p h =
     db_bind (if hb_tracking h then sync_heartbeat_static_instances env h (map PStr (pl_expected p))
              else db_bind (initialize_heartbeat_schedule env h) (\<lambda>_. db_return ())) (\<lambda>_.
     db_bind (db_read (\<lambda>db. get_heartbeat db (hb_id h))) (\<lambda>h. db_return (Inr h)))"

definition team_group :: "hb_db \<Rightarrow> int \<Rightarrow> int option dbr" where
  "team_group db team_id = res_bind (get_team (core_db (hb_alerts db)) team_id) (\<lambda>t. Inr (t_group_id t))"

text \<open>\<open>try: ... except IntegrityError\<close>\<close>

definition catch_integrity :: "'a hbm \<Rightarrow> (string + 'a) hbm" where
  "catch_integrity m db = (case m db of
     (Inl (IntegrityError _), db') \<Rightarrow> (Inr (Inl ''conflict''), db') | (Inl e, db') \<Rightarrow> (Inl e, db') | (Inr x, db') \<Rightarrow> (Inr (Inr x), db'))"

definition create_heartbeat_command :: "hb_env \<Rightarrow> scope_env \<Rightarrow> string \<Rightarrow> heartbeat_payload \<Rightarrow> (string + heartbeat_row) hbm" where
  "create_heartbeat_command env sc uid request =
     (case validate_heartbeat_payload request of
        Inl e \<Rightarrow> db_return (Inl e)
      | Inr p \<Rightarrow>
          db_bind (db_read (\<lambda>db. Inr (validate_heartbeat_scope sc (core_db (hb_alerts db)) p,
                                      get_heartbeat_by_slug db (pl_team p) (pl_slug p) True))) (\<lambda>(refusal, existing).
          case refusal of
            Some e \<Rightarrow> db_return (Inl e)
          | None \<Rightarrow>
              if (case existing of None \<Rightarrow> False | Some h \<Rightarrow> \<not> hb_deleted h) then db_return (Inl ''conflict'')
              else
                let e = al_env (he_alert env) in
                db_bind (db_read (\<lambda>db. team_group db (pl_team p))) (\<lambda>grp.
                db_bind (catch_integrity (create_heartbeat env uid (pl_team p) (pl_slug p)
                           (heartbeat_data grp p (Some (env_hash_token e (env_raw_token e)))))) (\<lambda>created.
                case created of Inl code \<Rightarrow> db_return (Inl code) | Inr h \<Rightarrow> schedule_stored env p h))))"

definition update_heartbeat_command :: "hb_env \<Rightarrow> scope_env \<Rightarrow> int \<Rightarrow> heartbeat_payload \<Rightarrow> (string + heartbeat_row) hbm" where
  "update_heartbeat_command env sc i request =
     db_bind (db_read (\<lambda>db. get_heartbeat db i)) (\<lambda>item.
     case validate_heartbeat_payload request of
       Inl e \<Rightarrow> db_return (Inl e)
     | Inr p \<Rightarrow>
         db_bind (db_read (\<lambda>db. Inr (validate_heartbeat_scope sc (core_db (hb_alerts db)) p,
                                     get_heartbeat_by_slug db (pl_team p) (pl_slug p) True))) (\<lambda>(refusal, existing).
         case refusal of
           Some e \<Rightarrow> db_return (Inl e)
         | None \<Rightarrow>
             if (case existing of None \<Rightarrow> False | Some h \<Rightarrow> hb_id h \<noteq> hb_id item \<and> \<not> hb_deleted h) then db_return (Inl ''conflict'')
             else
               db_bind (db_read (\<lambda>db. team_group db (pl_team p))) (\<lambda>grp.
               db_bind (update_heartbeat env item (\<lambda>h.
                 let h = heartbeat_data grp p None h
                 in case pl_status p of None \<Rightarrow> h | Some s \<Rightarrow> if s = [] then h else h\<lparr>hb_status := s\<rparr>)) (schedule_stored env p))))"

definition delete_command :: "hb_env \<Rightarrow> int \<Rightarrow> heartbeat_row hbm" where
  "delete_command env i = db_bind (db_read (\<lambda>db. get_heartbeat db i)) (soft_delete_heartbeat env)"

definition disable_instance_command :: "hb_env \<Rightarrow> int \<Rightarrow> int \<Rightarrow> (string + instance_row) hbm" where
  "disable_instance_command env i instance_id =
     db_bind (db_read (\<lambda>db. get_heartbeat db i)) (\<lambda>item.
     db_bind (db_read (\<lambda>db. Inr (find (\<lambda>c. hi_id c = instance_id) (list_heartbeat_instances db (hb_id item) False)))) (\<lambda>found.
     case found of
       None \<Rightarrow> db_return (Inl ''instance_not_found'')
     | Some c \<Rightarrow>
         db_bind (disable_heartbeat_instance env c ''paused'') (\<lambda>c.
         db_bind (refresh_heartbeat_instance_rollup env item) (\<lambda>_. db_return (Inr c)))))"

definition regenerate_token_command :: "hb_env \<Rightarrow> int \<Rightarrow> heartbeat_row hbm" where
  "regenerate_token_command env i =
     (let e = al_env (he_alert env) in
      db_bind (db_read (\<lambda>db. get_heartbeat db i)) (\<lambda>item.
      atomic (update_heartbeat env item (\<lambda>h. h\<lparr>hb_token_hash := env_hash_token e (env_raw_token e)\<rparr>))))"

end
