(* ===== verification/Spec2Isabelle.thy ===== *)
theory Spec2Isabelle
  imports Severity Matchers Orch_Engine Token_Scopes Auth_Throttle Calendar_Agreement Escalation
    Member_Audit Heartbeat_Admin_Safety
begin

text \<open>
  Verification of IncidentRelay, an on-call and incident-management server written in Python
  (\<open>src/app\<close>).

  \<^bold>\<open>The program.\<close> Integrations deliver events over HTTP. An event passes through Event
  Orchestration (\<open>services/orchestration\<close>), a rule engine that rewrites, suppresses, pauses or
  drops it, and through alert matchers (\<open>services/routing/matcher\<close>) that choose routes. What
  is left becomes an alert group, which responders acknowledge, resolve, shelve, merge and assign
  (\<open>services/alerts/actions.py\<close>, \<open>shelving.py\<close>, \<open>assignment.py\<close>, over
  \<open>modules/db/alerts_repo.py\<close>). A scheduler escalates unacknowledged groups by an escalation
  policy (\<open>services/escalation_policies.py\<close>, \<open>services/alerts/escalation.py\<close>), unless a
  maintenance window holds them (\<open>services/alerts/maintenance_state.py\<close>,
  \<open>modules/db/maintenance_repo.py\<close>), and pages the user on call (\<open>services/oncall.py\<close>) by the
  slots of rotation layers (\<open>services/rotation_schedule.py\<close>). The same rotations are shown as a
  calendar (\<open>services/calendar_service.py\<close>). Jobs report by heartbeats
  (\<open>services/heartbeats/service.py\<close>, \<open>modules/db/heartbeats_repo.py\<close>, \<open>views/heartbeats_view.py\<close>): a
  silent one opens an alert group, its next ping resolves it. Users log in under a rate limit
  (\<open>services/auth_throttle.py\<close>, \<open>views/auth_view.py\<close>); programs use tokens with scopes
  (\<open>services/api_token_scopes.py\<close>). Groups own teams, teams own rotations; what a user may do is
  decided by roles in groups and teams (\<open>services/rbac.py\<close>), which the membership endpoints
  change (\<open>views/groups_view.py\<close>, \<open>views/teams_view.py\<close>, over \<open>modules/db/*_repo.py\<close>) and
  the audit log records (\<open>services/audit.py\<close>, \<open>modules/redaction.py\<close>).

  \<^bold>\<open>Conventions.\<close> A Python function is a HOL function of the same name, without a leading
  underscore. Exceptions are values: a function that may raise returns \<open>exn + 'a\<close>, sequenced by
  \<open>res_bind\<close>; mutable state is passed and returned. Instants are integers in microseconds.
  A table is a list or a map of records, a query a filter and a sort. Loops are structural
  recursion or functions with a termination proof; there is no fuel in the development.
  Parameters stand for code outside the repository: the regular-expression
  engine and the literal parser of conditions and templates (\<open>py_lib\<close>), SHA-256, the credential check, the IANA time-zone database (\<open>tzdb\<close>), the
  recurrence rules of \<open>dateutil\<close> (\<open>rrulestr\<close>), and the delivery of notifications. The intake of
  the alerts that overdue heartbeats raise (\<open>he_upsert\<close>) and the lookups of the scope check of
  \<open>heartbeats_view.py\<close> (\<open>scope_env\<close>) are parameters too, as those parts are not modelled; properties hold
  for every value of them unless a hypothesis is named.

  \<^bold>\<open>Theories, their sources and what is shown.\<close>
  \<^item> \<open>Py_Values\<close>: the prelude. JSON-like values, dictionaries as association lists, exceptions,
    text and number functions. \<open>Py_Regex\<close>: a matcher for the fixed patterns of the sources.
  \<^item> \<open>Interfaces\<close>: contracts as locales, for entry points guarded by a validator, stores with a
    checked assignment, and loops that stop at a step; \<open>Orch_Templates\<close>, \<open>Orch_Variables\<close>,
    \<open>Orch_Actions_Correct\<close> and \<open>Orch_Engine\<close> interpret them.
  \<^item> \<open>Severity\<close> (\<open>severity.py\<close>), \<open>Matchers\<close> (\<open>routing/matcher\<close>): normal forms, and that the
    matcher decides its reference predicate and reports what validation promises.
  \<^item> \<open>Orch_Fields\<close>, \<open>Orch_Regex\<close>, \<open>Orch_Conditions\<close>, \<open>Orch_Templates\<close>, \<open>Orch_Variables\<close>
    (the modules \<open>fields\<close>, \<open>regex\<close>, \<open>conditions\<close>, \<open>templates\<close>, \<open>variables\<close> of
    \<open>orchestration\<close>): references stay within the event, condition trees denote formulas
    over operators with a meaning of their own (\<open>operator_holds\<close>),
    templates render a specification, extraction stops at its first failure within limits.
  \<^item> \<open>Orch_Actions\<close> (\<open>actions.py\<close>), \<open>Orch_Actions_Correct\<close>: every action and its executor; the
    disposition of an event is consistent, failed actions leave no trace but two.
  \<^item> \<open>Orch_Engine\<close> (\<open>engine.py\<close>, \<open>evaluator.py\<close>): rule trees; rules run in order, each in the state
    the one before it left (\<open>ran_in_order\<close>), nothing runs after a stop, the outcome agrees with the disposition.
  \<^item> \<open>Token_Scopes\<close> (\<open>api_token_scopes.py\<close>): delegation never escalates, and the required scope
    does not depend on the order of the table.
  \<^item> \<open>Auth_Throttle\<close> (\<open>auth_throttle.py\<close>, the login handler of \<open>auth_view.py\<close>): the number of
    password checks per window is bounded, blocks lift; reachable tables are an inductive
    predicate with the invariant \<open>table_ok\<close>. The account result needs that a block outlasts the
    window, a window the retention of rows, and that the buckets in use do not collide.
  \<^item> \<open>Rotation_Schedule\<close> (\<open>rotation_schedule.py\<close>, \<open>modules/common.py\<close>): slots and boundaries.
    The locale \<open>slot_schedule\<close> is what clients use of them; layers interpret it while their
    zone keeps its offset over a slot (\<open>regular_ahead\<close>). In the repeated hour at the end of
    daylight saving time a boundary can lie in the past, which is shown by an example.
  \<^item> \<open>On_Call\<close> (\<open>oncall.py\<close>, queries of \<open>modules/db/rotations_repo.py\<close>): who is on call, which
    user is next, restrictions as windows of the week.
  \<^item> \<open>Calendar\<close> (\<open>calendar_service.py\<close>): the collapse of candidate events shows at every
    instant the covering candidate that no other outranks (\<open>first_ranked\<close>).
    \<open>Calendar_Agreement\<close>: calendar and paging agree (\<open>plain_schedule\<close>: layers
    without restrictions, active members, unique keys, steady zones).
  \<^item> \<open>Maintenance_Windows\<close> (\<open>maintenance_repo.py\<close>): when a window is in force.
  \<^item> \<open>Escalation\<close> (\<open>escalation_policies.py\<close>, \<open>alerts/escalation.py\<close>, pausing and resuming of
    \<open>alerts/maintenance_state.py\<close>): the scheduler's tick refines the inductive machine
    \<open>policy_step\<close>; a policy escalates a bounded number of times and is walked to its end.
  \<^item> \<open>Access_Store\<close>, \<open>Access_Writes\<close>: the tables of groups, teams, users, memberships and tokens
    as one database, computations over it that may raise, transactions, and the repository
    functions; \<open>db_wf\<close> is the invariant of keys, unique indexes, references and roles.
  \<^item> \<open>Rbac\<close> (\<open>rbac.py\<close>), \<open>Rbac_Correct\<close>: the questions, lists and guards of access control; lists
    and questions agree, permissions are ordered, what a token's group confines.
  \<^item> \<open>Audit_Log\<close> (\<open>redaction.py\<close>, \<open>audit.py\<close>, \<open>audit_repo.py\<close>): redaction of JSON
    values by key and by pattern, with the substitutions as a parameter, and the writing of records,
    which fails on an unknown transport or reference only.
  \<^item> \<open>Member_Api\<close>: the membership endpoints. \<open>Member_Steps\<close>: rules for computations (\<open>wp\<close>), and
    every request is an \<open>api_change\<close>, an inductive list of the guarded writes there are.
    \<open>Member_Invariant\<close>: each keeps \<open>db_wf\<close>. \<open>Member_Safety\<close>: over runs of requests, groups are
    isolated from outsiders and nobody but a global administrator makes an administrator.
    \<open>Member_Audit\<close>: requests are all or nothing and logged; removal revokes everything.
  \<^item> \<open>Db_Monad\<close>: computations over a database that may raise, transactions, and the rules \<open>wp\<close>;
    the locales \<open>guarded_steps\<close> and \<open>stable_steps\<close> of invariants and stable properties of runs.
    \<open>Civil_Dates\<close>: the proleptic Gregorian calendar, both ways, and \<open>isoformat\<close>.
  \<^item> \<open>Alert_Groups\<close> (\<open>alerts_repo.py\<close>, \<open>shelving_repo.py\<close>, \<open>alerts/actions.py\<close>,
    \<open>shelving.py\<close>, \<open>assignment.py\<close>, \<open>notification_queue.py\<close>): the tables of alert groups,
    alerts, shelves, merges, events and deliveries, and the operations on them, each up to the end
    of its transaction. \<open>Alert_Lifecycle\<close>: every operation is a run of \<open>lstep\<close>, an inductive
    list of the changes of state there are, and each keeps \<open>alert_wf\<close>. \<open>Alert_Merge\<close>: what merging
    does to the tables; closed groups stay closed. \<open>Alert_Safety\<close>: what each action leaves, over
    all branches, and the group that merging into a merged group strands. Alerts may be in any status:
    \<open>maintenance_state.py\<close> puts them into one that recalculation does not count (\<open>counted\<close>), and
    then a group keeps the status it had. What needs all alerts counted says so (\<open>all_counted\<close>).
  \<^item> \<open>Heartbeat_Schedule\<close> (the date functions of \<open>heartbeats/service.py\<close>), \<open>Heartbeats\<close> (its operations,
    queries of \<open>heartbeats_repo.py\<close>, \<open>schedule_recovery_notification\<close>): pings, pauses, resumes and the
    scheduler's check over heartbeats and their instances; a ping or check that raises keeps
    what it wrote, as the code has no transaction there. \<open>Heartbeat_Steps\<close>, \<open>Heartbeat_Cycle\<close>: frames, and one run of the
    scheduler. \<open>Heartbeat_Safety\<close>: due dates against the days a schedule names, silence becomes
    overdue, pings recover, and three ways to miss a silence or lose an alert.
  \<^item> \<open>Heartbeat_Admin\<close> (\<open>heartbeats_view.py\<close>, \<open>api/schemas/heartbeats.py\<close>, writes of
    \<open>heartbeats_repo.py\<close>), \<open>Heartbeat_Admin_Safety\<close>: the endpoints after authorisation; accepted
    rows have computable schedules, deletion is final.

  \<^bold>\<open>Bounds.\<close> Limits of the program (nesting, numbers of rules, labels, variables, lengths) are
  constants with the values of the source. The engine's row ids are any function that returns an
  unused nonzero one (\<open>fresh_ids\<close>). Strings are lists of 8-bit characters with ASCII case
  mapping. Datetimes have no least or greatest value,
  so the errors of years outside 1 to 9999 do not occur; a call of the escalation step runs at one
  instant, a login at three.

  \<^bold>\<open>Not modelled.\<close> HTTP views and schemas other than the login, the membership and the
  heartbeat endpoints, Pydantic's validation (a heartbeat payload is read into a record of typed fields
  whose constraints are modelled), the OpenAPI description, other serialisers; the soft deletion of groups,
  teams and users; notifiers and integrations (network I/O, third-party payloads); the orchestration
  runtime, simulator and webhooks (transactions and HTTP around the engine); SSO and token
  cryptography; the interface in JavaScript; seed and migration tools. What an action on an alert group does after
  its transaction (refreshing correlations and business services, updating delivered messages),
  the intake of alerts, comments and explain traces, the application and release of maintenance
  windows, reminders, incidents and the scoring of service impact are not modelled. Of heartbeats the
  authorisation and audit of the endpoints, the worker's lock and the descriptive columns (description,
  token prefix, remote address, user agent) are left out. Exceptions left out: \<open>re.compile\<close>'s
  \<open>OverflowError\<close> in \<open>validate_regex_pattern\<close>, which the code does not catch; \<open>ast.literal_eval\<close>'s
  \<open>TypeError\<close> in \<open>literal_arguments\<close>, likewise; of the audit insert all but foreign keys.
  \<open>redact_secrets\<close> is over JSON values, not bytes, sets, exceptions or keys that are no strings.
\<close>

end
